(* ===== verification/Ofc_Prelude.thy ===== *)
theory Ofc_Prelude
  imports Complex_Main "HOL-Library.AList" "HOL-Library.Sublist" "HOL-Library.Char_ord"
    "HOL-Library.List_Lexorder"
begin

text \<open>
  Vocabulary shared by every component of the development.

  \<^item> Machine integers that cannot wrap in the modelled code are \<open>nat\<close>; the two counters that
    the code increments without a check (\<open>u32\<close> tick counters, \<open>u64\<close> tokens) go through
    \<open>u32_inc\<close> and \<open>u64_inc\<close>, which wrap as a release build does. Saturating \<open>u8\<close> arithmetic is
    \<open>u8_sat_add\<close>; saturating subtraction is the subtraction of \<open>nat\<close>.
  \<^item> \<open>std::time::Instant\<close> and \<open>Duration\<close> are natural numbers of nanoseconds on one monotonic
    clock; \<open>saturating_duration_since\<close> is subtraction of \<open>nat\<close>.
  \<^item> A \<open>HashMap\<close> is an association list: \<open>map_of\<close> is \<open>get\<close>, \<open>hm_insert\<close> is \<open>insert\<close>,
    \<open>hm_remove\<close> is \<open>remove\<close>, \<open>hm_retain\<close> is \<open>retain\<close>. The list order stands for the map's
    arbitrary iteration order: a theorem about every list is a theorem about every order. The
    locale \<open>hash_map\<close> states the laws clients use; it is interpreted on these operations.
  \<^item> A Rust string is a \<open>string\<close> of bytes; \<open>to_lowercase\<close> is the ASCII mapping.
\<close>

named_theorems pct_intro \<open>bounds of percentages\<close>

type_synonym u8 = nat
type_synonym u32 = nat
type_synonym u64 = nat
type_synonym instant = nat
type_synonym duration = nat
type_synonym ('k, 'v) hmap = "('k \<times> 'v) list"

abbreviation secs :: "nat \<Rightarrow> duration" where
  "secs n \<equiv> n * 1000000000"

definition as_secs :: "duration \<Rightarrow> u64" where
  "as_secs d = d div 1000000000"

definition u32_inc :: "u32 \<Rightarrow> u32" where
  "u32_inc n = (n + 1) mod 2 ^ 32"

definition u64_inc :: "u64 \<Rightarrow> u64" where
  "u64_inc n = (n + 1) mod 2 ^ 64"

definition u8_sat_add :: "u8 \<Rightarrow> u8 \<Rightarrow> u8" where
  "u8_sat_add a b = min 255 (a + b)"

lemma u32_inc_nowrap [simp]: "n < 4294967295 \<Longrightarrow> u32_inc n = Suc n"
  by (simp add: u32_inc_def)

lemma u64_inc_nowrap [simp]: "n < 18446744073709551615 \<Longrightarrow> u64_inc n = Suc n"
  by (simp add: u64_inc_def)

section \<open>Hash maps\<close>

definition hm_insert :: "'k \<Rightarrow> 'v \<Rightarrow> ('k, 'v) hmap \<Rightarrow> ('k, 'v) hmap" where
  "hm_insert k v m = AList.update k v m"

definition hm_remove :: "'k \<Rightarrow> ('k, 'v) hmap \<Rightarrow> ('k, 'v) hmap" where
  "hm_remove k m = AList.delete k m"

definition hm_retain :: "('k \<Rightarrow> 'v \<Rightarrow> bool) \<Rightarrow> ('k, 'v) hmap \<Rightarrow> ('k, 'v) hmap" where
  "hm_retain p m = filter (\<lambda>(k, v). p k v) m"

definition hm_contains :: "('k, 'v) hmap \<Rightarrow> 'k \<Rightarrow> bool" where
  "hm_contains m k = (map_of m k \<noteq> None)"

definition hm_ok :: "('k, 'v) hmap \<Rightarrow> bool" where
  "hm_ok m = distinct (map fst m)"

text \<open>\<open>iter().map(..).collect()\<close> into a map: a later pair with the same key wins.\<close>

definition hm_collect :: "('k \<times> 'v) list \<Rightarrow> ('k, 'v) hmap" where
  "hm_collect ps = fold (\<lambda>(k, v) m. hm_insert k v m) ps []"

locale hash_map =
  fixes get :: "'m \<Rightarrow> 'k \<Rightarrow> 'v option"
    and emp :: 'm
    and ins :: "'k \<Rightarrow> 'v \<Rightarrow> 'm \<Rightarrow> 'm"
    and del :: "'k \<Rightarrow> 'm \<Rightarrow> 'm"
    and retain :: "('k \<Rightarrow> 'v \<Rightarrow> bool) \<Rightarrow> 'm \<Rightarrow> 'm"
    and ok :: "'m \<Rightarrow> bool"
  assumes get_empty: "get emp k = None"
    and get_insert: "get (ins k v m) k' = (if k' = k then Some v else get m k')"
    and get_remove: "get (del k m) k' = (if k' = k then None else get m k')"
    and get_retain: "ok m \<Longrightarrow> get (retain p m) k =
      (case get m k of None \<Rightarrow> None | Some v \<Rightarrow> if p k v then Some v else None)"
    and ok_empty: "ok emp"
    and ok_insert: "ok m \<Longrightarrow> ok (ins k v m)"
    and ok_remove: "ok m \<Longrightarrow> ok (del k m)"
    and ok_retain: "ok m \<Longrightarrow> ok (retain p m)"
begin

lemma get_insert_remove: "get (del k (ins k v m)) k' = get (del k m) k'"
  by (simp add: get_insert get_remove)

lemma retain_idem: "ok m \<Longrightarrow> get (retain p (retain p m)) k = get (retain p m) k"
  by (simp add: get_retain ok_retain split: option.split)

lemma retain_subset: "ok m \<Longrightarrow> get (retain p m) k = Some v \<Longrightarrow> get m k = Some v \<and> p k v"
  by (auto simp: get_retain split: option.splits if_splits)

lemma retain_keep: "ok m \<Longrightarrow> get m k = Some v \<Longrightarrow> p k v \<Longrightarrow> get (retain p m) k = Some v"
  by (simp add: get_retain)

end

lemma map_of_hm_insert [simp]: "map_of (hm_insert k v m) = (map_of m)(k \<mapsto> v)"
  by (simp add: hm_insert_def update_conv')

lemma map_of_hm_remove [simp]: "map_of (hm_remove k m) = (map_of m)(k := None)"
  by (simp add: hm_remove_def delete_conv')

lemma map_of_hm_retain:
  "hm_ok m \<Longrightarrow> map_of (hm_retain p m) k =
     (case map_of m k of None \<Rightarrow> None | Some v \<Rightarrow> if p k v then Some v else None)"
proof (induction m)
  case (Cons kv m)
  then have "map_of m (fst kv) = None"
    by (simp add: hm_ok_def map_of_eq_None_iff)
  with Cons show ?case
    by (cases kv) (auto simp: hm_ok_def hm_retain_def split: option.split if_splits)
qed (simp add: hm_retain_def)

lemma hm_ok_Nil [simp]: "hm_ok []"
  by (simp add: hm_ok_def)

lemma hm_ok_insert [simp]: "hm_ok m \<Longrightarrow> hm_ok (hm_insert k v m)"
  by (simp add: hm_ok_def hm_insert_def distinct_update)

lemma hm_ok_remove [simp]: "hm_ok m \<Longrightarrow> hm_ok (hm_remove k m)"
  by (simp add: hm_ok_def hm_remove_def distinct_delete)

lemma hm_ok_retain [simp]: "hm_ok m \<Longrightarrow> hm_ok (hm_retain p m)"
  by (simp add: hm_ok_def hm_retain_def distinct_map_filter)

interpretation hm: hash_map map_of "[]" hm_insert hm_remove hm_retain hm_ok
  by unfold_locales (simp_all add: map_of_hm_retain)

lemma fold_hm_insert:
  "map_of (fold (\<lambda>(k, v) m. hm_insert k v m) ps m) k =
     (case map_of (rev ps) k of None \<Rightarrow> map_of m k | Some v \<Rightarrow> Some v)"
  by (induction ps arbitrary: m) (auto simp: map_add_def split: option.split)

lemma map_of_hm_collect: "map_of (hm_collect ps) k = map_of (rev ps) k"
  by (simp add: hm_collect_def fold_hm_insert split: option.split)

lemma map_of_hm_collect_distinct: "hm_ok ps \<Longrightarrow> map_of (hm_collect ps) k = map_of ps k"
proof -
  assume "hm_ok ps"
  then have "map_of (rev ps) = map_of ps"
    by (simp add: hm_ok_def map_of_inject_set rev_map [symmetric])
  then show ?thesis by (simp add: map_of_hm_collect)
qed

section \<open>Strings\<close>

definition ascii_lower :: "char \<Rightarrow> char" where
  "ascii_lower c = (let n = (of_char c :: nat) in if 65 \<le> n \<and> n \<le> 90 then char_of (n + 32) else c)"

definition to_lower :: "string \<Rightarrow> string" where
  "to_lower s = map ascii_lower s"

fun str_contains :: "string \<Rightarrow> string \<Rightarrow> bool" where
  "str_contains [] pat = (pat = [])"
| "str_contains (c # s) pat = (prefix pat (c # s) \<or> str_contains s pat)"

fun strip_prefix :: "string \<Rightarrow> string \<Rightarrow> string option" where
  "strip_prefix [] s = Some s"
| "strip_prefix (p # ps) [] = None"
| "strip_prefix (p # ps) (c # s) = (if p = c then strip_prefix ps s else None)"

fun split_once :: "string \<Rightarrow> string \<Rightarrow> (string \<times> string) option" where
  "split_once pat [] = (if pat = [] then Some ([], []) else None)"
| "split_once pat (c # s) =
     (case strip_prefix pat (c # s) of
        Some rest \<Rightarrow> Some ([], rest)
      | None \<Rightarrow> map_option (\<lambda>(a, b). (c # a, b)) (split_once pat s))"

definition rsplit_once :: "char \<Rightarrow> string \<Rightarrow> (string \<times> string) option" where
  "rsplit_once c s = map_option (\<lambda>(a, b). (rev b, rev a)) (split_once [c] (rev s))"

fun split_on :: "char \<Rightarrow> string \<Rightarrow> string list" where
  "split_on c [] = [[]]"
| "split_on c (x # s) = (if x = c then [] # split_on c s
     else case split_on c s of [] \<Rightarrow> [[x]] | seg # segs \<Rightarrow> (x # seg) # segs)"

definition is_digit :: "char \<Rightarrow> bool" where
  "is_digit c = (let n = (of_char c :: nat) in 48 \<le> n \<and> n \<le> 57)"

definition is_hexdigit :: "char \<Rightarrow> bool" where
  "is_hexdigit c = (let n = (of_char c :: nat) in
     is_digit c \<or> 65 \<le> n \<and> n \<le> 70 \<or> 97 \<le> n \<and> n \<le> 102)"

lemma strip_prefix_Some: "strip_prefix p s = Some r \<longleftrightarrow> s = p @ r"
  by (induction p s rule: strip_prefix.induct) auto

lemma split_once_Some: "split_once pat s = Some (a, b) \<Longrightarrow> s = a @ pat @ b"
  by (induction pat s arbitrary: a rule: split_once.induct)
     (auto split: option.splits if_splits simp: strip_prefix_Some)

lemma rsplit_once_Some: "rsplit_once c s = Some (a, b) \<Longrightarrow> s = a @ c # b"
  by (auto simp: rsplit_once_def dest!: split_once_Some) (metis append_Cons append_Nil append_assoc rev.simps(2) rev_append rev_rev_ident)

lemma split_on_snoc: "c \<notin> set s \<Longrightarrow> split_on c (s @ c # t) = s # split_on c t"
  by (induction s) auto

lemma split_on_groups:
  "list_all (\<lambda>s. c \<notin> set s) segs \<Longrightarrow> split_on c (concat (map (\<lambda>s. s @ [c]) segs)) = segs @ [[]]"
  by (induction segs) (auto simp: split_on_snoc)

lemma split_on_ne [simp]: "split_on c s \<noteq> []"
  by (induction s) (auto split: list.splits)

lemma split_on_whole: "c \<notin> set s \<Longrightarrow> split_on c s = [s]"
  by (induction s) auto

section \<open>Fencing tokens\<close>

text \<open>
  What the write arbiter and the override table share: a resource with at most one holder, named by a
  token. Tokens are never issued twice as long as the counter has room for the steps ahead, and a
  regrant hands the resource to a new token. The client lemma: a token that lost the resource never
  gets it back.
\<close>

locale token_fence =
  fixes step :: "'op \<Rightarrow> 's \<Rightarrow> 's"
    and holder :: "'s \<Rightarrow> 't option"
    and issued :: "'s \<Rightarrow> 't \<Rightarrow> bool"
    and regrants :: "'op \<Rightarrow> 's \<Rightarrow> bool"
    and room :: "'s \<Rightarrow> nat \<Rightarrow> bool"
  assumes room_step: "room s (Suc n) \<Longrightarrow> room (step op s) n"
    and issued_step: "room s (Suc n) \<Longrightarrow> issued s k \<Longrightarrow> issued (step op s) k"
    and lost_step: "room s (Suc n) \<Longrightarrow> issued s k \<Longrightarrow> holder s \<noteq> Some k \<Longrightarrow> holder (step op s) \<noteq> Some k"
    and regrant_step: "room s (Suc n) \<Longrightarrow> issued s k \<Longrightarrow> regrants op s \<Longrightarrow> holder (step op s) \<noteq> Some k"
begin

lemma run_room: "room s (length ops + n) \<Longrightarrow> room (fold step ops s) n"
  by (induction ops arbitrary: s) (auto simp: room_step)

lemma run_issued: "room s (length ops + n) \<Longrightarrow> issued s k \<Longrightarrow> issued (fold step ops s) k"
  by (induction ops arbitrary: s) (auto simp: room_step issued_step)

lemma lost_forever:
  "room s (length ops + n) \<Longrightarrow> issued s k \<Longrightarrow> holder s \<noteq> Some k \<Longrightarrow> holder (fold step ops s) \<noteq> Some k"
  by (induction ops arbitrary: s) (auto simp: room_step issued_step lost_step)

lemma displaced:
  assumes "room s (length (pre @ op # post) + n)" "issued s k" "regrants op (fold step pre s)"
  shows "holder (fold step (pre @ op # post) s) \<noteq> Some k"
proof -
  have "room s (length pre + Suc (length post + n))" using assms(1) by (simp add: add.assoc)
  note r = run_room [OF this] run_issued [OF this assms(2)]
  show ?thesis
    using lost_forever [OF room_step [OF r(1)] issued_step [OF r] regrant_step [OF r assms(3)]] by simp
qed

end

section \<open>Debounce and hold\<close>

text \<open>
  A debounce counts, per key, the ticks without a break that hit the key, up to a cap: the skip list
  and the sensor quarantine. Its client lemma turns the counter into the history it stands for.
\<close>

locale debounce_counter =
  fixes step :: "'i \<Rightarrow> 's \<Rightarrow> 's"
    and level :: "'s \<Rightarrow> 'k \<Rightarrow> nat"
    and hit :: "'i \<Rightarrow> 'k \<Rightarrow> bool"
    and okay :: "'i \<Rightarrow> bool"
    and inv :: "'s \<Rightarrow> bool"
    and cap :: nat
  assumes step_inv: "inv s \<Longrightarrow> okay i \<Longrightarrow> inv (step i s)"
    and step_level: "inv s \<Longrightarrow> okay i \<Longrightarrow> level (step i s) k = (if hit i k then min cap (Suc (level s k)) else 0)"
begin

lemma run_inv: "inv s \<Longrightarrow> list_all okay is \<Longrightarrow> inv (fold step is s)"
  by (induction "is" arbitrary: s) (auto simp: step_inv)

lemma run_level:
  assumes "inv s" "level s k = 0"
  shows "list_all okay is \<Longrightarrow> level (fold step is s) k = min cap (length (takeWhile (\<lambda>i. hit i k) (rev is)))"
proof (induction "is" rule: rev_induct)
  case (snoc i "is")
  then show ?case using step_level [OF run_inv [OF assms(1)], of "is" i k] by auto
qed (simp add: assms(2))

end

text \<open>
  A hold window remembers since when a condition has been met without a break.
\<close>

locale hold_window =
  fixes step :: "'i \<Rightarrow> 's \<Rightarrow> 's"
    and since :: "'s \<Rightarrow> instant option"
    and met :: "'i \<Rightarrow> bool"
    and tick_at :: "'i \<Rightarrow> instant"
  assumes step_since: "since (step i s) =
    (if met i then Some (case since s of Some t \<Rightarrow> t | None \<Rightarrow> tick_at i) else None)"
begin

lemma run_since:
  assumes "since s = None"
  shows "since (fold step is s) =
    (case takeWhile met (rev is) of [] \<Rightarrow> None | x # xs \<Rightarrow> Some (tick_at (List.last (x # xs))))"
proof (induction "is" rule: rev_induct)
  case (snoc i "is")
  then show ?case by (simp add: step_since split: list.splits)
qed (simp add: assms)

end

end
