(* ===== verification/Float64.thy ===== *)
theory Float64
  imports Ofc_Prelude "HOL-Library.Log_Nat"
begin

text \<open>
  IEEE 754 binary64 as Rust's \<open>f64\<close> uses it. Temperatures and duties of the daemon are \<open>f64\<close>, its
  comments argue about NaN and infinities, and its step-rate limiter relies on what rounding does,
  so the model keeps all three: a value is NaN, an infinity or a rational, and every arithmetic
  result is rounded to nearest, ties to even, with 53 significant bits, gradual underflow at
  \<open>2 ^ -1074\<close> and overflow at \<open>2 ^ 1024\<close>. Zero has no sign here; the code never divides by zero
  and compares zeros with \<open>==\<close> only, so its sign is not observable.

  The comparisons are Rust's: every comparison with NaN is false. \<open>f64_max\<close> and \<open>f64_min\<close> return
  the operand that is not NaN, \<open>f64_clamp\<close> passes NaN through, and \<open>f64_to_u8\<close> is the saturating
  \<open>as u8\<close> cast (NaN becomes 0).

  The locale \<open>rounding\<close> states what clients need of a rounding function; it is interpreted on
  \<open>rnd64\<close>, so those facts are proved for binary64 rounding itself.
\<close>

section \<open>Rounding\<close>

text \<open>Round to the nearest integer, ties to even.\<close>

definition rne :: "rat \<Rightarrow> int" where
  "rne x = (let f = \<lfloor>x\<rfloor>; d = x - of_int f in
     if d < 1/2 then f else if d > 1/2 then f + 1 else if even f then f else f + 1)"

text \<open>
  A magnitude is scaled by \<open>2 ^ 1074\<close>, so that the smallest subnormal is 1; the spacing of binary64
  values around the scaled magnitude is then a power of two read off its bit length.
\<close>

definition ulp_of :: "rat \<Rightarrow> rat" where
  "ulp_of X = 2 ^ (floorlog 2 (nat \<lfloor>X\<rfloor>) - 53)"

definition round_mag :: "rat \<Rightarrow> rat" where
  "round_mag X = of_int (rne (X / ulp_of X)) * ulp_of X"

definition scale64 :: rat where
  "scale64 = 2 ^ 1074"

definition rnd64 :: "rat \<Rightarrow> rat" where
  "rnd64 x = sgn x * (round_mag (\<bar>x\<bar> * scale64) / scale64)"

lemma rne_bounds: "\<lfloor>x\<rfloor> \<le> rne x" "rne x \<le> \<lfloor>x\<rfloor> + 1"
  by (auto simp: rne_def Let_def)

lemma rne_of_int [simp]: "rne (of_int k) = k"
  by (simp add: rne_def)

lemma rne_mono:
  assumes "x \<le> y" shows "rne x \<le> rne y"
proof (cases "\<lfloor>x\<rfloor> = \<lfloor>y\<rfloor>")
  case True
  with assms show ?thesis by (auto simp: rne_def Let_def)
next
  case False
  with assms have "\<lfloor>x\<rfloor> + 1 \<le> \<lfloor>y\<rfloor>" using floor_mono [OF assms] by linarith
  with rne_bounds(2) [of x] rne_bounds(1) [of y] show ?thesis by linarith
qed

lemma rne_nonneg: "0 \<le> x \<Longrightarrow> 0 \<le> rne x"
  using rne_mono [of 0 x] rne_of_int [of 0] by simp

lemma ulp_of_pos [simp]: "0 < ulp_of X" "0 \<le> ulp_of X" "ulp_of X \<noteq> 0"
  by (simp_all add: ulp_of_def)

lemma floorlog_upper:
  fixes X :: rat
  assumes "0 \<le> X" shows "X < 2 ^ floorlog 2 (nat \<lfloor>X\<rfloor>)"
proof -
  have "nat \<lfloor>X\<rfloor> < 2 ^ floorlog 2 (nat \<lfloor>X\<rfloor>)"
    by (rule floorlog_leD) simp_all
  then have "of_nat (nat \<lfloor>X\<rfloor>) + 1 \<le> (2 ^ floorlog 2 (nat \<lfloor>X\<rfloor>) :: rat)"
    by (metis Suc_leI of_nat_Suc of_nat_le_iff of_nat_numeral of_nat_power add.commute)
  moreover have "X < of_int \<lfloor>X\<rfloor> + 1" by linarith
  moreover have "of_int \<lfloor>X\<rfloor> = (of_nat (nat \<lfloor>X\<rfloor>) :: rat)" using assms by simp
  ultimately show ?thesis by linarith
qed

lemma floorlog_lower:
  fixes X :: rat
  assumes "1 \<le> X" shows "2 ^ (floorlog 2 (nat \<lfloor>X\<rfloor>) - 1) \<le> X"
proof -
  have pos: "0 < nat \<lfloor>X\<rfloor>" using assms by (simp add: zero_less_floor)
  have "2 ^ (floorlog 2 (nat \<lfloor>X\<rfloor>) - 1) \<le> nat \<lfloor>X\<rfloor>"
    using floorlog_bounds [of "nat \<lfloor>X\<rfloor>" 2] pos by auto
  then have "(2 ^ (floorlog 2 (nat \<lfloor>X\<rfloor>) - 1) :: rat) \<le> of_nat (nat \<lfloor>X\<rfloor>)"
    by (metis of_nat_le_iff of_nat_numeral of_nat_power)
  also have "\<dots> \<le> X" using assms by simp
  finally show ?thesis .
qed

lemma rne_le_pow: "x \<le> 2 ^ n \<Longrightarrow> rne x \<le> 2 ^ n"
  using rne_mono [of x "2 ^ n"] rne_of_int [of "2 ^ n"] by simp

lemma rne_ge_pow: "2 ^ n \<le> x \<Longrightarrow> 2 ^ n \<le> rne x"
  using rne_mono [of "2 ^ n" x] rne_of_int [of "2 ^ n"] by simp

lemma quot_le: assumes "0 \<le> X" shows "X / ulp_of X \<le> 2 ^ 53"
proof -
  let ?b = "floorlog 2 (nat \<lfloor>X\<rfloor>)"
  have "(2::rat) ^ ?b \<le> 2 ^ 53 * 2 ^ (?b - 53)"
    unfolding power_add [symmetric] by (rule power_increasing) auto
  with floorlog_upper [OF assms] show ?thesis
    by (simp add: ulp_of_def divide_le_eq)
qed

lemma round_mag_exact:
  assumes "0 \<le> k" "k < 2 ^ 53"
  shows "round_mag (of_int k * 2 ^ j) = of_int k * 2 ^ j"
proof -
  let ?X = "of_int k * 2 ^ j :: rat"
  let ?b = "floorlog 2 (nat \<lfloor>?X\<rfloor>)"
  have fl: "\<lfloor>?X\<rfloor> = k * 2 ^ j" by (metis floor_of_int of_int_mult of_int_numeral of_int_power)
  have "?b \<le> 53 + j"
  proof (rule floorlog_leI)
    show "nat \<lfloor>?X\<rfloor> < 2 ^ (53 + j)"
      using assms unfolding fl by (simp add: nat_mult_distrib nat_power_eq power_add nat_less_iff)
  qed simp_all
  then have le: "?b - 53 \<le> j" by simp
  have "?X / ulp_of ?X = of_int (k * 2 ^ (j - (?b - 53)))"
    unfolding ulp_of_def using le by (simp add: power_diff_conv_inverse field_simps flip: power_add)
  then have "of_int (rne (?X / ulp_of ?X)) = ?X / ulp_of ?X" by (metis rne_of_int)
  then show ?thesis
    unfolding round_mag_def by simp
qed

lemma round_mag_nonneg: "0 \<le> X \<Longrightarrow> 0 \<le> round_mag X"
  using rne_nonneg [of "X / ulp_of X"] by (simp add: round_mag_def)

lemma round_mag_idem:
  assumes "0 \<le> X" shows "round_mag (round_mag X) = round_mag X"
proof -
  define k where "k = rne (X / ulp_of X)"
  define j where "j = floorlog 2 (nat \<lfloor>X\<rfloor>) - 53"
  have eq: "round_mag X = of_int k * 2 ^ j"
    by (simp add: round_mag_def k_def ulp_of_def j_def)
  have "0 \<le> k" using assms unfolding k_def by (intro rne_nonneg) simp
  have "k \<le> 2 ^ 53" unfolding k_def by (rule rne_le_pow [OF quot_le [OF assms]])
  then consider "k < 2 ^ 53" | "k = 2 ^ 53" by linarith
  then show ?thesis
  proof cases
    case 1
    then show ?thesis unfolding eq using \<open>0 \<le> k\<close> by (intro round_mag_exact)
  next
    case 2
    then have "of_int k * 2 ^ j = (of_int (2 ^ 52) * 2 ^ Suc j :: rat)" by simp
    then show ?thesis unfolding eq by (simp only:) (rule round_mag_exact, simp_all)
  qed
qed

lemma round_mag_mono:
  assumes "0 \<le> X" "X \<le> Y" shows "round_mag X \<le> round_mag Y"
proof -
  let ?bx = "floorlog 2 (nat \<lfloor>X\<rfloor>)" and ?by = "floorlog 2 (nat \<lfloor>Y\<rfloor>)"
  have bmono: "?bx \<le> ?by" using assms by (intro floorlog_mono nat_mono floor_mono)
  show ?thesis
  proof (cases "?bx - 53 = ?by - 53")
    case True
    then have "ulp_of X = ulp_of Y" by (simp add: ulp_of_def)
    moreover have "rne (X / ulp_of Y) \<le> rne (Y / ulp_of Y)"
      using assms by (intro rne_mono divide_right_mono) simp_all
    ultimately show ?thesis
      by (simp add: round_mag_def mult_right_mono less_imp_le)
  next
    case False
    with bmono have lt: "?bx < ?by" and big: "53 < ?by" by linarith+
    have "of_int (rne (X / ulp_of X)) \<le> (of_int (2 ^ 53) :: rat)"
      using rne_le_pow [OF quot_le [OF assms(1)]] of_int_le_iff by blast
    then have "round_mag X \<le> 2 ^ 53 * ulp_of X"
      by (simp add: round_mag_def mult_right_mono less_imp_le)
    also have "\<dots> = 2 ^ (53 + (?bx - 53))" by (simp add: ulp_of_def power_add)
    also have "\<dots> \<le> 2 ^ (?by - 1)" using lt big by (intro power_increasing) simp_all
    also have "\<dots> = 2 ^ 52 * ulp_of Y" 
      unfolding ulp_of_def power_add [symmetric] using big by simp
    also have "\<dots> \<le> of_int (rne (Y / ulp_of Y)) * ulp_of Y"
    proof -
      have "1 \<le> Y" using big by (rule_tac ccontr) (simp add: floorlog_def)
      then have "2 ^ 52 * ulp_of Y \<le> Y"
        using floorlog_lower [of Y] big unfolding ulp_of_def power_add [symmetric] by simp
      then have "2 ^ 52 \<le> Y / ulp_of Y" by (simp add: le_divide_eq)
      then have "2 ^ 52 \<le> rne (Y / ulp_of Y)" by (rule rne_ge_pow)
      then have "(of_int (2 ^ 52) :: rat) \<le> of_int (rne (Y / ulp_of Y))" using of_int_le_iff by blast
      then show ?thesis by (simp add: mult_right_mono less_imp_le)
    qed
    finally show ?thesis by (simp add: round_mag_def)
  qed
qed

lemma scale64_pos [simp]: "0 < scale64" "0 \<le> scale64" "scale64 \<noteq> 0"
  by (simp_all add: scale64_def)

lemma rnd64_0 [simp]: "rnd64 0 = 0"
  by (simp add: rnd64_def)

lemma rnd64_uminus: "rnd64 (- x) = - rnd64 x"
  by (simp add: rnd64_def sgn_minus)

lemma rnd64_nonneg_eq: "0 \<le> x \<Longrightarrow> rnd64 x = round_mag (x * scale64) / scale64"
  by (cases "x = 0") (auto simp: rnd64_def round_mag_def rne_def)

lemma rnd64_nonneg: "0 \<le> x \<Longrightarrow> 0 \<le> rnd64 x"
  using round_mag_nonneg [of "x * scale64"] by (simp add: rnd64_nonneg_eq less_imp_le)

lemma rnd64_mono_nonneg: "0 \<le> x \<Longrightarrow> x \<le> y \<Longrightarrow> rnd64 x \<le> rnd64 y"
  by (simp add: rnd64_nonneg_eq divide_right_mono round_mag_mono mult_right_mono less_imp_le)

lemma rnd64_mono: assumes "x \<le> y" shows "rnd64 x \<le> rnd64 y"
proof -
  consider "0 \<le> x" | "x < 0" "0 \<le> y" | "y < 0" by linarith
  then show ?thesis
  proof cases
    case 1
    then show ?thesis using assms by (rule rnd64_mono_nonneg)
  next
    case 2
    then have "0 \<le> rnd64 (- x)" "0 \<le> rnd64 y" by (auto intro: rnd64_nonneg)
    then show ?thesis by (simp add: rnd64_uminus)
  next
    case 3
    then have "rnd64 (- y) \<le> rnd64 (- x)" using assms by (intro rnd64_mono_nonneg) simp_all
    then show ?thesis by (simp add: rnd64_uminus)
  qed
qed

lemma rnd64_idem_nonneg: "0 \<le> x \<Longrightarrow> rnd64 (rnd64 x) = rnd64 x"
  by (simp add: rnd64_nonneg_eq rnd64_nonneg round_mag_nonneg round_mag_idem less_imp_le)

lemma rnd64_idem [simp]: "rnd64 (rnd64 x) = rnd64 x"
proof (cases "0 \<le> x")
  case False
  then have "rnd64 (rnd64 (- x)) = rnd64 (- x)" by (intro rnd64_idem_nonneg) simp
  then show ?thesis by (simp add: rnd64_uminus)
qed (rule rnd64_idem_nonneg)

lemma rnd64_of_int:
  assumes "\<bar>k\<bar> < 2 ^ 53" shows "rnd64 (of_int k) = of_int k"
proof -
  have "rnd64 (of_int \<bar>k\<bar>) = of_int \<bar>k\<bar>"
    using round_mag_exact [of "\<bar>k\<bar>" 1074] assms by (simp add: rnd64_nonneg_eq scale64_def)
  then show ?thesis by (cases "0 \<le> k") (auto simp: rnd64_uminus)
qed


section \<open>Values and operations\<close>

datatype f64 = Fin rat | PInf | NInf | NaN

definition huge64 :: rat where
  "huge64 = 2 ^ 1024"

definition fl :: "rat \<Rightarrow> f64" where
  "fl x = (let r = rnd64 x in if huge64 \<le> r then PInf else if r \<le> - huge64 then NInf else Fin r)"

fun f64_le :: "f64 \<Rightarrow> f64 \<Rightarrow> bool" where
  "f64_le (Fin a) (Fin b) = (a \<le> b)"
| "f64_le (Fin _) PInf = True"
| "f64_le PInf PInf = True"
| "f64_le NInf (Fin _) = True"
| "f64_le NInf PInf = True"
| "f64_le NInf NInf = True"
| "f64_le _ _ = False"

instantiation f64 :: ord
begin
definition less_eq_f64 :: "f64 \<Rightarrow> f64 \<Rightarrow> bool" where "a \<le> b = f64_le a b"
definition less_f64 :: "f64 \<Rightarrow> f64 \<Rightarrow> bool" where "a < b = (f64_le a b \<and> \<not> f64_le b a)"
instance ..
end

fun f64_add :: "f64 \<Rightarrow> f64 \<Rightarrow> f64" where
  "f64_add (Fin a) (Fin b) = fl (a + b)"
| "f64_add NaN _ = NaN"
| "f64_add _ NaN = NaN"
| "f64_add PInf NInf = NaN"
| "f64_add NInf PInf = NaN"
| "f64_add PInf _ = PInf"
| "f64_add _ PInf = PInf"
| "f64_add NInf _ = NInf"
| "f64_add _ NInf = NInf"

fun f64_neg :: "f64 \<Rightarrow> f64" where
  "f64_neg (Fin a) = Fin (- a)"
| "f64_neg PInf = NInf"
| "f64_neg NInf = PInf"
| "f64_neg NaN = NaN"

fun f64_sgn :: "f64 \<Rightarrow> rat" where
  "f64_sgn (Fin a) = sgn a"
| "f64_sgn PInf = 1"
| "f64_sgn NInf = - 1"
| "f64_sgn NaN = 0"

definition f64_inf :: "rat \<Rightarrow> f64" where
  "f64_inf s = (if s = 0 then NaN else if 0 < s then PInf else NInf)"

fun f64_mul :: "f64 \<Rightarrow> f64 \<Rightarrow> f64" where
  "f64_mul (Fin a) (Fin b) = fl (a * b)"
| "f64_mul NaN _ = NaN"
| "f64_mul _ NaN = NaN"
| "f64_mul a b = f64_inf (f64_sgn a * f64_sgn b)"

fun f64_div :: "f64 \<Rightarrow> f64 \<Rightarrow> f64" where
  "f64_div (Fin a) (Fin b) = (if b = 0 then f64_inf (sgn a) else fl (a / b))"
| "f64_div (Fin a) PInf = Fin 0"
| "f64_div (Fin a) NInf = Fin 0"
| "f64_div PInf (Fin b) = (if b < 0 then NInf else PInf)"
| "f64_div NInf (Fin b) = (if b < 0 then PInf else NInf)"
| "f64_div _ _ = NaN"

instantiation f64 :: plus
begin
definition plus_f64 :: "f64 \<Rightarrow> f64 \<Rightarrow> f64" where "a + b = f64_add a b"
instance ..
end

instantiation f64 :: minus
begin
definition minus_f64 :: "f64 \<Rightarrow> f64 \<Rightarrow> f64" where "a - b = f64_add a (f64_neg b)"
instance ..
end

instantiation f64 :: times
begin
definition times_f64 :: "f64 \<Rightarrow> f64 \<Rightarrow> f64" where "a * b = f64_mul a b"
instance ..
end

fun is_finite :: "f64 \<Rightarrow> bool" where
  "is_finite (Fin _) = True"
| "is_finite _ = False"

definition f64_eq :: "f64 \<Rightarrow> f64 \<Rightarrow> bool" where
  "f64_eq a b = (a \<le> b \<and> b \<le> a)"

definition f64_max :: "f64 \<Rightarrow> f64 \<Rightarrow> f64" where
  "f64_max a b = (if a = NaN then b else if b = NaN then a else if a < b then b else a)"

definition f64_min :: "f64 \<Rightarrow> f64 \<Rightarrow> f64" where
  "f64_min a b = (if a = NaN then b else if b = NaN then a else if b < a then b else a)"

definition f64_clamp :: "f64 \<Rightarrow> f64 \<Rightarrow> f64 \<Rightarrow> f64" where
  "f64_clamp lo hi x = (if x < lo then lo else if hi < x then hi else x)"

fun f64_abs :: "f64 \<Rightarrow> f64" where
  "f64_abs (Fin a) = Fin \<bar>a\<bar>"
| "f64_abs NInf = PInf"
| "f64_abs x = x"

fun f64_round :: "f64 \<Rightarrow> f64" where
  "f64_round (Fin a) = Fin (sgn a * of_int \<lfloor>\<bar>a\<bar> + 1/2\<rfloor>)"
| "f64_round x = x"

fun f64_to_u8 :: "f64 \<Rightarrow> nat" where
  "f64_to_u8 (Fin a) = (if a \<le> 0 then 0 else min 255 (nat \<lfloor>a\<rfloor>))"
| "f64_to_u8 PInf = 255"
| "f64_to_u8 _ = 0"

definition f64_of_nat :: "nat \<Rightarrow> f64" where
  "f64_of_nat n = Fin (of_nat n)"

section \<open>Laws\<close>

lemma f64_le_simps [simp]:
  "Fin a \<le> Fin b \<longleftrightarrow> a \<le> b" "Fin a \<le> PInf" "\<not> Fin a \<le> NInf" "\<not> PInf \<le> Fin a" "NInf \<le> Fin a"
  "PInf \<le> PInf" "NInf \<le> NInf" "NInf \<le> PInf" "\<not> PInf \<le> NInf" "\<not> NaN \<le> x" "\<not> x \<le> NaN"
  by (simp_all add: less_eq_f64_def)

lemma f64_less_simps [simp]:
  "Fin a < Fin b \<longleftrightarrow> a < b" "Fin a < PInf" "\<not> Fin a < NInf" "\<not> PInf < Fin a" "NInf < Fin a"
  "\<not> PInf < PInf" "\<not> NInf < NInf" "NInf < PInf" "\<not> PInf < NInf" "\<not> NaN < x" "\<not> x < NaN"
  by (auto simp: less_f64_def)


lemma f64_add_simps [simp]:
  "Fin a + Fin b = fl (a + b)" "NaN + x = NaN" "x + NaN = NaN"
  "PInf + Fin a = PInf" "Fin a + PInf = PInf" "NInf + Fin a = NInf" "Fin a + NInf = NInf"
  "PInf + PInf = PInf" "NInf + NInf = NInf" "PInf + NInf = NaN" "NInf + PInf = NaN"
  by (simp_all add: plus_f64_def) (cases x; simp)

lemma f64_sub_simps [simp]:
  "Fin a - Fin b = fl (a - b)" "NaN - x = NaN" "x - NaN = NaN"
  "PInf - Fin a = PInf" "Fin a - PInf = NInf" "NInf - Fin a = NInf" "Fin a - NInf = PInf"
  by (simp_all add: minus_f64_def) (cases x; simp)+

lemma f64_mul_simps [simp]:
  "Fin a * Fin b = fl (a * b)" "NaN * x = NaN" "x * NaN = NaN"
  by (simp_all add: times_f64_def) (cases x; simp)

text \<open>The contract of a rounding function, and what it gives the step-rate limiter.\<close>

locale rounding =
  fixes rnd :: "rat \<Rightarrow> rat"
  assumes mono: "x \<le> y \<Longrightarrow> rnd x \<le> rnd y"
    and idem: "rnd (rnd x) = rnd x"
    and zero: "rnd 0 = 0"
begin

lemma between: "rnd lo = lo \<Longrightarrow> rnd hi = hi \<Longrightarrow> lo \<le> x \<Longrightarrow> x \<le> hi \<Longrightarrow> lo \<le> rnd x \<and> rnd x \<le> hi"
  using mono [of lo x] mono [of x hi] by simp

lemma add_nonneg: "rnd a = a \<Longrightarrow> 0 \<le> u \<Longrightarrow> a \<le> rnd (a + u)"
  using mono [of a "a + u"] by simp

lemma sub_nonneg: "rnd a = a \<Longrightarrow> 0 \<le> u \<Longrightarrow> rnd (a - u) \<le> a"
  using mono [of "a - u" a] by simp

lemma sign: "0 \<le> x \<Longrightarrow> 0 \<le> rnd x" "x \<le> 0 \<Longrightarrow> rnd x \<le> 0"
  using mono [of 0 x] mono [of x 0] zero by simp_all

end

interpretation r64: rounding rnd64
  by unfold_locales (simp_all add: rnd64_mono)

lemma huge64_pos [simp]: "0 < huge64" "0 \<le> huge64" "huge64 \<noteq> 0" "- huge64 < huge64"
  by (simp_all add: huge64_def)

text \<open>A value that binary64 can hold.\<close>

fun f64_ok :: "f64 \<Rightarrow> bool" where
  "f64_ok (Fin r) = (rnd64 r = r \<and> \<bar>r\<bar> < huge64)"
| "f64_ok _ = True"

lemma f64_ok_fl [simp]: "f64_ok (fl x)"
  by (auto simp: fl_def Let_def not_le)

lemma fl_ok: "f64_ok (Fin r) \<Longrightarrow> fl r = Fin r"
  by (auto simp: fl_def Let_def abs_less_iff)

lemma f64_ok_neg [simp]: "f64_ok (f64_neg x) = f64_ok x"
  by (cases x) (auto simp: rnd64_uminus)

lemma f64_ok_add [simp]: "f64_ok (x + y)"
  by (cases x; cases y) (auto simp: plus_f64_def)

lemma f64_ok_sub [simp]: "f64_ok (x - y)"
  by (cases x; cases y) (auto simp: minus_f64_def)

lemma fl_not_NaN [simp]: "fl x \<noteq> NaN"
  by (simp add: fl_def Let_def)

lemma fl_mono: "x \<le> y \<Longrightarrow> fl x \<le> fl y"
  using r64.mono [of x y] by (auto simp: fl_def Let_def not_le)

lemma f64_of_int_ok: "\<bar>k\<bar> < 2 ^ 53 \<Longrightarrow> f64_ok (Fin (of_int k))"
proof -
  assume k: "\<bar>k\<bar> < 2 ^ 53"
  then have "\<bar>of_int k\<bar> < (of_int (2 ^ 53) :: rat)" by (simp only: of_int_abs [symmetric] of_int_less_iff)
  also have "\<dots> \<le> huge64" by (simp add: huge64_def)
  finally show ?thesis using k by (simp add: rnd64_of_int)
qed

lemma f64_numeral_ok [simp]:
  "(numeral k :: int) < 9007199254740992 \<Longrightarrow> f64_ok (Fin (numeral k))"
  "(numeral k :: int) < 9007199254740992 \<Longrightarrow> f64_ok (Fin (- numeral k))"
  "f64_ok (Fin 0)" "f64_ok (Fin 1)" "f64_ok (Fin (- 1))"
  using f64_of_int_ok [of "numeral k"] f64_of_int_ok [of "- numeral k"]
    f64_of_int_ok [of 1] f64_of_int_ok [of "- 1"] by (simp_all del: f64_ok.simps) simp

lemma fl_numeral [simp]:
  "(numeral k :: int) < 9007199254740992 \<Longrightarrow> fl (numeral k) = Fin (numeral k)"
  "(numeral k :: int) < 9007199254740992 \<Longrightarrow> fl (- numeral k) = Fin (- numeral k)"
  "fl 0 = Fin 0" "fl 1 = Fin 1" "fl (- 1) = Fin (- 1)"
  by (simp_all add: fl_ok del: f64_ok.simps)

lemma f64_le_add: "f64_ok (Fin a) \<Longrightarrow> Fin 0 \<le> u \<Longrightarrow> Fin a \<le> Fin a + u"
proof (cases u)
  case (Fin b)
  assume "f64_ok (Fin a)" "Fin 0 \<le> u"
  then show ?thesis using fl_mono [of a "a + b"] fl_ok [of a] Fin by simp
qed simp_all

lemma f64_sub_le: "f64_ok (Fin a) \<Longrightarrow> Fin 0 \<le> u \<Longrightarrow> Fin a - u \<le> Fin a"
proof (cases u)
  case (Fin b)
  assume "f64_ok (Fin a)" "Fin 0 \<le> u"
  then show ?thesis using fl_mono [of "a - b" a] fl_ok [of a] Fin by simp
qed simp_all

lemma f64_clamp_bounds:
  "x \<noteq> NaN \<Longrightarrow> lo \<le> hi \<Longrightarrow> lo \<le> f64_clamp lo hi x \<and> f64_clamp lo hi x \<le> hi"
  by (cases x; cases lo; cases hi) (auto simp: f64_clamp_def)

text \<open>The expression \<open>x.round().clamp(0.0, 100.0) as u8\<close> every command goes through.\<close>

definition to_pct :: "f64 \<Rightarrow> nat" where
  "to_pct x = f64_to_u8 (f64_clamp (Fin 0) (Fin 100) (f64_round x))"

lemma to_pct_Fin: "to_pct (Fin a) = (if a \<le> 0 then 0 else min 100 (nat \<lfloor>a + 1/2\<rfloor>))"
proof (cases "a \<le> 0")
  case True
  then have "sgn a * of_int \<lfloor>\<bar>a\<bar> + 1/2\<rfloor> \<le> 0"
    by (cases "a = 0") (auto simp: sgn_if)
  with True show ?thesis by (auto simp: to_pct_def f64_clamp_def)
next
  case False
  define k where "k = \<lfloor>a + 1/2\<rfloor>"
  have "0 \<le> k" using False by (simp add: k_def)
  moreover have "(100 :: rat) < of_int k \<longleftrightarrow> 100 < k" by linarith
  ultimately show ?thesis using False
    by (auto simp: to_pct_def f64_clamp_def min_def simp flip: k_def)
qed

lemma to_pct_simps [simp]: "to_pct PInf = 100" "to_pct NInf = 0" "to_pct NaN = 0"
  by (simp_all add: to_pct_def f64_clamp_def)

lemma to_pct_le: "to_pct x \<le> 100"
  by (cases x) (auto simp: to_pct_Fin)

lemma to_pct_ge:
  assumes "Fin (of_nat n) \<le> x" "n \<le> 100" shows "n \<le> to_pct x"
proof (cases x)
  case (Fin a)
  have "int n \<le> \<lfloor>a + 1/2\<rfloor>" using assms Fin by (simp add: le_floor_iff)
  then show ?thesis using assms Fin by (auto simp: to_pct_Fin le_nat_iff)
qed (use assms in simp_all)

lemma floor_half [simp]: "\<lfloor>1 / 2 :: rat\<rfloor> = 0"
  by (simp add: floor_eq_iff)

lemma to_pct_of_nat: "n \<le> 100 \<Longrightarrow> to_pct (f64_of_nat n) = n"
  by (auto simp: to_pct_Fin f64_of_nat_def)

end
