(* ===== verification/Thermal_Safety.thy ===== *)
theory Thermal_Safety
  imports Float64 "HOL-Library.Multiset" "HOL-Library.Word"
begin

text \<open>
  The latched thermal emergency: \<open>safety.rs\<close> (the rule and its latch), the decision tables of
  \<open>profile_engine/safety_tick.rs\<close>, and the sensor reductions of \<open>profile_engine/mod.rs\<close> that feed
  them. \<open>safety_leg\<close> is the safety part of one engine tick, in the order the loop runs it.
  Log lines are not modelled.
\<close>

section \<open>Constants\<close>

definition THERMAL_EMERGENCY_TRIGGER_C :: f64 where "THERMAL_EMERGENCY_TRIGGER_C = Fin 105"
definition THERMAL_TRIGGER_MARGIN_C :: f64 where "THERMAL_TRIGGER_MARGIN_C = Fin 5"
definition THERMAL_TRIGGER_MAX_C :: f64 where "THERMAL_TRIGGER_MAX_C = Fin 115"
definition THERMAL_EMERGENCY_RELEASE_C :: f64 where "THERMAL_EMERGENCY_RELEASE_C = Fin 80"
definition COOLANT_RELEASE_MARGIN_C :: f64 where "COOLANT_RELEASE_MARGIN_C = Fin 5"
definition DEFAULT_COOLANT_LIMIT_C :: "8 word" where "DEFAULT_COOLANT_LIMIT_C = 60"
definition NO_SENSOR_CYCLE_THRESHOLD :: u32 where "NO_SENSOR_CYCLE_THRESHOLD = 5"
definition NO_SENSOR_SAFE_PCT :: u8 where "NO_SENSOR_SAFE_PCT = 40"

lemmas thermal_consts = THERMAL_EMERGENCY_TRIGGER_C_def THERMAL_TRIGGER_MARGIN_C_def
  THERMAL_TRIGGER_MAX_C_def THERMAL_EMERGENCY_RELEASE_C_def COOLANT_RELEASE_MARGIN_C_def
  DEFAULT_COOLANT_LIMIT_C_def NO_SENSOR_CYCLE_THRESHOLD_def NO_SENSOR_SAFE_PCT_def

section \<open>The rule (safety.rs)\<close>

record ThermalSafetyRule =
  rule_subject :: string
  trigger_temp_c :: f64
  release_temp_c :: f64
  forced_output_pct :: u8
  rule_active :: bool

definition rule_new :: ThermalSafetyRule where
  "rule_new = \<lparr>rule_subject = ''CPU Tctl'', trigger_temp_c = THERMAL_EMERGENCY_TRIGGER_C,
     release_temp_c = THERMAL_EMERGENCY_RELEASE_C, forced_output_pct = 100, rule_active = False\<rparr>"

definition set_coolant_limit_c :: "8 word \<Rightarrow> ThermalSafetyRule \<Rightarrow> ThermalSafetyRule" where
  "set_coolant_limit_c limit r = r\<lparr>trigger_temp_c := f64_of_nat (unat limit),
     release_temp_c := f64_of_nat (unat limit) - COOLANT_RELEASE_MARGIN_C\<rparr>"

definition rule_coolant :: "8 word \<Rightarrow> ThermalSafetyRule" where
  "rule_coolant limit = set_coolant_limit_c limit
     \<lparr>rule_subject = ''Coolant'', trigger_temp_c = Fin 0, release_temp_c = Fin 0,
      forced_output_pct = 100, rule_active = False\<rparr>"

definition set_trigger_temp_c :: "f64 \<Rightarrow> ThermalSafetyRule \<Rightarrow> ThermalSafetyRule" where
  "set_trigger_temp_c t r = r\<lparr>trigger_temp_c := t\<rparr>"

definition rule_evaluate :: "f64 \<Rightarrow> ThermalSafetyRule \<Rightarrow> u8 option \<times> ThermalSafetyRule" where
  "rule_evaluate tctl r =
     (let r' = (if \<not> rule_active r \<and> trigger_temp_c r \<le> tctl then r\<lparr>rule_active := True\<rparr>
                else if rule_active r \<and> tctl \<le> release_temp_c r then r\<lparr>rule_active := False\<rparr>
                else r)
      in (if rule_active r' then Some (forced_output_pct r') else None, r'))"

section \<open>Readings (profile_engine/mod.rs)\<close>

datatype SensorKind = CpuTemp | MbTemp | DiskTemp | GpuTemp | CoolantTemp

record CachedSensorReading =
  s_kind :: SensorKind
  s_value_c :: f64
  s_updated_at :: instant
  s_chip_name :: string
  s_crit_c :: "f64 option"

type_synonym sensors = "(string, CachedSensorReading) hmap"

datatype CpuReading = Fresh f64 | Stale f64 | Absent

definition is_fresh :: "instant \<Rightarrow> duration \<Rightarrow> CachedSensorReading \<Rightarrow> bool" where
  "is_fresh now stale_after s = (now - s_updated_at s \<le> stale_after)"

text \<open>\<open>target.map_or(v, |t| t.max(v))\<close>.\<close>

definition hotter :: "f64 option \<Rightarrow> f64 \<Rightarrow> f64 option" where
  "hotter t v = Some (case t of None \<Rightarrow> v | Some u \<Rightarrow> f64_max u v)"

fun hottest_loop :: "(CachedSensorReading \<Rightarrow> bool) \<Rightarrow> f64 option \<Rightarrow> f64 option \<Rightarrow>
    CachedSensorReading list \<Rightarrow> f64 option \<times> f64 option" where
  "hottest_loop fresh hf hs [] = (hf, hs)"
| "hottest_loop fresh hf hs (s # ss) =
     (if fresh s then hottest_loop fresh (hotter hf (s_value_c s)) hs ss
      else hottest_loop fresh hf (hotter hs (s_value_c s)) ss)"

definition hottest_reading_where ::
    "sensors \<Rightarrow> instant \<Rightarrow> duration \<Rightarrow> (CachedSensorReading \<Rightarrow> bool) \<Rightarrow> CpuReading" where
  "hottest_reading_where sensors now stale_after keep =
     (case hottest_loop (is_fresh now stale_after) None None (filter keep (map snd sensors)) of
        (Some t, _) \<Rightarrow> Fresh t
      | (None, Some t) \<Rightarrow> Stale t
      | (None, None) \<Rightarrow> Absent)"

definition hottest_cpu_reading :: "sensors \<Rightarrow> instant \<Rightarrow> duration \<Rightarrow> CpuReading" where
  "hottest_cpu_reading sensors now stale_after =
     hottest_reading_where sensors now stale_after (\<lambda>s. s_kind s = CpuTemp)"

definition hottest_coolant_reading :: "sensors \<Rightarrow> instant \<Rightarrow> duration \<Rightarrow> CpuReading" where
  "hottest_coolant_reading sensors now stale_after =
     hottest_reading_where sensors now stale_after
       (\<lambda>s. s_kind s = CoolantTemp \<and> is_finite (s_value_c s))"

definition is_authoritative_cpu_chip :: "string \<Rightarrow> bool" where
  "is_authoritative_cpu_chip chip = (chip \<in> {''k10temp'', ''coretemp'', ''sbtsi'', ''sbtsi_temp''})"

definition effective_trigger_c :: "sensors \<Rightarrow> f64" where
  "effective_trigger_c sensors =
     foldl f64_max THERMAL_EMERGENCY_TRIGGER_C
       (map (\<lambda>crit. f64_min (crit + THERMAL_TRIGGER_MARGIN_C) THERMAL_TRIGGER_MAX_C)
         (filter is_finite
           (List.map_filter s_crit_c
             (filter (\<lambda>s. is_authoritative_cpu_chip (s_chip_name s))
               (filter (\<lambda>s. s_kind s = CpuTemp) (map snd sensors))))))"

definition curve_eligible :: "CachedSensorReading \<Rightarrow> instant \<Rightarrow> duration \<Rightarrow> bool" where
  "curve_eligible s now stale_after = (s_kind s = CpuTemp \<or> now - s_updated_at s \<le> stale_after)"

section \<open>The decision tables (safety_tick.rs)\<close>

datatype ThermalState = Normal | Emergency | NoSensorFallback

record SafetyDecision =
  thermal_state :: ThermalState
  forced_pct :: "u8 option"

definition decision_NORMAL :: SafetyDecision where
  "decision_NORMAL = \<lparr>thermal_state = Normal, forced_pct = None\<rparr>"

definition decision_emergency :: "ThermalSafetyRule \<Rightarrow> SafetyDecision" where
  "decision_emergency r = \<lparr>thermal_state = Emergency, forced_pct = Some (forced_output_pct r)\<rparr>"

definition decision_NO_SENSOR_FALLBACK :: SafetyDecision where
  "decision_NO_SENSOR_FALLBACK =
     \<lparr>thermal_state = NoSensorFallback, forced_pct = Some NO_SENSOR_SAFE_PCT\<rparr>"

fun blind_cycles_after :: "CpuReading \<Rightarrow> u32 \<Rightarrow> u32" where
  "blind_cycles_after (Fresh _) n = 0"
| "blind_cycles_after (Stale _) n = u32_inc n"
| "blind_cycles_after Absent n = u32_inc n"

definition fresh_decision :: "f64 \<Rightarrow> ThermalSafetyRule \<Rightarrow> SafetyDecision \<times> ThermalSafetyRule" where
  "fresh_decision t rule =
     (case rule_evaluate t rule of
        (Some _, rule') \<Rightarrow> (decision_emergency rule', rule')
      | (None, rule') \<Rightarrow> (decision_NORMAL, rule'))"

definition evaluate_safety_tick ::
    "CpuReading \<Rightarrow> u32 \<Rightarrow> ThermalSafetyRule \<Rightarrow> SafetyDecision \<times> u32 \<times> ThermalSafetyRule" where
  "evaluate_safety_tick reading no_cpu_sensor_cycles safety =
     (let blind_cycles = blind_cycles_after reading no_cpu_sensor_cycles;
          blind_for_the_debounce = (NO_SENSOR_CYCLE_THRESHOLD \<le> blind_cycles);
          blind = (if blind_for_the_debounce then decision_NO_SENSOR_FALLBACK else decision_NORMAL)
      in case reading of
           Fresh t \<Rightarrow> (case fresh_decision t safety of (d, r) \<Rightarrow> (d, blind_cycles, r))
         | Stale t \<Rightarrow>
             (if rule_active safety then decision_emergency safety
              else if release_temp_c safety \<le> t then decision_NORMAL
              else blind, blind_cycles, safety)
         | Absent \<Rightarrow>
             (if rule_active safety then decision_emergency safety else blind, blind_cycles, safety))"

definition evaluate_coolant_tick ::
    "CpuReading \<Rightarrow> ThermalSafetyRule \<Rightarrow> SafetyDecision \<times> ThermalSafetyRule" where
  "evaluate_coolant_tick reading rule =
     (case reading of
        Fresh t \<Rightarrow> fresh_decision t rule
      | _ \<Rightarrow> (if rule_active rule then decision_emergency rule else decision_NORMAL, rule))"

record EmergencyCauses =
  cause_cpu :: bool
  cause_coolant :: bool

record TickSafety =
  ts_decision :: SafetyDecision
  ts_causes :: EmergencyCauses

definition combine :: "SafetyDecision \<Rightarrow> SafetyDecision \<Rightarrow> TickSafety" where
  "combine cpu coolant =
     (let causes = \<lparr>cause_cpu = (thermal_state cpu = Emergency),
                    cause_coolant = (thermal_state coolant = Emergency)\<rparr>;
          pct = (case (forced_pct cpu, forced_pct coolant) of
                   (Some a, Some b) \<Rightarrow> Some (max a b)
                 | (Some a, None) \<Rightarrow> Some a
                 | (None, b) \<Rightarrow> b);
          st = (if cause_cpu causes \<or> cause_coolant causes then Emergency else thermal_state cpu)
      in \<lparr>ts_decision = \<lparr>thermal_state = st, forced_pct = pct\<rparr>, ts_causes = causes\<rparr>)"

definition cause_tokens :: "EmergencyCauses \<Rightarrow> string list" where
  "cause_tokens c = (if cause_cpu c then [''cpu''] else []) @ (if cause_coolant c then [''coolant''] else [])"

section \<open>The safety leg of one tick\<close>

record SafetyState =
  cpu_rule :: ThermalSafetyRule
  coolant_rule :: ThermalSafetyRule
  no_cpu_sensor_cycles :: u32

record SafetyInput =
  in_sensors :: sensors
  in_now :: instant
  in_stale_after :: duration
  in_coolant_limit :: "8 word"

definition safety_leg :: "SafetyInput \<Rightarrow> SafetyState \<Rightarrow> TickSafety \<times> SafetyState" where
  "safety_leg i s =
     (let cpu_reading = hottest_cpu_reading (in_sensors i) (in_now i) (in_stale_after i);
          rule = set_trigger_temp_c (effective_trigger_c (in_sensors i)) (cpu_rule s);
          (cpu_decision, cycles, rule') =
            evaluate_safety_tick cpu_reading (no_cpu_sensor_cycles s) rule;
          coolant_reading = hottest_coolant_reading (in_sensors i) (in_now i) (in_stale_after i);
          crule = set_coolant_limit_c (in_coolant_limit i) (coolant_rule s);
          (coolant_decision, crule') = evaluate_coolant_tick coolant_reading crule
      in (combine cpu_decision coolant_decision,
          \<lparr>cpu_rule = rule', coolant_rule = crule', no_cpu_sensor_cycles = cycles\<rparr>))"


definition safety_init :: "8 word \<Rightarrow> SafetyState" where
  "safety_init limit = \<lparr>cpu_rule = rule_new, coolant_rule = rule_coolant limit, no_cpu_sensor_cycles = 0\<rparr>"

primrec safety_run :: "SafetyInput list \<Rightarrow> SafetyState \<Rightarrow> SafetyState" where
  "safety_run [] s = s"
| "safety_run (i # is) s = safety_run is (snd (safety_leg i s))"

section \<open>A latch decided by its history\<close>

locale latch_machine =
  fixes step :: "'i \<Rightarrow> 's \<Rightarrow> 's"
    and latched :: "'s \<Rightarrow> bool"
    and inv :: "'s \<Rightarrow> bool"
    and hot cool :: "'i \<Rightarrow> bool"
  assumes step_latched: "inv s \<Longrightarrow> latched (step i s) \<longleftrightarrow> hot i \<or> (latched s \<and> \<not> cool i)"
    and step_inv: "inv s \<Longrightarrow> inv (step i s)"
    and hot_not_cool: "hot i \<Longrightarrow> \<not> cool i"
begin

lemma run_inv: "inv s \<Longrightarrow> inv (fold step is s)"
  by (induction "is" arbitrary: s) (auto simp: step_inv)

lemma latched_history:
  assumes "inv s"
  shows "latched (fold step is s) \<longleftrightarrow>
    (\<exists>pre i post. is = pre @ i # post \<and> hot i \<and> list_all (\<lambda>j. \<not> cool j) post) \<or>
    (latched s \<and> list_all (\<lambda>j. \<not> cool j) is)"
proof (induction "is" rule: rev_induct)
  case (snoc i "is")
  have "latched (fold step (is @ [i]) s) \<longleftrightarrow> hot i \<or> (latched (fold step is s) \<and> \<not> cool i)"
    using step_latched [OF run_inv [OF assms]] by simp
  also have "\<dots> \<longleftrightarrow> (\<exists>pre k post. is @ [i] = pre @ k # post \<and> hot k \<and> list_all (\<lambda>j. \<not> cool j) post) \<or>
      (latched s \<and> list_all (\<lambda>j. \<not> cool j) (is @ [i]))" (is "?L \<longleftrightarrow> ?E \<or> ?R")
  proof
    assume ?L
    then consider "hot i" | "\<not> cool i" "latched (fold step is s)" by blast
    then show "?E \<or> ?R"
    proof cases
      case 2
      from 2(2) snoc consider
        (split) pre k post where "is = pre @ k # post" "hot k" "list_all (\<lambda>j. \<not> cool j) post"
        | (start) "latched s" "list_all (\<lambda>j. \<not> cool j) is" by blast
      then show ?thesis
      proof cases
        case split
        then have "is @ [i] = pre @ k # (post @ [i])" "list_all (\<lambda>j. \<not> cool j) (post @ [i])"
          using 2(1) by simp_all
        with split(2) show ?thesis by blast
      qed (use 2(1) in simp)
    next
      case 1
      then have "is @ [i] = is @ i # [] \<and> hot i \<and> list_all (\<lambda>j. \<not> cool j) []" by simp
      then show ?thesis by blast
    qed
  next
    assume "?E \<or> ?R"
    then show ?L
    proof
      assume ?E
      then obtain pre k post where *: "is @ [i] = pre @ k # post" "hot k" "list_all (\<lambda>j. \<not> cool j) post"
        by blast
      then show ?L
        using snoc by (cases post rule: rev_cases) auto
    qed (use snoc in auto)
  qed
  finally show ?case .
qed simp

lemma latched_holds:
  "inv s \<Longrightarrow> latched s \<Longrightarrow> list_all (\<lambda>j. \<not> cool j) is \<Longrightarrow> latched (fold step is s)"
  by (simp add: latched_history)

end


section \<open>The rule and its tables\<close>

lemma rule_evaluate_active:
  "rule_active (snd (rule_evaluate t r)) \<longleftrightarrow>
     (if rule_active r then \<not> t \<le> release_temp_c r else trigger_temp_c r \<le> t)"
  by (auto simp: rule_evaluate_def Let_def)

lemma rule_evaluate_frame [simp]:
  "release_temp_c (snd (rule_evaluate t r)) = release_temp_c r"
  "trigger_temp_c (snd (rule_evaluate t r)) = trigger_temp_c r"
  "forced_output_pct (snd (rule_evaluate t r)) = forced_output_pct r"
  by (auto simp: rule_evaluate_def Let_def)

lemma rule_evaluate_result:
  "fst (rule_evaluate t r) =
     (if rule_active (snd (rule_evaluate t r)) then Some (forced_output_pct r) else None)"
  by (auto simp: rule_evaluate_def Let_def)

lemma fresh_decision_eq:
  "fresh_decision t r =
     (let r' = snd (rule_evaluate t r)
      in (if rule_active r' then decision_emergency r' else decision_NORMAL, r'))"
  using rule_evaluate_result [of t r]
  by (auto simp: fresh_decision_def Let_def split: prod.split option.split if_splits)

definition rule_after :: "CpuReading \<Rightarrow> ThermalSafetyRule \<Rightarrow> ThermalSafetyRule" where
  "rule_after reading r = (case reading of Fresh t \<Rightarrow> snd (rule_evaluate t r) | _ \<Rightarrow> r)"

definition stale_hot :: "CpuReading \<Rightarrow> f64 \<Rightarrow> bool" where
  "stale_hot reading release = (case reading of Stale t \<Rightarrow> release \<le> t | _ \<Rightarrow> False)"

lemma evaluate_safety_tick_eq:
  "evaluate_safety_tick reading n r =
     (let r' = rule_after reading r; n' = blind_cycles_after reading n
      in (if rule_active r' then decision_emergency r'
          else if NO_SENSOR_CYCLE_THRESHOLD \<le> n' \<and> \<not> stale_hot reading (release_temp_c r)
          then decision_NO_SENSOR_FALLBACK else decision_NORMAL, n', r'))"
  by (cases reading)
     (simp_all add: evaluate_safety_tick_def fresh_decision_eq rule_after_def stale_hot_def
       NO_SENSOR_CYCLE_THRESHOLD_def Let_def)

lemma evaluate_coolant_tick_eq:
  "evaluate_coolant_tick reading r =
     (let r' = rule_after reading r
      in (if rule_active r' then decision_emergency r' else decision_NORMAL, r'))"
  by (cases reading) (simp_all add: evaluate_coolant_tick_def fresh_decision_eq rule_after_def Let_def)

lemma rule_after_frame [simp]:
  "release_temp_c (rule_after x r) = release_temp_c r"
  "forced_output_pct (rule_after x r) = forced_output_pct r"
  by (simp_all add: rule_after_def split: CpuReading.split)

lemma combine_simps [simp]:
  "thermal_state (ts_decision (combine a b)) =
     (if thermal_state a = Emergency \<or> thermal_state b = Emergency then Emergency else thermal_state a)"
  "forced_pct (ts_decision (combine a b)) =
     (case (forced_pct a, forced_pct b) of (Some x, Some y) \<Rightarrow> Some (max x y)
      | (Some x, None) \<Rightarrow> Some x | (None, y) \<Rightarrow> y)"
  by (simp_all add: combine_def Let_def)

lemma decision_simps [simp]:
  "thermal_state decision_NORMAL = Normal" "forced_pct decision_NORMAL = None"
  "thermal_state (decision_emergency r) = Emergency"
  "forced_pct (decision_emergency r) = Some (forced_output_pct r)"
  "thermal_state decision_NO_SENSOR_FALLBACK = NoSensorFallback"
  "forced_pct decision_NO_SENSOR_FALLBACK = Some NO_SENSOR_SAFE_PCT"
  by (simp_all add: decision_NORMAL_def decision_emergency_def decision_NO_SENSOR_FALLBACK_def)

lemma set_trigger_frame [simp]:
  "release_temp_c (set_trigger_temp_c t r) = release_temp_c r"
  "trigger_temp_c (set_trigger_temp_c t r) = t"
  "rule_active (set_trigger_temp_c t r) = rule_active r"
  "forced_output_pct (set_trigger_temp_c t r) = forced_output_pct r"
  by (simp_all add: set_trigger_temp_c_def)

lemma set_coolant_frame [simp]:
  "trigger_temp_c (set_coolant_limit_c l r) = f64_of_nat (unat l)"
  "release_temp_c (set_coolant_limit_c l r) = f64_of_nat (unat l) - COOLANT_RELEASE_MARGIN_C"
  "rule_active (set_coolant_limit_c l r) = rule_active r"
  "forced_output_pct (set_coolant_limit_c l r) = forced_output_pct r"
  by (simp_all add: set_coolant_limit_c_def)

section \<open>Bounds of the derived trip point\<close>

lemma f64_max_le: "a \<le> c \<Longrightarrow> b \<le> c \<Longrightarrow> f64_max a b \<le> c"
  by (simp add: f64_max_def)

lemma f64_max_ge1: "c \<le> a \<Longrightarrow> c \<le> f64_max a b"
  by (cases a; cases b; cases c) (auto simp: f64_max_def)

lemma f64_max_not_NaN: "a \<noteq> NaN \<Longrightarrow> f64_max a b \<noteq> NaN"
  by (simp add: f64_max_def)

lemma foldl_f64_max_bounds:
  assumes "lo \<le> a" "a \<le> hi" "list_all (\<lambda>x. x \<le> hi) xs"
  shows "lo \<le> foldl f64_max a xs \<and> foldl f64_max a xs \<le> hi"
  using assms by (induction xs arbitrary: a) (auto intro: f64_max_le f64_max_ge1)

lemma f64_min_le: "a \<noteq> NaN \<Longrightarrow> b \<le> b \<Longrightarrow> f64_min a b \<le> b"
  by (cases a; cases b) (auto simp: f64_min_def)

lemma effective_trigger_bounds:
  "THERMAL_EMERGENCY_TRIGGER_C \<le> effective_trigger_c ss \<and> effective_trigger_c ss \<le> THERMAL_TRIGGER_MAX_C"
  unfolding effective_trigger_c_def
proof (rule foldl_f64_max_bounds)
  have "f64_min (x + Fin 5) (Fin 115) \<le> Fin 115" if "is_finite x" for x
    using that by (cases x) (auto intro!: f64_min_le)
  then show "list_all (\<lambda>x. x \<le> THERMAL_TRIGGER_MAX_C)
     (map (\<lambda>crit. f64_min (crit + THERMAL_TRIGGER_MARGIN_C) THERMAL_TRIGGER_MAX_C)
       (filter is_finite (List.map_filter s_crit_c
         (filter (\<lambda>s. is_authoritative_cpu_chip (s_chip_name s))
           (filter (\<lambda>s. s_kind s = CpuTemp) (map snd ss))))))"
    by (auto simp: list_all_iff thermal_consts)
qed (simp_all add: thermal_consts)

lemma trigger_above_release:
  "effective_trigger_c ss \<le> t \<Longrightarrow> \<not> t \<le> THERMAL_EMERGENCY_RELEASE_C"
  using effective_trigger_bounds [of ss]
  by (cases t; cases "effective_trigger_c ss") (auto simp: thermal_consts)

section \<open>The safety leg\<close>

definition cpu_in :: "SafetyInput \<Rightarrow> CpuReading" where
  "cpu_in i = hottest_cpu_reading (in_sensors i) (in_now i) (in_stale_after i)"

definition coolant_in :: "SafetyInput \<Rightarrow> CpuReading" where
  "coolant_in i = hottest_coolant_reading (in_sensors i) (in_now i) (in_stale_after i)"

definition cpu_hot :: "SafetyInput \<Rightarrow> bool" where
  "cpu_hot i = (case cpu_in i of Fresh t \<Rightarrow> effective_trigger_c (in_sensors i) \<le> t | _ \<Rightarrow> False)"

definition cpu_cool :: "SafetyInput \<Rightarrow> bool" where
  "cpu_cool i = (case cpu_in i of Fresh t \<Rightarrow> t \<le> THERMAL_EMERGENCY_RELEASE_C | _ \<Rightarrow> False)"

definition coolant_hot :: "SafetyInput \<Rightarrow> bool" where
  "coolant_hot i = (case coolant_in i of Fresh t \<Rightarrow> f64_of_nat (unat (in_coolant_limit i)) \<le> t | _ \<Rightarrow> False)"

definition coolant_cool :: "SafetyInput \<Rightarrow> bool" where
  "coolant_cool i = (case coolant_in i of
     Fresh t \<Rightarrow> t \<le> f64_of_nat (unat (in_coolant_limit i)) - COOLANT_RELEASE_MARGIN_C | _ \<Rightarrow> False)"

definition safety_inv :: "SafetyState \<Rightarrow> bool" where
  "safety_inv s = (release_temp_c (cpu_rule s) = THERMAL_EMERGENCY_RELEASE_C \<and>
     forced_output_pct (cpu_rule s) = 100 \<and> forced_output_pct (coolant_rule s) = 100)"

lemma safety_leg_eq:
  "safety_leg i s =
     (let r = set_trigger_temp_c (effective_trigger_c (in_sensors i)) (cpu_rule s);
          c = set_coolant_limit_c (in_coolant_limit i) (coolant_rule s)
      in (combine (fst (evaluate_safety_tick (cpu_in i) (no_cpu_sensor_cycles s) r))
            (fst (evaluate_coolant_tick (coolant_in i) c)),
          \<lparr>cpu_rule = rule_after (cpu_in i) r, coolant_rule = rule_after (coolant_in i) c,
           no_cpu_sensor_cycles = blind_cycles_after (cpu_in i) (no_cpu_sensor_cycles s)\<rparr>))"
  by (simp add: safety_leg_def evaluate_safety_tick_eq evaluate_coolant_tick_eq cpu_in_def
      coolant_in_def Let_def)

lemma safety_leg_inv: "safety_inv s \<Longrightarrow> safety_inv (snd (safety_leg i s))"
  by (simp add: safety_inv_def safety_leg_eq Let_def)

lemma safety_init_inv: "safety_inv (safety_init l)"
  by (simp add: safety_inv_def safety_init_def rule_new_def rule_coolant_def)

lemma safety_run_fold: "safety_run is s = fold (\<lambda>i s. snd (safety_leg i s)) is s"
  by (induction "is" arbitrary: s) simp_all

lemma u8_word_bound: "unat (l :: 8 word) \<le> 255"
  using unsigned_less [where 'a = nat, of l] by simp

lemma f64_of_nat_sub: "n \<le> 255 \<Longrightarrow> f64_of_nat n - Fin 5 = Fin (of_nat n - 5)"
proof -
  assume "n \<le> 255"
  then have "f64_ok (Fin (of_int (int n - 5)))" by (intro f64_of_int_ok) simp
  then show ?thesis by (simp add: f64_of_nat_def fl_ok del: f64_ok.simps)
qed

lemma limit_above_release: "n \<le> 255 \<Longrightarrow> f64_of_nat n \<le> t \<Longrightarrow> \<not> t \<le> f64_of_nat n - COOLANT_RELEASE_MARGIN_C"
  by (cases t) (auto simp: COOLANT_RELEASE_MARGIN_C_def f64_of_nat_sub, auto simp: f64_of_nat_def)

lemmas coolant_limit_above_release = limit_above_release [OF u8_word_bound]

interpretation cpu_latch: latch_machine "\<lambda>i s. snd (safety_leg i s)" "\<lambda>s. rule_active (cpu_rule s)"
    safety_inv cpu_hot cpu_cool
proof
  show "safety_inv s \<Longrightarrow> rule_active (cpu_rule (snd (safety_leg i s))) \<longleftrightarrow>
      cpu_hot i \<or> (rule_active (cpu_rule s) \<and> \<not> cpu_cool i)" for s i
    by (auto simp: safety_leg_eq rule_after_def safety_inv_def rule_evaluate_active cpu_hot_def cpu_cool_def
        Let_def dest: trigger_above_release split: CpuReading.splits)
  show "cpu_hot i \<Longrightarrow> \<not> cpu_cool i" for i
    by (auto simp: cpu_hot_def cpu_cool_def dest: trigger_above_release split: CpuReading.splits)
qed (rule safety_leg_inv)

interpretation coolant_latch: latch_machine "\<lambda>i s. snd (safety_leg i s)"
    "\<lambda>s. rule_active (coolant_rule s)" safety_inv coolant_hot coolant_cool
proof
  show "safety_inv s \<Longrightarrow> rule_active (coolant_rule (snd (safety_leg i s))) \<longleftrightarrow>
      coolant_hot i \<or> (rule_active (coolant_rule s) \<and> \<not> coolant_cool i)" for s i
    by (auto simp: safety_leg_eq rule_after_def rule_evaluate_active coolant_hot_def coolant_cool_def
        Let_def dest: coolant_limit_above_release split: CpuReading.splits)
  show "coolant_hot i \<Longrightarrow> \<not> coolant_cool i" for i
    by (auto simp: coolant_hot_def coolant_cool_def dest: coolant_limit_above_release split: CpuReading.splits)
qed (rule safety_leg_inv)

lemma safety_leg_decision:
  assumes "safety_inv s" and "safety_leg i s = (d, s')"
  shows "forced_pct (ts_decision d) =
      (if rule_active (cpu_rule s') \<or> rule_active (coolant_rule s') then Some 100
       else if NO_SENSOR_CYCLE_THRESHOLD \<le> no_cpu_sensor_cycles s' \<and>
         \<not> stale_hot (cpu_in i) THERMAL_EMERGENCY_RELEASE_C
       then Some NO_SENSOR_SAFE_PCT else None)"
    and "thermal_state (ts_decision d) =
      (if rule_active (cpu_rule s') \<or> rule_active (coolant_rule s') then Emergency
       else if NO_SENSOR_CYCLE_THRESHOLD \<le> no_cpu_sensor_cycles s' \<and>
         \<not> stale_hot (cpu_in i) THERMAL_EMERGENCY_RELEASE_C
       then NoSensorFallback else Normal)"
  using assms
  by (auto simp: safety_leg_eq evaluate_safety_tick_eq evaluate_coolant_tick_eq
      safety_inv_def Let_def NO_SENSOR_SAFE_PCT_def split: if_splits)

lemma safety_run_inv: "safety_inv s \<Longrightarrow> safety_inv (safety_run is s)"
  by (induction "is" arbitrary: s) (auto simp: safety_leg_inv)

lemma safety_run_append: "safety_run (is @ js) s = safety_run js (safety_run is s)"
  by (induction "is" arbitrary: s) auto

section \<open>Properties of the latch\<close>

text \<open>C6: the CPU latch is exactly its history. After any sequence of ticks from start-up the
  emergency is latched if and only if some tick saw a fresh CPU reading at or above that tick's trip
  point and no later tick saw a fresh reading at or below the release temperature. Stale and absent
  readings, and moves of the trip point, never change it.\<close>

theorem cpu_latch_is_its_history:
  "rule_active (cpu_rule (safety_run is (safety_init limit))) \<longleftrightarrow>
     (\<exists>pre i post. is = pre @ i # post \<and> cpu_hot i \<and> list_all (\<lambda>j. \<not> cpu_cool j) post)"
proof -
  have "\<not> rule_active (cpu_rule (safety_init limit))"
    by (simp add: safety_init_def rule_new_def)
  then show ?thesis
    unfolding safety_run_fold by (simp add: cpu_latch.latched_history [OF safety_init_inv])
qed

text \<open>Lemma: the coolant latch is exactly its history too, with the configured limit of each tick as
  the trip point and the limit less the margin as the release, even when the limit is moved while
  the emergency is latched.\<close>

theorem coolant_latch_is_its_history:
  "rule_active (coolant_rule (safety_run is (safety_init limit))) \<longleftrightarrow>
     (\<exists>pre i post. is = pre @ i # post \<and> coolant_hot i \<and> list_all (\<lambda>j. \<not> coolant_cool j) post)"
proof -
  have "\<not> rule_active (coolant_rule (safety_init limit))"
    by (simp add: safety_init_def rule_coolant_def)
  then show ?thesis
    unfolding safety_run_fold by (simp add: coolant_latch.latched_history [OF safety_init_inv])
qed

text \<open>C7: the decision of every tick of every run. While a rule is latched after the tick the state is an
  emergency and the duty 100. Otherwise, when the blind counter has served its debounce and the CPU
  reading is not a stale one at or above release, the state is the no-sensor fallback and the duty its
  floor. Otherwise, and so also for a stale reading at or above release (whose curves keep running), the
  state is normal and nothing is forced. The state and the duty cannot come apart.\<close>

theorem tick_decision_exact:
  "let (d, s') = safety_leg i (safety_run is (safety_init limit));
       latched = rule_active (cpu_rule s') \<or> rule_active (coolant_rule s');
       blind = NO_SENSOR_CYCLE_THRESHOLD \<le> no_cpu_sensor_cycles s' \<and>
         \<not> stale_hot (cpu_in i) THERMAL_EMERGENCY_RELEASE_C
   in ts_decision d =
        (if latched then \<lparr>thermal_state = Emergency, forced_pct = Some 100\<rparr>
         else if blind then \<lparr>thermal_state = NoSensorFallback, forced_pct = Some NO_SENSOR_SAFE_PCT\<rparr>
         else \<lparr>thermal_state = Normal, forced_pct = None\<rparr>)"
proof -
  obtain d s' where leg: "safety_leg i (safety_run is (safety_init limit)) = (d, s')"
    by (metis surj_pair)
  note dec = safety_leg_decision [OF safety_run_inv [OF safety_init_inv] leg]
  show ?thesis unfolding leg Let_def prod.case by (rule SafetyDecision.equality) (simp_all add: dec)
qed

section \<open>Going blind\<close>

definition not_fresh :: "SafetyInput \<Rightarrow> bool" where
  "not_fresh i = (case cpu_in i of Fresh _ \<Rightarrow> False | _ \<Rightarrow> True)"

lemma safety_leg_cycles:
  "no_cpu_sensor_cycles (snd (safety_leg i s)) = blind_cycles_after (cpu_in i) (no_cpu_sensor_cycles s)"
  by (simp add: safety_leg_eq Let_def)

lemma blind_cycles_inc: "not_fresh i \<Longrightarrow> blind_cycles_after (cpu_in i) n = u32_inc n"
  by (simp add: not_fresh_def split: CpuReading.splits)

lemma safety_run_blind_cycles:
  "list_all not_fresh is \<Longrightarrow> no_cpu_sensor_cycles s + length is < 2 ^ 32 \<Longrightarrow>
     no_cpu_sensor_cycles (safety_run is s) = no_cpu_sensor_cycles s + length is"
  by (induction "is" arbitrary: s) (auto simp: safety_leg_cycles blind_cycles_inc)

text \<open>C34: a machine whose CPU sensors stop updating is never left unforced. Once the blind ticks
  reach the debounce, and unless the last reading is a stale one at or above release (whose curves
  keep running), every further blind tick forces at least the no-sensor floor, whatever happened
  before.\<close>

theorem blind_machine_is_floored:
  assumes "list_all not_fresh (js @ [i])"
    and "NO_SENSOR_CYCLE_THRESHOLD \<le> length (js @ [i])"
    and "no_cpu_sensor_cycles (safety_run is (safety_init limit)) + length (js @ [i]) < 2 ^ 32"
    and "\<not> stale_hot (cpu_in i) THERMAL_EMERGENCY_RELEASE_C"
  shows "\<exists>p. forced_pct (ts_decision (fst (safety_leg i
            (safety_run js (safety_run is (safety_init limit)))))) = Some p \<and> NO_SENSOR_SAFE_PCT \<le> p"
proof -
  let ?s0 = "safety_run is (safety_init limit)"
  obtain d s' where leg: "safety_leg i (safety_run js ?s0) = (d, s')" by (metis surj_pair)
  have "s' = safety_run (js @ [i]) ?s0" using leg by (simp add: safety_run_append)
  then have "NO_SENSOR_CYCLE_THRESHOLD \<le> no_cpu_sensor_cycles s'"
    using safety_run_blind_cycles [OF assms(1,3)] assms(2) by simp
  moreover have "safety_inv (safety_run js ?s0)"
    by (intro safety_run_inv safety_init_inv)
  ultimately show ?thesis
    using safety_leg_decision(1) [OF _ leg] assms(4) leg by (auto simp: NO_SENSOR_SAFE_PCT_def)
qed

definition blind_input :: SafetyInput where
  "blind_input = \<lparr>in_sensors = [], in_now = 0, in_stale_after = secs 5, in_coolant_limit = 60\<rparr>"

lemma blind_input_absent: "cpu_in blind_input = Absent"
  by (simp add: cpu_in_def blind_input_def hottest_cpu_reading_def hottest_reading_where_def)

theorem blind_machine_is_floored_witness:
  "\<exists>p. forced_pct (ts_decision (fst (safety_leg blind_input
      (safety_run [blind_input, blind_input, blind_input, blind_input]
        (safety_run [] (safety_init 60)))))) = Some p \<and> NO_SENSOR_SAFE_PCT \<le> p"
  by (rule blind_machine_is_floored)
     (simp_all add: not_fresh_def blind_input_absent stale_hot_def thermal_consts safety_init_def)


section \<open>The reductions do not depend on the map's iteration order\<close>

lemma f64_max_comm: "f64_max a b = f64_max b a"
  by (cases a; cases b) (auto simp: f64_max_def)

lemma f64_max_left_comm: "f64_max (f64_max u a) b = f64_max (f64_max u b) a"
  by (cases a; cases b; cases u) (auto simp: f64_max_def)

lemma hotter_left_comm: "hotter (hotter t a) b = hotter (hotter t b) a"
  by (cases t) (simp_all add: hotter_def f64_max_left_comm f64_max_comm [of a b])

lemma hottest_loop_folds:
  "hottest_loop fresh hf hs ss =
     (fold (\<lambda>s t. hotter t (s_value_c s)) (filter fresh ss) hf,
      fold (\<lambda>s t. hotter t (s_value_c s)) (filter (\<lambda>s. \<not> fresh s) ss) hs)"
  by (induction fresh hf hs ss rule: hottest_loop.induct) auto

lemma fold_hotter_perm:
  "mset ss = mset ss' \<Longrightarrow>
     fold (\<lambda>s t. hotter t (s_value_c s)) ss = fold (\<lambda>s t. hotter t (s_value_c s)) ss'"
  by (rule fold_permuted_eq [where P = "\<lambda>_. True", THEN ext]) (auto simp: hotter_left_comm)

lemma f64_max_cases: "f64_max u v = u \<or> f64_max u v = v"
  by (simp add: f64_max_def)

lemma f64_max_upper:
  "u \<noteq> NaN \<Longrightarrow> u \<le> f64_max u v" "v \<noteq> NaN \<Longrightarrow> v \<le> f64_max u v"
  by (cases u; cases v; auto simp: f64_max_def)+

lemma f64_le_trans: "a \<le> b \<Longrightarrow> b \<le> c \<Longrightarrow> a \<le> (c :: f64)"
  by (cases a; cases b; cases c) auto

lemma fold_hotter_Some:
  "\<exists>t. fold (\<lambda>s t. hotter t (s_value_c s)) ss (Some u) = Some t \<and>
     t \<in> insert u (s_value_c ` set ss) \<and>
     (\<forall>v \<in> insert u (s_value_c ` set ss). v \<noteq> NaN \<longrightarrow> v \<le> t)"
proof (induction ss arbitrary: u)
  case Nil
  show ?case by (cases u) auto
next
  case (Cons s ss)
  let ?m = "f64_max u (s_value_c s)"
  obtain t where t: "fold (\<lambda>s t. hotter t (s_value_c s)) ss (Some ?m) = Some t"
      "t \<in> insert ?m (s_value_c ` set ss)"
      "\<forall>v \<in> insert ?m (s_value_c ` set ss). v \<noteq> NaN \<longrightarrow> v \<le> t"
    using Cons.IH [of ?m] by blast
  have "v \<noteq> NaN \<Longrightarrow> v \<le> t" if "v = u \<or> v = s_value_c s" for v
    using that t(3) f64_max_upper [of u "s_value_c s"] f64_max_upper(2) [of "s_value_c s" u]
    by (metis f64_le_simps(11) f64_le_trans insertI1)
  with t f64_max_cases [of u "s_value_c s"] show ?case
    by (auto simp: hotter_def)
qed

lemma fold_hotter_None:
  "fold (\<lambda>s t. hotter t (s_value_c s)) ss None =
     (case ss of [] \<Rightarrow> None | s # ss' \<Rightarrow> fold (\<lambda>s t. hotter t (s_value_c s)) ss' (Some (s_value_c s)))"
  by (cases ss) (simp_all add: hotter_def)

definition is_hottest :: "f64 \<Rightarrow> f64 set \<Rightarrow> bool" where
  "is_hottest t vs = (t \<in> vs \<and> (\<forall>v \<in> vs. v \<noteq> NaN \<longrightarrow> v \<le> t))"

lemma hottest_fold_spec:
  "case fold (\<lambda>s t. hotter t (s_value_c s)) ss None of
     None \<Rightarrow> ss = []
   | Some t \<Rightarrow> is_hottest t (s_value_c ` set ss)"
proof (cases ss)
  case (Cons s ss')
  then show ?thesis
    using fold_hotter_Some [of ss' "s_value_c s"] by (auto simp: hotter_def is_hottest_def)
qed simp

text \<open>Lemma: the reading the emergency acts on is the hottest one. A fresh result is the value of
  some selected fresh sensor and no selected fresh sensor reads higher; a stale result says the same
  of the selected sensors and that none of them is fresh; an absent result says there are none. NaN
  values never hide a hotter reading.\<close>

theorem hottest_reading_is_hottest:
  "case hottest_reading_where sensors now budget keep of
     Fresh t \<Rightarrow>
       is_hottest t (s_value_c ` {s \<in> snd ` set sensors. keep s \<and> is_fresh now budget s})
   | Stale t \<Rightarrow>
       is_hottest t (s_value_c ` {s \<in> snd ` set sensors. keep s}) \<and>
       {s \<in> snd ` set sensors. keep s \<and> is_fresh now budget s} = {}
   | Absent \<Rightarrow> {s \<in> snd ` set sensors. keep s} = {}"
proof -
  let ?ss = "filter keep (map snd sensors)"
  let ?fresh = "is_fresh now budget"
  have set_fresh: "set (filter ?fresh ?ss) = {s \<in> snd ` set sensors. keep s \<and> ?fresh s}" by auto
  have no_fresh: "filter ?fresh ?ss = [] \<Longrightarrow>
      set (filter (\<lambda>s. \<not> ?fresh s) ?ss) = {s \<in> snd ` set sensors. keep s} \<and>
      {s \<in> snd ` set sensors. keep s \<and> ?fresh s} = {}"
    by (auto simp: filter_empty_conv)
  have none: "filter ?fresh ?ss = [] \<Longrightarrow> filter (\<lambda>s. \<not> ?fresh s) ?ss = [] \<Longrightarrow>
      {s \<in> snd ` set sensors. keep s} = {}"
    by (auto simp: filter_empty_conv)
  let ?hot = "\<lambda>xs. fold (\<lambda>s t. hotter t (s_value_c s)) xs None"
  have eq: "hottest_reading_where sensors now budget keep =
      (case (?hot (filter ?fresh ?ss), ?hot (filter (\<lambda>s. \<not> ?fresh s) ?ss)) of
         (Some t, _) \<Rightarrow> Fresh t | (None, Some t) \<Rightarrow> Stale t | (None, None) \<Rightarrow> Absent)"
    by (simp only: hottest_reading_where_def hottest_loop_folds)
  show ?thesis
  proof (cases "?hot (filter ?fresh ?ss)")
    case (Some t)
    with hottest_fold_spec [of "filter ?fresh ?ss"] show ?thesis
      unfolding eq Some set_fresh [symmetric] by simp
  next
    case None
    with hottest_fold_spec [of "filter ?fresh ?ss"] have empty: "filter ?fresh ?ss = []" by simp
    show ?thesis
    proof (cases "?hot (filter (\<lambda>s. \<not> ?fresh s) ?ss)")
      case (Some t)
      with hottest_fold_spec [of "filter (\<lambda>s. \<not> ?fresh s) ?ss"] no_fresh [OF empty] show ?thesis
        unfolding eq None Some by simp
    next
      case none2: None
      with hottest_fold_spec [of "filter (\<lambda>s. \<not> ?fresh s) ?ss"] none [OF empty] show ?thesis
        unfolding eq None none2 by simp
    qed
  qed
qed

text \<open>Lemma: the result does not depend on the iteration order of the sensor map.\<close>

theorem hottest_reading_order_free:
  assumes "mset sensors = mset sensors'"
  shows "hottest_reading_where sensors now budget keep = hottest_reading_where sensors' now budget keep"
proof -
  have *: "mset (filter P (filter keep (map snd sensors))) = mset (filter P (filter keep (map snd sensors')))"
    for P using assms by (simp only: mset_filter mset_map)
  show ?thesis
    unfolding hottest_reading_where_def hottest_loop_folds
    using fold_hotter_perm [OF * [of "is_fresh now budget"]]
      fold_hotter_perm [OF * [of "\<lambda>s. \<not> is_fresh now budget s"]] by simp
qed

text \<open>Lemma: the derived trip point is never below the global one and never above the cap, whatever
  the sensors report; so it always lies above the release temperature.\<close>

theorem trip_point_bounds:
  "THERMAL_EMERGENCY_TRIGGER_C \<le> effective_trigger_c ss \<and>
   effective_trigger_c ss \<le> THERMAL_TRIGGER_MAX_C \<and>
   THERMAL_EMERGENCY_RELEASE_C < effective_trigger_c ss"
  using effective_trigger_bounds [of ss]
  by (cases "effective_trigger_c ss") (auto simp: thermal_consts)


definition order_free_sensors :: sensors where
  "order_free_sensors =
     [(''a'', \<lparr>s_kind = CpuTemp, s_value_c = Fin 50, s_updated_at = 0, s_chip_name = ''k10temp'', s_crit_c = None\<rparr>),
      (''b'', \<lparr>s_kind = CpuTemp, s_value_c = Fin 60, s_updated_at = 0, s_chip_name = ''k10temp'', s_crit_c = None\<rparr>)]"

theorem hottest_reading_order_free_witness:
  "hottest_reading_where order_free_sensors 0 0 (\<lambda>_. True) =
   hottest_reading_where (rev order_free_sensors) 0 0 (\<lambda>_. True)"
  by (rule hottest_reading_order_free) simp

end
