(* ===== verification/Header_Roles.thy ===== *)
theory Header_Roles
  imports Ofc_Prelude
begin

text \<open>
  Ids and roles of fan headers: \<open>serial/mod.rs\<close> (the member id of an OpenFan channel),
  \<open>hwmon/chip_name.rs\<close> (the canonical spelling of an hwmon id), \<open>hwmon/aio.rs\<close> (known liquid
  coolers) and \<open>hwmon/roles.rs\<close> (what a header drives, and the pump-protection union).
\<close>

section \<open>Member ids of OpenFan channels (serial/mod.rs)\<close>

definition digit_char :: "nat \<Rightarrow> char" where
  "digit_char d = char_of (48 + d)"

fun show_nat :: "nat \<Rightarrow> string" where
  "show_nat n = (if n < 10 then [digit_char n] else show_nat (n div 10) @ [digit_char (n mod 10)])"

declare show_nat.simps [simp del]

definition digit_val :: "char \<Rightarrow> nat" where
  "digit_val c = of_char c - 48"

definition dec_val :: "string \<Rightarrow> nat" where
  "dec_val s = foldl (\<lambda>n c. 10 * n + digit_val c) 0 s"

text \<open>\<open>str::parse::<u8>\<close>: an optional plus sign, at least one digit, a value that fits.\<close>

definition parse_u8 :: "string \<Rightarrow> u8 option" where
  "parse_u8 s = (let ds = (case s of [] \<Rightarrow> [] | c # r \<Rightarrow> if c = CHR ''+'' then r else s) in
     if ds \<noteq> [] \<and> list_all is_digit ds \<and> dec_val ds \<le> 255 then Some (dec_val ds) else None)"

definition OPENFAN_MEMBER_PREFIX :: string where
  "OPENFAN_MEMBER_PREFIX = ''openfan:ch''"

definition openfan_member_id :: "u8 \<Rightarrow> string" where
  "openfan_member_id channel = OPENFAN_MEMBER_PREFIX @
     (if channel < 10 then ''0'' @ show_nat channel else show_nat channel)"

datatype OpenFanMemberIdError = NotOpenFan | UnparseableChannel

definition openfan_channel_of :: "string \<Rightarrow> OpenFanMemberIdError + u8" where
  "openfan_channel_of member_id =
     (case strip_prefix OPENFAN_MEMBER_PREFIX member_id of
        None \<Rightarrow> Inl NotOpenFan
      | Some sfx \<Rightarrow> (case parse_u8 sfx of None \<Rightarrow> Inl UnparseableChannel | Some c \<Rightarrow> Inr c))"

section \<open>Canonical chip names (hwmon/chip_name.rs)\<close>

definition SUFFIX_HEX_DIGITS :: nat where
  "SUFFIX_HEX_DIGITS = 8"

definition split_it87_suffix :: "string \<Rightarrow> string option" where
  "split_it87_suffix raw =
     (case split_once ''_'' raw of
        None \<Rightarrow> None
      | Some (base, sfx) \<Rightarrow>
          (case strip_prefix ''it'' base of
             None \<Rightarrow> None
           | Some digits \<Rightarrow>
               if digits = [] \<or> \<not> list_all is_digit digits then None
               else if length sfx \<noteq> SUFFIX_HEX_DIGITS \<or> \<not> list_all is_hexdigit sfx then None
               else Some base))"

definition canonical_chip_name :: "string \<Rightarrow> string" where
  "canonical_chip_name raw = (case split_it87_suffix raw of Some base \<Rightarrow> base | None \<Rightarrow> raw)"

text \<open>\<open>id.splitn(3, ':')\<close> with all three parts present and the first one \<open>hwmon\<close>.\<close>

definition hwmon_parts :: "string \<Rightarrow> (string \<times> string) option" where
  "hwmon_parts i =
     (case split_once '':'' i of
        Some (a, b) \<Rightarrow> if a = ''hwmon'' then split_once '':'' b else None
      | None \<Rightarrow> None)"

definition canonical_hwmon_id :: "string \<Rightarrow> string" where
  "canonical_hwmon_id i =
     (case hwmon_parts i of
        None \<Rightarrow> i
      | Some (chip, rest) \<Rightarrow>
          (case split_it87_suffix chip of
             Some base \<Rightarrow> ''hwmon:'' @ base @ '':'' @ rest
           | None \<Rightarrow> i))"

definition is_suffixed_hwmon_id :: "string \<Rightarrow> bool" where
  "is_suffixed_hwmon_id i =
     (case hwmon_parts i of None \<Rightarrow> False | Some (chip, _) \<Rightarrow> split_it87_suffix chip \<noteq> None)"

definition hwmon_id_chip :: "string \<Rightarrow> string option" where
  "hwmon_id_chip i = map_option fst (hwmon_parts i)"

section \<open>Liquid coolers (hwmon/aio.rs)\<close>

definition LIQUID_COOLER_CHIPS :: "string list" where
  "LIQUID_COOLER_CHIPS = [''x53'', ''z53'', ''kraken2023'', ''kraken2023elite'', ''kraken2024elite'',
     ''kraken2'', ''d5next'', ''highflownext'', ''leakshield'']"

definition is_liquid_cooler_chip :: "string \<Rightarrow> bool" where
  "is_liquid_cooler_chip chip = (to_lower chip \<in> set LIQUID_COOLER_CHIPS)"

definition COOLANT_TEMP_CHIPS :: "string list" where
  "COOLANT_TEMP_CHIPS = [''x53'', ''z53'', ''kraken2023'', ''kraken2023elite'', ''kraken2024elite'',
     ''kraken2'']"

definition COOLANT_LABEL_HINTS :: "string list" where
  "COOLANT_LABEL_HINTS = [''coolant'', ''water'', ''liquid'']"

definition is_coolant_sensor :: "string \<Rightarrow> string \<Rightarrow> bool" where
  "is_coolant_sensor chip label =
     (to_lower chip \<in> set COOLANT_TEMP_CHIPS \<or>
      list_ex (\<lambda>hint. str_contains (to_lower label) hint) COOLANT_LABEL_HINTS)"

section \<open>Roles (hwmon/roles.rs)\<close>

datatype HeaderRole = Unknown | CpuFan | Pump | RadiatorFan | ChassisFan | NoFan
datatype RoleSource = NoEvidence | Label | ChipMapping | UserAssigned

fun role_as_str :: "HeaderRole \<Rightarrow> string" where
  "role_as_str Unknown = ''unknown''"
| "role_as_str CpuFan = ''cpu_fan''"
| "role_as_str Pump = ''pump''"
| "role_as_str RadiatorFan = ''radiator_fan''"
| "role_as_str ChassisFan = ''chassis_fan''"
| "role_as_str NoFan = ''no_fan''"

definition role_from_token :: "string \<Rightarrow> HeaderRole option" where
  "role_from_token token =
     (if token = ''unknown'' then Some Unknown
      else if token = ''cpu_fan'' then Some CpuFan
      else if token = ''pump'' then Some Pump
      else if token = ''radiator_fan'' then Some RadiatorFan
      else if token = ''chassis_fan'' then Some ChassisFan
      else if token = ''no_fan'' then Some NoFan
      else None)"

definition is_pump :: "HeaderRole \<Rightarrow> bool" where
  "is_pump role = (role = Pump)"

definition ROLE_PUMP_LABEL_HINTS :: "string list" where
  "ROLE_PUMP_LABEL_HINTS = [''pump'']"

definition CPU_FAN_LABEL_PREFIXES :: "string list" where
  "CPU_FAN_LABEL_PREFIXES = [''cpu_fan'', ''cpufan'']"

definition CHASSIS_LABEL_HINTS :: "string list" where
  "CHASSIS_LABEL_HINTS = [''cha_fan'', ''chafan'', ''sys_fan'', ''sysfan'', ''chassis'']"

text \<open>\<open>lower.replace(['-', ' ', '.'], "_")\<close>.\<close>

definition normalise_label :: "string \<Rightarrow> string" where
  "normalise_label s = map (\<lambda>c. if c \<in> {CHR ''-'', CHR '' '', CHR ''.''} then CHR ''_'' else c) s"

definition role_from_label :: "string \<Rightarrow> HeaderRole option" where
  "role_from_label label =
     (let lower = to_lower label; normalised = normalise_label lower in
      if list_ex (str_contains lower) ROLE_PUMP_LABEL_HINTS then Some Pump
      else if list_ex (\<lambda>p. prefix p normalised) CPU_FAN_LABEL_PREFIXES then Some CpuFan
      else if list_ex (str_contains normalised) CHASSIS_LABEL_HINTS then Some ChassisFan
      else None)"

definition classify_header_role :: "string \<Rightarrow> u8 \<Rightarrow> string \<Rightarrow> HeaderRole \<times> RoleSource" where
  "classify_header_role chip_name pwm_index label =
     (let has_real_label = (label \<noteq> [] \<and> label \<noteq> ''pwm'' @ show_nat pwm_index) in
      case (if has_real_label then role_from_label label else None) of
        Some role \<Rightarrow> (role, Label)
      | None \<Rightarrow>
          if is_liquid_cooler_chip chip_name
          then (if pwm_index = 1 then (Pump, ChipMapping) else (RadiatorFan, ChipMapping))
          else (Unknown, NoEvidence))"

definition source_takes_role :: "string \<Rightarrow> bool" where
  "source_takes_role source = (source = ''hwmon'' \<or> source = ''openfan'')"

definition role_key :: "string \<Rightarrow> string" where
  "role_key i =
     (case openfan_channel_of i of
        Inr channel \<Rightarrow> openfan_member_id channel
      | Inl _ \<Rightarrow> canonical_hwmon_id i)"

definition resolve_role ::
    "HeaderRole option \<Rightarrow> HeaderRole \<times> RoleSource \<Rightarrow> HeaderRole \<times> RoleSource" where
  "resolve_role assigned inferred =
     (case assigned of Some role \<Rightarrow> (role, UserAssigned) | None \<Rightarrow> inferred)"

definition is_pump_protected ::
    "HeaderRole option \<Rightarrow> HeaderRole \<times> RoleSource \<Rightarrow> bool \<Rightarrow> bool" where
  "is_pump_protected assigned inferred profile_names_pump =
     (profile_names_pump \<or> is_pump (fst inferred) \<or> is_pump (fst (resolve_role assigned inferred)))"

section \<open>Decimal round trip\<close>

lemma digit_char_simps [simp]: "d < 10 \<Longrightarrow> is_digit (digit_char d)" "d < 10 \<Longrightarrow> digit_val (digit_char d) = d"
  by (auto simp: is_digit_def digit_char_def digit_val_def)

lemma dec_val_snoc: "dec_val (s @ [c]) = 10 * dec_val s + digit_val c"
  by (simp add: dec_val_def)

lemma dec_val_zero: "dec_val (CHR ''0'' # s) = dec_val s"
  by (simp add: dec_val_def digit_val_def)

lemma show_nat_spec: "dec_val (show_nat n) = n \<and> list_all is_digit (show_nat n) \<and> show_nat n \<noteq> []"
proof (induction n rule: show_nat.induct)
  case (1 n)
  show ?case
  proof (cases "n < 10")
    case True
    then show ?thesis by (subst (1 2 3) show_nat.simps) (simp add: dec_val_def)
  next
    case False
    with 1 show ?thesis by (subst (1 2 3) show_nat.simps) (simp add: dec_val_snoc)
  qed
qed

lemma parse_u8_digits:
  "list_all is_digit s \<Longrightarrow> s \<noteq> [] \<Longrightarrow> dec_val s \<le> 255 \<Longrightarrow> parse_u8 s = Some (dec_val s)"
  by (cases s) (auto simp: parse_u8_def is_digit_def)

lemma parse_u8_le: "parse_u8 s = Some c \<Longrightarrow> c \<le> 255"
  by (auto simp: parse_u8_def Let_def split: if_splits)

lemma strip_prefix_append [simp]: "strip_prefix p (p @ s) = Some s"
  by (simp add: strip_prefix_Some)

lemma openfan_roundtrip: "c \<le> 255 \<Longrightarrow> openfan_channel_of (openfan_member_id c) = Inr c"
  using show_nat_spec [of c]
  by (auto simp: openfan_channel_of_def openfan_member_id_def parse_u8_digits is_digit_def
      dec_val_zero)

section \<open>Canonical ids are fixed points\<close>

lemma split_once_char_None: "c \<notin> set s \<longleftrightarrow> split_once [c] s = None"
  by (induction s) auto

lemma split_once_char_first: "c \<notin> set a \<Longrightarrow> split_once [c] (a @ c # b) = Some (a, b)"
  by (induction a) auto

lemma split_once_char_notin: "split_once [c] s = Some (a, b) \<Longrightarrow> c \<notin> set a"
  by (induction s arbitrary: a) (auto split: if_splits)

lemma digit_not: "is_digit c \<Longrightarrow> c \<noteq> CHR ''_''" "is_digit c \<Longrightarrow> c \<noteq> CHR '':''"
  by (auto simp: is_digit_def)

lemma split_it87_suffix_base:
  assumes "split_it87_suffix raw = Some base"
  shows "CHR '':'' \<notin> set base" "split_it87_suffix base = None"
proof -
  from assms obtain digits where d: "base = ''it'' @ digits" "list_all is_digit digits"
    by (auto simp: split_it87_suffix_def strip_prefix_Some split: option.splits if_splits)
  have "x \<noteq> CHR '':'' \<and> x \<noteq> CHR ''_''" if "x \<in> set digits" for x
    using d(2) that digit_not by (auto simp: list_all_iff)
  then have no: "CHR '':'' \<notin> set base" "CHR ''_'' \<notin> set base" using d(1) by auto
  show "CHR '':'' \<notin> set base" by (rule no)
  show "split_it87_suffix base = None"
    using no(2) by (simp add: split_it87_suffix_def split_once_char_None)
qed

lemma hwmon_parts_Some: "hwmon_parts i = Some (chip, rest) \<Longrightarrow> i = ''hwmon:'' @ chip @ '':'' @ rest"
  by (auto simp: hwmon_parts_def dest!: split_once_Some split: option.splits if_splits prod.splits)

lemma hwmon_parts_intro:
  "CHR '':'' \<notin> set chip \<Longrightarrow> hwmon_parts (''hwmon:'' @ chip @ '':'' @ rest) = Some (chip, rest)"
  by (simp add: hwmon_parts_def split_once_char_first)

lemma canonical_hwmon_id_idem: "canonical_hwmon_id (canonical_hwmon_id i) = canonical_hwmon_id i"
proof (cases "canonical_hwmon_id i = i")
  case False
  then obtain chip rest base where
    "hwmon_parts i = Some (chip, rest)" "split_it87_suffix chip = Some base"
    by (auto simp: canonical_hwmon_id_def split: option.splits)
  then show ?thesis
    using split_it87_suffix_base [of chip base] hwmon_parts_intro [of base rest]
    by (simp add: canonical_hwmon_id_def)
qed simp

lemma canonical_not_openfan: "canonical_hwmon_id i \<noteq> i \<Longrightarrow> openfan_channel_of (canonical_hwmon_id i) = Inl NotOpenFan"
  by (auto simp: canonical_hwmon_id_def openfan_channel_of_def OPENFAN_MEMBER_PREFIX_def
      split: option.splits)

section \<open>Properties\<close>

text \<open>Lemma: role assignments are stored under the key of the header they name, and looking the key up
  again changes nothing: the key function is idempotent on every string, so every spelling of one
  OpenFan channel and both chip spellings of one hwmon header share one entry.\<close>

theorem role_key_idempotent: "role_key (role_key i) = role_key i"
proof (cases "openfan_channel_of i")
  case (Inr c)
  then have "c \<le> 255" by (auto simp: openfan_channel_of_def dest: parse_u8_le split: option.splits)
  with Inr show ?thesis by (simp add: role_key_def openfan_roundtrip)
next
  case (Inl e)
  show ?thesis
  proof (cases "canonical_hwmon_id i = i")
    case True
    then show ?thesis using Inl by (simp add: role_key_def)
  next
    case False
    then show ?thesis using Inl canonical_not_openfan canonical_hwmon_id_idem
      by (simp add: role_key_def)
  qed
qed

text \<open>Lemma: the member id the daemon prints for an OpenFan channel is read back as that channel, for
  every channel number a byte holds.\<close>

theorem openfan_member_id_roundtrip:
  assumes "channel \<le> 255"
  shows "openfan_channel_of (openfan_member_id channel) = Inr channel"
  using assms by (rule openfan_roundtrip)

theorem openfan_member_id_roundtrip_witness: "openfan_channel_of (openfan_member_id 7) = Inr 7"
  by (rule openfan_member_id_roundtrip) simp

text \<open>Lemma: every role token of the API parses back to its role, and no other string parses at all.\<close>

theorem role_token_roundtrip: "role_from_token s = Some r \<longleftrightarrow> s = role_as_str r"
  by (cases r) (auto simp: role_from_token_def)

text \<open>Lemma: pump protection is a union of three sources. It holds exactly when the active profile
  labels the header as a pump, the header's own evidence does, or the operator assigned it; so an
  assignment can add protection to a header and can never take it away.\<close>

theorem pump_protection_is_union:
  "is_pump_protected assigned inferred names_pump \<longleftrightarrow>
     names_pump \<or> fst inferred = Pump \<or> assigned = Some Pump"
  by (auto simp: is_pump_protected_def resolve_role_def is_pump_def split: option.splits)

end
