(* ===== verification/Memory_Id.thy ===== *)
theory Memory_Id
  imports Ofc_Prelude
begin

text \<open>
  Bus-independent ids of memory-module sensors: the parser and the resolver of
  \<open>hwmon/memory_id.rs\<close>. The sysfs walk that mints a stable id is not modelled (it only reads
  files); a saved id is followed to a live one by \<open>resolve\<close>, whose exact meaning is proved.
\<close>

section \<open>Parsing\<close>

definition MEMORY_MODULE_CHIPS :: "string list" where
  "MEMORY_MODULE_CHIPS = [''spd5118'', ''jc42'']"

record MemorySensorId =
  m_chip :: string
  m_legacy :: bool
  m_controller :: string
  m_segments :: "string list"
  m_address :: nat
  m_label :: string

definition is_addr4 :: "string \<Rightarrow> bool" where
  "is_addr4 s = (length s = 4 \<and>
     list_all (\<lambda>b. is_digit b \<or> 97 \<le> (of_char b :: nat) \<and> (of_char b :: nat) \<le> 102) s)"

definition is_digits :: "string \<Rightarrow> bool" where
  "is_digits s = (s \<noteq> [] \<and> list_all is_digit s)"

definition is_segment :: "string \<Rightarrow> bool" where
  "is_segment s =
     (case strip_prefix ''ch'' s of
        Some r \<Rightarrow> is_digits r
      | None \<Rightarrow> (case strip_prefix ''p'' s of Some r \<Rightarrow> is_digits r | None \<Rightarrow> False))"

text \<open>\<open>u16::from_str_radix(addr, 16)\<close> on four hexadecimal digits, which always fits.\<close>

definition hexdigit_val :: "char \<Rightarrow> nat" where
  "hexdigit_val c = (let n = of_char c in if n \<le> 57 then n - 48 else if n \<le> 70 then n - 55 else n - 87)"

definition hex_val :: "string \<Rightarrow> nat" where
  "hex_val s = foldl (\<lambda>n c. 16 * n + hexdigit_val c) 0 s"

text \<open>The loop that peels port and channel tokens off the end of the device.\<close>

function peel_segments :: "string \<Rightarrow> string list \<Rightarrow> string \<times> string list" where
  "peel_segments controller segments =
     (case rsplit_once CHR ''-'' controller of
        Some (before, l) \<Rightarrow>
          if before = [] \<or> \<not> is_segment l then (controller, segments)
          else peel_segments before (segments @ [l])
      | None \<Rightarrow> (controller, segments))"
  by pat_completeness auto
termination
  by (relation "measure (length \<circ> fst)") (auto dest: rsplit_once_Some)

declare peel_segments.simps [simp del]

definition parse_memory_id :: "string \<Rightarrow> MemorySensorId option" where
  "parse_memory_id i =
     (case strip_prefix ''hwmon:'' i of None \<Rightarrow> None
      | Some rest0 \<Rightarrow>
     (case split_once '':'' rest0 of None \<Rightarrow> None
      | Some (chip, rest) \<Rightarrow>
        if chip \<notin> set MEMORY_MODULE_CHIPS then None else
     (case rsplit_once CHR '':'' rest of None \<Rightarrow> None
      | Some (device, label) \<Rightarrow>
        if device = [] \<or> label = [] then None else
     (case rsplit_once CHR ''-'' device of None \<Rightarrow> None
      | Some (head, addr) \<Rightarrow>
        if \<not> is_addr4 addr \<or> head = [] then None
        else if is_digits head then
          Some \<lparr>m_chip = chip, m_legacy = True, m_controller = [], m_segments = [],
                m_address = hex_val addr, m_label = label\<rparr>
        else let (controller, segments) = peel_segments head [] in
          Some \<lparr>m_chip = chip, m_legacy = False, m_controller = controller,
                m_segments = rev segments, m_address = hex_val addr, m_label = label\<rparr>))))"

section \<open>Resolving\<close>

text \<open>The closure \<open>is_twin\<close>: \<open>Some\<close> of whether the twin is of the other form.\<close>

definition is_twin :: "string \<Rightarrow> string \<Rightarrow> bool option" where
  "is_twin saved i =
     (case (parse_memory_id saved, parse_memory_id i) of
        (Some w, Some p) \<Rightarrow>
          if m_chip p = m_chip w \<and> m_address p = m_address w \<and> m_label p = m_label w
          then Some (m_legacy p \<noteq> m_legacy w) else None
      | _ \<Rightarrow> None)"

fun resolve_live ::
    "string \<Rightarrow> string list \<Rightarrow> nat \<Rightarrow> string option \<Rightarrow> string list \<Rightarrow>
     string + (string list \<times> nat \<times> string option)" where
  "resolve_live saved seen twins live_twin [] = Inr (seen, twins, live_twin)"
| "resolve_live saved seen twins live_twin (i # ids) =
     (if i = saved then Inl i
      else if i \<in> set seen then resolve_live saved seen twins live_twin ids
      else case is_twin saved i of
             Some other_form \<Rightarrow>
               resolve_live saved (i # seen) (twins + 1) (if other_form then Some i else None) ids
           | None \<Rightarrow> resolve_live saved (i # seen) twins live_twin ids)"

fun resolve_unavailable :: "string \<Rightarrow> string list \<Rightarrow> nat \<Rightarrow> string list \<Rightarrow> nat" where
  "resolve_unavailable saved seen twins [] = twins"
| "resolve_unavailable saved seen twins (i # ids) =
     (if i \<noteq> saved \<and> i \<notin> set seen
      then resolve_unavailable saved (i # seen)
             (if is_twin saved i \<noteq> None then twins + 1 else twins) ids
      else resolve_unavailable saved seen twins ids)"

definition resolve :: "string \<Rightarrow> string list \<Rightarrow> string list \<Rightarrow> string option" where
  "resolve saved live unavailable =
     (case resolve_live saved [] 0 None live of
        Inl i \<Rightarrow> Some i
      | Inr (seen, twins, live_twin) \<Rightarrow>
          if resolve_unavailable saved seen twins unavailable = 1 then live_twin else None)"

section \<open>The resolver counts distinct twins\<close>

definition twins_of :: "string \<Rightarrow> string set \<Rightarrow> string set" where
  "twins_of saved ids = {i \<in> ids. is_twin saved i \<noteq> None}"

lemma finite_twins [simp]: "finite A \<Longrightarrow> finite (twins_of saved A)"
  by (simp add: twins_of_def)

lemma twins_insert:
  "twins_of saved (insert i A) = (if is_twin saved i = None then twins_of saved A else insert i (twins_of saved A))"
  by (auto simp: twins_of_def)

lemma twins_notin: "i \<notin> A \<Longrightarrow> i \<notin> twins_of saved A"
  by (simp add: twins_of_def)

lemma resolve_live_saved:
  "saved \<in> set live \<Longrightarrow> resolve_live saved seen twins lt live = Inl saved"
  by (induction saved seen twins lt live rule: resolve_live.induct) (auto split: option.split)

definition live_twin_ok :: "string \<Rightarrow> string list \<Rightarrow> string option \<Rightarrow> bool" where
  "live_twin_ok saved seen lt =
     ((twins_of saved (set seen) = {} \<longrightarrow> lt = None) \<and>
      (\<forall>i. twins_of saved (set seen) = {i} \<longrightarrow>
        lt = (if is_twin saved i = Some True then Some i else None)))"

lemma twins_of_Nil: "twins_of saved {} = {}"
  by (simp add: twins_of_def)

lemma live_twin_ok_Nil: "live_twin_ok saved [] None"
  by (simp add: live_twin_ok_def twins_of_def)

lemma live_twin_ok_step:
  assumes "i \<notin> set seen"
  shows "is_twin saved i = None \<Longrightarrow> live_twin_ok saved seen lt \<Longrightarrow> live_twin_ok saved (i # seen) lt"
    and "is_twin saved i = Some b \<Longrightarrow> live_twin_ok saved (i # seen) (if b then Some i else None)"
  using assms twins_notin [of i "set seen" saved]
  by (auto simp: live_twin_ok_def twins_insert)

lemma resolve_live_Inr:
  "saved \<notin> set live \<Longrightarrow> twins = card (twins_of saved (set seen)) \<Longrightarrow> live_twin_ok saved seen lt \<Longrightarrow>
   \<exists>seen' lt'. resolve_live saved seen twins lt live =
       Inr (seen', card (twins_of saved (set seen')), lt') \<and>
     set seen' = set seen \<union> set live \<and> live_twin_ok saved seen' lt'"
proof (induction saved seen twins lt live rule: resolve_live.induct)
  case (2 saved seen twins lt i ids)
  then have ne: "i \<noteq> saved" "saved \<notin> set ids" by auto
  show ?case
  proof (cases "i \<in> set seen")
    case True
    then show ?thesis using 2(1) [OF ne(1) True ne(2) 2(5,6)] ne by (auto simp: insert_absorb)
  next
    case False
    show ?thesis
    proof (cases "is_twin saved i")
      case None
      have c: "twins = card (twins_of saved (set (i # seen)))"
        using None 2(5) by (simp add: twins_insert)
      show ?thesis
        using 2(2) [OF ne(1) False None ne(2) c live_twin_ok_step(1) [OF False None 2(6)]] ne False None
        by auto
    next
      case (Some b)
      have c: "twins + 1 = card (twins_of saved (set (i # seen)))"
        using Some 2(5) twins_notin [OF False, of saved] by (simp add: twins_insert)
      show ?thesis
        using 2(3) [OF ne(1) False Some ne(2) c live_twin_ok_step(2) [OF False Some]] ne False Some
        by auto
    qed
  qed
qed auto

lemma resolve_unavailable_card:
  "twins = card (twins_of saved (set seen)) \<Longrightarrow>
   resolve_unavailable saved seen twins ids = card (twins_of saved (set seen \<union> (set ids - {saved})))"
proof (induction saved seen twins ids rule: resolve_unavailable.induct)
  case (2 saved seen twins i ids)
  show ?case
  proof (cases "i \<noteq> saved \<and> i \<notin> set seen")
    case True
    have "(if is_twin saved i \<noteq> None then twins + 1 else twins) = card (twins_of saved (set (i # seen)))"
      using True 2(3) twins_notin [of i "set seen" saved] by (auto simp: twins_insert)
    moreover have "insert i (set seen \<union> (set ids - {saved})) = set seen \<union> (set (i # ids) - {saved})"
      using True by auto
    ultimately show ?thesis using 2(1) True by simp
  next
    case False
    then have "set seen \<union> (set (i # ids) - {saved}) = set seen \<union> (set ids - {saved})" by auto
    then show ?thesis using 2(2) [OF False 2(3)] False by (simp only: resolve_unavailable.simps if_False)
  qed
qed simp

text \<open>Lemma: what a saved id resolves to, exactly. A live id is itself. Any other id moves only to a
  live id that is its single twin (same chip, address and label) among every other id, live or
  quarantined, and only when that twin is of the other form; every other case is refused. So a
  second module at the same address, even a quarantined one, blocks the move, and the result is
  always live.\<close>

theorem resolve_exact:
  "resolve saved live unavailable = Some i \<longleftrightarrow>
     (if saved \<in> set live then i = saved
      else i \<in> set live \<and> is_twin saved i = Some True \<and>
        {j \<in> set live \<union> (set unavailable - {saved}). is_twin saved j \<noteq> None} = {i})"
proof (cases "saved \<in> set live")
  case True
  then show ?thesis by (auto simp: resolve_def resolve_live_saved)
next
  case False
  obtain seen lt where r: "resolve_live saved [] 0 None live = Inr (seen, card (twins_of saved (set seen)), lt)"
      and seen: "set seen = set live" and ok: "live_twin_ok saved seen lt"
    using resolve_live_Inr [OF False, of 0 "[]" None]
    by (auto simp: live_twin_ok_Nil twins_of_Nil)
  let ?T = "twins_of saved (set live \<union> (set unavailable - {saved}))"
  have eq: "resolve saved live unavailable = (if card ?T = 1 then lt else None)"
    using resolve_unavailable_card [OF refl, of saved seen unavailable] r seen by (simp add: resolve_def)
  have sub: "twins_of saved (set live) \<subseteq> ?T" by (auto simp: twins_of_def)
  have lt_one: "lt = (if is_twin saved j = Some True \<and> j \<in> set live then Some j else None)"
    if T: "?T = {j}" for j
  proof (cases "j \<in> set live")
    case True
    then have "j \<in> twins_of saved (set live)" using T by (auto simp: twins_of_def)
    with sub T have "twins_of saved (set live) = {j}" by auto
    then show ?thesis using ok seen True by (simp add: live_twin_ok_def)
  next
    case no: False
    then have "j \<notin> twins_of saved (set live)" by (simp add: twins_of_def)
    with sub T have "twins_of saved (set live) = {}" by auto
    then show ?thesis using ok seen no by (simp add: live_twin_ok_def)
  qed
  have "(if card ?T = 1 then lt else None) = Some i \<longleftrightarrow>
      i \<in> set live \<and> is_twin saved i = Some True \<and> ?T = {i}"
  proof (cases "card ?T = 1")
    case True
    then obtain j where T: "?T = {j}" by (rule card_1_singletonE)
    show ?thesis using True lt_one [OF T] by (auto simp: T)
  next
    case False
    then have "?T \<noteq> {i}" by (metis card.empty card_insert_disjoint empty_iff finite.emptyI One_nat_def)
    with False show ?thesis by simp
  qed
  then show ?thesis using False by (simp only: eq twins_of_def if_False)
qed

end
