(* ===== verification/Profile_Model.thy ===== *)
theory Profile_Model
  imports Float64 Header_Roles Memory_Id
begin

text \<open>
  The profile document and its rules: \<open>profile.rs\<close>. The records are the deserialised structs, with
  their fields in the source's order; \<open>evaluate_curve\<close> and its helpers are the single-temperature
  curves; \<open>check_numeric_ranges\<close> and \<open>load_checks\<close> are the nets every profile read from disk goes
  through; \<open>validate\<close> is the API's validator with its Mix and Sync cycle detection; the rest
  classifies members for the pump floor. JSON decoding, the file reads and the human-readable
  descriptions of violations are left out; a violation keeps its field path, reason and severity.
\<close>

section \<open>The document\<close>

record CurvePoint =
  pt_temp_c :: f64
  pt_output_pct :: f64

record CurveConfig =
  cv_id :: string
  cv_name :: string
  cv_type :: string
  cv_sensor_id :: string
  cv_points :: "CurvePoint list"
  start_temp_c :: "f64 option"
  start_output_pct :: "f64 option"
  end_temp_c :: "f64 option"
  end_output_pct :: "f64 option"
  flat_output_pct :: "f64 option"
  trigger_idle_temp_c :: "f64 option"
  trigger_load_temp_c :: "f64 option"
  trigger_idle_pct :: "f64 option"
  trigger_load_pct :: "f64 option"
  mix_function :: "string option"
  mix_curve_ids :: "string list"
  sync_control_id :: string
  sync_offset_pct :: "f64 option"
  hysteresis_c :: "f64 option"

record ControlMember =
  cm_source :: string
  cm_member_id :: string
  cm_member_label :: string
  cm_fan_zero_rpm :: bool

record LogicalControl =
  lc_id :: string
  lc_name :: string
  lc_mode :: string
  lc_curve_id :: string
  manual_output_pct :: f64
  lc_members :: "ControlMember list"
  step_up_pct :: f64
  step_down_pct :: f64
  offset_pct :: f64
  minimum_pct :: f64
  start_pct :: f64
  stop_pct :: f64

record DaemonProfile =
  p_id :: string
  p_name :: string
  p_version :: u32
  p_description :: string
  p_controls :: "LogicalControl list"
  p_curves :: "CurveConfig list"

definition HYSTERESIS_DEADBAND_C :: f64 where "HYSTERESIS_DEADBAND_C = Fin 2"
definition HYSTERESIS_DEADBAND_MAX_C :: f64 where "HYSTERESIS_DEADBAND_MAX_C = Fin 10"
definition TRIGGER_IDLE_TEMP_C :: f64 where "TRIGGER_IDLE_TEMP_C = Fin 40"
definition TRIGGER_LOAD_TEMP_C :: f64 where "TRIGGER_LOAD_TEMP_C = Fin 60"
definition TRIGGER_IDLE_PCT :: f64 where "TRIGGER_IDLE_PCT = Fin 30"
definition TRIGGER_LOAD_PCT :: f64 where "TRIGGER_LOAD_PCT = Fin 80"
definition MAX_PROFILE_ID_BYTES :: nat where "MAX_PROFILE_ID_BYTES = 128"
definition MAX_CURVE_POINTS :: nat where "MAX_CURVE_POINTS = 256"
definition MAX_PROFILE_CURVES :: nat where "MAX_PROFILE_CURVES = 256"
definition MAX_PROFILE_CONTROLS :: nat where "MAX_PROFILE_CONTROLS = 256"
definition HARD_PUMP_CPU_FLOOR_PCT :: f64 where "HARD_PUMP_CPU_FLOOR_PCT = Fin 30"
definition DC_PUMP_FLOOR_PCT :: f64 where "DC_PUMP_FLOOR_PCT = Fin 70"
definition PWM_MODE_DC :: u8 where "PWM_MODE_DC = 0"

lemmas profile_consts = HYSTERESIS_DEADBAND_C_def HYSTERESIS_DEADBAND_MAX_C_def
  TRIGGER_IDLE_TEMP_C_def TRIGGER_LOAD_TEMP_C_def TRIGGER_IDLE_PCT_def TRIGGER_LOAD_PCT_def
  HARD_PUMP_CPU_FLOOR_PCT_def DC_PUMP_FLOOR_PCT_def

definition unwrap_or :: "'a \<Rightarrow> 'a option \<Rightarrow> 'a" where
  "unwrap_or d x = (case x of Some v \<Rightarrow> v | None \<Rightarrow> d)"

lemma unwrap_or_simps [simp]: "unwrap_or d None = d" "unwrap_or d (Some v) = v"
  by (simp_all add: unwrap_or_def)

definition effective_hysteresis_c :: "CurveConfig \<Rightarrow> f64" where
  "effective_hysteresis_c curve =
     (case hysteresis_c curve of
        Some v \<Rightarrow> if is_finite v then f64_clamp (Fin 0) HYSTERESIS_DEADBAND_MAX_C v
                  else HYSTERESIS_DEADBAND_C
      | None \<Rightarrow> HYSTERESIS_DEADBAND_C)"

section \<open>Curves of one temperature\<close>

definition flat_output :: "CurveConfig \<Rightarrow> f64" where
  "flat_output curve = unwrap_or (Fin 50) (flat_output_pct curve)"

text \<open>The segment loop of \<open>evaluate_graph\<close>; \<open>None\<close> when it runs off the end.\<close>

fun graph_segments :: "CurvePoint list \<Rightarrow> f64 \<Rightarrow> f64 option" where
  "graph_segments (p0 # p1 # ps) temp_c =
     (if pt_temp_c p0 \<le> temp_c \<and> temp_c \<le> pt_temp_c p1 then
        let range = pt_temp_c p1 - pt_temp_c p0 in
        if range \<le> Fin 0 then Some (pt_output_pct p0)
        else let t = f64_div (temp_c - pt_temp_c p0) range in
          Some (pt_output_pct p0 + t * (pt_output_pct p1 - pt_output_pct p0))
      else graph_segments (p1 # ps) temp_c)"
| "graph_segments _ temp_c = None"

definition evaluate_graph :: "CurveConfig \<Rightarrow> f64 \<Rightarrow> f64" where
  "evaluate_graph curve temp_c =
     (let points = cv_points curve in
      if points = [] then Fin 50
      else if length points = 1 then pt_output_pct (hd points)
      else if temp_c \<le> pt_temp_c (hd points) then pt_output_pct (hd points)
      else if pt_temp_c (last points) \<le> temp_c then pt_output_pct (last points)
      else case graph_segments points temp_c of
             Some v \<Rightarrow> v
           | None \<Rightarrow> pt_output_pct (last points))"

fun stepped_segments :: "CurvePoint list \<Rightarrow> f64 \<Rightarrow> f64 option" where
  "stepped_segments (p0 # p1 # ps) temp_c =
     (if pt_temp_c p0 \<le> temp_c \<and> temp_c < pt_temp_c p1 then Some (pt_output_pct p0)
      else stepped_segments (p1 # ps) temp_c)"
| "stepped_segments _ temp_c = None"

definition evaluate_stepped :: "CurveConfig \<Rightarrow> f64 \<Rightarrow> f64" where
  "evaluate_stepped curve temp_c =
     (let points = cv_points curve in
      if points = [] then Fin 50
      else if temp_c \<le> pt_temp_c (hd points) then pt_output_pct (hd points)
      else if pt_temp_c (last points) \<le> temp_c then pt_output_pct (last points)
      else case stepped_segments points temp_c of
             Some v \<Rightarrow> v
           | None \<Rightarrow> pt_output_pct (last points))"

definition evaluate_linear :: "CurveConfig \<Rightarrow> f64 \<Rightarrow> f64" where
  "evaluate_linear curve temp_c =
     (let start_t = unwrap_or (Fin 30) (start_temp_c curve);
          start_o = unwrap_or (Fin 20) (start_output_pct curve);
          end_t = unwrap_or (Fin 80) (end_temp_c curve);
          end_o = unwrap_or (Fin 100) (end_output_pct curve) in
      if temp_c \<le> start_t then start_o
      else if end_t \<le> temp_c then end_o
      else let range = end_t - start_t in
        if range \<le> Fin 0 then start_o
        else let t = f64_div (temp_c - start_t) range in start_o + t * (end_o - start_o))"

definition evaluate_trigger_stateless :: "CurveConfig \<Rightarrow> f64 \<Rightarrow> f64" where
  "evaluate_trigger_stateless curve temp_c =
     (if unwrap_or TRIGGER_LOAD_TEMP_C (trigger_load_temp_c curve) \<le> temp_c
      then unwrap_or TRIGGER_LOAD_PCT (trigger_load_pct curve)
      else unwrap_or TRIGGER_IDLE_PCT (trigger_idle_pct curve))"

definition evaluate_curve :: "CurveConfig \<Rightarrow> f64 \<Rightarrow> f64" where
  "evaluate_curve curve temp_c =
     (if cv_type curve = ''graph'' then evaluate_graph curve temp_c
      else if cv_type curve = ''stepped'' then evaluate_stepped curve temp_c
      else if cv_type curve = ''linear'' then evaluate_linear curve temp_c
      else if cv_type curve = ''flat'' then flat_output curve
      else if cv_type curve = ''trigger'' then evaluate_trigger_stateless curve temp_c
      else Fin 50)"

section \<open>Classifying members for the floor\<close>

definition pump_floor_pct :: "u8 option \<Rightarrow> f64" where
  "pump_floor_pct pwm_mode =
     (if pwm_mode = Some PWM_MODE_DC then DC_PUMP_FLOOR_PCT else HARD_PUMP_CPU_FLOOR_PCT)"

definition CPU_PUMP_LABEL_HINTS :: "string list" where
  "CPU_PUMP_LABEL_HINTS = [''cpu'', ''pump'', ''aio'']"

definition PUMP_LABEL_HINTS :: "string list" where
  "PUMP_LABEL_HINTS = [''pump'', ''aio'']"

definition member_is_gpu_source :: "string \<Rightarrow> bool" where
  "member_is_gpu_source source =
     (source = ''amd_gpu'' \<or> source = ''intel_gpu'' \<or> source = ''nvidia_gpu'')"

definition member_is_gpu :: "ControlMember \<Rightarrow> bool" where
  "member_is_gpu member = member_is_gpu_source (cm_source member)"

definition has_hint :: "string list \<Rightarrow> string \<Rightarrow> bool" where
  "has_hint hints label = list_ex (\<lambda>hint. str_contains (to_lower label) hint) hints"

text \<open>\<open>member_id.split(':').nth(1).unwrap_or("")\<close>.\<close>

definition second_field :: "string \<Rightarrow> string" where
  "second_field i =
     (case split_once '':'' i of
        None \<Rightarrow> []
      | Some (_, r) \<Rightarrow> (case split_once '':'' r of None \<Rightarrow> r | Some (chip, _) \<Rightarrow> chip))"

definition member_is_pump_or_cpu :: "ControlMember \<Rightarrow> bool" where
  "member_is_pump_or_cpu member =
     (if cm_source member \<noteq> ''hwmon'' then False
      else if has_hint CPU_PUMP_LABEL_HINTS (cm_member_label member) then True
      else is_liquid_cooler_chip (second_field (cm_member_id member)))"

definition daemon_label_from_member_id :: "string \<Rightarrow> string option" where
  "daemon_label_from_member_id member_id =
     (case split_once '':pwm'' member_id of
        None \<Rightarrow> None
      | Some (_, after_marker) \<Rightarrow> map_option snd (split_once '':'' after_marker))"

definition member_needs_hard_floor :: "ControlMember \<Rightarrow> bool" where
  "member_needs_hard_floor member =
     (if member_is_pump_or_cpu member then True
      else if cm_source member \<noteq> ''hwmon'' then False
      else case daemon_label_from_member_id (cm_member_id member) of
             Some label \<Rightarrow> has_hint CPU_PUMP_LABEL_HINTS label
           | None \<Rightarrow> False)"

definition member_label_names_pump :: "ControlMember \<Rightarrow> bool" where
  "member_label_names_pump member =
     (if cm_source member \<noteq> ''hwmon'' then False
      else has_hint PUMP_LABEL_HINTS (cm_member_label member) \<or>
        (case daemon_label_from_member_id (cm_member_id member) of
           Some label \<Rightarrow> has_hint PUMP_LABEL_HINTS label
         | None \<Rightarrow> False))"

definition assigned_role_earns_hard_floor ::
    "ControlMember \<Rightarrow> (string, HeaderRole) hmap \<Rightarrow> bool" where
  "assigned_role_earns_hard_floor member assigned =
     (if \<not> source_takes_role (cm_source member) then False
      else case map_of assigned (role_key (cm_member_id member)) of
             Some role \<Rightarrow> role = Pump \<or> role = CpuFan
           | None \<Rightarrow> False)"

section \<open>Profile ids\<close>

text \<open>\<open>char::is_control\<close> over the bytes of a UTF-8 string: C0 and DEL are one byte, the C1 controls
  U+0080 to U+009F are \<open>C2\<close> followed by \<open>80\<close> to \<open>9F\<close>. (\<open>C2\<close> is never a continuation byte, so the pair is
  always one character.)\<close>

definition is_control :: "char \<Rightarrow> bool" where
  "is_control c = (let n = (of_char c :: nat) in n < 32 \<or> n = 127)"

definition is_c1_pair :: "char \<Rightarrow> char \<Rightarrow> bool" where
  "is_c1_pair c d = ((of_char c :: nat) = 0xC2 \<and> (let n = (of_char d :: nat) in 0x80 \<le> n \<and> n < 0xA0))"

fun has_control_char :: "string \<Rightarrow> bool" where
  "has_control_char [] = False"
| "has_control_char (c # cs) =
     (is_control c \<or> (case cs of d # _ \<Rightarrow> is_c1_pair c d | [] \<Rightarrow> False) \<or> has_control_char cs)"

definition is_safe_profile_id :: "string \<Rightarrow> bool" where
  "is_safe_profile_id i =
     (\<not> (i = [] \<or> MAX_PROFILE_ID_BYTES < length i \<or> CHR ''/'' \<in> set i \<or> CHR 0x5C \<in> set i \<or>
        str_contains i ''..'' \<or> has_control_char i))"

section \<open>The load-time net\<close>

datatype RangeError = NotFinite string | NotInRange string

fun try_all :: "('e + unit) list \<Rightarrow> 'e + unit" where
  "try_all [] = Inr ()"
| "try_all (Inl e # cs) = Inl e"
| "try_all (Inr _ # cs) = try_all cs"

definition idx_path :: "string \<Rightarrow> nat \<Rightarrow> string" where
  "idx_path name i = name @ ''['' @ show_nat i @ '']''"

definition finite_check :: "string \<Rightarrow> f64 \<Rightarrow> RangeError + unit" where
  "finite_check field v = (if is_finite v then Inr () else Inl (NotFinite field))"

definition in_range :: "string \<Rightarrow> f64 \<Rightarrow> f64 \<Rightarrow> f64 \<Rightarrow> RangeError + unit" where
  "in_range field v lo hi =
     (if \<not> is_finite v then Inl (NotFinite field)
      else if lo \<le> v \<and> v \<le> hi then Inr () else Inl (NotInRange field))"

definition control_ranges :: "nat \<Rightarrow> LogicalControl \<Rightarrow> (RangeError + unit) list" where
  "control_ranges i ctrl =
     (let p = idx_path ''controls'' i in
      [in_range (p @ ''.manual_output_pct'') (manual_output_pct ctrl) (Fin 0) (Fin 100),
       in_range (p @ ''.minimum_pct'') (minimum_pct ctrl) (Fin 0) (Fin 100),
       in_range (p @ ''.start_pct'') (start_pct ctrl) (Fin 0) (Fin 100),
       in_range (p @ ''.stop_pct'') (stop_pct ctrl) (Fin 0) (Fin 100),
       in_range (p @ ''.step_up_pct'') (step_up_pct ctrl) (Fin 0) (Fin 100),
       in_range (p @ ''.step_down_pct'') (step_down_pct ctrl) (Fin 0) (Fin 100),
       in_range (p @ ''.offset_pct'') (offset_pct ctrl) (Fin (- 100)) (Fin 100)])"

definition opt_finite :: "string \<Rightarrow> f64 option \<Rightarrow> (RangeError + unit) list" where
  "opt_finite field v = (case v of None \<Rightarrow> [] | Some x \<Rightarrow> [finite_check field x])"

definition opt_range :: "string \<Rightarrow> f64 option \<Rightarrow> f64 \<Rightarrow> f64 \<Rightarrow> (RangeError + unit) list" where
  "opt_range field v lo hi = (case v of None \<Rightarrow> [] | Some x \<Rightarrow> [in_range field x lo hi])"

definition curve_ranges :: "nat \<Rightarrow> CurveConfig \<Rightarrow> (RangeError + unit) list" where
  "curve_ranges i curve =
     (let p = idx_path ''curves'' i in
      concat (map (\<lambda>(j, pt).
          [finite_check (p @ idx_path ''.points'' j @ ''.temp_c'') (pt_temp_c pt),
           in_range (p @ idx_path ''.points'' j @ ''.output_pct'') (pt_output_pct pt) (Fin 0) (Fin 100)])
        (List.enumerate 0 (cv_points curve))) @
      opt_finite (p @ ''.start_temp_c'') (start_temp_c curve) @
      opt_finite (p @ ''.end_temp_c'') (end_temp_c curve) @
      opt_finite (p @ ''.trigger_idle_temp_c'') (trigger_idle_temp_c curve) @
      opt_finite (p @ ''.trigger_load_temp_c'') (trigger_load_temp_c curve) @
      opt_range (p @ ''.start_output_pct'') (start_output_pct curve) (Fin 0) (Fin 100) @
      opt_range (p @ ''.end_output_pct'') (end_output_pct curve) (Fin 0) (Fin 100) @
      opt_range (p @ ''.flat_output_pct'') (flat_output_pct curve) (Fin 0) (Fin 100) @
      opt_range (p @ ''.trigger_idle_pct'') (trigger_idle_pct curve) (Fin 0) (Fin 100) @
      opt_range (p @ ''.trigger_load_pct'') (trigger_load_pct curve) (Fin 0) (Fin 100) @
      opt_range (p @ ''.sync_offset_pct'') (sync_offset_pct curve) (Fin (- 100)) (Fin 100) @
      opt_range (p @ ''.hysteresis_c'') (hysteresis_c curve) (Fin 0) HYSTERESIS_DEADBAND_MAX_C)"

definition check_numeric_ranges :: "DaemonProfile \<Rightarrow> RangeError + unit" where
  "check_numeric_ranges profile =
     try_all (concat (map (\<lambda>(i, ctrl). control_ranges i ctrl) (List.enumerate 0 (p_controls profile))) @
              concat (map (\<lambda>(i, curve). curve_ranges i curve) (List.enumerate 0 (p_curves profile))))"

datatype LoadError = TooManyCurves nat | TooManyControls nat | OutOfRangeValue RangeError

text \<open>The checks of \<open>parse_profile\<close> on the decoded document.\<close>

definition load_checks :: "DaemonProfile \<Rightarrow> LoadError + DaemonProfile" where
  "load_checks profile =
     (if MAX_PROFILE_CURVES < length (p_curves profile) then Inl (TooManyCurves (length (p_curves profile)))
      else if MAX_PROFILE_CONTROLS < length (p_controls profile)
      then Inl (TooManyControls (length (p_controls profile)))
      else case check_numeric_ranges profile of
             Inl e \<Rightarrow> Inl (OutOfRangeValue e)
           | Inr _ \<Rightarrow> Inr profile)"

section \<open>Curves never produce NaN\<close>

definition pct_range :: "f64 \<Rightarrow> bool" where
  "pct_range v = (is_finite v \<and> Fin 0 \<le> v \<and> v \<le> Fin 100)"

text \<open>A temperature far beyond any physical one, and far enough from overflow that the difference of
  two stays finite. The validator only asks curve temperatures to be finite.\<close>

definition temp_limit :: rat where
  "temp_limit = 2 ^ 1000"

definition temp_sane :: "f64 \<Rightarrow> bool" where
  "temp_sane v = (case v of Fin r \<Rightarrow> \<bar>r\<bar> \<le> temp_limit | _ \<Rightarrow> False)"

definition fin_limit :: rat where
  "fin_limit = 2 ^ 1023"

lemma fin_limit_facts:
  "rnd64 fin_limit = fin_limit" "fin_limit < huge64" "temp_limit + temp_limit \<le> fin_limit"
  "100 \<le> fin_limit" "1 \<le> fin_limit"
proof -
  show "rnd64 fin_limit = fin_limit"
    using round_mag_exact [of 1 "1023 + 1074"]
    by (simp add: rnd64_nonneg_eq scale64_def fin_limit_def flip: power_add)
  show "fin_limit < huge64"
    unfolding huge64_def fin_limit_def by (rule power_strict_increasing) simp_all
  show "temp_limit + temp_limit \<le> fin_limit" "100 \<le> fin_limit" "1 \<le> fin_limit"
    by (simp_all add: temp_limit_def fin_limit_def)
qed

lemma fl_finite:
  assumes "\<bar>x\<bar> \<le> fin_limit" shows "fl x = Fin (rnd64 x)"
proof -
  have "rnd64 x \<le> fin_limit"
    using assms rnd64_mono [of x fin_limit] fin_limit_facts(1) by (simp add: abs_le_iff)
  moreover have "- fin_limit \<le> rnd64 x"
    using assms rnd64_mono [of "- fin_limit" x] fin_limit_facts(1) by (simp add: rnd64_uminus abs_le_iff)
  ultimately show ?thesis using fin_limit_facts(2) by (auto simp: fl_def Let_def)
qed

lemma Fin_add_not_NaN: "x \<noteq> NaN \<Longrightarrow> Fin a + x \<noteq> NaN"
  by (cases x) simp_all

lemma interpolation_not_NaN:
  assumes "pct_range o0" "pct_range o1" "temp_sane t0" "temp_sane t1" "temp_sane t"
    and le: "t0 \<le> t" "t \<le> t1" and range: "\<not> t1 - t0 \<le> Fin 0"
  shows "o0 + f64_div (t - t0) (t1 - t0) * (o1 - o0) \<noteq> NaN"
proof -
  obtain a0 a1 a where t: "t0 = Fin a0" "t1 = Fin a1" "t = Fin a"
      and lim: "\<bar>a0\<bar> \<le> temp_limit" "\<bar>a1\<bar> \<le> temp_limit" "\<bar>a\<bar> \<le> temp_limit"
    using assms(3-5) by (auto simp: temp_sane_def split: f64.splits)
  obtain b0 b1 where o: "o0 = Fin b0" "o1 = Fin b1" and b: "0 \<le> b0" "b0 \<le> 100" "0 \<le> b1" "b1 \<le> 100"
    using assms(1,2) by (cases o0; cases o1) (auto simp: pct_range_def)
  have "\<bar>a - a0\<bar> \<le> fin_limit" "\<bar>a1 - a0\<bar> \<le> fin_limit"
    using lim fin_limit_facts(3) by linarith+
  then have d: "fl (a - a0) = Fin (rnd64 (a - a0))" "fl (a1 - a0) = Fin (rnd64 (a1 - a0))"
    by (simp_all add: fl_finite)
  have pos: "0 < rnd64 (a1 - a0)" using range d(2) by (simp add: t)
  have "0 \<le> rnd64 (a - a0)" "rnd64 (a - a0) \<le> rnd64 (a1 - a0)"
    using le by (simp_all add: rnd64_mono r64.sign t)
  then have "0 \<le> rnd64 (a - a0) / rnd64 (a1 - a0)" "rnd64 (a - a0) / rnd64 (a1 - a0) \<le> 1"
    using pos by simp_all
  then have "\<bar>rnd64 (a - a0) / rnd64 (a1 - a0)\<bar> \<le> fin_limit"
    using fin_limit_facts(5) by linarith
  then have q: "f64_div (t - t0) (t1 - t0) = Fin (rnd64 (rnd64 (a - a0) / rnd64 (a1 - a0)))"
    using pos d by (simp add: t fl_finite)
  have "\<bar>b1 - b0\<bar> \<le> fin_limit" using b fin_limit_facts(4) by linarith
  then have "o1 - o0 = Fin (rnd64 (b1 - b0))" by (simp add: o fl_finite)
  then show ?thesis unfolding q o(1) by (intro Fin_add_not_NaN) simp
qed

lemma pct_range_not_NaN: "pct_range v \<Longrightarrow> v \<noteq> NaN"
  by (auto simp: pct_range_def)

lemma graph_segments_not_NaN:
  assumes "list_all (\<lambda>p. pct_range (pt_output_pct p) \<and> temp_sane (pt_temp_c p)) ps" "temp_sane t"
    and "graph_segments ps t = Some v"
  shows "v \<noteq> NaN"
  using assms
  by (induction ps t rule: graph_segments.induct)
     (auto simp: Let_def interpolation_not_NaN pct_range_not_NaN split: if_splits)

definition opt_all :: "('a \<Rightarrow> bool) \<Rightarrow> 'a option \<Rightarrow> bool" where
  "opt_all p x = (case x of None \<Rightarrow> True | Some v \<Rightarrow> p v)"

definition curve_temps_sane :: "CurveConfig \<Rightarrow> bool" where
  "curve_temps_sane curve =
     (list_all (\<lambda>p. temp_sane (pt_temp_c p)) (cv_points curve) \<and>
      opt_all temp_sane (start_temp_c curve) \<and> opt_all temp_sane (end_temp_c curve))"

lemma try_all_ok: "try_all cs = Inr () \<longleftrightarrow> list_all (\<lambda>c. c = Inr ()) cs"
  by (induction cs rule: try_all.induct) auto

definition range_ok :: "f64 \<Rightarrow> f64 \<Rightarrow> f64 \<Rightarrow> bool" where
  "range_ok lo hi v = (is_finite v \<and> lo \<le> v \<and> v \<le> hi)"

definition control_num_ok :: "LogicalControl \<Rightarrow> bool" where
  "control_num_ok ctrl =
     (pct_range (manual_output_pct ctrl) \<and> pct_range (minimum_pct ctrl) \<and> pct_range (start_pct ctrl) \<and>
      pct_range (stop_pct ctrl) \<and> pct_range (step_up_pct ctrl) \<and> pct_range (step_down_pct ctrl) \<and>
      range_ok (Fin (- 100)) (Fin 100) (offset_pct ctrl))"

definition curve_num_ok :: "CurveConfig \<Rightarrow> bool" where
  "curve_num_ok curve =
     (list_all (\<lambda>p. is_finite (pt_temp_c p) \<and> pct_range (pt_output_pct p)) (cv_points curve) \<and>
      opt_all is_finite (start_temp_c curve) \<and> opt_all is_finite (end_temp_c curve) \<and>
      opt_all is_finite (trigger_idle_temp_c curve) \<and> opt_all is_finite (trigger_load_temp_c curve) \<and>
      opt_all pct_range (start_output_pct curve) \<and> opt_all pct_range (end_output_pct curve) \<and>
      opt_all pct_range (flat_output_pct curve) \<and> opt_all pct_range (trigger_idle_pct curve) \<and>
      opt_all pct_range (trigger_load_pct curve) \<and>
      opt_all (range_ok (Fin (- 100)) (Fin 100)) (sync_offset_pct curve) \<and>
      opt_all (range_ok (Fin 0) HYSTERESIS_DEADBAND_MAX_C) (hysteresis_c curve))"

lemma range_ok_pct: "range_ok (Fin 0) (Fin 100) = pct_range"
  by (auto simp: range_ok_def pct_range_def)

lemma finite_check_ok: "finite_check f v = Inr () \<longleftrightarrow> is_finite v"
  by (simp add: finite_check_def)

lemma in_range_ok: "in_range f v lo hi = Inr () \<longleftrightarrow> range_ok lo hi v"
  by (auto simp: in_range_def range_ok_def)

lemma opt_finite_ok: "list_all (\<lambda>c. c = Inr ()) (opt_finite f v) \<longleftrightarrow> opt_all is_finite v"
  by (simp add: opt_finite_def opt_all_def finite_check_ok split: option.split)

lemma opt_range_ok:
  "list_all (\<lambda>c. c = Inr ()) (opt_range f v lo hi) \<longleftrightarrow> opt_all (range_ok lo hi) v"
  by (simp add: opt_range_def opt_all_def in_range_ok split: option.split)

lemma list_all_concat_enumerate:
  assumes "\<And>i x. list_all P (g i x) \<longleftrightarrow> Q x"
  shows "list_all P (concat (map (\<lambda>(i, x). g i x) (List.enumerate n xs))) \<longleftrightarrow> list_all Q xs"
  by (induction xs arbitrary: n) (auto simp: assms)

lemma control_ranges_ok: "list_all (\<lambda>c. c = Inr ()) (control_ranges i ctrl) \<longleftrightarrow> control_num_ok ctrl"
  by (simp add: control_ranges_def Let_def in_range_ok range_ok_pct control_num_ok_def)

lemma curve_ranges_ok: "list_all (\<lambda>c. c = Inr ()) (curve_ranges i curve) \<longleftrightarrow> curve_num_ok curve"
proof -
  have pts: "list_all (\<lambda>c. c = Inr ()) (concat (map (\<lambda>(j, pt).
          [finite_check (p @ idx_path ''.points'' j @ ''.temp_c'') (pt_temp_c pt),
           in_range (p @ idx_path ''.points'' j @ ''.output_pct'') (pt_output_pct pt) (Fin 0) (Fin 100)])
        (List.enumerate 0 ps))) \<longleftrightarrow>
      list_all (\<lambda>p. is_finite (pt_temp_c p) \<and> pct_range (pt_output_pct p)) ps" for p ps
    by (rule list_all_concat_enumerate) (simp add: finite_check_ok in_range_ok range_ok_pct)
  show ?thesis
    by (simp add: curve_ranges_def Let_def pts opt_finite_ok opt_range_ok range_ok_pct curve_num_ok_def
        del: list_all_append) (simp add: pts opt_finite_ok opt_range_ok range_ok_pct)
qed

lemma check_numeric_ranges_ok:
  "check_numeric_ranges p = Inr () \<longleftrightarrow>
     list_all control_num_ok (p_controls p) \<and> list_all curve_num_ok (p_curves p)"
  by (simp add: check_numeric_ranges_def try_all_ok
      list_all_concat_enumerate [OF control_ranges_ok] list_all_concat_enumerate [OF curve_ranges_ok])

lemma load_checks_ok:
  "load_checks p = Inr q \<longleftrightarrow> q = p \<and> length (p_curves p) \<le> MAX_PROFILE_CURVES \<and>
     length (p_controls p) \<le> MAX_PROFILE_CONTROLS \<and>
     list_all control_num_ok (p_controls p) \<and> list_all curve_num_ok (p_curves p)"
proof (cases "check_numeric_ranges p")
  case (Inr u)
  then show ?thesis using check_numeric_ranges_ok [of p] by (auto simp: load_checks_def)
next
  case (Inl e)
  then show ?thesis using check_numeric_ranges_ok [of p] by (auto simp: load_checks_def)
qed

lemma unwrap_or_cases: "opt_all P x \<Longrightarrow> P d \<Longrightarrow> P (unwrap_or d x)"
  by (simp add: opt_all_def unwrap_or_def split: option.splits)

lemma list_all_hd_last: "list_all P xs \<Longrightarrow> xs \<noteq> [] \<Longrightarrow> P (hd xs) \<and> P (last xs)"
  by (simp add: list_all_iff)

lemma pct_range_consts [simp]:
  "pct_range (Fin 50)" "pct_range (Fin 20)" "pct_range (Fin 100)" "pct_range TRIGGER_LOAD_PCT"
  "pct_range TRIGGER_IDLE_PCT"
  by (simp_all add: pct_range_def profile_consts)

lemma evaluate_curve_not_NaN:
  assumes ok: "curve_num_ok curve" "curve_temps_sane curve" "temp_sane t"
  shows "evaluate_curve curve t \<noteq> NaN"
proof -
  let ?ps = "cv_points curve"
  have pts: "list_all (\<lambda>p. pct_range (pt_output_pct p) \<and> temp_sane (pt_temp_c p)) ?ps"
    using ok(1,2) by (auto simp: curve_num_ok_def curve_temps_sane_def list_all_iff)
  have ends: "?ps \<noteq> [] \<Longrightarrow> pt_output_pct (hd ?ps) \<noteq> NaN \<and> pt_output_pct (last ?ps) \<noteq> NaN"
    using list_all_hd_last [OF pts] pct_range_not_NaN by blast
  have graph: "evaluate_graph curve t \<noteq> NaN"
    using ends graph_segments_not_NaN [OF pts ok(3)]
    by (auto simp: evaluate_graph_def Let_def split: option.split)
  have seg: "stepped_segments ps t = Some v \<Longrightarrow> v \<in> pt_output_pct ` set ps" for ps v
    by (induction ps t rule: stepped_segments.induct) (auto split: if_splits)
  have "NaN \<notin> pt_output_pct ` set ?ps"
    using pts pct_range_not_NaN [of NaN] by (auto simp: list_all_iff)
  then have stepped: "evaluate_stepped curve t \<noteq> NaN"
    using ends seg [of ?ps] by (auto simp: evaluate_stepped_def Let_def split: option.split)
  have outs: "pct_range (unwrap_or (Fin 20) (start_output_pct curve))"
      "pct_range (unwrap_or (Fin 100) (end_output_pct curve))"
      "pct_range (flat_output curve)"
      "pct_range (unwrap_or TRIGGER_LOAD_PCT (trigger_load_pct curve))"
      "pct_range (unwrap_or TRIGGER_IDLE_PCT (trigger_idle_pct curve))"
    using ok(1) unwrap_or_cases [where P = pct_range] by (simp_all add: curve_num_ok_def flat_output_def)
  have "temp_sane (Fin 30)" "temp_sane (Fin 80)" by (simp_all add: temp_sane_def temp_limit_def)
  then have temps: "temp_sane (unwrap_or (Fin 30) (start_temp_c curve))"
      "temp_sane (unwrap_or (Fin 80) (end_temp_c curve))"
    using ok(2) unwrap_or_cases [where P = temp_sane] by (simp_all add: curve_temps_sane_def)
  have le: "\<not> t \<le> x \<Longrightarrow> temp_sane x \<Longrightarrow> x \<le> t" "\<not> x \<le> t \<Longrightarrow> temp_sane x \<Longrightarrow> t \<le> x" for x
    using ok(3) by (auto simp: temp_sane_def split: f64.splits)
  have linear: "evaluate_linear curve t \<noteq> NaN"
    using outs(1,2) interpolation_not_NaN [OF outs(1,2) temps ok(3)] le temps
    by (simp add: evaluate_linear_def Let_def pct_range_not_NaN)
  show ?thesis
    using graph stepped linear outs
    by (auto simp: evaluate_curve_def evaluate_trigger_stateless_def pct_range_not_NaN)
qed

text \<open>Lemma: a curve of a profile that passed the load-time net always yields a percentage. At every
  finite temperature of physical size its output, clamped as every caller clamps it, is finite and
  between 0 and 100: interpolation never produces NaN, whatever the order of the points and however
  the rounding falls, so a fan is never commanded from an undefined duty.\<close>

theorem loaded_curve_yields_percentage:
  assumes "load_checks p = Inr q" "curve \<in> set (p_curves q)"
    and "curve_temps_sane curve" "temp_sane t"
  shows "pct_range (f64_clamp (Fin 0) (Fin 100) (evaluate_curve curve t))"
proof -
  have "curve_num_ok curve" using assms(1,2) by (auto simp: load_checks_ok list_all_iff)
  then have "evaluate_curve curve t \<noteq> NaN" using assms(3,4) by (rule evaluate_curve_not_NaN)
  then show ?thesis
    by (cases "evaluate_curve curve t") (auto simp: pct_range_def f64_clamp_def)
qed

definition sample_curve :: CurveConfig where
  "sample_curve = \<lparr>cv_id = ''c'', cv_name = ''c'', cv_type = ''graph'', cv_sensor_id = ''s'',
     cv_points = [\<lparr>pt_temp_c = Fin 30, pt_output_pct = Fin 20\<rparr>, \<lparr>pt_temp_c = Fin 80, pt_output_pct = Fin 100\<rparr>],
     start_temp_c = None, start_output_pct = None, end_temp_c = None, end_output_pct = None,
     flat_output_pct = None, trigger_idle_temp_c = None, trigger_load_temp_c = None,
     trigger_idle_pct = None, trigger_load_pct = None, mix_function = None, mix_curve_ids = [],
     sync_control_id = [], sync_offset_pct = None, hysteresis_c = None\<rparr>"

definition sample_profile :: DaemonProfile where
  "sample_profile = \<lparr>p_id = ''p'', p_name = ''p'', p_version = 7, p_description = [],
     p_controls = [], p_curves = [sample_curve]\<rparr>"

lemma sample_profile_loads: "load_checks sample_profile = Inr sample_profile"
  by (simp add: load_checks_ok sample_profile_def sample_curve_def curve_num_ok_def opt_all_def
      pct_range_def MAX_PROFILE_CURVES_def MAX_PROFILE_CONTROLS_def)

theorem loaded_curve_yields_percentage_witness:
  "pct_range (f64_clamp (Fin 0) (Fin 100) (evaluate_curve sample_curve (Fin 55)))"
  by (rule loaded_curve_yields_percentage [OF sample_profile_loads])
     (simp_all add: sample_profile_def sample_curve_def curve_temps_sane_def temp_sane_def
        temp_limit_def opt_all_def)

section \<open>The staircase\<close>

lemma f64_less_le: "a < b \<Longrightarrow> a \<le> (b :: f64)"
  by (simp add: less_f64_def less_eq_f64_def)

lemma f64_le_less_contra: "a \<le> b \<Longrightarrow> b < a \<Longrightarrow> (False :: bool)" for a b :: f64
  by (simp add: less_f64_def less_eq_f64_def)

definition ascending :: "CurvePoint list \<Rightarrow> bool" where
  "ascending ps = sorted_wrt (\<lambda>p q. pt_temp_c p < pt_temp_c q) ps"

lemma f64_trans_less_le: "a < b \<Longrightarrow> c \<le> a \<Longrightarrow> c < (b :: f64)"
  by (cases a; cases b; cases c) auto

lemma f64_not_le: "a \<noteq> NaN \<Longrightarrow> b \<noteq> NaN \<Longrightarrow> \<not> a \<le> b \<longleftrightarrow> b < (a :: f64)"
  by (cases a; cases b) auto

lemma filter_above_Nil:
  "ascending (p # ps) \<Longrightarrow> t < pt_temp_c p \<Longrightarrow> filter (\<lambda>q. pt_temp_c q \<le> t) (p # ps) = []"
  by (auto simp: ascending_def filter_empty_conv dest: f64_le_less_contra f64_trans_less_le
      intro: f64_less_le)

lemma stepped_segments_spec:
  assumes "ascending (p # ps)" "pt_temp_c p \<le> t" "t < pt_temp_c (last (p # ps))"
  shows "stepped_segments (p # ps) t =
    Some (pt_output_pct (last (filter (\<lambda>q. pt_temp_c q \<le> t) (p # ps))))"
  using assms
proof (induction ps arbitrary: p)
  case Nil
  then show ?case using f64_le_less_contra by auto
next
  case (Cons p1 ps)
  have asc: "ascending (p1 # ps)" using Cons.prems(1) by (simp add: ascending_def)
  show ?case
  proof (cases "t < pt_temp_c p1")
    case True
    then have "filter (\<lambda>q. pt_temp_c q \<le> t) (p1 # ps) = []" by (rule filter_above_Nil [OF asc])
    then show ?thesis using True Cons.prems(2) by simp
  next
    case False
    have "t \<noteq> NaN" "pt_temp_c p1 \<noteq> NaN"
      using Cons.prems by (auto simp: ascending_def)
    then have le: "pt_temp_c p1 \<le> t" using False f64_not_le by blast
    have "filter (\<lambda>q. pt_temp_c q \<le> t) (p1 # ps) \<noteq> []" using le by simp
    moreover have "stepped_segments (p # p1 # ps) t = stepped_segments (p1 # ps) t"
      using False by simp
    ultimately show ?thesis
      using Cons.IH [OF asc le] Cons.prems(2,3) by (simp del: stepped_segments.simps)
  qed
qed

text \<open>Lemma: a stepped curve with ascending temperatures is exactly a staircase: at every temperature it
  yields the output of the last point not above it, and the first point's output below the first
  point. Equality with a point's temperature already takes that point's step.\<close>

theorem stepped_is_staircase:
  assumes "ascending (cv_points curve)" "cv_points curve \<noteq> []" "t \<noteq> NaN"
  shows "evaluate_stepped curve t =
    pt_output_pct (last (hd (cv_points curve) # filter (\<lambda>p. pt_temp_c p \<le> t) (cv_points curve)))"
proof -
  obtain p ps where ps: "cv_points curve = p # ps" using assms(2) by (cases "cv_points curve") auto
  have asc: "ascending (p # ps)" using assms(1) ps by simp
  consider "t \<le> pt_temp_c p" | "\<not> t \<le> pt_temp_c p" "pt_temp_c (last (p # ps)) \<le> t"
    | "\<not> t \<le> pt_temp_c p" "\<not> pt_temp_c (last (p # ps)) \<le> t" by blast
  then show ?thesis
  proof cases
    case 1
    have "\<not> pt_temp_c q \<le> t" if "q \<in> set ps" for q
      using that asc 1 f64_trans_less_le [of "pt_temp_c p" "pt_temp_c q" t] f64_le_less_contra
      by (auto simp: ascending_def)
    then have "filter (\<lambda>q. pt_temp_c q \<le> t) ps = []" by (simp add: filter_empty_conv)
    then show ?thesis using 1 by (simp add: evaluate_stepped_def ps)
  next
    case 2
    then have "last (filter (\<lambda>q. pt_temp_c q \<le> t) (p # ps)) = last (p # ps)"
      by (metis append_butlast_last_id filter.simps filter_append last_snoc list.distinct(1))
    moreover have "filter (\<lambda>q. pt_temp_c q \<le> t) (p # ps) \<noteq> []"
      using 2(2) by (metis filter_empty_conv last_in_set list.distinct(1))
    ultimately show ?thesis using 2 by (simp add: evaluate_stepped_def ps)
  next
    case 3
    have nn: "pt_temp_c p \<noteq> NaN \<or> ps = []" "pt_temp_c (last (p # ps)) \<noteq> NaN \<or> ps = []"
      using asc by (auto simp: ascending_def dest!: last_in_set)
    show ?thesis
    proof (cases "ps = []")
      case True
      then show ?thesis using 3 by (simp add: evaluate_stepped_def ps)
    next
      case False
      then have "pt_temp_c p \<le> t" "t < pt_temp_c (last (p # ps))"
        using 3 nn assms(3) f64_not_le f64_less_le by blast+
      with stepped_segments_spec [OF asc this] 3 show ?thesis
        by (simp add: evaluate_stepped_def ps del: stepped_segments.simps)
    qed
  qed
qed

theorem stepped_is_staircase_witness:
  "evaluate_stepped sample_curve (Fin 55) = Fin 20"
  using stepped_is_staircase [of sample_curve "Fin 55"]
  by (simp add: sample_curve_def ascending_def)

section \<open>Inferred pumps are floored\<close>

lemma strip_prefix_take: "strip_prefix p s = None \<longleftrightarrow> take (length p) s \<noteq> p"
  by (induction p s rule: strip_prefix.induct) auto

lemma split_once_first:
  assumes "pat \<noteq> []" "split_once pat (a @ butlast pat) = None"
  shows "split_once pat (a @ pat @ b) = Some (a, b)"
  using assms(2)
proof (induction a)
  case Nil
  obtain c r where "pat = c # r" using assms(1) by (cases pat) auto
  then show ?case using strip_prefix_append [of pat b] by simp
next
  case (Cons c a)
  have no: "strip_prefix pat (c # a @ butlast pat) = None" "split_once pat (a @ butlast pat) = None"
    using Cons.prems by (auto split: option.splits)
  have "take (length pat) (c # a @ pat @ b) = take (length pat) (c # a @ butlast pat)"
    using assms(1) by (cases pat rule: rev_cases) (auto simp: take_Cons' )
  then have "strip_prefix pat (c # a @ pat @ b) = None" using no(1) by (simp add: strip_prefix_take)
  then show ?case using Cons.IH [OF no(2)] by simp
qed

definition header_id :: "string \<Rightarrow> string \<Rightarrow> u8 \<Rightarrow> string \<Rightarrow> string" where
  "header_id chip device n label = ''hwmon:'' @ chip @ '':'' @ device @ '':pwm'' @ show_nat n @ '':'' @ label"

lemma colon_not_in_show_nat: "CHR '':'' \<notin> set (show_nat n)"
  using show_nat_spec [of n] digit_not(2) by (auto simp: list_all_iff)

lemma header_id_label:
  assumes "split_once '':pwm'' (''hwmon:'' @ chip @ '':'' @ device @ '':pw'') = None"
  shows "daemon_label_from_member_id (header_id chip device n label) = Some label"
proof -
  have "split_once '':pwm'' ((''hwmon:'' @ chip @ '':'' @ device) @ '':pwm'' @ (show_nat n @ '':'' @ label)) =
      Some (''hwmon:'' @ chip @ '':'' @ device, show_nat n @ '':'' @ label)"
    using assms by (intro split_once_first) simp_all
  moreover have "split_once '':'' (show_nat n @ '':'' @ label) = Some (show_nat n, label)"
    using split_once_char_first [OF colon_not_in_show_nat, of n label] by simp
  ultimately show ?thesis
    by (simp only: daemon_label_from_member_id_def header_id_def append_assoc option.case prod.case
        option.map snd_conv)
qed

lemma header_id_chip: "CHR '':'' \<notin> set chip \<Longrightarrow> second_field (header_id chip device n label) = chip"
  by (simp add: second_field_def header_id_def split_once_char_first)

text \<open>Lemma: every header the daemon infers to be a pump is held at the hard floor. When the
  classifier of a header says pump, from its label or from its chip, the member bound to the id the
  daemon minted for that header needs the floor, whatever label the profile gives it; so renaming a
  pump in a profile never drops its floor.\<close>

theorem inferred_pump_is_floored:
  assumes "fst (classify_header_role chip n label) = Pump" "CHR '':'' \<notin> set chip"
    and "split_once '':pwm'' (''hwmon:'' @ chip @ '':'' @ device @ '':pw'') = None"
    and "cm_source m = ''hwmon''" "cm_member_id m = header_id chip device n label"
  shows "member_needs_hard_floor m"
proof -
  have "str_contains (to_lower label) ''pump'' \<or> is_liquid_cooler_chip chip"
    using assms(1)
    by (auto simp: classify_header_role_def Let_def role_from_label_def ROLE_PUMP_LABEL_HINTS_def
        split: if_splits option.splits)
  then show ?thesis
    using header_id_chip [OF assms(2)] header_id_label [OF assms(3)] assms(4,5)
    by (auto simp: member_needs_hard_floor_def member_is_pump_or_cpu_def has_hint_def
        CPU_PUMP_LABEL_HINTS_def)
qed

definition renamed_pump :: ControlMember where
  "renamed_pump = \<lparr>cm_source = ''hwmon'', cm_member_id = header_id ''nct6799'' ''isa-0290'' 2 ''PUMP'',
     cm_member_label = ''Radiator Top'', cm_fan_zero_rpm = False\<rparr>"

theorem inferred_pump_is_floored_witness: "member_needs_hard_floor renamed_pump"
proof (rule inferred_pump_is_floored)
  show "fst (classify_header_role ''nct6799'' 2 ''PUMP'') = Pump"
    by code_simp
qed (simp_all add: renamed_pump_def)

end
