(* ===== verification/Skipped.thy ===== *)
theory Skipped
  imports Profile_Model
begin

text \<open>
  \<open>profile_engine/skipped.rs\<close>: what the daemon can deliver a control's output to, and the debounced
  tracker of controls the engine cannot resolve. The tracker is a pure state machine in the source
  and is modelled field by field; its clock argument is a parameter.
\<close>

section \<open>Deliverability\<close>

datatype SkipReason = CurveNotFound | SensorUnavailable | MixUnresolvable | SyncUnresolvable
  | BackendUnavailable

record SkipRecord =
  sr_control_id :: string
  sr_control_name :: string
  sr_reason :: SkipReason

record SkippedControl =
  sk_control_id :: string
  sk_control_name :: string
  sk_reason :: SkipReason
  sk_since :: instant

datatype Deliverability = NoMembers | AllMembers | PartialMembers | NoneDeliverable

datatype HwmonTargets = HwmonAbsent | HwmonUnmeasured | HwmonWritable "string set"

record DeliveryTargets =
  dt_openfan :: bool
  dt_hwmon :: HwmonTargets
  dt_amd_gpu :: "string set"

definition delivery_backends :: "bool \<Rightarrow> bool \<Rightarrow> DeliveryTargets" where
  "delivery_backends openfan hwmon =
     \<lparr>dt_openfan = openfan, dt_hwmon = (if hwmon then HwmonUnmeasured else HwmonAbsent), dt_amd_gpu = {}\<rparr>"

definition member_is_deliverable :: "ControlMember \<Rightarrow> DeliveryTargets \<Rightarrow> bool" where
  "member_is_deliverable member targets =
     (if cm_source member = ''openfan'' then dt_openfan targets
      else if cm_source member = ''hwmon'' then
        (case dt_hwmon targets of
           HwmonAbsent \<Rightarrow> False
         | HwmonUnmeasured \<Rightarrow> True
         | HwmonWritable ids \<Rightarrow> cm_member_id member \<in> ids)
      else if cm_source member = ''amd_gpu'' then cm_member_id member \<in> dt_amd_gpu targets
      else False)"

definition control_deliverability :: "LogicalControl \<Rightarrow> DeliveryTargets \<Rightarrow> Deliverability" where
  "control_deliverability control targets =
     (if lc_members control = [] then NoMembers
      else let total = length (lc_members control);
               live = length (filter (\<lambda>m. member_is_deliverable m targets) (lc_members control))
           in if live = 0 then NoneDeliverable
              else if live = total then AllMembers
              else PartialMembers)"

section \<open>The tracker\<close>

datatype SkipEvent = EvSkipped string string SkipReason | EvResumed string string

record SkippedControlTracker =
  tr_debounce :: u32
  tr_streak :: "(string, u32) hmap"
  tr_active :: "(string, SkippedControl) hmap"

definition SKIP_DEBOUNCE_TICKS :: u32 where "SKIP_DEBOUNCE_TICKS = 3"

definition tracker_new :: "u32 \<Rightarrow> SkippedControlTracker" where
  "tracker_new debounce = \<lparr>tr_debounce = debounce, tr_streak = [], tr_active = []\<rparr>"

definition tracker_default :: SkippedControlTracker where
  "tracker_default = tracker_new SKIP_DEBOUNCE_TICKS"

fun resume_all :: "string list \<Rightarrow> (string, SkippedControl) hmap \<Rightarrow> SkipEvent list \<Rightarrow>
    (string, SkippedControl) hmap \<times> SkipEvent list" where
  "resume_all [] active events = (active, events)"
| "resume_all (i # ids) active events =
     (case map_of active i of
        Some entry \<Rightarrow> resume_all ids (hm_remove i active)
                        (events @ [EvResumed (sk_control_id entry) (sk_control_name entry)])
      | None \<Rightarrow> resume_all ids active events)"

definition skip_step :: "u32 \<Rightarrow> instant \<Rightarrow> SkipRecord \<Rightarrow>
    (string, u32) hmap \<times> (string, SkippedControl) hmap \<times> SkipEvent list \<Rightarrow>
    (string, u32) hmap \<times> (string, SkippedControl) hmap \<times> SkipEvent list" where
  "skip_step debounce now s = (\<lambda>(streaks, active, events).
     if hm_contains active (sr_control_id s) then (streaks, active, events)
     else let streak = u32_inc (unwrap_or 0 (map_of streaks (sr_control_id s)));
              streaks' = hm_insert (sr_control_id s) streak streaks
          in if debounce \<le> streak
             then (hm_remove (sr_control_id s) streaks',
                   hm_insert (sr_control_id s)
                     \<lparr>sk_control_id = sr_control_id s, sk_control_name = sr_control_name s,
                      sk_reason = sr_reason s, sk_since = now\<rparr> active,
                   events @ [EvSkipped (sr_control_id s) (sr_control_name s) (sr_reason s)])
             else (streaks', active, events))"

definition record_tick ::
    "SkipRecord list \<Rightarrow> instant \<Rightarrow> SkippedControlTracker \<Rightarrow> SkipEvent list \<times> SkippedControlTracker" where
  "record_tick skipped now tr =
     (let still = hm_collect (map (\<lambda>s. (sr_control_id s, s)) skipped);
          resumed = filter (\<lambda>i. \<not> hm_contains still i) (map fst (tr_active tr));
          (active, events) = resume_all resumed (tr_active tr) [];
          streak = hm_retain (\<lambda>i _. hm_contains still i) (tr_streak tr);
          (streak', active', events') = fold (skip_step (tr_debounce tr) now) skipped (streak, active, events)
      in (events', tr\<lparr>tr_streak := streak', tr_active := active'\<rparr>))"

definition tracker_snapshot :: "SkippedControlTracker \<Rightarrow> SkippedControl list" where
  "tracker_snapshot tr = sort_key sk_control_id (map snd (tr_active tr))"

definition tracker_clear :: "SkippedControlTracker \<Rightarrow> SkippedControlTracker" where
  "tracker_clear tr = tr\<lparr>tr_streak := [], tr_active := []\<rparr>"

primrec tracker_run :: "(SkipRecord list \<times> instant) list \<Rightarrow> SkippedControlTracker \<Rightarrow> SkippedControlTracker" where
  "tracker_run [] tr = tr"
| "tracker_run (t # ts) tr = tracker_run ts (snd (record_tick (fst t) (snd t) tr))"

section \<open>One tick, per control\<close>

definition skip_ids :: "SkipRecord list \<Rightarrow> string set" where
  "skip_ids skipped = sr_control_id ` set skipped"

lemma contains_still: "hm_contains (hm_collect (map (\<lambda>s. (sr_control_id s, s)) skipped)) i \<longleftrightarrow> i \<in> skip_ids skipped"
proof -
  have "map_of (rev (map (\<lambda>s. (sr_control_id s, s)) skipped)) i \<noteq> None \<longleftrightarrow> i \<in> skip_ids skipped"
    unfolding not_None_eq [symmetric] by (auto simp: map_of_eq_None_iff skip_ids_def image_iff)
  then show ?thesis by (simp add: hm_contains_def map_of_hm_collect)
qed

lemma resume_all_map:
  "map_of (fst (resume_all ids active events)) i = (if i \<in> set ids then None else map_of active i)"
  by (induction ids active events rule: resume_all.induct) (auto split: option.split)

lemma resume_all_ok: "hm_ok active \<Longrightarrow> hm_ok (fst (resume_all ids active events))"
  by (induction ids active events rule: resume_all.induct) (auto split: option.split)

lemma skip_step_ok:
  "hm_ok st \<Longrightarrow> hm_ok ac \<Longrightarrow> skip_step d now s (st, ac, ev) = (st', ac', ev') \<Longrightarrow> hm_ok st' \<and> hm_ok ac'"
  by (auto simp: skip_step_def Let_def split: if_splits)

lemma skip_step_other:
  "skip_step d now s (st, ac, ev) = (st', ac', ev') \<Longrightarrow> i \<noteq> sr_control_id s \<Longrightarrow>
     map_of st' i = map_of st i \<and> map_of ac' i = map_of ac i"
  by (auto simp: skip_step_def Let_def split: if_splits)

lemma skip_fold_other:
  "i \<notin> skip_ids ss \<Longrightarrow> fold (skip_step d now) ss (st, ac, ev) = (st', ac', ev') \<Longrightarrow>
     map_of st' i = map_of st i \<and> map_of ac' i = map_of ac i"
proof (induction ss arbitrary: st ac ev)
  case (Cons s ss)
  obtain st1 ac1 ev1 where s: "skip_step d now s (st, ac, ev) = (st1, ac1, ev1)" by (metis prod_cases3)
  have "i \<noteq> sr_control_id s" "i \<notin> skip_ids ss" using Cons.prems by (auto simp: skip_ids_def)
  then show ?case using Cons.IH [of st1 ac1 ev1] Cons.prems(2) s skip_step_other [OF s] by simp
qed simp

lemma skip_fold_ok:
  "hm_ok st \<Longrightarrow> hm_ok ac \<Longrightarrow> fold (skip_step d now) ss (st, ac, ev) = (st', ac', ev') \<Longrightarrow>
     hm_ok st' \<and> hm_ok ac'"
proof (induction ss arbitrary: st ac ev)
  case (Cons s ss)
  obtain st1 ac1 ev1 where s: "skip_step d now s (st, ac, ev) = (st1, ac1, ev1)" by (metis prod_cases3)
  then show ?case
    using Cons.IH [of st1 ac1 ev1] Cons.prems skip_step_ok [OF Cons.prems(1,2) s] by simp
qed simp

lemma skip_fold_this:
  assumes "i \<in> skip_ids ss" "distinct (map sr_control_id ss)"
    and "fold (skip_step d now) ss (st, ac, ev) = (st', ac', ev')"
    and "unwrap_or 0 (map_of st i) < d" "d < 2 ^ 32"
  shows "hm_contains ac' i \<longleftrightarrow> hm_contains ac i \<or> d \<le> Suc (unwrap_or 0 (map_of st i))"
    and "hm_contains ac i \<Longrightarrow> map_of ac' i = map_of ac i \<and> map_of st' i = map_of st i"
    and "\<not> hm_contains ac i \<Longrightarrow> map_of st' i =
      (if d \<le> Suc (unwrap_or 0 (map_of st i)) then None else Some (Suc (unwrap_or 0 (map_of st i))))"
proof -
  obtain s where s: "s \<in> set ss" "sr_control_id s = i" using assms(1) by (auto simp: skip_ids_def)
  then obtain ys zs where ss: "ss = ys @ s # zs" by (metis split_list)
  have no: "i \<notin> skip_ids ys" "i \<notin> skip_ids zs" using assms(2) s(2) by (auto simp: ss skip_ids_def)
  obtain st1 ac1 ev1 where f1: "fold (skip_step d now) ys (st, ac, ev) = (st1, ac1, ev1)"
    by (metis prod_cases3)
  obtain st2 ac2 ev2 where f2: "skip_step d now s (st1, ac1, ev1) = (st2, ac2, ev2)"
    by (metis prod_cases3)
  have f3: "fold (skip_step d now) zs (st2, ac2, ev2) = (st', ac', ev')"
    using assms(3) f1 f2 by (simp add: ss)
  note o1 = skip_fold_other [OF no(1) f1] and o3 = skip_fold_other [OF no(2) f3]
  have inc: "u32_inc (unwrap_or 0 (map_of st i)) = Suc (unwrap_or 0 (map_of st i))"
    using assms(4,5) by simp
  show "hm_contains ac' i \<longleftrightarrow> hm_contains ac i \<or> d \<le> Suc (unwrap_or 0 (map_of st i))"
    "hm_contains ac i \<Longrightarrow> map_of ac' i = map_of ac i \<and> map_of st' i = map_of st i"
    "\<not> hm_contains ac i \<Longrightarrow> map_of st' i =
      (if d \<le> Suc (unwrap_or 0 (map_of st i)) then None else Some (Suc (unwrap_or 0 (map_of st i))))"
    using f2 o1 o3 inc s(2)
    by (auto simp: skip_step_def hm_contains_def Let_def split: if_splits)
qed

definition tracker_inv :: "SkippedControlTracker \<Rightarrow> bool" where
  "tracker_inv tr = (hm_ok (tr_streak tr) \<and> hm_ok (tr_active tr) \<and> 0 < tr_debounce tr \<and> tr_debounce tr < 2 ^ 32 \<and>
     (\<forall>i. unwrap_or 0 (map_of (tr_streak tr) i) < tr_debounce tr) \<and>
     (\<forall>i. hm_contains (tr_active tr) i \<longrightarrow> map_of (tr_streak tr) i = None))"

text \<open>How far a control is towards being listed: its streak, or the debounce once listed.\<close>

definition skip_level :: "SkippedControlTracker \<Rightarrow> string \<Rightarrow> nat" where
  "skip_level tr i =
     (if hm_contains (tr_active tr) i then tr_debounce tr else unwrap_or 0 (map_of (tr_streak tr) i))"

definition distinct_ids :: "SkipRecord list \<Rightarrow> bool" where
  "distinct_ids skipped = distinct (map sr_control_id skipped)"

lemma record_tick_step:
  assumes inv: "tracker_inv tr" and dist: "distinct_ids skipped"
    and rt: "record_tick skipped now tr = (events, tr')"
  shows "tracker_inv tr'" "tr_debounce tr' = tr_debounce tr"
    "skip_level tr' i = (if i \<in> skip_ids skipped then min (tr_debounce tr) (Suc (skip_level tr i)) else 0)"
proof -
  let ?d = "tr_debounce tr"
  let ?ac0 = "fst (resume_all (filter (\<lambda>i. i \<notin> skip_ids skipped) (map fst (tr_active tr))) (tr_active tr) [])"
  let ?ev0 = "snd (resume_all (filter (\<lambda>i. i \<notin> skip_ids skipped) (map fst (tr_active tr))) (tr_active tr) [])"
  let ?st0 = "hm_retain (\<lambda>i _. i \<in> skip_ids skipped) (tr_streak tr)"
  obtain st ac ev where f: "fold (skip_step ?d now) skipped (?st0, ?ac0, ?ev0) = (st, ac, ev)"
    by (metis prod_cases3)
  have tr': "tr' = tr\<lparr>tr_streak := st, tr_active := ac\<rparr>"
    using rt f by (auto simp: record_tick_def contains_still Let_def split: prod.splits)
  have ok0: "hm_ok ?st0" "hm_ok ?ac0" using inv by (auto simp: tracker_inv_def resume_all_ok)
  note ok = skip_fold_ok [OF ok0 f]
  have ac0: "map_of ?ac0 j = (if j \<in> skip_ids skipped then map_of (tr_active tr) j else None)" for j
    by (auto simp: resume_all_map map_of_eq_None_iff image_iff)
  have st0: "map_of ?st0 j = (if j \<in> skip_ids skipped then map_of (tr_streak tr) j else None)" for j
    using inv by (auto simp: map_of_hm_retain tracker_inv_def split: option.split)
  have d: "0 < ?d" "?d < 2 ^ 32" "unwrap_or 0 (map_of (tr_streak tr) j) < ?d"
    "hm_contains (tr_active tr) j \<Longrightarrow> map_of (tr_streak tr) j = None" for j
    using inv by (simp_all add: tracker_inv_def)
  have this_j: "j \<in> skip_ids skipped \<Longrightarrow>
      (hm_contains ac j \<longleftrightarrow> hm_contains (tr_active tr) j \<or> ?d \<le> Suc (unwrap_or 0 (map_of (tr_streak tr) j))) \<and>
      (hm_contains (tr_active tr) j \<longrightarrow> map_of st j = None) \<and>
      (\<not> hm_contains (tr_active tr) j \<longrightarrow> map_of st j =
        (if ?d \<le> Suc (unwrap_or 0 (map_of (tr_streak tr) j)) then None
         else Some (Suc (unwrap_or 0 (map_of (tr_streak tr) j)))))" for j
    using skip_fold_this [OF _ dist [unfolded distinct_ids_def] f, of j] d(2) d(3,4) [of j] ac0 [of j] st0 [of j]
    by (simp add: hm_contains_def)
  have other_j: "j \<notin> skip_ids skipped \<Longrightarrow> map_of st j = None \<and> map_of ac j = None" for j
    using skip_fold_other [OF _ f, of j] ac0 [of j] st0 [of j] by simp
  show "tracker_inv tr'"
  proof -
    have "unwrap_or 0 (map_of st j) < ?d \<and> (hm_contains ac j \<longrightarrow> map_of st j = None)" for j
      using this_j [of j] other_j [of j] d(1) d(3,4) [of j] by (cases "j \<in> skip_ids skipped") (auto simp: hm_contains_def)
    then show ?thesis using ok d(1,2) by (simp add: tracker_inv_def tr')
  qed
  show "tr_debounce tr' = ?d" by (simp add: tr')
  show "skip_level tr' i = (if i \<in> skip_ids skipped then min ?d (Suc (skip_level tr i)) else 0)"
    using this_j [of i] other_j [of i] d(1) d(3,4) [of i]
    by (auto simp: skip_level_def tr' hm_contains_def min_def)
qed

interpretation skip_debounce: debounce_counter "\<lambda>t tr. snd (record_tick (fst t) (snd t) tr)" skip_level
  "\<lambda>t i. i \<in> skip_ids (fst t)" "\<lambda>t. distinct_ids (fst t)" "\<lambda>tr. tracker_inv tr \<and> tr_debounce tr = d" d
  for d
proof
  fix tr and t :: "SkipRecord list \<times> instant" and i
  assume a: "tracker_inv tr \<and> tr_debounce tr = d" "distinct_ids (fst t)"
  obtain ev tr' where "record_tick (fst t) (snd t) tr = (ev, tr')" by (metis surj_pair)
  with a record_tick_step [OF conjunct1 [OF a(1)] a(2) this]
  show "tracker_inv (snd (record_tick (fst t) (snd t) tr)) \<and> tr_debounce (snd (record_tick (fst t) (snd t) tr)) = d"
    "skip_level (snd (record_tick (fst t) (snd t) tr)) i =
      (if i \<in> skip_ids (fst t) then min d (Suc (skip_level tr i)) else 0)"
    by simp_all
qed

lemma tracker_run_fold: "tracker_run ts tr = fold (\<lambda>t tr. snd (record_tick (fst t) (snd t) tr)) ts tr"
  by (induction ts arbitrary: tr) simp_all

definition trailing_skips :: "string \<Rightarrow> (SkipRecord list \<times> instant) list \<Rightarrow> nat" where
  "trailing_skips i ts = length (takeWhile (\<lambda>t. i \<in> skip_ids (fst t)) (rev ts))"

lemma tracker_run_level:
  assumes "0 < d" "d < 2 ^ 32" "list_all (\<lambda>t. distinct_ids (fst t)) ts"
  shows "tracker_inv (tracker_run ts (tracker_new d)) \<and> tr_debounce (tracker_run ts (tracker_new d)) = d \<and>
    skip_level (tracker_run ts (tracker_new d)) i = min d (trailing_skips i ts)"
proof -
  have "tracker_inv (tracker_new d)" "tr_debounce (tracker_new d) = d" "skip_level (tracker_new d) i = 0"
    using assms(1,2) by (simp_all add: tracker_inv_def tracker_new_def skip_level_def hm_contains_def)
  then show ?thesis
    using skip_debounce.run_inv [of "tracker_new d" d ts] skip_debounce.run_level [of "tracker_new d" d i ts] assms(3)
    by (simp add: tracker_run_fold trailing_skips_def)
qed

text \<open>Lemma: the skip list is exactly the debounce. After any sequence of ticks (each naming a control at
  most once) a control is listed if and only if it was skipped on each of the last
  \<open>SKIP_DEBOUNCE_TICKS\<close> ticks: never earlier, never later, and one resolved tick takes it off.\<close>

theorem listed_iff_debounced:
  assumes "list_all (\<lambda>t. distinct_ids (fst t)) ts"
  shows "hm_contains (tr_active (tracker_run ts tracker_default)) i \<longleftrightarrow>
    SKIP_DEBOUNCE_TICKS \<le> trailing_skips i ts"
proof -
  let ?tr = "tracker_run ts (tracker_new SKIP_DEBOUNCE_TICKS)"
  have lv: "tracker_inv ?tr" "tr_debounce ?tr = SKIP_DEBOUNCE_TICKS"
    "skip_level ?tr i = min SKIP_DEBOUNCE_TICKS (trailing_skips i ts)"
    using tracker_run_level [of SKIP_DEBOUNCE_TICKS ts i] assms by (simp_all add: SKIP_DEBOUNCE_TICKS_def)
  have "\<not> hm_contains (tr_active ?tr) i \<Longrightarrow> skip_level ?tr i < SKIP_DEBOUNCE_TICKS"
    using lv(1,2) by (simp add: skip_level_def tracker_inv_def)
  with lv show ?thesis by (auto simp: tracker_default_def skip_level_def split: if_splits)
qed

definition sample_skip :: SkipRecord where
  "sample_skip = \<lparr>sr_control_id = ''c'', sr_control_name = ''C'', sr_reason = CurveNotFound\<rparr>"

theorem listed_iff_debounced_witness:
  "hm_contains (tr_active (tracker_run [([sample_skip], 0), ([sample_skip], 1), ([sample_skip], 2)]
     tracker_default)) ''c'' \<longleftrightarrow> SKIP_DEBOUNCE_TICKS \<le> (3 :: nat)"
proof -
  have "trailing_skips ''c'' [([sample_skip], 0), ([sample_skip], 1), ([sample_skip], 2)] = 3"
    by (simp add: trailing_skips_def skip_ids_def sample_skip_def)
  then show ?thesis
    using listed_iff_debounced [of "[([sample_skip], 0), ([sample_skip], 1), ([sample_skip], 2)]" "''c''"]
    by (simp add: distinct_ids_def)
qed

end
