(* ===== verification/Control_Override.thy ===== *)
theory Control_Override
  imports Header_Roles Profile_Model
begin

text \<open>
  \<open>control_override.rs\<close>: the table of expiring manual overrides and fan-identify holds. Every method
  is a function from the table (and the clock's reading, which the source takes from an injected
  \<open>Clock\<close>) to the updated table. Instants and durations are in nanoseconds.
\<close>

section \<open>The table\<close>

datatype OverrideReject = StaleToken | NotActive

record ControlOverride =
  ov_token :: u64
  ov_pwm_percent :: u8
  ov_expires_at :: instant

datatype IdentifyMode = Stop | PumpPerturb

definition identify_mode_str :: "IdentifyMode \<Rightarrow> string" where
  "identify_mode_str m = (case m of Stop \<Rightarrow> ''stop'' | PumpPerturb \<Rightarrow> ''pump_perturb'')"

record IdentifyEntry =
  id_expires_at :: instant
  id_target_pct :: u8
  id_mode :: IdentifyMode

record OverrideGrant =
  gr_token :: u64
  gr_ttl_secs :: u64
  gr_expires_in_secs :: u64

record OverrideSnapshot =
  os_controls :: "(string, u8) hmap"
  os_identify :: "(string, u8) hmap"

definition snapshot_default :: OverrideSnapshot where
  "snapshot_default = \<lparr>os_controls = [], os_identify = []\<rparr>"

record OverrideStatusRow =
  row_control_id :: string
  row_pwm_percent :: u8
  row_expires_in_secs :: u64

record IdentifyStatusRow =
  irow_fan_id :: string
  irow_expires_in_secs :: u64
  irow_mode :: IdentifyMode
  irow_pwm_percent :: u8

record SweepCleared =
  swept_controls :: "string list"
  swept_fans :: "string list"

record OverrideTable =
  ot_controls :: "(string, ControlOverride) hmap"
  ot_identify :: "(string, IdentifyEntry) hmap"
  ot_next_token :: u64

definition table_new :: OverrideTable where
  "table_new = \<lparr>ot_controls = [], ot_identify = [], ot_next_token = 0\<rparr>"

definition IDENTIFY_PUMP_DELTA_PCT :: u8 where "IDENTIFY_PUMP_DELTA_PCT = 25"
definition IDENTIFY_PUMP_BASELINE_FALLBACK_PCT :: u8 where "IDENTIFY_PUMP_BASELINE_FALLBACK_PCT = 60"

section \<open>The identify target\<close>

definition u8_clamp :: "u8 \<Rightarrow> u8 \<Rightarrow> u8 \<Rightarrow> u8" where
  "u8_clamp lo hi x = (if x < lo then lo else if hi < x then hi else x)"

definition identify_target_for_role :: "HeaderRole \<Rightarrow> u8 option \<Rightarrow> u8 \<Rightarrow> u8 \<times> IdentifyMode" where
  "identify_target_for_role role last_commanded_pct pump_floor =
     (if \<not> is_pump role then (0, Stop)
      else let floor = max pump_floor (f64_to_u8 HARD_PUMP_CPU_FLOOR_PCT);
               baseline = unwrap_or IDENTIFY_PUMP_BASELINE_FALLBACK_PCT last_commanded_pct;
               delta = IDENTIFY_PUMP_DELTA_PCT;
               raised = u8_sat_add baseline delta;
               target = (if raised \<le> 100 then raised else baseline - delta)
           in (u8_clamp floor 100 target, PumpPerturb))"

section \<open>Methods\<close>

definition take_override ::
    "instant \<Rightarrow> string \<Rightarrow> u8 \<Rightarrow> duration \<Rightarrow> OverrideTable \<Rightarrow> OverrideGrant \<times> OverrideTable" where
  "take_override now control_id pwm_percent ttl t =
     (let token = u64_inc (ot_next_token t) in
      (\<lparr>gr_token = token, gr_ttl_secs = as_secs ttl, gr_expires_in_secs = as_secs ttl\<rparr>,
       t\<lparr>ot_next_token := token,
         ot_controls := hm_insert control_id
           \<lparr>ov_token = token, ov_pwm_percent = pwm_percent, ov_expires_at = now + ttl\<rparr> (ot_controls t)\<rparr>))"

definition renew_override ::
    "instant \<Rightarrow> string \<Rightarrow> u64 \<Rightarrow> duration \<Rightarrow> OverrideTable \<Rightarrow>
     (OverrideReject + OverrideGrant) \<times> OverrideTable" where
  "renew_override now control_id token ttl t =
     (case map_of (ot_controls t) control_id of
        Some ov \<Rightarrow>
          if ov_token ov = token \<and> now < ov_expires_at ov then
            (Inr \<lparr>gr_token = token, gr_ttl_secs = as_secs ttl, gr_expires_in_secs = as_secs ttl\<rparr>,
             t\<lparr>ot_controls := hm_insert control_id (ov\<lparr>ov_expires_at := now + ttl\<rparr>) (ot_controls t)\<rparr>)
          else if now < ov_expires_at ov then (Inl StaleToken, t)
          else (Inl NotActive, t)
      | None \<Rightarrow> (Inl NotActive, t))"

definition release_override ::
    "instant \<Rightarrow> string \<Rightarrow> u64 \<Rightarrow> OverrideTable \<Rightarrow> (OverrideReject + unit) \<times> OverrideTable" where
  "release_override now control_id token t =
     (case map_of (ot_controls t) control_id of
        Some ov \<Rightarrow>
          if ov_token ov = token \<and> now < ov_expires_at ov then
            (Inr (), t\<lparr>ot_controls := hm_remove control_id (ot_controls t)\<rparr>)
          else if now < ov_expires_at ov then (Inl StaleToken, t)
          else (Inl NotActive, t)
      | None \<Rightarrow> (Inl NotActive, t))"

definition clear_all_overrides :: "OverrideTable \<Rightarrow> OverrideTable" where
  "clear_all_overrides t = t\<lparr>ot_controls := []\<rparr>"

definition identify_hold ::
    "instant \<Rightarrow> string \<Rightarrow> u8 \<Rightarrow> IdentifyMode \<Rightarrow> duration \<Rightarrow> OverrideTable \<Rightarrow> OverrideTable" where
  "identify_hold now fan_id target_pct mode ttl t =
     t\<lparr>ot_identify := hm_insert fan_id
         \<lparr>id_expires_at = now + ttl, id_target_pct = target_pct, id_mode = mode\<rparr> (ot_identify t)\<rparr>"

definition identify_restore :: "string \<Rightarrow> OverrideTable \<Rightarrow> OverrideTable" where
  "identify_restore fan_id t = t\<lparr>ot_identify := hm_remove fan_id (ot_identify t)\<rparr>"

text \<open>\<open>retain\<close> with the dropped keys collected, as the closures do.\<close>

definition dropped :: "('k \<Rightarrow> 'v \<Rightarrow> bool) \<Rightarrow> ('k, 'v) hmap \<Rightarrow> 'k list" where
  "dropped keep m = map fst (filter (\<lambda>(k, v). \<not> keep k v) m)"

definition release_identify_stops :: "string set \<Rightarrow> OverrideTable \<Rightarrow> string list \<times> OverrideTable" where
  "release_identify_stops fan_ids t =
     (let keep = (\<lambda>i e. \<not> (id_mode e = Stop \<and> i \<in> fan_ids)) in
      (sort (dropped keep (ot_identify t)), t\<lparr>ot_identify := hm_retain keep (ot_identify t)\<rparr>))"

definition release_for_maintenance ::
    "string set \<Rightarrow> (string \<Rightarrow> bool) \<Rightarrow> OverrideTable \<Rightarrow> (string list \<times> string list) \<times> OverrideTable" where
  "release_for_maintenance control_ids is_openfan t =
     (let keep_c = (\<lambda>i _. i \<notin> control_ids); keep_f = (\<lambda>i _. \<not> is_openfan i) in
      ((sort (dropped keep_c (ot_controls t)), sort (dropped keep_f (ot_identify t))),
       t\<lparr>ot_controls := hm_retain keep_c (ot_controls t),
         ot_identify := hm_retain keep_f (ot_identify t)\<rparr>))"

definition sweep :: "instant \<Rightarrow> OverrideTable \<Rightarrow> SweepCleared \<times> OverrideTable" where
  "sweep now t =
     (let live_c = (\<lambda>_ ov. now < ov_expires_at ov); live_f = (\<lambda>_ e. now < id_expires_at e) in
      (\<lparr>swept_controls = dropped live_c (ot_controls t), swept_fans = dropped live_f (ot_identify t)\<rparr>,
       t\<lparr>ot_controls := hm_retain live_c (ot_controls t),
         ot_identify := hm_retain live_f (ot_identify t)\<rparr>))"

definition snapshot :: "instant \<Rightarrow> OverrideTable \<Rightarrow> OverrideSnapshot" where
  "snapshot now t =
     \<lparr>os_controls = hm_collect (map (\<lambda>(i, ov). (i, ov_pwm_percent ov))
        (filter (\<lambda>(_, ov). now < ov_expires_at ov) (ot_controls t))),
      os_identify = hm_collect (map (\<lambda>(i, e). (i, id_target_pct e))
        (filter (\<lambda>(_, e). now < id_expires_at e) (ot_identify t)))\<rparr>"

definition status_rows ::
    "instant \<Rightarrow> OverrideTable \<Rightarrow> OverrideStatusRow list \<times> IdentifyStatusRow list" where
  "status_rows now t =
     (sort_key row_control_id (map (\<lambda>(i, ov). \<lparr>row_control_id = i, row_pwm_percent = ov_pwm_percent ov,
          row_expires_in_secs = as_secs (ov_expires_at ov - now)\<rparr>)
        (filter (\<lambda>(_, ov). now < ov_expires_at ov) (ot_controls t))),
      sort_key irow_fan_id (map (\<lambda>(i, e). \<lparr>irow_fan_id = i,
          irow_expires_in_secs = as_secs (id_expires_at e - now), irow_mode = id_mode e,
          irow_pwm_percent = id_target_pct e\<rparr>)
        (filter (\<lambda>(_, e). now < id_expires_at e) (ot_identify t))))"

section \<open>Histories\<close>

text \<open>Everything the API handlers and the engine tick do to the table.\<close>

datatype OverrideOp =
    OpTake instant string u8 duration
  | OpRenew instant string u64 duration
  | OpRelease instant string u64
  | OpClearAll
  | OpIdentify instant string u8 IdentifyMode duration
  | OpRestore string
  | OpReleaseStops "string set"
  | OpMaintenance "string set" "string \<Rightarrow> bool"
  | OpSweep instant

fun ov_step :: "OverrideOp \<Rightarrow> OverrideTable \<Rightarrow> OverrideTable" where
  "ov_step (OpTake now c p ttl) t = snd (take_override now c p ttl t)"
| "ov_step (OpRenew now c k ttl) t = snd (renew_override now c k ttl t)"
| "ov_step (OpRelease now c k) t = snd (release_override now c k t)"
| "ov_step OpClearAll t = clear_all_overrides t"
| "ov_step (OpIdentify now f p m ttl) t = identify_hold now f p m ttl t"
| "ov_step (OpRestore f) t = identify_restore f t"
| "ov_step (OpReleaseStops fs) t = snd (release_identify_stops fs t)"
| "ov_step (OpMaintenance cs f) t = snd (release_for_maintenance cs f t)"
| "ov_step (OpSweep now) t = snd (sweep now t)"

definition ov_run :: "OverrideOp list \<Rightarrow> OverrideTable \<Rightarrow> OverrideTable" where
  "ov_run ops t = fold ov_step ops t"

definition takes :: "string \<Rightarrow> OverrideOp \<Rightarrow> bool" where
  "takes c op = (case op of OpTake _ c' _ _ \<Rightarrow> c' = c | _ \<Rightarrow> False)"

definition table_inv :: "OverrideTable \<Rightarrow> bool" where
  "table_inv t = (hm_ok (ot_controls t) \<and> hm_ok (ot_identify t) \<and>
     (\<forall>c ov. map_of (ot_controls t) c = Some ov \<longrightarrow> ov_token ov \<le> ot_next_token t))"

lemma map_of_retain_Some:
  "hm_ok m \<Longrightarrow> map_of (hm_retain p m) k = Some v \<longleftrightarrow> map_of m k = Some v \<and> p k v"
  by (auto simp: map_of_hm_retain split: option.splits)

text \<open>What one step leaves of the entry of a control: nothing, the entry with its token, or a fresh
  token from a take.\<close>

lemma ov_step_entry:
  assumes "table_inv t" "map_of (ot_controls (ov_step op t)) c = Some ov"
  shows "(\<exists>ov0. map_of (ot_controls t) c = Some ov0 \<and> ov_token ov = ov_token ov0 \<and>
            ov_pwm_percent ov = ov_pwm_percent ov0 \<and> \<not> takes c op) \<or>
         (takes c op \<and> ov_token ov = u64_inc (ot_next_token t))"
  using assms
  by (cases op) (auto simp: table_inv_def take_override_def renew_override_def release_override_def
      clear_all_overrides_def identify_hold_def identify_restore_def release_identify_stops_def
      release_for_maintenance_def sweep_def takes_def Let_def map_of_retain_Some
      split: option.splits if_splits)

lemma ov_step_next:
  "ot_next_token (ov_step op t) = (case op of OpTake _ _ _ _ \<Rightarrow> u64_inc (ot_next_token t) | _ \<Rightarrow> ot_next_token t)"
  by (cases op) (auto simp: take_override_def renew_override_def release_override_def
      clear_all_overrides_def identify_hold_def identify_restore_def release_identify_stops_def
      release_for_maintenance_def sweep_def Let_def split: option.splits)

lemma ov_step_ok: "hm_ok (ot_controls t) \<Longrightarrow> hm_ok (ot_identify t) \<Longrightarrow>
   hm_ok (ot_controls (ov_step op t)) \<and> hm_ok (ot_identify (ov_step op t))"
  by (cases op) (auto simp: take_override_def renew_override_def release_override_def
      clear_all_overrides_def identify_hold_def identify_restore_def release_identify_stops_def
      release_for_maintenance_def sweep_def Let_def split: option.splits)

lemma ov_step_inv:
  assumes "table_inv t" "ot_next_token t < 2 ^ 64 - 1"
  shows "table_inv (ov_step op t)" "ot_next_token t \<le> ot_next_token (ov_step op t)"
    "ot_next_token (ov_step op t) \<le> Suc (ot_next_token t)"
proof -
  have nx: "ot_next_token t \<le> ot_next_token (ov_step op t)" "ot_next_token (ov_step op t) \<le> Suc (ot_next_token t)"
    using assms(2) by (auto simp: ov_step_next split: OverrideOp.split)
  show "ot_next_token t \<le> ot_next_token (ov_step op t)"
    "ot_next_token (ov_step op t) \<le> Suc (ot_next_token t)" by (rule nx)+
  have "ov_token ov \<le> ot_next_token (ov_step op t)" if "map_of (ot_controls (ov_step op t)) c = Some ov" for c ov
    using ov_step_entry [OF assms(1) that]
  proof
    assume "\<exists>ov0. map_of (ot_controls t) c = Some ov0 \<and> ov_token ov = ov_token ov0 \<and>
      ov_pwm_percent ov = ov_pwm_percent ov0 \<and> \<not> takes c op"
    then show ?thesis using assms(1) nx(1) order_trans by (fastforce simp: table_inv_def)
  qed (auto simp: takes_def ov_step_next split: OverrideOp.splits)
  then show "table_inv (ov_step op t)"
    using assms(1) ov_step_ok by (auto simp: table_inv_def)
qed

lemma table_new_inv: "table_inv table_new"
  by (simp add: table_inv_def table_new_def)

lemma ov_run_simps [simp]: "ov_run [] t = t" "ov_run (op # ops) t = ov_run ops (ov_step op t)"
  by (simp_all add: ov_run_def)

lemma ov_run_inv:
  assumes "table_inv t" "ot_next_token t + length ops < 2 ^ 64"
  shows "table_inv (ov_run ops t) \<and> ot_next_token t \<le> ot_next_token (ov_run ops t) \<and>
    ot_next_token (ov_run ops t) \<le> ot_next_token t + length ops"
  using assms
proof (induction ops arbitrary: t)
  case (Cons op ops)
  have lt: "ot_next_token t < 2 ^ 64 - 1" using Cons.prems(2) by simp
  note st = ov_step_inv [OF Cons.prems(1) lt, of op]
  then have "ot_next_token (ov_step op t) + length ops < 2 ^ 64" using Cons.prems(2) by simp
  from Cons.IH [OF st(1) this] st show ?case by auto
qed simp

text \<open>The table is a token fence for every control.\<close>

definition token_of :: "string \<Rightarrow> OverrideTable \<Rightarrow> u64 option" where
  "token_of c t = map_option ov_token (map_of (ot_controls t) c)"

definition token_room :: "OverrideTable \<Rightarrow> nat \<Rightarrow> bool" where
  "token_room t n = (table_inv t \<and> ot_next_token t + n < 2 ^ 64)"

interpretation ov_fence: token_fence ov_step "token_of c" "\<lambda>t k. k \<le> ot_next_token t" "\<lambda>op _. takes c op" token_room
  for c
proof
  fix t op and n k :: nat
  assume r: "token_room t (Suc n)"
  then have inv: "table_inv t" "ot_next_token t < 2 ^ 64 - 1" by (simp_all add: token_room_def)
  note st = ov_step_inv [OF inv, of op]
  show "token_room (ov_step op t) n" using r st by (simp add: token_room_def)
  assume k: "k \<le> ot_next_token t"
  then show "k \<le> ot_next_token (ov_step op t)" using st(2) by simp
  show "token_of c (ov_step op t) \<noteq> Some k" if "token_of c t \<noteq> Some k"
    using that k inv(2) ov_step_entry [OF inv(1), of op c] by (fastforce simp: token_of_def)
  show "token_of c (ov_step op t) \<noteq> Some k" if "takes c op"
    using that k inv(2) ov_step_entry [OF inv(1), of op c] by (fastforce simp: token_of_def)
qed

lemma lost_token_rejected:
  "token_of c t \<noteq> Some k \<Longrightarrow>
     \<exists>e. renew_override now c k ttl t = (Inl e, t) \<and> release_override now c k t = (Inl e, t)"
  by (auto simp: token_of_def renew_override_def release_override_def split: option.split)

section \<open>Properties\<close>

text \<open>C8: fencing. After an override grant on a control has been superseded by a later take of the
  same control, the old token can neither renew nor release anything, ever again: both are rejected
  and leave the table as it is, whatever else happens in between (renewals, releases, sweeps, profile
  activations, identify holds, maintenance). The bound says the token counter has not wrapped.\<close>

theorem superseded_token_is_fenced:
  assumes "take_override now c pwm ttl (ov_run before table_new) = (grant, t1)"
    and "list_ex (takes c) later" "length before + length later + 1 < 2 ^ 64"
  shows "\<exists>e. renew_override now' c (gr_token grant) ttl' (ov_run later t1) = (Inl e, ov_run later t1) \<and>
             release_override now' c (gr_token grant) (ov_run later t1) = (Inl e, ov_run later t1)"
proof -
  let ?t0 = "ov_run before table_new"
  have i0: "table_inv ?t0" "ot_next_token ?t0 \<le> length before"
    using ov_run_inv [OF table_new_inv, of before] assms(3) by (simp_all add: table_new_def)
  have t1: "t1 = ov_step (OpTake now c pwm ttl) ?t0" "gr_token grant = ot_next_token t1"
    using assms(1) by (auto simp: take_override_def Let_def)
  obtain pre op post where later: "later = pre @ op # post" "takes c op"
    using assms(2) by (auto simp: list_ex_iff dest: split_list)
  have "token_room ?t0 (Suc (length (pre @ op # post) + 0))"
    using i0 assms(3) later by (simp add: token_room_def)
  then have "token_room t1 (length (pre @ op # post) + 0)" unfolding t1(1) by (rule ov_fence.room_step)
  from ov_fence.displaced [OF this] have "token_of c (ov_run later t1) \<noteq> Some (gr_token grant)"
    using later t1(2) by (simp add: ov_run_def)
  then show ?thesis by (rule lost_token_rejected)
qed

theorem superseded_token_is_fenced_witness:
  "\<exists>e. renew_override 5 ''fan'' 1 (secs 15)
          (ov_run [OpTake 2 ''fan'' 60 (secs 15)] (snd (take_override 1 ''fan'' 50 (secs 15) table_new)))
        = (Inl e, ov_run [OpTake 2 ''fan'' 60 (secs 15)] (snd (take_override 1 ''fan'' 50 (secs 15) table_new)))"
  using superseded_token_is_fenced [of 1 "''fan''" 50 "secs 15" "[]"
      "fst (take_override 1 ''fan'' 50 (secs 15) table_new)"
      "snd (take_override 1 ''fan'' 50 (secs 15) table_new)" "[OpTake 2 ''fan'' 60 (secs 15)]" 5 "secs 15"]
  by (auto simp: takes_def take_override_def table_new_def)

definition grants :: "string \<Rightarrow> OverrideOp \<Rightarrow> (instant \<times> duration) option" where
  "grants c op = (case op of
     OpTake now c' _ ttl \<Rightarrow> if c' = c then Some (now, ttl) else None
   | OpRenew now c' _ ttl \<Rightarrow> if c' = c then Some (now, ttl) else None
   | _ \<Rightarrow> None)"

definition pins :: "string \<Rightarrow> OverrideOp \<Rightarrow> (instant \<times> duration) option" where
  "pins f op = (case op of OpIdentify now f' _ _ ttl \<Rightarrow> if f' = f then Some (now, ttl) else None | _ \<Rightarrow> None)"

lemma ov_step_expiry:
  assumes "hm_ok (ot_controls t)" "map_of (ot_controls (ov_step op t)) c = Some ov"
  shows "(\<exists>ov0. map_of (ot_controls t) c = Some ov0 \<and> ov_expires_at ov = ov_expires_at ov0) \<or>
    (\<exists>s ttl. grants c op = Some (s, ttl) \<and> ov_expires_at ov = s + ttl)"
  using assms
  by (cases op) (auto simp: take_override_def renew_override_def release_override_def grants_def
      clear_all_overrides_def identify_hold_def identify_restore_def release_identify_stops_def
      release_for_maintenance_def sweep_def Let_def map_of_retain_Some
      split: option.splits if_splits)

lemma ov_step_pin_expiry:
  assumes "hm_ok (ot_identify t)" "map_of (ot_identify (ov_step op t)) f = Some e"
  shows "(\<exists>e0. map_of (ot_identify t) f = Some e0 \<and> id_expires_at e = id_expires_at e0) \<or>
    (\<exists>s ttl. pins f op = Some (s, ttl) \<and> id_expires_at e = s + ttl)"
  using assms
  by (cases op) (auto simp: take_override_def renew_override_def release_override_def pins_def
      clear_all_overrides_def identify_hold_def identify_restore_def release_identify_stops_def
      release_for_maintenance_def sweep_def Let_def map_of_retain_Some
      split: option.splits if_splits)

lemma ov_run_snoc: "ov_run (ops @ [op]) t = ov_step op (ov_run ops t)"
  by (simp add: ov_run_def)

lemma ov_run_ok: "hm_ok (ot_controls (ov_run ops table_new)) \<and> hm_ok (ot_identify (ov_run ops table_new))"
  by (induction ops rule: rev_induct) (simp_all add: ov_run_snoc ov_step_ok, simp add: table_new_def)

lemma ov_run_expiry:
  "map_of (ot_controls (ov_run ops table_new)) c = Some ov \<Longrightarrow>
     \<exists>op \<in> set ops. \<exists>s ttl. grants c op = Some (s, ttl) \<and> ov_expires_at ov = s + ttl"
proof (induction ops arbitrary: ov rule: rev_induct)
  case (snoc op ops)
  show ?case
    using ov_step_expiry [OF conjunct1 [OF ov_run_ok], of op ops c ov] snoc.prems snoc.IH
    by (fastforce simp: ov_run_snoc)
qed (simp add: table_new_def)

lemma ov_run_pin_expiry:
  "map_of (ot_identify (ov_run ops table_new)) f = Some e \<Longrightarrow>
     \<exists>op \<in> set ops. \<exists>s ttl. pins f op = Some (s, ttl) \<and> id_expires_at e = s + ttl"
proof (induction ops arbitrary: e rule: rev_induct)
  case (snoc op ops)
  show ?case
    using ov_step_pin_expiry [OF conjunct2 [OF ov_run_ok], of op ops f e] snoc.prems snoc.IH
    by (fastforce simp: ov_run_snoc)
qed (simp add: table_new_def)

lemma map_of_live:
  assumes "hm_ok m"
  shows "map_of (hm_collect (map (\<lambda>(i, v). (i, g v)) (filter (\<lambda>(_, v). q v) m))) k =
    (case map_of m k of Some v \<Rightarrow> if q v then Some (g v) else None | None \<Rightarrow> None)"
proof -
  have f: "filter (\<lambda>(_, v). q v) m = hm_retain (\<lambda>_ v. q v) m" by (simp add: hm_retain_def)
  have "hm_ok (map (\<lambda>(i, v). (i, g v)) (hm_retain (\<lambda>_ v. q v) m))"
    using hm_ok_retain [OF assms] by (simp add: hm_ok_def case_prod_unfold comp_def)
  then show ?thesis
    using assms by (simp add: f map_of_hm_collect_distinct map_of_map [unfolded map_prod_def]
        map_of_hm_retain split: option.split)
qed

text \<open>Lemma: the deadman. Whatever the history of the table, a control that is pinned in the snapshot the
  engine reads at an instant was taken or renewed within its time to live before that instant, and a
  fan that is held for identification was put on hold within its own. A client that stops renewing
  therefore loses every pin when its time to live has passed, with or without a sweep.\<close>

theorem pins_need_a_recent_grant:
  "(map_of (os_controls (snapshot now (ov_run ops table_new))) c = None \<or>
     (\<exists>op \<in> set ops. \<exists>s ttl. grants c op = Some (s, ttl) \<and> now < s + ttl)) \<and>
   (map_of (os_identify (snapshot now (ov_run ops table_new))) f = None \<or>
     (\<exists>op \<in> set ops. \<exists>s ttl. pins f op = Some (s, ttl) \<and> now < s + ttl))"
proof -
  let ?t = "ov_run ops table_new"
  have c: "map_of (os_controls (snapshot now ?t)) c = Some p \<Longrightarrow>
      \<exists>ov. map_of (ot_controls ?t) c = Some ov \<and> now < ov_expires_at ov" for p
    using ov_run_ok [of ops] by (auto simp: snapshot_def map_of_live split: option.splits if_splits)
  have f: "map_of (os_identify (snapshot now ?t)) f = Some p \<Longrightarrow>
      \<exists>e. map_of (ot_identify ?t) f = Some e \<and> now < id_expires_at e" for p
    using ov_run_ok [of ops] by (auto simp: snapshot_def map_of_live split: option.splits if_splits)
  show ?thesis
    using c f ov_run_expiry [of ops c] ov_run_pin_expiry [of ops f]
    by (metis not_None_eq)
qed

text \<open>Lemma: an identify never stops or under-drives a pump. For a pump the hold duty lies between the
  larger of the header's own pump floor and the hard floor, and 100, and it moves the pump upwards
  whenever there is headroom for the full step; any other fan is stopped. The header's floor is a
  percentage, as \<open>clamp\<close> requires.\<close>

theorem identify_target_is_safe:
  assumes "pump_floor \<le> 100"
  shows "identify_target_for_role role prev pump_floor =
     (let b = unwrap_or IDENTIFY_PUMP_BASELINE_FALLBACK_PCT prev; lo = max pump_floor 30 in
      if role \<noteq> Pump then (0, Stop)
      else if b + 25 \<le> 100 then (max lo (b + 25), PumpPerturb)
      else (max lo (min 100 (b - 25)), PumpPerturb)) \<and>
    (case identify_target_for_role role prev pump_floor of
       (target, PumpPerturb) \<Rightarrow> 30 \<le> target \<and> pump_floor \<le> target \<and> target \<le> 100
     | (target, Stop) \<Rightarrow> role \<noteq> Pump)"
  using assms
  by (auto simp: identify_target_for_role_def Let_def is_pump_def u8_clamp_def u8_sat_add_def
      IDENTIFY_PUMP_DELTA_PCT_def profile_consts)

theorem identify_target_is_safe_witness:
  "identify_target_for_role Pump None 70 = (85, PumpPerturb)"
  using identify_target_is_safe [of 70 Pump None]
  by (simp add: IDENTIFY_PUMP_BASELINE_FALLBACK_PCT_def)

text \<open>The step a pump is moved by can be smaller than the full one: at a baseline of 76 on a header
  with the DC floor it is six points.\<close>

lemma identify_small_step:
  "identify_target_for_role Pump (Some 76) (f64_to_u8 (pump_floor_pct (Some PWM_MODE_DC))) = (70, PumpPerturb)"
  by (simp add: identify_target_for_role_def Let_def is_pump_def u8_clamp_def u8_sat_add_def
      IDENTIFY_PUMP_DELTA_PCT_def profile_consts pump_floor_pct_def)

text \<open>Lemma: profile activation leaves no stopped pump behind. After \<open>release_identify_stops\<close> on the pump
  members of a profile no stop hold remains on any of them, every other hold is untouched, and the
  returned list names exactly the released fans.\<close>

theorem activation_releases_pump_stops:
  "let t = ov_run ops table_new; (released, t') = release_identify_stops fans t in
   (map_of (ot_identify t') f =
      (case map_of (ot_identify t) f of
         Some e \<Rightarrow> if id_mode e = Stop \<and> f \<in> fans then None else Some e
       | None \<Rightarrow> None)) \<and>
   (f \<in> set released \<longleftrightarrow> (\<exists>e. map_of (ot_identify t) f = Some e \<and> id_mode e = Stop \<and> f \<in> fans)) \<and>
   ot_controls t' = ot_controls t"
proof -
  have ok: "hm_ok (ot_identify (ov_run ops table_new))" using ov_run_ok by blast
  let ?m = "ot_identify (ov_run ops table_new)"
  have mem: "(f, e) \<in> set ?m \<longleftrightarrow> map_of ?m f = Some e" for e
    using ok by (simp add: hm_ok_def map_of_eq_Some_iff)
  have drop: "f \<in> set (dropped keep ?m) \<longleftrightarrow> (\<exists>e. map_of ?m f = Some e \<and> \<not> keep f e)" for keep
    by (auto simp: dropped_def image_iff simp flip: mem)
  show ?thesis
    using ok by (auto simp: release_identify_stops_def Let_def drop map_of_hm_retain split: option.splits)
qed

end
