(* ===== verification/Engine_State.thy ===== *)
theory Engine_State
  imports Thermal_Safety Skipped Control_Override
begin

text \<open>
  The cross-tick state of the profile engine (\<open>profile_engine/mod.rs\<close>, \<open>ProfileEngineState\<close>) and the
  methods that only move state: resets, deactivation, the skip bookkeeping and the snapshots. The
  evaluation itself is in \<open>Curve_Eval\<close>, \<open>Tuning\<close> and \<open>Profile_Engine\<close>. The hash set of controls
  already logged as partly undeliverable is a set; the \<open>Arc\<close>s are the values they hold.
\<close>

record PwmCommand =
  cmd_member_id :: string
  cmd_source :: string
  cmd_pwm_percent :: u8
  cmd_gpu_fan_zero_rpm :: bool

record StaticEvalCache =
  ec_order :: "nat list"
  ec_curve_index :: "(string, nat) hmap"

record HeaderFacts =
  hf_pwm_mode :: "u8 option"
  hf_inferred_role :: "HeaderRole \<times> RoleSource"

definition facts_default :: HeaderFacts where
  "facts_default = \<lparr>hf_pwm_mode = None, hf_inferred_role = (Unknown, NoEvidence)\<rparr>"

record ProfileEngineState =
  quarantined_sensor_ids :: "string list"
  es_last_output :: "(string, f64) hmap"
  es_last_curve_output :: "(string, f64) hmap"
  es_last_transition_temp :: "(string, f64) hmap"
  es_trigger_latch :: "(string, bool) hmap"
  es_deadband_hold_cycles :: "(string, u32) hmap"
  es_active_profile_id :: "string option"
  es_static_cache :: "StaticEvalCache option"
  es_skipped_this_tick :: "SkipRecord list"
  es_skipped_tracker :: SkippedControlTracker
  es_partial_delivery_logged :: "string set"
  es_tick_outputs :: "(string, f64) hmap"
  es_assigned_roles :: "(string, HeaderRole) hmap"
  es_header_facts :: "(string, HeaderFacts) hmap"

record ControlOutput =
  co_control_id :: string
  co_output_pct :: f64

definition engine_new :: ProfileEngineState where
  "engine_new = \<lparr>quarantined_sensor_ids = [], es_last_output = [], es_last_curve_output = [],
     es_last_transition_temp = [], es_trigger_latch = [], es_deadband_hold_cycles = [],
     es_active_profile_id = None, es_static_cache = None, es_skipped_this_tick = [],
     es_skipped_tracker = tracker_default, es_partial_delivery_logged = {}, es_tick_outputs = [],
     es_assigned_roles = [], es_header_facts = []\<rparr>"

definition set_header_facts :: "(string, HeaderFacts) hmap \<Rightarrow> ProfileEngineState \<Rightarrow> ProfileEngineState" where
  "set_header_facts facts st = st\<lparr>es_header_facts := facts\<rparr>"

definition set_assigned_roles :: "(string, HeaderRole) hmap \<Rightarrow> ProfileEngineState \<Rightarrow> ProfileEngineState" where
  "set_assigned_roles roles st = st\<lparr>es_assigned_roles := roles\<rparr>"

definition commit_skips :: "instant \<Rightarrow> ProfileEngineState \<Rightarrow> SkipEvent list \<times> ProfileEngineState" where
  "commit_skips now st =
     (let (events, tr) = record_tick (es_skipped_this_tick st) now (es_skipped_tracker st)
      in (events, st\<lparr>es_skipped_tracker := tr\<rparr>))"

definition backend_step :: "OverrideSnapshot \<Rightarrow> DeliveryTargets \<Rightarrow> LogicalControl \<Rightarrow>
    string list \<times> ProfileEngineState \<Rightarrow> string list \<times> ProfileEngineState" where
  "backend_step overrides targets control = (\<lambda>(partial_to_log, st).
     if hm_contains (os_controls overrides) (lc_id control) \<or>
        list_ex (\<lambda>r. sr_control_id r = lc_id control) (es_skipped_this_tick st)
     then (partial_to_log, st)
     else case control_deliverability control targets of
            NoneDeliverable \<Rightarrow>
              (partial_to_log,
               st\<lparr>es_skipped_this_tick := es_skipped_this_tick st @
                    [\<lparr>sr_control_id = lc_id control, sr_control_name = lc_name control,
                      sr_reason = BackendUnavailable\<rparr>],
                  es_tick_outputs := hm_remove (lc_id control) (es_tick_outputs st)\<rparr>)
          | PartialMembers \<Rightarrow>
              if lc_id control \<notin> es_partial_delivery_logged st
              then (partial_to_log @ [lc_id control],
                    st\<lparr>es_partial_delivery_logged := insert (lc_id control) (es_partial_delivery_logged st)\<rparr>)
              else (partial_to_log, st)
          | _ \<Rightarrow> (partial_to_log, st))"

definition note_backend_unavailable :: "DaemonProfile \<Rightarrow> OverrideSnapshot \<Rightarrow> DeliveryTargets \<Rightarrow>
    ProfileEngineState \<Rightarrow> string list \<times> ProfileEngineState" where
  "note_backend_unavailable profile overrides targets st =
     fold (backend_step overrides targets) (p_controls profile) ([], st)"

definition skipped_ids_this_tick :: "ProfileEngineState \<Rightarrow> string set" where
  "skipped_ids_this_tick st = set (map sr_control_id (es_skipped_this_tick st))"

definition skipped_snapshot :: "ProfileEngineState \<Rightarrow> SkippedControl list" where
  "skipped_snapshot st = tracker_snapshot (es_skipped_tracker st)"

definition outputs_snapshot :: "ProfileEngineState \<Rightarrow> ControlOutput list" where
  "outputs_snapshot st =
     sort_key co_control_id (map (\<lambda>(i, pct). \<lparr>co_control_id = i, co_output_pct = pct\<rparr>) (es_tick_outputs st))"

definition last_output :: "ProfileEngineState \<Rightarrow> string \<Rightarrow> f64 option" where
  "last_output st control_id = map_of (es_last_output st) control_id"

definition deactivate_tuning_only :: "ProfileEngineState \<Rightarrow> ProfileEngineState" where
  "deactivate_tuning_only st = st\<lparr>es_last_output := [], es_last_curve_output := [],
     es_last_transition_temp := [], es_trigger_latch := [], es_deadband_hold_cycles := [],
     es_active_profile_id := None, es_tick_outputs := [], es_static_cache := None\<rparr>"

definition reset_for_forced_tick :: "ProfileEngineState \<Rightarrow> ProfileEngineState" where
  "reset_for_forced_tick st = st\<lparr>es_last_output := [], es_tick_outputs := []\<rparr>"

definition deactivate :: "ProfileEngineState \<Rightarrow> ProfileEngineState" where
  "deactivate st = (deactivate_tuning_only st)\<lparr>es_skipped_this_tick := [],
     es_skipped_tracker := tracker_clear (es_skipped_tracker st), es_partial_delivery_logged := {}\<rparr>"

definition reset_control :: "string \<Rightarrow> ProfileEngineState \<Rightarrow> ProfileEngineState" where
  "reset_control control_id st =
     (let out = hm_remove control_id (es_last_output st) in
      st\<lparr>es_last_output := hm_retain (\<lambda>k _. \<not> prefix (control_id @ ''::m::'') k) out,
         es_last_curve_output := hm_remove control_id (es_last_curve_output st),
         es_last_transition_temp := hm_remove control_id (es_last_transition_temp st),
         es_trigger_latch := hm_remove control_id (es_trigger_latch st),
         es_deadband_hold_cycles := hm_remove control_id (es_deadband_hold_cycles st)\<rparr>)"

definition sync_profile_id :: "string \<Rightarrow> ProfileEngineState \<Rightarrow> bool \<times> ProfileEngineState" where
  "sync_profile_id new_id st =
     (let changed = (es_active_profile_id st \<noteq> Some new_id) in
      (changed,
       if changed then
         st\<lparr>es_last_output := [], es_last_curve_output := [], es_last_transition_temp := [],
            es_trigger_latch := [], es_deadband_hold_cycles := [],
            es_active_profile_id := Some new_id, es_static_cache := None\<rparr>
       else st))"

section \<open>Controls that cannot be delivered\<close>

definition undeliverable :: "OverrideSnapshot \<Rightarrow> DeliveryTargets \<Rightarrow> LogicalControl \<Rightarrow> bool" where
  "undeliverable overrides targets c =
     (\<not> hm_contains (os_controls overrides) (lc_id c) \<and> lc_members c \<noteq> [] \<and>
      list_all (\<lambda>m. \<not> member_is_deliverable m targets) (lc_members c))"

lemma none_deliverable_iff:
  "control_deliverability c targets = NoneDeliverable \<longleftrightarrow>
     lc_members c \<noteq> [] \<and> list_all (\<lambda>m. \<not> member_is_deliverable m targets) (lc_members c)"
  by (auto simp: control_deliverability_def Let_def filter_empty_conv list_all_iff)

lemma skipped_ids_code: "list_ex (\<lambda>r. sr_control_id r = i) (es_skipped_this_tick st) \<longleftrightarrow> i \<in> skipped_ids_this_tick st"
  by (auto simp: skipped_ids_this_tick_def list_ex_iff)

lemma backend_step_effect:
  assumes "backend_step ov tg c (lg, st) = (lg', st')"
  shows "skipped_ids_this_tick st' =
      skipped_ids_this_tick st \<union> (if undeliverable ov tg c then {lc_id c} else {})"
    and "map_of (es_tick_outputs st') i =
      (if i = lc_id c \<and> undeliverable ov tg c \<and> i \<notin> skipped_ids_this_tick st then None
       else map_of (es_tick_outputs st) i)"
  using assms none_deliverable_iff [of c tg]
  by (auto simp: backend_step_def undeliverable_def skipped_ids_code skipped_ids_this_tick_def
      split: Deliverability.splits if_splits)

lemma backend_fold_effect:
  "fold (backend_step ov tg) cs (lg, st) = (lg', st') \<Longrightarrow>
   skipped_ids_this_tick st' = skipped_ids_this_tick st \<union> lc_id ` {c \<in> set cs. undeliverable ov tg c} \<and>
   map_of (es_tick_outputs st') i =
     (if i \<notin> skipped_ids_this_tick st \<and> i \<in> lc_id ` {c \<in> set cs. undeliverable ov tg c} then None
      else map_of (es_tick_outputs st) i)"
proof (induction cs arbitrary: lg st)
  case (Cons c cs)
  obtain lg1 st1 where s: "backend_step ov tg c (lg, st) = (lg1, st1)" by (metis surj_pair)
  note e = backend_step_effect [OF s]
  have "fold (backend_step ov tg) cs (lg1, st1) = (lg', st')" using Cons.prems s by simp
  from Cons.IH [OF this] e show ?case by (auto split: if_splits)
qed simp

text \<open>Lemma: a control is never reported both as applied and as not commanded. When the outputs of a
  tick and its skips are disjoint, as the evaluator leaves them, they stay disjoint after the
  undeliverable controls are added to the skips; and a control is added exactly when it has
  members, none of which can be written, and it is not under a manual override.\<close>

theorem outputs_and_skips_stay_disjoint:
  assumes "set (map fst (es_tick_outputs st)) \<inter> skipped_ids_this_tick st = {}"
    and "note_backend_unavailable p ov tg st = (lg, st')"
  shows "dom (map_of (es_tick_outputs st')) \<inter> skipped_ids_this_tick st' = {} \<and>
    skipped_ids_this_tick st' = skipped_ids_this_tick st \<union>
      lc_id ` {c \<in> set (p_controls p). undeliverable ov tg c}"
proof -
  note e = backend_fold_effect [OF assms(2) [unfolded note_backend_unavailable_def]]
  have "map_of (es_tick_outputs st) i = None" if "i \<in> skipped_ids_this_tick st" for i
    using assms(1) that by (auto simp: map_of_eq_None_iff)
  with e show ?thesis by (auto simp: dom_def split: if_splits)
qed

definition sample_state :: ProfileEngineState where
  "sample_state = engine_new\<lparr>es_tick_outputs := [(''c'', Fin 40)]\<rparr>"

lemma sample_state_disjoint:
  "set (map fst (es_tick_outputs sample_state)) \<inter> skipped_ids_this_tick sample_state = {}"
  by (simp add: sample_state_def engine_new_def skipped_ids_this_tick_def)

theorem outputs_and_skips_stay_disjoint_witness:
  "dom (map_of (es_tick_outputs (snd (note_backend_unavailable sample_profile snapshot_default
       (delivery_backends False False) sample_state)))) \<inter>
   skipped_ids_this_tick (snd (note_backend_unavailable sample_profile snapshot_default
       (delivery_backends False False) sample_state)) = {}"
  using outputs_and_skips_stay_disjoint [OF sample_state_disjoint surjective_pairing] by blast

end
