(* ===== verification/Curve_Eval.thy ===== *)
theory Curve_Eval
  imports Engine_State
begin

text \<open>
  \<open>profile_engine/curve_eval.rs\<close>: the deadband, the trigger latch, Mix and Sync, the dispatcher and the
  topological order of controls. State is passed explicitly. The \<open>visited\<close> set of the Mix resolver is
  the current path and is restored on every exit, so it is an argument (a list, its length is the
  depth); the \<open>degraded\<close> flag is returned. The recursion ends because the path is capped.
\<close>

section \<open>Deadband and trigger\<close>

definition DEADBAND_ANCHOR_DELTA_PCT :: f64 where "DEADBAND_ANCHOR_DELTA_PCT = Fin (1 / 2)"
definition DEADBAND_MAX_HOLD_CYCLES :: u32 where "DEADBAND_MAX_HOLD_CYCLES = 30"

definition clamp_pct :: "f64 \<Rightarrow> f64" where
  "clamp_pct v = f64_clamp (Fin 0) (Fin 100) v"

text \<open>The tail of the function: re-evaluate, moving the anchor when the output moved enough.\<close>

definition deadband_reevaluate ::
    "LogicalControl \<Rightarrow> f64 \<Rightarrow> f64 \<Rightarrow> ProfileEngineState \<Rightarrow> f64 \<times> ProfileEngineState" where
  "deadband_reevaluate control curve_output current_temp st =
     (let prev_pwm = map_of (es_last_curve_output st) (lc_id control);
          st = st\<lparr>es_deadband_hold_cycles := hm_remove (lc_id control) (es_deadband_hold_cycles st)\<rparr>;
          move_anchor = (case prev_pwm of
              Some p \<Rightarrow> DEADBAND_ANCHOR_DELTA_PCT \<le> f64_abs (curve_output - p)
            | None \<Rightarrow> True);
          st = (if move_anchor
                then st\<lparr>es_last_transition_temp :=
                       hm_insert (lc_id control) current_temp (es_last_transition_temp st)\<rparr>
                else st)
      in (curve_output,
          st\<lparr>es_last_curve_output := hm_insert (lc_id control) curve_output (es_last_curve_output st)\<rparr>))"

definition evaluate_curve_with_deadband ::
    "LogicalControl \<Rightarrow> CurveConfig \<Rightarrow> f64 \<Rightarrow> ProfileEngineState \<Rightarrow> f64 \<times> ProfileEngineState" where
  "evaluate_curve_with_deadband control curve current_temp st =
     (let band = effective_hysteresis_c curve;
          curve_output = clamp_pct (evaluate_curve curve current_temp);
          prev_pwm = map_of (es_last_curve_output st) (lc_id control);
          prev_transition = map_of (es_last_transition_temp st) (lc_id control)
      in case (prev_pwm, prev_transition) of
           (Some prev_out, Some anchor) \<Rightarrow>
             (let in_band = (Fin 0 < band \<and> current_temp \<le> anchor \<and> anchor - band \<le> current_temp) in
              if in_band \<and> curve_output \<le> prev_out then
                (let held = u32_inc (unwrap_or 0 (map_of (es_deadband_hold_cycles st) (lc_id control)));
                     st' = st\<lparr>es_deadband_hold_cycles :=
                              hm_insert (lc_id control) held (es_deadband_hold_cycles st)\<rparr>
                 in if held < DEADBAND_MAX_HOLD_CYCLES then (prev_out, st')
                    else deadband_reevaluate control curve_output current_temp st')
              else deadband_reevaluate control curve_output current_temp st)
         | _ \<Rightarrow> deadband_reevaluate control curve_output current_temp st)"

definition evaluate_trigger ::
    "LogicalControl \<Rightarrow> CurveConfig \<Rightarrow> f64 \<Rightarrow> ProfileEngineState \<Rightarrow> f64 \<times> ProfileEngineState" where
  "evaluate_trigger control curve current_temp st =
     (let idle_temp = unwrap_or TRIGGER_IDLE_TEMP_C (trigger_idle_temp_c curve);
          load_temp = unwrap_or TRIGGER_LOAD_TEMP_C (trigger_load_temp_c curve);
          idle_pct = unwrap_or TRIGGER_IDLE_PCT (trigger_idle_pct curve);
          load_pct = unwrap_or TRIGGER_LOAD_PCT (trigger_load_pct curve);
          is_load = (case map_of (es_trigger_latch st) (lc_id control) of
              Some True \<Rightarrow> idle_temp < current_temp
            | _ \<Rightarrow> load_temp \<le> current_temp)
      in (if is_load then load_pct else idle_pct,
          st\<lparr>es_trigger_latch := hm_insert (lc_id control) is_load (es_trigger_latch st)\<rparr>))"

section \<open>Mix\<close>

definition f64_sum :: "f64 list \<Rightarrow> f64" where
  "f64_sum vs = foldl (+) (Fin 0) vs"

definition combine_mix :: "string \<Rightarrow> f64 list \<Rightarrow> f64" where
  "combine_mix function values =
     clamp_pct
       (if function = ''min'' then foldl f64_min PInf values
        else if function = ''average'' then f64_div (f64_sum values) (fl (of_nat (length values)))
        else if function = ''sum'' then f64_sum values
        else if function = ''subtract'' then hd values - f64_sum (tl values)
        else foldl f64_max NInf values)"

text \<open>\<open>values.iter().flatten()\<close>.\<close>

definition somes :: "'a option list \<Rightarrow> 'a list" where
  "somes vs = List.map_filter id vs"

definition combine_mix_partial :: "string \<Rightarrow> f64 option list \<Rightarrow> f64 option" where
  "combine_mix_partial function values =
     (if function = ''subtract'' then
        (case values of
           Some minuend # _ \<Rightarrow> Some (clamp_pct (minuend - f64_sum (somes (tl values))))
         | _ \<Rightarrow> None)
      else let present = somes values in
        if present = [] then None else Some (combine_mix function present))"

definition curve_sensor :: "sensors \<Rightarrow> string \<Rightarrow> string list \<Rightarrow> CachedSensorReading option" where
  "curve_sensor sensors sensor_id quarantined =
     (case map_of sensors sensor_id of
        Some s \<Rightarrow> Some s
      | None \<Rightarrow>
          (case parse_memory_id sensor_id of
             None \<Rightarrow> None
           | Some _ \<Rightarrow>
               (case resolve sensor_id (map fst sensors) quarantined of
                  None \<Rightarrow> None
                | Some live \<Rightarrow> map_of sensors live)))"

definition find_curve :: "DaemonProfile \<Rightarrow> string \<Rightarrow> CurveConfig option" where
  "find_curve profile i = find (\<lambda>c. cv_id c = i) (p_curves profile)"

function resolve_curve_output ::
      "CurveConfig \<Rightarrow> DaemonProfile \<Rightarrow> sensors \<Rightarrow> string list \<Rightarrow> string list \<Rightarrow> f64 option \<times> bool"
  and resolve_mix ::
      "CurveConfig \<Rightarrow> DaemonProfile \<Rightarrow> sensors \<Rightarrow> string list \<Rightarrow> string list \<Rightarrow> f64 option \<times> bool"
  and resolve_children ::
      "string list \<Rightarrow> DaemonProfile \<Rightarrow> sensors \<Rightarrow> string list \<Rightarrow> string list \<Rightarrow> f64 option list \<times> bool"
where
  "resolve_curve_output curve profile sensors quarantined visited =
     (if cv_type curve = ''mix'' then resolve_mix curve profile sensors quarantined visited
      else if cv_type curve = ''sync'' then (None, False)
      else if cv_type curve = ''flat'' then (Some (clamp_pct (flat_output curve)), False)
      else (map_option (\<lambda>s. clamp_pct (evaluate_curve curve (s_value_c s)))
              (curve_sensor sensors (cv_sensor_id curve) quarantined), False))"
| "resolve_mix curve profile sensors quarantined visited =
     (if cv_id curve \<in> set visited then (None, False)
      else if MAX_PROFILE_CURVES \<le> length visited then (None, False)
      else case resolve_children (mix_curve_ids curve) profile sensors quarantined (cv_id curve # visited) of
             (values, degraded) \<Rightarrow>
               (combine_mix_partial (unwrap_or ''max'' (mix_function curve)) values, degraded))"
| "resolve_children [] profile sensors quarantined visited = ([], False)"
| "resolve_children (child_id # ids) profile sensors quarantined visited =
     (case (case find_curve profile child_id of
              Some child \<Rightarrow> resolve_curve_output child profile sensors quarantined visited
            | None \<Rightarrow> (None, False)) of
        (resolved, degraded1) \<Rightarrow>
          (case resolve_children ids profile sensors quarantined visited of
             (values, degraded2) \<Rightarrow>
               (resolved # values, degraded1 \<or> resolved = None \<or> degraded2)))"
  by pat_completeness auto

termination
  by (relation "measures
        [\<lambda>x. MAX_PROFILE_CURVES - (case x of Inl (_, _, _, _, v) \<Rightarrow> length v
            | Inr (Inl (_, _, _, _, v)) \<Rightarrow> length v | Inr (Inr (_, _, _, _, v)) \<Rightarrow> length v),
         \<lambda>x. (case x of Inl _ \<Rightarrow> 1 | Inr (Inl _) \<Rightarrow> 0 | Inr (Inr (ids, _)) \<Rightarrow> 2 + length ids)]")
     auto

declare resolve_curve_output.simps [simp del] resolve_mix.simps [simp del]
  resolve_children.simps [simp del]

section \<open>Sync and the dispatcher\<close>

definition resolve_sync_output ::
    "LogicalControl \<Rightarrow> CurveConfig \<Rightarrow> (string, f64) hmap \<Rightarrow> f64 option" where
  "resolve_sync_output control curve tick_outputs =
     (if sync_control_id curve = [] \<or> sync_control_id curve = lc_id control then None
      else case map_of tick_outputs (sync_control_id curve) of
             None \<Rightarrow> None
           | Some target_output \<Rightarrow>
               Some (clamp_pct (target_output + unwrap_or (Fin 0) (sync_offset_pct curve))))"

definition curve_output_for_control ::
    "LogicalControl \<Rightarrow> CurveConfig \<Rightarrow> DaemonProfile \<Rightarrow> sensors \<Rightarrow> (string, f64) hmap \<Rightarrow>
     ProfileEngineState \<Rightarrow> f64 option \<times> ProfileEngineState" where
  "curve_output_for_control control curve profile sensors tick_outputs st =
     (if cv_type curve = ''mix'' then
        (case resolve_curve_output curve profile sensors (quarantined_sensor_ids st) [] of
           (None, _) \<Rightarrow> (None, st)
         | (Some value, degraded) \<Rightarrow>
             if \<not> degraded then (Some value, st)
             else (Some (case last_output st (lc_id control) of
                           Some prev \<Rightarrow> f64_max value prev
                         | None \<Rightarrow> value), st))
      else if cv_type curve = ''sync'' then (resolve_sync_output control curve tick_outputs, st)
      else if cv_type curve = ''flat'' then (Some (clamp_pct (flat_output curve)), st)
      else case curve_sensor sensors (cv_sensor_id curve) (quarantined_sensor_ids st) of
             None \<Rightarrow> (None, st)
           | Some sensor \<Rightarrow>
               (case (if cv_type curve = ''trigger''
                      then evaluate_trigger control curve (s_value_c sensor) st
                      else evaluate_curve_with_deadband control curve (s_value_c sensor) st) of
                  (v, st') \<Rightarrow> (Some v, st')))"

definition skip_reason :: "CurveConfig \<Rightarrow> SkipReason" where
  "skip_reason curve =
     (if cv_type curve = ''mix'' then MixUnresolvable
      else if cv_type curve = ''sync'' then SyncUnresolvable
      else SensorUnavailable)"

section \<open>Order of controls\<close>

definition sync_dependency :: "LogicalControl \<Rightarrow> DaemonProfile \<Rightarrow> string option" where
  "sync_dependency control profile =
     (if lc_mode control \<noteq> ''curve'' then None
      else case find_curve profile (lc_curve_id control) of
             None \<Rightarrow> None
           | Some curve \<Rightarrow>
               if cv_type curve \<noteq> ''sync'' then None
               else if sync_control_id curve = [] then None
               else Some (sync_control_id curve))"

record TopoState =
  topo_ordered :: "nat list"
  topo_emitted :: "bool list"
  topo_on_path :: "bool list"

function topo_visit ::
    "nat \<Rightarrow> DaemonProfile \<Rightarrow> (string, nat) hmap \<Rightarrow> nat \<Rightarrow> TopoState \<Rightarrow> TopoState" where
  "topo_visit idx profile id_to_idx depth st =
     (if topo_emitted st ! idx \<or> topo_on_path st ! idx then st
      else if MAX_PROFILE_CONTROLS \<le> depth then st
      else let st = st\<lparr>topo_on_path := (topo_on_path st)[idx := True]\<rparr>;
               st = (case sync_dependency (p_controls profile ! idx) profile of
                   Some dep_id \<Rightarrow>
                     (case map_of id_to_idx dep_id of
                        Some dep_idx \<Rightarrow>
                          if dep_idx \<noteq> idx then topo_visit dep_idx profile id_to_idx (depth + 1) st else st
                      | None \<Rightarrow> st)
                 | None \<Rightarrow> st);
               st = st\<lparr>topo_on_path := (topo_on_path st)[idx := False]\<rparr>
           in if \<not> topo_emitted st ! idx
              then st\<lparr>topo_emitted := (topo_emitted st)[idx := True], topo_ordered := topo_ordered st @ [idx]\<rparr>
              else st)"
  by pat_completeness auto

termination
  by (relation "measure (\<lambda>(idx, p, m, depth, st). MAX_PROFILE_CONTROLS - depth)") auto

declare topo_visit.simps [simp del]

definition topological_control_order :: "DaemonProfile \<Rightarrow> nat list" where
  "topological_control_order profile =
     (let id_to_idx = hm_collect (map (\<lambda>(i, c). (lc_id c, i)) (List.enumerate 0 (p_controls profile)));
          n = length (p_controls profile)
      in topo_ordered (fold (\<lambda>start st. topo_visit start profile id_to_idx 0 st) [0..<n]
           \<lparr>topo_ordered = [], topo_emitted = replicate n False, topo_on_path = replicate n False\<rparr>))"

section \<open>The deadband\<close>

lemma deadband_cases:
  "evaluate_curve_with_deadband control curve t st = (out, st') \<Longrightarrow>
     (out = clamp_pct (evaluate_curve curve t) \<and>
        map_of (es_deadband_hold_cycles st') (lc_id control) = None) \<or>
     (map_of (es_last_curve_output st) (lc_id control) = Some out \<and>
      clamp_pct (evaluate_curve curve t) \<le> out \<and>
      map_of (es_deadband_hold_cycles st') (lc_id control) =
        Some (u32_inc (unwrap_or 0 (map_of (es_deadband_hold_cycles st) (lc_id control)))) \<and>
      u32_inc (unwrap_or 0 (map_of (es_deadband_hold_cycles st) (lc_id control))) < DEADBAND_MAX_HOLD_CYCLES)"
  by (auto simp: evaluate_curve_with_deadband_def deadband_reevaluate_def Let_def
      split: option.splits if_splits)

text \<open>Lemma: the deadband only ever holds a fan higher. Whatever the curve, the state and the
  temperature, the output is the curve's own current output or a held one that is not below it.\<close>

theorem deadband_never_below_curve:
  "fst (evaluate_curve_with_deadband control curve t st) = clamp_pct (evaluate_curve curve t) \<or>
   clamp_pct (evaluate_curve curve t) \<le> fst (evaluate_curve_with_deadband control curve t st)"
  using deadband_cases [of control curve t st] by (metis prod.collapse)

primrec deadband_run ::
    "LogicalControl \<Rightarrow> CurveConfig \<Rightarrow> f64 list \<Rightarrow> ProfileEngineState \<Rightarrow> f64 list \<times> ProfileEngineState" where
  "deadband_run control curve [] st = ([], st)"
| "deadband_run control curve (t # ts) st =
     (let (out, st1) = evaluate_curve_with_deadband control curve t st;
          (outs, st2) = deadband_run control curve ts st1
      in (out # outs, st2))"

definition hold_count :: "LogicalControl \<Rightarrow> ProfileEngineState \<Rightarrow> nat" where
  "hold_count control st = unwrap_or 0 (map_of (es_deadband_hold_cycles st) (lc_id control))"

lemma deadband_hold_count:
  assumes "evaluate_curve_with_deadband control curve t st = (out, st')"
    and "hold_count control st < DEADBAND_MAX_HOLD_CYCLES"
  shows "hold_count control st' < DEADBAND_MAX_HOLD_CYCLES"
    and "out = clamp_pct (evaluate_curve curve t) \<or> hold_count control st' = Suc (hold_count control st)"
  using deadband_cases [OF assms(1)] assms(2) by (auto simp: hold_count_def DEADBAND_MAX_HOLD_CYCLES_def)

lemma deadband_run_count:
  "hold_count control st < DEADBAND_MAX_HOLD_CYCLES \<Longrightarrow>
     hold_count control (snd (deadband_run control curve ts st)) < DEADBAND_MAX_HOLD_CYCLES"
proof (induction ts arbitrary: st)
  case (Cons t ts)
  obtain out st1 where s: "evaluate_curve_with_deadband control curve t st = (out, st1)" by (metis surj_pair)
  show ?case using Cons.IH [OF deadband_hold_count(1) [OF s Cons.prems]] s
    by (simp add: split: prod.split) (metis snd_conv)
qed simp

lemma deadband_run_holds:
  assumes "hold_count control st < DEADBAND_MAX_HOLD_CYCLES"
    and "\<not> (\<exists>i < length ts. fst (deadband_run control curve ts st) ! i = clamp_pct (evaluate_curve curve (ts ! i)))"
  shows "hold_count control st + length ts < DEADBAND_MAX_HOLD_CYCLES"
  using assms
proof (induction ts arbitrary: st)
  case (Cons t ts)
  obtain out st1 where s: "evaluate_curve_with_deadband control curve t st = (out, st1)" by (metis surj_pair)
  obtain outs st2 where r: "deadband_run control curve ts st1 = (outs, st2)" by (metis surj_pair)
  have no: "out \<noteq> clamp_pct (evaluate_curve curve t)"
    using Cons.prems(2) s r by (auto dest!: spec [of _ 0])
  then have c: "hold_count control st1 = Suc (hold_count control st)"
    using deadband_hold_count(2) [OF s Cons.prems(1)] by blast
  have "\<not> (\<exists>i < length ts. outs ! i = clamp_pct (evaluate_curve curve (ts ! i)))"
    using Cons.prems(2) s r by (auto simp: Let_def)
  with Cons.IH [OF deadband_hold_count(1) [OF s Cons.prems(1)]] r c show ?case by simp
qed simp

text \<open>Lemma: the valve. In every history of a control's evaluations from start-up, among any thirty
  consecutive evaluations at least one yields the curve's own output at that temperature: a settled
  temperature cannot hold an old duty for longer.\<close>

theorem deadband_valve_opens:
  assumes "length window = DEADBAND_MAX_HOLD_CYCLES"
  shows "\<exists>i < length window.
    fst (deadband_run control curve window (snd (deadband_run control curve before engine_new))) ! i =
    clamp_pct (evaluate_curve curve (window ! i))"
proof (rule ccontr)
  let ?st = "snd (deadband_run control curve before engine_new)"
  assume no: "\<not> ?thesis"
  have "hold_count control ?st < DEADBAND_MAX_HOLD_CYCLES"
    by (rule deadband_run_count) (simp add: hold_count_def engine_new_def DEADBAND_MAX_HOLD_CYCLES_def)
  from deadband_run_holds [OF this no] assms show False by simp
qed

definition sample_control :: LogicalControl where
  "sample_control = \<lparr>lc_id = ''a'', lc_name = ''A'', lc_mode = ''curve'', lc_curve_id = ''c'',
     manual_output_pct = Fin 50, lc_members = [], step_up_pct = Fin 100, step_down_pct = Fin 100,
     offset_pct = Fin 0, minimum_pct = Fin 0, start_pct = Fin 0, stop_pct = Fin 0\<rparr>"

theorem deadband_valve_opens_witness:
  "\<exists>i < 30. fst (deadband_run sample_control sample_curve (replicate 30 (Fin 50))
      (snd (deadband_run sample_control sample_curve [] engine_new))) ! i =
    clamp_pct (evaluate_curve sample_curve (replicate 30 (Fin 50) ! i))"
  using deadband_valve_opens [of "replicate 30 (Fin 50)" sample_control sample_curve "[]"]
  by (simp add: DEADBAND_MAX_HOLD_CYCLES_def)

section \<open>Mix\<close>

text \<open>Lemma: a Mix with a missing input may raise its fans but never lower them. When some input of a
  Mix could not be resolved, the control's output is not below its last tuned output; when every
  input resolved it is the combination itself; and it is skipped exactly when no combination can be
  formed.\<close>

theorem degraded_mix_never_lowers:
  assumes "cv_type curve = ''mix''"
  shows "case resolve_curve_output curve profile sensors (quarantined_sensor_ids st) [] of
     (None, _) \<Rightarrow> curve_output_for_control control curve profile sensors outs st = (None, st)
   | (Some v, False) \<Rightarrow> curve_output_for_control control curve profile sensors outs st = (Some v, st)
   | (Some v, True) \<Rightarrow>
       (case last_output st (lc_id control) of
          None \<Rightarrow> curve_output_for_control control curve profile sensors outs st = (Some v, st)
        | Some prev \<Rightarrow>
            (\<exists>w. curve_output_for_control control curve profile sensors outs st = (Some w, st) \<and>
                 (w = v \<or> w = prev) \<and> (prev = NaN \<or> prev \<le> w) \<and> (v = NaN \<or> v \<le> w)))"
proof -
  obtain r d where r: "resolve_curve_output curve profile sensors (quarantined_sensor_ids st) [] = (r, d)"
    by (metis surj_pair)
  have mx: "f64_max v prev = v \<or> f64_max v prev = prev"
      "prev = NaN \<or> prev \<le> f64_max v prev" "v = NaN \<or> v \<le> f64_max v prev" for v prev
    using f64_max_upper f64_max_cases by blast+
  show ?thesis
    using assms r mx by (cases d) (auto simp: curve_output_for_control_def split: option.split)
qed

theorem degraded_mix_never_lowers_witness:
  "curve_output_for_control sample_control (sample_curve\<lparr>cv_type := ''mix'', mix_curve_ids := []\<rparr>)
     sample_profile [] [] engine_new = (None, engine_new)"
proof -
  let ?c = "sample_curve\<lparr>cv_type := ''mix'', mix_curve_ids := []\<rparr>"
  have "fst (resolve_curve_output ?c sample_profile [] (quarantined_sensor_ids engine_new) []) = None"
    by (code_simp)
  then show ?thesis
    using degraded_mix_never_lowers [where curve = ?c and profile = sample_profile and sensors = "[]"
      and st = engine_new and control = sample_control and outs = "[]"]
    by (auto split: prod.splits)
qed

section \<open>Every resolved output is a percentage\<close>

text \<open>A curve inside the numeric net, of physical temperatures and with a list of inputs whose length
  a 64-bit float can count.\<close>

definition curve_ok :: "CurveConfig \<Rightarrow> bool" where
  "curve_ok c = (curve_num_ok c \<and> curve_temps_sane c \<and> length (mix_curve_ids c) < 2 ^ 53)"

definition sensors_sane :: "sensors \<Rightarrow> bool" where
  "sensors_sane ss = list_all (\<lambda>(_, s). temp_sane (s_value_c s)) ss"

lemma clamp_pct_range: "v \<noteq> NaN \<Longrightarrow> pct_range (clamp_pct v)"
  by (cases v) (auto simp: clamp_pct_def f64_clamp_def pct_range_def)

lemma clamp_curve_range: "curve_ok c \<Longrightarrow> temp_sane t \<Longrightarrow> pct_range (clamp_pct (evaluate_curve c t))"
  by (rule clamp_pct_range, rule evaluate_curve_not_NaN) (simp_all add: curve_ok_def)

lemma flat_output_range: "curve_ok c \<Longrightarrow> pct_range (flat_output c)"
  using unwrap_or_cases [of pct_range] by (simp add: flat_output_def curve_ok_def curve_num_ok_def)

lemma curve_sensor_sane: "sensors_sane ss \<Longrightarrow> curve_sensor ss i q = Some s \<Longrightarrow> temp_sane (s_value_c s)"
  by (auto simp: curve_sensor_def sensors_sane_def list_all_iff dest!: map_of_SomeD split: option.splits)

definition sum_ok :: "f64 \<Rightarrow> bool" where
  "sum_ok v = (v = PInf \<or> (\<exists>r \<ge> 0. v = Fin r))"

lemma sum_ok_add: "sum_ok a \<Longrightarrow> pct_range b \<Longrightarrow> sum_ok (a + b)"
proof -
  assume "sum_ok a" "pct_range b"
  then obtain y where b: "b = Fin y" "0 \<le> y" by (cases b) (auto simp: pct_range_def)
  show ?thesis
  proof (cases "a = PInf")
    case False
    then obtain x where a: "a = Fin x" "0 \<le> x" using \<open>sum_ok a\<close> by (auto simp: sum_ok_def)
    have "Fin 0 \<le> fl (x + y)" using fl_mono [of 0 "x + y"] a b by simp
    then show ?thesis using a b by (cases "fl (x + y)") (auto simp: sum_ok_def)
  qed (use b in \<open>simp add: sum_ok_def\<close>)
qed

lemma f64_sum_ok: "list_all pct_range vs \<Longrightarrow> sum_ok (f64_sum vs)"
proof -
  have "sum_ok a \<Longrightarrow> list_all pct_range vs \<Longrightarrow> sum_ok (foldl (+) a vs)" for a
    by (induction vs arbitrary: a) (auto simp: sum_ok_add)
  then show "list_all pct_range vs \<Longrightarrow> ?thesis" by (simp add: f64_sum_def sum_ok_def)
qed

lemma foldl_f64_not_NaN:
  assumes "\<And>a b. a \<noteq> NaN \<Longrightarrow> b \<noteq> NaN \<Longrightarrow> g a b \<noteq> NaN" "a \<noteq> NaN" "list_all pct_range vs"
  shows "foldl g a vs \<noteq> NaN"
  using assms(2,3) by (induction vs arbitrary: a) (auto simp: assms(1) pct_range_not_NaN)

lemma average_not_NaN:
  assumes "list_all pct_range vs" "vs \<noteq> []" "length vs < 2 ^ 53"
  shows "f64_div (f64_sum vs) (fl (of_nat (length vs))) \<noteq> NaN"
proof -
  have "\<bar>int (length vs)\<bar> < 2 ^ 53" using assms(3) by simp
  then have "fl (of_int (int (length vs))) = Fin (of_int (int (length vs)))"
    by (intro fl_ok f64_of_int_ok)
  then have "fl (of_nat (length vs)) = Fin (of_nat (length vs))" by simp
  then show ?thesis
    using f64_sum_ok [OF assms(1)] assms(2) by (auto simp: sum_ok_def)
qed

lemma f64_minmax_not_NaN:
  "a \<noteq> NaN \<Longrightarrow> b \<noteq> NaN \<Longrightarrow> f64_min a b \<noteq> NaN" "a \<noteq> NaN \<Longrightarrow> b \<noteq> NaN \<Longrightarrow> f64_max a b \<noteq> NaN"
  by (auto simp: f64_min_def f64_max_def)

lemma pct_minus_sum_not_NaN: "pct_range a \<Longrightarrow> sum_ok b \<Longrightarrow> a - b \<noteq> NaN"
  by (cases a) (auto simp: pct_range_def sum_ok_def)

lemma combine_mix_range:
  assumes "list_all pct_range vs" "vs \<noteq> []" "length vs < 2 ^ 53"
  shows "pct_range (combine_mix function vs)"
proof -
  have tl: "list_all pct_range (tl vs)" "pct_range (hd vs)" using assms(1,2) by (cases vs; simp)+
  have "foldl f64_min PInf vs \<noteq> NaN" "foldl f64_max NInf vs \<noteq> NaN"
    using foldl_f64_not_NaN [OF f64_minmax_not_NaN(1) _ assms(1), where a = PInf]
      foldl_f64_not_NaN [OF f64_minmax_not_NaN(2) _ assms(1), where a = NInf] by simp_all
  moreover have "f64_sum vs \<noteq> NaN" using f64_sum_ok [OF assms(1)] by (auto simp: sum_ok_def)
  ultimately show ?thesis
    using average_not_NaN [OF assms] pct_minus_sum_not_NaN [OF tl(2) f64_sum_ok [OF tl(1)]]
    by (auto simp: combine_mix_def intro!: clamp_pct_range)
qed

lemma somes_range: "list_all (opt_all pct_range) vs \<Longrightarrow> list_all pct_range (somes vs)"
  by (induction vs) (auto simp: somes_def List.map_filter_simps opt_all_def split: option.splits)

lemma somes_length: "length (somes vs) \<le> length vs"
  by (induction vs) (auto simp: somes_def List.map_filter_simps split: option.splits)

lemma combine_mix_partial_range:
  assumes "list_all (opt_all pct_range) vs" "length vs < 2 ^ 53"
  shows "opt_all pct_range (combine_mix_partial function vs)"
proof (cases "function = ''subtract''")
  case True
  have "list_all pct_range (somes (tl vs))" using assms(1) by (cases vs) (auto intro: somes_range)
  then have "sum_ok (f64_sum (somes (tl vs)))" by (rule f64_sum_ok)
  then show ?thesis
    using True assms(1) pct_minus_sum_not_NaN [of _ "f64_sum (somes (tl vs))"]
    by (auto simp: combine_mix_partial_def opt_all_def clamp_pct_range split: list.split option.split)
next
  case False
  have "length (somes vs) < 2 ^ 53" using somes_length [of vs] assms(2) by linarith
  then show ?thesis
    using False combine_mix_range [OF somes_range [OF assms(1)]]
    by (auto simp: combine_mix_partial_def opt_all_def Let_def)
qed

lemma opt_all_simps [simp]: "opt_all P None" "opt_all P (Some v) = P v"
  by (simp_all add: opt_all_def)

lemma find_curve_mem: "find_curve p i = Some c \<Longrightarrow> c \<in> set (p_curves p)"
  by (auto simp: find_curve_def find_Some_iff)

lemma resolve_range:
  "curve_ok curve \<Longrightarrow> list_all curve_ok (p_curves profile) \<Longrightarrow> sensors_sane sensors \<Longrightarrow>
     opt_all pct_range (fst (resolve_curve_output curve profile sensors q visited))"
  "curve_ok curve \<Longrightarrow> list_all curve_ok (p_curves profile) \<Longrightarrow> sensors_sane sensors \<Longrightarrow>
     opt_all pct_range (fst (resolve_mix curve profile sensors q visited))"
  "list_all curve_ok (p_curves profile) \<Longrightarrow> sensors_sane sensors \<Longrightarrow>
     list_all (opt_all pct_range) (fst (resolve_children ids profile sensors q visited)) \<and>
     length (fst (resolve_children ids profile sensors q visited)) = length ids"
proof (induction curve profile sensors q visited and curve profile sensors q visited and
    ids profile sensors q visited
    rule: resolve_curve_output_resolve_mix_resolve_children.induct)
  case (1 curve profile sensors quarantined visited)
  then show ?case
    by (subst resolve_curve_output.simps)
       (auto simp: opt_all_def flat_output_range pct_range_not_NaN clamp_pct_range clamp_curve_range
         curve_sensor_sane split: option.split)
next
  case (2 curve profile sensors quarantined visited)
  obtain vs d where r: "resolve_children (mix_curve_ids curve) profile sensors quarantined
      (cv_id curve # visited) = (vs, d)" by (metis surj_pair)
  show ?case
  proof (cases "cv_id curve \<in> set visited \<or> MAX_PROFILE_CURVES \<le> length visited")
    case False
    then have "list_all (opt_all pct_range) vs" "length vs = length (mix_curve_ids curve)"
      using 2 r by auto
    moreover have "length (mix_curve_ids curve) < 2 ^ 53" using 2(2) by (simp add: curve_ok_def)
    ultimately show ?thesis
      using False r by (subst resolve_mix.simps) (simp add: combine_mix_partial_range)
  qed (auto simp: resolve_mix.simps opt_all_def)
next
  case (3 profile sensors quarantined visited)
  then show ?case by (simp add: resolve_children.simps)
next
  case (4 child_id ids profile sensors quarantined visited)
  obtain vs d where r: "resolve_children ids profile sensors quarantined visited = (vs, d)"
    by (metis surj_pair)
  have vs: "list_all (opt_all pct_range) vs \<and> length vs = length ids" using 4 r by (metis fst_conv surj_pair)
  show ?case
  proof (cases "find_curve profile child_id")
    case None
    then show ?thesis using r vs by (simp add: resolve_children.simps)
  next
    case (Some child)
    then have "curve_ok child" using 4(3) find_curve_mem by (auto simp: list_all_iff)
    then have "opt_all pct_range (fst (resolve_curve_output child profile sensors quarantined visited))"
      using 4 Some by blast
    then show ?thesis using r vs Some by (auto simp: resolve_children.simps split: prod.split)
  qed
qed

definition vals_ok :: "(string, f64) hmap \<Rightarrow> bool" where
  "vals_ok m = (\<forall>k v. map_of m k = Some v \<longrightarrow> pct_range v)"

lemma vals_ok_simps [simp]:
  "vals_ok []" "vals_ok m \<Longrightarrow> pct_range v \<Longrightarrow> vals_ok (hm_insert k v m)" "vals_ok m \<Longrightarrow> vals_ok (hm_remove k m)"
  by (auto simp: vals_ok_def)

lemma deadband_reevaluate_simps [simp]:
  "fst (deadband_reevaluate control v t st) = v"
  "es_last_output (snd (deadband_reevaluate control v t st)) = es_last_output st"
  "vals_ok (es_last_curve_output st) \<Longrightarrow> pct_range v \<Longrightarrow>
     vals_ok (es_last_curve_output (snd (deadband_reevaluate control v t st)))"
  by (auto simp: deadband_reevaluate_def Let_def)

lemma deadband_range:
  assumes "curve_ok curve" "temp_sane t" "vals_ok (es_last_curve_output st)"
    and "evaluate_curve_with_deadband control curve t st = (v, st')"
  shows "pct_range v" "vals_ok (es_last_curve_output st')" "es_last_output st' = es_last_output st"
proof -
  note c = clamp_curve_range [OF assms(1,2)]
  have re: "deadband_reevaluate control (clamp_pct (evaluate_curve curve t)) t s = (v, st') \<Longrightarrow>
      es_last_curve_output s = es_last_curve_output st \<Longrightarrow> es_last_output s = es_last_output st \<Longrightarrow>
      pct_range v \<and> vals_ok (es_last_curve_output st') \<and> es_last_output st' = es_last_output st" for s
    using c assms(3) deadband_reevaluate_simps [where control = control and v = "clamp_pct (evaluate_curve curve t)"
        and t = t and st = s] by auto
  have "pct_range v \<and> vals_ok (es_last_curve_output st') \<and> es_last_output st' = es_last_output st"
    using assms(3,4)
    by (auto simp: evaluate_curve_with_deadband_def Let_def vals_ok_def [of "es_last_curve_output st"]
        split: option.splits if_splits dest!: re)
  then show "pct_range v" "vals_ok (es_last_curve_output st')" "es_last_output st' = es_last_output st"
    by blast+
qed

lemma trigger_range:
  assumes "curve_ok curve" "evaluate_trigger control curve t st = (v, st')"
  shows "pct_range v" "es_last_curve_output st' = es_last_curve_output st" "es_last_output st' = es_last_output st"
proof -
  have "pct_range (unwrap_or TRIGGER_LOAD_PCT (trigger_load_pct curve))"
    "pct_range (unwrap_or TRIGGER_IDLE_PCT (trigger_idle_pct curve))"
    using assms(1) unwrap_or_cases [of pct_range] by (simp_all add: curve_ok_def curve_num_ok_def)
  then show "pct_range v" "es_last_curve_output st' = es_last_curve_output st"
    "es_last_output st' = es_last_output st"
    using assms(2) by (auto simp: evaluate_trigger_def Let_def split: if_splits)
qed

definition finite_vals :: "(string, f64) hmap \<Rightarrow> bool" where
  "finite_vals m = (\<forall>k v. map_of m k = Some v \<longrightarrow> is_finite v)"

lemma sync_range:
  assumes "curve_ok curve" "finite_vals outs" "resolve_sync_output control curve outs = Some v"
  shows "pct_range v"
proof -
  have "is_finite (unwrap_or (Fin 0) (sync_offset_pct curve))"
    using assms(1) unwrap_or_cases [of "\<lambda>v. is_finite v" "sync_offset_pct curve" "Fin 0"]
    by (auto simp: curve_ok_def curve_num_ok_def opt_all_def range_ok_def split: option.splits)
  then obtain o1 where o1: "unwrap_or (Fin 0) (sync_offset_pct curve) = Fin o1"
    by (cases "unwrap_or (Fin 0) (sync_offset_pct curve)") auto
  obtain w where w: "v = clamp_pct (w + Fin o1)" "is_finite w"
    using assms(2,3) o1 by (auto simp: resolve_sync_output_def finite_vals_def split: if_splits option.splits)
  obtain x where "w = Fin x" using w(2) by (cases w) auto
  then show ?thesis using w(1) by (simp add: clamp_pct_range)
qed

lemma f64_max_range: "pct_range a \<Longrightarrow> pct_range b \<Longrightarrow> pct_range (f64_max a b)"
  using f64_max_cases by metis

lemma curve_output_range:
  assumes ok: "curve_ok curve" "list_all curve_ok (p_curves profile)" "sensors_sane sensors"
    and st: "vals_ok (es_last_curve_output st)" "vals_ok (es_last_output st)" "finite_vals outs"
    and r: "curve_output_for_control control curve profile sensors outs st = (v, st')"
  shows "opt_all pct_range v \<and> vals_ok (es_last_curve_output st') \<and> es_last_output st' = es_last_output st"
proof -
  consider "cv_type curve = ''mix''" | "cv_type curve = ''sync''" | "cv_type curve = ''flat''"
    | "cv_type curve \<noteq> ''mix''" "cv_type curve \<noteq> ''sync''" "cv_type curve \<noteq> ''flat''" by blast
  then show ?thesis
  proof cases
    case 1
    then show ?thesis
      using resolve_range(1) [OF ok, of "quarantined_sensor_ids st" "[]"] st r
      by (auto simp: curve_output_for_control_def last_output_def vals_ok_def
          intro!: f64_max_range split: option.splits if_splits prod.splits)
  next
    case 2
    then show ?thesis using r st sync_range [OF ok(1) st(3)]
      by (cases v) (auto simp: curve_output_for_control_def)
  next
    case 3
    then show ?thesis using r st flat_output_range [OF ok(1)]
      by (auto simp: curve_output_for_control_def clamp_pct_range pct_range_not_NaN)
  next
    case 4
    show ?thesis
    proof (cases "curve_sensor sensors (cv_sensor_id curve) (quarantined_sensor_ids st)")
      case None
      then show ?thesis using 4 r st(1) by (auto simp: curve_output_for_control_def split: if_splits)
    next
      case (Some s)
      note t = curve_sensor_sane [OF ok(3) Some]
      show ?thesis
      proof (cases "cv_type curve = ''trigger''")
        case True
        then obtain w where "evaluate_trigger control curve (s_value_c s) st = (w, st')" "v = Some w"
          using 4 r Some by (auto simp: curve_output_for_control_def split: prod.splits)
        then show ?thesis using trigger_range [OF ok(1)] st(1) by simp
      next
        case False
        then obtain w where "evaluate_curve_with_deadband control curve (s_value_c s) st = (w, st')" "v = Some w"
          using 4 r Some by (auto simp: curve_output_for_control_def split: prod.splits)
        then show ?thesis using deadband_range [OF ok(1) t st(1)] by simp
      qed
    qed
  qed
qed

end
