(* ===== verification/Tuning.thy ===== *)
theory Tuning
  imports Curve_Eval
begin

text \<open>
  \<open>profile_engine/tuning.rs\<close>: the tuning pipeline (offset, floor, step rate, stop, start, clamp) and the
  per-member floor. All arithmetic is binary64; the proofs about the step-rate limiter rest on the
  rounding laws of \<open>Float64\<close>.
\<close>

section \<open>The pipeline\<close>

definition apply_tuning_with_floor ::
    "LogicalControl \<Rightarrow> f64 \<Rightarrow> f64 option \<Rightarrow> f64 \<Rightarrow> bool \<Rightarrow> f64" where
  "apply_tuning_with_floor control raw_output prev_output flr floor_is_hard =
     (let output = raw_output + offset_pct control;
          output = (if output < flr then flr else output);
          demand = output;
          output = (case prev_output of
              Some l \<Rightarrow>
                (let step_up = f64_max (step_up_pct control) (Fin 0);
                     step_down = f64_max (step_down_pct control) (Fin 0)
                 in f64_min (f64_max output (l - step_down)) (l + step_up))
            | None \<Rightarrow> output);
          output = (if \<not> floor_is_hard \<and> Fin 0 < stop_pct control \<and> output < stop_pct control
                    then Fin 0 else output);
          demand_wants_on = (Fin 0 < demand \<and>
            (floor_is_hard \<or> f64_eq (stop_pct control) (Fin 0) \<or> stop_pct control \<le> demand));
          output = (if demand_wants_on \<and>
                       (case prev_output of Some p \<Rightarrow> f64_eq p (Fin 0) | None \<Rightarrow> False) \<and>
                       Fin 0 < start_pct control
                    then f64_max output (start_pct control) else output)
      in f64_clamp (Fin 0) (Fin 100) output)"

definition apply_tuning :: "LogicalControl \<Rightarrow> f64 \<Rightarrow> f64 option \<Rightarrow> f64" where
  "apply_tuning control raw_output prev_output =
     apply_tuning_with_floor control raw_output prev_output (minimum_pct control) False"

definition member_pump_floor :: "ControlMember \<Rightarrow> (string, HeaderRole) hmap \<Rightarrow>
    (string, HeaderFacts) hmap \<Rightarrow> f64 option" where
  "member_pump_floor member assigned_roles header_facts =
     (if cm_source member \<noteq> ''hwmon'' then None
      else let facts = unwrap_or facts_default (map_of header_facts (cm_member_id member)) in
        if is_pump_protected (map_of assigned_roles (cm_member_id member)) (hf_inferred_role facts)
             (member_label_names_pump member)
        then Some (pump_floor_pct (hf_pwm_mode facts)) else None)"

definition member_effective_floor :: "LogicalControl \<Rightarrow> ControlMember \<Rightarrow> (string, HeaderRole) hmap \<Rightarrow>
    (string, HeaderFacts) hmap \<Rightarrow> f64" where
  "member_effective_floor control member assigned_roles header_facts =
     (if member_is_gpu member then Fin 0
      else let flr = minimum_pct control;
               flr = (if member_needs_hard_floor member \<or> assigned_role_earns_hard_floor member assigned_roles
                        then f64_max flr HARD_PUMP_CPU_FLOOR_PCT else flr)
           in case member_pump_floor member assigned_roles header_facts of
                Some pump_floor \<Rightarrow> f64_max flr pump_floor
              | None \<Rightarrow> flr)"

section \<open>Bounds\<close>

text \<open>A percentage that binary64 can hold.\<close>

definition pct_ok :: "f64 \<Rightarrow> bool" where
  "pct_ok v = (pct_range v \<and> f64_ok v)"

definition control_ok :: "LogicalControl \<Rightarrow> bool" where
  "control_ok c = (control_num_ok c \<and> f64_ok (minimum_pct c) \<and> f64_ok (start_pct c))"

lemma pct_okE: assumes "pct_ok v" obtains r where "v = Fin r" "0 \<le> r" "r \<le> 100" "f64_ok (Fin r)"
  using assms by (cases v) (auto simp: pct_ok_def pct_range_def)

lemma pct_ok_consts [simp]: "pct_ok (Fin 0)" "pct_ok (Fin 100)" "pct_ok HARD_PUMP_CPU_FLOOR_PCT"
    "pct_ok DC_PUMP_FLOOR_PCT"
  by (simp_all add: pct_ok_def pct_range_def profile_consts del: f64_ok.simps)

lemma f64_ok_minmax: "f64_ok a \<Longrightarrow> f64_ok b \<Longrightarrow> f64_ok (f64_max a b)" "f64_ok a \<Longrightarrow> f64_ok b \<Longrightarrow> f64_ok (f64_min a b)"
  by (simp_all add: f64_max_def f64_min_def)

lemma f64_ok_clamp: "f64_ok v \<Longrightarrow> f64_ok (f64_clamp (Fin 0) (Fin 100) v)"
  by (simp add: f64_clamp_def del: f64_ok.simps)

lemma pct_ok_max: "pct_ok a \<Longrightarrow> pct_ok b \<Longrightarrow> pct_ok (f64_max a b)"
  using f64_max_cases by metis

lemma pump_floor_ok: "pct_ok (pump_floor_pct mode)" "HARD_PUMP_CPU_FLOOR_PCT \<le> pump_floor_pct mode"
  by (simp_all add: pump_floor_pct_def) (simp add: profile_consts)

lemma f64_max_ge: "a \<noteq> NaN \<Longrightarrow> b \<noteq> NaN \<Longrightarrow> c \<le> a \<or> c \<le> b \<Longrightarrow> c \<le> f64_max a b"
  by (cases a; cases b; cases c) (auto simp: f64_max_def)

lemma f64_min_ge: "c \<le> a \<Longrightarrow> c \<le> b \<Longrightarrow> c \<le> f64_min a b"
  by (auto simp: f64_min_def)

lemma pct_ok_not_NaN: "pct_ok v \<Longrightarrow> v \<noteq> NaN"
  by (auto simp: pct_ok_def pct_range_def)

lemma effective_floor_ok: "control_ok c \<Longrightarrow> pct_ok (member_effective_floor c m roles facts)"
  by (auto simp: member_effective_floor_def member_pump_floor_def Let_def control_ok_def control_num_ok_def
      pump_floor_ok intro!: pct_ok_max split: option.splits if_splits)
     (simp_all add: pct_ok_def)

definition floor_is_hard :: "ControlMember \<Rightarrow> (string, HeaderRole) hmap \<Rightarrow> (string, HeaderFacts) hmap \<Rightarrow> bool" where
  "floor_is_hard m roles facts = (member_needs_hard_floor m \<or> assigned_role_earns_hard_floor m roles \<or>
     member_pump_floor m roles facts \<noteq> None)"

lemma hard_not_gpu: "floor_is_hard m roles facts \<Longrightarrow> \<not> member_is_gpu m"
  by (auto simp: floor_is_hard_def member_needs_hard_floor_def member_is_pump_or_cpu_def
      assigned_role_earns_hard_floor_def source_takes_role_def member_pump_floor_def member_is_gpu_def
      member_is_gpu_source_def split: if_splits)

lemma effective_floor_hard:
  assumes "control_ok c" "floor_is_hard m roles facts"
  shows "HARD_PUMP_CPU_FLOOR_PCT \<le> member_effective_floor c m roles facts"
proof -
  have min: "minimum_pct c \<noteq> NaN" using assms(1) by (auto simp: control_ok_def control_num_ok_def pct_range_def)
  have n: "HARD_PUMP_CPU_FLOOR_PCT \<noteq> NaN" "HARD_PUMP_CPU_FLOOR_PCT \<le> HARD_PUMP_CPU_FLOOR_PCT"
    by (simp_all add: profile_consts)
  have p: "member_pump_floor m roles facts = Some v \<Longrightarrow> v \<noteq> NaN \<and> HARD_PUMP_CPU_FLOOR_PCT \<le> v" for v
    using pump_floor_ok pct_ok_not_NaN by (auto simp: member_pump_floor_def Let_def split: if_splits)
  show ?thesis
    using hard_not_gpu [OF assms(2)] assms(2) p min n
    by (auto simp: member_effective_floor_def floor_is_hard_def Let_def f64_minmax_not_NaN
        split: option.splits intro!: f64_max_ge)
qed

lemma floor_soft_eq:
  "\<not> floor_is_hard m roles facts \<Longrightarrow> \<not> member_is_gpu m \<Longrightarrow> member_effective_floor c m roles facts = minimum_pct c"
  by (simp add: member_effective_floor_def floor_is_hard_def)

text \<open>The value before the final clamp, and that it is a number.\<close>

lemma tuning_ok:
  assumes "control_ok c" "raw \<noteq> NaN" "pct_ok flr" "opt_all pct_ok prev"
  shows "pct_ok (apply_tuning_with_floor c raw prev flr hard)"
proof -
  have off: "is_finite (offset_pct c)" using assms(1) by (simp add: control_ok_def control_num_ok_def range_ok_def)
  have sum: "raw + offset_pct c \<noteq> NaN" using assms(2) off by (cases raw; cases "offset_pct c") auto
  have st: "pct_range (start_pct c)" "f64_ok (start_pct c)" using assms(1) by (simp_all add: control_ok_def control_num_ok_def)
  define o1 where "o1 = (if raw + offset_pct c < flr then flr else raw + offset_pct c)"
  have o1: "o1 \<noteq> NaN" "f64_ok o1" using sum assms(3) by (auto simp: o1_def pct_ok_def pct_range_def)
  define o2 where "o2 = (case prev of Some l \<Rightarrow>
      f64_min (f64_max o1 (l - f64_max (step_down_pct c) (Fin 0))) (l + f64_max (step_up_pct c) (Fin 0)) | None \<Rightarrow> o1)"
  have o2: "o2 \<noteq> NaN" "f64_ok o2"
  proof -
    have "f64_max (f64_max o1 x) y \<noteq> NaN" "f64_max o1 x \<noteq> NaN" "f64_min (f64_max o1 x) y \<noteq> NaN" for x y
      using o1(1) by (auto simp: f64_max_def f64_min_def)
    then show "o2 \<noteq> NaN" "f64_ok o2"
      using o1 by (auto simp: o2_def intro!: f64_ok_minmax split: option.split)
  qed
  define o3 where "o3 = (if \<not> hard \<and> Fin 0 < stop_pct c \<and> o2 < stop_pct c then Fin 0 else o2)"
  have o3: "o3 \<noteq> NaN" "f64_ok o3" using o2 by (simp_all add: o3_def del: f64_ok.simps)
  have fin: "f64_ok x \<Longrightarrow> x \<noteq> NaN \<Longrightarrow> pct_ok (f64_clamp (Fin 0) (Fin 100) x)" for x
    using clamp_pct_range [of x] f64_ok_clamp [of x] by (simp add: pct_ok_def clamp_pct_def)
  have o4: "f64_max o3 (start_pct c) \<noteq> NaN" "f64_ok (f64_max o3 (start_pct c))"
    using o3 st by (auto simp: f64_ok_minmax f64_max_def)
  show ?thesis
    unfolding apply_tuning_with_floor_def Let_def o1_def [symmetric] o2_def [symmetric] o3_def [symmetric]
    using fin o3 o4 by auto
qed

lemma tuning_lower_bound:
  assumes "control_ok c" "raw \<noteq> NaN" "pct_ok flr" "opt_all pct_ok prev"
    and "lo \<le> flr" "opt_all (\<lambda>l. lo \<le> l) prev" "Fin 0 \<le> lo"
  shows "lo \<le> apply_tuning_with_floor c raw prev flr True"
proof -
  have off: "is_finite (offset_pct c)" using assms(1) by (simp add: control_ok_def control_num_ok_def range_ok_def)
  have sum: "raw + offset_pct c \<noteq> NaN" using assms(2) off by (cases raw; cases "offset_pct c") auto
  define o1 where "o1 = (if raw + offset_pct c < flr then flr else raw + offset_pct c)"
  have "flr \<noteq> NaN" using assms(3) by (rule pct_ok_not_NaN)
  then have o1: "o1 \<noteq> NaN" "lo \<le> o1"
    using sum assms(5) f64_le_trans f64_not_le [of flr "raw + offset_pct c"] by (auto simp: o1_def)
  define o2 where "o2 = (case prev of Some l \<Rightarrow>
      f64_min (f64_max o1 (l - f64_max (step_down_pct c) (Fin 0))) (l + f64_max (step_up_pct c) (Fin 0)) | None \<Rightarrow> o1)"
  have o2: "lo \<le> o2"
  proof (cases prev)
    case (Some l)
    then obtain r where l: "l = Fin r" "f64_ok (Fin r)" "lo \<le> Fin r"
      using assms(4,6) by (auto elim: pct_okE)
    have "Fin 0 \<le> f64_max (step_up_pct c) (Fin 0)" by (cases "step_up_pct c") (auto simp: f64_max_def)
    then have up: "lo \<le> l + f64_max (step_up_pct c) (Fin 0)"
      using f64_le_add [OF l(2)] l(1,3) f64_le_trans by blast
    have "lo \<le> f64_max o1 x" for x using o1 f64_max_ge [of o1 x lo] by (cases x) (auto simp: f64_max_def)
    then show ?thesis using up Some by (auto simp: o2_def intro: f64_min_ge)
  qed (use o1 in \<open>simp add: o2_def\<close>)
  have cl: "lo \<le> x \<Longrightarrow> lo \<le> f64_clamp (Fin 0) (Fin 100) x" for x
    using assms(3,5,7) by (cases x; cases lo; cases flr) (auto simp: f64_clamp_def pct_ok_def pct_range_def)
  have "lo \<le> f64_max o2 (start_pct c)"
    using o2 assms(1) by (intro f64_max_ge) (auto simp: control_ok_def control_num_ok_def pct_range_def)
  then show ?thesis
    unfolding apply_tuning_with_floor_def Let_def o1_def [symmetric] o2_def [symmetric]
    using cl o2 by auto
qed

section \<open>Properties\<close>

text \<open>Lemma: a pump or CPU fan is never tuned below its hard floor. On the hard path the pipeline's result
  is a percentage, and it is at least every bound that the floor and the previous output both meet:
  offset, step-rate limit in either direction, stop threshold, start kick and the rounding of each
  binary64 operation cannot take it lower.\<close>

theorem hard_floor_is_kept:
  assumes "control_ok c" "raw \<noteq> NaN" "pct_ok flr" "opt_all pct_ok prev"
    and "Fin 0 \<le> lo" "lo \<le> flr" "opt_all (\<lambda>l. lo \<le> l) prev"
  shows "pct_range (apply_tuning_with_floor c raw prev flr True) \<and>
    lo \<le> apply_tuning_with_floor c raw prev flr True"
  using tuning_ok [OF assms(1-4), of True] tuning_lower_bound [OF assms(1-4,6,7,5)]
  by (simp add: pct_ok_def)

lemma sample_control_ok: "control_ok sample_control"
  by (simp add: control_ok_def control_num_ok_def sample_control_def pct_range_def range_ok_def
      del: f64_ok.simps)

theorem hard_floor_is_kept_witness:
  "Fin 30 \<le> apply_tuning_with_floor sample_control (Fin 10) (Some (Fin 40)) (Fin 30) True"
  using hard_floor_is_kept [OF sample_control_ok, of "Fin 10" "Fin 30" "Some (Fin 40)" "Fin 30"]
  by (simp add: pct_ok_def pct_range_def del: f64_ok.simps)

text \<open>Lemma: the step-rate limits hold exactly in binary64. Without start and stop thresholds the tuned
  output moves from the previous one by at most the configured steps, and never leaves the range 0
  to 100.\<close>

theorem step_rate_is_limited:
  assumes "control_ok c" "raw \<noteq> NaN" "pct_ok flr" "pct_ok l"
    and "f64_eq (start_pct c) (Fin 0)" "f64_eq (stop_pct c) (Fin 0)"
  shows "f64_clamp (Fin 0) (Fin 100) (l - step_down_pct c) \<le> apply_tuning_with_floor c raw (Some l) flr hard \<and>
    apply_tuning_with_floor c raw (Some l) flr hard \<le> f64_clamp (Fin 0) (Fin 100) (l + step_up_pct c)"
proof -
  obtain r where l: "l = Fin r" "0 \<le> r" "r \<le> 100" "f64_ok (Fin r)" using assms(4) by (rule pct_okE)
  obtain u d where ud: "step_up_pct c = Fin u" "step_down_pct c = Fin d" "0 \<le> u" "0 \<le> d"
    using assms(1) by (cases "step_up_pct c"; cases "step_down_pct c")
      (auto simp: control_ok_def control_num_ok_def pct_range_def)
  have off: "is_finite (offset_pct c)" using assms(1) by (simp add: control_ok_def control_num_ok_def range_ok_def)
  have sum: "raw + offset_pct c \<noteq> NaN" using assms(2) off by (cases raw; cases "offset_pct c") auto
  define o1 where "o1 = (if raw + offset_pct c < flr then flr else raw + offset_pct c)"
  have o1: "o1 \<noteq> NaN" using sum assms(3) pct_ok_not_NaN by (auto simp: o1_def)
  have mono: "x \<le> y \<Longrightarrow> f64_clamp (Fin 0) (Fin 100) x \<le> f64_clamp (Fin 0) (Fin 100) y" for x y
    by (cases x; cases y) (auto simp: f64_clamp_def)
  have caps: "f64_max (Fin u) (Fin 0) = Fin u" "f64_max (Fin d) (Fin 0) = Fin d"
    using ud(3,4) by (auto simp: f64_max_def)
  have le: "l - Fin d \<le> l" "l \<le> l + Fin u" 
    using f64_sub_le [OF l(4), of "Fin d"] f64_le_add [OF l(4), of "Fin u"] ud(3,4) l(1) by simp_all
  then have nn: "l - Fin d \<noteq> NaN" "l + Fin u \<noteq> NaN" by auto
  have lo: "l - Fin d \<le> f64_min (f64_max o1 (l - Fin d)) (l + Fin u)"
    using f64_max_upper(2) [OF nn(1)] le f64_le_trans by (intro f64_min_ge) blast+
  have hi: "f64_min (f64_max o1 (l - Fin d)) (l + Fin u) \<le> l + Fin u"
    using nn o1 by (cases "l + Fin u"; cases "f64_max o1 (l - Fin d)") (auto simp: f64_min_def f64_max_def)
  have "\<not> Fin 0 < stop_pct c" "\<not> Fin 0 < start_pct c"
    using assms(5,6) by (cases "stop_pct c"; cases "start_pct c"; auto simp: f64_eq_def)+
  then have "apply_tuning_with_floor c raw (Some l) flr hard =
      f64_clamp (Fin 0) (Fin 100) (f64_min (f64_max o1 (l - Fin d)) (l + Fin u))"
    unfolding apply_tuning_with_floor_def Let_def o1_def [symmetric] by (simp add: ud(1,2) caps)
  then show ?thesis using mono [OF lo] mono [OF hi] by (simp add: ud)
qed

theorem step_rate_is_limited_witness:
  "apply_tuning_with_floor (sample_control\<lparr>step_up_pct := Fin 5\<rparr>) (Fin 90) (Some (Fin 40)) (Fin 0) False
     \<le> f64_clamp (Fin 0) (Fin 100) (Fin 40 + Fin 5)"
proof -
  have "control_ok (sample_control\<lparr>step_up_pct := Fin 5\<rparr>)"
    by (simp add: control_ok_def control_num_ok_def sample_control_def pct_range_def range_ok_def
        del: f64_ok.simps)
  then show ?thesis
    using step_rate_is_limited [of "sample_control\<lparr>step_up_pct := Fin 5\<rparr>" "Fin 90" "Fin 0" "Fin 40" False]
    by (simp add: sample_control_def f64_eq_def pct_ok_def pct_range_def del: f64_ok.simps)
qed

text \<open>One step of the limiter below a floor that it cannot reach in one step.\<close>

lemma tuning_below_floor:
  assumes "control_ok c" "raw \<noteq> NaN" "pct_ok flr" "pct_ok l" "Fin 0 < l"
  defines "s \<equiv> f64_max (step_up_pct c) (Fin 0)"
  assumes "l + s \<le> flr"
  shows "apply_tuning_with_floor c raw (Some l) flr True = l + s" "Fin 0 < l + s" "pct_ok (l + s)"
proof -
  obtain r where l: "l = Fin r" "0 < r" "f64_ok (Fin r)" using assms(4,5) by (auto elim: pct_okE)
  have s: "Fin 0 \<le> s" by (cases "step_up_pct c") (auto simp: s_def f64_max_def)
  have up: "l \<le> l + s" using f64_le_add [OF l(3) s] l(1) by simp
  have hi: "flr \<le> Fin 100" using assms(3) by (auto simp: pct_ok_def pct_range_def)
  show pos: "Fin 0 < l + s" using up l(1,2) by (cases "l + s") auto
  obtain q where q: "l + s = Fin q" "0 < q" "q \<le> 100" using pos assms(7) hi by (cases "l + s"; cases flr) auto
  have "f64_ok (l + s)" by (rule f64_ok_add)
  then show "pct_ok (l + s)" using q by (simp add: pct_ok_def pct_range_def del: f64_ok.simps f64_ok_add)
  have off: "is_finite (offset_pct c)" using assms(1) by (simp add: control_ok_def control_num_ok_def range_ok_def)
  have sum: "raw + offset_pct c \<noteq> NaN" using assms(2) off by (cases raw; cases "offset_pct c") auto
  define o1 where "o1 = (if raw + offset_pct c < flr then flr else raw + offset_pct c)"
  have o1: "o1 \<noteq> NaN" "l + s \<le> o1"
    using sum assms(7) f64_le_trans f64_not_le [of flr "raw + offset_pct c"] pct_ok_not_NaN [OF assms(3)]
    by (auto simp: o1_def)
  have cap: "f64_min (f64_max o1 x) (Fin q) = Fin q" for x
    using o1 q by (cases o1; cases x) (auto simp: f64_max_def f64_min_def)
  have "\<not> f64_eq l (Fin 0)" using l by (simp add: f64_eq_def)
  then show "apply_tuning_with_floor c raw (Some l) flr True = l + s"
    unfolding apply_tuning_with_floor_def Let_def o1_def [symmetric] s_def [symmetric]
    using q by (simp add: q(1) cap f64_clamp_def)
qed

text \<open>The steps add up, and each stays at or above where it started.\<close>

lemma add_step_ge: "f64_ok v \<Longrightarrow> Fin r \<le> v \<Longrightarrow> Fin 0 \<le> s \<Longrightarrow> v \<le> v + s"
  using f64_le_add [of _ s] by (cases v; cases s) simp_all

lemma iterated_add_ge:
  assumes "Fin 0 \<le> s" "f64_ok l" "Fin r \<le> l"
  shows "l \<le> ((\<lambda>v. v + s) ^^ n) l"
proof (induction n)
  case (Suc n)
  let ?v = "((\<lambda>v. v + s) ^^ n) l"
  have ok: "f64_ok ?v" using assms(2) by (cases n) simp_all
  have "?v \<le> ?v + s" using add_step_ge [OF ok _ assms(1)] f64_le_trans [OF assms(3) Suc] by blast
  then show ?case using f64_le_trans [OF Suc] by simp
qed (use assms(3) in \<open>cases l; simp\<close>)

lemma tuning_steps_below_floor:
  assumes "control_ok c" "pct_ok flr"
  defines "s \<equiv> f64_max (step_up_pct c) (Fin 0)"
  shows "list_all (\<lambda>raw. raw \<noteq> NaN) raws \<Longrightarrow> pct_ok l \<Longrightarrow> Fin 0 < l \<Longrightarrow>
    ((\<lambda>v. v + s) ^^ length raws) l \<le> flr \<Longrightarrow>
    fold (\<lambda>raw prev. apply_tuning_with_floor c raw (Some prev) flr True) raws l = ((\<lambda>v. v + s) ^^ length raws) l"
proof (induction raws arbitrary: l)
  case (Cons raw raws)
  have s: "Fin 0 \<le> s" by (cases "step_up_pct c") (auto simp: s_def f64_max_def)
  have it: "((\<lambda>v. v + s) ^^ length (raw # raws)) l = ((\<lambda>v. v + s) ^^ length raws) (l + s)"
    unfolding length_Cons funpow_Suc_right by simp
  have ge: "Fin 0 \<le> l + s"
    using add_step_ge [of l 0 s] s Cons.prems(2) f64_le_trans [of "Fin 0" l "l + s"]
    by (simp add: pct_ok_def pct_range_def del: f64_ok.simps)
  have "l + s \<le> ((\<lambda>v. v + s) ^^ length raws) (l + s)"
    by (rule iterated_add_ge [OF s f64_ok_add ge])
  then have "l + s \<le> flr" using Cons.prems(4) f64_le_trans unfolding it by blast
  note step = tuning_below_floor [OF assms(1) _ assms(2) Cons.prems(2,3), of raw, folded s_def, OF _ this]
  have "fold (\<lambda>raw prev. apply_tuning_with_floor c raw (Some prev) flr True) raws (l + s) =
      ((\<lambda>v. v + s) ^^ length raws) (l + s)"
    by (rule Cons.IH) (use Cons.prems(1,4) step it in simp_all)
  then show ?case using step(1) Cons.prems(1) it by simp
qed simp

lemma iterated_add_zero: "f64_ok l \<Longrightarrow> l + Fin 0 = l" for l :: f64
  by (cases l) (simp_all add: plus_f64_def fl_ok)

text \<open>C39: a floor that rises while a hard-floored member is running is only approached at the step-up
  rate, because the floor is applied before the step-rate limit. Whatever the demand of each
  evaluation, the offset, the thresholds and the new floor, the output after \<open>n\<close> evaluations is exactly
  the running one plus \<open>n\<close> steps up (each a binary64 addition) for as long as that does not pass the new
  floor; with a step of zero it never moves, however far below the floor it is.\<close>

theorem raised_floor_is_rate_limited:
  assumes "control_ok c" "pct_ok flr" "pct_ok l" "Fin 0 < l" "list_all (\<lambda>raw. raw \<noteq> NaN) raws"
  defines "s \<equiv> f64_max (step_up_pct c) (Fin 0)"
    and "out \<equiv> fold (\<lambda>raw prev. apply_tuning_with_floor c raw (Some prev) flr True) raws l"
  shows "(((\<lambda>v. v + s) ^^ length raws) l \<le> flr \<longrightarrow> out = ((\<lambda>v. v + s) ^^ length raws) l) \<and>
    (f64_eq (step_up_pct c) (Fin 0) \<and> l \<le> flr \<longrightarrow> out = l)"
proof -
  have a: "((\<lambda>v. v + s) ^^ length raws) l \<le> flr \<longrightarrow> out = ((\<lambda>v. v + s) ^^ length raws) l"
    unfolding s_def out_def using tuning_steps_below_floor [OF assms(1,2,5,3,4)] by blast
  have ok: "f64_ok l" using assms(3) by (simp add: pct_ok_def)
  have z: "((\<lambda>v. v + s) ^^ length raws) l = l" if "f64_eq (step_up_pct c) (Fin 0)"
  proof -
    have "s = Fin 0" using that by (cases "step_up_pct c") (auto simp: s_def f64_eq_def f64_max_def)
    then have "((\<lambda>v. v + s) ^^ n) l = l" for n by (induction n) (simp_all add: iterated_add_zero [OF ok])
    then show ?thesis .
  qed
  show ?thesis using a z by auto
qed

text \<open>A member at the 30 percent floor becomes a pump on a DC header, whose floor is 70 percent: two
  evaluations at a step of 5 bring it to 40.\<close>

theorem raised_floor_is_rate_limited_witness:
  "fold (\<lambda>raw prev. apply_tuning_with_floor (sample_control\<lparr>step_up_pct := Fin 5\<rparr>) raw (Some prev) DC_PUMP_FLOOR_PCT True)
     [Fin 20, Fin 90] HARD_PUMP_CPU_FLOOR_PCT = Fin 40"
proof -
  have c: "control_ok (sample_control\<lparr>step_up_pct := Fin 5\<rparr>)"
    by (simp add: control_ok_def control_num_ok_def sample_control_def pct_range_def range_ok_def
        del: f64_ok.simps)
  have pos: "Fin 0 < HARD_PUMP_CPU_FLOOR_PCT" by (simp add: profile_consts)
  have it: "((\<lambda>v. v + f64_max (step_up_pct (sample_control\<lparr>step_up_pct := Fin 5\<rparr>)) (Fin 0)) ^^ length [Fin 20, Fin 90])
      HARD_PUMP_CPU_FLOOR_PCT = Fin 40"
    by (simp add: profile_consts f64_max_def numeral_2_eq_2)
  show ?thesis
    using raised_floor_is_rate_limited [OF c pct_ok_consts(4,3) pos, of "[Fin 20, Fin 90]"]
    unfolding it by (simp add: profile_consts)
qed

end
