(* ===== verification/Cycle_Detect.thy ===== *)
theory Cycle_Detect
  imports Ofc_Prelude
begin

text \<open>
  The iterative depth-first search of \<open>profile.rs\<close> (\<open>graph_first_cycle\<close>) that rejects Mix and Sync
  cycles. The explicit stack is a list with its top first; the two hash sets are sets. It is total,
  and it finds a cycle exactly when there is one.
\<close>

section \<open>The search\<close>

type_synonym adj = "(string, string list) hmap"

definition neighbors_of :: "adj \<Rightarrow> string \<Rightarrow> string list" where
  "neighbors_of adj node = (case map_of adj node of Some ns \<Rightarrow> ns | None \<Rightarrow> [])"

definition adj_nodes :: "adj \<Rightarrow> string set" where
  "adj_nodes adj = (\<Union>(k, ns) \<in> set adj. set ns)"

definition stack_work :: "adj \<Rightarrow> (string \<times> nat) list \<Rightarrow> nat" where
  "stack_work adj stack = sum_list (map (\<lambda>(n, i). Suc (length (neighbors_of adj n) - i)) stack)"

lemma finite_adj_nodes [simp]: "finite (adj_nodes adj)"
  by (auto simp: adj_nodes_def)

lemma neighbor_in_nodes: "i < length (neighbors_of adj n) \<Longrightarrow> neighbors_of adj n ! i \<in> adj_nodes adj"
  by (force simp: neighbors_of_def adj_nodes_def split: option.splits dest: map_of_SomeD nth_mem)

function cycle_dfs ::
    "adj \<Rightarrow> (string \<times> nat) list \<Rightarrow> string set \<Rightarrow> string set \<Rightarrow> string option \<times> string set" where
  "cycle_dfs adj [] on_path dn = (None, dn)"
| "cycle_dfs adj ((node, idx) # stack) on_path dn =
     (if idx < length (neighbors_of adj node) then
        let nxt = neighbors_of adj node ! idx in
        if nxt \<in> on_path then (Some nxt, dn)
        else if nxt \<notin> dn
        then cycle_dfs adj ((nxt, 0) # (node, idx + 1) # stack) (insert nxt on_path) dn
        else cycle_dfs adj ((node, idx + 1) # stack) on_path dn
      else cycle_dfs adj stack (on_path - {node}) (insert node dn))"
  by pat_completeness auto
termination
proof (relation "measures [\<lambda>(adj, stack, on_path, dn). card (adj_nodes adj - (on_path \<union> dn)),
      \<lambda>(adj, stack, on_path, dn). stack_work adj stack]", goal_cases)
  case (2 adj node idx stack on_path dn nxt)
  then have "nxt \<in> adj_nodes adj - (on_path \<union> dn)" using neighbor_in_nodes by auto
  then have "card (adj_nodes adj - (insert nxt on_path \<union> dn)) < card (adj_nodes adj - (on_path \<union> dn))"
    by (intro psubset_card_mono) auto
  then show ?case by simp
next
  case (4 adj node idx stack on_path dn)
  have "card (adj_nodes adj - (on_path - {node} \<union> insert node dn)) \<le> card (adj_nodes adj - (on_path \<union> dn))"
    by (intro card_mono) auto
  then show ?case by (auto simp: stack_work_def)
qed (auto simp: stack_work_def)

fun first_cycle_from :: "adj \<Rightarrow> string set \<Rightarrow> string list \<Rightarrow> string option" where
  "first_cycle_from adj dn [] = None"
| "first_cycle_from adj dn (start # starts) =
     (if start \<in> dn then first_cycle_from adj dn starts
      else case cycle_dfs adj [(start, 0)] {start} dn of
             (Some n, _) \<Rightarrow> Some n
           | (None, dn') \<Rightarrow> first_cycle_from adj dn' starts)"

definition graph_first_cycle :: "adj \<Rightarrow> string option" where
  "graph_first_cycle adj = first_cycle_from adj {} (map fst adj)"

section \<open>Correctness\<close>

definition edges :: "adj \<Rightarrow> (string \<times> string) set" where
  "edges adj = {(u, v). v \<in> set (neighbors_of adj u)}"

text \<open>Every node below the top of the stack has an edge to the node above it.\<close>

fun chained :: "adj \<Rightarrow> (string \<times> nat) list \<Rightarrow> bool" where
  "chained adj ((v, i) # (u, j) # s) = ((u, v) \<in> edges adj \<and> 0 < j \<and> neighbors_of adj u ! (j - 1) = v \<and>
     j \<le> length (neighbors_of adj u) \<and> chained adj ((u, j) # s))"
| "chained adj _ = True"

text \<open>The neighbours already passed are finished, apart from the one on the stack above.\<close>

fun passed :: "adj \<Rightarrow> string set \<Rightarrow> (string \<times> nat) list \<Rightarrow> bool" where
  "passed adj dn ((v, i) # s) =
     (set (take i (neighbors_of adj v)) \<subseteq> dn \<and>
      list_all (\<lambda>(u, j). set (take (j - 1) (neighbors_of adj u)) \<subseteq> dn) s)"
| "passed adj dn [] = True"

definition finished_ok :: "adj \<Rightarrow> string set \<Rightarrow> bool" where
  "finished_ok adj dn =
     (\<forall>u \<in> dn. set (neighbors_of adj u) \<subseteq> dn \<and> (u, u) \<notin> (edges adj)\<^sup>+)"

definition dfs_inv :: "adj \<Rightarrow> (string \<times> nat) list \<Rightarrow> string set \<Rightarrow> string set \<Rightarrow> bool" where
  "dfs_inv adj stack on_path dn =
     (on_path = fst ` set stack \<and> distinct (map fst stack) \<and> on_path \<inter> dn = {} \<and>
      chained adj stack \<and> passed adj dn stack \<and> finished_ok adj dn)"

lemma chained_reach:
  "chained adj ((v, i) # s) \<Longrightarrow> u \<in> fst ` set ((v, i) # s) \<Longrightarrow> (u, v) \<in> (edges adj)\<^sup>*"
proof (induction s arbitrary: v i)
  case (Cons w s)
  obtain x j where w: "w = (x, j)" by (cases w)
  have e: "(x, v) \<in> edges adj" "chained adj ((x, j) # s)" using Cons.prems w by simp_all
  show ?case
  proof (cases "u = v")
    case False
    then have "u \<in> fst ` set ((x, j) # s)" using Cons.prems(2) w by auto
    then have "(u, x) \<in> (edges adj)\<^sup>*" by (rule Cons.IH [OF e(2)])
    then show ?thesis using e(1) by auto
  qed simp
qed auto

lemma closed_trancl:
  "(u, v) \<in> (edges adj)\<^sup>+ \<Longrightarrow> finished_ok adj dn \<Longrightarrow> u \<in> dn \<Longrightarrow> v \<in> dn"
  by (induction rule: trancl_induct) (auto simp: finished_ok_def edges_def)

lemma finish_node:
  assumes ok: "finished_ok adj dn" and new: "node \<notin> dn" and succ: "set (neighbors_of adj node) \<subseteq> dn"
  shows "finished_ok adj (insert node dn)"
proof -
  have "(node, node) \<notin> (edges adj)\<^sup>+"
  proof
    assume "(node, node) \<in> (edges adj)\<^sup>+"
    then obtain z where z: "(node, z) \<in> edges adj" "(z, node) \<in> (edges adj)\<^sup>*"
      by (metis tranclD)
    have "z \<in> dn" using z(1) succ by (auto simp: edges_def)
    with z(2) new have "node \<in> dn" by (metis closed_trancl [OF _ ok] rtranclD)
    with new show False ..
  qed
  then show ?thesis using ok succ by (auto simp: finished_ok_def)
qed

lemma passed_pop:
  assumes "passed adj dn ((v, i) # s)" "chained adj ((v, i) # s)"
  shows "passed adj (insert v dn) s"
proof (cases s)
  case (Cons w s')
  obtain u j where w: "w = (u, j)" by (cases w)
  have c: "0 < j" "neighbors_of adj u ! (j - 1) = v" "j \<le> length (neighbors_of adj u)"
    using assms(2) Cons w by simp_all
  then have "take j (neighbors_of adj u) = take (j - 1) (neighbors_of adj u) @ [v]"
    by (metis Suc_diff_1 Suc_le_lessD take_Suc_conv_app_nth)
  then show ?thesis using assms(1) Cons w by (auto simp: list_all_iff)
qed simp

lemma chained_bump: "chained adj ((v, i) # s) = chained adj ((v, j) # s)"
  by (cases s) auto

lemma cycle_dfs_correct:
  "dfs_inv adj stack on_path dn \<Longrightarrow>
   (case cycle_dfs adj stack on_path dn of
      (Some n, _) \<Rightarrow> (n, n) \<in> (edges adj)\<^sup>+
    | (None, dn') \<Rightarrow> finished_ok adj dn' \<and> dn \<union> fst ` set stack \<subseteq> dn')"
proof (induction adj stack on_path dn rule: cycle_dfs.induct)
  case (1 adj on_path dn)
  then show ?case by (simp add: dfs_inv_def)
next
  case (2 adj node idx stack on_path dn)
  let ?ns = "neighbors_of adj node"
  note inv = 2(4) [unfolded dfs_inv_def]
  show ?case
  proof (cases "idx < length ?ns")
    case True
    let ?nxt = "?ns ! idx"
    have edge: "(node, ?nxt) \<in> edges adj" using True by (auto simp: edges_def)
    consider "?nxt \<in> on_path" | "?nxt \<notin> on_path" "?nxt \<notin> dn" | "?nxt \<notin> on_path" "?nxt \<in> dn" by blast
    then show ?thesis
    proof cases
      case 1
      have "(?nxt, node) \<in> (edges adj)\<^sup>*"
        using inv 1 by (intro chained_reach [of adj node idx stack]) auto
      then have "(?nxt, ?nxt) \<in> (edges adj)\<^sup>+" using edge by (rule rtrancl_into_trancl1)
      then show ?thesis using True 1 by simp
    next
      case 2
      have "dfs_inv adj ((?nxt, 0) # (node, idx + 1) # stack) (insert ?nxt on_path) dn"
        using inv 2 True edge chained_bump [of adj node idx stack "Suc idx"] by (auto simp: dfs_inv_def)
      from "2.IH"(1) [OF True refl 2 this] show ?thesis
        using True 2 by (auto split: prod.splits option.splits)
    next
      case 3
      have "set (take (Suc idx) ?ns) \<subseteq> dn"
        using inv 3 True by (auto simp: take_Suc_conv_app_nth)
      then have "dfs_inv adj ((node, idx + 1) # stack) on_path dn"
        using inv True chained_bump [of adj node idx stack "Suc idx"] by (auto simp: dfs_inv_def)
      from "2.IH"(2) [OF True refl 3(1) _ this] show ?thesis
        using True 3 by (auto split: prod.splits option.splits)
    qed
  next
    case False
    have succ: "set ?ns \<subseteq> dn" using inv False by simp
    have new: "node \<notin> dn" using inv by auto
    have "chained adj stack" using inv by (cases stack) auto
    then have "dfs_inv adj stack (on_path - {node}) (insert node dn)"
      using inv finish_node [OF _ new succ] passed_pop [of adj dn node idx stack]
      by (auto simp: dfs_inv_def)
    from "2.IH"(3) [OF False this] show ?thesis
      using False by (auto split: prod.splits option.splits)
  qed
qed

lemma first_cycle_from_correct:
  "finished_ok adj dn \<Longrightarrow>
   (case first_cycle_from adj dn starts of
      Some n \<Rightarrow> (n, n) \<in> (edges adj)\<^sup>+
    | None \<Rightarrow> \<exists>dn'. finished_ok adj dn' \<and> dn \<union> set starts \<subseteq> dn')"
proof (induction starts arbitrary: dn)
  case (Cons start starts)
  show ?case
  proof (cases "start \<in> dn")
    case True
    then show ?thesis using Cons.IH [OF Cons.prems] by (auto split: option.splits)
  next
    case False
    then have "dfs_inv adj [(start, 0)] {start} dn"
      using Cons.prems by (auto simp: dfs_inv_def)
    note dfs = cycle_dfs_correct [OF this]
    show ?thesis
    proof (cases "cycle_dfs adj [(start, 0)] {start} dn")
      case (Pair r dn')
      then show ?thesis using dfs False Cons.IH [of dn']
        by (cases r) (auto split: option.splits)
    qed
  qed
qed auto

lemma graph_first_cycle_edges:
  "case graph_first_cycle adj of Some n \<Rightarrow> (n, n) \<in> (edges adj)\<^sup>+ | None \<Rightarrow> acyclic (edges adj)"
proof (cases "graph_first_cycle adj")
  case (Some n)
  then show ?thesis
    using first_cycle_from_correct [of adj "{}" "map fst adj"]
    by (simp add: graph_first_cycle_def finished_ok_def edges_def)
next
  case None
  then obtain dn where dn: "finished_ok adj dn" "fst ` set adj \<subseteq> dn"
    using first_cycle_from_correct [of adj "{}" "map fst adj"]
    by (auto simp: graph_first_cycle_def finished_ok_def)
  have "(x, x) \<notin> (edges adj)\<^sup>+" for x
  proof
    assume c: "(x, x) \<in> (edges adj)\<^sup>+"
    then obtain y where "(x, y) \<in> edges adj" by (metis tranclD)
    then have "map_of adj x \<noteq> None" by (cases "map_of adj x") (auto simp: edges_def neighbors_of_def)
    then have "x \<in> fst ` set adj" by (simp add: map_of_eq_None_iff)
    then show False using dn c by (auto simp: finished_ok_def)
  qed
  then show ?thesis using None by (simp add: acyclic_def edges_def)
qed

text \<open>C35: the cycle detector is sound and complete. A node it names lies on a cycle of the
  dependency graph, and it names one whenever the graph has a cycle; so a profile is rejected for a
  cycle exactly when it has one. The search always ends.\<close>

theorem graph_first_cycle_correct:
  "case graph_first_cycle adj of
     Some n \<Rightarrow> (n, n) \<in> {(u, v). v \<in> set (neighbors_of adj u)}\<^sup>+
   | None \<Rightarrow> acyclic {(u, v). v \<in> set (neighbors_of adj u)}"
  using graph_first_cycle_edges [of adj] unfolding edges_def .

end
