(* ===== verification/Profile_Validate.thy ===== *)
theory Profile_Validate
  imports Profile_Model Cycle_Detect
begin

text \<open>
  \<open>validate\<close> of \<open>profile.rs\<close>: the report the API's front door builds, check by check in the order of
  the source. Checks take the report and return it extended. The set of known sensor ids is a list
  (its iteration order is arbitrary and shown not to matter through \<open>resolve_exact\<close>).
\<close>

section \<open>The report\<close>

datatype Severity = SevError | SevWarning

record FieldViolation =
  v_field :: string
  v_reason :: string
  v_severity :: Severity

record ValidationReport =
  vr_errors :: "FieldViolation list"
  vr_warnings :: "FieldViolation list"

definition report_default :: ValidationReport where
  "report_default = \<lparr>vr_errors = [], vr_warnings = []\<rparr>"

definition is_valid :: "ValidationReport \<Rightarrow> bool" where
  "is_valid r = (vr_errors r = [])"

definition report_error :: "string \<Rightarrow> string \<Rightarrow> ValidationReport \<Rightarrow> ValidationReport" where
  "report_error field reason r =
     r\<lparr>vr_errors := vr_errors r @ [\<lparr>v_field = field, v_reason = reason, v_severity = SevError\<rparr>]\<rparr>"

definition report_warn :: "string \<Rightarrow> string \<Rightarrow> ValidationReport \<Rightarrow> ValidationReport" where
  "report_warn field reason r =
     r\<lparr>vr_warnings := vr_warnings r @ [\<lparr>v_field = field, v_reason = reason, v_severity = SevWarning\<rparr>]\<rparr>"

section \<open>Field checks\<close>

definition check_finite :: "string \<Rightarrow> f64 \<Rightarrow> ValidationReport \<Rightarrow> ValidationReport" where
  "check_finite field v r = (if \<not> is_finite v then report_error field ''NON_FINITE'' r else r)"

definition check_pct :: "string \<Rightarrow> f64 \<Rightarrow> ValidationReport \<Rightarrow> ValidationReport" where
  "check_pct field v r =
     (if \<not> is_finite v then report_error field ''NON_FINITE'' r
      else if \<not> (Fin 0 \<le> v \<and> v \<le> Fin 100) then report_error field ''OUT_OF_RANGE'' r
      else r)"

definition check_offset :: "string \<Rightarrow> f64 \<Rightarrow> ValidationReport \<Rightarrow> ValidationReport" where
  "check_offset field v r =
     (if \<not> is_finite v then report_error field ''NON_FINITE'' r
      else if \<not> (Fin (- 100) \<le> v \<and> v \<le> Fin 100) then report_error field ''OUT_OF_RANGE'' r
      else r)"

definition check_opt_finite ::
    "string \<Rightarrow> string \<Rightarrow> f64 option \<Rightarrow> ValidationReport \<Rightarrow> ValidationReport" where
  "check_opt_finite pre name v r =
     (case v of Some x \<Rightarrow> check_finite (pre @ ''.'' @ name) x r | None \<Rightarrow> r)"

definition check_opt_pct ::
    "string \<Rightarrow> string \<Rightarrow> f64 option \<Rightarrow> ValidationReport \<Rightarrow> ValidationReport" where
  "check_opt_pct pre name v r =
     (case v of Some x \<Rightarrow> check_pct (pre @ ''.'' @ name) x r | None \<Rightarrow> r)"

definition check_opt_offset ::
    "string \<Rightarrow> string \<Rightarrow> f64 option \<Rightarrow> ValidationReport \<Rightarrow> ValidationReport" where
  "check_opt_offset pre name v r =
     (case v of Some x \<Rightarrow> check_offset (pre @ ''.'' @ name) x r | None \<Rightarrow> r)"

definition check_opt_hysteresis ::
    "string \<Rightarrow> f64 option \<Rightarrow> ValidationReport \<Rightarrow> ValidationReport" where
  "check_opt_hysteresis pre v r =
     (case v of
        None \<Rightarrow> r
      | Some x \<Rightarrow>
          if \<not> is_finite x then report_error (pre @ ''.hysteresis_c'') ''NON_FINITE'' r
          else if \<not> (Fin 0 \<le> x \<and> x \<le> HYSTERESIS_DEADBAND_MAX_C)
          then report_error (pre @ ''.hysteresis_c'') ''OUT_OF_RANGE'' r
          else r)"

section \<open>Cycles of Mix and Sync\<close>

definition mix_adj :: "DaemonProfile \<Rightarrow> adj" where
  "mix_adj profile =
     fold (\<lambda>c m. if cv_type c = ''mix'' then hm_insert (cv_id c) (mix_curve_ids c) m else m)
       (p_curves profile) []"

definition mix_cycle :: "DaemonProfile \<Rightarrow> string option" where
  "mix_cycle profile = graph_first_cycle (mix_adj profile)"

definition sync_adj :: "DaemonProfile \<Rightarrow> adj" where
  "sync_adj profile =
     (let sync_target = hm_collect (map (\<lambda>c. (cv_id c, sync_control_id c))
            (filter (\<lambda>c. cv_type c = ''sync'') (p_curves profile)))
      in fold (\<lambda>ctrl m.
           if lc_mode ctrl = ''curve'' then
             (case map_of sync_target (lc_curve_id ctrl) of
                Some target \<Rightarrow> if target \<noteq> [] then hm_insert (lc_id ctrl) [target] m else m
              | None \<Rightarrow> m)
           else m) (p_controls profile) [])"

definition sync_cycle :: "DaemonProfile \<Rightarrow> string option" where
  "sync_cycle profile = graph_first_cycle (sync_adj profile)"

section \<open>The validator\<close>

definition KNOWN_CURVE_TYPES :: "string list" where
  "KNOWN_CURVE_TYPES = [''graph'', ''stepped'', ''linear'', ''flat'', ''trigger'', ''mix'', ''sync'']"

definition KNOWN_MIX_FUNCTIONS :: "string list" where
  "KNOWN_MIX_FUNCTIONS = [''max'', ''min'', ''average'', ''sum'', ''subtract'']"

definition KNOWN_MEMBER_SOURCES :: "string list" where
  "KNOWN_MEMBER_SOURCES = [''openfan'', ''hwmon'', ''amd_gpu'', ''intel_gpu'', ''nvidia_gpu'']"

definition fold_enum :: "(nat \<Rightarrow> 'a \<Rightarrow> 'r \<Rightarrow> 'r) \<Rightarrow> 'a list \<Rightarrow> 'r \<Rightarrow> 'r" where
  "fold_enum g xs r = fold (\<lambda>(i, x). g i x) (List.enumerate 0 xs) r"

definition validate_type :: "string \<Rightarrow> string list \<Rightarrow> string list \<Rightarrow> CurveConfig \<Rightarrow>
    ValidationReport \<Rightarrow> ValidationReport" where
  "validate_type p curve_ids control_ids curve r =
     (if cv_type curve = ''trigger'' then
        (let idle = unwrap_or TRIGGER_IDLE_TEMP_C (trigger_idle_temp_c curve);
             load = unwrap_or TRIGGER_LOAD_TEMP_C (trigger_load_temp_c curve) in
         if is_finite idle \<and> is_finite load \<and> load \<le> idle
         then report_error (p @ ''.trigger_idle_temp_c'') ''TRIGGER_IDLE_GE_LOAD'' r else r)
      else if cv_type curve = ''mix'' then
        (let r' = (case mix_function curve of
                     Some f \<Rightarrow> if f \<notin> set KNOWN_MIX_FUNCTIONS
                       then report_warn (p @ ''.mix_function'') ''UNKNOWN_MIX_FUNCTION'' r else r
                   | None \<Rightarrow> r)
         in fold_enum (\<lambda>k mid r. if mid \<notin> set curve_ids
              then report_error (p @ idx_path ''.mix_curve_ids'' k) ''UNKNOWN_CURVE_REF'' r else r)
              (mix_curve_ids curve) r')
      else if cv_type curve = ''sync'' then
        (if sync_control_id curve = [] \<or> sync_control_id curve \<notin> set control_ids
         then report_error (p @ ''.sync_control_id'') ''UNKNOWN_CONTROL_REF'' r else r)
      else r)"

definition validate_curve :: "string list \<Rightarrow> string list \<Rightarrow> string list \<Rightarrow> nat \<Rightarrow> CurveConfig \<Rightarrow>
    ValidationReport \<Rightarrow> ValidationReport" where
  "validate_curve known curve_ids control_ids i curve r0 =
     (let p = idx_path ''curves'' i;
          r = (if cv_type curve \<notin> set KNOWN_CURVE_TYPES
               then report_warn (p @ ''.type'') ''UNKNOWN_CURVE_TYPE'' r0 else r0);
          r = (if MAX_CURVE_POINTS < length (cv_points curve)
               then report_error (p @ ''.points'') ''TOO_MANY_POINTS'' r else r);
          r = fold_enum (\<lambda>j pt r.
                check_pct (p @ idx_path ''.points'' j @ ''.output_pct'') (pt_output_pct pt)
                  (check_finite (p @ idx_path ''.points'' j @ ''.temp_c'') (pt_temp_c pt) r))
                (cv_points curve) r;
          r = check_opt_finite p ''start_temp_c'' (start_temp_c curve) r;
          r = check_opt_finite p ''end_temp_c'' (end_temp_c curve) r;
          r = check_opt_pct p ''start_output_pct'' (start_output_pct curve) r;
          r = check_opt_pct p ''end_output_pct'' (end_output_pct curve) r;
          r = check_opt_pct p ''flat_output_pct'' (flat_output_pct curve) r;
          r = check_opt_finite p ''trigger_idle_temp_c'' (trigger_idle_temp_c curve) r;
          r = check_opt_finite p ''trigger_load_temp_c'' (trigger_load_temp_c curve) r;
          r = check_opt_pct p ''trigger_idle_pct'' (trigger_idle_pct curve) r;
          r = check_opt_pct p ''trigger_load_pct'' (trigger_load_pct curve) r;
          r = check_opt_offset p ''sync_offset_pct'' (sync_offset_pct curve) r;
          r = check_opt_hysteresis p (hysteresis_c curve) r;
          r = (if cv_sensor_id curve \<noteq> [] \<and> cv_sensor_id curve \<notin> set known \<and>
                 resolve (cv_sensor_id curve) known [] = None
               then report_warn (p @ ''.sensor_id'') ''UNKNOWN_SENSOR'' r else r)
      in validate_type p curve_ids control_ids curve r)"

definition validate_control :: "string list \<Rightarrow> nat \<Rightarrow> LogicalControl \<Rightarrow>
    ValidationReport \<Rightarrow> ValidationReport" where
  "validate_control curve_ids i ctrl r0 =
     (let p = idx_path ''controls'' i;
          r = check_pct (p @ ''.manual_output_pct'') (manual_output_pct ctrl) r0;
          r = check_pct (p @ ''.minimum_pct'') (minimum_pct ctrl) r;
          r = check_pct (p @ ''.start_pct'') (start_pct ctrl) r;
          r = check_pct (p @ ''.stop_pct'') (stop_pct ctrl) r;
          r = check_pct (p @ ''.step_up_pct'') (step_up_pct ctrl) r;
          r = check_pct (p @ ''.step_down_pct'') (step_down_pct ctrl) r;
          r = check_offset (p @ ''.offset_pct'') (offset_pct ctrl) r;
          r = (if lc_mode ctrl = ''curve'' \<and> (lc_curve_id ctrl = [] \<or> lc_curve_id ctrl \<notin> set curve_ids)
               then report_error (p @ ''.curve_id'') ''UNKNOWN_CURVE_REF'' r else r);
          r = fold_enum (\<lambda>k m r. if cm_source m \<notin> set KNOWN_MEMBER_SOURCES
                then report_warn (p @ idx_path ''.members'' k @ ''.source'') ''UNKNOWN_SOURCE'' r else r)
                (lc_members ctrl) r;
          r = (if minimum_pct ctrl < HARD_PUMP_CPU_FLOOR_PCT \<and> list_ex member_is_pump_or_cpu (lc_members ctrl)
               then report_error (p @ ''.minimum_pct'') ''FLOOR_TOO_LOW'' r else r);
          r = (if \<not> f64_eq (stop_pct ctrl) (Fin 0) \<and> list_ex member_is_pump_or_cpu (lc_members ctrl)
               then report_error (p @ ''.stop_pct'') ''PUMP_STOP_FORBIDDEN'' r else r)
      in r)"

definition validate :: "DaemonProfile \<Rightarrow> string list \<Rightarrow> ValidationReport" where
  "validate profile known_sensor_ids =
     (let curve_ids = map cv_id (p_curves profile);
          control_ids = map lc_id (p_controls profile);
          r = report_default;
          r = (if MAX_PROFILE_CURVES < length (p_curves profile)
               then report_error ''curves'' ''TOO_MANY_CURVES'' r else r);
          r = (if MAX_PROFILE_CONTROLS < length (p_controls profile)
               then report_error ''controls'' ''TOO_MANY_CONTROLS'' r else r);
          r = fold_enum (validate_curve known_sensor_ids curve_ids control_ids) (p_curves profile) r;
          r = fold_enum (validate_control curve_ids) (p_controls profile) r;
          r = (case mix_cycle profile of
                 Some _ \<Rightarrow> report_error ''curves'' ''MIX_CYCLE'' r | None \<Rightarrow> r);
          r = (case sync_cycle profile of
                 Some _ \<Rightarrow> report_error ''controls'' ''SYNC_CYCLE'' r | None \<Rightarrow> r)
      in r)"

section \<open>When a report stays clean\<close>

named_theorems clean \<open>a check leaves no error iff its condition holds\<close>

lemma report_clean [clean]:
  "vr_errors (report_error f s r) \<noteq> []" "vr_errors (report_warn f s r) = vr_errors r"
  "vr_errors report_default = []"
  by (simp_all add: report_error_def report_warn_def report_default_def)

lemma check_clean [clean]:
  "vr_errors (check_finite f v r) = [] \<longleftrightarrow> is_finite v \<and> vr_errors r = []"
  "vr_errors (check_pct f v r) = [] \<longleftrightarrow> pct_range v \<and> vr_errors r = []"
  "vr_errors (check_offset f v r) = [] \<longleftrightarrow> range_ok (Fin (- 100)) (Fin 100) v \<and> vr_errors r = []"
  "vr_errors (check_opt_hysteresis q h r) = [] \<longleftrightarrow>
     opt_all (range_ok (Fin 0) HYSTERESIS_DEADBAND_MAX_C) h \<and> vr_errors r = []"
  by (auto simp: check_finite_def check_pct_def check_offset_def check_opt_hysteresis_def clean
      pct_range_def range_ok_def opt_all_def split: option.splits)

lemma check_opt_clean [clean]:
  "vr_errors (check_opt_finite q n v r) = [] \<longleftrightarrow> opt_all is_finite v \<and> vr_errors r = []"
  "vr_errors (check_opt_pct q n v r) = [] \<longleftrightarrow> opt_all pct_range v \<and> vr_errors r = []"
  "vr_errors (check_opt_offset q n v r) = [] \<longleftrightarrow>
     opt_all (range_ok (Fin (- 100)) (Fin 100)) v \<and> vr_errors r = []"
  by (auto simp: check_opt_finite_def check_opt_pct_def check_opt_offset_def clean opt_all_def
      split: option.splits)

lemma fold_enum_clean:
  assumes "\<And>i x r. vr_errors (g i x r) = [] \<longleftrightarrow> P x \<and> vr_errors r = []"
  shows "vr_errors (fold_enum g xs r) = [] \<longleftrightarrow> list_all P xs \<and> vr_errors r = []"
proof -
  have "vr_errors (fold (\<lambda>(i, x). g i x) (List.enumerate n xs) r) = [] \<longleftrightarrow>
      list_all P xs \<and> vr_errors r = []" for n
    by (induction xs arbitrary: n r) (auto simp: assms)
  then show ?thesis by (simp add: fold_enum_def)
qed

definition type_ok :: "string list \<Rightarrow> string list \<Rightarrow> CurveConfig \<Rightarrow> bool" where
  "type_ok curve_ids control_ids curve =
     ((cv_type curve = ''trigger'' \<longrightarrow>
         unwrap_or TRIGGER_IDLE_TEMP_C (trigger_idle_temp_c curve) <
         unwrap_or TRIGGER_LOAD_TEMP_C (trigger_load_temp_c curve) \<or>
         \<not> is_finite (unwrap_or TRIGGER_IDLE_TEMP_C (trigger_idle_temp_c curve)) \<or>
         \<not> is_finite (unwrap_or TRIGGER_LOAD_TEMP_C (trigger_load_temp_c curve))) \<and>
      (cv_type curve = ''mix'' \<longrightarrow> list_all (\<lambda>m. m \<in> set curve_ids) (mix_curve_ids curve)) \<and>
      (cv_type curve = ''sync'' \<longrightarrow> sync_control_id curve \<noteq> [] \<and> sync_control_id curve \<in> set control_ids))"

lemma finite_le_less: "is_finite a \<Longrightarrow> is_finite b \<Longrightarrow> \<not> b \<le> a \<longleftrightarrow> a < b"
  by (cases a; cases b) auto

lemma validate_type_clean [clean]:
  "vr_errors (validate_type p cids kids curve r) = [] \<longleftrightarrow> type_ok cids kids curve \<and> vr_errors r = []"
proof -
  have mix: "vr_errors (fold_enum (\<lambda>k mid r. if mid \<notin> set cids
          then report_error (p @ idx_path ''.mix_curve_ids'' k) ''UNKNOWN_CURVE_REF'' r else r) xs r') = []
      \<longleftrightarrow> list_all (\<lambda>m. m \<in> set cids) xs \<and> vr_errors r' = []" for xs r'
    by (rule fold_enum_clean) (simp add: clean)
  show ?thesis
    by (auto simp: validate_type_def type_ok_def Let_def mix clean finite_le_less
        split: option.splits dest: f64_le_less_contra)
qed

lemma validate_curve_clean:
  "vr_errors (validate_curve known cids kids i curve r) = [] \<longleftrightarrow>
     (curve_num_ok curve \<and> length (cv_points curve) \<le> MAX_CURVE_POINTS \<and> type_ok cids kids curve) \<and>
     vr_errors r = []"
proof -
  have pts: "vr_errors (fold_enum (\<lambda>j pt r.
          check_pct (p @ idx_path ''.points'' j @ ''.output_pct'') (pt_output_pct pt)
            (check_finite (p @ idx_path ''.points'' j @ ''.temp_c'') (pt_temp_c pt) r)) ps r') = [] \<longleftrightarrow>
      list_all (\<lambda>p. is_finite (pt_temp_c p) \<and> pct_range (pt_output_pct p)) ps \<and> vr_errors r' = []" for p ps r'
    by (rule fold_enum_clean) (auto simp: clean)
  show ?thesis
    by (auto simp: validate_curve_def Let_def pts clean curve_num_ok_def)
qed

lemma validate_control_clean:
  "vr_errors (validate_control cids i ctrl r) = [] \<longleftrightarrow>
     (control_num_ok ctrl \<and>
      (lc_mode ctrl = ''curve'' \<longrightarrow> lc_curve_id ctrl \<noteq> [] \<and> lc_curve_id ctrl \<in> set cids) \<and>
      (list_ex member_is_pump_or_cpu (lc_members ctrl) \<longrightarrow>
         HARD_PUMP_CPU_FLOOR_PCT \<le> minimum_pct ctrl \<and> f64_eq (stop_pct ctrl) (Fin 0))) \<and>
     vr_errors r = []"
proof -
  have warn: "vr_errors (fold_enum (\<lambda>k m r. if cm_source m \<notin> set KNOWN_MEMBER_SOURCES
          then report_warn (p @ idx_path ''.members'' k @ ''.source'') ''UNKNOWN_SOURCE'' r else r) ms r')
        = [] \<longleftrightarrow> list_all (\<lambda>_. True) ms \<and> vr_errors r' = []" for p ms r'
    by (rule fold_enum_clean) (simp add: clean)
  have le: "pct_range v \<Longrightarrow> \<not> v < HARD_PUMP_CPU_FLOOR_PCT \<longleftrightarrow> HARD_PUMP_CPU_FLOOR_PCT \<le> v" for v
    by (cases v) (auto simp: pct_range_def profile_consts)
  show ?thesis
    by (auto simp: validate_control_def Let_def warn clean control_num_ok_def le list_all_iff
        dest: f64_le_less_contra)
qed

lemma validate_clean:
  "is_valid (validate p known) \<longleftrightarrow>
     length (p_curves p) \<le> MAX_PROFILE_CURVES \<and> length (p_controls p) \<le> MAX_PROFILE_CONTROLS \<and>
     list_all (\<lambda>c. curve_num_ok c \<and> length (cv_points c) \<le> MAX_CURVE_POINTS \<and>
       type_ok (map cv_id (p_curves p)) (map lc_id (p_controls p)) c) (p_curves p) \<and>
     list_all (\<lambda>c. control_num_ok c \<and>
       (lc_mode c = ''curve'' \<longrightarrow> lc_curve_id c \<noteq> [] \<and> lc_curve_id c \<in> set (map cv_id (p_curves p))) \<and>
       (list_ex member_is_pump_or_cpu (lc_members c) \<longrightarrow>
          HARD_PUMP_CPU_FLOOR_PCT \<le> minimum_pct c \<and> f64_eq (stop_pct c) (Fin 0))) (p_controls p) \<and>
     mix_cycle p = None \<and> sync_cycle p = None"
  by (auto simp: is_valid_def validate_def Let_def clean fold_enum_clean [OF validate_curve_clean]
      fold_enum_clean [OF validate_control_clean] split: option.splits)

text \<open>C36: every profile the API accepts also loads. When the validator reports no error, whatever
  sensors the machine has, the document passes the count caps and the numeric net of every on-disk
  path, and is loaded unchanged; so the two sets of ranges never disagree in the direction that
  would lose a stored profile.\<close>

theorem valid_profile_loads:
  assumes "is_valid (validate p known)"
  shows "load_checks p = Inr p"
  using assms by (auto simp: validate_clean load_checks_ok list_all_iff)

lemma sample_profile_valid: "is_valid (validate sample_profile [])"
  by (simp add: validate_clean sample_profile_def sample_curve_def curve_num_ok_def opt_all_def
      pct_range_def type_ok_def MAX_PROFILE_CURVES_def MAX_PROFILE_CONTROLS_def MAX_CURVE_POINTS_def
      mix_cycle_def sync_cycle_def mix_adj_def sync_adj_def graph_first_cycle_def)

theorem valid_profile_loads_witness:
  "is_valid (validate sample_profile []) \<and> load_checks sample_profile = Inr sample_profile"
  using valid_profile_loads [OF sample_profile_valid] sample_profile_valid by blast

text \<open>C37: what an accepted profile guarantees about pumps, references and cycles. Every control with
  a pump or CPU member declares at least the hard floor and never stops; every curve reference,
  every Mix input and every Sync target exists; and neither the Mix graph nor the Sync graph has a
  cycle.\<close>

theorem valid_profile_is_safe:
  assumes "is_valid (validate p known)"
  shows "list_all (\<lambda>c. (list_ex member_is_pump_or_cpu (lc_members c) \<longrightarrow>
          HARD_PUMP_CPU_FLOOR_PCT \<le> minimum_pct c \<and> f64_eq (stop_pct c) (Fin 0)) \<and>
        (lc_mode c = ''curve'' \<longrightarrow> lc_curve_id c \<in> cv_id ` set (p_curves p))) (p_controls p) \<and>
      list_all (\<lambda>c. (cv_type c = ''mix'' \<longrightarrow> set (mix_curve_ids c) \<subseteq> cv_id ` set (p_curves p)) \<and>
        (cv_type c = ''sync'' \<longrightarrow> sync_control_id c \<in> lc_id ` set (p_controls p))) (p_curves p) \<and>
      acyclic (edges (mix_adj p)) \<and> acyclic (edges (sync_adj p))"
proof -
  note v = assms [unfolded validate_clean]
  have "acyclic (edges (mix_adj p))" "acyclic (edges (sync_adj p))"
    using v graph_first_cycle_edges [of "mix_adj p"] graph_first_cycle_edges [of "sync_adj p"]
    by (simp_all add: mix_cycle_def sync_cycle_def)
  with v show ?thesis by (auto simp: list_all_iff type_ok_def)
qed

theorem valid_profile_is_safe_witness:
  "is_valid (validate sample_profile []) \<and> acyclic (edges (mix_adj sample_profile))"
  using valid_profile_is_safe [OF sample_profile_valid] sample_profile_valid by blast

end
