(* ===== verification/Control_Order.thy ===== *)
theory Control_Order
  imports Curve_Eval Profile_Validate
begin

text \<open>
  The order in which the engine evaluates controls (\<open>topological_control_order\<close> of
  \<open>profile_engine/curve_eval.rs\<close>): it is a permutation of the controls for every profile, and on a
  profile whose Sync graph is acyclic it puts every Sync target before the controls that mirror it.
\<close>

section \<open>Dependencies by index\<close>

definition order_index :: "DaemonProfile \<Rightarrow> (string, nat) hmap" where
  "order_index p = hm_collect (map (\<lambda>(i, c). (lc_id c, i)) (List.enumerate 0 (p_controls p)))"

definition dep_of :: "DaemonProfile \<Rightarrow> nat \<Rightarrow> nat option" where
  "dep_of p i =
     (case sync_dependency (p_controls p ! i) p of
        None \<Rightarrow> None
      | Some d \<Rightarrow> (case map_of (order_index p) d of
          None \<Rightarrow> None | Some j \<Rightarrow> if j \<noteq> i then Some j else None))"

definition dep_rel :: "DaemonProfile \<Rightarrow> (nat \<times> nat) set" where
  "dep_rel p = {(i, j). i < length (p_controls p) \<and> dep_of p i = Some j}"

lemma order_index_Some: "map_of (order_index p) d = Some j \<Longrightarrow>
    j < length (p_controls p) \<and> lc_id (p_controls p ! j) = d"
proof -
  assume "map_of (order_index p) d = Some j"
  then have "(d, j) \<in> set (map (\<lambda>(i, c). (lc_id c, i)) (List.enumerate 0 (p_controls p)))"
    by (auto simp: order_index_def map_of_hm_collect dest!: map_of_SomeD)
  then show ?thesis by (auto simp: in_set_enumerate_eq)
qed

lemma dep_of_less: "dep_of p i = Some j \<Longrightarrow> j < length (p_controls p) \<and> j \<noteq> i"
  by (auto simp: dep_of_def dest: order_index_Some split: option.splits if_splits)

abbreviation visit :: "DaemonProfile \<Rightarrow> nat \<Rightarrow> nat \<Rightarrow> TopoState \<Rightarrow> TopoState" where
  "visit p idx depth st \<equiv> topo_visit idx p (order_index p) depth st"

lemma visit_unfold:
  "visit p idx depth st =
     (if topo_emitted st ! idx \<or> topo_on_path st ! idx then st
      else if MAX_PROFILE_CONTROLS \<le> depth then st
      else let st1 = st\<lparr>topo_on_path := (topo_on_path st)[idx := True]\<rparr>;
               st2 = (case dep_of p idx of Some j \<Rightarrow> visit p j (depth + 1) st1 | None \<Rightarrow> st1);
               st3 = st2\<lparr>topo_on_path := (topo_on_path st2)[idx := False]\<rparr>
           in if \<not> topo_emitted st3 ! idx
              then st3\<lparr>topo_emitted := (topo_emitted st3)[idx := True], topo_ordered := topo_ordered st3 @ [idx]\<rparr>
              else st3)"
  by (subst topo_visit.simps) (simp add: dep_of_def Let_def split: option.split)

section \<open>A permutation\<close>

definition topo_inv :: "nat \<Rightarrow> TopoState \<Rightarrow> bool" where
  "topo_inv n st = (length (topo_emitted st) = n \<and> length (topo_on_path st) = n \<and>
     distinct (topo_ordered st) \<and> set (topo_ordered st) = {i. i < n \<and> topo_emitted st ! i})"

lemma visit_inv:
  assumes "topo_inv (length (p_controls p)) st" "idx < length (p_controls p)"
  shows "topo_inv (length (p_controls p)) (visit p idx depth st) \<and>
    topo_on_path (visit p idx depth st) = topo_on_path st \<and>
    (\<forall>i < length (p_controls p). topo_emitted st ! i \<longrightarrow> topo_emitted (visit p idx depth st) ! i) \<and>
    (\<forall>i < length (p_controls p). topo_on_path st ! i \<longrightarrow>
       topo_emitted (visit p idx depth st) ! i = topo_emitted st ! i) \<and>
    (depth < MAX_PROFILE_CONTROLS \<and> \<not> topo_on_path st ! idx \<longrightarrow> topo_emitted (visit p idx depth st) ! idx)"
  using assms
proof (induction "MAX_PROFILE_CONTROLS - depth" arbitrary: idx depth st rule: less_induct)
  case less
  let ?n = "length (p_controls p)"
  show ?case
  proof (cases "topo_emitted st ! idx \<or> topo_on_path st ! idx \<or> MAX_PROFILE_CONTROLS \<le> depth")
    case True
    then show ?thesis using less.prems by (subst (1 2 3 4 5) visit_unfold) auto
  next
    case False
    define st1 where "st1 = st\<lparr>topo_on_path := (topo_on_path st)[idx := True]\<rparr>"
    define st2 where "st2 = (case dep_of p idx of Some j \<Rightarrow> visit p j (depth + 1) st1 | None \<Rightarrow> st1)"
    have i1: "topo_inv ?n st1" using less.prems by (simp add: topo_inv_def st1_def)
    have on1: "topo_on_path st1 ! i \<longleftrightarrow> i = idx \<or> topo_on_path st ! i" if "i < ?n" for i
      using that less.prems by (auto simp: st1_def topo_inv_def nth_list_update)
    have s2: "topo_inv ?n st2 \<and> topo_on_path st2 = topo_on_path st1 \<and>
        (\<forall>i < ?n. topo_emitted st ! i \<longrightarrow> topo_emitted st2 ! i) \<and>
        (\<forall>i < ?n. topo_on_path st1 ! i \<longrightarrow> topo_emitted st2 ! i = topo_emitted st ! i)"
    proof (cases "dep_of p idx")
      case (Some j)
      have "MAX_PROFILE_CONTROLS - (depth + 1) < MAX_PROFILE_CONTROLS - depth" using False by auto
      from less.hyps [OF this i1] dep_of_less [OF Some] Some show ?thesis
        by (auto simp: st2_def st1_def)
    qed (use i1 in \<open>simp add: st2_def st1_def\<close>)
    have no: "\<not> topo_emitted st2 ! idx"
      using s2 on1 [OF less.prems(2)] False less.prems(2) by auto
    have path: "(topo_on_path st2)[idx := False] = topo_on_path st"
      using s2 False less.prems by (simp add: st1_def topo_inv_def list_update_same_conv)
    have v: "visit p idx depth st = st2\<lparr>topo_on_path := topo_on_path st,
        topo_emitted := (topo_emitted st2)[idx := True], topo_ordered := topo_ordered st2 @ [idx]\<rparr>"
      using False no by (subst visit_unfold) (simp add: path flip: st1_def st2_def)
    show ?thesis unfolding v
      using s2 no less.prems on1 False by (auto simp: topo_inv_def nth_list_update)
  qed
qed

definition topo_start :: "nat \<Rightarrow> TopoState" where
  "topo_start n = \<lparr>topo_ordered = [], topo_emitted = replicate n False, topo_on_path = replicate n False\<rparr>"

definition topo_fold :: "DaemonProfile \<Rightarrow> nat list \<Rightarrow> TopoState \<Rightarrow> TopoState" where
  "topo_fold p starts st = fold (\<lambda>start st. visit p start 0 st) starts st"

lemma topological_control_order_eq:
  "topological_control_order p = topo_ordered (topo_fold p [0..<length (p_controls p)] (topo_start (length (p_controls p))))"
  by (simp add: topological_control_order_def topo_fold_def topo_start_def order_index_def Let_def)

lemma topo_fold_inv:
  "topo_inv (length (p_controls p)) st \<Longrightarrow> topo_on_path st = replicate (length (p_controls p)) False \<Longrightarrow>
   set starts \<subseteq> {..<length (p_controls p)} \<Longrightarrow>
   topo_inv (length (p_controls p)) (topo_fold p starts st) \<and>
   (\<forall>i < length (p_controls p). topo_emitted st ! i \<or> i \<in> set starts \<longrightarrow> topo_emitted (topo_fold p starts st) ! i)"
proof (induction starts arbitrary: st)
  case (Cons s starts)
  have "s < length (p_controls p)" using Cons.prems(3) by simp
  note v = visit_inv [OF Cons.prems(1) this, of 0]
  then have "topo_inv (length (p_controls p)) (visit p s 0 st)"
    "topo_on_path (visit p s 0 st) = replicate (length (p_controls p)) False"
    "topo_emitted (visit p s 0 st) ! s"
    using Cons.prems \<open>s < _\<close> by (auto simp: MAX_PROFILE_CONTROLS_def)
  with Cons.IH [OF this(1,2)] Cons.prems(3) v show ?case by (auto simp: topo_fold_def)
qed (simp add: topo_fold_def)

lemma control_order_perm:
  "distinct (topological_control_order p) \<and>
   set (topological_control_order p) = {0..<length (p_controls p)}"
proof -
  let ?n = "length (p_controls p)"
  have start: "topo_inv ?n (topo_start ?n)" "topo_on_path (topo_start ?n) = replicate ?n False"
    by (simp_all add: topo_inv_def topo_start_def)
  have f: "topo_inv ?n (topo_fold p [0..<?n] (topo_start ?n))"
    "i < ?n \<Longrightarrow> topo_emitted (topo_fold p [0..<?n] (topo_start ?n)) ! i" for i
    using topo_fold_inv [OF start, of "[0..<?n]"] by (simp_all add: atLeast0LessThan)
  then show ?thesis by (auto simp: topological_control_order_eq topo_inv_def)
qed

text \<open>Lemma: every control is evaluated exactly once per tick. The evaluation order is a permutation of the
  control indices for every profile, with Sync cycles, self-references, dangling targets, duplicate
  ids and chains deeper than the recursion cap included.\<close>

theorem control_order_is_permutation:
  "distinct (topological_control_order p) \<and>
   set (topological_control_order p) = {0..<length (p_controls p)}"
  by (rule control_order_perm)

section \<open>Targets first\<close>

text \<open>Every emitted control stands behind its dependency.\<close>

definition deps_first :: "DaemonProfile \<Rightarrow> nat list \<Rightarrow> bool" where
  "deps_first p xs = (\<forall>k < length xs. \<forall>j. dep_of p (xs ! k) = Some j \<longrightarrow> j \<in> set (take k xs))"

lemma deps_first_snoc:
  "deps_first p xs \<Longrightarrow> (\<And>j. dep_of p i = Some j \<Longrightarrow> j \<in> set xs) \<Longrightarrow> deps_first p (xs @ [i])"
  by (auto simp: deps_first_def nth_append less_Suc_eq)

definition path_ok :: "DaemonProfile \<Rightarrow> nat \<Rightarrow> nat \<Rightarrow> TopoState \<Rightarrow> bool" where
  "path_ok p idx depth st =
     ((\<forall>i < length (p_controls p). topo_on_path st ! i \<longrightarrow> (i, idx) \<in> (dep_rel p)\<^sup>+) \<and>
      card {i. i < length (p_controls p) \<and> topo_on_path st ! i} = depth)"

lemma visit_deps:
  assumes ac: "acyclic (dep_rel p)" and small: "length (p_controls p) \<le> MAX_PROFILE_CONTROLS"
    and "topo_inv (length (p_controls p)) st" "idx < length (p_controls p)" "path_ok p idx depth st"
    and "deps_first p (topo_ordered st)"
  shows "deps_first p (topo_ordered (visit p idx depth st)) \<and> topo_emitted (visit p idx depth st) ! idx"
  using assms(3-)
proof (induction "MAX_PROFILE_CONTROLS - depth" arbitrary: idx depth st rule: less_induct)
  case less
  let ?n = "length (p_controls p)"
  let ?P = "{i. i < ?n \<and> topo_on_path st ! i}"
  have off: "\<not> topo_on_path st ! idx"
    using less.prems(2,3) ac by (auto simp: path_ok_def acyclic_def)
  have "?P \<subset> {..<?n}" using off less.prems(2) by auto
  then have "card ?P < ?n" by (metis card_lessThan finite_lessThan psubset_card_mono)
  then have depth: "depth < MAX_PROFILE_CONTROLS" using less.prems(3) small by (simp add: path_ok_def)
  show ?case
  proof (cases "topo_emitted st ! idx")
    case True
    then show ?thesis using less.prems by (subst (1 2) visit_unfold) simp
  next
    case False
    define st1 where "st1 = st\<lparr>topo_on_path := (topo_on_path st)[idx := True]\<rparr>"
    define st2 where "st2 = (case dep_of p idx of Some j \<Rightarrow> visit p j (depth + 1) st1 | None \<Rightarrow> st1)"
    have i1: "topo_inv ?n st1" using less.prems by (simp add: topo_inv_def st1_def)
    have on1: "topo_on_path st1 ! i \<longleftrightarrow> i = idx \<or> topo_on_path st ! i" if "i < ?n" for i
      using that less.prems by (auto simp: st1_def topo_inv_def nth_list_update)
    have s2: "topo_inv ?n st2 \<and> deps_first p (topo_ordered st2) \<and>
        (\<forall>j. dep_of p idx = Some j \<longrightarrow> j \<in> set (topo_ordered st2)) \<and> topo_emitted st2 ! idx = topo_emitted st1 ! idx"
    proof (cases "dep_of p idx")
      case None
      then show ?thesis using i1 less.prems(4) by (simp add: st2_def st1_def)
    next
      case (Some j)
      note j = dep_of_less [OF Some]
      have edge: "(idx, j) \<in> dep_rel p" using Some less.prems(2) by (simp add: dep_rel_def)
      have "{i. i < ?n \<and> topo_on_path st1 ! i} = insert idx ?P" using on1 less.prems(2) by auto
      then have "card {i. i < ?n \<and> topo_on_path st1 ! i} = depth + 1"
        using off less.prems(3) by (simp add: path_ok_def)
      moreover have "(i, j) \<in> (dep_rel p)\<^sup>+" if "i < ?n" "topo_on_path st1 ! i" for i
      proof (cases "i = idx")
        case False
        then have "(i, idx) \<in> (dep_rel p)\<^sup>+" using that on1 less.prems(3) by (simp add: path_ok_def)
        then show ?thesis using edge by (rule trancl_into_trancl)
      qed (use edge in auto)
      ultimately have "path_ok p j (depth + 1) st1" by (simp add: path_ok_def)
      moreover have "MAX_PROFILE_CONTROLS - (depth + 1) < MAX_PROFILE_CONTROLS - depth"
        using depth by simp
      ultimately have d: "deps_first p (topo_ordered (visit p j (depth + 1) st1)) \<and>
          topo_emitted (visit p j (depth + 1) st1) ! j"
        using less.hyps i1 j less.prems(4) by (simp add: st1_def)
      note v = visit_inv [OF i1 conjunct1 [OF j], of "depth + 1"]
      have "topo_emitted (visit p j (depth + 1) st1) ! idx = topo_emitted st1 ! idx"
        using v on1 less.prems(2) by blast
      with d v j Some show ?thesis by (auto simp: st2_def topo_inv_def)
    qed
    then have "\<not> topo_emitted st2 ! idx" using False by (simp add: st1_def)
    then have v: "visit p idx depth st = st2\<lparr>topo_on_path := (topo_on_path st2)[idx := False],
        topo_emitted := (topo_emitted st2)[idx := True], topo_ordered := topo_ordered st2 @ [idx]\<rparr>"
      using False off depth by (subst visit_unfold) (simp flip: st1_def st2_def)
    show ?thesis unfolding v
      using s2 less.prems(2) by (auto simp: topo_inv_def intro!: deps_first_snoc)
  qed
qed

lemma topo_fold_deps:
  assumes "acyclic (dep_rel p)" "length (p_controls p) \<le> MAX_PROFILE_CONTROLS"
  shows "topo_inv (length (p_controls p)) st \<Longrightarrow> topo_on_path st = replicate (length (p_controls p)) False \<Longrightarrow>
   set starts \<subseteq> {..<length (p_controls p)} \<Longrightarrow> deps_first p (topo_ordered st) \<Longrightarrow>
   deps_first p (topo_ordered (topo_fold p starts st))"
proof (induction starts arbitrary: st)
  case (Cons s starts)
  have s: "s < length (p_controls p)" using Cons.prems(3) by simp
  note v = visit_inv [OF Cons.prems(1) s, of 0]
  have "{i. i < length (p_controls p) \<and> topo_on_path st ! i} = {}" using Cons.prems(2) by auto
  then have "path_ok p s 0 st" using Cons.prems(2) by (simp add: path_ok_def)
  from visit_deps [OF assms Cons.prems(1) s this Cons.prems(4)] v Cons show ?case
    by (simp add: topo_fold_def)
qed (simp add: topo_fold_def)

lemma control_order_deps:
  assumes "acyclic (dep_rel p)" "length (p_controls p) \<le> MAX_PROFILE_CONTROLS"
  shows "deps_first p (topological_control_order p)"
  unfolding topological_control_order_eq
  by (rule topo_fold_deps [OF assms])
     (auto simp: topo_inv_def topo_start_def deps_first_def)

section \<open>Accepted profiles\<close>

lemma fold_insert_distinct:
  assumes "\<And>c m. f c m = (case g c of Some v \<Rightarrow> hm_insert (h c) v m | None \<Rightarrow> m)"
    and "distinct (map h cs)" "c \<in> set cs" "g c = Some v"
  shows "map_of (fold f cs m) (h c) = Some v"
proof -
  have keep: "k \<notin> h ` set ds \<Longrightarrow> map_of (fold f ds m) k = map_of m k" for ds k m
    by (induction ds arbitrary: m) (auto simp: assms(1) split: option.split)
  obtain as bs where cs: "cs = as @ c # bs" using assms(3) by (metis split_list)
  have "h c \<notin> h ` set bs" using assms(2) by (simp add: cs)
  then show ?thesis using assms(4) by (simp add: cs keep assms(1))
qed

lemma sync_target_of:
  assumes "distinct (map cv_id (p_curves p))" "find_curve p i = Some c" "cv_type c = ''sync''"
  shows "map_of (hm_collect (map (\<lambda>c. (cv_id c, sync_control_id c))
    (filter (\<lambda>c. cv_type c = ''sync'') (p_curves p)))) i = Some (sync_control_id c)"
proof -
  let ?xs = "map (\<lambda>c. (cv_id c, sync_control_id c)) (filter (\<lambda>c. cv_type c = ''sync'') (p_curves p))"
  have c: "c \<in> set (p_curves p)" "cv_id c = i" using assms(2) by (auto simp: find_curve_def find_Some_iff)
  have "distinct (map fst ?xs)" using assms(1) by (simp add: comp_def distinct_map_filter)
  moreover have "(i, sync_control_id c) \<in> set ?xs" using c assms(3) by auto
  ultimately show ?thesis by (simp add: map_of_hm_collect_distinct hm_ok_def)
qed

lemma dep_edge:
  assumes "distinct (map cv_id (p_curves p))" "distinct (map lc_id (p_controls p))" "(i, j) \<in> dep_rel p"
  shows "(lc_id (p_controls p ! i), lc_id (p_controls p ! j)) \<in> edges (sync_adj p)"
proof -
  let ?c = "p_controls p ! i"
  let ?tg = "hm_collect (map (\<lambda>c. (cv_id c, sync_control_id c))
    (filter (\<lambda>c. cv_type c = ''sync'') (p_curves p)))"
  obtain d where i: "i < length (p_controls p)" and d: "sync_dependency ?c p = Some d"
    and j: "map_of (order_index p) d = Some j"
    using assms(3) by (auto simp: dep_rel_def dep_of_def split: option.splits if_splits)
  have dj: "lc_id (p_controls p ! j) = d" using order_index_Some [OF j] by simp
  obtain cv where cv: "lc_mode ?c = ''curve''" "find_curve p (lc_curve_id ?c) = Some cv"
    "cv_type cv = ''sync''" "sync_control_id cv = d" "d \<noteq> []"
    using d by (auto simp: sync_dependency_def split: option.splits if_splits)
  note tgt = sync_target_of [OF assms(1) cv(2,3)]
  let ?g = "\<lambda>c. if lc_mode c = ''curve'' then (case map_of ?tg (lc_curve_id c) of
      Some t \<Rightarrow> if t \<noteq> [] then Some [t] else None | None \<Rightarrow> None) else None"
  have "map_of (sync_adj p) (lc_id ?c) = Some [d]"
    unfolding sync_adj_def Let_def
    by (rule fold_insert_distinct [where g = ?g])
       (use i assms(2) cv tgt in \<open>auto split: option.split\<close>)
  then show ?thesis by (simp add: edges_def neighbors_of_def dj)
qed

lemma trancl_image: "(\<And>i j. (i, j) \<in> r \<Longrightarrow> (f i, f j) \<in> s) \<Longrightarrow> (a, b) \<in> r\<^sup>+ \<Longrightarrow> (f a, f b) \<in> s\<^sup>+"
  by (erule trancl_induct) (auto intro: trancl_into_trancl)

text \<open>Lemma: on an accepted profile a Sync reads a value of the same tick. When the validator reports no
  error and ids are unique, every Sync target stands before the control that mirrors it in the
  evaluation order, so the mirror never falls back for lack of an already computed target.\<close>

theorem sync_targets_come_first:
  assumes "is_valid (validate p known)"
    and "distinct (map cv_id (p_curves p))" "distinct (map lc_id (p_controls p))"
    and "k < length (topological_control_order p)"
    and "dep_of p (topological_control_order p ! k) = Some j"
  shows "j \<in> set (take k (topological_control_order p))"
proof -
  have v: "length (p_controls p) \<le> MAX_PROFILE_CONTROLS" "sync_cycle p = None"
    using assms(1) by (simp_all add: validate_clean)
  have "acyclic (edges (sync_adj p))"
    using graph_first_cycle_edges [of "sync_adj p"] v(2) by (simp add: sync_cycle_def)
  then have "acyclic (dep_rel p)"
    using trancl_image [of "dep_rel p" "\<lambda>i. lc_id (p_controls p ! i)" "edges (sync_adj p)"]
      dep_edge [OF assms(2,3)] by (auto simp: acyclic_def)
  from control_order_deps [OF this v(1)] assms(4,5) show ?thesis by (auto simp: deps_first_def)
qed

definition sync_curve :: CurveConfig where
  "sync_curve = sample_curve\<lparr>cv_id := ''s'', cv_type := ''sync'', sync_control_id := ''b''\<rparr>"

definition sync_profile :: DaemonProfile where
  "sync_profile = sample_profile\<lparr>p_curves := [sample_curve, sync_curve],
     p_controls := [sample_control\<lparr>lc_curve_id := ''s''\<rparr>, sample_control\<lparr>lc_id := ''b''\<rparr>]\<rparr>"

lemma sync_profile_valid: "is_valid (validate sync_profile [])"
proof -
  have "graph_first_cycle (sync_adj sync_profile) = None" "graph_first_cycle (mix_adj sync_profile) = None"
    by code_simp+
  then show ?thesis
    by (simp add: validate_clean sync_profile_def sync_curve_def sample_profile_def sample_curve_def
        sample_control_def curve_num_ok_def control_num_ok_def opt_all_def pct_range_def range_ok_def
        type_ok_def MAX_PROFILE_CURVES_def MAX_PROFILE_CONTROLS_def MAX_CURVE_POINTS_def
        mix_cycle_def sync_cycle_def)
qed

lemma sync_profile_order:
  "topological_control_order sync_profile = [1, 0]" "dep_of sync_profile 0 = Some 1"
  by code_simp+

theorem sync_targets_come_first_witness:
  "1 \<in> set (take 1 (topological_control_order sync_profile))"
  by (rule sync_targets_come_first [OF sync_profile_valid, of 1])
     (simp_all add: sync_profile_order, simp_all add: sync_profile_def sync_curve_def
        sample_curve_def sample_control_def)

end
