(* ===== verification/Profile_Engine.thy ===== *)
theory Profile_Engine
  imports Tuning Control_Order
begin

text \<open>
  The evaluator of \<open>profile_engine/mod.rs\<close>: one tick turns the profile, the sensors and the override
  snapshot into PWM commands, and updates the cross-tick state. Each step of the loop body is one
  definition; \<open>evaluate_profile_with_overrides\<close> composes them in the order of the source.
\<close>

section \<open>The evaluator\<close>

definition static_cache_of :: "DaemonProfile \<Rightarrow> StaticEvalCache" where
  "static_cache_of profile =
     \<lparr>ec_order = topological_control_order profile,
      ec_curve_index = hm_collect (map (\<lambda>(i, c). (cv_id c, i)) (List.enumerate 0 (p_curves profile)))\<rparr>"

definition ensure_static_cache :: "DaemonProfile \<Rightarrow> ProfileEngineState \<Rightarrow> ProfileEngineState" where
  "ensure_static_cache profile st =
     (let valid = (case es_static_cache st of
          Some c \<Rightarrow> length (ec_order c) = length (p_controls profile) | None \<Rightarrow> False)
      in if \<not> valid then st\<lparr>es_static_cache := Some (static_cache_of profile)\<rparr> else st)"

definition eval_order :: "ProfileEngineState \<Rightarrow> nat list" where
  "eval_order st = (case es_static_cache st of Some c \<Rightarrow> ec_order c | None \<Rightarrow> [])"

definition curve_index_of :: "ProfileEngineState \<Rightarrow> string \<Rightarrow> nat option" where
  "curve_index_of st curve_id =
     (case es_static_cache st of Some c \<Rightarrow> map_of (ec_curve_index c) curve_id | None \<Rightarrow> None)"

definition gpu_zero_rpm :: "ControlMember \<Rightarrow> bool" where
  "gpu_zero_rpm member = (cm_source member = ''amd_gpu'' \<and> cm_fan_zero_rpm member)"

definition command_for :: "ControlMember \<Rightarrow> u8 \<Rightarrow> PwmCommand" where
  "command_for member pwm = \<lparr>cmd_member_id = cm_member_id member, cmd_source = cm_source member,
     cmd_pwm_percent = pwm, cmd_gpu_fan_zero_rpm = gpu_zero_rpm member\<rparr>"

definition override_command :: "LogicalControl \<Rightarrow> u8 \<Rightarrow> (string, HeaderRole) hmap \<Rightarrow>
    (string, HeaderFacts) hmap \<Rightarrow> ControlMember \<Rightarrow> PwmCommand" where
  "override_command control override_pwm roles facts member =
     command_for member
       (to_pct (f64_max (f64_of_nat override_pwm) (member_effective_floor control member roles facts)))"

definition member_key :: "LogicalControl \<Rightarrow> ControlMember \<Rightarrow> string" where
  "member_key control member = lc_id control @ ''::m::'' @ cm_member_id member"

definition evaluate_member :: "LogicalControl \<Rightarrow> f64 \<Rightarrow> u8 \<Rightarrow> (string, HeaderRole) hmap \<Rightarrow>
    (string, HeaderFacts) hmap \<Rightarrow> ControlMember \<Rightarrow> PwmCommand list \<times> ProfileEngineState \<Rightarrow>
    PwmCommand list \<times> ProfileEngineState" where
  "evaluate_member control raw_output pwm_percent roles facts member = (\<lambda>(commands, st).
     let effective_floor = member_effective_floor control member roles facts;
         hard = floor_is_hard member roles facts
     in if \<not> f64_eq effective_floor (minimum_pct control) \<or> hard then
          (let key = member_key control member;
               tuned_member = apply_tuning_with_floor control raw_output (last_output st key)
                 effective_floor hard
           in (commands @ [command_for member (to_pct tuned_member)],
               st\<lparr>es_last_output := hm_insert key tuned_member (es_last_output st)\<rparr>))
        else (commands @ [command_for member pwm_percent], st))"

definition control_raw_output :: "DaemonProfile \<Rightarrow> sensors \<Rightarrow> LogicalControl \<Rightarrow> (string, f64) hmap \<Rightarrow>
    ProfileEngineState \<Rightarrow> (SkipReason + f64) \<times> ProfileEngineState" where
  "control_raw_output profile sensors control tick_outputs st =
     (if lc_mode control = ''manual'' then (Inr (manual_output_pct control), st)
      else case curve_index_of st (lc_curve_id control) of
             None \<Rightarrow> (Inl CurveNotFound, st)
           | Some ci \<Rightarrow>
               (let curve = p_curves profile ! ci;
                    reason = skip_reason curve
                in case curve_output_for_control control curve profile sensors tick_outputs st of
                     (Some v, st') \<Rightarrow> (Inr v, st')
                   | (None, st') \<Rightarrow> (Inl reason, st')))"

type_synonym eval_acc = "PwmCommand list \<times> (string, f64) hmap \<times> SkipRecord list \<times> ProfileEngineState"

definition evaluate_control :: "DaemonProfile \<Rightarrow> sensors \<Rightarrow> OverrideSnapshot \<Rightarrow> (string, HeaderRole) hmap \<Rightarrow>
    (string, HeaderFacts) hmap \<Rightarrow> nat \<Rightarrow> eval_acc \<Rightarrow> eval_acc" where
  "evaluate_control profile sensors overrides roles facts idx = (\<lambda>(commands, tick_outputs, skipped, st).
     let control = p_controls profile ! idx in
     case map_of (os_controls overrides) (lc_id control) of
       Some override_pwm \<Rightarrow>
         (commands @ map (override_command control override_pwm roles facts) (lc_members control),
          hm_insert (lc_id control) (f64_of_nat override_pwm) tick_outputs, skipped, st)
     | None \<Rightarrow>
         (case control_raw_output profile sensors control tick_outputs st of
            (Inl reason, st) \<Rightarrow>
              (commands, tick_outputs,
               skipped @ [\<lparr>sr_control_id = lc_id control, sr_control_name = lc_name control, sr_reason = reason\<rparr>],
               st)
          | (Inr raw_output, st) \<Rightarrow>
              (let tuned = apply_tuning control raw_output (last_output st (lc_id control));
                   st = st\<lparr>es_last_output := hm_insert (lc_id control) tuned (es_last_output st)\<rparr>;
                   tick_outputs = hm_insert (lc_id control) tuned tick_outputs;
                   (commands, st) =
                     fold (evaluate_member control raw_output (to_pct tuned) roles facts)
                       (lc_members control) (commands, st)
               in (commands, tick_outputs, skipped, st))))"

definition pin_identified :: "OverrideSnapshot \<Rightarrow> PwmCommand \<Rightarrow> PwmCommand" where
  "pin_identified overrides cmd =
     (case map_of (os_identify overrides) (cmd_member_id cmd) of
        Some target \<Rightarrow> cmd\<lparr>cmd_pwm_percent := target\<rparr>
      | None \<Rightarrow> cmd)"

definition evaluate_profile_with_overrides :: "DaemonProfile \<Rightarrow> sensors \<Rightarrow> OverrideSnapshot \<Rightarrow>
    ProfileEngineState \<Rightarrow> PwmCommand list \<times> ProfileEngineState" where
  "evaluate_profile_with_overrides profile sensors overrides st0 =
     (let st = snd (sync_profile_id (p_id profile) st0);
          roles = es_assigned_roles st;
          facts = es_header_facts st;
          st = ensure_static_cache profile st;
          (commands, tick_outputs, skipped, st) =
            fold (evaluate_control profile sensors overrides roles facts) (eval_order st) ([], [], [], st);
          commands = (if os_identify overrides \<noteq> [] then map (pin_identified overrides) commands else commands)
      in (commands, st\<lparr>es_skipped_this_tick := skipped, es_tick_outputs := tick_outputs\<rparr>))"

definition evaluate_profile :: "DaemonProfile \<Rightarrow> sensors \<Rightarrow> ProfileEngineState \<Rightarrow>
    PwmCommand list \<times> ProfileEngineState" where
  "evaluate_profile profile sensors st = evaluate_profile_with_overrides profile sensors snapshot_default st"

definition profile_pump_member_ids :: "DaemonProfile \<Rightarrow> ProfileEngineState \<Rightarrow> string list" where
  "profile_pump_member_ids profile st =
     remdups_adj (sort (map cm_member_id
       (filter (\<lambda>m. member_pump_floor m (es_assigned_roles st) (es_header_facts st) \<noteq> None)
         (concat (map lc_members (p_controls profile))))))"

section \<open>Histories of the engine\<close>

record EngineTick =
  tk_sensors :: sensors
  tk_overrides :: OverrideSnapshot
  tk_roles :: "(string, HeaderRole) hmap"
  tk_facts :: "(string, HeaderFacts) hmap"
  tk_quarantined :: "string list"

definition engine_tick :: "DaemonProfile \<Rightarrow> EngineTick \<Rightarrow> ProfileEngineState \<Rightarrow> PwmCommand list \<times> ProfileEngineState" where
  "engine_tick p t st =
     evaluate_profile_with_overrides p (tk_sensors t) (tk_overrides t)
       ((set_header_facts (tk_facts t) (set_assigned_roles (tk_roles t) st))\<lparr>quarantined_sensor_ids := tk_quarantined t\<rparr>)"

text \<open>Everything the loop does to the state between activations of one profile.\<close>

datatype EngineOp =
    EvTick EngineTick
  | EvBackends OverrideSnapshot DeliveryTargets
  | EvCommit instant
  | EvResetControl string
  | EvForcedReset
  | EvDeactivate

fun engine_step :: "DaemonProfile \<Rightarrow> EngineOp \<Rightarrow> ProfileEngineState \<Rightarrow> ProfileEngineState" where
  "engine_step p (EvTick t) st = snd (engine_tick p t st)"
| "engine_step p (EvBackends ov tg) st = snd (note_backend_unavailable p ov tg st)"
| "engine_step p (EvCommit now) st = snd (commit_skips now st)"
| "engine_step p (EvResetControl c) st = reset_control c st"
| "engine_step p EvForcedReset st = reset_for_forced_tick st"
| "engine_step p EvDeactivate st = deactivate st"

definition engine_run :: "DaemonProfile \<Rightarrow> EngineOp list \<Rightarrow> ProfileEngineState \<Rightarrow> ProfileEngineState" where
  "engine_run p ops st = fold (engine_step p) ops st"

section \<open>The invariant of the step-rate trackers\<close>

definition profile_ok :: "DaemonProfile \<Rightarrow> bool" where
  "profile_ok p = (list_all control_ok (p_controls p) \<and> list_all curve_ok (p_curves p))"

text \<open>No control id is also the key of a member tracker, and members that share a tracker are the
  same fan.\<close>

definition keys_separate :: "DaemonProfile \<Rightarrow> bool" where
  "keys_separate p =
     list_all (\<lambda>c. list_all (\<lambda>m.
       list_all (\<lambda>c'. lc_id c' \<noteq> member_key c m \<and>
         list_all (\<lambda>m'. member_key c m = member_key c' m' \<longrightarrow>
           cm_member_id m = cm_member_id m' \<and> member_is_gpu m = member_is_gpu m') (lc_members c'))
         (p_controls p)) (lc_members c)) (p_controls p)"

text \<open>A lower bound per fan that the floor of every hard member meets.\<close>

definition floors_meet :: "(string \<Rightarrow> nat) \<Rightarrow> DaemonProfile \<Rightarrow> EngineTick \<Rightarrow> bool" where
  "floors_meet F p t =
     list_all (\<lambda>c. list_all (\<lambda>m. F (cm_member_id m) \<le> 100 \<and>
       (floor_is_hard m (tk_roles t) (tk_facts t) \<longrightarrow>
         Fin (of_nat (F (cm_member_id m))) \<le> member_effective_floor c m (tk_roles t) (tk_facts t)))
       (lc_members c)) (p_controls p)"

definition op_ok :: "(string \<Rightarrow> nat) \<Rightarrow> DaemonProfile \<Rightarrow> EngineOp \<Rightarrow> bool" where
  "op_ok F p op = (case op of EvTick t \<Rightarrow> sensors_sane (tk_sensors t) \<and> floors_meet F p t | _ \<Rightarrow> True)"

definition trackers_ok :: "(string \<Rightarrow> nat) \<Rightarrow> DaemonProfile \<Rightarrow> (string, f64) hmap \<Rightarrow> bool" where
  "trackers_ok F p m = ((\<forall>k v. map_of m k = Some v \<longrightarrow> pct_ok v) \<and>
     (\<forall>c \<in> set (p_controls p). \<forall>mb \<in> set (lc_members c). \<forall>v.
        \<not> member_is_gpu mb \<longrightarrow> map_of m (member_key c mb) = Some v \<longrightarrow> Fin (of_nat (F (cm_member_id mb))) \<le> v))"

definition engine_inv :: "(string \<Rightarrow> nat) \<Rightarrow> DaemonProfile \<Rightarrow> ProfileEngineState \<Rightarrow> bool" where
  "engine_inv F p st = (hm_ok (es_last_output st) \<and> trackers_ok F p (es_last_output st) \<and> vals_ok (es_last_curve_output st) \<and>
     (es_static_cache st = None \<or> es_static_cache st = Some (static_cache_of p)))"

lemma pct_range_NaN [simp]: "\<not> pct_range NaN"
  by (simp add: pct_range_def)

lemma trackers_vals_ok: "trackers_ok F p m \<Longrightarrow> vals_ok m"
  by (auto simp: trackers_ok_def vals_ok_def pct_ok_def)

lemma trackers_ok_opt: "trackers_ok F p m \<Longrightarrow> opt_all pct_ok (map_of m k)"
  by (cases "map_of m k") (auto simp: trackers_ok_def)

lemma keys_separateD:
  assumes "keys_separate p" "c \<in> set (p_controls p)" "m \<in> set (lc_members c)" "c' \<in> set (p_controls p)"
  shows "lc_id c' \<noteq> member_key c m"
    and "m' \<in> set (lc_members c') \<Longrightarrow> member_key c m = member_key c' m' \<Longrightarrow>
      cm_member_id m = cm_member_id m' \<and> member_is_gpu m = member_is_gpu m'"
  using assms unfolding keys_separate_def list_all_iff by blast+

lemma trackers_insert_control:
  assumes "trackers_ok F p m" "keys_separate p" "c \<in> set (p_controls p)" "pct_ok v"
  shows "trackers_ok F p (hm_insert (lc_id c) v m)"
  using assms(1,4) keys_separateD(1) [OF assms(2) _ _ assms(3), THEN not_sym]
  by (auto simp: trackers_ok_def split: if_splits)

lemma trackers_insert_member:
  assumes "trackers_ok F p m" "keys_separate p" "c \<in> set (p_controls p)" "mb \<in> set (lc_members c)" "pct_ok v"
    and "\<not> member_is_gpu mb \<Longrightarrow> Fin (of_nat (F (cm_member_id mb))) \<le> v"
  shows "trackers_ok F p (hm_insert (member_key c mb) v m)"
  unfolding trackers_ok_def
proof (intro conjI allI ballI impI)
  fix c' mb' w
  assume *: "c' \<in> set (p_controls p)" "mb' \<in> set (lc_members c')" "\<not> member_is_gpu mb'"
    "map_of (hm_insert (member_key c mb) v m) (member_key c' mb') = Some w"
  show "Fin (of_nat (F (cm_member_id mb'))) \<le> w"
  proof (cases "member_key c' mb' = member_key c mb")
    case True
    then have "cm_member_id mb' = cm_member_id mb \<and> member_is_gpu mb' = member_is_gpu mb"
      using keys_separateD(2) [OF assms(2) *(1,2) assms(3,4)] by blast
    then show ?thesis using assms(6) *(3,4) True by simp
  next
    case False
    then show ?thesis using * assms(1) by (auto simp: trackers_ok_def)
  qed
qed (use assms(1,5) in \<open>auto simp: trackers_ok_def split: if_splits\<close>)

text \<open>What a command promises: it is a percentage, and at least the fan's bound when every member of
  the profile it could stand for is hard-floored.\<close>

definition cmd_ok :: "(string \<Rightarrow> nat) \<Rightarrow> DaemonProfile \<Rightarrow> (string, HeaderRole) hmap \<Rightarrow> (string, HeaderFacts) hmap \<Rightarrow>
    PwmCommand \<Rightarrow> bool" where
  "cmd_ok F p roles facts cmd =
     (cmd_pwm_percent cmd \<le> 100 \<and>
      (list_all (\<lambda>c. list_all (\<lambda>m. cm_member_id m = cmd_member_id cmd \<and> cm_source m = cmd_source cmd \<longrightarrow>
          floor_is_hard m roles facts) (lc_members c)) (p_controls p) \<longrightarrow>
        F (cmd_member_id cmd) \<le> cmd_pwm_percent cmd))"

lemma command_for_ok:
  assumes "c \<in> set (p_controls p)" "m \<in> set (lc_members c)" "pwm \<le> 100"
    and "floor_is_hard m roles facts \<Longrightarrow> F (cm_member_id m) \<le> pwm"
  shows "cmd_ok F p roles facts (command_for m pwm)"
  using assms by (auto simp: cmd_ok_def command_for_def list_all_iff)

lemma floors_meetD:
  assumes "floors_meet F p t" "c \<in> set (p_controls p)" "m \<in> set (lc_members c)"
  shows "F (cm_member_id m) \<le> 100" "floor_is_hard m (tk_roles t) (tk_facts t) \<Longrightarrow>
    Fin (of_nat (F (cm_member_id m))) \<le> member_effective_floor c m (tk_roles t) (tk_facts t)"
  using assms by (auto simp: floors_meet_def list_all_iff)

lemma evaluate_member_ok:
  assumes "profile_ok p" "keys_separate p" "floors_meet F p t" "c \<in> set (p_controls p)"
    and "m \<in> set (lc_members c)" "raw \<noteq> NaN" "pwm \<le> 100"
    and "engine_inv F p st" "list_all (cmd_ok F p (tk_roles t) (tk_facts t)) cmds"
    and "evaluate_member c raw pwm (tk_roles t) (tk_facts t) m (cmds, st) = (cmds', st')"
  shows "engine_inv F p st' \<and> list_all (cmd_ok F p (tk_roles t) (tk_facts t)) cmds' \<and>
    es_static_cache st' = es_static_cache st"
proof -
  let ?roles = "tk_roles t" and ?facts = "tk_facts t"
  let ?fl = "member_effective_floor c m ?roles ?facts" and ?hard = "floor_is_hard m ?roles ?facts"
  let ?key = "member_key c m" and ?n = "F (cm_member_id m)"
  let ?v = "apply_tuning_with_floor c raw (last_output st ?key) ?fl ?hard"
  have cok: "control_ok c" using assms(1,4) by (simp add: profile_ok_def list_all_iff)
  have tr: "trackers_ok F p (es_last_output st)" using assms(8) by (simp add: engine_inv_def)
  note fl = effective_floor_ok [OF cok, of m ?roles ?facts]
  have prev: "opt_all pct_ok (last_output st ?key)" using trackers_ok_opt [OF tr] by (simp add: last_output_def)
  note v = tuning_ok [OF cok assms(6) fl prev, of ?hard]
  have lower: "?hard \<Longrightarrow> Fin (of_nat ?n) \<le> ?v"
  proof -
    assume h: ?hard
    have "opt_all (\<lambda>l. Fin (of_nat ?n) \<le> l) (last_output st ?key)"
      using tr assms(4,5) hard_not_gpu [OF h]
      by (cases "last_output st ?key") (auto simp: trackers_ok_def last_output_def)
    then show ?thesis
      using tuning_lower_bound [OF cok assms(6) fl prev floors_meetD(2) [OF assms(3,4,5) h]] h by simp
  qed
  show ?thesis
  proof (cases "\<not> f64_eq ?fl (minimum_pct c) \<or> ?hard")
    case True
    have "\<not> member_is_gpu m \<Longrightarrow> ?hard"
    proof (rule ccontr)
      assume "\<not> member_is_gpu m" "\<not> ?hard"
      then have "?fl = minimum_pct c" by (intro floor_soft_eq)
      moreover have "f64_eq (minimum_pct c) (minimum_pct c)"
        using cok by (cases "minimum_pct c") (auto simp: f64_eq_def control_ok_def control_num_ok_def pct_range_def)
      ultimately show False using True \<open>\<not> ?hard\<close> by simp
    qed
    then have ins: "trackers_ok F p (hm_insert ?key ?v (es_last_output st))"
      using lower by (intro trackers_insert_member [OF tr assms(2,4,5) v]) blast
    have "cmd_ok F p ?roles ?facts (command_for m (to_pct ?v))"
      using assms(4,5) to_pct_le lower to_pct_ge floors_meetD(1) [OF assms(3,4,5)]
      by (intro command_for_ok) auto
    with ins show ?thesis
      using True assms(8-10) by (auto simp: evaluate_member_def Let_def engine_inv_def)
  next
    case False
    then have "cmd_ok F p ?roles ?facts (command_for m pwm)"
      using assms(4,5,7) by (intro command_for_ok) auto
    then show ?thesis using False assms(8-10) by (auto simp: evaluate_member_def Let_def)
  qed
qed

lemma members_fold_ok:
  assumes "profile_ok p" "keys_separate p" "floors_meet F p t" "c \<in> set (p_controls p)"
    and "set ms \<subseteq> set (lc_members c)" "raw \<noteq> NaN" "pwm \<le> 100"
    and "engine_inv F p st" "list_all (cmd_ok F p (tk_roles t) (tk_facts t)) cmds"
    and "fold (evaluate_member c raw pwm (tk_roles t) (tk_facts t)) ms (cmds, st) = (cmds', st')"
  shows "engine_inv F p st' \<and> list_all (cmd_ok F p (tk_roles t) (tk_facts t)) cmds' \<and>
    es_static_cache st' = es_static_cache st"
  using assms(5,8-)
proof (induction ms arbitrary: cmds st)
  case (Cons m ms)
  obtain cmds1 st1 where s: "evaluate_member c raw pwm (tk_roles t) (tk_facts t) m (cmds, st) = (cmds1, st1)"
    by (metis surj_pair)
  have "m \<in> set (lc_members c)" using Cons.prems(1) by simp
  note e = evaluate_member_ok [OF assms(1-4) this assms(6,7) Cons.prems(2,3) s]
  show ?case using Cons.IH [of st1 cmds1] e Cons.prems(1,4) s by simp
qed simp

definition acc_ok :: "(string \<Rightarrow> nat) \<Rightarrow> DaemonProfile \<Rightarrow> EngineTick \<Rightarrow> eval_acc \<Rightarrow> bool" where
  "acc_ok F p t = (\<lambda>(cmds, outs, skipped, st). engine_inv F p st \<and> finite_vals outs \<and>
     es_static_cache st = Some (static_cache_of p) \<and>
     list_all (cmd_ok F p (tk_roles t) (tk_facts t)) cmds)"

lemma cache_index_mem:
  "es_static_cache st = Some (static_cache_of p) \<Longrightarrow> curve_index_of st i = Some ci \<Longrightarrow>
     ci < length (p_curves p) \<and> cv_id (p_curves p ! ci) = i"
proof -
  assume "es_static_cache st = Some (static_cache_of p)" "curve_index_of st i = Some ci"
  then have "(i, ci) \<in> set (map (\<lambda>(i, c). (cv_id c, i)) (List.enumerate 0 (p_curves p)))"
    by (auto simp: curve_index_of_def static_cache_of_def map_of_hm_collect dest!: map_of_SomeD)
  then show ?thesis by (auto simp: in_set_enumerate_eq)
qed

lemma curve_output_cache:
  "curve_output_for_control control curve p sensors outs st = (v, st') \<Longrightarrow> es_static_cache st' = es_static_cache st"
  by (auto simp: curve_output_for_control_def evaluate_trigger_def evaluate_curve_with_deadband_def
      deadband_reevaluate_def Let_def split: if_splits option.splits prod.splits)

lemma control_raw_output_ok:
  assumes "profile_ok p" "sensors_sane ss" "c \<in> set (p_controls p)" "engine_inv F p st" "finite_vals outs"
    and "es_static_cache st = Some (static_cache_of p)"
    and "control_raw_output p ss c outs st = (r, st')"
  shows "engine_inv F p st' \<and> es_static_cache st' = Some (static_cache_of p) \<and>
    es_last_output st' = es_last_output st \<and> (\<forall>v. r = Inr v \<longrightarrow> v \<noteq> NaN)"
proof (cases "lc_mode c = ''manual''")
  case True
  have "pct_range (manual_output_pct c)"
    using assms(1,3) by (auto simp: profile_ok_def control_ok_def control_num_ok_def list_all_iff)
  then show ?thesis using True assms(4,6,7) by (auto simp: control_raw_output_def dest: pct_range_not_NaN)
next
  case False
  show ?thesis
  proof (cases "curve_index_of st (lc_curve_id c)")
    case None
    then show ?thesis using False assms(4,6,7) by (auto simp: control_raw_output_def)
  next
    case (Some ci)
    let ?cv = "p_curves p ! ci"
    have cv: "curve_ok ?cv" "list_all curve_ok (p_curves p)"
      using cache_index_mem [OF assms(6) Some] assms(1) by (auto simp: profile_ok_def list_all_iff)
    obtain v where v: "curve_output_for_control c ?cv p ss outs st = (v, st')"
      using False Some assms(7) by (auto simp: control_raw_output_def Let_def split: prod.splits option.splits)
    have inv: "vals_ok (es_last_curve_output st)" "vals_ok (es_last_output st)"
      using assms(4) trackers_vals_ok by (auto simp: engine_inv_def)
    note r = curve_output_range [OF cv assms(2) inv assms(5) v]
    have "r = Inr w \<Longrightarrow> v = Some w" for w
      using False Some assms(7) v by (auto simp: control_raw_output_def Let_def split: option.splits)
    then show ?thesis
      using r curve_output_cache [OF v] assms(4,6) by (auto simp: engine_inv_def pct_range_not_NaN)
  qed
qed

lemma override_command_ok:
  assumes "profile_ok p" "floors_meet F p t" "c \<in> set (p_controls p)" "m \<in> set (lc_members c)"
  shows "cmd_ok F p (tk_roles t) (tk_facts t) (override_command c pwm (tk_roles t) (tk_facts t) m)"
proof -
  let ?fl = "member_effective_floor c m (tk_roles t) (tk_facts t)"
  have "control_ok c" using assms(1,3) by (simp add: profile_ok_def list_all_iff)
  then have "?fl \<noteq> NaN" using effective_floor_ok pct_ok_not_NaN by blast
  moreover have "f64_of_nat pwm \<noteq> NaN" by (simp add: f64_of_nat_def)
  ultimately have "floor_is_hard m (tk_roles t) (tk_facts t) \<Longrightarrow>
      Fin (of_nat (F (cm_member_id m))) \<le> f64_max (f64_of_nat pwm) ?fl"
    using floors_meetD(2) [OF assms(2-4)] by (intro f64_max_ge) auto
  then show ?thesis unfolding override_command_def
    using assms(3,4) to_pct_le to_pct_ge floors_meetD(1) [OF assms(2-4)] by (intro command_for_ok) auto
qed

lemma finite_vals_insert: "finite_vals m \<Longrightarrow> is_finite v \<Longrightarrow> finite_vals (hm_insert k v m)"
  by (simp add: finite_vals_def)

lemma evaluate_control_ok:
  assumes "profile_ok p" "keys_separate p" "floors_meet F p t" "sensors_sane (tk_sensors t)"
    and "idx < length (p_controls p)" "acc_ok F p t acc"
  shows "acc_ok F p t (evaluate_control p (tk_sensors t) ov (tk_roles t) (tk_facts t) idx acc)"
proof -
  obtain cmds outs sk st where acc: "acc = (cmds, outs, sk, st)" by (metis prod_cases4)
  let ?c = "p_controls p ! idx"
  have c: "?c \<in> set (p_controls p)" using assms(5) by simp
  have cok: "control_ok ?c" using assms(1) c by (simp add: profile_ok_def list_all_iff)
  have a: "engine_inv F p st" "finite_vals outs" "es_static_cache st = Some (static_cache_of p)"
    "list_all (cmd_ok F p (tk_roles t) (tk_facts t)) cmds"
    using assms(6) by (simp_all add: acc acc_ok_def)
  show ?thesis
  proof (cases "map_of (os_controls ov) (lc_id ?c)")
    case (Some pwm)
    have "list_all (cmd_ok F p (tk_roles t) (tk_facts t))
        (map (override_command ?c pwm (tk_roles t) (tk_facts t)) (lc_members ?c))"
      using override_command_ok [OF assms(1,3) c] by (simp add: list_all_iff)
    then show ?thesis
      using a Some by (simp add: acc evaluate_control_def Let_def acc_ok_def finite_vals_insert f64_of_nat_def)
  next
    case None
    obtain r st1 where r: "control_raw_output p (tk_sensors t) ?c outs st = (r, st1)" by (metis surj_pair)
    note ro = control_raw_output_ok [OF assms(1,4) c a(1,2,3) r]
    show ?thesis
    proof (cases r)
      case (Inl reason)
      then show ?thesis using None r ro a by (simp add: acc evaluate_control_def Let_def acc_ok_def)
    next
      case (Inr raw)
      define tuned where "tuned = apply_tuning ?c raw (last_output st1 (lc_id ?c))"
      define st2 where "st2 = st1\<lparr>es_last_output := hm_insert (lc_id ?c) tuned (es_last_output st1)\<rparr>"
      have raw: "raw \<noteq> NaN" using ro Inr by simp
      have tr: "trackers_ok F p (es_last_output st1)" using conjunct1 [OF ro] by (simp add: engine_inv_def)
      have "pct_ok (minimum_pct ?c)" using cok by (simp add: control_ok_def control_num_ok_def pct_ok_def)
      then have tn: "pct_ok tuned" unfolding tuned_def apply_tuning_def last_output_def
        by (rule tuning_ok [OF cok raw _ trackers_ok_opt [OF tr]])
      have i2: "engine_inv F p st2" "es_static_cache st2 = Some (static_cache_of p)"
        using conjunct1 [OF ro] conjunct1 [OF conjunct2 [OF ro]] trackers_insert_control [OF tr assms(2) c tn]
        by (simp_all add: engine_inv_def st2_def)
      obtain cmds3 st3 where m: "fold (evaluate_member ?c raw (to_pct tuned) (tk_roles t) (tk_facts t))
          (lc_members ?c) (cmds, st2) = (cmds3, st3)" by (metis surj_pair)
      note f = members_fold_ok [OF assms(1-3) c subset_refl raw to_pct_le i2(1) a(4) m]
      have "is_finite tuned" using tn by (simp add: pct_ok_def pct_range_def)
      then show ?thesis
        using None r Inr f i2 a(2) m
        by (simp add: acc evaluate_control_def Let_def acc_ok_def finite_vals_insert flip: tuned_def st2_def)
    qed
  qed
qed

lemma evaluate_fold_ok:
  assumes "profile_ok p" "keys_separate p" "floors_meet F p t" "sensors_sane (tk_sensors t)"
    and "set is \<subseteq> {..<length (p_controls p)}" "acc_ok F p t acc"
  shows "acc_ok F p t (fold (evaluate_control p (tk_sensors t) ov (tk_roles t) (tk_facts t)) is acc)"
  using assms(5,6)
proof (induction "is" arbitrary: acc)
  case (Cons i "is")
  then show ?case using evaluate_control_ok [OF assms(1-4), of i acc ov] by simp
qed simp

lemma trackers_ok_Nil [simp]: "trackers_ok F p []"
  by (simp add: trackers_ok_def)

lemma engine_tick_ok:
  assumes "profile_ok p" "keys_separate p" "floors_meet F p t" "sensors_sane (tk_sensors t)"
    and "engine_inv F p st" "engine_tick p t st = (cmds, st')"
  shows "engine_inv F p st'"
    and "cmd \<in> set cmds \<Longrightarrow> \<exists>cmd0. cmd = pin_identified (tk_overrides t) cmd0 \<and>
      cmd_ok F p (tk_roles t) (tk_facts t) cmd0"
proof -
  define st1 where "st1 = snd (sync_profile_id (p_id p)
      ((set_header_facts (tk_facts t) (set_assigned_roles (tk_roles t) st))\<lparr>quarantined_sensor_ids := tk_quarantined t\<rparr>))"
  define st2 where "st2 = ensure_static_cache p st1"
  define acc where "acc = fold (evaluate_control p (tk_sensors t) (tk_overrides t) (tk_roles t) (tk_facts t))
      (eval_order st2) ([], [], [], st2)"
  have i1: "engine_inv F p st1"
    using assms(5)
    by (simp add: st1_def sync_profile_id_def Let_def set_header_facts_def set_assigned_roles_def engine_inv_def)
  have rf: "es_assigned_roles st1 = tk_roles t" "es_header_facts st1 = tk_facts t"
    by (simp_all add: st1_def sync_profile_id_def Let_def set_header_facts_def set_assigned_roles_def)
  have c2: "es_static_cache st2 = Some (static_cache_of p)" "engine_inv F p st2"
    using i1 by (auto simp: st2_def ensure_static_cache_def Let_def engine_inv_def split: option.splits)
  have ord: "eval_order st2 = topological_control_order p"
    using c2(1) by (simp add: eval_order_def static_cache_of_def)
  have "acc_ok F p t ([], [], [], st2)" using c2 by (simp add: acc_ok_def finite_vals_def)
  moreover have "set (eval_order st2) \<subseteq> {..<length (p_controls p)}"
    unfolding ord using control_order_perm [of p] by auto
  ultimately have acc: "acc_ok F p t acc" unfolding acc_def by (intro evaluate_fold_ok [OF assms(1-4)])
  obtain cs outs sk st3 where r: "acc = (cs, outs, sk, st3)" by (metis prod_cases4)
  have "engine_tick p t st = (case acc of (cs, outs, sk, st3) \<Rightarrow>
      (if os_identify (tk_overrides t) \<noteq> [] then map (pin_identified (tk_overrides t)) cs else cs,
       st3\<lparr>es_skipped_this_tick := sk, es_tick_outputs := outs\<rparr>))"
    by (simp only: engine_tick_def evaluate_profile_with_overrides_def Let_def rf flip: st1_def st2_def acc_def)
  then have res: "cmds = (if os_identify (tk_overrides t) \<noteq> [] then map (pin_identified (tk_overrides t)) cs else cs)"
    "st' = st3\<lparr>es_skipped_this_tick := sk, es_tick_outputs := outs\<rparr>"
    using assms(6) r by simp_all
  show "engine_inv F p st'" using acc r res(2) by (simp add: acc_ok_def engine_inv_def)
  show "\<exists>cmd0. cmd = pin_identified (tk_overrides t) cmd0 \<and> cmd_ok F p (tk_roles t) (tk_facts t) cmd0"
    if "cmd \<in> set cmds"
  proof -
    have "os_identify (tk_overrides t) = [] \<Longrightarrow> pin_identified (tk_overrides t) x = x" for x
      by (simp add: pin_identified_def)
    then have "cmd \<in> pin_identified (tk_overrides t) ` set cs" using that res(1) by (auto split: if_splits)
    then show ?thesis using acc r by (auto simp: acc_ok_def list_all_iff)
  qed
qed

lemma trackers_retain:
  "hm_ok m \<Longrightarrow> trackers_ok F p m \<Longrightarrow> trackers_ok F p (hm_retain q m)"
  unfolding trackers_ok_def by (blast dest: hm.retain_subset)

lemma trackers_remove: "trackers_ok F p m \<Longrightarrow> trackers_ok F p (hm_remove k m)"
  by (auto simp: trackers_ok_def)

lemma engine_step_ok:
  assumes "profile_ok p" "keys_separate p" "op_ok F p op" "engine_inv F p st"
  shows "engine_inv F p (engine_step p op st)"
proof (cases op)
  case (EvTick t)
  then show ?thesis using engine_tick_ok(1) [OF assms(1,2) _ _ assms(4)] assms(3)
    by (simp add: op_ok_def) (metis prod.collapse)
next
  case (EvBackends ov tg)
  have "es_last_output (snd (fold (backend_step ov tg) cs (lg, s))) = es_last_output s \<and>
      es_last_curve_output (snd (fold (backend_step ov tg) cs (lg, s))) = es_last_curve_output s \<and>
      es_static_cache (snd (fold (backend_step ov tg) cs (lg, s))) = es_static_cache s" for cs lg s
    by (induction cs arbitrary: lg s)
       (auto simp: backend_step_def split: Deliverability.splits if_splits)
  then show ?thesis using EvBackends assms(4) by (simp add: note_backend_unavailable_def engine_inv_def)
next
  case (EvCommit now)
  then show ?thesis using assms(4) by (simp add: commit_skips_def engine_inv_def split: prod.split)
next
  case (EvResetControl c)
  then show ?thesis using assms(4)
    by (auto simp: reset_control_def Let_def engine_inv_def intro!: trackers_retain trackers_remove)
qed (use assms(4) in \<open>auto simp: reset_for_forced_tick_def deactivate_def deactivate_tuning_only_def engine_inv_def\<close>)

lemma engine_run_ok:
  assumes "profile_ok p" "keys_separate p" "list_all (op_ok F p) ops" "engine_inv F p st"
  shows "engine_inv F p (engine_run p ops st)"
  using assms(3,4) unfolding engine_run_def
  by (induction ops arbitrary: st) (auto simp: engine_step_ok [OF assms(1,2)])

lemma engine_new_inv: "engine_inv F p engine_new"
  by (simp add: engine_inv_def engine_new_def)

lemma command_floor:
  assumes "profile_ok p" "keys_separate p" "list_all (op_ok F p) ops"
    and "floors_meet F p t" "sensors_sane (tk_sensors t)"
    and "cmd \<in> set (fst (engine_tick p t (engine_run p ops engine_new)))"
  shows "case map_of (os_identify (tk_overrides t)) (cmd_member_id cmd) of
      Some target \<Rightarrow> cmd_pwm_percent cmd = target
    | None \<Rightarrow> cmd_ok F p (tk_roles t) (tk_facts t) cmd"
proof -
  obtain cmds st' where r: "engine_tick p t (engine_run p ops engine_new) = (cmds, st')" by (metis surj_pair)
  obtain cmd0 where c: "cmd = pin_identified (tk_overrides t) cmd0" "cmd_ok F p (tk_roles t) (tk_facts t) cmd0"
    using engine_tick_ok(2) [OF assms(1,2,4,5) engine_run_ok [OF assms(1-3) engine_new_inv] r] assms(6) r by auto
  then show ?thesis by (auto simp: pin_identified_def split: option.splits)
qed

end
