(* ===== verification/Engine_Properties.thy ===== *)
theory Engine_Properties
  imports Profile_Engine
begin

text \<open>
  What the evaluator guarantees over whole histories of ticks, resets and deactivations: the floors of
  pumps and CPU fans, the account of every control, and the one way a floored fan's tracker can be
  overwritten.
\<close>

section \<open>Properties\<close>

lemma floors_meet_30:
  assumes "profile_ok p" shows "floors_meet (\<lambda>_. 30) p t"
proof -
  have "Fin 30 \<le> member_effective_floor c m (tk_roles t) (tk_facts t)"
    if "c \<in> set (p_controls p)" "floor_is_hard m (tk_roles t) (tk_facts t)" for c m
    using effective_floor_hard [OF _ that(2), of c] that(1) assms
    by (simp add: profile_ok_def list_all_iff HARD_PUMP_CPU_FLOOR_PCT_def)
  then show ?thesis by (simp add: floors_meet_def list_all_iff)
qed

definition op_sane :: "EngineOp \<Rightarrow> bool" where
  "op_sane op = (case op of EvTick t \<Rightarrow> sensors_sane (tk_sensors t) | _ \<Rightarrow> True)"

text \<open>A command whose every possible member is hard-floored at this tick.\<close>

definition hard_floored_cmd :: "DaemonProfile \<Rightarrow> EngineTick \<Rightarrow> PwmCommand \<Rightarrow> bool" where
  "hard_floored_cmd p t cmd =
     list_all (\<lambda>c. list_all (\<lambda>m. cm_member_id m = cmd_member_id cmd \<and> cm_source m = cmd_source cmd \<longrightarrow>
       floor_is_hard m (tk_roles t) (tk_facts t)) (lc_members c)) (p_controls p)"

text \<open>C1: a pump is never commanded below its hard floor. For every profile inside the numeric net
  whose tracker keys are distinct, every history of ticks (any sensors, overrides, role assignments,
  discovery facts and quarantines), resets, forced ticks and deactivations, and every next tick: each
  command is between 0 and 100; a command for a hard-floored fan (a pump or CPU header by label, by
  the daemon's own label, by chip or by assignment) is at least 30, whatever the curve, the tuning, a
  manual override or the rounding ask for. The one exception is a fan held for identification, whose
  command is the hold's own duty.\<close>

theorem pump_never_below_hard_floor:
  assumes "profile_ok p" "keys_separate p" "list_all op_sane ops" "sensors_sane (tk_sensors t)"
    and "cmd \<in> set (fst (engine_tick p t (engine_run p ops engine_new)))"
  shows "case map_of (os_identify (tk_overrides t)) (cmd_member_id cmd) of
      Some target \<Rightarrow> cmd_pwm_percent cmd = target
    | None \<Rightarrow> cmd_pwm_percent cmd \<le> 100 \<and> (hard_floored_cmd p t cmd \<longrightarrow> 30 \<le> cmd_pwm_percent cmd)"
proof -
  have "list_all (op_ok (\<lambda>_. 30) p) ops"
    using assms(3) floors_meet_30 [OF assms(1)]
    by (auto simp: list_all_iff op_ok_def op_sane_def split: EngineOp.splits)
  from command_floor [OF assms(1,2) this floors_meet_30 [OF assms(1)] assms(4,5)] show ?thesis
    by (auto simp: cmd_ok_def hard_floored_cmd_def split: option.splits)
qed

text \<open>C33: every standing floor is kept, the DC pump floor included. Take a profile inside the numeric net
  whose tracker keys are distinct (no control id is the key of a member tracker), sane sensor readings
  and any bound per fan. If at every tick of a history, the next one included, the floor of each
  hard-floored fan was at least its bound, the next command for a hard-floored fan that is not held for
  identification is at least the bound too. (A floor that rises during the history is not covered.)\<close>

theorem standing_floor_is_kept:
  assumes "profile_ok p" "keys_separate p" "list_all (op_ok F p) ops"
    and "floors_meet F p t" "sensors_sane (tk_sensors t)"
    and "cmd \<in> set (fst (engine_tick p t (engine_run p ops engine_new)))"
    and "hard_floored_cmd p t cmd" "map_of (os_identify (tk_overrides t)) (cmd_member_id cmd) = None"
  shows "F (cmd_member_id cmd) \<le> cmd_pwm_percent cmd"
  using command_floor [OF assms(1-6)] assms(7,8) by (simp add: cmd_ok_def hard_floored_cmd_def)

definition pump_member :: ControlMember where
  "pump_member = \<lparr>cm_source = ''hwmon'', cm_member_id = ''p'', cm_member_label = ''pump'', cm_fan_zero_rpm = False\<rparr>"

definition pump_control :: LogicalControl where
  "pump_control = sample_control\<lparr>lc_mode := ''manual'', manual_output_pct := Fin 30, minimum_pct := Fin 30,
     step_up_pct := Fin 5, lc_members := [pump_member]\<rparr>"

definition pump_profile :: DaemonProfile where
  "pump_profile = sample_profile\<lparr>p_controls := [pump_control]\<rparr>"

definition blank_tick :: EngineTick where
  "blank_tick = \<lparr>tk_sensors = [], tk_overrides = snapshot_default, tk_roles = [], tk_facts = [], tk_quarantined = []\<rparr>"

lemma pump_member_hard: "member_needs_hard_floor pump_member"
  by code_simp

lemma pump_member_not_gpu: "\<not> member_is_gpu pump_member"
  by code_simp

lemma pump_floor_blank: "member_pump_floor pump_member [] [] = Some (Fin 30)"
  by code_simp

lemma sample_curve_ok: "curve_ok sample_curve"
  by (simp add: curve_ok_def curve_num_ok_def curve_temps_sane_def sample_curve_def opt_all_def
      pct_range_def temp_sane_def temp_limit_def)

lemma pump_profile_ok: "profile_ok pump_profile" "keys_separate pump_profile"
  using sample_curve_ok
  by (simp_all add: profile_ok_def pump_profile_def pump_control_def sample_control_def sample_profile_def
      control_ok_def control_num_ok_def pct_range_def range_ok_def keys_separate_def member_key_def
      del: f64_ok.simps)

lemma pump_order: "topological_control_order pump_profile = [0]"
  by code_simp

lemma blank_tick_sane: "sensors_sane (tk_sensors blank_tick)"
  by (simp add: blank_tick_def sensors_sane_def)

lemma pump_tuned:
  "apply_tuning_with_floor pump_control (Fin 30) None (Fin 30) h = Fin 30"
  "apply_tuning_with_floor pump_control (Fin 30) (Some (Fin 30)) (Fin 30) h = Fin 30"
  "apply_tuning_with_floor pump_control (Fin 30) (Some (Fin 0)) (Fin 30) h = Fin 5"
  by (simp_all add: apply_tuning_with_floor_def pump_control_def sample_control_def f64_clamp_def
      f64_max_def f64_min_def)

lemma pump_floor: "member_effective_floor pump_control pump_member [] [] = Fin 30"
  by (simp add: member_effective_floor_def pump_member_not_gpu pump_member_hard pump_floor_blank
      pump_control_def f64_max_def profile_consts)

lemma pump_facts:
  "lc_members pump_control = [pump_member]" "lc_mode pump_control = ''manual''" "lc_id pump_control = ''a''"
  "manual_output_pct pump_control = Fin 30" "minimum_pct pump_control = Fin 30"
  "cm_member_id pump_member = ''p''" "floor_is_hard pump_member [] []"
  using pump_member_hard
  by (simp_all add: pump_control_def sample_control_def pump_member_def floor_is_hard_def)

lemmas pump_eval = pump_floor pump_facts pump_tuned

lemmas tick_eval = engine_tick_def engine_run_def evaluate_profile_with_overrides_def Let_def blank_tick_def
  sync_profile_id_def ensure_static_cache_def eval_order_def static_cache_of_def engine_new_def
  set_header_facts_def set_assigned_roles_def evaluate_control_def snapshot_default_def
  control_raw_output_def evaluate_member_def apply_tuning_def last_output_def member_key_def

lemma to_pct_5_30: "to_pct (Fin 5) = 5" "to_pct (Fin 30) = 30"
  using to_pct_of_nat [of 5] to_pct_of_nat [of 30] by (simp_all add: f64_of_nat_def)

lemma pump_tick:
  "fst (engine_tick pump_profile blank_tick (engine_run pump_profile [] engine_new)) = [command_for pump_member 30]"
proof -
  have "p_controls pump_profile ! 0 = pump_control" "length (p_controls pump_profile) = 1"
      "p_id pump_profile = ''p''"
    by (simp_all add: pump_profile_def sample_profile_def)
  then show ?thesis by (simp add: tick_eval pump_eval pump_order to_pct_5_30)
qed

theorem pump_never_below_hard_floor_witness:
  "case map_of (os_identify (tk_overrides blank_tick)) (cmd_member_id (command_for pump_member 30)) of
      Some target \<Rightarrow> cmd_pwm_percent (command_for pump_member 30) = target
    | None \<Rightarrow> cmd_pwm_percent (command_for pump_member 30) \<le> 100 \<and>
        (hard_floored_cmd pump_profile blank_tick (command_for pump_member 30) \<longrightarrow>
          30 \<le> cmd_pwm_percent (command_for pump_member 30))"
  by (rule pump_never_below_hard_floor [OF pump_profile_ok, of "[]"])
     (simp_all add: pump_tick blank_tick_sane)

text \<open>A pump on a DC header, whose floor is 70, under a control that asks for 30.\<close>

definition dc_facts :: "(string, HeaderFacts) hmap" where
  "dc_facts = [(''p'', \<lparr>hf_pwm_mode = Some PWM_MODE_DC, hf_inferred_role = (Unknown, NoEvidence)\<rparr>)]"

definition dc_tick :: EngineTick where
  "dc_tick = blank_tick\<lparr>tk_facts := dc_facts\<rparr>"

lemma pump_floor_dc: "member_pump_floor pump_member [] dc_facts = Some (Fin 70)"
  by code_simp

lemma dc_floor: "member_effective_floor pump_control pump_member [] dc_facts = Fin 70"
  by (simp add: member_effective_floor_def pump_member_not_gpu pump_member_hard pump_floor_dc
      pump_control_def f64_max_def profile_consts)

lemma dc_hard: "floor_is_hard pump_member [] dc_facts"
  using pump_member_hard by (simp add: floor_is_hard_def)

lemma dc_floors_meet: "floors_meet (\<lambda>_. 70) pump_profile dc_tick"
  by (simp add: floors_meet_def pump_profile_def pump_facts dc_tick_def blank_tick_def dc_floor)

lemma dc_commands:
  "map cmd_member_id (fst (engine_tick pump_profile dc_tick (engine_run pump_profile [EvTick dc_tick] engine_new))) = [''p'']"
proof -
  have "p_controls pump_profile ! 0 = pump_control" "length (p_controls pump_profile) = 1" "p_id pump_profile = ''p''"
    by (simp_all add: pump_profile_def sample_profile_def)
  then show ?thesis
    by (simp add: tick_eval dc_tick_def pump_facts dc_floor dc_hard pump_order command_for_def)
qed

theorem standing_floor_is_kept_witness:
  "\<exists>cmd \<in> set (fst (engine_tick pump_profile dc_tick (engine_run pump_profile [EvTick dc_tick] engine_new))).
     cmd_member_id cmd = ''p'' \<and> 70 \<le> cmd_pwm_percent cmd"
proof -
  obtain cmd where cmd: "cmd \<in> set (fst (engine_tick pump_profile dc_tick (engine_run pump_profile [EvTick dc_tick] engine_new)))"
      "cmd_member_id cmd = ''p''"
    using dc_commands by (auto simp: map_eq_Cons_conv)
  have sane: "sensors_sane (tk_sensors dc_tick)" using blank_tick_sane by (simp add: dc_tick_def)
  have "hard_floored_cmd pump_profile dc_tick cmd"
    using dc_hard by (simp add: hard_floored_cmd_def pump_profile_def pump_facts dc_tick_def blank_tick_def)
  moreover have "map_of (os_identify (tk_overrides dc_tick)) (cmd_member_id cmd) = None"
    by (simp add: dc_tick_def blank_tick_def snapshot_default_def)
  ultimately have "70 \<le> cmd_pwm_percent cmd"
    using standing_floor_is_kept [OF pump_profile_ok _ dc_floors_meet sane cmd(1)] sane dc_floors_meet
    by (simp add: op_ok_def)
  then show ?thesis using cmd by blast
qed

section \<open>Every control is accounted for\<close>

definition control_ids :: "DaemonProfile \<Rightarrow> nat list \<Rightarrow> string list" where
  "control_ids p is = map (\<lambda>i. lc_id (p_controls p ! i)) is"

definition skip_record_ids :: "SkipRecord list \<Rightarrow> string list" where
  "skip_record_ids sk = map sr_control_id sk"

definition accounted :: "string list \<Rightarrow> eval_acc \<Rightarrow> bool" where
  "accounted ids = (\<lambda>(cmds, outs, sk, st).
     distinct (skip_record_ids sk) \<and> set (skip_record_ids sk) \<subseteq> set ids \<and>
     dom (map_of outs) = set ids - set (skip_record_ids sk))"

definition acc_state :: "eval_acc \<Rightarrow> ProfileEngineState" where
  "acc_state = (\<lambda>(cmds, outs, sk, st). st)"

lemma members_fold_cache:
  "fold (evaluate_member c raw pwm roles facts) ms (cmds, st) = (cmds', st') \<Longrightarrow> es_static_cache st' = es_static_cache st"
  by (induction ms arbitrary: cmds st) (fastforce simp: evaluate_member_def Let_def split: if_splits)+

lemma control_raw_output_cache:
  "control_raw_output p ss c outs st = (r, st') \<Longrightarrow> es_static_cache st' = es_static_cache st"
  by (auto simp: control_raw_output_def Let_def dest: curve_output_cache split: if_splits option.splits prod.splits)

lemma evaluate_control_accounted:
  assumes "accounted ids acc" "lc_id (p_controls p ! i) \<notin> set ids"
  shows "accounted (ids @ [lc_id (p_controls p ! i)]) (evaluate_control p ss ov roles facts i acc)"
    and "es_static_cache (acc_state (evaluate_control p ss ov roles facts i acc)) = es_static_cache (acc_state acc)"
proof -
  obtain cmds outs sk st where acc: "acc = (cmds, outs, sk, st)" by (metis prod_cases4)
  let ?c = "p_controls p ! i"
  obtain r st1 where r: "control_raw_output p ss ?c outs st = (r, st1)" by (metis surj_pair)
  note cache = control_raw_output_cache [OF r]
  have new: "lc_id ?c \<notin> set (skip_record_ids sk)" using assms by (auto simp: accounted_def acc)
  show "accounted (ids @ [lc_id ?c]) (evaluate_control p ss ov roles facts i acc)"
    using assms new r
    by (cases r) (auto simp: accounted_def acc evaluate_control_def Let_def skip_record_ids_def split: option.splits prod.splits)
  show "es_static_cache (acc_state (evaluate_control p ss ov roles facts i acc)) = es_static_cache (acc_state acc)"
    using r cache
    by (cases r) (auto simp: acc_state_def acc evaluate_control_def Let_def dest!: members_fold_cache
        split: option.splits prod.splits)
qed

lemma evaluate_fold_accounted:
  assumes "accounted ids acc" "distinct (ids @ control_ids p is)"
  shows "accounted (ids @ control_ids p is) (fold (evaluate_control p ss ov roles facts) is acc)"
    and "es_static_cache (acc_state (fold (evaluate_control p ss ov roles facts) is acc)) = es_static_cache (acc_state acc)"
  using assms
proof (induction "is" arbitrary: ids acc)
  case (Cons i "is")
  let ?id = "lc_id (p_controls p ! i)"
  {
    case 1
    then have "?id \<notin> set ids" "distinct ((ids @ [?id]) @ control_ids p is)" by (auto simp: control_ids_def)
    then show ?case using Cons.IH(1) [OF evaluate_control_accounted(1) [OF 1(1)]]
      by (simp add: control_ids_def)
  next
    case 2
    then have "?id \<notin> set ids" "distinct ((ids @ [?id]) @ control_ids p is)" by (auto simp: control_ids_def)
    then show ?case using Cons.IH(2) [OF evaluate_control_accounted(1) [OF 2(1)]]
      evaluate_control_accounted(2) [OF 2(1)] by simp
  }
qed (simp_all add: control_ids_def)

lemma control_ids_nth: "control_ids p [0..<length (p_controls p)] = map lc_id (p_controls p)"
  by (rule nth_equalityI) (simp_all add: control_ids_def)

definition cache_ok :: "DaemonProfile \<Rightarrow> ProfileEngineState \<Rightarrow> bool" where
  "cache_ok p st = (es_static_cache st = None \<or> es_static_cache st = Some (static_cache_of p))"

lemma engine_tick_accounted:
  assumes "distinct (map lc_id (p_controls p))" "cache_ok p st"
  shows "cache_ok p (snd (engine_tick p t st))"
    and "distinct (skip_record_ids (es_skipped_this_tick (snd (engine_tick p t st))))"
    and "set (skip_record_ids (es_skipped_this_tick (snd (engine_tick p t st)))) \<subseteq> set (map lc_id (p_controls p))"
    and "dom (map_of (es_tick_outputs (snd (engine_tick p t st)))) =
      set (map lc_id (p_controls p)) - set (skip_record_ids (es_skipped_this_tick (snd (engine_tick p t st))))"
proof -
  define st1 where "st1 = snd (sync_profile_id (p_id p)
      ((set_header_facts (tk_facts t) (set_assigned_roles (tk_roles t) st))\<lparr>quarantined_sensor_ids := tk_quarantined t\<rparr>))"
  define st2 where "st2 = ensure_static_cache p st1"
  define acc where "acc = fold (evaluate_control p (tk_sensors t) (tk_overrides t) (es_assigned_roles st1) (es_header_facts st1))
      (eval_order st2) ([], [], [], st2)"
  have "cache_ok p st1"
    using assms(2)
    by (simp add: st1_def sync_profile_id_def Let_def set_header_facts_def set_assigned_roles_def cache_ok_def)
  then have c2: "es_static_cache st2 = Some (static_cache_of p)"
    by (auto simp: st2_def ensure_static_cache_def Let_def cache_ok_def split: option.splits)
  then have ord: "eval_order st2 = topological_control_order p"
    by (simp add: eval_order_def static_cache_of_def)
  have "mset (eval_order st2) = mset [0..<length (p_controls p)]"
    unfolding ord using control_order_perm [of p] by (metis mset_set_set mset_upt)
  then have "mset (control_ids p (eval_order st2)) = mset (control_ids p [0..<length (p_controls p)])"
    by (simp add: control_ids_def)
  then have "mset (control_ids p (eval_order st2)) = mset (map lc_id (p_controls p))"
    by (metis control_ids_nth)
  then have ids: "set (control_ids p (eval_order st2)) = set (map lc_id (p_controls p))"
    "distinct (control_ids p (eval_order st2))"
    using assms(1) by (metis mset_eq_setD, metis mset_eq_imp_distinct_iff)
  have "accounted [] ([], [], [], st2)" by (simp add: accounted_def skip_record_ids_def)
  note a = evaluate_fold_accounted [OF this, of p "eval_order st2" "tk_sensors t" "tk_overrides t"
      "es_assigned_roles st1" "es_header_facts st1"]
  obtain cs outs sk st3 where r: "acc = (cs, outs, sk, st3)" by (metis prod_cases4)
  have "engine_tick p t st = (case acc of (cs, outs, sk, st3) \<Rightarrow>
      (if os_identify (tk_overrides t) \<noteq> [] then map (pin_identified (tk_overrides t)) cs else cs,
       st3\<lparr>es_skipped_this_tick := sk, es_tick_outputs := outs\<rparr>))"
    by (simp only: engine_tick_def evaluate_profile_with_overrides_def Let_def flip: st1_def st2_def acc_def)
  then have res: "snd (engine_tick p t st) = st3\<lparr>es_skipped_this_tick := sk, es_tick_outputs := outs\<rparr>"
    using r by simp
  have acc: "accounted (control_ids p (eval_order st2)) acc" "es_static_cache (acc_state acc) = Some (static_cache_of p)"
    using a ids(2) c2 by (simp_all add: acc_def acc_state_def)
  show "cache_ok p (snd (engine_tick p t st))" using acc(2) res r by (simp add: cache_ok_def acc_state_def)
  show "distinct (skip_record_ids (es_skipped_this_tick (snd (engine_tick p t st))))"
    "set (skip_record_ids (es_skipped_this_tick (snd (engine_tick p t st)))) \<subseteq> set (map lc_id (p_controls p))"
    "dom (map_of (es_tick_outputs (snd (engine_tick p t st)))) =
      set (map lc_id (p_controls p)) - set (skip_record_ids (es_skipped_this_tick (snd (engine_tick p t st))))"
    using acc(1) res r ids(1) by (simp_all add: accounted_def)
qed

lemma engine_step_cache:
  assumes "distinct (map lc_id (p_controls p))" "cache_ok p st"
  shows "cache_ok p (engine_step p op st)"
proof (cases op)
  case (EvTick t)
  then show ?thesis using engine_tick_accounted(1) [OF assms] by simp
next
  case (EvBackends ov tg)
  have "es_static_cache (snd (fold (backend_step ov tg) cs (lg, s))) = es_static_cache s" for cs lg s
    by (induction cs arbitrary: lg s)
       (auto simp: backend_step_def split: Deliverability.splits if_splits)
  then show ?thesis using EvBackends assms(2) by (simp add: note_backend_unavailable_def cache_ok_def)
qed (use assms(2) in \<open>auto simp: commit_skips_def reset_control_def Let_def reset_for_forced_tick_def
      deactivate_def deactivate_tuning_only_def cache_ok_def split: prod.splits\<close>)

lemma engine_run_cache:
  "distinct (map lc_id (p_controls p)) \<Longrightarrow> cache_ok p st \<Longrightarrow> cache_ok p (engine_run p ops st)"
  unfolding engine_run_def by (induction ops arbitrary: st) (auto intro: engine_step_cache)

text \<open>Lemma: no control is lost. After any history of a profile with distinct control ids, a tick either
  records an output for a control or records exactly one skip with its reason, never both and never
  neither.\<close>

theorem every_control_is_accounted_for:
  assumes "distinct (map lc_id (p_controls p))"
  shows "let st = snd (engine_tick p t (engine_run p ops engine_new));
             skipped = map sr_control_id (es_skipped_this_tick st);
             outputs = dom (map_of (es_tick_outputs st))
         in distinct skipped \<and> outputs \<inter> set skipped = {} \<and>
            outputs \<union> set skipped = lc_id ` set (p_controls p)"
proof -
  have "cache_ok p (engine_run p ops engine_new)"
    by (rule engine_run_cache [OF assms]) (simp add: cache_ok_def engine_new_def)
  note a = engine_tick_accounted(2-4) [OF assms this, of t]
  show ?thesis using a by (auto simp: Let_def skip_record_ids_def)
qed

theorem every_control_is_accounted_for_witness:
  "dom (map_of (es_tick_outputs (snd (engine_tick pump_profile blank_tick (engine_run pump_profile [] engine_new))))) \<union>
   set (map sr_control_id (es_skipped_this_tick (snd (engine_tick pump_profile blank_tick (engine_run pump_profile [] engine_new)))))
   = lc_id ` {pump_control}"
proof -
  have "distinct (map lc_id (p_controls pump_profile))" by (simp add: pump_profile_def)
  from every_control_is_accounted_for [OF this, of blank_tick "[]"] show ?thesis
    by (simp add: Let_def pump_profile_def)
qed

section \<open>A member tracker is not private\<close>

text \<open>The tracker of a floored member is stored under \<open>{control}::m::{member}\<close> in the map that also
  holds the trackers of the controls by id. A control whose own id has that form overwrites it.\<close>

definition clash_control :: LogicalControl where
  "clash_control = pump_control\<lparr>lc_id := lc_id pump_control @ ''::m::p'', manual_output_pct := Fin 0,
     minimum_pct := Fin 0, step_up_pct := Fin 100, lc_members := []\<rparr>"

definition clash_profile :: DaemonProfile where
  "clash_profile = pump_profile\<lparr>p_controls := [pump_control, clash_control]\<rparr>"

lemma clash_valid: "is_valid (validate clash_profile [])"
  by code_simp


lemma clash_order: "topological_control_order clash_profile = [0, 1]"
  by code_simp

lemma clash_tuned:
  "apply_tuning_with_floor clash_control (Fin 0) (Some (Fin 30)) (Fin 0) h = Fin 0"
  "apply_tuning_with_floor clash_control (Fin 0) (Some (Fin 5)) (Fin 0) h = Fin 0"
  by (simp_all add: apply_tuning_with_floor_def clash_control_def pump_control_def sample_control_def f64_clamp_def
      f64_max_def f64_min_def)

lemma clash_facts:
  "p_controls clash_profile ! 0 = pump_control" "p_controls clash_profile ! Suc 0 = clash_control"
  "length (p_controls clash_profile) = 2" "lc_members clash_control = []" "lc_mode clash_control = ''manual''"
  "lc_id clash_control = ''a::m::p''" "manual_output_pct clash_control = Fin 0" "minimum_pct clash_control = Fin 0"
  "p_id clash_profile = ''p''"
  by (simp_all add: clash_profile_def clash_control_def pump_control_def sample_control_def pump_profile_def
      sample_profile_def)

text \<open>Whatever duty the other control left in the tracker, the member is only taken one step up from it as
  long as that does not pass the member's floor.\<close>

lemma overwritten_tracker_holds_the_member:
  assumes "control_ok c" "raw \<noteq> NaN" "floor_is_hard m roles facts"
    and "last_output st (member_key c m) = Some v" "pct_ok v" "Fin 0 < v"
    and "v + f64_max (step_up_pct c) (Fin 0) \<le> member_effective_floor c m roles facts"
  shows "fst (evaluate_member c raw pwm roles facts m (cmds, st)) =
    cmds @ [command_for m (to_pct (v + f64_max (step_up_pct c) (Fin 0)))]"
  using tuning_below_floor(1) [OF assms(1,2) effective_floor_ok [OF assms(1)] assms(5-7)] assms(3,4)
  by (simp add: evaluate_member_def Let_def)

text \<open>Lemma: one such profile passes validation, and at its second tick the engine commands its pump at 5,
  below the hard floor of 30 that the declared floor also asks for.\<close>

theorem tracker_clash_drops_the_pump:
  "is_valid (validate clash_profile []) \<and> member_needs_hard_floor pump_member \<and>
   map (\<lambda>c. (cmd_member_id c, cmd_pwm_percent c)) (fst (engine_tick clash_profile blank_tick
     (engine_run clash_profile [EvTick blank_tick] engine_new))) = [(cm_member_id pump_member, 5)]"
  using clash_valid pump_member_hard
  by (simp add: tick_eval pump_eval clash_order clash_tuned clash_facts to_pct_5_30 command_for_def)

end
