(* ===== verification/Lease.thy ===== *)
theory Lease
  imports Header_Roles
begin

text \<open>
  The single-writer arbiter of hwmon PWM writes (\<open>hwmon/lease.rs\<close>): at most one of the daemon's three
  writers holds a token, a force take evicts it, and an evicted or released token is dead for good.
  Each operation takes the instant its \<open>Clock\<close> returns.
\<close>

section \<open>The arbiter\<close>

definition DEFAULT_LEASE_TTL :: duration where
  "DEFAULT_LEASE_TTL = secs 60"

datatype HwmonWriter = WriterEngine | WriterVerify | WriterThermalSafety

fun writer_str :: "HwmonWriter \<Rightarrow> string" where
  "writer_str WriterEngine = ''profile-engine''"
| "writer_str WriterVerify = ''verify''"
| "writer_str WriterThermalSafety = ''thermal-safety''"

record HwmonLease =
  lease_id :: string
  lease_owner :: HwmonWriter
  lease_expires_at :: instant

datatype LeaseError = AlreadyHeld HwmonWriter u64 | InvalidLease | LeaseExpired | NoLease

record LeaseManager =
  lm_active :: "HwmonLease option"
  lm_ttl :: duration
  lm_next_id :: u64

definition lease_with_clock :: "duration \<Rightarrow> LeaseManager" where
  "lease_with_clock ttl = \<lparr>lm_active = None, lm_ttl = ttl, lm_next_id = 1\<rparr>"

definition lease_new :: LeaseManager where
  "lease_new = lease_with_clock DEFAULT_LEASE_TTL"

definition lease_token :: "u64 \<Rightarrow> string" where
  "lease_token n = ''lease-'' @ show_nat n"

definition take_lease :: "instant \<Rightarrow> HwmonWriter \<Rightarrow> LeaseManager \<Rightarrow>
    (LeaseError + HwmonLease) \<times> LeaseManager" where
  "take_lease now owner m =
     (let held = (case lm_active m of
          Some lease \<Rightarrow> if now < lease_expires_at lease
            then Some (AlreadyHeld (lease_owner lease) (as_secs (lease_expires_at lease - now))) else None
        | None \<Rightarrow> None)
      in case held of
        Some e \<Rightarrow> (Inl e, m)
      | None \<Rightarrow>
         (let lease = \<lparr>lease_id = lease_token (lm_next_id m), lease_owner = owner,
                       lease_expires_at = now + lm_ttl m\<rparr>
          in (Inr lease, m\<lparr>lm_next_id := u64_inc (lm_next_id m), lm_active := Some lease\<rparr>)))"

definition release_lease :: "string \<Rightarrow> LeaseManager \<Rightarrow> (LeaseError + unit) \<times> LeaseManager" where
  "release_lease i m =
     (case lm_active m of
        Some lease \<Rightarrow> if lease_id lease = i then (Inr (), m\<lparr>lm_active := None\<rparr>) else (Inl InvalidLease, m)
      | None \<Rightarrow> (Inl NoLease, m))"

definition validate_lease :: "instant \<Rightarrow> string \<Rightarrow> LeaseManager \<Rightarrow> LeaseError + unit" where
  "validate_lease now i m =
     (case lm_active m of
        Some lease \<Rightarrow>
          if lease_id lease = i \<and> now < lease_expires_at lease then Inr ()
          else if lease_id lease = i then Inl LeaseExpired
          else Inl InvalidLease
      | None \<Rightarrow> Inl InvalidLease)"

definition renew_lease :: "instant \<Rightarrow> string \<Rightarrow> LeaseManager \<Rightarrow>
    (LeaseError + HwmonLease) \<times> LeaseManager" where
  "renew_lease now i m =
     (case lm_active m of
        Some lease \<Rightarrow>
          if lease_id lease = i \<and> now < lease_expires_at lease then
            (let lease = lease\<lparr>lease_expires_at := now + lm_ttl m\<rparr> in
             (Inr lease, m\<lparr>lm_active := Some lease\<rparr>))
          else if lease_id lease = i then (Inl LeaseExpired, m)
          else (Inl InvalidLease, m)
      | None \<Rightarrow> (Inl InvalidLease, m))"

definition force_take_lease :: "instant \<Rightarrow> HwmonWriter \<Rightarrow> LeaseManager \<Rightarrow> HwmonLease \<times> LeaseManager" where
  "force_take_lease now owner m =
     (let lease = \<lparr>lease_id = lease_token (lm_next_id m), lease_owner = owner,
                   lease_expires_at = now + lm_ttl m\<rparr>
      in (lease, m\<lparr>lm_next_id := u64_inc (lm_next_id m), lm_active := Some lease\<rparr>))"

definition active_lease :: "instant \<Rightarrow> LeaseManager \<Rightarrow> HwmonLease option" where
  "active_lease now m =
     (case lm_active m of Some lease \<Rightarrow> if now < lease_expires_at lease then Some lease else None
      | None \<Rightarrow> None)"

section \<open>Histories\<close>

datatype LeaseOp =
    LTake instant HwmonWriter
  | LForce instant HwmonWriter
  | LRenew instant string
  | LRelease string

fun lease_step :: "LeaseOp \<Rightarrow> LeaseManager \<Rightarrow> LeaseManager" where
  "lease_step (LTake now w) m = snd (take_lease now w m)"
| "lease_step (LForce now w) m = snd (force_take_lease now w m)"
| "lease_step (LRenew now i) m = snd (renew_lease now i m)"
| "lease_step (LRelease i) m = snd (release_lease i m)"

fun lease_grant :: "LeaseOp \<Rightarrow> LeaseManager \<Rightarrow> HwmonLease option" where
  "lease_grant (LTake now w) m = (case fst (take_lease now w m) of Inr l \<Rightarrow> Some l | Inl _ \<Rightarrow> None)"
| "lease_grant (LForce now w) m = Some (fst (force_take_lease now w m))"
| "lease_grant _ m = None"

definition lease_holder :: "LeaseManager \<Rightarrow> string option" where
  "lease_holder m = map_option lease_id (lm_active m)"

definition lease_issued :: "LeaseManager \<Rightarrow> string \<Rightarrow> bool" where
  "lease_issued m i = (\<exists>n < lm_next_id m. i = lease_token n)"

definition lease_room :: "LeaseManager \<Rightarrow> nat \<Rightarrow> bool" where
  "lease_room m n = (lm_next_id m + n < 2 ^ 64 \<and> (\<forall>i. lease_holder m = Some i \<longrightarrow> lease_issued m i))"

lemma lease_token_inject: "lease_token a = lease_token b \<longleftrightarrow> a = b"
  using show_nat_spec by (metis lease_token_def append_same_eq same_append_eq)

lemmas lease_ops = take_lease_def force_take_lease_def renew_lease_def release_lease_def Let_def

lemma lease_grant_effect:
  "lease_grant op m = Some l \<Longrightarrow> lm_active (lease_step op m) = Some l \<and>
     lease_id l = lease_token (lm_next_id m) \<and> lm_next_id (lease_step op m) = u64_inc (lm_next_id m)"
  by (cases op) (auto simp: lease_ops split: option.splits if_splits)

lemma lease_no_grant_effect:
  "lease_grant op m = None \<Longrightarrow> lm_next_id (lease_step op m) = lm_next_id m \<and>
     (lease_holder (lease_step op m) = lease_holder m \<or> lease_holder (lease_step op m) = None)"
  by (cases op) (auto simp: lease_ops lease_holder_def split: option.splits if_splits)

lemma lease_step_issued:
  assumes "lm_next_id m < 2 ^ 64 - 1" "lease_issued m k"
  shows "lease_issued (lease_step op m) k"
  using assms lease_grant_effect [of op m] lease_no_grant_effect [of op m]
  by (cases "lease_grant op m") (auto simp: lease_issued_def less_Suc_eq)

text \<open>A regrant: a grant of a token, or the release of the token that is held.\<close>

interpretation lease_fence: token_fence lease_step lease_holder lease_issued
  "\<lambda>op m. lease_grant op m \<noteq> None" lease_room
proof
  fix m op n and k :: string
  assume r: "lease_room m (Suc n)"
  then have lt: "lm_next_id m < 2 ^ 64 - 1" by (simp add: lease_room_def)
  have fresh: "lease_issued m k \<Longrightarrow> lease_grant op m = Some l \<Longrightarrow> lease_holder (lease_step op m) \<noteq> Some k" for k l
    using lease_grant_effect by (auto simp: lease_holder_def lease_issued_def lease_token_inject)
  show "lease_issued (lease_step op m) k" if "lease_issued m k" using lease_step_issued [OF lt that] .
  show "lease_holder (lease_step op m) \<noteq> Some k" if "lease_issued m k" "lease_grant op m \<noteq> None"
    using fresh that by blast
  show "lease_holder (lease_step op m) \<noteq> Some k" if "lease_issued m k" "lease_holder m \<noteq> Some k"
    using fresh [OF that(1)] that(2) lease_no_grant_effect [of op m] by (cases "lease_grant op m") auto
  show "lease_room (lease_step op m) n"
  proof (cases "lease_grant op m")
    case None
    then show ?thesis using r lease_no_grant_effect [of op m] by (auto simp: lease_room_def lease_issued_def)
  next
    case (Some l)
    then show ?thesis using r lt lease_grant_effect [of op m l]
      by (auto simp: lease_room_def lease_issued_def lease_holder_def)
  qed
qed

lemma dead_token_rejected:
  "lease_holder m \<noteq> Some i \<Longrightarrow>
     validate_lease now i m = Inl InvalidLease \<and> renew_lease now i m = (Inl InvalidLease, m) \<and>
     (\<exists>e. release_lease i m = (Inl e, m))"
  by (auto simp: lease_holder_def validate_lease_def renew_lease_def release_lease_def split: option.split)

lemma lease_new_room: "n < 2 ^ 64 - 1 \<Longrightarrow> lease_room (lease_with_clock ttl) n"
  by (simp add: lease_room_def lease_with_clock_def lease_holder_def)

section \<open>Properties\<close>

text \<open>Lemma: an evicted token is dead. Once a later grant (a take, or the force take of a verify or of the
  thermal-safety leg) or its own release has taken a token out, it never validates, renews or releases
  anything again, whatever the writers do afterwards: an evicted verify cannot overwrite an emergency
  write. The bound says the id counter has not wrapped.\<close>

theorem evicted_lease_is_dead:
  assumes "lease_grant op (fold lease_step before (lease_with_clock ttl)) = Some l"
    and "lease_grant out (fold lease_step (before @ op # mid) (lease_with_clock ttl)) \<noteq> None \<or>
         out = LRelease (lease_id l)"
    and "length before + length mid + length later + 4 < 2 ^ 64"
    and "m = fold lease_step (before @ op # mid @ out # later) (lease_with_clock ttl)"
  shows "validate_lease now (lease_id l) m = Inl InvalidLease \<and>
         renew_lease now (lease_id l) m = (Inl InvalidLease, m) \<and>
         (\<exists>e. release_lease (lease_id l) m = (Inl e, m))"
proof -
  let ?m0 = "fold lease_step before (lease_with_clock ttl)"
  let ?m1 = "fold lease_step (before @ op # mid) (lease_with_clock ttl)"
  let ?m2 = "lease_step out ?m1"
  have "lease_room (lease_with_clock ttl) (length before + Suc (length mid + Suc (length later + 0)))"
    using assms(3) by (intro lease_new_room) simp
  from lease_fence.run_room [OF this] have r0: "lease_room ?m0 (Suc (length mid + Suc (length later + 0)))" .
  then have r1: "lease_room (lease_step op ?m0) (length mid + Suc (length later + 0))"
    by (rule lease_fence.room_step)
  have "lm_next_id ?m0 < 2 ^ 64 - 1" using r0 by (simp add: lease_room_def)
  then have "lease_issued (lease_step op ?m0) (lease_id l)"
    using lease_grant_effect [OF assms(1)] by (auto simp: lease_issued_def)
  then have i1: "lease_issued ?m1 (lease_id l)" using lease_fence.run_issued [OF r1] by simp
  have r2: "lease_room ?m1 (Suc (length later + 0))" using lease_fence.run_room [OF r1] by simp
  have lost: "lease_holder ?m2 \<noteq> Some (lease_id l)"
    using assms(2)
  proof
    assume "out = LRelease (lease_id l)"
    then show ?thesis by (auto simp: release_lease_def lease_holder_def split: option.splits)
  qed (rule lease_fence.regrant_step [OF r2 i1])
  have "lease_holder (fold lease_step later ?m2) \<noteq> Some (lease_id l)"
    by (rule lease_fence.lost_forever [OF lease_fence.room_step [OF r2] lease_fence.issued_step [OF r2 i1] lost])
  then show ?thesis using assms(4) by (intro dead_token_rejected) simp
qed

lemma lease_token_1: "lease_token 1 = ''lease-1''"
  by code_simp

theorem evicted_lease_is_dead_witness:
  "validate_lease 3 ''lease-1'' (fold lease_step [LTake 0 WriterEngine, LForce 1 WriterThermalSafety] lease_new)
     = Inl InvalidLease"
proof -
  let ?l = "\<lparr>lease_id = ''lease-1'', lease_owner = WriterEngine, lease_expires_at = DEFAULT_LEASE_TTL\<rparr>"
  have "lease_grant (LTake 0 WriterEngine) (fold lease_step [] (lease_with_clock DEFAULT_LEASE_TTL)) = Some ?l"
    using lease_token_1 by (simp add: lease_with_clock_def take_lease_def Let_def)
  from evicted_lease_is_dead [OF this, of "LForce 1 WriterThermalSafety" "[]" "[]" _ 3] show ?thesis
    by (simp add: lease_new_def)
qed

text \<open>Lemma: at most one writer. A take succeeds exactly when no live token exists, and otherwise fails
  naming the live holder; at any instant at most one token validates, it is the active one, and a
  renewal succeeds exactly for it.\<close>

theorem one_writer_at_a_time:
  "((\<exists>l m'. take_lease now w m = (Inr l, m')) \<longleftrightarrow> active_lease now m = None) \<and>
   (\<forall>l. active_lease now m = Some l \<longrightarrow>
      take_lease now w m = (Inl (AlreadyHeld (lease_owner l) (as_secs (lease_expires_at l - now))), m)) \<and>
   (validate_lease now i m = Inr () \<longleftrightarrow> (\<exists>l. active_lease now m = Some l \<and> lease_id l = i)) \<and>
   ((\<exists>l m'. renew_lease now i m = (Inr l, m')) \<longleftrightarrow> validate_lease now i m = Inr ())"
  by (auto simp: take_lease_def active_lease_def validate_lease_def renew_lease_def Let_def split: option.split)

theorem one_writer_at_a_time_witness:
  "take_lease 5 WriterVerify (lease_step (LTake 0 WriterEngine) lease_new) =
     (Inl (AlreadyHeld WriterEngine 59), lease_step (LTake 0 WriterEngine) lease_new)"
proof -
  let ?m = "lease_step (LTake 0 WriterEngine) lease_new"
  have a: "active_lease 5 ?m = Some \<lparr>lease_id = lease_token 1, lease_owner = WriterEngine, lease_expires_at = secs 60\<rparr>"
    by (simp add: lease_new_def lease_with_clock_def take_lease_def active_lease_def DEFAULT_LEASE_TTL_def Let_def)
  show ?thesis
    using one_writer_at_a_time [of 5 WriterVerify ?m] a by (auto simp: as_secs_def)
qed

end
