(* ===== verification/Sensor_Failure.thy ===== *)
theory Sensor_Failure
  imports Profile_Model
begin

text \<open>
  Quarantine of sensors that are present but cannot be read (\<open>health/sensor_failure.rs\<close>): a streak of
  failed reads per descriptor, one re-discovery at the threshold, quarantine on the next failure.
\<close>

section \<open>The tracker\<close>

definition SENSOR_READ_FAIL_REDISCOVER_STREAK :: u32 where
  "SENSOR_READ_FAIL_REDISCOVER_STREAK = 5"

record UnavailableSensor =
  us_id :: string
  us_label :: string
  us_reason :: string
  us_since :: instant

record SensorReadFailure =
  rf_id :: string
  rf_label :: string
  rf_reason :: string

datatype TrackerEvent = EvQuarantined string string | EvRecovered string

record SensorFailureTracker =
  ft_threshold :: u32
  ft_streak :: "(string, u32) hmap"
  ft_quarantined :: "(string, UnavailableSensor) hmap"

definition failure_tracker_new :: "u32 \<Rightarrow> SensorFailureTracker" where
  "failure_tracker_new threshold = \<lparr>ft_threshold = threshold, ft_streak = [], ft_quarantined = []\<rparr>"

definition wants_rediscovery :: "SensorFailureTracker \<Rightarrow> bool" where
  "wants_rediscovery t =
     list_ex (\<lambda>(i, n). ft_threshold t \<le> n \<and> \<not> hm_contains (ft_quarantined t) i) (ft_streak t)"

definition rediscovery_ids :: "SensorFailureTracker \<Rightarrow> string list" where
  "rediscovery_ids t =
     sort (map fst (filter (\<lambda>(i, n). ft_threshold t \<le> n \<and> \<not> hm_contains (ft_quarantined t) i) (ft_streak t)))"

text \<open>The loop body, for the descriptor with id \<open>i\<close>.\<close>

definition failure_step :: "(string, SensorReadFailure) hmap \<Rightarrow> instant \<Rightarrow> string \<Rightarrow>
    TrackerEvent list \<times> SensorFailureTracker \<Rightarrow> TrackerEvent list \<times> SensorFailureTracker" where
  "failure_step failing now i = (\<lambda>(events, t).
     case map_of failing i of
       Some failure \<Rightarrow>
         if hm_contains (ft_quarantined t) i then (events, t)
         else
           (let n = u32_inc (unwrap_or 0 (map_of (ft_streak t) i));
                t = t\<lparr>ft_streak := hm_insert i n (ft_streak t)\<rparr>
            in if ft_threshold t < n then
                 (events @ [EvQuarantined i (rf_reason failure)],
                  t\<lparr>ft_quarantined := hm_insert i
                     \<lparr>us_id = i, us_label = rf_label failure, us_reason = rf_reason failure, us_since = now\<rparr>
                     (ft_quarantined t)\<rparr>)
               else (events, t))
     | None \<Rightarrow>
         (let t' = t\<lparr>ft_streak := hm_remove i (ft_streak t)\<rparr>
          in if hm_contains (ft_quarantined t') i
             then (events @ [EvRecovered i], t'\<lparr>ft_quarantined := hm_remove i (ft_quarantined t')\<rparr>)
             else (events, t')))"

definition failure_record_tick :: "string list \<Rightarrow> SensorReadFailure list \<Rightarrow> instant \<Rightarrow> SensorFailureTracker \<Rightarrow>
    TrackerEvent list \<times> SensorFailureTracker" where
  "failure_record_tick descriptors failures now t =
     (let present = set descriptors;
          t = t\<lparr>ft_streak := hm_retain (\<lambda>i _. i \<in> present) (ft_streak t),
                ft_quarantined := hm_retain (\<lambda>i _. i \<in> present) (ft_quarantined t)\<rparr>;
          failing = hm_collect (map (\<lambda>f. (rf_id f, f)) failures)
      in fold (failure_step failing now) descriptors ([], t))"

definition unavailable :: "SensorFailureTracker \<Rightarrow> UnavailableSensor list" where
  "unavailable t = sort_key us_id (map snd (ft_quarantined t))"

section \<open>One tick, per sensor\<close>

definition failed_ids :: "SensorReadFailure list \<Rightarrow> string set" where
  "failed_ids failures = rf_id ` set failures"

text \<open>The streak of a sensor, which stops one above the threshold.\<close>

definition fail_level :: "SensorFailureTracker \<Rightarrow> string \<Rightarrow> nat" where
  "fail_level t i = unwrap_or 0 (map_of (ft_streak t) i)"

definition failure_inv :: "SensorFailureTracker \<Rightarrow> bool" where
  "failure_inv t = (hm_ok (ft_streak t) \<and> hm_ok (ft_quarantined t) \<and> ft_threshold t < 2 ^ 32 - 2 \<and>
     (\<forall>i. fail_level t i \<le> Suc (ft_threshold t) \<and>
          (hm_contains (ft_quarantined t) i \<longleftrightarrow> fail_level t i = Suc (ft_threshold t))))"

lemma failing_iff: "map_of (hm_collect (map (\<lambda>f. (rf_id f, f)) fs)) i \<noteq> None \<longleftrightarrow> i \<in> failed_ids fs"
  by (force simp: map_of_hm_collect failed_ids_def map_of_eq_None_iff)

lemma failure_invI:
  assumes "hm_ok (ft_streak t)" "hm_ok (ft_quarantined t)" "ft_threshold t < 2 ^ 32 - 2"
    and "\<And>i. fail_level t i \<le> Suc (ft_threshold t)"
    and "\<And>i. hm_contains (ft_quarantined t) i \<longleftrightarrow> fail_level t i = Suc (ft_threshold t)"
  shows "failure_inv t"
  using assms by (simp add: failure_inv_def)

lemma failure_invD:
  assumes "failure_inv t"
  shows "hm_ok (ft_streak t)" "hm_ok (ft_quarantined t)" "ft_threshold t < 2 ^ 32 - 2"
    "fail_level t i \<le> Suc (ft_threshold t)"
    "hm_contains (ft_quarantined t) i \<longleftrightarrow> fail_level t i = Suc (ft_threshold t)"
  using assms by (simp_all add: failure_inv_def)

text \<open>What a step does to the streaks and the quarantine, key by key.\<close>

lemma failure_step_maps:
  assumes "failure_step failing now i (ev, t) = (ev', t')"
  shows "ft_threshold t' = ft_threshold t"
    and "hm_ok (ft_streak t) \<Longrightarrow> hm_ok (ft_streak t')" "hm_ok (ft_quarantined t) \<Longrightarrow> hm_ok (ft_quarantined t')"
    and "fail_level t' k = (if k \<noteq> i then fail_level t k
      else if map_of failing i = None then 0
      else if hm_contains (ft_quarantined t) i then fail_level t i else u32_inc (fail_level t i))"
    and "hm_contains (ft_quarantined t') k \<longleftrightarrow> (if k \<noteq> i then hm_contains (ft_quarantined t) k
      else map_of failing i \<noteq> None \<and>
        (hm_contains (ft_quarantined t) i \<or> ft_threshold t < u32_inc (fail_level t i)))"
  using assms
  by (auto simp: failure_step_def Let_def fail_level_def hm_contains_def split: if_splits option.splits)

lemma failure_step_effect:
  assumes "failure_inv t" "failure_step failing now i (ev, t) = (ev', t')"
  shows "failure_inv t' \<and> ft_threshold t' = ft_threshold t \<and>
    fail_level t' k = (if k = i then (if map_of failing i \<noteq> None
        then min (Suc (ft_threshold t)) (Suc (fail_level t i)) else 0) else fail_level t k)"
proof -
  note d = failure_invD [OF assms(1)] and m = failure_step_maps [OF assms(2)]
  have inc: "\<not> hm_contains (ft_quarantined t) i \<Longrightarrow> u32_inc (fail_level t i) = Suc (fail_level t i)"
    using d(3) d(4) [of i] d(5) [of i] by simp
  have lv: "fail_level t' k = (if k = i then (if map_of failing i \<noteq> None
        then min (Suc (ft_threshold t)) (Suc (fail_level t i)) else 0) else fail_level t k)" for k
    using m(4) [of k] inc d(4) [of i] d(5) [of i] by auto
  have "failure_inv t'"
  proof (rule failure_invI)
    show "hm_contains (ft_quarantined t') k \<longleftrightarrow> fail_level t' k = Suc (ft_threshold t')" for k
      using m(1) m(5) [of k] lv [of k] inc d(4) [of i] d(5) [of i] d(5) [of k] by auto
    show "fail_level t' k \<le> Suc (ft_threshold t')" for k using lv [of k] m(1) d(4) [of k] by auto
  qed (use m(1-3) d(1-3) in auto)
  with lv m(1) show ?thesis by blast
qed

lemma failure_fold_effect:
  assumes "failure_inv t" "distinct ds" "fold (failure_step failing now) ds (ev, t) = (ev', t')"
  shows "failure_inv t' \<and> ft_threshold t' = ft_threshold t \<and>
    fail_level t' k = (if k \<in> set ds then (if map_of failing k \<noteq> None
        then min (Suc (ft_threshold t)) (Suc (fail_level t k)) else 0) else fail_level t k)"
  using assms
proof (induction ds arbitrary: t ev)
  case (Cons d ds)
  obtain ev1 t1 where s: "failure_step failing now d (ev, t) = (ev1, t1)" by (metis surj_pair)
  have e: "failure_inv t1" "ft_threshold t1 = ft_threshold t"
    "\<And>k. fail_level t1 k = (if k = d then (if map_of failing d \<noteq> None
        then min (Suc (ft_threshold t)) (Suc (fail_level t d)) else 0) else fail_level t k)"
    using failure_step_effect [OF Cons.prems(1) s] by blast+
  show ?case using Cons.IH [OF e(1), of ev1] Cons.prems(2,3) s e(2) e(3) [of k] by auto
qed simp

text \<open>A tick hits a sensor when its descriptor is present and its read fails.\<close>

type_synonym read_tick = "string list \<times> SensorReadFailure list \<times> instant"

definition fails_in :: "read_tick \<Rightarrow> string \<Rightarrow> bool" where
  "fails_in tk i = (i \<in> set (fst tk) \<and> i \<in> failed_ids (fst (snd tk)))"

definition read_step :: "read_tick \<Rightarrow> SensorFailureTracker \<Rightarrow> SensorFailureTracker" where
  "read_step tk t = snd (failure_record_tick (fst tk) (fst (snd tk)) (snd (snd tk)) t)"

lemma retain_inv:
  fixes P :: "string set"
  assumes "failure_inv t"
  defines "t' \<equiv> t\<lparr>ft_streak := hm_retain (\<lambda>i _. i \<in> P) (ft_streak t),
      ft_quarantined := hm_retain (\<lambda>i _. i \<in> P) (ft_quarantined t)\<rparr>"
  shows "failure_inv t'" "fail_level t' k = (if k \<in> P then fail_level t k else 0)" "ft_threshold t' = ft_threshold t"
proof -
  have "hm_ok (ft_streak t)" "hm_ok (ft_quarantined t)" using assms(1) by (simp_all add: failure_inv_def)
  then have r: "fail_level t' k = (if k \<in> P then fail_level t k else 0)"
    "hm_contains (ft_quarantined t') k \<longleftrightarrow> k \<in> P \<and> hm_contains (ft_quarantined t) k" for k
    by (simp_all add: t'_def fail_level_def hm_contains_def map_of_hm_retain split: option.split)
  show "fail_level t' k = (if k \<in> P then fail_level t k else 0)" by (rule r(1))
  show th: "ft_threshold t' = ft_threshold t" by (simp add: t'_def)
  note d = failure_invD [OF assms(1)]
  show "failure_inv t'"
  proof (rule failure_invI)
    show "hm_contains (ft_quarantined t') k \<longleftrightarrow> fail_level t' k = Suc (ft_threshold t')" for k
      using r [of k] th d(5) [of k] by auto
    show "fail_level t' k \<le> Suc (ft_threshold t')" for k using r(1) [of k] th d(4) [of k] by auto
  qed (use d th in \<open>simp_all add: t'_def\<close>)
qed

interpretation quarantine: debounce_counter read_step fail_level fails_in "\<lambda>tk. distinct (fst tk)"
  "\<lambda>t. failure_inv t \<and> Suc (ft_threshold t) = d" d
  for d
proof
  fix t and tk :: read_tick and k
  assume t: "failure_inv t \<and> Suc (ft_threshold t) = d" and ds: "distinct (fst tk)"
  let ?t0 = "t\<lparr>ft_streak := hm_retain (\<lambda>i _. i \<in> set (fst tk)) (ft_streak t),
      ft_quarantined := hm_retain (\<lambda>i _. i \<in> set (fst tk)) (ft_quarantined t)\<rparr>"
  let ?f = "hm_collect (map (\<lambda>f. (rf_id f, f)) (fst (snd tk)))"
  obtain ev t' where f: "fold (failure_step ?f (snd (snd tk))) (fst tk) ([], ?t0) = (ev, t')"
    by (rule prod.exhaust)
  note r = retain_inv [OF conjunct1 [OF t], of "set (fst tk)"]
  note e = failure_fold_effect [OF r(1) ds f, of k]
  have s: "read_step tk t = t'" using f by (simp add: read_step_def failure_record_tick_def Let_def)
  have th: "ft_threshold ?t0 = ft_threshold t" by simp
  show "failure_inv (read_step tk t) \<and> Suc (ft_threshold (read_step tk t)) = d" using e t s th by metis
  have "fail_level t' k = (if k \<in> set (fst tk) then (if map_of ?f k \<noteq> None
      then min d (Suc (fail_level ?t0 k)) else 0) else fail_level ?t0 k)" using e t by simp
  also have "\<dots> = (if fails_in tk k then min d (Suc (fail_level t k)) else 0)"
    unfolding failing_iff r(2) fails_in_def by simp
  finally show "fail_level (read_step tk t) k = (if fails_in tk k then min d (Suc (fail_level t k)) else 0)"
    unfolding s .
qed

lemma quarantine_history:
  assumes "n < 2 ^ 32 - 2" "list_all (\<lambda>tk. distinct (fst tk)) tks"
  defines "t \<equiv> fold read_step tks (failure_tracker_new n)"
  shows "failure_inv t" "ft_threshold t = n" "fail_level t i = min (Suc n) (length (takeWhile (\<lambda>tk. fails_in tk i) (rev tks)))"
proof -
  have i0: "failure_inv (failure_tracker_new n)" "ft_threshold (failure_tracker_new n) = n"
      "fail_level (failure_tracker_new n) i = 0"
    using assms(1) by (simp_all add: failure_inv_def failure_tracker_new_def fail_level_def hm_contains_def)
  then show "failure_inv t" "ft_threshold t = n"
    using quarantine.run_inv [of "failure_tracker_new n" "Suc n" tks] assms(2) by (simp_all add: t_def)
  show "fail_level t i = min (Suc n) (length (takeWhile (\<lambda>tk. fails_in tk i) (rev tks)))"
    using quarantine.run_level [of "failure_tracker_new n" "Suc n" i tks] i0 assms(2) by (simp add: t_def)
qed

lemma fail_level_Some: "0 < n \<Longrightarrow> n \<le> fail_level t j \<longleftrightarrow> (\<exists>m. map_of (ft_streak t) j = Some m \<and> n \<le> m)"
  by (cases "map_of (ft_streak t) j") (auto simp: fail_level_def)

section \<open>Properties\<close>

text \<open>Lemma: quarantine and re-discovery are exactly the history of reads. After any sequence of poll
  ticks, a sensor is quarantined if and only if its descriptor was present and its read failed on
  each of the last threshold + 1 ticks; and re-discovery is wanted if and only if some sensor failed
  on exactly the last threshold ticks without a break, so an outage earns one re-discovery and a
  quarantined sensor earns none.\<close>

theorem quarantine_is_its_history:
  assumes "0 < n" "n < 2 ^ 32 - 2" "list_all (\<lambda>tk. distinct (fst tk)) tks"
  defines "t \<equiv> fold read_step tks (failure_tracker_new n)"
    and "outage \<equiv> \<lambda>i. length (takeWhile (\<lambda>tk. fails_in tk i) (rev tks))"
  shows "(hm_contains (ft_quarantined t) i \<longleftrightarrow> n < outage i) \<and>
         (wants_rediscovery t \<longleftrightarrow> (\<exists>j. outage j = n))"
proof -
  note h = quarantine_history [OF assms(2,3), folded t_def]
  have lv: "fail_level t j = min (Suc n) (outage j)" for j using h(3) by (simp add: outage_def)
  have q: "hm_contains (ft_quarantined t) j \<longleftrightarrow> n < outage j" for j
    using h(1,2) lv [of j] by (auto simp: failure_inv_def)
  have "distinct (map fst (ft_streak t))" using h(1) by (simp add: failure_inv_def hm_ok_def)
  then have "wants_rediscovery t \<longleftrightarrow> (\<exists>j m. map_of (ft_streak t) j = Some m \<and> n \<le> m \<and> \<not> n < outage j)"
    using h(2) q by (auto simp: wants_rediscovery_def list_ex_iff)
  also have "\<dots> \<longleftrightarrow> (\<exists>j. n \<le> fail_level t j \<and> \<not> n < outage j)"
    using assms(1) by (auto simp: fail_level_Some)
  also have "\<dots> \<longleftrightarrow> (\<exists>j. outage j = n)" using lv by auto
  finally show ?thesis using q by blast
qed

definition sample_failure :: SensorReadFailure where
  "sample_failure = \<lparr>rf_id = ''s'', rf_label = ''S'', rf_reason = ''down''\<rparr>"

theorem quarantine_is_its_history_witness:
  "hm_contains (ft_quarantined (fold read_step (replicate 6 ([''s''], [sample_failure], 0))
     (failure_tracker_new SENSOR_READ_FAIL_REDISCOVER_STREAK))) ''s''"
proof -
  let ?tks = "replicate 6 ([''s''], [sample_failure], 0) :: read_tick list"
  have "length (takeWhile (\<lambda>tk. fails_in tk ''s'') (rev ?tks)) = 6"
    by (simp add: numeral_eq_Suc fails_in_def failed_ids_def sample_failure_def)
  then show ?thesis
    using quarantine_is_its_history [of 5 ?tks "''s''"]
    by (simp add: SENSOR_READ_FAIL_REDISCOVER_STREAK_def list_all_iff)
qed

end
