(* ===== verification/Cooling_Advisory.thy ===== *)
theory Cooling_Advisory
  imports Engine_State
begin

text \<open>
  The cooling advisory (\<open>profile_engine/cooling_advisory.rs\<close>): a CPU at its ceiling while the fans
  run slowly, held for \<open>ADVISORY_HOLD\<close>, is reported. It forces nothing.
\<close>

section \<open>The advisory\<close>

definition CPU_AT_CEILING_LOW_COOLING :: string where
  "CPU_AT_CEILING_LOW_COOLING = ''cpu_at_ceiling_low_cooling''"

definition ADVISORY_FALLBACK_CEILING_C :: f64 where
  "ADVISORY_FALLBACK_CEILING_C = Fin 85"

definition ADVISORY_HOLD :: duration where
  "ADVISORY_HOLD = secs 60"

definition ADVISORY_LOW_DUTY_PCT :: u8 where
  "ADVISORY_LOW_DUTY_PCT = 50"

definition cpu_ceiling_c :: "sensors \<Rightarrow> f64" where
  "cpu_ceiling_c sensors =
     unwrap_or ADVISORY_FALLBACK_CEILING_C
       (fold (\<lambda>c acc. Some (case acc of None \<Rightarrow> c | Some a \<Rightarrow> f64_max a c))
         (filter is_finite
           (List.map_filter s_crit_c
             (filter (\<lambda>s. is_authoritative_cpu_chip (s_chip_name s))
               (filter (\<lambda>s. s_kind s = CpuTemp) (map snd sensors)))))
         None)"

record CoolingAdvisoryRecord =
  ar_code :: string
  ar_since :: instant
  ar_cpu_temp_c :: f64
  ar_ceiling_c :: f64
  ar_max_duty_pct :: u8

datatype AdvisoryEvent = AdvisoryRaised CoolingAdvisoryRecord | AdvisoryCleared

record CoolingAdvisory =
  ca_met_since :: "instant option"
  ca_raised :: "CoolingAdvisoryRecord option"

definition advisory_default :: CoolingAdvisory where
  "advisory_default = \<lparr>ca_met_since = None, ca_raised = None\<rparr>"

definition advisory_met :: "f64 option \<Rightarrow> f64 \<Rightarrow> u8 option \<Rightarrow> bool" where
  "advisory_met hottest_fresh_cpu_c ceiling_c max_duty_pct =
     (case (hottest_fresh_cpu_c, max_duty_pct) of
        (Some t, Some d) \<Rightarrow> ceiling_c \<le> t \<and> d < ADVISORY_LOW_DUTY_PCT
      | _ \<Rightarrow> False)"

definition advisory_tick :: "f64 option \<Rightarrow> f64 \<Rightarrow> u8 option \<Rightarrow> instant \<Rightarrow> CoolingAdvisory \<Rightarrow>
    AdvisoryEvent option \<times> CoolingAdvisory" where
  "advisory_tick hottest_fresh_cpu_c ceiling_c max_duty_pct now a =
     (if \<not> advisory_met hottest_fresh_cpu_c ceiling_c max_duty_pct then
        (map_option (\<lambda>_. AdvisoryCleared) (ca_raised a), a\<lparr>ca_met_since := None, ca_raised := None\<rparr>)
      else
        let since = (case ca_met_since a of Some t \<Rightarrow> t | None \<Rightarrow> now);
            a = a\<lparr>ca_met_since := Some since\<rparr>
        in case (hottest_fresh_cpu_c, max_duty_pct) of
             (Some cpu_temp_c, Some duty) \<Rightarrow>
               (let record = \<lparr>ar_code = CPU_AT_CEILING_LOW_COOLING, ar_since = since,
                      ar_cpu_temp_c = cpu_temp_c, ar_ceiling_c = ceiling_c, ar_max_duty_pct = duty\<rparr>
                in case ca_raised a of
                     Some _ \<Rightarrow> (None, a\<lparr>ca_raised := Some record\<rparr>)
                   | None \<Rightarrow>
                       if ADVISORY_HOLD \<le> now - since
                       then (Some (AdvisoryRaised record), a\<lparr>ca_raised := Some record\<rparr>)
                       else (None, a))
           | _ \<Rightarrow> (None, a))"

definition advisory_snapshot :: "CoolingAdvisory \<Rightarrow> CoolingAdvisoryRecord list" where
  "advisory_snapshot a = (case ca_raised a of Some r \<Rightarrow> [r] | None \<Rightarrow> [])"

definition max_non_gpu_duty :: "PwmCommand list \<Rightarrow> u8 option \<Rightarrow> u8 option" where
  "max_non_gpu_duty commands forced =
     (case map cmd_pwm_percent (filter (\<lambda>c. \<not> member_is_gpu_source (cmd_source c)) commands) of
        [] \<Rightarrow> None
      | d # ds \<Rightarrow>
          (let commanded = fold max ds d
           in Some (case forced of None \<Rightarrow> commanded | Some f \<Rightarrow> max commanded f)))"

section \<open>Histories\<close>

record AdvisoryInput =
  ai_cpu :: "f64 option"
  ai_ceiling :: f64
  ai_duty :: "u8 option"
  ai_now :: instant

definition advisory_step :: "AdvisoryInput \<Rightarrow> CoolingAdvisory \<Rightarrow> CoolingAdvisory" where
  "advisory_step i a = snd (advisory_tick (ai_cpu i) (ai_ceiling i) (ai_duty i) (ai_now i) a)"

definition ai_met :: "AdvisoryInput \<Rightarrow> bool" where
  "ai_met i = advisory_met (ai_cpu i) (ai_ceiling i) (ai_duty i)"

interpretation advisory_window: hold_window advisory_step ca_met_since ai_met ai_now
  by unfold_locales
     (auto simp: advisory_step_def advisory_tick_def ai_met_def Let_def split: option.split)

text \<open>The unbroken run of ticks that met the condition, latest first.\<close>

definition met_run :: "AdvisoryInput list \<Rightarrow> AdvisoryInput list" where
  "met_run is = takeWhile ai_met (rev is)"

lemma advisory_step_raised:
  "ca_raised (advisory_step i a) \<noteq> None \<longleftrightarrow> ai_met i \<and>
     (ca_raised a \<noteq> None \<or> ADVISORY_HOLD \<le> ai_now i - (case ca_met_since a of Some t \<Rightarrow> t | None \<Rightarrow> ai_now i))"
  by (auto simp: advisory_step_def advisory_tick_def ai_met_def advisory_met_def Let_def split: option.splits)

text \<open>A raised advisory reports the start of the run and the readings of the latest tick.\<close>

lemma advisory_step_record:
  "ca_raised (advisory_step i a) = Some r \<Longrightarrow>
     Some (ar_since r) = ca_met_since (advisory_step i a) \<and> ai_cpu i = Some (ar_cpu_temp_c r) \<and>
     ai_duty i = Some (ar_max_duty_pct r) \<and> ar_ceiling_c r = ai_ceiling i"
  by (auto simp: advisory_step_def advisory_tick_def advisory_met_def Let_def split: option.splits if_splits)

lemma advisory_raised_iff:
  "ca_raised (fold advisory_step is advisory_default) \<noteq> None \<longleftrightarrow>
     (\<exists>i \<in> set (met_run is). ADVISORY_HOLD \<le> ai_now i - ai_now (List.last (met_run is)))"
proof (induction "is" rule: rev_induct)
  case Nil
  show ?case by (simp add: advisory_default_def met_run_def)
next
  case (snoc i "is")
  let ?a = "fold advisory_step is advisory_default"
  have h: "0 < ADVISORY_HOLD" by (simp add: ADVISORY_HOLD_def)
  have s: "ca_met_since ?a = (case met_run is of [] \<Rightarrow> None | x # xs \<Rightarrow> Some (ai_now (List.last (x # xs))))"
    unfolding met_run_def by (rule advisory_window.run_since) (simp add: advisory_default_def)
  have m: "met_run (is @ [i]) = (if ai_met i then i # met_run is else [])" by (simp add: met_run_def)
  show ?case
    using advisory_step_raised [of i ?a] snoc s m h by (auto split: list.splits)
qed

section \<open>Properties\<close>

text \<open>Lemma: the advisory is exactly its hold. After any sequence of ticks it is raised if and only if the
  condition (fresh CPU reading at or above the ceiling, highest non-GPU duty below the limit) has been
  met on every tick of the run that ends now and some tick of that run came at least
  \<open>ADVISORY_HOLD\<close> after its first; one unmet tick clears it.\<close>

theorem advisory_is_its_hold:
  "advisory_snapshot (fold advisory_step is advisory_default) \<noteq> [] \<longleftrightarrow>
     (\<exists>i \<in> set (met_run is). ADVISORY_HOLD \<le> ai_now i - ai_now (List.last (met_run is)))"
  using advisory_raised_iff [of "is"] by (auto simp: advisory_snapshot_def split: option.splits)

end
