(* ===== verification/Pump_Stall.thy ===== *)
theory Pump_Stall
  imports Profile_Engine
begin

text \<open>
  The pump stall response (\<open>profile_engine/pump_stall.rs\<close>): a watched pump that reads 0 while it is
  commanded to turn is raised to 100, and the raise is the only thing the response ever does to a
  command.
\<close>

section \<open>The watch\<close>

definition PUMP_STALL_DETECT :: duration where
  "PUMP_STALL_DETECT = secs 10"

definition PUMP_STALL_KICK :: duration where
  "PUMP_STALL_KICK = secs 30"

definition PUMP_STALL_RESPONSE_PCT :: u8 where
  "PUMP_STALL_RESPONSE_PCT = 100"

datatype Tach = TachFresh nat | TachStale

record PumpInput =
  pi_header_id :: string
  pi_tach :: Tach
  pi_commanded_pct :: "u8 option"

datatype StallEvent =
    EvStalled string bool
  | EvNotTurning string
  | EvPumpRecovered string
  | EvReleased string

datatype Phase =
    Monitoring "instant option"
  | Kick instant bool
  | NotTurning instant
  | Held instant bool

record HeaderWatch =
  hw_seen_spinning :: bool
  hw_stalls :: u32
  hw_phase :: Phase

definition watch_default :: HeaderWatch where
  "watch_default = \<lparr>hw_seen_spinning = False, hw_stalls = 0, hw_phase = Monitoring None\<rparr>"

record PumpStallWatch =
  pw_headers :: "(string, HeaderWatch) hmap"

definition stall_watch_default :: PumpStallWatch where
  "stall_watch_default = \<lparr>pw_headers = []\<rparr>"

fun is_monitoring :: "Phase \<Rightarrow> bool" where
  "is_monitoring (Monitoring _) = True"
| "is_monitoring _ = False"

text \<open>The first loop: headers that are no longer watched, and windows that a pause discards.\<close>

definition watch_reset :: "PumpInput list \<Rightarrow> bool \<Rightarrow> string \<Rightarrow> HeaderWatch \<Rightarrow> HeaderWatch" where
  "watch_reset inputs paused i w =
     (let watched = list_ex (\<lambda>inp. pi_header_id inp = i) inputs
      in if \<not> watched \<or> (paused \<and> is_monitoring (hw_phase w))
         then w\<lparr>hw_phase := Monitoring None\<rparr> else w)"

fun turning_after :: "Tach \<Rightarrow> bool \<Rightarrow> bool" where
  "turning_after (TachFresh rpm) turning = (0 < rpm)"
| "turning_after TachStale turning = turning"

text \<open>The body of the second loop, for one input.\<close>

definition watch_step :: "instant \<Rightarrow> PumpInput \<Rightarrow> HeaderWatch \<Rightarrow> StallEvent list \<times> HeaderWatch" where
  "watch_step now input w0 =
     (let w = (case pi_tach input of
          TachFresh rpm \<Rightarrow> if 0 < rpm then w0\<lparr>hw_seen_spinning := True\<rparr> else w0
        | TachStale \<Rightarrow> w0);
          i = pi_header_id input
      in case (hw_phase w, pi_tach input) of
           (Monitoring zero_since, TachFresh rpm) \<Rightarrow>
             if 0 < rpm then ([], w\<lparr>hw_phase := Monitoring None\<rparr>)
             else
               (let commanded = (case pi_commanded_pct input of Some p \<Rightarrow> 30 \<le> p | None \<Rightarrow> False)
                in if \<not> (hw_seen_spinning w \<and> commanded) then ([], w\<lparr>hw_phase := Monitoring None\<rparr>)
                   else
                     (let since = unwrap_or now zero_since
                      in if PUMP_STALL_DETECT \<le> now - since then
                           (let stalls = u32_inc (hw_stalls w);
                                held = (2 \<le> stalls)
                            in ([EvStalled i held],
                                w\<lparr>hw_stalls := stalls,
                                  hw_phase := (if held then Held now False else Kick now False)\<rparr>))
                         else ([], w\<lparr>hw_phase := Monitoring (Some since)\<rparr>)))
         | (Monitoring _, TachStale) \<Rightarrow> ([], w\<lparr>hw_phase := Monitoring None\<rparr>)
         | (Kick since turning, tach) \<Rightarrow>
             (let turning = turning_after tach turning
              in if now - since < PUMP_STALL_KICK then ([], w\<lparr>hw_phase := Kick since turning\<rparr>)
                 else if turning then ([EvPumpRecovered i], w\<lparr>hw_phase := Monitoring None\<rparr>)
                 else ([EvNotTurning i], w\<lparr>hw_phase := NotTurning now\<rparr>))
         | (NotTurning since, TachFresh rpm) \<Rightarrow>
             if 0 < rpm then ([EvPumpRecovered i], w\<lparr>hw_phase := Monitoring None\<rparr>) else ([], w)
         | (NotTurning since, TachStale) \<Rightarrow> ([], w)
         | (Held since turning, tach) \<Rightarrow> ([], w\<lparr>hw_phase := Held since (turning_after tach turning)\<rparr>))"

definition watch_input :: "instant \<Rightarrow> PumpInput \<Rightarrow> StallEvent list \<times> PumpStallWatch \<Rightarrow>
    StallEvent list \<times> PumpStallWatch" where
  "watch_input now input = (\<lambda>(events, pw).
     let w = unwrap_or watch_default (map_of (pw_headers pw) (pi_header_id input));
         (ev, w') = watch_step now input w
     in (events @ ev, pw\<lparr>pw_headers := hm_insert (pi_header_id input) w' (pw_headers pw)\<rparr>))"

definition stall_tick :: "PumpInput list \<Rightarrow> instant \<Rightarrow> bool \<Rightarrow> PumpStallWatch \<Rightarrow>
    StallEvent list \<times> PumpStallWatch" where
  "stall_tick inputs now paused pw =
     (let pw = pw\<lparr>pw_headers := map (\<lambda>(i, w). (i, watch_reset inputs paused i w)) (pw_headers pw)\<rparr>
      in if paused then ([], pw) else fold (watch_input now) inputs ([], pw))"

fun is_held :: "Phase \<Rightarrow> bool" where
  "is_held (Held _ _) = True"
| "is_held _ = False"

definition release_holds :: "PumpStallWatch \<Rightarrow> StallEvent list \<times> PumpStallWatch" where
  "release_holds pw =
     (map (\<lambda>(i, w). EvReleased i) (filter (\<lambda>(i, w). is_held (hw_phase w)) (pw_headers pw)),
      pw\<lparr>pw_headers := map (\<lambda>(i, w). (i, if is_held (hw_phase w) then w\<lparr>hw_phase := Monitoring None\<rparr> else w))
         (pw_headers pw)\<rparr>)"

definition raised_headers :: "PumpStallWatch \<Rightarrow> string list" where
  "raised_headers pw = sort (map fst (filter (\<lambda>(i, w). \<not> is_monitoring (hw_phase w)) (pw_headers pw)))"

record PumpStallRecord =
  ps_header_id :: string
  ps_state :: string
  ps_since :: instant
  ps_stall_count :: u32

fun phase_record :: "Phase \<Rightarrow> (string \<times> instant) option" where
  "phase_record (Monitoring _) = None"
| "phase_record (Kick since _) = Some (''stall_response'', since)"
| "phase_record (NotTurning since) = Some (''not_turning'', since)"
| "phase_record (Held since False) = Some (''not_turning'', since)"
| "phase_record (Held since True) = Some (''held'', since)"

definition stall_snapshot :: "PumpStallWatch \<Rightarrow> PumpStallRecord list" where
  "stall_snapshot pw =
     sort_key ps_header_id
       (List.map_filter (\<lambda>(i, w). map_option (\<lambda>(state, since).
            \<lparr>ps_header_id = i, ps_state = state, ps_since = since, ps_stall_count = hw_stalls w\<rparr>)
          (phase_record (hw_phase w))) (pw_headers pw))"

definition raise_command :: "string \<Rightarrow> PwmCommand \<Rightarrow> PwmCommand" where
  "raise_command i cmd =
     (if cmd_source cmd = ''hwmon'' \<and> cmd_member_id cmd = i
      then cmd\<lparr>cmd_pwm_percent := max (cmd_pwm_percent cmd) PUMP_STALL_RESPONSE_PCT\<rparr> else cmd)"

definition raise_header :: "string \<Rightarrow> PwmCommand list \<Rightarrow> PwmCommand list" where
  "raise_header i commands =
     (if list_ex (\<lambda>c. cmd_source c = ''hwmon'' \<and> cmd_member_id c = i) commands
      then map (raise_command i) commands
      else commands @ [\<lparr>cmd_member_id = i, cmd_source = ''hwmon'', cmd_pwm_percent = PUMP_STALL_RESPONSE_PCT,
                        cmd_gpu_fan_zero_rpm = False\<rparr>])"

definition apply_stall_response :: "string list \<Rightarrow> PwmCommand list \<Rightarrow> PwmCommand list" where
  "apply_stall_response raised commands = fold raise_header raised commands"

section \<open>One header\<close>

datatype StallOp = STick "PumpInput list" instant bool | SRelease

fun stall_step :: "StallOp \<Rightarrow> PumpStallWatch \<Rightarrow> PumpStallWatch" where
  "stall_step (STick inputs now paused) pw = snd (stall_tick inputs now paused pw)"
| "stall_step SRelease pw = snd (release_holds pw)"

fun stall_op_ok :: "StallOp \<Rightarrow> bool" where
  "stall_op_ok (STick inputs _ _) = distinct (map pi_header_id inputs)"
| "stall_op_ok SRelease = True"

definition input_of :: "string \<Rightarrow> PumpInput list \<Rightarrow> PumpInput option" where
  "input_of h inputs = find (\<lambda>inp. pi_header_id inp = h) inputs"

lemma input_of_Some: "input_of h inputs = Some inp \<Longrightarrow> inp \<in> set inputs \<and> pi_header_id inp = h"
  by (auto simp: input_of_def find_Some_iff)

lemma input_of_None: "input_of h inputs = None \<longleftrightarrow> h \<notin> pi_header_id ` set inputs"
  by (auto simp: input_of_def find_None_iff)

lemma map_of_map_pairs: "map_of (map (\<lambda>(i, w). (i, g i w)) m) h = map_option (g h) (map_of m h)"
  by (induction m) auto

text \<open>What a tick does to one header, and the events that name it.\<close>

lemma watch_step_names: "EvStalled g c \<in> set (fst (watch_step now x w)) \<Longrightarrow> g = pi_header_id x"
  by (auto simp: watch_step_def Let_def split: Phase.splits Tach.splits if_splits)

lemma watch_fold_header:
  assumes "distinct (map pi_header_id inputs)" "fold (watch_input now) inputs (ev, pw) = (ev', pw')"
  shows "map_of (pw_headers pw') h = (case input_of h inputs of
        None \<Rightarrow> map_of (pw_headers pw) h
      | Some inp \<Rightarrow> Some (snd (watch_step now inp (unwrap_or watch_default (map_of (pw_headers pw) h))))) \<and>
    (EvStalled h b \<in> set ev' \<longrightarrow> EvStalled h b \<in> set ev \<or>
      (\<exists>inp. input_of h inputs = Some inp \<and>
        EvStalled h b \<in> set (fst (watch_step now inp (unwrap_or watch_default (map_of (pw_headers pw) h))))))"
  using assms
proof (induction inputs arbitrary: ev pw)
  case (Cons x xs)
  obtain e w where s: "watch_step now x (unwrap_or watch_default (map_of (pw_headers pw) (pi_header_id x))) = (e, w)"
    by (rule prod.exhaust)
  let ?pw = "pw\<lparr>pw_headers := hm_insert (pi_header_id x) w (pw_headers pw)\<rparr>"
  have "watch_input now x (ev, pw) = (ev @ e, ?pw)" using s by (simp add: watch_input_def)
  then have f: "fold (watch_input now) xs (ev @ e, ?pw) = (ev', pw')" using Cons.prems(2) by simp
  have d: "distinct (map pi_header_id xs)" "pi_header_id x \<notin> pi_header_id ` set xs" using Cons.prems(1) by simp_all
  note ih = Cons.IH [OF d(1) f]
  have name: "EvStalled h b \<in> set e \<Longrightarrow> h = pi_header_id x" using watch_step_names [of h b now x] s by (metis fst_conv)
  show ?case
  proof (cases "h = pi_header_id x")
    case True
    then have "input_of h xs = None" "input_of h (x # xs) = Some x" using d(2) by (auto simp: input_of_None) (simp add: input_of_def)
    then show ?thesis using ih s True by auto
  next
    case False
    then have i: "input_of h (x # xs) = input_of h xs" by (simp add: input_of_def)
    have m: "map_of (pw_headers ?pw) h = map_of (pw_headers pw) h" using False by simp
    show ?thesis using ih [unfolded m] name False unfolding i by auto
  qed
qed (simp add: input_of_def)

text \<open>The state of one header after a step.\<close>

fun header_step :: "string \<Rightarrow> StallOp \<Rightarrow> HeaderWatch option \<Rightarrow> HeaderWatch option" where
  "header_step h (STick inputs now paused) wo =
     (let wo = map_option (watch_reset inputs paused h) wo
      in if paused then wo
         else case input_of h inputs of
           None \<Rightarrow> wo
         | Some inp \<Rightarrow> Some (snd (watch_step now inp (unwrap_or watch_default wo))))"
| "header_step h SRelease wo =
     map_option (\<lambda>w. if is_held (hw_phase w) then w\<lparr>hw_phase := Monitoring None\<rparr> else w) wo"

lemma stall_step_header:
  assumes "stall_op_ok op"
  shows "map_of (pw_headers (stall_step op pw)) h = header_step h op (map_of (pw_headers pw) h)"
proof (cases op)
  case (STick inputs now paused)
  define pw0 where "pw0 = pw\<lparr>pw_headers := map (\<lambda>(i, w). (i, watch_reset inputs paused i w)) (pw_headers pw)\<rparr>"
  obtain ev pw' where f: "fold (watch_input now) inputs ([], pw0) = (ev, pw')" by (rule prod.exhaust)
  have h0: "map_of (pw_headers pw0) h = map_option (watch_reset inputs paused h) (map_of (pw_headers pw) h)"
    by (simp add: pw0_def map_of_map_pairs)
  have "stall_tick inputs now paused pw = (if paused then ([], pw0) else (ev, pw'))"
    unfolding stall_tick_def Let_def pw0_def [symmetric] f by simp
  then show ?thesis
    using STick assms h0 watch_fold_header [OF _ f, of h False] by (simp add: Let_def split: option.split)
next
  case SRelease
  then show ?thesis by (simp add: release_holds_def map_of_map_pairs)
qed

section \<open>Evidence\<close>

text \<open>A tick that shows the pump at rest while it is commanded to turn (the release of holds between ticks
  does not break a window), and one that shows it turning.\<close>

fun zero_sample :: "string \<Rightarrow> StallOp \<Rightarrow> bool" where
  "zero_sample h (STick inputs now paused) = (\<not> paused \<and>
     (case input_of h inputs of
        Some inp \<Rightarrow> pi_tach inp = TachFresh 0 \<and> (case pi_commanded_pct inp of Some p \<Rightarrow> 30 \<le> p | None \<Rightarrow> False)
      | None \<Rightarrow> False))"
| "zero_sample h SRelease = True"

fun spin_sample :: "string \<Rightarrow> StallOp \<Rightarrow> bool" where
  "spin_sample h (STick inputs now paused) = (\<not> paused \<and>
     (case input_of h inputs of
        Some inp \<Rightarrow> (case pi_tach inp of TachFresh rpm \<Rightarrow> 0 < rpm | TachStale \<Rightarrow> False)
      | None \<Rightarrow> False))"
| "spin_sample h SRelease = False"

fun op_time :: "StallOp \<Rightarrow> instant" where
  "op_time (STick _ now _) = now"
| "op_time SRelease = 0"

definition window_evidence :: "string \<Rightarrow> StallOp list \<Rightarrow> HeaderWatch option \<Rightarrow> bool" where
  "window_evidence h ops wo = (case wo of None \<Rightarrow> True | Some w \<Rightarrow>
     (hw_seen_spinning w \<longrightarrow> list_ex (spin_sample h) ops) \<and>
     (case hw_phase w of
        Monitoring (Some t) \<Rightarrow>
          (\<exists>pre o1 mid. ops = pre @ o1 # mid \<and> op_time o1 = t \<and> o1 \<noteq> SRelease \<and> list_all (zero_sample h) (o1 # mid))
      | _ \<Rightarrow> True))"

lemma watch_step_seen:
  "hw_seen_spinning (snd (watch_step now inp w)) \<longleftrightarrow>
     hw_seen_spinning w \<or> (case pi_tach inp of TachFresh rpm \<Rightarrow> 0 < rpm | TachStale \<Rightarrow> False)"
  by (auto simp: watch_step_def Let_def split: Phase.splits Tach.splits if_splits)

lemma watch_step_window:
  "hw_phase (snd (watch_step now inp w)) = Monitoring (Some t) \<Longrightarrow>
     pi_tach inp = TachFresh 0 \<and> (case pi_commanded_pct inp of Some p \<Rightarrow> 30 \<le> p | None \<Rightarrow> False) \<and>
     (hw_phase w = Monitoring (Some t) \<or> hw_phase w = Monitoring None \<and> t = now)"
  by (auto simp: watch_step_def Let_def unwrap_or_def split: Phase.splits Tach.splits if_splits option.splits)

lemma watch_step_stalled:
  "EvStalled h b \<in> set (fst (watch_step now inp w)) \<Longrightarrow>
     hw_seen_spinning w \<and> pi_tach inp = TachFresh 0 \<and>
     (case pi_commanded_pct inp of Some p \<Rightarrow> 30 \<le> p | None \<Rightarrow> False) \<and>
     (\<exists>t. hw_phase w = Monitoring (Some t) \<and> t + PUMP_STALL_DETECT \<le> now)"
  by (auto simp: watch_step_def Let_def PUMP_STALL_DETECT_def unwrap_or_def
      split: Phase.splits Tach.splits if_splits option.splits)

lemma watched_iff: "list_ex (\<lambda>inp. pi_header_id inp = h) inputs \<longleftrightarrow> input_of h inputs \<noteq> None"
  using input_of_None [of h inputs] by (auto simp: list_ex_iff)

text \<open>Evidence survives a step that keeps what was seen and discards or extends the window.\<close>

lemma window_evidence_grow:
  assumes "window_evidence h ops (Some w)"
    and "hw_seen_spinning w' \<longrightarrow> hw_seen_spinning w \<or> spin_sample h op"
    and "\<And>t. hw_phase w' = Monitoring (Some t) \<Longrightarrow>
      zero_sample h op \<and> (hw_phase w = Monitoring (Some t) \<or> t = op_time op \<and> op \<noteq> SRelease)"
  shows "window_evidence h (ops @ [op]) (Some w')"
proof -
  have "\<exists>pre o1 mid. ops @ [op] = pre @ o1 # mid \<and> op_time o1 = t \<and> o1 \<noteq> SRelease \<and> list_all (zero_sample h) (o1 # mid)"
    if t: "hw_phase w' = Monitoring (Some t)" for t
  proof (cases "t = op_time op \<and> op \<noteq> SRelease")
    case True
    then show ?thesis using assms(3) [OF t] by (intro exI [of _ ops] exI [of _ op] exI [of _ "[]"]) simp
  next
    case False
    then have "hw_phase w = Monitoring (Some t)" "zero_sample h op" using assms(3) [OF t] by auto
    then obtain pre o1 mid where "ops = pre @ o1 # mid" "op_time o1 = t" "o1 \<noteq> SRelease" "list_all (zero_sample h) (o1 # mid)"
      using assms(1) by (auto simp: window_evidence_def)
    then show ?thesis using \<open>zero_sample h op\<close>
      by (intro exI [of _ pre] exI [of _ o1] exI [of _ "mid @ [op]"]) simp
  qed
  then show ?thesis
    using assms(1,2) by (auto simp: window_evidence_def split: Phase.splits option.splits)
qed

lemma window_evidence_step:
  assumes "window_evidence h ops wo"
  shows "window_evidence h (ops @ [op]) (header_step h op wo)"
proof (cases op)
  case SRelease
  show ?thesis
  proof (cases wo)
    case (Some w)
    have "window_evidence h (ops @ [SRelease])
        (Some (if is_held (hw_phase w) then w\<lparr>hw_phase := Monitoring None\<rparr> else w))"
      using assms Some by (intro window_evidence_grow [of h ops w]) (auto split: if_splits)
    then show ?thesis using SRelease Some by simp
  qed (simp add: SRelease window_evidence_def)
next
  case (STick inputs now paused)
  have reset: "watch_reset inputs paused h w = (if input_of h inputs = None \<or> paused \<and> is_monitoring (hw_phase w)
      then w\<lparr>hw_phase := Monitoring None\<rparr> else w)" for w
    by (simp add: watch_reset_def watched_iff)
  show ?thesis
  proof (cases "\<not> paused \<and> input_of h inputs \<noteq> None")
    case True
    then obtain inp where inp: "input_of h inputs = Some inp" by blast
    let ?w = "unwrap_or watch_default wo"
    have w: "window_evidence h ops (Some ?w)"
      using assms by (cases wo) (auto simp: window_evidence_def watch_default_def)
    have "window_evidence h (ops @ [op]) (Some (snd (watch_step now inp ?w)))"
      using True inp STick watch_step_window [of now inp ?w]
      by (intro window_evidence_grow [OF w]) (auto simp: watch_step_seen split: option.splits)
    moreover have "header_step h op wo = Some (snd (watch_step now inp ?w))"
      using True inp STick reset by (cases wo) auto
    ultimately show ?thesis by simp
  next
    case False
    show ?thesis
    proof (cases wo)
      case (Some w)
      have "header_step h op wo = Some (watch_reset inputs paused h w)"
        using False STick Some by (auto simp: Let_def)
      moreover have "window_evidence h (ops @ [op]) (Some (watch_reset inputs paused h w))"
        using assms Some False by (intro window_evidence_grow [of h ops w]) (auto simp: reset split: if_splits)
      ultimately show ?thesis by simp
    qed (use STick False in \<open>auto simp: window_evidence_def\<close>)
  qed
qed

lemma window_evidence_run:
  assumes "list_all stall_op_ok ops"
  shows "window_evidence h ops (map_of (pw_headers (fold stall_step ops stall_watch_default)) h)"
  using assms
proof (induction ops rule: rev_induct)
  case Nil
  show ?case by (simp add: window_evidence_def stall_watch_default_def)
next
  case (snoc op ops)
  then show ?case using window_evidence_step [of h ops _ op] stall_step_header by simp
qed

section \<open>Properties\<close>

text \<open>C28: a stall is only declared on evidence. When a tick declares a header stalled, the pump was
  seen turning earlier in this run, and there is an unbroken run of ticks up to and including this one,
  the first at least \<open>PUMP_STALL_DETECT\<close> earlier, in which no tick was paused and every one read a
  fresh 0 on that header while it was commanded at or above the pump floor.\<close>

theorem stall_needs_unbroken_zeros:
  assumes "list_all stall_op_ok ops" "distinct (map pi_header_id inputs)"
    and "EvStalled h held \<in> set (fst (stall_tick inputs now paused (fold stall_step ops stall_watch_default)))"
  shows "list_ex (spin_sample h) ops \<and> zero_sample h (STick inputs now paused) \<and>
    (\<exists>pre o1 mid. ops = pre @ o1 # mid \<and> o1 \<noteq> SRelease \<and> list_all (zero_sample h) (o1 # mid) \<and>
       op_time o1 + PUMP_STALL_DETECT \<le> now)"
proof -
  let ?pw = "fold stall_step ops stall_watch_default"
  define pw0 where "pw0 = ?pw\<lparr>pw_headers := map (\<lambda>(i, w). (i, watch_reset inputs paused i w)) (pw_headers ?pw)\<rparr>"
  obtain ev pw' where f: "fold (watch_input now) inputs ([], pw0) = (ev, pw')" by (rule prod.exhaust)
  have "stall_tick inputs now paused ?pw = (if paused then ([], pw0) else (ev, pw'))"
    unfolding stall_tick_def Let_def pw0_def [symmetric] f by simp
  with assms(3) have np: "\<not> paused" and e: "EvStalled h held \<in> set ev" by (auto split: if_splits)
  from watch_fold_header [OF assms(2) f, of h held] e obtain inp where inp: "input_of h inputs = Some inp"
    and s: "EvStalled h held \<in> set (fst (watch_step now inp (unwrap_or watch_default (map_of (pw_headers pw0) h))))"
    by auto
  have "map_of (pw_headers pw0) h = map_of (pw_headers ?pw) h"
    using np inp by (simp add: pw0_def map_of_map_pairs watch_reset_def watched_iff option.map_ident)
  with watch_step_stalled [OF s] obtain w t where w: "map_of (pw_headers ?pw) h = Some w" "hw_seen_spinning w"
    "hw_phase w = Monitoring (Some t)" "t + PUMP_STALL_DETECT \<le> now"
    by (cases "map_of (pw_headers ?pw) h") (auto simp: watch_default_def)
  have z: "zero_sample h (STick inputs now paused)" using watch_step_stalled [OF s] np inp by simp
  from window_evidence_run [OF assms(1), of h] w z show ?thesis
    by (auto simp: window_evidence_def)
qed

text \<open>A header that was seen turning and whose window, if open, began no later than \<open>t0\<close>.\<close>

definition armed :: "instant \<Rightarrow> HeaderWatch \<Rightarrow> bool" where
  "armed t0 w = (hw_seen_spinning w \<and> (case hw_phase w of Monitoring (Some s) \<Rightarrow> s \<le> t0 | _ \<Rightarrow> True))"

definition window_open :: "HeaderWatch \<Rightarrow> bool" where
  "window_open w = (hw_phase w \<noteq> Monitoring None)"

lemma zero_step:
  assumes "zero_sample h op" "op \<noteq> SRelease" "armed t0 w" "op_time op \<le> t0 \<or> window_open w"
  obtains w' where "header_step h op (Some w) = Some w'" "armed t0 w'" "window_open w'"
    "t0 + PUMP_STALL_DETECT \<le> op_time op \<Longrightarrow> \<not> is_monitoring (hw_phase w')"
proof -
  from assms(1,2) obtain inputs now inp p where op: "op = STick inputs now False" "input_of h inputs = Some inp"
    "pi_tach inp = TachFresh 0" "pi_commanded_pct inp = Some p" "30 \<le> p"
    by (cases op) (auto split: option.splits)
  let ?w = "snd (watch_step now inp w)"
  have "header_step h op (Some w) = Some ?w"
    using op by (simp add: watch_reset_def watched_iff)
  moreover have "armed t0 ?w \<and> window_open ?w \<and>
      (t0 + PUMP_STALL_DETECT \<le> op_time op \<longrightarrow> \<not> is_monitoring (hw_phase ?w))"
    using assms(3,4) op
    by (auto simp: armed_def window_open_def watch_step_def Let_def PUMP_STALL_DETECT_def unwrap_or_def
        split: Phase.splits if_splits option.splits)
  ultimately show ?thesis using that by blast
qed

lemma zero_run:
  assumes "list_all stall_op_ok ops" "list_all (\<lambda>op. op \<noteq> SRelease \<and> zero_sample h op) ops"
    and "map_of (pw_headers pw) h = Some w" "armed t0 w" "window_open w"
  obtains w' where "map_of (pw_headers (fold stall_step ops pw)) h = Some w'" "armed t0 w'" "window_open w'"
  using assms
proof (induction ops arbitrary: pw w thesis)
  case (Cons op ops)
  have op: "zero_sample h op" "op \<noteq> SRelease" "stall_op_ok op" using Cons.prems by simp_all
  obtain w' where w': "header_step h op (Some w) = Some w'" "armed t0 w'" "window_open w'"
    using zero_step [OF op(1,2) Cons.prems(5)] Cons.prems(6) by blast
  have "map_of (pw_headers (stall_step op pw)) h = Some w'"
    using stall_step_header [OF op(3)] Cons.prems(4) w'(1) by simp
  from Cons.IH [OF _ _ _ this w'(2,3)] show ?case using Cons.prems(1-3) by auto
qed auto


definition stalled_op :: "instant \<Rightarrow> StallOp" where
  "stalled_op now = STick [\<lparr>pi_header_id = ''p'', pi_tach = TachFresh 0, pi_commanded_pct = Some 30\<rparr>] now False"

definition turning_op :: "instant \<Rightarrow> StallOp" where
  "turning_op now = STick [\<lparr>pi_header_id = ''p'', pi_tach = TachFresh 900, pi_commanded_pct = Some 30\<rparr>] now False"

lemma turning_header:
  "map_of (pw_headers (stall_step (turning_op 0) stall_watch_default)) ''p'' =
     Some \<lparr>hw_seen_spinning = True, hw_stalls = 0, hw_phase = Monitoring None\<rparr>"
  by (subst stall_step_header) (simp_all add: turning_op_def stall_watch_default_def input_of_def watch_step_def watch_default_def)


theorem stall_needs_unbroken_zeros_witness:
  "list_ex (spin_sample ''p'') [turning_op 0, stalled_op (secs 1)]"
proof -
  let ?ops = "[turning_op 0, stalled_op (secs 1)]"
  let ?in = "[\<lparr>pi_header_id = ''p'', pi_tach = TachFresh 0, pi_commanded_pct = Some 30\<rparr>]"
  have "EvStalled ''p'' False \<in> set (fst (stall_tick ?in (secs 11) False (fold stall_step ?ops stall_watch_default)))"
    by (simp add: turning_op_def stalled_op_def stall_tick_def watch_input_def watch_step_def watch_reset_def
        stall_watch_default_def watch_default_def hm_insert_def PUMP_STALL_DETECT_def)
  from stall_needs_unbroken_zeros [OF _ _ this] show ?thesis
    by (simp add: turning_op_def stalled_op_def)
qed

section \<open>The response only raises\<close>

definition raise_to :: "string set \<Rightarrow> PwmCommand \<Rightarrow> PwmCommand" where
  "raise_to ids cmd = (if cmd_source cmd = ''hwmon'' \<and> cmd_member_id cmd \<in> ids
     then cmd\<lparr>cmd_pwm_percent := max (cmd_pwm_percent cmd) 100\<rparr> else cmd)"

definition full_command :: "string \<Rightarrow> PwmCommand" where
  "full_command i = \<lparr>cmd_member_id = i, cmd_source = ''hwmon'', cmd_pwm_percent = 100, cmd_gpu_fan_zero_rpm = False\<rparr>"

definition commanded_ids :: "PwmCommand list \<Rightarrow> string set" where
  "commanded_ids cmds = cmd_member_id ` {c \<in> set cmds. cmd_source c = ''hwmon''}"

lemma raise_header_eq:
  "raise_header i cmds = map (raise_to {i}) cmds @ (if i \<in> commanded_ids cmds then [] else [full_command i])"
proof (cases "i \<in> commanded_ids cmds")
  case True
  then have "list_ex (\<lambda>c. cmd_source c = ''hwmon'' \<and> cmd_member_id c = i) cmds"
    by (auto simp: commanded_ids_def list_ex_iff)
  then show ?thesis using True
    by (simp add: raise_header_def raise_command_def raise_to_def PUMP_STALL_RESPONSE_PCT_def)
next
  case False
  then have no: "\<not> list_ex (\<lambda>c. cmd_source c = ''hwmon'' \<and> cmd_member_id c = i) cmds"
    by (auto simp: commanded_ids_def list_ex_iff)
  then have "map (raise_to {i}) cmds = cmds" by (intro map_idI) (auto simp: raise_to_def list_ex_iff)
  then show ?thesis using False no
    by (simp add: raise_header_def full_command_def PUMP_STALL_RESPONSE_PCT_def)
qed

lemma commanded_ids_Cons:
  "commanded_ids [] = {}"
  "commanded_ids (c # cs) = (if cmd_source c = ''hwmon'' then insert (cmd_member_id c) (commanded_ids cs)
     else commanded_ids cs)"
  by (auto simp: commanded_ids_def)

lemma commanded_ids_append: "commanded_ids (xs @ ys) = commanded_ids xs \<union> commanded_ids ys"
  by (auto simp: commanded_ids_def)

lemma raise_to_Un: "raise_to A (raise_to B c) = raise_to (A \<union> B) c"
  by (auto simp: raise_to_def)

lemma raise_to_ids [simp]: "commanded_ids (map (raise_to A) cmds) = commanded_ids cmds"
  by (induction cmds) (auto simp: commanded_ids_Cons raise_to_def)

lemma apply_stall_response_eq:
  "distinct raised \<Longrightarrow> apply_stall_response raised cmds =
     map (raise_to (set raised)) cmds @ map full_command (filter (\<lambda>i. i \<notin> commanded_ids cmds) raised)"
proof (induction raised arbitrary: cmds)
  case Nil
  have "raise_to {} c = c" for c by (simp add: raise_to_def)
  then show ?case by (simp add: apply_stall_response_def)
next
  case (Cons i raised)
  have ids: "commanded_ids (raise_header i cmds) = insert i (commanded_ids cmds)"
    by (auto simp: raise_header_eq commanded_ids_append) (auto simp: commanded_ids_def full_command_def)
  have "filter (\<lambda>j. j \<notin> insert i (commanded_ids cmds)) raised = filter (\<lambda>j. j \<notin> commanded_ids cmds) raised"
    using Cons.prems by (intro filter_cong) auto
  moreover have "raise_to (set raised) (full_command i) = full_command i"
    using Cons.prems by (simp add: raise_to_def full_command_def)
  ultimately show ?case
    using Cons.IH [of "raise_header i cmds"] Cons.prems ids
    by (simp add: apply_stall_response_def raise_header_eq raise_to_Un)
qed

lemma raised_headers_distinct: "hm_ok (pw_headers pw) \<Longrightarrow> distinct (raised_headers pw)"
  by (simp add: raised_headers_def hm_ok_def distinct_map_filter)

text \<open>Lemma: the stall response never lowers a command. It is exactly this: every command of a raised hwmon
  header goes up to 100, every other command stays as it is, and each raised header that had no command
  gets one at 100.\<close>

theorem stall_response_only_raises:
  assumes "distinct raised"
  shows "apply_stall_response raised cmds =
     map (raise_to (set raised)) cmds @ map full_command (filter (\<lambda>i. i \<notin> commanded_ids cmds) raised)"
  by (rule apply_stall_response_eq [OF assms])

theorem stall_response_only_raises_witness:
  "apply_stall_response [''p'', ''q''] [command_for (ControlMember.make ''hwmon'' ''p'' ''pump'' False) 40] =
     [full_command ''p'', full_command ''q'']"
  by (subst stall_response_only_raises)
     (simp_all add: raise_to_def full_command_def commanded_ids_Cons command_for_def gpu_zero_rpm_def
        ControlMember.make_def)

end
