(* ===== verification/Serial_Protocol.thy ===== *)
theory Serial_Protocol
  imports Memory_Id Header_Roles
begin

text \<open>
  The OpenFan wire protocol (\<open>serial/protocol.rs\<close>) and one exchange over it (\<open>serial/transport.rs\<close>).
  The device is a list of what the transport's \<open>read_line\<close> returns, each with the instant of the
  deadline check before it; an exchange that has not ended when the list does is \<open>None\<close>. Error
  messages are kept as the reason they state.
\<close>

section \<open>Encoding and decoding\<close>

definition NUM_CHANNELS :: u8 where
  "NUM_CHANNELS = 10"

datatype ProtocolReason =
    ChannelOutOfRange | MissingSeparator | BadCommandCode | BadPair | BadChannel | BadRpm | NoReadings
  | DebugFlood | NotResynchronised | DeviceReason string

datatype SerialError = SerialTimeout | SerialProtocol ProtocolReason

datatype Channel = Channel u8

fun channel_index :: "Channel \<Rightarrow> u8" where
  "channel_index (Channel i) = i"

definition channel_new :: "u8 \<Rightarrow> SerialError + Channel" where
  "channel_new index =
     (if index < NUM_CHANNELS then Inr (Channel index) else Inl (SerialProtocol ChannelOutOfRange))"

datatype Command = ReadAllRpm | ReadRpm Channel | SetPwm Channel u8

fun opcode :: "Command \<Rightarrow> u8" where
  "opcode ReadAllRpm = 0"
| "opcode (ReadRpm _) = 1"
| "opcode (SetPwm _ _) = 2"

definition hex_char :: "nat \<Rightarrow> char" where
  "hex_char d = char_of (if d < 10 then 48 + d else 55 + d)"

definition hex2 :: "nat \<Rightarrow> string" where
  "hex2 n = [hex_char (n div 16), hex_char (n mod 16)]"

fun encode :: "Command \<Rightarrow> string" where
  "encode ReadAllRpm = ''>'' @ hex2 (opcode ReadAllRpm) @ [CHR 10]"
| "encode (ReadRpm ch) = ''>'' @ hex2 (opcode (ReadRpm ch)) @ hex2 (channel_index ch) @ [CHR 10]"
| "encode (SetPwm ch pwm) =
     ''>'' @ hex2 (opcode (SetPwm ch pwm)) @ hex2 (channel_index ch) @ hex2 pwm @ [CHR 10]"

definition HW_INFO_OPCODE :: u8 where
  "HW_INFO_OPCODE = 5"

definition FW_INFO_OPCODE :: u8 where
  "FW_INFO_OPCODE = 6"

definition JUMP_TO_BOOTLOADER_OPCODE :: u8 where
  "JUMP_TO_BOOTLOADER_OPCODE = 7"

definition encode_bare :: "u8 \<Rightarrow> string" where
  "encode_bare op = ''>'' @ hex2 op @ [CHR 10]"

record ChannelRpm =
  cr_channel :: u8
  cr_rpm :: nat

datatype Response = Rpm u8 "ChannelRpm list"

fun command_code :: "Response \<Rightarrow> u8" where
  "command_code (Rpm code _) = code"

fun mentions_channel :: "Response \<Rightarrow> u8 \<Rightarrow> bool" where
  "mentions_channel (Rpm _ readings) channel = list_ex (\<lambda>r. cr_channel r = channel) readings"

definition matches_reply :: "Command \<Rightarrow> Response \<Rightarrow> bool" where
  "matches_reply cmd response =
     (if command_code response \<noteq> opcode cmd then False
      else case cmd of
        ReadAllRpm \<Rightarrow> True
      | ReadRpm ch \<Rightarrow> mentions_channel response (channel_index ch)
      | SetPwm ch _ \<Rightarrow> mentions_channel response (channel_index ch))"

datatype DecodedLine = DecResponse Response | DebugOutput string

text \<open>\<open>from_str_radix(_, 16)\<close> with the largest value of the integer type.\<close>

definition parse_hex :: "nat \<Rightarrow> string \<Rightarrow> nat option" where
  "parse_hex mx s = (let ds = (case s of [] \<Rightarrow> [] | c # r \<Rightarrow> if c = CHR ''+'' then r else s) in
     if ds \<noteq> [] \<and> list_all is_hexdigit ds \<and> hex_val ds \<le> mx then Some (hex_val ds) else None)"

text \<open>\<open>str::split\<close> on a character.\<close>

definition trim_end_crlf :: "string \<Rightarrow> string" where
  "trim_end_crlf s = rev (dropWhile (\<lambda>c. c = CHR 13 \<or> c = CHR 10) (rev s))"

definition parse_pair :: "string \<Rightarrow> SerialError + ChannelRpm" where
  "parse_pair segment =
     (case split_once '':'' segment of
        None \<Rightarrow> Inl (SerialProtocol BadPair)
      | Some (ch_str, rpm_str) \<Rightarrow>
         (case parse_u8 ch_str of
            None \<Rightarrow> Inl (SerialProtocol BadChannel)
          | Some channel \<Rightarrow>
             (case parse_hex 65535 rpm_str of
                None \<Rightarrow> Inl (SerialProtocol BadRpm)
              | Some rpm \<Rightarrow> Inr \<lparr>cr_channel = channel, cr_rpm = rpm\<rparr>)))"

fun parse_segments :: "string list \<Rightarrow> ChannelRpm list \<Rightarrow> SerialError + ChannelRpm list" where
  "parse_segments [] readings = Inr readings"
| "parse_segments (segment # segments) readings =
     (if segment = [] then parse_segments segments readings
      else case parse_pair segment of
        Inl e \<Rightarrow> Inl e
      | Inr r \<Rightarrow> parse_segments segments (readings @ [r]))"

definition parse_rpm_pairs :: "string \<Rightarrow> SerialError + ChannelRpm list" where
  "parse_rpm_pairs data =
     (case parse_segments (split_on CHR '';'' data) [] of
        Inl e \<Rightarrow> Inl e
      | Inr readings \<Rightarrow> if readings = [] then Inl (SerialProtocol NoReadings) else Inr readings)"

definition strip_suffix_gt :: "string \<Rightarrow> string" where
  "strip_suffix_gt s = (if s \<noteq> [] \<and> List.last s = CHR ''>'' then butlast s else s)"

definition decode_line :: "string \<Rightarrow> SerialError + DecodedLine" where
  "decode_line raw =
     (let line = trim_end_crlf raw in
      case strip_prefix ''<'' line of
        None \<Rightarrow> Inr (DebugOutput line)
      | Some after_prefix \<Rightarrow>
         (let inner = strip_suffix_gt after_prefix in
          case split_once ''|'' inner of
            None \<Rightarrow> Inl (SerialProtocol MissingSeparator)
          | Some (code_str, data_str) \<Rightarrow>
             (case parse_hex 255 code_str of
                None \<Rightarrow> Inl (SerialProtocol BadCommandCode)
              | Some code \<Rightarrow>
                 (case parse_rpm_pairs data_str of
                    Inl e \<Rightarrow> Inl e
                  | Inr readings \<Rightarrow> Inr (DecResponse (Rpm code readings))))))"

section \<open>One exchange\<close>

definition MAX_DEBUG_LINES :: nat where
  "MAX_DEBUG_LINES = 50"

definition MAX_STALE_FRAMES :: nat where
  "MAX_STALE_FRAMES = 16"

type_synonym device_reads = "(instant \<times> (SerialError + string)) list"

fun send_loop :: "Command \<Rightarrow> instant \<Rightarrow> nat \<Rightarrow> nat \<Rightarrow> device_reads \<Rightarrow> (SerialError + Response) option" where
  "send_loop cmd deadline dbg stale [] = None"
| "send_loop cmd deadline dbg stale ((now, r) # reads) =
     (if deadline \<le> now then Some (Inl SerialTimeout)
      else if MAX_DEBUG_LINES \<le> dbg then Some (Inl (SerialProtocol DebugFlood))
      else if MAX_STALE_FRAMES \<le> stale then Some (Inl (SerialProtocol NotResynchronised))
      else case r of
        Inl e \<Rightarrow> Some (Inl e)
      | Inr line \<Rightarrow>
         (case decode_line line of
            Inl e \<Rightarrow> Some (Inl e)
          | Inr (DecResponse response) \<Rightarrow>
              if matches_reply cmd response then Some (Inr response)
              else send_loop cmd deadline dbg (stale + 1) reads
          | Inr (DebugOutput _) \<Rightarrow> send_loop cmd deadline (dbg + 1) stale reads))"

definition send_command :: "SerialError + unit \<Rightarrow> Command \<Rightarrow> instant \<Rightarrow> duration \<Rightarrow> device_reads \<Rightarrow>
    (SerialError + Response) option" where
  "send_command written cmd start timeout reads =
     (case written of
        Inl e \<Rightarrow> Some (Inl e)
      | Inr _ \<Rightarrow> send_loop cmd (start + timeout) 0 0 reads)"

definition verify_openfan_identity :: "SerialError + unit \<Rightarrow> instant \<Rightarrow> duration \<Rightarrow> device_reads \<Rightarrow>
    (SerialError + unit) option" where
  "verify_openfan_identity written start timeout reads =
     map_option (map_sum id (\<lambda>_. ())) (send_command written ReadAllRpm start timeout reads)"

definition MAX_INFO_LINES :: nat where
  "MAX_INFO_LINES = 16"

definition is_info_key_char :: "char \<Rightarrow> bool" where
  "is_info_key_char c = (let n = (of_char c :: nat) in 65 \<le> n \<and> n \<le> 90 \<or> is_digit c \<or> c = CHR ''_'')"

definition trim_spaces :: "string \<Rightarrow> string" where
  "trim_spaces s = rev (dropWhile (\<lambda>c. c = CHR '' '') (rev (dropWhile (\<lambda>c. c = CHR '' '') s)))"

definition push_info_pair :: "string \<Rightarrow> (string \<times> string) list \<Rightarrow> (string \<times> string) list" where
  "push_info_pair line pairs =
     (case split_once '':'' line of
        None \<Rightarrow> pairs
      | Some (key, v) \<Rightarrow>
         (let key_ok = (key \<noteq> [] \<and> length key \<le> 32 \<and> list_all is_info_key_char key);
              value_ok = (length v \<le> 64 \<and> list_all (\<lambda>c. let n = (of_char c :: nat) in 32 \<le> n \<and> n < 127) v)
          in if key_ok \<and> value_ok \<and> length pairs < MAX_INFO_LINES then pairs @ [(key, trim_spaces v)] else pairs))"

fun info_first :: "string \<Rightarrow> instant \<Rightarrow> nat \<Rightarrow> device_reads \<Rightarrow> (SerialError + string \<times> device_reads) option" where
  "info_first pfx deadline skipped [] = None"
| "info_first pfx deadline skipped ((now, r) # reads) =
     (if deadline \<le> now then Some (Inl SerialTimeout)
      else if MAX_DEBUG_LINES \<le> skipped then Some (Inl (SerialProtocol DebugFlood))
      else case r of
        Inl e \<Rightarrow> Some (Inl e)
      | Inr raw \<Rightarrow>
         (case strip_prefix pfx (trim_end_crlf raw) of
            Some rest \<Rightarrow> Some (Inr (rest, reads))
          | None \<Rightarrow> info_first pfx deadline (skipped + 1) reads))"

fun info_rest :: "nat \<Rightarrow> instant \<Rightarrow> (string \<times> string) list \<Rightarrow> device_reads \<Rightarrow> (string \<times> string) list option" where
  "info_rest 0 deadline pairs reads = Some pairs"
| "info_rest (Suc n) deadline pairs [] = None"
| "info_rest (Suc n) deadline pairs ((now, r) # reads) =
     (if deadline \<le> now then Some pairs
      else case r of
        Inl _ \<Rightarrow> Some pairs
      | Inr raw \<Rightarrow>
         (let line = trim_end_crlf raw in
          if line = [] then Some pairs else info_rest n deadline (push_info_pair line pairs) reads))"

definition read_info_block :: "SerialError + unit \<Rightarrow> u8 \<Rightarrow> instant \<Rightarrow> duration \<Rightarrow> device_reads \<Rightarrow>
    (SerialError + (string \<times> string) list) option" where
  "read_info_block written op start timeout reads =
     (case written of
        Inl e \<Rightarrow> Some (Inl e)
      | Inr _ \<Rightarrow>
         (let deadline = start + timeout in
          case info_first (''<'' @ hex2 op @ ''|'') deadline 0 reads of
            None \<Rightarrow> None
          | Some (Inl e) \<Rightarrow> Some (Inl e)
          | Some (Inr (fst_line, reads')) \<Rightarrow>
              map_option Inr (info_rest MAX_INFO_LINES deadline (push_info_pair fst_line []) reads')))"

section \<open>Hex digits\<close>

lemma hex_char_simps:
  "d < 16 \<Longrightarrow> is_hexdigit (hex_char d)" "d < 16 \<Longrightarrow> hexdigit_val (hex_char d) = d"
  by (auto simp: is_hexdigit_def is_digit_def hex_char_def hexdigit_val_def Let_def)

lemma hex_val_append: "hex_val (s @ t) = hex_val s * 16 ^ length t + hex_val t"
proof (induction t rule: rev_induct)
  case (snoc c t)
  have "hex_val (u @ [c]) = 16 * hex_val u + hexdigit_val c" for u by (simp add: hex_val_def)
  from this [of "s @ t"] this [of t] snoc show ?case by simp
qed (simp add: hex_val_def)

lemma hex2_spec: "n < 256 \<Longrightarrow> hex_val (hex2 n) = n" "n < 256 \<Longrightarrow> list_all is_hexdigit (hex2 n)" "hex2 n \<noteq> []"
  by (auto simp: hex2_def hex_val_def hex_char_simps)

lemma hexdigit_not: "is_hexdigit c \<Longrightarrow> c \<notin> {CHR ''+'', CHR ''|'', CHR '':'', CHR '';'', CHR ''>''}"
  by (auto simp: is_hexdigit_def is_digit_def)

lemma parse_hex_digits:
  "list_all is_hexdigit s \<Longrightarrow> s \<noteq> [] \<Longrightarrow> hex_val s \<le> mx \<Longrightarrow> parse_hex mx s = Some (hex_val s)"
  using hexdigit_not by (cases s) (auto simp: parse_hex_def)

lemma hex2_inject: "a < 256 \<Longrightarrow> b < 256 \<Longrightarrow> hex2 a = hex2 b \<Longrightarrow> a = b"
  using hex2_spec(1) by metis

lemma hex2_eq: "a < 256 \<Longrightarrow> b < 256 \<Longrightarrow> hex2 a = hex2 b \<longleftrightarrow> a = b"
  using hex2_inject by blast

lemma hex2_append_eq: "a < 256 \<Longrightarrow> b < 256 \<Longrightarrow> hex2 a @ s = hex2 b @ t \<longleftrightarrow> a = b \<and> s = t"
proof -
  assume "a < 256" "b < 256"
  moreover have "length (hex2 a) = length (hex2 b)" by (simp add: hex2_def)
  ultimately show ?thesis using hex2_inject by auto
qed

section \<open>Decoding frames\<close>

text \<open>The reply format of the protocol: two hex digits of the code, then one
  \<open>NN:HHHH;\<close> group per channel, decimal channel and hex speed.\<close>

definition pad2 :: "nat \<Rightarrow> string" where
  "pad2 n = (if n < 10 then CHR ''0'' # show_nat n else show_nat n)"

definition hex4 :: "nat \<Rightarrow> string" where
  "hex4 n = hex2 (n div 256) @ hex2 (n mod 256)"

definition pair_text :: "ChannelRpm \<Rightarrow> string" where
  "pair_text r = pad2 (cr_channel r) @ '':'' @ hex4 (cr_rpm r)"

definition frame_text :: "u8 \<Rightarrow> ChannelRpm list \<Rightarrow> string" where
  "frame_text code readings =
     ''<'' @ hex2 code @ ''|'' @ concat (map (\<lambda>r. pair_text r @ '';'') readings) @ ''>'' @ [CHR 13, CHR 10]"

definition reading_ok :: "ChannelRpm \<Rightarrow> bool" where
  "reading_ok r = (cr_channel r \<le> 255 \<and> cr_rpm r \<le> 65535)"

lemma hex4_spec: "n \<le> 65535 \<Longrightarrow> hex_val (hex4 n) = n" "n \<le> 65535 \<Longrightarrow> list_all is_hexdigit (hex4 n)" "hex4 n \<noteq> []"
  by (auto simp: hex4_def hex_val_append hex2_spec) (simp add: hex2_def)

lemma pad2_spec: "dec_val (pad2 n) = n" "list_all is_digit (pad2 n)" "pad2 n \<noteq> []"
  using show_nat_spec [of n] by (auto simp: pad2_def dec_val_zero is_digit_def)

lemma digits_no: "list_all is_digit s \<Longrightarrow> CHR '':'' \<notin> set s \<and> CHR '';'' \<notin> set s"
  by (induction s) (auto simp: is_digit_def)

lemma hexdigits_no: "list_all is_hexdigit s \<Longrightarrow> CHR ''|'' \<notin> set s \<and> CHR '';'' \<notin> set s"
  using hexdigit_not by (induction s) auto

lemma pair_text_parse: "reading_ok r \<Longrightarrow> parse_pair (pair_text r) = Inr r"
proof -
  assume "reading_ok r"
  then have r: "cr_channel r \<le> 255" "cr_rpm r \<le> 65535" by (simp_all add: reading_ok_def)
  have "split_once '':'' (pair_text r) = Some (pad2 (cr_channel r), hex4 (cr_rpm r))"
    using digits_no [OF pad2_spec(2)] by (simp add: pair_text_def split_once_char_first)
  then show ?thesis
    using r pad2_spec hex4_spec by (simp add: parse_pair_def parse_u8_digits parse_hex_digits)
qed

lemma pair_text_no: "reading_ok r \<Longrightarrow> CHR '';'' \<notin> set (pair_text r) \<and> pair_text r \<noteq> []"
  using digits_no [OF pad2_spec(2), of "cr_channel r"] hexdigits_no [OF hex4_spec(2), of "cr_rpm r"]
  by (auto simp: pair_text_def reading_ok_def)

lemma parse_segments_pairs:
  "list_all reading_ok rs \<Longrightarrow> parse_segments (map pair_text rs @ [[]]) acc = Inr (acc @ rs)"
  by (induction rs arbitrary: acc) (auto simp: pair_text_no pair_text_parse)

lemma parse_rpm_pairs_text:
  assumes "list_all reading_ok rs" "rs \<noteq> []"
  shows "parse_rpm_pairs (concat (map (\<lambda>r. pair_text r @ '';'') rs)) = Inr rs"
proof -
  have "list_all (\<lambda>s. CHR '';'' \<notin> set s) (map pair_text rs)"
    using assms(1) pair_text_no by (auto simp: list_all_iff)
  from split_on_groups [OF this] have "split_on CHR '';'' (concat (map (\<lambda>r. pair_text r @ '';'') rs)) = map pair_text rs @ [[]]"
    by (simp add: comp_def)
  then show ?thesis using assms by (simp add: parse_rpm_pairs_def parse_segments_pairs)
qed

text \<open>Lemma: the decoder reads what the protocol writes. Every frame in the reply format, with any command
  code, any non-empty list of channels and any speeds that fit their fields, decodes to exactly that
  code and those readings.\<close>

theorem decode_reads_frames:
  assumes "code < 256" "list_all reading_ok readings" "readings \<noteq> []"
  shows "decode_line (frame_text code readings) = Inr (DecResponse (Rpm code readings))"
proof -
  let ?d = "concat (map (\<lambda>r. pair_text r @ '';'') readings)"
  have t: "trim_end_crlf (frame_text code readings) = ''<'' @ (hex2 code @ ''|'' @ ?d) @ ''>''"
    by (simp add: trim_end_crlf_def frame_text_def)
  have "CHR ''|'' \<notin> set (hex2 code)" using hexdigits_no [OF hex2_spec(2) [OF assms(1)]] by simp
  then have s: "split_once ''|'' (hex2 code @ ''|'' @ ?d) = Some (hex2 code, ?d)"
    by (simp add: split_once_char_first)
  have "strip_suffix_gt ((hex2 code @ ''|'' @ ?d) @ ''>'') = hex2 code @ ''|'' @ ?d"
    by (simp add: strip_suffix_gt_def butlast_append)
  moreover have "strip_prefix ''<'' (''<'' @ x) = Some x" for x by simp
  ultimately show ?thesis
    using s assms hex2_spec [of code] parse_rpm_pairs_text [OF assms(2,3)]
    unfolding decode_line_def Let_def t by (simp add: parse_hex_digits)
qed

theorem decode_reads_frames_witness:
  "decode_line (frame_text 2 [\<lparr>cr_channel = 7, cr_rpm = 1200\<rparr>]) =
     Inr (DecResponse (Rpm 2 [\<lparr>cr_channel = 7, cr_rpm = 1200\<rparr>]))"
  by (rule decode_reads_frames) (simp_all add: reading_ok_def)

section \<open>Correlation\<close>

fun command_ok :: "Command \<Rightarrow> bool" where
  "command_ok ReadAllRpm = True"
| "command_ok (ReadRpm ch) = (channel_index ch < NUM_CHANNELS)"
| "command_ok (SetPwm ch pwm) = (channel_index ch < NUM_CHANNELS \<and> pwm < 256)"

text \<open>A line that is neither the reply to the command nor an error: a debug line or a frame that answers
  something else.\<close>

fun is_debug :: "instant \<times> (SerialError + string) \<Rightarrow> bool" where
  "is_debug (_, Inl _) = False"
| "is_debug (_, Inr line) = (case decode_line line of Inr (DebugOutput _) \<Rightarrow> True | _ \<Rightarrow> False)"

fun is_stale :: "Command \<Rightarrow> instant \<times> (SerialError + string) \<Rightarrow> bool" where
  "is_stale cmd (_, Inl _) = False"
| "is_stale cmd (_, Inr line) =
     (case decode_line line of Inr (DecResponse r) \<Rightarrow> \<not> matches_reply cmd r | _ \<Rightarrow> False)"

definition answers :: "Command \<Rightarrow> instant \<Rightarrow> nat \<Rightarrow> nat \<Rightarrow> device_reads \<Rightarrow> Response \<Rightarrow> bool" where
  "answers cmd deadline dbg stale reads resp =
     (\<exists>pre t line post. reads = pre @ (t, Inr line) # post \<and>
        decode_line line = Inr (DecResponse resp) \<and> matches_reply cmd resp \<and>
        list_all (\<lambda>(t, r). t < deadline) (pre @ [(t, Inr line)]) \<and>
        list_all (\<lambda>x. is_debug x \<or> is_stale cmd x) pre \<and>
        dbg + length (filter is_debug pre) < MAX_DEBUG_LINES \<and>
        stale + length (filter (is_stale cmd) pre) < MAX_STALE_FRAMES)"

lemma debug_not_stale: "is_debug x \<Longrightarrow> \<not> is_stale cmd x"
  by (cases x; cases "snd x") (auto split: sum.splits DecodedLine.splits)

lemma answers_Nil: "\<not> answers cmd dl d s [] resp"
  by (simp add: answers_def)

lemma answers_Cons:
  "answers cmd dl d s (x # reads) resp \<longleftrightarrow> fst x < dl \<and> d < MAX_DEBUG_LINES \<and> s < MAX_STALE_FRAMES \<and>
     ((\<exists>line. snd x = Inr line \<and> decode_line line = Inr (DecResponse resp) \<and> matches_reply cmd resp) \<or>
      is_debug x \<and> answers cmd dl (Suc d) s reads resp \<or>
      is_stale cmd x \<and> answers cmd dl d (Suc s) reads resp)"
  (is "?L \<longleftrightarrow> ?R")
proof
  assume ?L
  then obtain pre t line post where a: "x # reads = pre @ (t, Inr line) # post"
    "decode_line line = Inr (DecResponse resp)" "matches_reply cmd resp"
    "list_all (\<lambda>(t, r). t < dl) (pre @ [(t, Inr line)])" "list_all (\<lambda>x. is_debug x \<or> is_stale cmd x) pre"
    "d + length (filter is_debug pre) < MAX_DEBUG_LINES" "s + length (filter (is_stale cmd) pre) < MAX_STALE_FRAMES"
    unfolding answers_def by blast
  show ?R
  proof (cases pre)
    case Nil
    then show ?thesis using a by simp
  next
    case (Cons y pre')
    have c: "fst x < dl \<and> d < MAX_DEBUG_LINES \<and> s < MAX_STALE_FRAMES" using a Cons by auto
    from a(5) Cons a(1) consider "is_debug x" | "is_stale cmd x" by auto
    then show ?thesis
    proof cases
      case 1
      then have "answers cmd dl (Suc d) s reads resp"
        unfolding answers_def using a Cons debug_not_stale [OF 1, of cmd]
        by (intro exI [of _ pre'] exI [of _ t] exI [of _ line] exI [of _ post]) simp
      with 1 c show ?thesis by blast
    next
      case 2
      then have "\<not> is_debug x" using debug_not_stale [of x cmd] by blast
      with 2 have "answers cmd dl d (Suc s) reads resp"
        unfolding answers_def using a Cons
        by (intro exI [of _ pre'] exI [of _ t] exI [of _ line] exI [of _ post]) simp
      with 2 c show ?thesis by blast
    qed
  qed
next
  assume R: ?R
  then consider
    (here) line where "snd x = Inr line" "decode_line line = Inr (DecResponse resp)" "matches_reply cmd resp"
    | (dbg) "is_debug x" "answers cmd dl (Suc d) s reads resp"
    | (stl) "is_stale cmd x" "answers cmd dl d (Suc s) reads resp" by blast
  then show ?L
  proof cases
    case here
    then show ?thesis unfolding answers_def using R
      by (intro exI [of _ "[]"] exI [of _ "fst x"] exI [of _ line] exI [of _ reads]) (auto simp: prod_eq_iff)
  next
    case dbg
    then obtain pre t line post where a: "reads = pre @ (t, Inr line) # post"
      "decode_line line = Inr (DecResponse resp)" "matches_reply cmd resp"
      "list_all (\<lambda>(t, r). t < dl) (pre @ [(t, Inr line)])" "list_all (\<lambda>x. is_debug x \<or> is_stale cmd x) pre"
      "Suc d + length (filter is_debug pre) < MAX_DEBUG_LINES" "s + length (filter (is_stale cmd) pre) < MAX_STALE_FRAMES"
      unfolding answers_def by blast
    then show ?thesis unfolding answers_def using R dbg(1) debug_not_stale [of x cmd]
      by (intro exI [of _ "x # pre"] exI [of _ t] exI [of _ line] exI [of _ post]) (auto split: prod.splits)
  next
    case stl
    then obtain pre t line post where a: "reads = pre @ (t, Inr line) # post"
      "decode_line line = Inr (DecResponse resp)" "matches_reply cmd resp"
      "list_all (\<lambda>(t, r). t < dl) (pre @ [(t, Inr line)])" "list_all (\<lambda>x. is_debug x \<or> is_stale cmd x) pre"
      "d + length (filter is_debug pre) < MAX_DEBUG_LINES" "Suc s + length (filter (is_stale cmd) pre) < MAX_STALE_FRAMES"
      unfolding answers_def by blast
    then show ?thesis unfolding answers_def using R stl(1) debug_not_stale [of x cmd]
      by (intro exI [of _ "x # pre"] exI [of _ t] exI [of _ line] exI [of _ post]) (auto split: prod.splits)
  qed
qed

lemma send_loop_answers: "send_loop cmd dl d s reads = Some (Inr resp) \<longleftrightarrow> answers cmd dl d s reads resp"
proof (induction cmd dl d s reads rule: send_loop.induct)
  case (2 cmd dl d s now r reads)
  show ?case
  proof (cases "dl \<le> now \<or> MAX_DEBUG_LINES \<le> d \<or> MAX_STALE_FRAMES \<le> s")
    case True
    then show ?thesis by (auto simp: answers_Cons)
  next
    case False
    note ih = 2(1,2)
    show ?thesis
    proof (cases r)
      case (Inl e)
      then show ?thesis using False by (simp add: answers_Cons)
    next
      case (Inr line)
      show ?thesis
      proof (cases "decode_line line")
        case (Inl e)
        then show ?thesis using False Inr by (simp add: answers_Cons)
      next
        case d: (Inr dl')
        show ?thesis
          using False Inr d ih by (cases dl') (auto simp: answers_Cons)
      qed
    qed
  qed
qed (simp add: answers_Nil)

lemma send_loop_ends:
  "Suc (MAX_DEBUG_LINES - d + (MAX_STALE_FRAMES - s)) \<le> length reads \<Longrightarrow> send_loop cmd dl d s reads \<noteq> None"
proof (induction cmd dl d s reads rule: send_loop.induct)
  case (2 cmd dl d s now r reads)
  show ?case
    using 2 by (auto split: sum.split DecodedLine.split)
qed simp

text \<open>C30: an acknowledgement is an answer. An exchange succeeds with a response exactly when the frame was
  written and, before the deadline, the device sent a well-formed frame that answers this very command
  (its opcode and, for a per-channel command, its channel), preceded only by fewer than
  \<open>MAX_DEBUG_LINES\<close> debug lines and fewer than \<open>MAX_STALE_FRAMES\<close> frames that answer something else: it
  never returns another command's reply, and a link that is a few frames behind resynchronises.\<close>

theorem reply_is_correlated:
  "send_command written cmd start timeout reads = Some (Inr resp) \<longleftrightarrow>
     written = Inr () \<and>
     (\<exists>pre t line post. reads = pre @ (t, Inr line) # post \<and>
        decode_line line = Inr (DecResponse resp) \<and> matches_reply cmd resp \<and>
        list_all (\<lambda>(t, r). t < start + timeout) (pre @ [(t, Inr line)]) \<and>
        list_all (\<lambda>x. is_debug x \<or> is_stale cmd x) pre \<and>
        length (filter is_debug pre) < MAX_DEBUG_LINES \<and>
        length (filter (is_stale cmd) pre) < MAX_STALE_FRAMES)"
proof -
  have "send_command written cmd start timeout reads = Some (Inr resp) \<longleftrightarrow>
      written = Inr () \<and> answers cmd (start + timeout) 0 0 reads resp"
    by (cases written) (auto simp: send_command_def send_loop_answers)
  then show ?thesis unfolding answers_def by simp
qed

text \<open>C32: an exchange always ends. Whatever the device sends and however slowly, it is decided after at
  most \<open>MAX_DEBUG_LINES + MAX_STALE_FRAMES + 1\<close> reads.\<close>

theorem exchange_ends:
  assumes "MAX_DEBUG_LINES + MAX_STALE_FRAMES + 1 \<le> length reads"
  shows "\<exists>result. send_command written cmd start timeout reads = Some result"
  using send_loop_ends [of 0 0 reads cmd "start + timeout"] assms
  by (cases written) (auto simp: send_command_def)

theorem exchange_ends_witness:
  "\<exists>result. send_command (Inr ()) ReadAllRpm 0 5 (replicate 67 (0, Inr ''booting'')) = Some result"
  by (rule exchange_ends) (simp add: MAX_DEBUG_LINES_def MAX_STALE_FRAMES_def)

text \<open>Lemma: commands are distinguishable on the wire. Two valid commands with the same encoding are the same
  command.\<close>

theorem encode_inject:
  assumes "command_ok a" "command_ok b" "encode a = encode b"
  shows "a = b"
proof -
  have lt: "channel_index c < NUM_CHANNELS \<Longrightarrow> channel_index c < 256" for c by (simp add: NUM_CHANNELS_def)
  have ch: "channel_index c = channel_index c' \<longleftrightarrow> c = c'" for c c' by (cases c; cases c') simp
  have "length (encode c) = 4 + 2 * opcode c" for c by (cases c) (simp_all add: hex2_def)
  then have "opcode a = opcode b" using assms(3) by (metis add_left_cancel mult_left_cancel zero_neq_numeral)
  then show ?thesis
    using assms lt by (cases a; cases b) (auto simp: hex2_append_eq hex2_eq ch)
qed

theorem encode_inject_witness:
  "SetPwm (Channel 3) 128 = SetPwm (Channel 3) 128 \<and> encode (SetPwm (Channel 3) 128) = ''>020380'' @ [CHR 10]"
proof
  show "SetPwm (Channel 3) 128 = SetPwm (Channel 3) 128"
    by (rule encode_inject) (simp_all add: NUM_CHANNELS_def)
  show "encode (SetPwm (Channel 3) 128) = ''>020380'' @ [CHR 10]" by code_simp
qed

end
