(* ===== verification/Pwm_Duty.thy ===== *)
theory Pwm_Duty
  imports Ofc_Prelude
begin

text \<open>
  Duties (\<open>pwm.rs\<close>): percentages, the 8-bit duty register, the duty a fan is left at on exit and the
  reading that drivers give for a fan at full speed.
\<close>

definition percent_to_raw :: "u8 \<Rightarrow> u8" where
  "percent_to_raw percent = ((percent * 255 + 50) div 100) mod 256"

definition raw_to_percent :: "u8 \<Rightarrow> u8" where
  "raw_to_percent raw = ((raw * 100 + 127) div 255) mod 256"

definition exit_duty :: "u8 option \<Rightarrow> u8 \<Rightarrow> u8" where
  "exit_duty last_pct floor_pct = (case last_pct of Some d \<Rightarrow> min (max d floor_pct) 100 | None \<Rightarrow> 100)"

definition is_full_speed_alias :: "u8 \<Rightarrow> u8 option \<Rightarrow> u8 option \<Rightarrow> bool" where
  "is_full_speed_alias requested_pct readback_pct pwm_enable =
     (pwm_enable = Some 0 \<and> requested_pct = 100 \<and> readback_pct = Some 100)"

lemma percent_to_raw_bound: "p \<le> 100 \<Longrightarrow> percent_to_raw p \<le> 255"
  by (simp add: percent_to_raw_def)

lemma exit_duty_bounds: "f \<le> 100 \<Longrightarrow> exit_duty d f \<le> 100 \<and> f \<le> exit_duty d f"
  by (auto simp: exit_duty_def split: option.split)

text \<open>Lemma: the duty scales agree. Every percentage survives the trip to the 8-bit duty register and back,
  and the register value fits a byte.\<close>

theorem percent_roundtrip:
  assumes "p \<le> 100"
  shows "raw_to_percent (percent_to_raw p) = p \<and> percent_to_raw p \<le> 255"
proof -
  define x where "x = (p * 255 + 50) div 100"
  have x: "100 * x \<le> 255 * p + 50" "255 * p + 50 < 100 * x + 100"
    unfolding x_def by (simp_all add: dividend_less_times_div algebra_simps)
  then have le: "x \<le> 255" using assms by linarith
  have "255 * p \<le> x * 100 + 127" "x * 100 + 127 < 255 * Suc p" using x by simp_all
  then have "(x * 100 + 127) div 255 = p" by (rule div_nat_eqI)
  moreover have "percent_to_raw p = x" using le by (simp add: percent_to_raw_def x_def)
  ultimately show ?thesis using assms le by (simp add: raw_to_percent_def)
qed

theorem percent_roundtrip_witness: "raw_to_percent (percent_to_raw 37) = 37 \<and> percent_to_raw 37 \<le> 255"
  by (rule percent_roundtrip) simp

end
