(* ===== verification/Fan_Controller.thy ===== *)
theory Fan_Controller
  imports Serial_Protocol Pwm_Duty
begin

text \<open>
  The OpenFan write path (\<open>serial/controller.rs\<close> and the write generation of
  \<open>health/cache.rs\<close>). The transport with the device behind it is a state of any type that an exchange
  function advances; the invalidations that another task makes while an exchange is on the wire are
  counted by the caller.
\<close>

section \<open>The cache's part\<close>

record OpenfanCache =
  oc_generation :: u64
  oc_commanded :: "(u8, u8 option) hmap"

definition cache_new :: OpenfanCache where
  "cache_new = \<lparr>oc_generation = 0, oc_commanded = []\<rparr>"

definition invalidate_openfan_writes :: "OpenfanCache \<Rightarrow> OpenfanCache" where
  "invalidate_openfan_writes c =
     \<lparr>oc_generation = u64_inc (oc_generation c), oc_commanded = map (\<lambda>(ch, _). (ch, None)) (oc_commanded c)\<rparr>"

definition set_openfan_commanded_pwm :: "u8 \<Rightarrow> u8 \<Rightarrow> u64 \<Rightarrow> OpenfanCache \<Rightarrow> bool \<times> OpenfanCache" where
  "set_openfan_commanded_pwm channel pwm generation c =
     (if oc_generation c \<noteq> generation then (False, c)
      else (True, c\<lparr>oc_commanded := hm_insert channel (Some pwm) (oc_commanded c)\<rparr>))"

definition clear_openfan_commanded_pwm :: "u8 \<Rightarrow> OpenfanCache \<Rightarrow> OpenfanCache" where
  "clear_openfan_commanded_pwm channel c =
     (if hm_contains (oc_commanded c) channel
      then c\<lparr>oc_commanded := hm_insert channel None (oc_commanded c)\<rparr> else c)"

section \<open>The controller\<close>

definition STOP_TIMEOUT :: duration where
  "STOP_TIMEOUT = secs 8"

record ChannelControl =
  last_commanded :: "u8 option"
  stop_started_at :: "instant option"
  cc_written :: bool
  duty_before :: "u8 option"
  exit_min :: "u8 option"

definition channel_default :: ChannelControl where
  "channel_default = \<lparr>last_commanded = None, stop_started_at = None, cc_written = False, duty_before = None,
     exit_min = None\<rparr>"

record FanController =
  fc_channels :: "ChannelControl list"
  fc_generation :: u64

definition controller_new :: FanController where
  "controller_new = \<lparr>fc_channels = replicate NUM_CHANNELS channel_default, fc_generation = 0\<rparr>"

record SetPwmResult =
  sp_channel :: u8
  sp_percent :: u8
  sp_coalesced :: bool

datatype FanControlError = ValidationError string | FanSerial SerialError

definition get_channel :: "FanController \<Rightarrow> u8 \<Rightarrow> ChannelControl option" where
  "get_channel fc ch = (if ch < length (fc_channels fc) then Some (fc_channels fc ! ch) else None)"

definition last_commanded_pct :: "OpenfanCache \<Rightarrow> FanController \<Rightarrow> u8 \<Rightarrow> u8 option" where
  "last_commanded_pct cache fc channel =
     (if oc_generation cache \<noteq> fc_generation fc then None
      else case get_channel fc channel of Some c \<Rightarrow> last_commanded c | None \<Rightarrow> None)"

definition opt_or :: "'a option \<Rightarrow> 'a option \<Rightarrow> 'a option" where
  "opt_or a b = (case a of Some x \<Rightarrow> Some x | None \<Rightarrow> b)"

definition duty_before_loss :: "OpenfanCache \<Rightarrow> FanController \<Rightarrow> u8 \<Rightarrow> u8 option" where
  "duty_before_loss cache fc channel =
     (case get_channel fc channel of
        None \<Rightarrow> None
      | Some c \<Rightarrow> if oc_generation cache \<noteq> fc_generation fc then opt_or (last_commanded c) (duty_before c)
                  else duty_before c)"

definition last_known_duty :: "OpenfanCache \<Rightarrow> FanController \<Rightarrow> u8 \<Rightarrow> u8 option" where
  "last_known_duty cache fc channel =
     opt_or (last_commanded_pct cache fc channel) (duty_before_loss cache fc channel)"

definition observe_write_generation :: "OpenfanCache \<Rightarrow> FanController \<Rightarrow> FanController" where
  "observe_write_generation cache fc =
     (if oc_generation cache \<noteq> fc_generation fc then
        fc\<lparr>fc_generation := oc_generation cache,
           fc_channels := map (\<lambda>c. c\<lparr>duty_before := opt_or (last_commanded c) (duty_before c),
             last_commanded := None, stop_started_at := None\<rparr>) (fc_channels fc)\<rparr>
      else fc)"

definition apply_safety :: "instant \<Rightarrow> FanController \<Rightarrow> u8 \<Rightarrow> u8 \<Rightarrow> FanControlError + u8" where
  "apply_safety now fc channel pwm_percent =
     (if pwm_percent = 0 then
        (case stop_started_at (fc_channels fc ! channel) of
           Some started \<Rightarrow> if STOP_TIMEOUT \<le> now - started then Inl (ValidationError ''stop timeout'')
             else Inr pwm_percent
         | None \<Rightarrow> Inr pwm_percent)
      else Inr pwm_percent)"

definition update_channel :: "u8 \<Rightarrow> (ChannelControl \<Rightarrow> ChannelControl) \<Rightarrow> FanController \<Rightarrow> FanController" where
  "update_channel ch g fc = fc\<lparr>fc_channels := (fc_channels fc)[ch := g (fc_channels fc ! ch)]\<rparr>"

text \<open>The tracking after a frame whose reply failed, and after one that landed.\<close>

definition track_failed :: "u8 \<Rightarrow> ChannelControl \<Rightarrow> ChannelControl" where
  "track_failed effective_pct c =
     c\<lparr>last_commanded := None, stop_started_at := None,
       duty_before := (if duty_before c \<noteq> Some effective_pct then None else duty_before c)\<rparr>"

definition track_landed :: "instant \<Rightarrow> u8 \<Rightarrow> ChannelControl \<Rightarrow> ChannelControl" where
  "track_landed now effective_pct c =
     c\<lparr>last_commanded := Some effective_pct, duty_before := None,
       stop_started_at := (if effective_pct = 0
         then (case stop_started_at c of None \<Rightarrow> Some now | Some s \<Rightarrow> Some s) else None)\<rparr>"

text \<open>\<open>during\<close> is what other tasks do to the cache while the exchange is on the wire.\<close>

definition set_pwm :: "instant \<Rightarrow> (Command \<Rightarrow> 'dev \<Rightarrow> (SerialError + Response) \<times> 'dev) \<Rightarrow>
    (OpenfanCache \<Rightarrow> OpenfanCache) \<Rightarrow> u8 \<Rightarrow> u8 \<Rightarrow> FanController \<times> OpenfanCache \<times> 'dev \<Rightarrow>
    (FanControlError + SetPwmResult) \<times> FanController \<times> OpenfanCache \<times> 'dev" where
  "set_pwm now exchange during channel pwm_percent0 = (\<lambda>(fc, cache, dev).
     if NUM_CHANNELS \<le> channel then (Inl (ValidationError ''channel''), fc, cache, dev)
     else if 100 < pwm_percent0 then (Inl (ValidationError ''pwm_percent''), fc, cache, dev)
     else
       let fc = observe_write_generation cache fc;
           pwm_percent = (case exit_min (fc_channels fc ! channel) of
               Some mn \<Rightarrow> if pwm_percent0 < mn then mn else pwm_percent0
             | None \<Rightarrow> pwm_percent0)
       in if last_commanded (fc_channels fc ! channel) = Some pwm_percent
          then (Inr \<lparr>sp_channel = channel, sp_percent = pwm_percent, sp_coalesced = True\<rparr>, fc, cache, dev)
          else case apply_safety now fc channel pwm_percent of
            Inl e \<Rightarrow> (Inl e, fc, cache, dev)
          | Inr effective_pct \<Rightarrow>
             (case channel_new channel of
                Inl e \<Rightarrow> (Inl (FanSerial e), fc, cache, dev)
              | Inr ch \<Rightarrow>
                 (let fc = update_channel channel (\<lambda>c. c\<lparr>cc_written := True\<rparr>) fc;
                      (sent, dev) = exchange (SetPwm ch (percent_to_raw effective_pct)) dev;
                      cache = during cache
                  in case sent of
                       Inl e \<Rightarrow>
                         (Inl (FanSerial e), update_channel channel (track_failed effective_pct) fc,
                          clear_openfan_commanded_pwm channel cache, dev)
                     | Inr _ \<Rightarrow>
                         (Inr \<lparr>sp_channel = channel, sp_percent = effective_pct, sp_coalesced = False\<rparr>,
                          update_channel channel (track_landed now effective_pct) fc,
                          snd (set_openfan_commanded_pwm channel effective_pct (fc_generation fc) cache), dev))))"

record ExitFloorWrite =
  ef_channel :: u8
  ef_was :: "u8 option"
  ef_target :: u8
  ef_result :: "FanControlError + SetPwmResult"

definition exit_targets :: "FanController \<Rightarrow> (u8 \<times> u8 option) list" where
  "exit_targets fc =
     map (\<lambda>(ch, c). (ch, opt_or (last_commanded c) (duty_before c)))
       (filter (\<lambda>(ch, c). cc_written c) (List.enumerate 0 (fc_channels fc)))"

definition latch_exit_floor :: "u8 \<Rightarrow> FanController \<Rightarrow> FanController" where
  "latch_exit_floor floor_pct fc =
     fc\<lparr>fc_channels := map (\<lambda>c. c\<lparr>exit_min := Some (if cc_written c
         then exit_duty (opt_or (last_commanded c) (duty_before c)) floor_pct else floor_pct)\<rparr>) (fc_channels fc)\<rparr>"

definition exit_write :: "instant \<Rightarrow> (Command \<Rightarrow> 'dev \<Rightarrow> (SerialError + Response) \<times> 'dev) \<Rightarrow>
    (OpenfanCache \<Rightarrow> OpenfanCache) \<Rightarrow> u8 \<Rightarrow> u8 \<times> u8 option \<Rightarrow>
    ExitFloorWrite list \<times> FanController \<times> OpenfanCache \<times> 'dev \<Rightarrow>
    ExitFloorWrite list \<times> FanController \<times> OpenfanCache \<times> 'dev" where
  "exit_write now exchange during floor_pct = (\<lambda>(channel, was) (writes, st).
     let target = exit_duty was floor_pct;
         (r, st') = set_pwm now exchange during channel target st
     in (writes @ [\<lparr>ef_channel = channel, ef_was = was, ef_target = target, ef_result = r\<rparr>], st'))"

definition apply_exit_floor :: "instant \<Rightarrow> (Command \<Rightarrow> 'dev \<Rightarrow> (SerialError + Response) \<times> 'dev) \<Rightarrow>
    (OpenfanCache \<Rightarrow> OpenfanCache) \<Rightarrow> u8 \<Rightarrow> FanController \<times> OpenfanCache \<times> 'dev \<Rightarrow>
    ExitFloorWrite list \<times> FanController \<times> OpenfanCache \<times> 'dev" where
  "apply_exit_floor now exchange during floor_pct = (\<lambda>(fc, cache, dev).
     if floor_pct = 0 then ([], fc, cache, dev)
     else
       let fc = observe_write_generation cache fc;
           targets = exit_targets fc;
           fc = latch_exit_floor floor_pct fc
       in fold (exit_write now exchange during floor_pct) targets ([], fc, cache, dev))"

section \<open>Histories\<close>

text \<open>Everything that happens to the controller and its device: writes (with the devices that resets
  during the exchange leave behind, the last one standing), resets between writes (a reconnect or a
  resume), and the exit floor of a stop.\<close>

datatype 'dev FanOp = FSet instant u8 u8 "'dev list" | FReset 'dev | FExitFloor instant u8

definition invalidations :: "nat \<Rightarrow> OpenfanCache \<Rightarrow> OpenfanCache" where
  "invalidations n = invalidate_openfan_writes ^^ n"

definition quiet :: "OpenfanCache \<Rightarrow> OpenfanCache" where
  "quiet cache = cache"

definition after_resets :: "'dev list \<Rightarrow> 'dev \<Rightarrow> 'dev" where
  "after_resets resets dev = (if resets = [] then dev else List.last resets)"

fun fan_step :: "(Command \<Rightarrow> 'dev \<Rightarrow> (SerialError + Response) \<times> 'dev) \<Rightarrow> 'dev FanOp \<Rightarrow>
    FanController \<times> OpenfanCache \<times> 'dev \<Rightarrow> FanController \<times> OpenfanCache \<times> 'dev" where
  "fan_step exchange (FSet now ch pct resets) st =
     snd (set_pwm now (\<lambda>cmd dev. let (r, dev') = exchange cmd dev in (r, after_resets resets dev'))
       (invalidations (length resets)) ch pct st)"
| "fan_step exchange (FReset dev') (fc, cache, dev) = (fc, invalidate_openfan_writes cache, dev')"
| "fan_step exchange (FExitFloor now f) st = snd (apply_exit_floor now exchange quiet f st)"

definition fan_run :: "(Command \<Rightarrow> 'dev \<Rightarrow> (SerialError + Response) \<times> 'dev) \<Rightarrow> 'dev FanOp list \<Rightarrow> 'dev \<Rightarrow>
    FanController \<times> OpenfanCache \<times> 'dev" where
  "fan_run exchange ops dev = fold (fan_step exchange) ops (controller_new, cache_new, dev)"

text \<open>What the write path relies on the firmware for: an acknowledged \<open>SetPwm\<close> has been applied, and no
  \<open>SetPwm\<close> moves another channel.\<close>

definition firmware_applies :: "(Command \<Rightarrow> 'dev \<Rightarrow> (SerialError + Response) \<times> 'dev) \<Rightarrow>
    ('dev \<Rightarrow> u8 \<Rightarrow> u8) \<Rightarrow> bool" where
  "firmware_applies exchange duty \<longleftrightarrow>
     (\<forall>ch raw dev r dev'. exchange (SetPwm (Channel ch) raw) dev = (r, dev') \<longrightarrow>
        (\<forall>x. r = Inr x \<longrightarrow> duty dev' ch = raw) \<and> (\<forall>ch'. ch' \<noteq> ch \<longrightarrow> duty dev' ch' = duty dev ch'))"

section \<open>The tracking invariant\<close>

text \<open>A running stop clock means a tracked 0; while the generations agree, a tracked duty is the device's.\<close>

definition chan_weak :: "ChannelControl \<Rightarrow> bool" where
  "chan_weak c = ((stop_started_at c \<noteq> None \<longrightarrow> last_commanded c = Some 0) \<and>
     (case last_commanded c of Some p \<Rightarrow> p \<le> 100 | None \<Rightarrow> True) \<and>
     (case exit_min c of Some m \<Rightarrow> m \<le> 100 | None \<Rightarrow> True))"

definition chan_holds :: "u8 \<Rightarrow> ChannelControl \<Rightarrow> bool" where
  "chan_holds d c = (case last_commanded c of Some p \<Rightarrow> d = percent_to_raw p | None \<Rightarrow> True)"

definition fan_inv :: "('dev \<Rightarrow> u8 \<Rightarrow> u8) \<Rightarrow> FanController \<times> OpenfanCache \<times> 'dev \<Rightarrow> bool" where
  "fan_inv duty = (\<lambda>(fc, cache, dev).
     length (fc_channels fc) = NUM_CHANNELS \<and> list_all chan_weak (fc_channels fc) \<and>
     fc_generation fc \<le> oc_generation cache \<and>
     (fc_generation fc = oc_generation cache \<longrightarrow>
       (\<forall>ch < NUM_CHANNELS. chan_holds (duty dev ch) (fc_channels fc ! ch))))"

lemma fan_inv_new: "fan_inv duty (controller_new, cache_new, dev)"
  by (simp add: fan_inv_def controller_new_def cache_new_def channel_default_def chan_weak_def chan_holds_def
      list_all_iff)

lemma observe_synced:
  assumes "fan_inv duty (fc, cache, dev)"
  defines "fc' \<equiv> observe_write_generation cache fc"
  shows "fan_inv duty (fc', cache, dev)" "fc_generation fc' = oc_generation cache"
    "map exit_min (fc_channels fc') = map exit_min (fc_channels fc)"
  using assms
  by (auto simp: fan_inv_def observe_write_generation_def chan_weak_def chan_holds_def list_all_iff comp_def)

lemma generation_after:
  "oc_generation c + n < 2 ^ 64 \<Longrightarrow> oc_generation (invalidations n c) = oc_generation c + n"
proof (induction n)
  case (Suc n)
  then show ?case by (simp add: invalidations_def invalidate_openfan_writes_def u64_inc_def)
qed (simp add: invalidations_def)

lemma cache_generation [simp]:
  "oc_generation (clear_openfan_commanded_pwm ch c) = oc_generation c"
  "oc_generation (snd (set_openfan_commanded_pwm ch p g c)) = oc_generation c"
  by (simp_all add: clear_openfan_commanded_pwm_def set_openfan_commanded_pwm_def)

text \<open>One channel's update keeps the invariant when it keeps the channel.\<close>

lemma update_channel_inv:
  assumes "length (fc_channels fc) = NUM_CHANNELS" "list_all chan_weak (fc_channels fc)" "ch < NUM_CHANNELS"
    and "chan_weak (g (fc_channels fc ! ch))" "fc_generation fc \<le> oc_generation cache"
    and "fc_generation fc = oc_generation cache \<Longrightarrow> chan_holds (duty dev ch) (g (fc_channels fc ! ch))"
    and "\<And>ch'. fc_generation fc = oc_generation cache \<Longrightarrow> ch' < NUM_CHANNELS \<Longrightarrow> ch' \<noteq> ch \<Longrightarrow>
      chan_holds (duty dev ch') (fc_channels fc ! ch')"
  shows "fan_inv duty (update_channel ch g fc, cache, dev)"
proof -
  have len: "ch < length (fc_channels fc)" using assms(1,3) by simp
  have weak: "list_all chan_weak ((fc_channels fc)[ch := g (fc_channels fc ! ch)])"
    using assms(2,4) len by (auto simp: list_all_length nth_list_update)
  have holds: "chan_holds (duty dev c) ((fc_channels fc)[ch := g (fc_channels fc ! ch)] ! c)"
    if "fc_generation fc = oc_generation cache" "c < NUM_CHANNELS" for c
    using assms(6,7) that len by (cases "c = ch") simp_all
  show ?thesis using assms(1,5) weak holds by (simp add: fan_inv_def update_channel_def)
qed

text \<open>The duty a valid request asks for, after the exit floor's latch.\<close>

definition raised_pct :: "FanController \<Rightarrow> u8 \<Rightarrow> u8 \<Rightarrow> u8" where
  "raised_pct fc ch pct =
     (case exit_min (fc_channels fc ! ch) of Some mn \<Rightarrow> if pct < mn then mn else pct | None \<Rightarrow> pct)"

definition mark_written :: "ChannelControl \<Rightarrow> ChannelControl" where
  "mark_written c = c\<lparr>cc_written := True\<rparr>"

lemma inv_channel:
  assumes "fan_inv duty (fc, cache, dev)" "ch < NUM_CHANNELS"
  shows "chan_weak (fc_channels fc ! ch)" "ch < length (fc_channels fc)"
  using assms by (auto simp: fan_inv_def list_all_length)

lemma raised_pct_bounds:
  assumes "fan_inv duty (fc, cache, dev)" "ch < NUM_CHANNELS" "pct \<le> 100"
  shows "raised_pct fc ch pct \<le> 100" "pct \<le> raised_pct fc ch pct"
    "exit_min (fc_channels fc ! ch) = Some m \<Longrightarrow> m \<le> raised_pct fc ch pct"
  using inv_channel(1) [OF assms(1,2)] assms(3) by (auto simp: raised_pct_def chan_weak_def split: option.splits)

text \<open>A valid request is coalesced or goes out as one frame: the stop timeout never refuses it.\<close>

lemma set_pwm_valid:
  assumes "fan_inv duty (fc0, cache, dev)" "ch < NUM_CHANNELS" "pct0 \<le> 100"
  defines "fc \<equiv> observe_write_generation cache fc0"
  defines "pct \<equiv> raised_pct fc ch pct0"
  shows "set_pwm now ex during ch pct0 (fc0, cache, dev) =
    (if last_commanded (fc_channels fc ! ch) = Some pct
     then (Inr \<lparr>sp_channel = ch, sp_percent = pct, sp_coalesced = True\<rparr>, fc, cache, dev)
     else case ex (SetPwm (Channel ch) (percent_to_raw pct)) dev of
       (Inl e, dev') \<Rightarrow> (Inl (FanSerial e), update_channel ch (\<lambda>c. track_failed pct (mark_written c)) fc,
          clear_openfan_commanded_pwm ch (during cache), dev')
     | (Inr _, dev') \<Rightarrow> (Inr \<lparr>sp_channel = ch, sp_percent = pct, sp_coalesced = False\<rparr>,
          update_channel ch (\<lambda>c. track_landed now pct (mark_written c)) fc,
          snd (set_openfan_commanded_pwm ch pct (fc_generation fc) (during cache)), dev'))"
proof -
  have inv: "fan_inv duty (fc, cache, dev)" unfolding fc_def by (rule observe_synced(1) [OF assms(1)])
  note ch = inv_channel [OF inv assms(2)]
  have p: "(case exit_min (fc_channels fc ! ch) of Some mn \<Rightarrow> if pct0 < mn then mn else pct0 | None \<Rightarrow> pct0) = pct"
    by (simp add: pct_def raised_pct_def)
  have safe: "last_commanded (fc_channels fc ! ch) \<noteq> Some pct \<Longrightarrow> apply_safety now fc ch pct = Inr pct"
    using ch(1) by (auto simp: apply_safety_def chan_weak_def split: option.splits)
  have upd: "update_channel ch g (update_channel ch h fc) = update_channel ch (\<lambda>c. g (h c)) fc" for g h
    using ch(2) by (simp add: update_channel_def)
  have gen: "fc_generation (update_channel ch g fc) = fc_generation fc" for g by (simp add: update_channel_def)
  have new: "channel_new ch = Inr (Channel ch)" using assms(2) by (simp add: channel_new_def)
  show ?thesis
    using assms(2,3) safe
    unfolding set_pwm_def prod.case fc_def [symmetric] Let_def p
    by (simp add: new upd gen mark_written_def [abs_def] split: prod.split sum.split)
qed

lemma set_pwm_invalid:
  "\<not> (ch < NUM_CHANNELS \<and> pct0 \<le> 100) \<Longrightarrow>
     \<exists>e. set_pwm now ex during ch pct0 st = (Inl (ValidationError e), st)"
  by (cases st) (auto simp: set_pwm_def not_less not_le)

text \<open>What a write keeps and promises; \<open>resets\<close> are the devices that came back during the exchange.\<close>

definition wire :: "(Command \<Rightarrow> 'dev \<Rightarrow> (SerialError + Response) \<times> 'dev) \<Rightarrow> 'dev list \<Rightarrow>
    Command \<Rightarrow> 'dev \<Rightarrow> (SerialError + Response) \<times> 'dev" where
  "wire exchange resets cmd dev = (let (r, dev') = exchange cmd dev in (r, after_resets resets dev'))"

lemma track_weak:
  "chan_weak c \<Longrightarrow> chan_weak (track_failed p (mark_written c))"
  "chan_weak c \<Longrightarrow> p \<le> 100 \<Longrightarrow> chan_weak (track_landed now p (mark_written c))"
  by (auto simp: chan_weak_def track_failed_def track_landed_def mark_written_def split: option.splits)

lemma track_fields:
  "last_commanded (track_failed p c) = None" "last_commanded (track_landed now p c) = Some p"
  "exit_min (track_failed p c) = exit_min c" "exit_min (track_landed now p c) = exit_min c"
  "exit_min (mark_written c) = exit_min c"
  by (simp_all add: track_failed_def track_landed_def mark_written_def)

lemma update_channel_exit:
  assumes "\<And>c. exit_min (g c) = exit_min c"
  shows "map exit_min (fc_channels (update_channel ch g fc)) = map exit_min (fc_channels fc)"
proof (rule nth_equalityI)
  show "map exit_min (fc_channels (update_channel ch g fc)) ! i = map exit_min (fc_channels fc) ! i"
    if "i < length (map exit_min (fc_channels (update_channel ch g fc)))" for i
    using that assms by (cases "i = ch") (simp_all add: update_channel_def)
qed (simp add: update_channel_def)

text \<open>What a frame does to the invariant, whether it is answered or not.\<close>

lemma sent_inv:
  assumes "firmware_applies exchange duty" "fan_inv duty (fc, cache, dev)" "fc_generation fc = oc_generation cache"
    and "ch < NUM_CHANNELS" "exchange (SetPwm (Channel ch) raw) dev = (sent, dev1)"
    and "oc_generation cache + length resets < 2 ^ 64"
    and "chan_weak (g (fc_channels fc ! ch))"
    and "\<And>p. last_commanded (g (fc_channels fc ! ch)) = Some p \<Longrightarrow> \<exists>x. sent = Inr x \<and> raw = percent_to_raw p"
    and "oc_generation cache' = oc_generation (invalidations (length resets) cache)"
  shows "fan_inv duty (update_channel ch g fc, cache', after_resets resets dev1)"
proof -
  have gen: "oc_generation cache' = oc_generation cache + length resets"
    using assms(6,9) generation_after by simp
  have dev: "resets = []" if "fc_generation fc = oc_generation cache'" using that gen assms(3) by simp
  have fw: "\<And>x. sent = Inr x \<Longrightarrow> duty dev1 ch = raw" "\<And>c. c \<noteq> ch \<Longrightarrow> duty dev1 c = duty dev c"
    using assms(1,5) unfolding firmware_applies_def by blast+
  have old: "length (fc_channels fc) = NUM_CHANNELS" "list_all chan_weak (fc_channels fc)"
    "\<And>c. c < NUM_CHANNELS \<Longrightarrow> chan_holds (duty dev c) (fc_channels fc ! c)"
    using assms(2,3) by (simp_all add: fan_inv_def)
  show ?thesis
  proof (rule update_channel_inv)
    show "length (fc_channels fc) = NUM_CHANNELS" "list_all chan_weak (fc_channels fc)" by (rule old)+
    show "ch < NUM_CHANNELS" "chan_weak (g (fc_channels fc ! ch))" by (rule assms)+
    show "fc_generation fc \<le> oc_generation cache'" using gen assms(3) by simp
    show "chan_holds (duty (after_resets resets dev1) ch) (g (fc_channels fc ! ch))"
      if "fc_generation fc = oc_generation cache'"
      using dev [OF that] assms(8) fw(1) by (auto simp: chan_holds_def after_resets_def split: option.split)
    show "chan_holds (duty (after_resets resets dev1) c) (fc_channels fc ! c)"
      if "fc_generation fc = oc_generation cache'" "c < NUM_CHANNELS" "c \<noteq> ch" for c
      using dev [OF that(1)] old(3) [OF that(2)] fw(2) [OF that(3)] by (simp add: after_resets_def)
  qed
qed

lemma set_pwm_effect:
  assumes "firmware_applies exchange duty" "fan_inv duty (fc, cache, dev)"
    and "oc_generation cache + length resets < 2 ^ 64"
    and "set_pwm now (wire exchange resets) (invalidations (length resets)) ch pct (fc, cache, dev) = (r, fc', cache', dev')"
  shows "fan_inv duty (fc', cache', dev') \<and>
    oc_generation cache \<le> oc_generation cache' \<and> oc_generation cache' \<le> oc_generation cache + length resets \<and>
    map exit_min (fc_channels fc') = map exit_min (fc_channels fc) \<and>
    (\<forall>res. r = Inr res \<longrightarrow> resets = [] \<or> sp_coalesced res \<longrightarrow> duty dev' ch = percent_to_raw (sp_percent res))"
proof (cases "ch < NUM_CHANNELS \<and> pct \<le> 100")
  case False
  then obtain e where "(r, fc', cache', dev') = (Inl (ValidationError e), fc, cache, dev)"
    using set_pwm_invalid assms(4) by metis
  then show ?thesis using assms(2) by simp
next
  case True
  define fc1 where "fc1 = observe_write_generation cache fc"
  define p where "p = raised_pct fc1 ch pct"
  note o = observe_synced [OF assms(2), folded fc1_def]
  note ch = inv_channel [OF o(1) conjunct1 [OF True]]
  have p: "p \<le> 100" unfolding p_def by (rule raised_pct_bounds(1) [OF o(1)]) (use True in auto)
  note v = set_pwm_valid [OF assms(2), of ch pct now "wire exchange resets" "invalidations (length resets)",
      folded fc1_def, folded p_def]
  show ?thesis
  proof (cases "last_commanded (fc_channels fc1 ! ch) = Some p")
    case co: True
    have "duty dev ch = percent_to_raw p"
      using o(1,2) True co by (auto simp: fan_inv_def chan_holds_def)
    then show ?thesis using v True co assms(4) o by auto
  next
    case send: False
    obtain sent dev1 where x: "exchange (SetPwm (Channel ch) (percent_to_raw p)) dev = (sent, dev1)"
      by (rule prod.exhaust)
    then have w: "wire exchange resets (SetPwm (Channel ch) (percent_to_raw p)) dev = (sent, after_resets resets dev1)"
      by (simp add: wire_def)
    note inv = sent_inv [OF assms(1) o(1,2) conjunct1 [OF True] x assms(3)]
    have g: "oc_generation (invalidations (length resets) cache) = oc_generation cache + length resets"
      by (rule generation_after [OF assms(3)])
    show ?thesis
    proof (cases sent)
      case (Inl e)
      have "fan_inv duty (update_channel ch (\<lambda>c. track_failed p (mark_written c)) fc1,
          clear_openfan_commanded_pwm ch (invalidations (length resets) cache), after_resets resets dev1)"
        by (rule inv) (simp_all add: track_fields track_weak ch)
      then show ?thesis using v True send w Inl assms(4) o(3) g
        by (auto simp: update_channel_exit track_fields)
    next
      case (Inr x')
      have "fan_inv duty (update_channel ch (\<lambda>c. track_landed now p (mark_written c)) fc1,
          snd (set_openfan_commanded_pwm ch p (fc_generation fc1) (invalidations (length resets) cache)),
          after_resets resets dev1)"
        by (rule inv) (use Inr p in \<open>simp_all add: track_fields track_weak ch\<close>)
      moreover have "duty dev1 ch = percent_to_raw p" using assms(1) x Inr unfolding firmware_applies_def by blast
      ultimately show ?thesis using v True send w Inr assms(4) o(3) g
        by (auto simp: update_channel_exit track_fields after_resets_def)
    qed
  qed
qed

fun op_resets :: "'dev FanOp \<Rightarrow> nat" where
  "op_resets (FSet _ _ _ resets) = length resets"
| "op_resets (FReset _) = 1"
| "op_resets (FExitFloor _ _) = 0"

fun fan_op_ok :: "'dev FanOp \<Rightarrow> bool" where
  "fan_op_ok (FExitFloor _ f) = (f \<le> 100)"
| "fan_op_ok _ = True"

lemma wire_Nil: "wire exchange [] = exchange" "invalidations (length []) = quiet"
  by (auto simp: wire_def after_resets_def invalidations_def quiet_def fun_eq_iff split: prod.split)

lemma set_pwm_effect_plain:
  assumes "firmware_applies exchange duty" "fan_inv duty (fc, cache, dev)" "oc_generation cache < 2 ^ 64"
    and "set_pwm now exchange quiet ch pct (fc, cache, dev) = (r, fc', cache', dev')"
  shows "fan_inv duty (fc', cache', dev') \<and> oc_generation cache' = oc_generation cache \<and>
    map exit_min (fc_channels fc') = map exit_min (fc_channels fc) \<and>
    (\<forall>res. r = Inr res \<longrightarrow> duty dev' ch = percent_to_raw (sp_percent res))"
proof -
  have "oc_generation cache + length ([] :: 'a list) < 2 ^ 64" using assms(3) by simp
  moreover have "set_pwm now (wire exchange []) (invalidations (length ([] :: 'a list))) ch pct (fc, cache, dev) =
      (r, fc', cache', dev')" unfolding wire_Nil by (rule assms(4))
  ultimately show ?thesis using set_pwm_effect [OF assms(1,2)] by fastforce
qed

lemma latch_inv:
  assumes "fan_inv duty (fc, cache, dev)" "f \<le> 100"
  shows "fan_inv duty (latch_exit_floor f fc, cache, dev)"
    and "list_all (\<lambda>m. \<exists>x. m = Some x \<and> f \<le> x) (map exit_min (fc_channels (latch_exit_floor f fc)))"
  using assms exit_duty_bounds [OF assms(2)]
  by (auto simp: fan_inv_def latch_exit_floor_def chan_weak_def chan_holds_def list_all_iff)

lemma exit_writes_inv:
  assumes "firmware_applies exchange duty" "oc_generation cache < 2 ^ 64" "fan_inv duty (fc, cache, dev)"
  shows "case snd (fold (exit_write now exchange quiet f) targets (ws, fc, cache, dev)) of (fc', cache', dev') \<Rightarrow>
      fan_inv duty (fc', cache', dev') \<and> oc_generation cache' = oc_generation cache \<and>
      map exit_min (fc_channels fc') = map exit_min (fc_channels fc)"
  using assms(2,3)
proof (induction targets arbitrary: ws fc cache dev)
  case (Cons x xs)
  obtain ch was where x: "x = (ch, was)" by (rule prod.exhaust)
  obtain r fc1 cache1 dev1 where s: "set_pwm now exchange quiet ch (exit_duty was f) (fc, cache, dev) = (r, fc1, cache1, dev1)"
    by (metis prod_cases4)
  note e = set_pwm_effect_plain [OF assms(1) Cons.prems(2,1) s]
  have "oc_generation cache1 < 2 ^ 64" using e Cons.prems(1) by simp
  note ih = Cons.IH [OF this conjunct1 [OF e]]
  obtain ws1 where "exit_write now exchange quiet f x (ws, fc, cache, dev) = (ws1, fc1, cache1, dev1)"
    using x s by (simp add: exit_write_def)
  then have step: "fold (exit_write now exchange quiet f) (x # xs) (ws, fc, cache, dev) =
      fold (exit_write now exchange quiet f) xs (ws1, fc1, cache1, dev1)" by (simp only: fold_simps)
  show ?case unfolding step using ih [of ws1] e by (auto split: prod.splits)
qed simp

lemma exit_floor_effect:
  assumes "firmware_applies exchange duty" "fan_inv duty (fc, cache, dev)" "oc_generation cache < 2 ^ 64" "f \<le> 100"
    and "snd (apply_exit_floor now exchange quiet f (fc, cache, dev)) = (fc', cache', dev')"
  shows "fan_inv duty (fc', cache', dev')" "oc_generation cache' = oc_generation cache"
    and "0 < f \<Longrightarrow> list_all (\<lambda>m. \<exists>x. m = Some x \<and> f \<le> x) (map exit_min (fc_channels fc'))"
proof -
  let ?fc = "observe_write_generation cache fc"
  note l = latch_inv [OF observe_synced(1) [OF assms(2)] assms(4)]
  note w = exit_writes_inv [OF assms(1,3) l(1), where f = f and now = now and targets = "exit_targets ?fc" and ws = "[]"]
  show "fan_inv duty (fc', cache', dev')" "oc_generation cache' = oc_generation cache"
    "0 < f \<Longrightarrow> list_all (\<lambda>m. \<exists>x. m = Some x \<and> f \<le> x) (map exit_min (fc_channels fc'))"
    using assms(2,5) w l(2) by (auto simp: apply_exit_floor_def Let_def split: if_splits prod.splits)
qed

lemma fan_step_inv:
  assumes "firmware_applies exchange duty" "fan_inv duty st" "oc_generation (fst (snd st)) + op_resets op < 2 ^ 64"
    and "fan_op_ok op"
  shows "fan_inv duty (fan_step exchange op st) \<and>
    oc_generation (fst (snd (fan_step exchange op st))) \<le> oc_generation (fst (snd st)) + op_resets op"
proof -
  obtain fc cache dev where st: "st = (fc, cache, dev)" by (rule prod_cases3)
  show ?thesis
  proof (cases op)
    case (FSet now ch pct resets)
    obtain r fc' cache' dev' where s: "set_pwm now (wire exchange resets) (invalidations (length resets)) ch pct
        (fc, cache, dev) = (r, fc', cache', dev')" by (metis prod_cases4)
    have "oc_generation cache + length resets < 2 ^ 64" using assms(3) st FSet by simp
    note e = set_pwm_effect [OF assms(1) assms(2) [unfolded st] this s]
    have "fan_step exchange op st = (fc', cache', dev')"
      using s FSet st by (simp add: wire_def [abs_def])
    then show ?thesis using e st FSet by simp
  next
    case (FReset dev')
    then show ?thesis using assms(2,3) st
      by (auto simp: fan_inv_def invalidate_openfan_writes_def)
  next
    case (FExitFloor now f)
    obtain fc' cache' dev' where s: "snd (apply_exit_floor now exchange quiet f (fc, cache, dev)) = (fc', cache', dev')"
      by (rule prod_cases3)
    then show ?thesis
      using exit_floor_effect [OF assms(1) assms(2) [unfolded st] _ _ s] assms(3,4) st FExitFloor by simp
  qed
qed

lemma fan_fold_inv:
  assumes "firmware_applies exchange duty"
  shows "fan_inv duty st \<Longrightarrow> oc_generation (fst (snd st)) + sum_list (map op_resets ops) < 2 ^ 64 \<Longrightarrow>
    list_all fan_op_ok ops \<Longrightarrow> fan_inv duty (fold (fan_step exchange) ops st) \<and>
      oc_generation (fst (snd (fold (fan_step exchange) ops st))) \<le>
        oc_generation (fst (snd st)) + sum_list (map op_resets ops)"
proof (induction ops arbitrary: st)
  case (Cons op ops)
  have "oc_generation (fst (snd st)) + op_resets op < 2 ^ 64" using Cons.prems(2) by simp
  from fan_step_inv [OF assms Cons.prems(1) this] Cons.prems(3)
  have s: "fan_inv duty (fan_step exchange op st)"
    "oc_generation (fst (snd (fan_step exchange op st))) \<le> oc_generation (fst (snd st)) + op_resets op" by simp_all
  then have "oc_generation (fst (snd (fan_step exchange op st))) + sum_list (map op_resets ops) < 2 ^ 64"
    using Cons.prems(2) by simp
  from Cons.IH [OF s(1) this] Cons.prems(3) s(2) show ?case by simp
qed simp

section \<open>Properties\<close>

lemma fan_run_inv:
  assumes "firmware_applies exchange duty" "list_all fan_op_ok ops" "sum_list (map op_resets ops) < 2 ^ 64"
  shows "fan_inv duty (fan_run exchange ops dev)" "oc_generation (fst (snd (fan_run exchange ops dev))) < 2 ^ 64"
proof -
  have "oc_generation (fst (snd (controller_new, cache_new, dev))) + sum_list (map op_resets ops) < 2 ^ 64"
    using assms(3) by (simp add: cache_new_def)
  from fan_fold_inv [OF assms(1) fan_inv_new this assms(2)] assms(3)
  show "fan_inv duty (fan_run exchange ops dev)" "oc_generation (fst (snd (fan_run exchange ops dev))) < 2 ^ 64"
    by (simp_all add: fan_run_def cache_new_def)
qed

text \<open>C20: a confirmed write is a held duty. After any history of writes, failed replies, reconnects,
  resumes (also in the middle of an exchange) and exit floors, when a write reports success, be it
  sent or coalesced away, the device holds exactly the reported duty; so coalescing never silences a
  command the device still needs.\<close>

theorem confirmed_write_is_held:
  assumes "firmware_applies exchange duty" "list_all fan_op_ok ops" "sum_list (map op_resets ops) < 2 ^ 64"
    and "set_pwm now exchange quiet ch pct (fan_run exchange ops dev) = (Inr res, fc, cache, dev')"
  shows "duty dev' ch = percent_to_raw (sp_percent res) \<and> pct \<le> sp_percent res \<and> sp_percent res \<le> 100"
proof -
  obtain fc0 cache0 dev0 where r: "fan_run exchange ops dev = (fc0, cache0, dev0)" by (rule prod_cases3)
  note inv = fan_run_inv [OF assms(1-3), of dev, unfolded r, simplified]
  have g: "oc_generation cache0 < 2 ^ 64" using inv(2) by simp
  note e = set_pwm_effect_plain [OF assms(1) inv(1) g assms(4) [unfolded r]]
  have v: "ch < NUM_CHANNELS" "pct \<le> 100"
    using assms(4) set_pwm_invalid [of ch pct now exchange quiet "fan_run exchange ops dev"] by auto
  note o = observe_synced(1) [OF inv(1)]
  have "sp_percent res = raised_pct (observe_write_generation cache0 fc0) ch pct"
    using assms(4) set_pwm_valid [OF inv(1) v, of now exchange quiet] unfolding r
    by (auto split: if_splits prod.splits sum.splits)
  then show ?thesis using e raised_pct_bounds [OF o v] by simp
qed

text \<open>C38: a request is refused exactly when it is out of range. After any history, a write is rejected as
  invalid if and only if its channel or its duty is out of range: the stop timeout never refuses
  anything, so a fan that is to stop can always be stopped.\<close>

theorem refused_iff_out_of_range:
  assumes "firmware_applies exchange duty" "list_all fan_op_ok ops" "sum_list (map op_resets ops) < 2 ^ 64"
  shows "(\<exists>e. fst (set_pwm now exchange quiet ch pct (fan_run exchange ops dev)) = Inl (ValidationError e)) \<longleftrightarrow>
    \<not> (ch < NUM_CHANNELS \<and> pct \<le> 100)"
proof -
  obtain fc0 cache0 dev0 where r: "fan_run exchange ops dev = (fc0, cache0, dev0)" by (rule prod_cases3)
  note inv = fan_run_inv(1) [OF assms, of dev, unfolded r]
  show ?thesis
  proof (cases "ch < NUM_CHANNELS \<and> pct \<le> 100")
    case True
    then show ?thesis using set_pwm_valid [OF inv, of ch pct now exchange quiet] unfolding r
      by (auto split: if_splits prod.splits sum.splits)
  next
    case False
    then show ?thesis using set_pwm_invalid [OF False, of now exchange quiet "fan_run exchange ops dev"]
      by (metis fst_conv)
  qed
qed

lemma exit_min_kept:
  assumes "firmware_applies exchange duty" "fan_inv duty st"
    and "oc_generation (fst (snd st)) + sum_list (map op_resets ops) < 2 ^ 64"
    and "list_all (\<lambda>op. \<forall>now f. op \<noteq> FExitFloor now f) ops"
  shows "map exit_min (fc_channels (fst (fold (fan_step exchange) ops st))) = map exit_min (fc_channels (fst st))"
  using assms(2-)
proof (induction ops arbitrary: st)
  case (Cons op ops)
  obtain fc cache dev where st: "st = (fc, cache, dev)" by (rule prod_cases3)
  have b: "oc_generation (fst (snd st)) + op_resets op < 2 ^ 64" using Cons.prems(2) by simp
  have ok: "fan_op_ok op" using Cons.prems(3) by (cases op) auto
  note s = fan_step_inv [OF assms(1) Cons.prems(1) b ok]
  have "map exit_min (fc_channels (fst (fan_step exchange op st))) = map exit_min (fc_channels (fst st))"
  proof (cases op)
    case (FSet now ch pct resets)
    obtain r fc' cache' dev' where w: "set_pwm now (wire exchange resets) (invalidations (length resets)) ch pct
        (fc, cache, dev) = (r, fc', cache', dev')" by (metis prod_cases4)
    have "oc_generation cache + length resets < 2 ^ 64" using b st FSet by simp
    from set_pwm_effect [OF assms(1) Cons.prems(1) [unfolded st] this w] w
    show ?thesis using FSet st by (simp add: wire_def [abs_def])
  qed (use Cons.prems(3) st in auto)
  moreover have "oc_generation (fst (snd (fan_step exchange op st))) + sum_list (map op_resets ops) < 2 ^ 64"
    using s Cons.prems(2) by simp
  ultimately show ?case using Cons.IH [of "fan_step exchange op st"] s Cons.prems(3) by simp
qed simp

text \<open>Lemma: the exit floor is final. Once a stop has applied a floor, no later command of any writer that
  outlives it can be confirmed below that floor, whatever it asks for and whatever happens to the link.\<close>

theorem exit_floor_is_final:
  assumes "firmware_applies exchange duty" "0 < f" "f \<le> 100"
    and "list_all fan_op_ok before" "list_all (\<lambda>op. \<forall>now f. op \<noteq> FExitFloor now f) later"
    and "sum_list (map op_resets (before @ later)) < 2 ^ 64"
    and "set_pwm now exchange quiet ch pct (fan_run exchange (before @ FExitFloor stop f # later) dev) =
      (Inr res, fc, cache, dev')"
  shows "f \<le> sp_percent res"
proof -
  obtain fc0 cache0 dev0 where r0: "fan_run exchange before dev = (fc0, cache0, dev0)" by (rule prod_cases3)
  obtain fc1 cache1 dev1 where r1: "snd (apply_exit_floor stop exchange quiet f (fc0, cache0, dev0)) = (fc1, cache1, dev1)"
    by (rule prod_cases3)
  obtain fc2 cache2 dev2 where r2: "fold (fan_step exchange) later (fc1, cache1, dev1) = (fc2, cache2, dev2)"
    by (rule prod_cases3)
  have run: "fan_run exchange (before @ FExitFloor stop f # later) dev = (fc2, cache2, dev2)"
    using r0 r1 r2 by (simp add: fan_run_def)
  have i0: "fan_inv duty (fc0, cache0, dev0)" "oc_generation cache0 \<le> sum_list (map op_resets before)"
    using fan_fold_inv [OF assms(1) fan_inv_new, of dev before] assms(4,6) r0
    by (simp_all add: fan_run_def cache_new_def)
  then have "oc_generation cache0 < 2 ^ 64" using assms(6) by simp
  note e1 = exit_floor_effect [OF assms(1) i0(1) this assms(3) r1]
  have b: "oc_generation (fst (snd (fc1, cache1, dev1))) + sum_list (map op_resets later) < 2 ^ 64"
    using e1(2) i0(2) assms(6) by simp
  have lok: "list_all fan_op_ok later" using assms(5)
  proof (induction later)
    case (Cons op later)
    then show ?case by (cases op) auto
  qed simp
  note k = exit_min_kept [OF assms(1) e1(1) b assms(5), unfolded r2, simplified]
  have i2: "fan_inv duty (fc2, cache2, dev2)"
    using fan_fold_inv [OF assms(1) e1(1) b lok] r2 by simp
  have v: "ch < NUM_CHANNELS" "pct \<le> 100"
    using assms(7) set_pwm_invalid [of ch pct now exchange quiet "fan_run exchange (before @ FExitFloor stop f # later) dev"]
    by auto
  note o = observe_synced [OF i2]
  let ?fc = "observe_write_generation cache2 fc2"
  have len: "ch < length (fc_channels ?fc)" "length (fc_channels ?fc) = length (fc_channels fc1)"
    using inv_channel(2) [OF o(1) v(1)] o(3) k by (simp, metis length_map)
  have "map exit_min (fc_channels ?fc) ! ch = map exit_min (fc_channels fc1) ! ch" using o(3) k by simp
  then have "exit_min (fc_channels ?fc ! ch) = exit_min (fc_channels fc1 ! ch)" using len by simp
  moreover obtain m where "exit_min (fc_channels fc1 ! ch) = Some m" "f \<le> m"
    using e1(3) [OF assms(2)] len by (auto simp: list_all_length)
  ultimately have "f \<le> raised_pct ?fc ch pct" using raised_pct_bounds(3) [OF o(1) v] by fastforce
  moreover have "sp_percent res = raised_pct ?fc ch pct"
    using assms(7) set_pwm_valid [OF i2 v, of now exchange quiet] unfolding run
    by (auto split: if_splits prod.splits sum.splits)
  ultimately show ?thesis by simp
qed

text \<open>A device that applies and acknowledges every duty.\<close>

fun plain_device :: "Command \<Rightarrow> (u8 \<Rightarrow> u8) \<Rightarrow> (SerialError + Response) \<times> (u8 \<Rightarrow> u8)" where
  "plain_device (SetPwm (Channel ch) raw) dev = (Inr (Rpm 2 [\<lparr>cr_channel = ch, cr_rpm = raw\<rparr>]), dev(ch := raw))"
| "plain_device _ dev = (Inl SerialTimeout, dev)"

lemma plain_device_applies: "firmware_applies plain_device (\<lambda>dev. dev)"
  by (auto simp: firmware_applies_def)

lemma plain_write:
  "fst (set_pwm 1 plain_device quiet 3 40 (fan_run plain_device [] (\<lambda>_. 0))) =
     Inr \<lparr>sp_channel = 3, sp_percent = 40, sp_coalesced = False\<rparr>"
  by (simp add: fan_run_def set_pwm_def controller_new_def cache_new_def observe_write_generation_def
      channel_default_def NUM_CHANNELS_def apply_safety_def channel_new_def update_channel_def Let_def)

theorem confirmed_write_is_held_witness:
  "snd (snd (snd (set_pwm 1 plain_device quiet 3 40 (fan_run plain_device [] (\<lambda>_. 0))))) 3 = percent_to_raw 40"
proof -
  obtain r fc cache dev' where s: "set_pwm 1 plain_device quiet 3 40 (fan_run plain_device [] (\<lambda>_. 0)) = (r, fc, cache, dev')"
    by (metis prod_cases4)
  then have r: "r = Inr \<lparr>sp_channel = 3, sp_percent = 40, sp_coalesced = False\<rparr>" using plain_write by simp
  from confirmed_write_is_held [OF plain_device_applies _ _ s [unfolded r]] s show ?thesis by simp
qed

theorem refused_iff_out_of_range_witness:
  "\<exists>e. fst (set_pwm 1 plain_device quiet 3 101 (fan_run plain_device [] (\<lambda>_. 0))) = Inl (ValidationError e)"
  using refused_iff_out_of_range [OF plain_device_applies, of "[]" 1 3 101 "\<lambda>_. 0"] by simp

lemma exit_targets_none: "list_all (\<lambda>c. \<not> cc_written c) (fc_channels fc) \<Longrightarrow> exit_targets fc = []"
  by (auto simp: exit_targets_def list_all_iff filter_empty_conv dest!: set_mp [OF set_zip_rightD [THEN subsetI]])
     (auto simp: in_set_enumerate_eq)

lemma plain_floor:
  "fan_run plain_device [FExitFloor 5 60] dev = (latch_exit_floor 60 controller_new, cache_new, dev)"
  by (simp add: fan_run_def apply_exit_floor_def observe_write_generation_def controller_new_def cache_new_def
      exit_targets_none channel_default_def list_all_iff)

theorem exit_floor_is_final_witness:
  "fst (set_pwm 9 plain_device quiet 3 10 (fan_run plain_device [FExitFloor 5 60] (\<lambda>_. 0))) =
     Inr \<lparr>sp_channel = 3, sp_percent = 60, sp_coalesced = False\<rparr> \<and>
   60 \<le> sp_percent \<lparr>sp_channel = 3, sp_percent = 60, sp_coalesced = False\<rparr>"
proof -
  let ?r = "\<lparr>sp_channel = 3, sp_percent = 60, sp_coalesced = False\<rparr>"
  obtain r fc cache dev' where s: "set_pwm 9 plain_device quiet 3 10 (fan_run plain_device [FExitFloor 5 60] (\<lambda>_. 0))
      = (r, fc, cache, dev')" by (metis prod_cases4)
  have "fst (set_pwm 9 plain_device quiet 3 10 (fan_run plain_device [FExitFloor 5 60] (\<lambda>_. 0))) = Inr ?r"
    by (simp add: plain_floor set_pwm_def controller_new_def cache_new_def observe_write_generation_def
      channel_default_def NUM_CHANNELS_def apply_safety_def channel_new_def update_channel_def Let_def latch_exit_floor_def)
  then have r: "r = Inr ?r" using s by simp
  from exit_floor_is_final [OF plain_device_applies, where f = 60 and before = "[]" and later = "[]" and res = ?r] s r show ?thesis by simp
qed

end
