(* ===== verification/Write_Slot.thy ===== *)
theory Write_Slot
  imports Ofc_Prelude
begin

text \<open>
  Who may write to the fans besides the engine (\<open>health/cache.rs\<close> and \<open>health/state.rs\<close>): the single
  diagnostic slot with its epoch and deadman, and the standing of an OpenFan firmware update. Both live
  in one \<open>DaemonState\<close> behind one lock, so every operation is one step of the state below. The clock is
  an argument.
\<close>

datatype OpenFanLink = LinkConnected | LinkUnresponsive | LinkReconnecting

fun link_str :: "OpenFanLink \<Rightarrow> string" where
  "link_str LinkConnected = ''connected''"
| "link_str LinkUnresponsive = ''unresponsive''"
| "link_str LinkReconnecting = ''reconnecting''"

record RunningUpdate =
  ru_run_id :: string
  ru_stage :: string
  ru_stage_deadline :: "instant option"
  ru_writes_suspended :: bool

datatype OpenFanMaintenance = MaintRunning RunningUpdate | NeedsRecovery string string

fun maintenance_run_id :: "OpenFanMaintenance \<Rightarrow> string" where
  "maintenance_run_id (MaintRunning r) = ru_run_id r"
| "maintenance_run_id (NeedsRecovery run_id _) = run_id"

datatype MaintenanceRefusal =
    MaintenanceActive | LinkNotReady "OpenFanLink option" | RecoveryPending | DiagnosticActive
  | ThermalEmergency | BoardAnswers

fun refusal_reason :: "MaintenanceRefusal \<Rightarrow> string" where
  "refusal_reason MaintenanceActive = ''maintenance_active''"
| "refusal_reason (LinkNotReady _) = ''openfan_link_not_ready''"
| "refusal_reason RecoveryPending = ''openfan_link_not_ready''"
| "refusal_reason DiagnosticActive = ''diagnostic_active''"
| "refusal_reason ThermalEmergency = ''thermal_emergency''"
| "refusal_reason BoardAnswers = ''board_not_silent''"

type_synonym node_id = "u64 \<times> u64"

record DaemonState =
  ds_verify_in_progress :: bool
  ds_verify_active_until :: "instant option"
  ds_verify_epoch :: u64
  ds_maintenance :: "OpenFanMaintenance option"
  ds_link :: "OpenFanLink option"
  ds_port :: "string option"
  ds_thermal_state :: "string option"
  ds_unanswered :: "(string \<times> node_id) list"

definition daemon_state_default :: DaemonState where
  "daemon_state_default = \<lparr>ds_verify_in_progress = False, ds_verify_active_until = None, ds_verify_epoch = 0,
     ds_maintenance = None, ds_link = None, ds_port = None, ds_thermal_state = None, ds_unanswered = []\<rparr>"

section \<open>The diagnostic slot\<close>

definition verify_active_at :: "instant \<Rightarrow> DaemonState \<Rightarrow> bool" where
  "verify_active_at now s =
     (ds_verify_in_progress s \<and> (case ds_verify_active_until s of Some deadline \<Rightarrow> now < deadline | None \<Rightarrow> False))"

definition openfan_maintenance_running :: "DaemonState \<Rightarrow> bool" where
  "openfan_maintenance_running s = (case ds_maintenance s of Some (MaintRunning _) \<Rightarrow> True | _ \<Rightarrow> False)"

definition openfan_writes_suspended :: "DaemonState \<Rightarrow> bool" where
  "openfan_writes_suspended s =
     (case ds_maintenance s of
        Some (MaintRunning r) \<Rightarrow> ru_writes_suspended r
      | Some (NeedsRecovery _ _) \<Rightarrow> True
      | None \<Rightarrow> False)"

definition openfan_writes_paused :: "instant \<Rightarrow> DaemonState \<Rightarrow> bool" where
  "openfan_writes_paused now s = (verify_active_at now s \<or> openfan_writes_suspended s)"

definition openfan_link_wire :: "DaemonState \<Rightarrow> string option" where
  "openfan_link_wire s =
     (if openfan_maintenance_running s then Some ''maintenance'' else map_option link_str (ds_link s))"

definition try_begin_verify :: "instant \<Rightarrow> duration \<Rightarrow> DaemonState \<Rightarrow> u64 option \<times> DaemonState" where
  "try_begin_verify now window s =
     (if openfan_maintenance_running s then (None, s)
      else if verify_active_at now s then (None, s)
      else let epoch = u64_inc (ds_verify_epoch s) in
        (Some epoch, s\<lparr>ds_verify_epoch := epoch, ds_verify_in_progress := True, ds_verify_active_until := Some (now + window)\<rparr>))"

definition end_verify :: "u64 \<Rightarrow> DaemonState \<Rightarrow> bool \<times> DaemonState" where
  "end_verify epoch s =
     (if ds_verify_epoch s \<noteq> epoch then (False, s)
      else (True, s\<lparr>ds_verify_in_progress := False, ds_verify_active_until := None\<rparr>))"

definition renew_verify :: "instant \<Rightarrow> u64 \<Rightarrow> duration \<Rightarrow> DaemonState \<Rightarrow> bool \<times> DaemonState" where
  "renew_verify now epoch window s =
     (if ds_verify_epoch s \<noteq> epoch then (False, s)
      else (True, s\<lparr>ds_verify_active_until := Some (now + window)\<rparr>))"

text \<open>What the engine publishes of its safety decision.\<close>

definition record_thermal_state :: "string \<Rightarrow> DaemonState \<Rightarrow> DaemonState" where
  "record_thermal_state t s = s\<lparr>ds_thermal_state := Some t\<rparr>"

section \<open>Link and firmware maintenance\<close>

definition set_openfan_link :: "OpenFanLink \<Rightarrow> DaemonState \<Rightarrow> DaemonState" where
  "set_openfan_link link s =
     (let ends_recovery = (link = LinkConnected \<and> (case ds_maintenance s of Some (NeedsRecovery _ _) \<Rightarrow> True | _ \<Rightarrow> False)) in
      if ds_link s = Some link \<and> \<not> ends_recovery then s
      else let s = s\<lparr>ds_link := Some link\<rparr> in
        if link \<noteq> LinkConnected then s
        else case ds_maintenance s of Some (NeedsRecovery _ _) \<Rightarrow> s\<lparr>ds_maintenance := None\<rparr> | _ \<Rightarrow> s)"

definition set_openfan_port :: "string \<Rightarrow> DaemonState \<Rightarrow> DaemonState" where
  "set_openfan_port path s =
     s\<lparr>ds_port := Some path, ds_unanswered := filter (\<lambda>(p, n). p \<noteq> path) (ds_unanswered s)\<rparr>"

definition try_begin_openfan_maintenance :: "string \<Rightarrow> string \<Rightarrow> DaemonState \<Rightarrow> (MaintenanceRefusal + unit) \<times> DaemonState" where
  "try_begin_openfan_maintenance run_id first_stage s =
     (if openfan_maintenance_running s then (Inl MaintenanceActive, s)
      else if ds_link s \<noteq> Some LinkConnected then (Inl (LinkNotReady (ds_link s)), s)
      else if (case ds_maintenance s of Some (NeedsRecovery _ _) \<Rightarrow> True | _ \<Rightarrow> False) then (Inl RecoveryPending, s)
      else if ds_verify_in_progress s then (Inl DiagnosticActive, s)
      else if ds_thermal_state s = Some ''emergency'' then (Inl ThermalEmergency, s)
      else (Inr (), s\<lparr>ds_maintenance := Some (MaintRunning \<lparr>ru_run_id = run_id, ru_stage = first_stage,
              ru_stage_deadline = None, ru_writes_suspended = False\<rparr>)\<rparr>))"

definition try_begin_silent_openfan_maintenance ::
    "string \<Rightarrow> string \<Rightarrow> DaemonState \<Rightarrow> (MaintenanceRefusal + (string \<times> string) option) \<times> DaemonState" where
  "try_begin_silent_openfan_maintenance run_id first_stage s =
     (if openfan_maintenance_running s then (Inl MaintenanceActive, s)
      else if ds_link s = Some LinkConnected then (Inl BoardAnswers, s)
      else if ds_verify_in_progress s then (Inl DiagnosticActive, s)
      else if ds_thermal_state s = Some ''emergency'' then (Inl ThermalEmergency, s)
      else
        let prior = (case ds_maintenance s of Some (NeedsRecovery run outcome) \<Rightarrow> Some (run, outcome) | _ \<Rightarrow> None) in
        (Inr prior, s\<lparr>ds_maintenance := Some (MaintRunning \<lparr>ru_run_id = run_id, ru_stage = first_stage,
              ru_stage_deadline = None, ru_writes_suspended = True\<rparr>)\<rparr>))"

text \<open>The operations of the run that owns the controller: \<open>f\<close> on its standing, nothing for a stale run.\<close>

definition with_run :: "string \<Rightarrow> (RunningUpdate \<Rightarrow> RunningUpdate) \<Rightarrow> DaemonState \<Rightarrow> bool \<times> DaemonState" where
  "with_run run_id f s =
     (case ds_maintenance s of
        Some (MaintRunning r) \<Rightarrow>
          if ru_run_id r = run_id then (True, s\<lparr>ds_maintenance := Some (MaintRunning (f r))\<rparr>) else (False, s)
      | _ \<Rightarrow> (False, s))"

definition suspend_openfan_writes :: "string \<Rightarrow> DaemonState \<Rightarrow> bool \<times> DaemonState" where
  "suspend_openfan_writes run_id = with_run run_id (\<lambda>r. r\<lparr>ru_writes_suspended := True\<rparr>)"

definition set_openfan_maintenance_stage :: "string \<Rightarrow> string \<Rightarrow> instant option \<Rightarrow> DaemonState \<Rightarrow> bool \<times> DaemonState" where
  "set_openfan_maintenance_stage run_id next_stage deadline =
     with_run run_id (\<lambda>r. r\<lparr>ru_stage := next_stage, ru_stage_deadline := deadline\<rparr>)"

definition resume_openfan_writes :: "string \<Rightarrow> DaemonState \<Rightarrow> bool \<times> DaemonState" where
  "resume_openfan_writes run_id = with_run run_id (\<lambda>r. r\<lparr>ru_writes_suspended := False\<rparr>)"

definition end_openfan_maintenance :: "string \<Rightarrow> string option \<Rightarrow> DaemonState \<Rightarrow> DaemonState" where
  "end_openfan_maintenance run_id needs_recovery s =
     (case ds_maintenance s of
        Some (MaintRunning r) \<Rightarrow>
          if ru_run_id r \<noteq> run_id then s
          else s\<lparr>ds_maintenance := map_option (NeedsRecovery run_id) needs_recovery\<rparr>
      | _ \<Rightarrow> s)"

definition end_openfan_maintenance_restoring :: "string \<Rightarrow> string \<times> string \<Rightarrow> DaemonState \<Rightarrow> DaemonState" where
  "end_openfan_maintenance_restoring run_id prior s =
     (case ds_maintenance s of
        Some (MaintRunning r) \<Rightarrow>
          if ru_run_id r = run_id then s\<lparr>ds_maintenance := Some (NeedsRecovery (fst prior) (snd prior))\<rparr> else s
      | _ \<Rightarrow> s)"

definition restore_openfan_recovery :: "string \<Rightarrow> string \<Rightarrow> DaemonState \<Rightarrow> DaemonState" where
  "restore_openfan_recovery run_id outcome s =
     (if ds_maintenance s = None then s\<lparr>ds_maintenance := Some (NeedsRecovery run_id outcome)\<rparr> else s)"

section \<open>Probe evidence\<close>

definition OPENFAN_UNANSWERED_CAP :: nat where
  "OPENFAN_UNANSWERED_CAP = 16"

definition record_openfan_unanswered :: "string \<Rightarrow> node_id \<Rightarrow> DaemonState \<Rightarrow> DaemonState" where
  "record_openfan_unanswered path node s =
     (let l = filter (\<lambda>(p, n). p \<noteq> path) (ds_unanswered s) @ [(path, node)];
          excess = length l - OPENFAN_UNANSWERED_CAP
      in s\<lparr>ds_unanswered := drop excess l\<rparr>)"

definition retain_openfan_unanswered :: "(string \<Rightarrow> node_id \<Rightarrow> bool) \<Rightarrow> DaemonState \<Rightarrow> DaemonState" where
  "retain_openfan_unanswered keep s = s\<lparr>ds_unanswered := filter (\<lambda>(p, n). keep p n) (ds_unanswered s)\<rparr>"

section \<open>Histories\<close>

datatype SlotOp =
    OpBeginVerify instant duration | OpEndVerify u64 | OpRenewVerify instant u64 duration | OpThermal string
  | OpLink OpenFanLink | OpPort string | OpBegin string string | OpBeginSilent string string
  | OpSuspend string | OpStage string string "instant option" | OpResume string
  | OpEnd string "string option" | OpEndRestoring string "string \<times> string" | OpRestore string string
  | OpUnanswered string node_id | OpRetain "string \<Rightarrow> node_id \<Rightarrow> bool"

fun slot_step :: "SlotOp \<Rightarrow> DaemonState \<Rightarrow> DaemonState" where
  "slot_step (OpBeginVerify now window) s = snd (try_begin_verify now window s)"
| "slot_step (OpEndVerify epoch) s = snd (end_verify epoch s)"
| "slot_step (OpRenewVerify now epoch window) s = snd (renew_verify now epoch window s)"
| "slot_step (OpThermal t) s = record_thermal_state t s"
| "slot_step (OpLink link) s = set_openfan_link link s"
| "slot_step (OpPort path) s = set_openfan_port path s"
| "slot_step (OpBegin run_id st) s = snd (try_begin_openfan_maintenance run_id st s)"
| "slot_step (OpBeginSilent run_id st) s = snd (try_begin_silent_openfan_maintenance run_id st s)"
| "slot_step (OpSuspend run_id) s = snd (suspend_openfan_writes run_id s)"
| "slot_step (OpStage run_id st dl) s = snd (set_openfan_maintenance_stage run_id st dl s)"
| "slot_step (OpResume run_id) s = snd (resume_openfan_writes run_id s)"
| "slot_step (OpEnd run_id rec) s = end_openfan_maintenance run_id rec s"
| "slot_step (OpEndRestoring run_id prior) s = end_openfan_maintenance_restoring run_id prior s"
| "slot_step (OpRestore run_id outcome) s = restore_openfan_recovery run_id outcome s"
| "slot_step (OpUnanswered path node) s = record_openfan_unanswered path node s"
| "slot_step (OpRetain keep) s = retain_openfan_unanswered keep s"

lemmas slot_defs = try_begin_verify_def end_verify_def renew_verify_def record_thermal_state_def set_openfan_link_def
  set_openfan_port_def try_begin_openfan_maintenance_def try_begin_silent_openfan_maintenance_def with_run_def
  suspend_openfan_writes_def set_openfan_maintenance_stage_def resume_openfan_writes_def end_openfan_maintenance_def
  end_openfan_maintenance_restoring_def restore_openfan_recovery_def record_openfan_unanswered_def
  retain_openfan_unanswered_def

inductive slot_reach :: "DaemonState \<Rightarrow> bool" where
  start: "slot_reach daemon_state_default"
| step: "slot_reach s \<Longrightarrow> slot_reach (slot_step op s)"

lemma run_reach: "slot_reach (fold slot_step ops daemon_state_default)"
  by (induction ops rule: rev_induct) (auto intro: slot_reach.intros)

section \<open>Exclusion\<close>

lemma reach_excludes:
  "slot_reach s \<Longrightarrow> openfan_maintenance_running s \<Longrightarrow> \<not> ds_verify_in_progress s"
proof (induction rule: slot_reach.induct)
  case (step s op)
  then show ?case
    by (cases op) (auto simp: slot_defs openfan_maintenance_running_def Let_def
        split: if_splits option.splits OpenFanMaintenance.splits)
qed (simp add: daemon_state_default_def)

definition evidence_ok :: "(string \<times> node_id) list \<Rightarrow> bool" where
  "evidence_ok l = (distinct (map fst l) \<and> length l \<le> OPENFAN_UNANSWERED_CAP)"

lemma evidence_filter: "evidence_ok l \<Longrightarrow> evidence_ok (filter P l)"
  by (auto simp: evidence_ok_def distinct_map_filter intro: le_trans [OF length_filter_le])

lemma evidence_push:
  assumes "evidence_ok l"
  shows "evidence_ok (drop (length (filter (\<lambda>(p, n). p \<noteq> path) l @ [(path, node)]) - OPENFAN_UNANSWERED_CAP)
    (filter (\<lambda>(p, n). p \<noteq> path) l @ [(path, node)]))" (is "evidence_ok (drop ?n ?l)")
proof -
  have "distinct (map fst ?l)" using assms by (auto simp: evidence_ok_def distinct_map_filter)
  then have "distinct (map fst (drop ?n ?l))" using distinct_drop [of "map fst ?l" ?n] unfolding drop_map by simp
  moreover have "length (drop ?n ?l) \<le> OPENFAN_UNANSWERED_CAP" unfolding length_drop by arith
  ultimately show ?thesis by (simp add: evidence_ok_def del: drop_append)
qed

lemma reach_evidence: "slot_reach s \<Longrightarrow> evidence_ok (ds_unanswered s)"
proof (induction rule: slot_reach.induct)
  case (step s op)
  then show ?case
    by (cases op) (auto simp: slot_defs Let_def evidence_filter evidence_push simp del: drop_append length_append
        split: if_splits option.splits OpenFanMaintenance.splits)
qed (simp add: daemon_state_default_def evidence_ok_def)

text \<open>C27: a firmware update and a diagnostic never hold the machine together. After any history of
  claims, renewals, releases, link changes and updates, no diagnostic claim is held while an update
  runs, not even one whose deadman lapsed; the probe evidence stays within its cap with one entry per
  device path.\<close>

theorem update_excludes_diagnostic:
  "\<not> (openfan_maintenance_running (fold slot_step ops daemon_state_default) \<and>
      ds_verify_in_progress (fold slot_step ops daemon_state_default)) \<and>
   evidence_ok (ds_unanswered (fold slot_step ops daemon_state_default))"
  using reach_excludes [OF run_reach] reach_evidence [OF run_reach] by blast

section \<open>The epoch is a fence\<close>

definition slot_grant :: "SlotOp \<Rightarrow> DaemonState \<Rightarrow> u64 option" where
  "slot_grant op s = (case op of OpBeginVerify now window \<Rightarrow> fst (try_begin_verify now window s) | _ \<Rightarrow> None)"

lemma slot_epoch_step:
  "ds_verify_epoch (slot_step op s) = (if slot_grant op s = None then ds_verify_epoch s else u64_inc (ds_verify_epoch s))"
  by (cases op) (auto simp: slot_defs slot_grant_def Let_def split: if_splits option.splits OpenFanMaintenance.splits)

lemma slot_grant_epoch: "slot_grant op s = Some k \<Longrightarrow> k = u64_inc (ds_verify_epoch s)"
  by (cases op) (auto simp: slot_grant_def try_begin_verify_def Let_def split: if_splits)

definition slot_room :: "DaemonState \<Rightarrow> nat \<Rightarrow> bool" where
  "slot_room s n = (ds_verify_epoch s + n < 2 ^ 64)"

interpretation slot_fence: token_fence slot_step "\<lambda>s. Some (ds_verify_epoch s)" "\<lambda>s k. k \<le> ds_verify_epoch s"
  "\<lambda>op s. slot_grant op s \<noteq> None" slot_room
  by unfold_locales (auto simp: slot_room_def slot_epoch_step)

text \<open>Lemma: a superseded diagnostic cannot touch its successor. Once another claim has been granted after
  the claim with epoch \<open>k\<close>, a release or a renewal of \<open>k\<close> is refused and changes nothing, whatever
  happened in between: a stranded diagnostic never lifts the pause of the one that replaced it. The bound
  says that the epoch counter has not wrapped.\<close>

theorem superseded_verify_is_fenced:
  assumes "slot_grant op (fold slot_step before daemon_state_default) = Some k"
    and "slot_grant op' (fold slot_step (before @ op # mid) daemon_state_default) \<noteq> None"
    and "length before + length mid + length later + 4 < 2 ^ 64"
    and "s = fold slot_step (before @ op # mid @ op' # later) daemon_state_default"
  shows "end_verify k s = (False, s) \<and> renew_verify now k window s = (False, s)"
proof -
  let ?s0 = "fold slot_step before daemon_state_default"
  have "slot_room daemon_state_default (length before + (length (op # mid @ op' # later) + 1))"
    using assms(3) by (simp add: slot_room_def daemon_state_default_def)
  from slot_fence.run_room [OF this] have r: "slot_room ?s0 (length (op # mid @ op' # later) + 1)" .
  then have r1: "slot_room (slot_step op ?s0) (length (mid @ op' # later) + 1)"
    using slot_fence.room_step by simp
  have "ds_verify_epoch (slot_step op ?s0) = k"
    using slot_epoch_step [of op ?s0] slot_grant_epoch [OF assms(1)] assms(1) by simp
  then have "Some (ds_verify_epoch s) \<noteq> Some k"
    using slot_fence.displaced [OF r1, of k] assms(2,4) by simp
  then show ?thesis by (simp add: end_verify_def renew_verify_def)
qed

section \<open>The deadman and the recovery\<close>

text \<open>The moment a claim or a renewal of it runs out.\<close>

fun slot_deadline :: "SlotOp \<Rightarrow> instant option" where
  "slot_deadline (OpBeginVerify now window) = Some (now + window)"
| "slot_deadline (OpRenewVerify now epoch window) = Some (now + window)"
| "slot_deadline _ = None"

lemma until_has_deadline:
  "ds_verify_active_until (fold slot_step ops daemon_state_default) = Some d \<Longrightarrow> \<exists>op \<in> set ops. slot_deadline op = Some d"
proof (induction ops rule: rev_induct)
  case (snoc op ops)
  then show ?case
    by (cases op) (auto simp: slot_defs Let_def split: if_splits option.splits OpenFanMaintenance.splits)
qed (simp add: daemon_state_default_def)

text \<open>Lemma: a leaked diagnostic cannot pause the engine for good. Whenever the pause is active there is a
  claim or a renewal in the history whose window has not run out yet.\<close>

theorem pause_needs_a_live_claim:
  assumes "verify_active_at now (fold slot_step ops daemon_state_default)"
  shows "\<exists>op \<in> set ops. \<exists>d. slot_deadline op = Some d \<and> now < d"
  using assms until_has_deadline [of ops] by (auto simp: verify_active_at_def split: option.splits)

lemma recovery_step:
  assumes "ds_maintenance s = Some (NeedsRecovery r out)" "op \<noteq> OpLink LinkConnected" "\<And>q st. op \<noteq> OpBeginSilent q st"
  shows "ds_maintenance (slot_step op s) = Some (NeedsRecovery r out)"
  using assms by (cases op) (auto simp: slot_defs Let_def openfan_maintenance_running_def)

text \<open>Lemma: a board left outside normal control stays alone until it answers. From a state that needs
  recovery, every history without a connected link and without the update of a silent board leaves the
  recovery standing, OpenFan writes suspended, and every ordinary update refused.\<close>

theorem recovery_lasts:
  assumes "ds_maintenance s = Some (NeedsRecovery r out)"
    and "list_all (\<lambda>op. op \<noteq> OpLink LinkConnected \<and> (\<forall>q st. op \<noteq> OpBeginSilent q st)) ops"
  shows "ds_maintenance (fold slot_step ops s) = Some (NeedsRecovery r out) \<and>
         openfan_writes_suspended (fold slot_step ops s) \<and>
         (\<exists>e. try_begin_openfan_maintenance run_id st (fold slot_step ops s) = (Inl e, fold slot_step ops s))"
proof -
  have "ds_maintenance (fold slot_step ops s) = Some (NeedsRecovery r out)"
    using assms by (induction ops arbitrary: s) (auto simp: recovery_step)
  then show ?thesis
    by (auto simp: openfan_writes_suspended_def try_begin_openfan_maintenance_def openfan_maintenance_running_def)
qed

theorem superseded_verify_is_fenced_witness:
  "end_verify 1 (fold slot_step [OpBeginVerify 0 5, OpBeginVerify 7 5] daemon_state_default) =
     (False, fold slot_step [OpBeginVerify 0 5, OpBeginVerify 7 5] daemon_state_default)"
  using superseded_verify_is_fenced [of "OpBeginVerify 0 5" "[]" 1 "OpBeginVerify 7 5" "[]" "[]", OF _ _ _ refl]
  by (simp add: slot_grant_def slot_defs daemon_state_default_def verify_active_at_def
      openfan_maintenance_running_def Let_def)

theorem pause_needs_a_live_claim_witness:
  "verify_active_at 3 (fold slot_step [OpBeginVerify 0 5] daemon_state_default) \<and>
   (\<exists>d. slot_deadline (OpBeginVerify 0 5) = Some d \<and> 3 < d)"
  using pause_needs_a_live_claim [of 3 "[OpBeginVerify 0 5]"]
  by (simp add: slot_defs daemon_state_default_def verify_active_at_def openfan_maintenance_running_def Let_def)

theorem recovery_lasts_witness:
  "openfan_writes_suspended (fold slot_step [OpLink LinkReconnecting, OpEnd ''run-1'' None]
     (restore_openfan_recovery ''run-1'' ''flash_failed'' daemon_state_default))"
  using recovery_lasts [of "restore_openfan_recovery ''run-1'' ''flash_failed'' daemon_state_default" "''run-1''" "''flash_failed''"
      "[OpLink LinkReconnecting, OpEnd ''run-1'' None]"]
  by (simp add: restore_openfan_recovery_def daemon_state_default_def)

end
