(* ===== verification/Hand_Back.thy ===== *)
theory Hand_Back
  imports Header_Roles Pwm_Duty
begin

text \<open>
  Taking hwmon headers from the firmware and giving them back (\<open>hwmon/handback.rs\<close>, with the descriptor
  of \<open>hwmon/pwm_discovery.rs\<close> and the chip list of \<open>hwmon/aio.rs\<close>).

  The host is a parameter: a state of any type with the file operations that the code calls. Reads
  advance it too, so drivers, firmware and other processes may act at any moment. The shutdown flag of
  the ledger is an atomic that another thread sets without the controller's lock, so it is a part of
  the host: \<open>hand_back_begun\<close> is its load and \<open>begin_hand_back\<close> its store. A file name is a string.
\<close>

section \<open>The host\<close>

datatype HwmonError = ReadError string | WriteError string

record 'w Host =
  write_file :: "string \<Rightarrow> string \<Rightarrow> 'w \<Rightarrow> (HwmonError + unit) \<times> 'w"
  read_file :: "string \<Rightarrow> 'w \<Rightarrow> (HwmonError + string) \<times> 'w"
  write_replacing :: "string \<Rightarrow> string \<Rightarrow> 'w \<Rightarrow> bool \<times> 'w"
  hand_back_begun :: "'w \<Rightarrow> bool"
  begin_hand_back :: "'w \<Rightarrow> 'w"

text \<open>\<open>str::trim\<close> on ASCII white space.\<close>

definition is_space :: "char \<Rightarrow> bool" where
  "is_space c = (let n = (of_char c :: nat) in n = 32 \<or> 9 \<le> n \<and> n \<le> 13)"

definition trim :: "string \<Rightarrow> string" where
  "trim s = rev (dropWhile is_space (rev (dropWhile is_space s)))"

definition read_u8 :: "'w Host \<Rightarrow> string \<Rightarrow> 'w \<Rightarrow> u8 option \<times> 'w" where
  "read_u8 h path w =
     (case read_file h path w of
        (Inl _, w') \<Rightarrow> (None, w')
      | (Inr s, w') \<Rightarrow> (parse_u8 (trim s), w'))"

text \<open>\<open>write(..).is_ok()\<close>, a predicate of a reading, and the short-circuit conjunction of two steps.\<close>

definition writes_ok :: "'w Host \<Rightarrow> string \<Rightarrow> string \<Rightarrow> 'w \<Rightarrow> bool \<times> 'w" where
  "writes_ok h path v w = (case write_file h path v w of (r, w') \<Rightarrow> (r = Inr (), w'))"

definition reads_as :: "'w Host \<Rightarrow> string \<Rightarrow> (u8 option \<Rightarrow> bool) \<Rightarrow> 'w \<Rightarrow> bool \<times> 'w" where
  "reads_as h path P w = (case read_u8 h path w of (v, w') \<Rightarrow> (P v, w'))"

definition and_then :: "('w \<Rightarrow> bool \<times> 'w) \<Rightarrow> ('w \<Rightarrow> bool \<times> 'w) \<Rightarrow> 'w \<Rightarrow> bool \<times> 'w" where
  "and_then f g w = (case f w of (True, w') \<Rightarrow> g w' | (False, w') \<Rightarrow> (False, w'))"

section \<open>Descriptors and driver rules\<close>

record PwmHeaderDescriptor =
  hd_id :: string
  hd_label :: string
  hd_chip_name :: string
  hd_device_id :: string
  hd_pwm_index :: u8
  hd_supports_enable :: bool
  hd_pwm_path :: string
  hd_enable_path :: "string option"
  hd_rpm_path :: "string option"
  hd_is_writable :: bool
  hd_pwm_mode :: "u8 option"
  hd_role :: HeaderRole
  hd_role_source :: RoleSource

definition NZXT_KRAKEN3_CHIPS :: "string list" where
  "NZXT_KRAKEN3_CHIPS = [''x53'', ''z53'', ''kraken2023'', ''kraken2023elite'', ''kraken2024elite'']"

definition is_nzxt_kraken3_chip :: "string \<Rightarrow> bool" where
  "is_nzxt_kraken3_chip chip_name = (to_lower chip_name \<in> set NZXT_KRAKEN3_CHIPS)"

definition DELL_SMM_CHIP :: string where
  "DELL_SMM_CHIP = ''dell_smm''"

definition DELL_SMM_BIOS_CONTROL :: u8 where
  "DELL_SMM_BIOS_CONTROL = 2"

definition FULL_SPEED_MIN_RAW :: u8 where
  "FULL_SPEED_MIN_RAW = 190"

datatype HandBack = Mode u8 | WriteOnlyMode u8 | Manual u8 | FullSpeed

definition driver_rule :: "string \<Rightarrow> u8 option \<Rightarrow> HandBack option" where
  "driver_rule chip_name enable =
     (if enable = Some 2 \<and> is_nzxt_kraken3_chip chip_name then Some FullSpeed
      else if enable = None \<and> chip_name = DELL_SMM_CHIP then Some (WriteOnlyMode DELL_SMM_BIOS_CONTROL)
      else None)"

definition from_reading :: "string \<Rightarrow> u8 option \<Rightarrow> u8 option \<Rightarrow> HandBack" where
  "from_reading chip_name enable raw_pwm =
     (case driver_rule chip_name enable of
        Some action \<Rightarrow> action
      | None \<Rightarrow>
          (case enable of
             None \<Rightarrow> FullSpeed
           | Some m \<Rightarrow> if m = 1 then (case raw_pwm of None \<Rightarrow> FullSpeed | Some raw \<Rightarrow> Manual raw) else Mode m))"

fun record_columns :: "HandBack \<Rightarrow> string \<times> string" where
  "record_columns (Mode m) = (''mode'', show_nat m)"
| "record_columns (WriteOnlyMode m) = (''write-only'', show_nat m)"
| "record_columns (Manual raw) = (''manual'', show_nat raw)"
| "record_columns FullSpeed = (''full'', ''-'')"

section \<open>Giving one header back\<close>

datatype HandBackOutcome = Restored | RunsFullSpeed | HandBackFailed

fun released :: "HandBackOutcome \<Rightarrow> bool" where
  "released HandBackFailed = False"
| "released _ = True"

definition manual_confirmed :: "'w Host \<Rightarrow> string \<Rightarrow> string \<Rightarrow> u8 \<Rightarrow> 'w \<Rightarrow> bool \<times> 'w" where
  "manual_confirmed h enable_path pwm_path raw w =
     (case read_u8 h enable_path w of (m, w) \<Rightarrow>
        if m = Some 1 then (True, w)
        else if m = Some 0 then
          reads_as h pwm_path
            (\<lambda>r. is_full_speed_alias (raw_to_percent raw) (map_option raw_to_percent r) m) w
        else (False, w))"

definition full_speed :: "'w Host \<Rightarrow> string \<Rightarrow> string \<Rightarrow> 'w \<Rightarrow> HandBackOutcome \<times> 'w" where
  "full_speed h enable_path pwm_path w =
     (case and_then (writes_ok h enable_path ''0'') (reads_as h enable_path (\<lambda>v. v = Some 0)) w of
        (True, w) \<Rightarrow> (RunsFullSpeed, w)
      | (False, w) \<Rightarrow>
          (case and_then (writes_ok h enable_path ''1'')
                  (and_then (writes_ok h pwm_path ''255'')
                     (reads_as h pwm_path (\<lambda>v. case v of Some raw \<Rightarrow> FULL_SPEED_MIN_RAW \<le> raw | None \<Rightarrow> False))) w of
             (True, w) \<Rightarrow> (RunsFullSpeed, w)
           | (False, w) \<Rightarrow> (HandBackFailed, w)))"

definition restore :: "'w Host \<Rightarrow> string \<Rightarrow> string \<Rightarrow> HandBack \<Rightarrow> 'w \<Rightarrow> bool \<times> 'w" where
  "restore h enable_path pwm_path action =
     (case action of
        Mode m \<Rightarrow> and_then (writes_ok h enable_path (show_nat m)) (reads_as h enable_path (\<lambda>v. v = Some m))
      | WriteOnlyMode m \<Rightarrow> writes_ok h enable_path (show_nat m)
      | Manual raw \<Rightarrow>
          and_then (writes_ok h enable_path ''1'')
            (and_then (writes_ok h pwm_path (show_nat raw)) (manual_confirmed h enable_path pwm_path raw))
      | FullSpeed \<Rightarrow> Pair False)"

definition hand_back :: "'w Host \<Rightarrow> string \<Rightarrow> string \<Rightarrow> HandBack \<Rightarrow> 'w \<Rightarrow> HandBackOutcome \<times> 'w" where
  "hand_back h enable_path pwm_path action w =
     (case restore h enable_path pwm_path action w of
        (True, w) \<Rightarrow> (Restored, w)
      | (False, w) \<Rightarrow> full_speed h enable_path pwm_path w)"

section \<open>The ledger\<close>

record TakenHeader =
  th_id :: string
  th_enable_path :: string
  th_pwm_path :: string
  th_action :: HandBack

record Entry =
  en_enable_path :: string
  en_pwm_path :: string
  en_original :: "HandBack option"
  en_taken :: bool
  en_failure_logged :: bool

record LedgerState =
  ls_entries :: "(string, Entry) hmap"
  ls_record_path :: "string option"
  ls_record_error_logged :: bool

record HandBackLedger =
  lg_state :: LedgerState
  lg_record_stale :: bool

definition RECORD_HEADER :: string where
  "RECORD_HEADER = ''# control-ofc hwmon hand-back record v1: headers the daemon has taken '' @
     ''from firmware. Written by control-ofc-daemon, replayed by control-ofc-restore-auto '' @
     ''(ExecStopPost). Do not edit.''"

definition ledger_entry :: "PwmHeaderDescriptor \<Rightarrow> (string \<times> Entry) option" where
  "ledger_entry d =
     (if hd_supports_enable d
      then map_option (\<lambda>ep. (hd_id d, \<lparr>en_enable_path = ep, en_pwm_path = hd_pwm_path d, en_original = None,
             en_taken = False, en_failure_logged = False\<rparr>)) (hd_enable_path d)
      else None)"

definition ledger_new :: "PwmHeaderDescriptor list \<Rightarrow> HandBackLedger" where
  "ledger_new headers =
     \<lparr>lg_state = \<lparr>ls_entries = hm_collect (List.map_filter ledger_entry headers), ls_record_path = None,
        ls_record_error_logged = False\<rparr>, lg_record_stale = False\<rparr>"

text \<open>The tab and the newline of the record.\<close>

abbreviation tab :: char where "tab \<equiv> CHR 0x09"
abbreviation newline :: char where "newline \<equiv> CHR 0x0A"

definition entry_action :: "Entry \<Rightarrow> HandBack" where
  "entry_action e = (case en_original e of Some a \<Rightarrow> a | None \<Rightarrow> FullSpeed)"

definition record_line :: "Entry \<Rightarrow> string" where
  "record_line e =
     (if list_ex (\<lambda>p. tab \<in> set p \<or> newline \<in> set p) [en_enable_path e, en_pwm_path e] then []
      else case record_columns (entry_action e) of (kind, value) \<Rightarrow>
        en_enable_path e @ [tab] @ en_pwm_path e @ [tab] @ kind @ [tab] @ value @ [newline])"

definition render_record :: "(string, Entry) hmap \<Rightarrow> string" where
  "render_record entries =
     RECORD_HEADER @ [newline] @
     concat (map record_line (sort_key en_enable_path (filter en_taken (map snd entries))))"

definition write_record :: "'w Host \<Rightarrow> LedgerState \<Rightarrow> 'w \<Rightarrow> LedgerState \<times> 'w" where
  "write_record h st w =
     (case ls_record_path st of
        None \<Rightarrow> (st, w)
      | Some path \<Rightarrow>
          (case write_replacing h path (render_record (ls_entries st)) w of
             (written, w) \<Rightarrow> (st\<lparr>ls_record_error_logged := \<not> written\<rparr>, w)))"

definition persist :: "'w Host \<Rightarrow> HandBackLedger \<Rightarrow> 'w \<Rightarrow> HandBackLedger \<times> 'w" where
  "persist h lg w =
     (case write_record h (lg_state lg) w of (st, w) \<Rightarrow>
        (\<lparr>lg_state = st, lg_record_stale = ls_record_error_logged st\<rparr>, w))"

definition set_record_path :: "'w Host \<Rightarrow> string \<Rightarrow> HandBackLedger \<Rightarrow> 'w \<Rightarrow> HandBackLedger \<times> 'w" where
  "set_record_path h path lg w =
     persist h (lg\<lparr>lg_state := (lg_state lg)\<lparr>ls_record_path := Some path\<rparr>\<rparr>) w"

definition retry_record_if_failed :: "'w Host \<Rightarrow> HandBackLedger \<Rightarrow> 'w \<Rightarrow> HandBackLedger \<times> 'w" where
  "retry_record_if_failed h lg w =
     (if \<not> lg_record_stale lg then (lg, w)
      else if ls_record_error_logged (lg_state lg) then persist h lg w else (lg, w))"

definition lg_get :: "HandBackLedger \<Rightarrow> string \<Rightarrow> Entry option" where
  "lg_get lg i = map_of (ls_entries (lg_state lg)) i"

definition lg_put :: "string \<Rightarrow> Entry \<Rightarrow> HandBackLedger \<Rightarrow> HandBackLedger" where
  "lg_put i e lg = lg\<lparr>lg_state := (lg_state lg)\<lparr>ls_entries := hm_insert i e (ls_entries (lg_state lg))\<rparr>\<rparr>"

definition needs_original :: "HandBackLedger \<Rightarrow> string \<Rightarrow> bool" where
  "needs_original lg i = (case lg_get lg i of Some e \<Rightarrow> en_original e = None | None \<Rightarrow> False)"

definition note_take :: "'w Host \<Rightarrow> string \<Rightarrow> HandBack option \<Rightarrow> HandBackLedger \<Rightarrow> 'w \<Rightarrow> HandBackLedger \<times> 'w" where
  "note_take h i original lg w =
     (case lg_get lg i of
        None \<Rightarrow> (lg, w)
      | Some e \<Rightarrow>
          let recorded = (en_original e = None \<and> original \<noteq> None);
              e' = (if recorded then e\<lparr>en_original := original\<rparr> else e);
              switched = \<not> en_taken e';
              e'' = (if switched then e'\<lparr>en_taken := True\<rparr> else e')
          in if recorded \<or> switched then persist h (lg_put i e'' lg) w else (lg, w))"

definition is_taken :: "HandBackLedger \<Rightarrow> string \<Rightarrow> bool" where
  "is_taken lg i = (case lg_get lg i of Some e \<Rightarrow> en_taken e | None \<Rightarrow> False)"

definition taken_ids :: "HandBackLedger \<Rightarrow> string list" where
  "taken_ids lg = sort (map fst (filter (\<lambda>(i, e). en_taken e) (ls_entries (lg_state lg))))"

definition taken :: "string \<Rightarrow> Entry \<Rightarrow> TakenHeader" where
  "taken i e = \<lparr>th_id = i, th_enable_path = en_enable_path e, th_pwm_path = en_pwm_path e, th_action = entry_action e\<rparr>"

definition taken_header :: "HandBackLedger \<Rightarrow> string \<Rightarrow> TakenHeader option" where
  "taken_header lg i =
     (case lg_get lg i of Some e \<Rightarrow> if en_taken e then Some (taken i e) else None | None \<Rightarrow> None)"

text \<open>\<open>locked\<close>: the lock was not free within the time-out.\<close>

definition try_taken :: "bool \<Rightarrow> HandBackLedger \<Rightarrow> TakenHeader list option" where
  "try_taken locked lg =
     (if locked then None
      else Some (sort_key th_id (map (\<lambda>(i, e). taken i e) (filter (\<lambda>(i, e). en_taken e) (ls_entries (lg_state lg))))))"

definition note_handed_back :: "'w Host \<Rightarrow> string \<Rightarrow> HandBackLedger \<Rightarrow> 'w \<Rightarrow> HandBackLedger \<times> 'w" where
  "note_handed_back h i lg w =
     (case lg_get lg i of
        None \<Rightarrow> (lg, w)
      | Some e \<Rightarrow>
          if en_taken e
          then persist h (lg_put i (e\<lparr>en_taken := False, en_failure_logged := False\<rparr>) lg) w
          else (lg, w))"

definition note_hand_back_failed :: "string \<Rightarrow> HandBackLedger \<Rightarrow> bool \<times> HandBackLedger" where
  "note_hand_back_failed i lg =
     (case lg_get lg i of
        None \<Rightarrow> (False, lg)
      | Some e \<Rightarrow>
          if \<not> en_failure_logged e then (True, lg_put i (e\<lparr>en_failure_logged := True\<rparr>) lg) else (False, lg))"

section \<open>A hand-back is confirmed\<close>

lemma and_then_True: "and_then f g w = (True, w') \<longleftrightarrow> (\<exists>w1. f w = (True, w1) \<and> g w1 = (True, w'))"
  by (auto simp: and_then_def split: prod.splits bool.splits)

lemma writes_ok_True: "writes_ok h p v w = (True, w') \<longleftrightarrow> write_file h p v w = (Inr (), w')"
  by (auto simp: writes_ok_def split: prod.splits)

lemma reads_as_True: "reads_as h p P w = (True, w') \<longleftrightarrow> (\<exists>v. P v \<and> read_u8 h p w = (v, w'))"
  by (auto simp: reads_as_def split: prod.splits)

lemmas host_steps = and_then_True writes_ok_True reads_as_True

lemma manual_confirmed_True:
  "manual_confirmed h ep pp raw w = (True, w') \<longleftrightarrow>
     read_u8 h ep w = (Some 1, w') \<or>
     raw_to_percent raw = 100 \<and>
       (\<exists>w1 r. read_u8 h ep w = (Some 0, w1) \<and> raw_to_percent r = 100 \<and> read_u8 h pp w1 = (Some r, w'))"
  by (auto simp: manual_confirmed_def is_full_speed_alias_def reads_as_True split: prod.splits if_splits)

text \<open>What the last step of a hand-back must have seen for each outcome.\<close>

fun restored_evidence :: "'w Host \<Rightarrow> string \<Rightarrow> string \<Rightarrow> HandBack \<Rightarrow> 'w \<Rightarrow> bool" where
  "restored_evidence h ep pp (Mode m) w' = (\<exists>w0. read_u8 h ep w0 = (Some m, w'))"
| "restored_evidence h ep pp (WriteOnlyMode m) w' = (\<exists>w0. write_file h ep (show_nat m) w0 = (Inr (), w'))"
| "restored_evidence h ep pp (Manual raw) w' =
     ((\<exists>w0. read_u8 h ep w0 = (Some 1, w')) \<or>
      (\<exists>w0 w1 r. raw_to_percent raw = 100 \<and> read_u8 h ep w0 = (Some 0, w1) \<and> raw_to_percent r = 100 \<and>
         read_u8 h pp w1 = (Some r, w')))"
| "restored_evidence h ep pp FullSpeed w' = False"

definition full_speed_evidence :: "'w Host \<Rightarrow> string \<Rightarrow> string \<Rightarrow> 'w \<Rightarrow> bool" where
  "full_speed_evidence h ep pp w' =
     ((\<exists>w0. read_u8 h ep w0 = (Some 0, w')) \<or>
      (\<exists>w0 raw. FULL_SPEED_MIN_RAW \<le> raw \<and> read_u8 h pp w0 = (Some raw, w')))"

lemma restore_True:
  "restore h ep pp a w = (True, w') \<Longrightarrow> restored_evidence h ep pp a w'"
  by (cases a) (auto simp: restore_def host_steps manual_confirmed_True)

lemma full_speed_outcome:
  assumes "full_speed h ep pp w = (out, w')"
  shows "out \<noteq> Restored \<and> (out = RunsFullSpeed \<longrightarrow> full_speed_evidence h ep pp w')"
  using assms unfolding full_speed_def full_speed_evidence_def
  by (auto simp: host_steps split: prod.splits bool.splits option.splits)

text \<open>Lemma: a hand-back is never assumed. On every host, whatever its drivers do, a header reported as
  restored was last seen in the recorded state (its mode read back, or manual mode, or the full-speed
  alias of it; a write-only switch took the write), and a header reported at full speed was last seen
  with its mode at 0 or its duty at or above \<open>FULL_SPEED_MIN_RAW\<close>.\<close>

theorem hand_back_is_confirmed:
  assumes "hand_back h enable_path pwm_path action w = (out, w')"
  shows "(out = Restored \<longrightarrow> restored_evidence h enable_path pwm_path action w') \<and>
         (out = RunsFullSpeed \<longrightarrow> full_speed_evidence h enable_path pwm_path w')"
  using assms restore_True [of h enable_path pwm_path action w] full_speed_outcome [of h enable_path pwm_path]
  unfolding hand_back_def by (auto split: prod.splits bool.splits)

lemma from_reading_cases:
  "from_reading chip enable raw \<noteq> Mode 1"
  "is_nzxt_kraken3_chip chip \<Longrightarrow> from_reading chip enable raw \<noteq> Mode 2"
  "from_reading chip enable raw = WriteOnlyMode m \<Longrightarrow> chip = DELL_SMM_CHIP \<and> enable = None"
  by (auto simp: from_reading_def driver_rule_def split: option.splits if_splits)

section \<open>The replay of the record\<close>

text \<open>
  The reader of the record is the loop of \<open>packaging/control-ofc-restore-auto.sh\<close>: complete lines only, fields
  separated by runs of tabs, and only lines that name the two files of one \<open>pwmN\<close> below the sysfs root.
\<close>

definition is_pwm_file :: "string \<Rightarrow> bool" where
  "is_pwm_file p =
     (case rsplit_once CHR ''/'' p of
        None \<Rightarrow> False
      | Some (_, b) \<Rightarrow> (case strip_prefix ''pwm'' b of None \<Rightarrow> False | Some ds \<Rightarrow> ds \<noteq> [] \<and> list_all is_digit ds))"

definition replay_action :: "string \<Rightarrow> string \<Rightarrow> HandBack option" where
  "replay_action kind value =
     (if kind \<in> {''mode'', ''write-only'', ''manual''} then
        (if value \<noteq> [] \<and> length value \<le> 3 \<and> list_all is_digit value \<and> dec_val value \<le> 255
         then Some (if kind = ''mode'' then Mode (dec_val value)
                    else if kind = ''write-only'' then WriteOnlyMode (dec_val value)
                    else Manual (dec_val value))
         else Some FullSpeed)
      else if kind = ''full'' then Some FullSpeed else None)"

definition replay_line :: "string \<Rightarrow> (string \<Rightarrow> bool) \<Rightarrow> string \<Rightarrow> (string \<times> string \<times> HandBack) option" where
  "replay_line sysfs_root present line =
     (case filter (\<lambda>s. s \<noteq> []) (split_on tab line) of
        enable # pwm # kind # rest \<Rightarrow>
          if hd enable \<noteq> CHR ''#'' \<and> prefix (sysfs_root @ ''/'') pwm \<and> enable = pwm @ ''_enable'' \<and> is_pwm_file pwm \<and> present enable
          then map_option (\<lambda>a. (enable, pwm, a)) (replay_action kind (tl (concat (map ((#) tab) rest))))
          else None
      | _ \<Rightarrow> None)"

definition replay_plan :: "string \<Rightarrow> (string \<Rightarrow> bool) \<Rightarrow> string \<Rightarrow> (string \<times> string \<times> HandBack) list" where
  "replay_plan sysfs_root present body = List.map_filter (replay_line sysfs_root present) (butlast (split_on newline body))"

fun action_ok :: "HandBack \<Rightarrow> bool" where
  "action_ok (Mode m) = (m \<le> 255)"
| "action_ok (WriteOnlyMode m) = (m \<le> 255)"
| "action_ok (Manual raw) = (raw \<le> 255)"
| "action_ok FullSpeed = True"

definition entry_ok :: "string \<Rightarrow> (string \<Rightarrow> bool) \<Rightarrow> Entry \<Rightarrow> bool" where
  "entry_ok sysfs_root present e =
     (tab \<notin> set (en_pwm_path e) \<and> newline \<notin> set (en_pwm_path e) \<and> hd (en_enable_path e) \<noteq> CHR ''#'' \<and>
      en_enable_path e = en_pwm_path e @ ''_enable'' \<and> prefix (sysfs_root @ ''/'') (en_pwm_path e) \<and>
      is_pwm_file (en_pwm_path e) \<and> present (en_enable_path e) \<and> action_ok (entry_action e))"

lemma show_nat_length: "n < 1000 \<Longrightarrow> length (show_nat n) \<le> 3"
  by (subst show_nat.simps, simp, subst show_nat.simps, simp, subst show_nat.simps, simp)

lemma show_nat_clean: "c \<in> {tab, newline} \<Longrightarrow> c \<notin> set (show_nat n)"
  using show_nat_spec [of n] by (auto simp: list_all_iff is_digit_def)

lemma record_columns_spec:
  assumes "action_ok a" "record_columns a = (kind, value)"
  shows "replay_action kind value = Some a" "kind \<noteq> []" "value \<noteq> []"
    "c \<in> {tab, newline} \<Longrightarrow> c \<notin> set kind \<and> c \<notin> set value"
  using assms show_nat_spec show_nat_length [of "dec_val value"] show_nat_clean [of c]
  by (cases a; auto simp: replay_action_def)+

lemma entry_paths_clean:
  assumes "entry_ok sysfs_root present e" "c \<in> {tab, newline}"
  shows "c \<notin> set (en_enable_path e)" "c \<notin> set (en_pwm_path e)"
  using assms by (auto simp: entry_ok_def)

lemma entry_paths_nonempty:
  assumes "entry_ok sysfs_root present e"
  shows "en_enable_path e \<noteq> []" "en_pwm_path e \<noteq> []"
  using assms by (auto simp: entry_ok_def is_pwm_file_def rsplit_once_def)

lemma replay_line_fields:
  assumes "split_on tab line = [en, pw, kind, v]" "pw \<noteq> []" "kind \<noteq> []" "v \<noteq> []"
    and "hd en \<noteq> CHR ''#''" "prefix (sysfs_root @ ''/'') pw" "en = pw @ ''_enable''" "is_pwm_file pw" "present en"
  shows "replay_line sysfs_root present line = map_option (\<lambda>a. (en, pw, a)) (replay_action kind v)"
  using assms by (simp add: replay_line_def)

lemma record_line_replay:
  assumes "entry_ok sysfs_root present e"
  obtains line where "record_line e = line @ [newline]" "newline \<notin> set line"
    "replay_line sysfs_root present line = Some (en_enable_path e, en_pwm_path e, entry_action e)"
proof -
  obtain kind v where c: "record_columns (entry_action e) = (kind, v)" by (rule prod.exhaust)
  have a: "action_ok (entry_action e)" using assms by (simp add: entry_ok_def)
  note k = record_columns_spec [OF a c]
  note p = entry_paths_clean [OF assms] entry_paths_nonempty [OF assms]
  let ?line = "en_enable_path e @ [tab] @ en_pwm_path e @ [tab] @ kind @ [tab] @ v"
  have "hd (en_enable_path e) \<noteq> CHR ''#''" "prefix (sysfs_root @ ''/'') (en_pwm_path e)"
      "en_enable_path e = en_pwm_path e @ ''_enable''" "is_pwm_file (en_pwm_path e)" "present (en_enable_path e)"
    using assms unfolding entry_ok_def by blast+
  note fields = this
  have "split_on tab ?line = [en_enable_path e, en_pwm_path e, kind, v]"
    using p k by (simp add: split_on_snoc split_on_whole)
  then have "replay_line sysfs_root present ?line = Some (en_enable_path e, en_pwm_path e, entry_action e)"
    using replay_line_fields [where present = present and sysfs_root = sysfs_root, OF _ p(4) k(2,3) fields] k(1) by simp
  moreover have "record_line e = ?line @ [newline]"
    using p c by (simp add: record_line_def)
  moreover have "newline \<notin> set ?line" using p k by simp
  ultimately show thesis using that by blast
qed

lemma header_line_skipped: "replay_line sysfs_root present RECORD_HEADER = None"
proof -
  have "tab \<notin> set RECORD_HEADER" by (simp add: RECORD_HEADER_def)
  then show ?thesis by (simp add: replay_line_def split_on_whole)
qed

lemma replay_lines:
  "list_all (entry_ok sysfs_root present) es \<Longrightarrow>
     List.map_filter (replay_line sysfs_root present) (butlast (split_on newline (concat (map record_line es)))) =
     map (\<lambda>e. (en_enable_path e, en_pwm_path e, entry_action e)) es"
proof (induction es)
  case (Cons e es)
  then obtain line where l: "record_line e = line @ [newline]" "newline \<notin> set line"
    "replay_line sysfs_root present line = Some (en_enable_path e, en_pwm_path e, entry_action e)"
    by (auto elim: record_line_replay)
  then show ?case using Cons l by (simp add: split_on_snoc)
qed simp

lemma replay_render:
  assumes "list_all (\<lambda>(i, e). en_taken e \<longrightarrow> entry_ok sysfs_root present e) entries"
  shows "replay_plan sysfs_root present (render_record entries) =
    map (\<lambda>e. (en_enable_path e, en_pwm_path e, entry_action e))
      (sort_key en_enable_path (filter en_taken (map snd entries)))" (is "_ = map _ ?es")
proof -
  have "list_all (entry_ok sysfs_root present) ?es" using assms by (auto simp: list_all_iff)
  moreover have "newline \<notin> set RECORD_HEADER" by (simp add: RECORD_HEADER_def)
  ultimately show ?thesis
    using replay_lines [of sysfs_root present ?es]
    by (simp add: replay_plan_def render_record_def split_on_snoc header_line_skipped)
qed

section \<open>Histories of the ledger\<close>

datatype LedgerOp = LgTake string "HandBack option" | LgBack string | LgRetry | LgFailed string

fun ledger_step :: "'w Host \<Rightarrow> LedgerOp \<Rightarrow> HandBackLedger \<times> 'w \<Rightarrow> HandBackLedger \<times> 'w" where
  "ledger_step h (LgTake i original) (lg, w) = note_take h i original lg w"
| "ledger_step h (LgBack i) (lg, w) = note_handed_back h i lg w"
| "ledger_step h LgRetry (lg, w) = retry_record_if_failed h lg w"
| "ledger_step h (LgFailed i) (lg, w) = (snd (note_hand_back_failed i lg), w)"

definition ledger_run :: "'w Host \<Rightarrow> string \<Rightarrow> PwmHeaderDescriptor list \<Rightarrow> LedgerOp list \<Rightarrow> 'w \<Rightarrow> HandBackLedger \<times> 'w" where
  "ledger_run h path headers ops w = fold (ledger_step h) ops (set_record_path h path (ledger_new headers) w)"

text \<open>What the file system must do for the record: a successful replacement is there, a failed one
  changed nothing.\<close>

definition replaces :: "'w Host \<Rightarrow> ('w \<Rightarrow> string \<Rightarrow> string option) \<Rightarrow> bool" where
  "replaces h disk =
     (\<forall>p s w r w'. write_replacing h p s w = (r, w') \<longrightarrow> (\<forall>q. disk w' q = (if r \<and> q = p then Some s else disk w q)))"

definition record_inv :: "('w \<Rightarrow> string \<Rightarrow> string option) \<Rightarrow> string \<Rightarrow> HandBackLedger \<times> 'w \<Rightarrow> bool" where
  "record_inv disk path = (\<lambda>(lg, w).
     hm_ok (ls_entries (lg_state lg)) \<and> ls_record_path (lg_state lg) = Some path \<and>
     lg_record_stale lg = ls_record_error_logged (lg_state lg) \<and>
     (\<not> lg_record_stale lg \<longrightarrow> disk w path = Some (render_record (ls_entries (lg_state lg)))))"

lemma persist_inv:
  assumes "replaces h disk" "hm_ok (ls_entries (lg_state lg))" "ls_record_path (lg_state lg) = Some path"
  shows "record_inv disk path (persist h lg w) \<and>
    ls_entries (lg_state (fst (persist h lg w))) = ls_entries (lg_state lg)"
  using assms unfolding replaces_def persist_def write_record_def record_inv_def
  by (auto split: prod.splits)

lemma lg_put_state [simp]:
  "ls_entries (lg_state (lg_put i e lg)) = hm_insert i e (ls_entries (lg_state lg))"
  "ls_record_path (lg_state (lg_put i e lg)) = ls_record_path (lg_state lg)"
  "lg_record_stale (lg_put i e lg) = lg_record_stale lg"
  "ls_record_error_logged (lg_state (lg_put i e lg)) = ls_record_error_logged (lg_state lg)"
  by (simp_all add: lg_put_def)

lemma sort_key_map: "sort_key f (map g xs) = map g (sort_key (\<lambda>x. f (g x)) xs)"
proof (induction xs)
  case (Cons x xs)
  have "insort_key f (g x) (map g ys) = map g (insort_key (\<lambda>x. f (g x)) x ys)" for ys
    by (induction ys) auto
  with Cons show ?case by simp
qed simp

lemma render_record_map:
  assumes "\<And>e. en_enable_path (f e) = en_enable_path e" "\<And>e. en_taken (f e) = en_taken e" "\<And>e. record_line (f e) = record_line e"
  shows "render_record (map (\<lambda>(k, e). (k, if k = i then f e else e)) es) = render_record es"
proof -
  let ?g = "\<lambda>p. if fst p = i then f (snd p) else snd p"
  have "sort_key en_enable_path (filter en_taken (map snd (map (\<lambda>(k, e). (k, if k = i then f e else e)) es))) =
      map ?g (sort_key (\<lambda>p. en_enable_path (snd p)) (filter (\<lambda>p. en_taken (snd p)) es))"
    by (simp add: filter_map comp_def case_prod_beta assms sort_key_map if_distrib cong: if_cong)
  moreover have "sort_key en_enable_path (filter en_taken (map snd es)) =
      map snd (sort_key (\<lambda>p. en_enable_path (snd p)) (filter (\<lambda>p. en_taken (snd p)) es))"
    by (simp add: filter_map comp_def sort_key_map)
  ultimately show ?thesis
    by (simp add: render_record_def comp_def case_prod_beta assms if_distrib cong: if_cong)
qed

lemma update_map:
  "hm_ok es \<Longrightarrow> map_of es i = Some e \<Longrightarrow> hm_insert i (f e) es = map (\<lambda>(k, e). (k, if k = i then f e else e)) es"
proof (induction es)
  case (Cons x es)
  have "map (\<lambda>(k, e). (k, if k = i then f e else e)) es = es" if "i \<notin> fst ` set es" for es
    using that by (induction es) auto
  with Cons show ?case by (cases x) (auto simp: hm_insert_def hm_ok_def split: if_splits)
qed simp

lemma failed_render:
  assumes "hm_ok es" "map_of es i = Some e"
  shows "render_record (hm_insert i (e\<lparr>en_failure_logged := b\<rparr>) es) = render_record es"
  unfolding update_map [OF assms, of "\<lambda>e. e\<lparr>en_failure_logged := b\<rparr>"]
  by (rule render_record_map) (simp_all add: record_line_def entry_action_def)

lemma ledger_step_inv:
  assumes "replaces h disk" "record_inv disk path st"
  shows "record_inv disk path (ledger_step h op st)"
proof -
  obtain lg w where st: "st = (lg, w)" by (rule prod.exhaust)
  have keep: "record_inv disk path (persist h (lg_put i e lg) w)" for i e
    using assms persist_inv [OF assms(1), of "lg_put i e lg" path w] by (simp add: st record_inv_def)
  have again: "record_inv disk path (persist h lg w)"
    using assms persist_inv [OF assms(1), of lg path w] by (simp add: st record_inv_def)
  show ?thesis
  proof (cases op)
    case (LgFailed i)
    then show ?thesis using assms(2) failed_render
      by (auto simp: st note_hand_back_failed_def record_inv_def lg_get_def split: option.splits)
  qed (use assms(2) keep again in \<open>auto simp: st note_take_def note_handed_back_def retry_record_if_failed_def Let_def
         split: option.splits\<close>)
qed

lemma map_filter_hm_collect: "hm_ok (hm_collect ps)"
proof -
  have "hm_ok m \<Longrightarrow> hm_ok (fold (\<lambda>(k, v) m. hm_insert k v m) ps m)" for m :: "('a, 'b) hmap"
    by (induction ps arbitrary: m) auto
  then show ?thesis by (simp add: hm_collect_def)
qed

lemma ledger_run_inv:
  assumes "replaces h disk"
  shows "record_inv disk path (ledger_run h path headers ops w)"
proof -
  have start: "record_inv disk path (set_record_path h path (ledger_new headers) w)"
    using persist_inv [OF assms] by (simp add: set_record_path_def ledger_new_def map_filter_hm_collect)
  have "record_inv disk path s \<Longrightarrow> record_inv disk path (fold (ledger_step h) ops s)" for s
    by (induction ops arbitrary: s) (use ledger_step_inv [OF assms] in auto)
  then show ?thesis using start by (simp add: ledger_run_def)
qed

text \<open>C25: a crash loses no header. After any history of takes, hand-backs and failures, unless the last
  write of the record failed, the record on disk replays to exactly the headers the daemon holds now, in
  the order of their files, each with what it gets back: the original found before its first take, or full speed
  when none was read. (Its paths are of the sysfs form and its values are bytes.)\<close>

theorem crash_record_is_complete:
  assumes "replaces h disk" "ledger_run h path headers ops w = (lg, w')" "\<not> lg_record_stale lg"
    and "list_all (\<lambda>(i, e). en_taken e \<longrightarrow> entry_ok sysfs_root present e) (ls_entries (lg_state lg))"
  shows "\<exists>body. disk w' path = Some body \<and>
    replay_plan sysfs_root present body =
      map (\<lambda>e. (en_enable_path e, en_pwm_path e, entry_action e))
        (sort_key en_enable_path (filter en_taken (map snd (ls_entries (lg_state lg)))))"
  using ledger_run_inv [OF assms(1), of path headers ops w] assms(2,3) replay_render [OF assms(4)]
  by (auto simp: record_inv_def)

text \<open>The effect of a step on one entry.\<close>

fun entry_step :: "string \<Rightarrow> LedgerOp \<Rightarrow> Entry \<Rightarrow> Entry" where
  "entry_step i (LgTake j original) e =
     (if j = i then e\<lparr>en_original := (case en_original e of Some a \<Rightarrow> Some a | None \<Rightarrow> original), en_taken := True\<rparr> else e)"
| "entry_step i (LgBack j) e =
     (if j = i \<and> en_taken e then e\<lparr>en_taken := False, en_failure_logged := False\<rparr> else e)"
| "entry_step i LgRetry e = e"
| "entry_step i (LgFailed j) e = (if j = i then e\<lparr>en_failure_logged := True\<rparr> else e)"

lemma persist_entries [simp]: "lg_get (fst (persist h lg w)) i = lg_get lg i"
  by (auto simp: persist_def write_record_def lg_get_def split: prod.splits option.splits)

lemma lg_get_put [simp]: "lg_get (lg_put i e lg) j = (if j = i then Some e else lg_get lg j)"
  by (simp add: lg_get_def)

lemma ledger_step_get: "lg_get (fst (ledger_step h op (lg, w))) i = map_option (entry_step i op) (lg_get lg i)"
  by (cases op; cases "lg_get lg i") (auto simp: note_take_def note_handed_back_def note_hand_back_failed_def
      retry_record_if_failed_def Let_def split: option.splits)

lemma ledger_fold_get:
  "lg_get (fst (fold (ledger_step h) ops st)) i = map_option (fold (entry_step i) ops) (lg_get (fst st) i)"
proof (induction ops arbitrary: st)
  case (Cons op ops)
  then show ?case using ledger_step_get [of h op "fst st" "snd st" i]
    by (simp add: option.map_comp comp_def)
qed (simp add: id_def option.map_ident)

fun first_original :: "string \<Rightarrow> LedgerOp list \<Rightarrow> HandBack option" where
  "first_original i [] = None"
| "first_original i (LgTake j (Some a) # ops) = (if j = i then Some a else first_original i ops)"
| "first_original i (_ # ops) = first_original i ops"

fun held_after :: "string \<Rightarrow> LedgerOp \<Rightarrow> bool \<Rightarrow> bool" where
  "held_after i (LgTake j _) b = (b \<or> j = i)"
| "held_after i (LgBack j) b = (b \<and> j \<noteq> i)"
| "held_after i _ b = b"

lemma entry_fold:
  "en_original (fold (entry_step i) ops e) = (case en_original e of Some a \<Rightarrow> Some a | None \<Rightarrow> first_original i ops) \<and>
   en_taken (fold (entry_step i) ops e) = fold (held_after i) ops (en_taken e)"
proof (induction ops arbitrary: e)
  case (Cons op ops)
  show ?case
  proof (cases op)
    case (LgTake j original)
    then show ?thesis using Cons.IH [of "entry_step i op e"] by (cases original) (auto split: option.splits)
  qed (use Cons.IH [of "entry_step i op e"] in \<open>auto split: option.splits\<close>)
qed (simp split: option.split)

lemma ledger_new_get:
  "lg_get (ledger_new headers) i = Some e \<Longrightarrow> en_original e = None \<and> \<not> en_taken e"
  by (auto simp: lg_get_def ledger_new_def ledger_entry_def map_of_hm_collect List.map_filter_def
      dest!: map_of_SomeD split: if_splits option.splits)

text \<open>Lemma: what a header gets back is what it was doing before the daemon first touched it. After any
  history, a tracked header is held exactly when its last take was not yet answered by a hand-back, and
  its recorded original is the first reading that a take of it recorded: no later take, reclaim or
  failure overwrites it.\<close>

theorem original_is_first_reading:
  assumes "ledger_run h path headers ops w = (lg, w')" "lg_get lg i = Some e"
  shows "en_original e = first_original i ops \<and> en_taken e = fold (held_after i) ops False"
proof -
  have "lg_get (fst (set_record_path h path (ledger_new headers) w)) i = lg_get (ledger_new headers) i"
    unfolding set_record_path_def persist_entries by (simp add: lg_get_def)
  then have "lg_get lg i = map_option (fold (entry_step i) ops) (lg_get (ledger_new headers) i)"
    using ledger_fold_get [of h ops "set_record_path h path (ledger_new headers) w" i] assms(1)
    by (simp add: ledger_run_def)
  then obtain e0 where "lg_get (ledger_new headers) i = Some e0" "e = fold (entry_step i) ops e0"
    using assms(2) by (cases "lg_get (ledger_new headers) i") auto
  then show ?thesis using entry_fold [of i ops e0] ledger_new_get [of headers i e0] by simp
qed

section \<open>A host with plain files\<close>

text \<open>Files that exist hold what was last written to them; the record may be written anywhere.\<close>

record FileHost =
  fh_files :: "(string, string) hmap"
  fh_begun :: bool

definition plain_host :: "FileHost Host" where
  "plain_host =
     \<lparr>write_file = (\<lambda>p v w. if hm_contains (fh_files w) p then (Inr (), w\<lparr>fh_files := hm_insert p v (fh_files w)\<rparr>)
        else (Inl (WriteError p), w)),
      read_file = (\<lambda>p w. (case map_of (fh_files w) p of Some v \<Rightarrow> Inr v | None \<Rightarrow> Inl (ReadError p), w)),
      write_replacing = (\<lambda>p v w. (True, w\<lparr>fh_files := hm_insert p v (fh_files w)\<rparr>)),
      hand_back_begun = fh_begun,
      begin_hand_back = (\<lambda>w. w\<lparr>fh_begun := True\<rparr>)\<rparr>"

definition plain_files :: "FileHost \<Rightarrow> string \<Rightarrow> string option" where
  "plain_files w = map_of (fh_files w)"

lemma plain_host_replaces: "replaces plain_host plain_files"
  by (auto simp: replaces_def plain_host_def plain_files_def)

definition sample_header :: PwmHeaderDescriptor where
  "sample_header = \<lparr>hd_id = ''hwmon:it8696:pwm1'', hd_label = ''CPU_FAN'', hd_chip_name = ''it8696'', hd_device_id = ''it87.2624'',
     hd_pwm_index = 1, hd_supports_enable = True, hd_pwm_path = ''/sys/pwm1'', hd_enable_path = Some ''/sys/pwm1_enable'',
     hd_rpm_path = None, hd_is_writable = True, hd_pwm_mode = None, hd_role = Unknown,
     hd_role_source = NoEvidence\<rparr>"

definition sample_host :: FileHost where
  "sample_host = \<lparr>fh_files = [(''/sys/pwm1'', ''128''), (''/sys/pwm1_enable'', ''2'')], fh_begun = False\<rparr>"

theorem hand_back_is_confirmed_witness:
  "fst (hand_back plain_host ''/sys/pwm1_enable'' ''/sys/pwm1'' (Mode 5) sample_host) = Restored \<and>
   (\<exists>w0. read_u8 plain_host ''/sys/pwm1_enable'' w0 =
      (Some 5, snd (hand_back plain_host ''/sys/pwm1_enable'' ''/sys/pwm1'' (Mode 5) sample_host)))"
proof -
  have r: "fst (hand_back plain_host ''/sys/pwm1_enable'' ''/sys/pwm1'' (Mode 5) sample_host) = Restored"
    by code_simp
  from hand_back_is_confirmed [OF prod.collapse [symmetric], of plain_host "''/sys/pwm1_enable''" "''/sys/pwm1''" "Mode 5" sample_host] r
  show ?thesis by simp
qed

definition sample_run :: "HandBackLedger \<times> FileHost" where
  "sample_run = ledger_run plain_host ''/run/record'' [sample_header]
     [LgTake ''hwmon:it8696:pwm1'' (Some (Mode 2)), LgTake ''hwmon:it8696:pwm1'' (Some (Mode 5))] sample_host"

lemma sample_run_entries:
  "\<not> lg_record_stale (fst sample_run) \<and>
   ls_entries (lg_state (fst sample_run)) =
     [(''hwmon:it8696:pwm1'', \<lparr>en_enable_path = ''/sys/pwm1_enable'', en_pwm_path = ''/sys/pwm1'', en_original = Some (Mode 2),
        en_taken = True, en_failure_logged = False\<rparr>)]"
  by code_simp

theorem crash_record_is_complete_witness:
  "\<exists>body. plain_files (snd sample_run) ''/run/record'' = Some body \<and>
     replay_plan ''/sys'' (\<lambda>_. True) body = [(''/sys/pwm1_enable'', ''/sys/pwm1'', Mode 2)]"
proof -
  have "is_pwm_file ''/sys/pwm1''" by code_simp
  then show ?thesis
    using crash_record_is_complete [OF plain_host_replaces, of "''/run/record''" "[sample_header]"
        "[LgTake ''hwmon:it8696:pwm1'' (Some (Mode 2)), LgTake ''hwmon:it8696:pwm1'' (Some (Mode 5))]" sample_host
        "fst sample_run" "snd sample_run" "''/sys''" "\<lambda>_. True"] sample_run_entries
    by (simp add: sample_run_def [symmetric] entry_ok_def entry_action_def)
qed

theorem original_is_first_reading_witness:
  "\<exists>e. lg_get (fst sample_run) ''hwmon:it8696:pwm1'' = Some e \<and> en_original e = Some (Mode 2) \<and> en_taken e"
  using original_is_first_reading [of plain_host "''/run/record''" "[sample_header]"
      "[LgTake ''hwmon:it8696:pwm1'' (Some (Mode 2)), LgTake ''hwmon:it8696:pwm1'' (Some (Mode 5))]" sample_host
      "fst sample_run" "snd sample_run" "''hwmon:it8696:pwm1''"] sample_run_entries
  by (simp add: sample_run_def [symmetric] lg_get_def)

end
