(* ===== verification/Hwmon_Control.thy ===== *)
theory Hwmon_Control
  imports Hand_Back Lease Write_Slot "HOL-Library.Product_Lexorder"
begin

text \<open>
  The hwmon write path (\<open>hwmon/pwm_control.rs\<close>) with the part of the state cache it shares
  (\<open>health/cache.rs\<close>). An operation runs under the controller's lock, so it is one function of the
  controller, the cache and the host; the host is advanced by every file access in the order the code
  makes them. \<open>now\<close> is the clock of the call.
\<close>

section \<open>The shared cache\<close>

record HwmonFanState =
  hf_id :: string
  hf_rpm :: "nat option"
  hf_last_commanded_pwm :: "u8 option"
  hf_pwm_readback_pct :: "u8 option"
  hf_pwm_commanded_pct :: "u8 option"
  hf_pwm_enable_mode :: "u8 option"
  hf_alarm :: "bool option"
  hf_updated_at :: instant

record DutyReconciliation =
  dr_corrections :: u32
  dr_not_holding :: bool

record HwmonCache =
  hc_state :: DaemonState
  hc_resume_detected :: bool
  hc_fans :: "(string, HwmonFanState) hmap"
  hc_seen_spinning :: "string set"
  hc_diagnostic_commanded :: "(string, u64) hmap"
  hc_reconciliation :: "(string, DutyReconciliation) hmap"
  hc_abandoned :: "string set"
  hc_exit_floor_pct :: u8

definition take_resume_flag :: "HwmonCache \<Rightarrow> bool \<times> HwmonCache" where
  "take_resume_flag c = (hc_resume_detected c, c\<lparr>hc_resume_detected := False\<rparr>)"

definition verify_active :: "instant \<Rightarrow> HwmonCache \<Rightarrow> bool" where
  "verify_active now c = verify_active_at now (hc_state c)"

text \<open>\<open>None\<close> keeps what the other producer of the field left.\<close>

definition keep_opt :: "'a option \<Rightarrow> 'a option \<Rightarrow> 'a option" where
  "keep_opt new old = (case new of None \<Rightarrow> old | Some x \<Rightarrow> Some x)"

definition merge_hwmon_fan :: "HwmonFanState \<Rightarrow> HwmonCache \<Rightarrow> HwmonCache" where
  "merge_hwmon_fan fan c =
     (let fan = (case map_of (hc_fans c) (hf_id fan) of
            None \<Rightarrow> fan
          | Some old \<Rightarrow> fan\<lparr>hf_alarm := keep_opt (hf_alarm fan) (hf_alarm old),
                            hf_pwm_enable_mode := keep_opt (hf_pwm_enable_mode fan) (hf_pwm_enable_mode old),
                            hf_pwm_readback_pct := keep_opt (hf_pwm_readback_pct fan) (hf_pwm_readback_pct old),
                            hf_pwm_commanded_pct := keep_opt (hf_pwm_commanded_pct fan) (hf_pwm_commanded_pct old)\<rparr>);
          seen = (case hf_rpm fan of Some rpm \<Rightarrow> if 0 < rpm then insert (hf_id fan) (hc_seen_spinning c) else hc_seen_spinning c
                  | None \<Rightarrow> hc_seen_spinning c)
      in c\<lparr>hc_seen_spinning := seen, hc_fans := hm_insert (hf_id fan) fan (hc_fans c)\<rparr>)"

definition record_hwmon_command :: "HwmonFanState \<Rightarrow> bool \<Rightarrow> HwmonCache \<Rightarrow> HwmonCache" where
  "record_hwmon_command fan by_diagnostic c =
     merge_hwmon_fan fan (c\<lparr>hc_diagnostic_commanded :=
       (if by_diagnostic then hm_insert (hf_id fan) (ds_verify_epoch (hc_state c)) (hc_diagnostic_commanded c)
        else hm_remove (hf_id fan) (hc_diagnostic_commanded c))\<rparr>)"

definition clear_hwmon_commanded :: "string \<Rightarrow> HwmonCache \<Rightarrow> HwmonCache" where
  "clear_hwmon_commanded i c =
     c\<lparr>hc_diagnostic_commanded := hm_remove i (hc_diagnostic_commanded c),
       hc_fans := (case map_of (hc_fans c) i of
          None \<Rightarrow> hc_fans c | Some fan \<Rightarrow> hm_insert i (fan\<lparr>hf_pwm_commanded_pct := None\<rparr>) (hc_fans c))\<rparr>"

definition set_hwmon_duty_reconciliation :: "string \<Rightarrow> DutyReconciliation \<Rightarrow> HwmonCache \<Rightarrow> HwmonCache" where
  "set_hwmon_duty_reconciliation i r c = c\<lparr>hc_reconciliation := hm_insert i r (hc_reconciliation c)\<rparr>"

definition clear_hwmon_duty_not_holding :: "string list \<Rightarrow> HwmonCache \<Rightarrow> HwmonCache" where
  "clear_hwmon_duty_not_holding ids c =
     c\<lparr>hc_reconciliation := fold (\<lambda>i m. case map_of m i of None \<Rightarrow> m | Some r \<Rightarrow> hm_insert i (r\<lparr>dr_not_holding := False\<rparr>) m)
        ids (hc_reconciliation c)\<rparr>"

definition note_abandoned_by_diagnostic :: "string \<Rightarrow> HwmonCache \<Rightarrow> HwmonCache" where
  "note_abandoned_by_diagnostic i c = c\<lparr>hc_abandoned := insert i (hc_abandoned c)\<rparr>"

definition abandoned_by_diagnostic :: "HwmonCache \<Rightarrow> string list" where
  "abandoned_by_diagnostic c = sorted_list_of_set (hc_abandoned c)"

definition is_abandoned_by_diagnostic :: "string \<Rightarrow> HwmonCache \<Rightarrow> bool" where
  "is_abandoned_by_diagnostic i c = (i \<in> hc_abandoned c)"

definition clear_abandoned_by_diagnostic :: "string \<Rightarrow> HwmonCache \<Rightarrow> HwmonCache" where
  "clear_abandoned_by_diagnostic i c = c\<lparr>hc_abandoned := hc_abandoned c - {i}\<rparr>"

definition set_exit_floor_pct :: "u8 \<Rightarrow> HwmonCache \<Rightarrow> HwmonCache" where
  "set_exit_floor_pct pct c = c\<lparr>hc_exit_floor_pct := min pct 100\<rparr>"

section \<open>Duty drift\<close>

definition READBACK_TOLERANCE_PCT :: u8 where
  "READBACK_TOLERANCE_PCT = 2"

definition DUTY_CORRECTION_ATTEMPTS :: u8 where
  "DUTY_CORRECTION_ATTEMPTS = 3"

record DriftState =
  df_corrections :: u8
  df_not_holding :: bool
  df_in_episode :: bool
  df_give_up_logged :: bool

definition drift_default :: DriftState where
  "drift_default = \<lparr>df_corrections = 0, df_not_holding = False, df_in_episode = False, df_give_up_logged = False\<rparr>"

definition after_plain_write :: "DriftState \<Rightarrow> DriftState" where
  "after_plain_write d = d\<lparr>df_corrections := 0, df_not_holding := False\<rparr>"

datatype DriftAction = DriftCoalesce | DriftRecovered bool | DriftCorrect bool | DriftGiveUp bool | DriftHold

definition abs_diff :: "u8 \<Rightarrow> u8 \<Rightarrow> u8" where
  "abs_diff a b = (if a < b then b - a else a - b)"

definition reconcile_decision :: "u8 \<Rightarrow> u8 option \<Rightarrow> DriftState \<Rightarrow> DriftAction \<times> DriftState" where
  "reconcile_decision expected_pct readback_pct state =
     (case readback_pct of
        None \<Rightarrow> (DriftCoalesce, state)
      | Some read \<Rightarrow>
          if abs_diff read expected_pct \<le> READBACK_TOLERANCE_PCT then
            (if df_in_episode state
             then (DriftRecovered (df_not_holding state \<or> df_give_up_logged state), drift_default)
             else (DriftCoalesce, state))
          else if df_not_holding state then (DriftHold, state)
          else if DUTY_CORRECTION_ATTEMPTS \<le> df_corrections state then
            (DriftGiveUp (\<not> df_give_up_logged state), state\<lparr>df_not_holding := True, df_give_up_logged := True\<rparr>)
          else (DriftCorrect (\<not> df_in_episode state),
                state\<lparr>df_corrections := df_corrections state + 1, df_in_episode := True\<rparr>))"

section \<open>The watchdog's log\<close>

definition WATCHDOG_SUMMARY_INTERVAL :: duration where
  "WATCHDOG_SUMMARY_INTERVAL = secs 60"

record WatchdogLogState =
  wl_first_warn_emitted :: bool
  wl_last_emit_at :: "instant option"
  wl_count_at_last_summary :: u64

definition watchdog_default :: WatchdogLogState where
  "watchdog_default = \<lparr>wl_first_warn_emitted = False, wl_last_emit_at = None, wl_count_at_last_summary = 0\<rparr>"

datatype WatchdogLogAction = LogWarn | LogDebug | LogSummary u64 u64

definition decide_watchdog_log_action ::
    "instant \<Rightarrow> duration \<Rightarrow> u64 \<Rightarrow> WatchdogLogState \<Rightarrow> WatchdogLogAction \<times> WatchdogLogState" where
  "decide_watchdog_log_action now summary_interval count s =
     (if \<not> wl_first_warn_emitted s then
        (LogWarn, \<lparr>wl_first_warn_emitted = True, wl_last_emit_at = Some now, wl_count_at_last_summary = count\<rparr>)
      else if (case wl_last_emit_at s of Some t \<Rightarrow> summary_interval \<le> now - t | None \<Rightarrow> False) then
        (LogSummary (count - wl_count_at_last_summary s) count,
         s\<lparr>wl_last_emit_at := Some now, wl_count_at_last_summary := count\<rparr>)
      else (LogDebug, s))"

section \<open>The controller\<close>

definition PWM_ENABLE_MANUAL :: string where
  "PWM_ENABLE_MANUAL = ''1''"

definition SHARED_REPORT_CHIPS :: "string list" where
  "SHARED_REPORT_CHIPS = [''arctic_fan'']"

definition is_shared_report_chip :: "string \<Rightarrow> bool" where
  "is_shared_report_chip chip_name = (chip_name \<in> set SHARED_REPORT_CHIPS)"

definition PRIME_PCT :: u8 where
  "PRIME_PCT = 100"

record HwmonSetPwmResult =
  sr_header_id :: string
  sr_pwm_percent :: u8
  sr_raw_value :: u8

datatype ValidationReason = UnknownHeader | PercentOutOfRange

datatype HwmonControlError =
  HeLease LeaseError | HeValidation ValidationReason | HeHardware HwmonError | HeShuttingDown

record HeaderWriteState =
  ws_last_commanded_pct :: "u8 option"
  ws_manual_mode_set :: bool
  ws_held_pct :: "u8 option"
  ws_drift :: DriftState

definition write_state_default :: HeaderWriteState where
  "write_state_default = \<lparr>ws_last_commanded_pct = None, ws_manual_mode_set = False, ws_held_pct = None, ws_drift = drift_default\<rparr>"

record HwmonPwmController =
  hw_headers :: "(string, PwmHeaderDescriptor) hmap"
  hw_lease_manager :: LeaseManager
  hw_write_state :: "(string, HeaderWriteState) hmap"
  hw_enable_revert_counts :: "(string, u64) hmap"
  hw_enable_revert_last_at :: "(string, instant) hmap"
  hw_watchdog_log_state :: "(string, WatchdogLogState) hmap"
  hw_verify_mismatch_counts :: "(string, u64) hmap"
  hw_duty_corrections :: "(string, u32) hmap"
  hw_handback :: HandBackLedger
  hw_exit_record :: "(string, u8 option) hmap"
  hw_exit_min :: "(string, u8) hmap"
  hw_priming_suspended :: "string set"
  hw_engine_held :: "string set"
  hw_release_failure_logged :: "string set"

type_synonym 'w hw = "HwmonPwmController \<times> HwmonCache \<times> 'w"

datatype NoModeRelease = NmRaised "u8 option" u8 | NmKept "u8 option" | NmFailed u8 HwmonError

record HwmonExitFloorWrite =
  xw_header_id :: string
  xw_was_pct :: "u8 option"
  xw_target_pct :: u8
  xw_result :: "(HwmonError + unit) option"

definition hwmon_new :: "PwmHeaderDescriptor list \<Rightarrow> LeaseManager \<Rightarrow> HwmonPwmController" where
  "hwmon_new headers lm =
     \<lparr>hw_headers = hm_collect (map (\<lambda>h. (hd_id h, h)) headers), hw_lease_manager = lm, hw_write_state = [],
      hw_enable_revert_counts = [], hw_enable_revert_last_at = [], hw_watchdog_log_state = [],
      hw_verify_mismatch_counts = [], hw_duty_corrections = [], hw_handback = ledger_new headers,
      hw_exit_record = [], hw_exit_min = [], hw_priming_suspended = {}, hw_engine_held = {},
      hw_release_failure_logged = {}\<rparr>"

definition header_order :: "PwmHeaderDescriptor \<Rightarrow> string \<times> u8" where
  "header_order h = (hd_chip_name h, hd_pwm_index h)"

definition hwmon_headers :: "HwmonPwmController \<Rightarrow> PwmHeaderDescriptor list" where
  "hwmon_headers c = sort_key header_order (map snd (hw_headers c))"

definition forced_target_ids_of :: "PwmHeaderDescriptor list \<Rightarrow> string list" where
  "forced_target_ids_of headers =
     map hd_id (sort_key (\<lambda>h. is_shared_report_chip (hd_chip_name h)) (filter hd_is_writable headers))"

definition forced_target_ids :: "HwmonPwmController \<Rightarrow> string list" where
  "forced_target_ids c = forced_target_ids_of (hwmon_headers c)"

definition hw_last_commanded_pct :: "HwmonPwmController \<Rightarrow> string \<Rightarrow> u8 option" where
  "hw_last_commanded_pct c i =
     (case map_of (hw_write_state c) i of Some ws \<Rightarrow> ws_last_commanded_pct ws | None \<Rightarrow> None)"

definition duty_not_holding :: "HwmonPwmController \<Rightarrow> string \<Rightarrow> bool" where
  "duty_not_holding c i =
     (case map_of (hw_write_state c) i of Some ws \<Rightarrow> df_not_holding (ws_drift ws) | None \<Rightarrow> False)"

definition enable_revert_ages_ms :: "instant \<Rightarrow> HwmonPwmController \<Rightarrow> (string, u64) hmap" where
  "enable_revert_ages_ms now c =
     hm_collect (map (\<lambda>(i, stamp). (i, ((now - stamp) div 1000000) mod 2 ^ 64)) (hw_enable_revert_last_at c))"

definition forget_manual_mode :: "HwmonPwmController \<Rightarrow> HwmonPwmController" where
  "forget_manual_mode c = c\<lparr>hw_write_state := map (\<lambda>(i, ws). (i, ws\<lparr>ws_manual_mode_set := False\<rparr>)) (hw_write_state c)\<rparr>"

definition on_lease_released :: "HwmonPwmController \<times> HwmonCache \<Rightarrow> HwmonPwmController \<times> HwmonCache" where
  "on_lease_released = (\<lambda>(c, cache).
     (c\<lparr>hw_write_state := []\<rparr>, clear_hwmon_duty_not_holding (map fst (hw_write_state c)) cache))"

definition bump :: "(nat \<Rightarrow> nat) \<Rightarrow> string \<Rightarrow> (string, nat) hmap \<Rightarrow> (string, nat) hmap" where
  "bump inc i m = hm_insert i (inc (case map_of m i of Some n \<Rightarrow> n | None \<Rightarrow> 0)) m"

definition update_ws :: "string \<Rightarrow> (HeaderWriteState \<Rightarrow> HeaderWriteState) \<Rightarrow> HwmonPwmController \<Rightarrow> HwmonPwmController" where
  "update_ws i f c =
     (case map_of (hw_write_state c) i of
        None \<Rightarrow> c | Some ws \<Rightarrow> c\<lparr>hw_write_state := hm_insert i (f ws) (hw_write_state c)\<rparr>)"

definition entry_ws :: "string \<Rightarrow> HwmonPwmController \<Rightarrow> HeaderWriteState" where
  "entry_ws i c = (case map_of (hw_write_state c) i of Some ws \<Rightarrow> ws | None \<Rightarrow> write_state_default)"

definition publish_duty_reconciliation :: "string \<Rightarrow> HwmonPwmController \<Rightarrow> HwmonCache \<Rightarrow> HwmonCache" where
  "publish_duty_reconciliation i c cache =
     set_hwmon_duty_reconciliation i
       \<lparr>dr_corrections = (case map_of (hw_duty_corrections c) i of Some n \<Rightarrow> n | None \<Rightarrow> 0),
        dr_not_holding = duty_not_holding c i\<rparr> cache"

section \<open>Priming of shared-report devices\<close>

text \<open>\<open>Path::parent\<close> of a path without a trailing slash.\<close>

definition parent_dir :: "string \<Rightarrow> string option" where
  "parent_dir p =
     (if p = [] \<or> p = ''/'' then None
      else case rsplit_once CHR ''/'' p of
        None \<Rightarrow> Some [] | Some (a, _) \<Rightarrow> Some (if a = [] then ''/'' else a))"

definition chosen_zero :: "HwmonPwmController \<Rightarrow> string \<Rightarrow> bool" where
  "chosen_zero c i =
     (hw_last_commanded_pct c i = Some 0 \<and> (case map_of (hw_exit_min c) i of None \<Rightarrow> True | Some m \<Rightarrow> m = 0))"

fun prime_loop :: "'w Host \<Rightarrow> string \<Rightarrow> (string \<times> string) list \<Rightarrow> HwmonPwmController \<times> 'w \<Rightarrow> HwmonPwmController \<times> 'w" where
  "prime_loop h dir [] (c, w) = (c, w)"
| "prime_loop h dir ((i, path) # rest) (c, w) =
     (case read_u8 h path w of (cached, w) \<Rightarrow>
        if cached \<noteq> Some 0 then prime_loop h dir rest (c, w)
        else if chosen_zero c i then prime_loop h dir rest (c, w)
        else (case write_file h path (show_nat (percent_to_raw PRIME_PCT)) w of
            (Inr _, w) \<Rightarrow> prime_loop h dir rest (c\<lparr>hw_exit_record := hm_insert i (Some PRIME_PCT) (hw_exit_record c)\<rparr>, w)
          | (Inl _, w) \<Rightarrow>
              (c\<lparr>hw_exit_record := hm_insert i None (hw_exit_record c),
                 hw_priming_suspended := insert dir (hw_priming_suspended c)\<rparr>, w)))"

definition prime_siblings_of :: "string \<Rightarrow> string \<Rightarrow> HwmonPwmController \<Rightarrow> (string \<times> string) list" where
  "prime_siblings_of header_id dir c =
     sort (map (\<lambda>(k, h). (hd_id h, hd_pwm_path h))
       (filter (\<lambda>(k, h). hd_id h \<noteq> header_id \<and> hd_is_writable h \<and> parent_dir (hd_pwm_path h) = Some dir) (hw_headers c)))"

definition prime_shared_report_siblings :: "'w Host \<Rightarrow> string \<Rightarrow> HwmonPwmController \<times> 'w \<Rightarrow> HwmonPwmController \<times> 'w" where
  "prime_shared_report_siblings h header_id = (\<lambda>(c, w).
     case map_of (hw_headers c) header_id of
       None \<Rightarrow> (c, w)
     | Some target \<Rightarrow>
         if \<not> is_shared_report_chip (hd_chip_name target) then (c, w)
         else case parent_dir (hd_pwm_path target) of
           None \<Rightarrow> (c, w)
         | Some dir \<Rightarrow>
             if dir \<in> hw_priming_suspended c then (c, w)
             else prime_loop h dir (prime_siblings_of header_id dir c) (c, w))"

definition resume_priming_after_success :: "'w Host \<Rightarrow> string \<Rightarrow> HwmonPwmController \<times> 'w \<Rightarrow> HwmonPwmController \<times> 'w" where
  "resume_priming_after_success h header_id = (\<lambda>(c, w).
     case map_of (hw_headers c) header_id of
       None \<Rightarrow> (c, w)
     | Some hdr \<Rightarrow>
         if \<not> is_shared_report_chip (hd_chip_name hdr) then (c, w)
         else case parent_dir (hd_pwm_path hdr) of
           None \<Rightarrow> (c, w)
         | Some dir \<Rightarrow>
             if dir \<in> hw_priming_suspended c
             then prime_shared_report_siblings h header_id (c\<lparr>hw_priming_suspended := hw_priming_suspended c - {dir}\<rparr>, w)
             else (c, w))"

section \<open>Setting a duty\<close>

definition parse_u16 :: "string \<Rightarrow> nat option" where
  "parse_u16 s = (let ds = (case s of [] \<Rightarrow> [] | c # r \<Rightarrow> if c = CHR ''+'' then r else s) in
     if ds \<noteq> [] \<and> list_all is_digit ds \<and> dec_val ds \<le> 65535 then Some (dec_val ds) else None)"

definition read_rpm :: "'w Host \<Rightarrow> string option \<Rightarrow> 'w \<Rightarrow> nat option \<times> 'w" where
  "read_rpm h path w =
     (case path of
        None \<Rightarrow> (None, w)
      | Some p \<Rightarrow>
          (case read_file h p w of
             (Inl _, w') \<Rightarrow> (None, w')
           | (Inr s, w') \<Rightarrow> (parse_u16 (trim s), w')))"

definition refuse_after_hand_back :: "'w Host \<Rightarrow> bool \<Rightarrow> 'w \<Rightarrow> bool" where
  "refuse_after_hand_back h owned_by_hand_back w = (owned_by_hand_back \<and> hand_back_begun h w)"

definition clear_after_resume :: "HwmonPwmController \<times> HwmonCache \<Rightarrow> HwmonPwmController \<times> HwmonCache" where
  "clear_after_resume = (\<lambda>(c, cache).
     case take_resume_flag cache of (resumed, cache) \<Rightarrow> (if resumed then forget_manual_mode c else c, cache))"

definition lease_reconciles :: "instant \<Rightarrow> string \<Rightarrow> LeaseManager \<Rightarrow> bool" where
  "lease_reconciles now i m =
     (case active_lease now m of Some l \<Rightarrow> lease_id l = i \<and> lease_owner l \<noteq> WriterVerify | None \<Rightarrow> False)"

definition raised_to_exit_min :: "HwmonPwmController \<Rightarrow> string \<Rightarrow> u8 \<Rightarrow> u8" where
  "raised_to_exit_min c i pct =
     (case map_of (hw_exit_min c) i of Some m \<Rightarrow> if pct < m then m else pct | None \<Rightarrow> pct)"

definition enable_reclaimed :: "'w Host \<Rightarrow> PwmHeaderDescriptor \<Rightarrow> HeaderWriteState option \<Rightarrow> 'w \<Rightarrow> bool \<times> 'w" where
  "enable_reclaimed h hdr ws w =
     (case ws of
        None \<Rightarrow> (False, w)
      | Some s \<Rightarrow>
          if hd_supports_enable hdr \<and> ws_manual_mode_set s then
            (case (case hd_enable_path hdr of None \<Rightarrow> (None, w) | Some ep \<Rightarrow> read_u8 h ep w) of
               (None, w) \<Rightarrow> (False, w)
             | (Some m, w) \<Rightarrow>
                 if m = 1 then (False, w)
                 else (case ws_last_commanded_pct s of
                     None \<Rightarrow> (True, w)
                   | Some last_pct \<Rightarrow>
                       (case read_u8 h (hd_pwm_path hdr) w of
                          (raw, w) \<Rightarrow> (\<not> is_full_speed_alias last_pct (map_option raw_to_percent raw) (Some m), w))))
          else (False, w))"

definition note_reclaim :: "instant \<Rightarrow> string \<Rightarrow> HwmonPwmController \<Rightarrow> HwmonPwmController" where
  "note_reclaim now i c =
     (let counts = bump u64_inc i (hw_enable_revert_counts c);
          count = (case map_of counts i of Some n \<Rightarrow> n | None \<Rightarrow> 0);
          log = (case map_of (hw_watchdog_log_state c) i of Some l \<Rightarrow> l | None \<Rightarrow> watchdog_default)
      in c\<lparr>hw_enable_revert_counts := counts,
           hw_enable_revert_last_at := hm_insert i now (hw_enable_revert_last_at c),
           hw_watchdog_log_state :=
             hm_insert i (snd (decide_watchdog_log_action now WATCHDOG_SUMMARY_INTERVAL count log)) (hw_watchdog_log_state c)\<rparr>)"

definition duty_drift_rewrite :: "'w Host \<Rightarrow> string \<Rightarrow> u8 \<Rightarrow> string \<Rightarrow> 'w hw \<Rightarrow> bool \<times> 'w hw" where
  "duty_drift_rewrite h i commanded_pct pwm_path = (\<lambda>(c, cache, w).
     case read_u8 h pwm_path w of (raw, w) \<Rightarrow>
       (case map_of (hw_write_state c) i of
          None \<Rightarrow> (False, c, cache, w)
        | Some ws \<Rightarrow>
            let expected = (case ws_held_pct ws of Some p \<Rightarrow> p | None \<Rightarrow> commanded_pct) in
            (case reconcile_decision expected (map_option raw_to_percent raw) (ws_drift ws) of (action, drift) \<Rightarrow>
               let c' = update_ws i (\<lambda>ws. ws\<lparr>ws_drift := drift\<rparr>) c;
                   cache' = (if drift \<noteq> ws_drift ws then publish_duty_reconciliation i c' cache else cache)
               in (case action of DriftCorrect _ \<Rightarrow> True | _ \<Rightarrow> False, c', cache', w))))"

definition commanded_fan :: "instant \<Rightarrow> string \<Rightarrow> nat option \<Rightarrow> u8 \<Rightarrow> HwmonFanState" where
  "commanded_fan now i rpm pct =
     \<lparr>hf_id = i, hf_rpm = rpm, hf_last_commanded_pwm = Some pct, hf_pwm_readback_pct = None,
      hf_pwm_commanded_pct = Some pct, hf_pwm_enable_mode = None, hf_alarm = None, hf_updated_at = now\<rparr>"

definition set_pwm_ok :: "string \<Rightarrow> u8 \<Rightarrow> HwmonSetPwmResult" where
  "set_pwm_ok i pct = \<lparr>sr_header_id = i, sr_pwm_percent = pct, sr_raw_value = percent_to_raw pct\<rparr>"

definition read_original :: "'w Host \<Rightarrow> string \<Rightarrow> PwmHeaderDescriptor \<Rightarrow> string \<Rightarrow> HandBackLedger \<Rightarrow> 'w \<Rightarrow> HandBack option \<times> 'w" where
  "read_original h i hdr ep lg w =
     (if needs_original lg i
      then (case read_u8 h ep w of (m, w) \<Rightarrow> case read_u8 h (hd_pwm_path hdr) w of (raw, w) \<Rightarrow>
              (Some (from_reading (hd_chip_name hdr) m raw), w))
      else (None, w))"

text \<open>The take of a header: its original is read before the first one, the shutdown is checked again,
  and the ledger records the take before the mode is switched.\<close>

definition take_header :: "'w Host \<Rightarrow> string \<Rightarrow> PwmHeaderDescriptor \<Rightarrow> bool \<Rightarrow> HwmonPwmController \<times> 'w \<Rightarrow>
    (HwmonControlError + unit) \<times> HwmonPwmController \<times> 'w" where
  "take_header h i hdr owned = (\<lambda>(c, w).
     case hd_enable_path hdr of
       None \<Rightarrow> (Inr (), c, w)
     | Some ep \<Rightarrow>
         (case read_original h i hdr ep (hw_handback c) w of
            (original, w) \<Rightarrow>
              if refuse_after_hand_back h owned w then (Inl HeShuttingDown, c, w)
              else (case note_take h i original (hw_handback c) w of
                (lg, w) \<Rightarrow>
                  (case write_file h ep PWM_ENABLE_MANUAL w of
                     (Inl e, w) \<Rightarrow> (Inl (HeHardware e), c\<lparr>hw_handback := lg\<rparr>, w)
                   | (Inr _, w) \<Rightarrow> (Inr (), c\<lparr>hw_handback := lg\<rparr>, w)))))"

definition uncount_correction :: "bool \<Rightarrow> HeaderWriteState \<Rightarrow> HeaderWriteState" where
  "uncount_correction correcting ws =
     (if correcting then ws\<lparr>ws_drift := (ws_drift ws)\<lparr>df_corrections := df_corrections (ws_drift ws) - 1\<rparr>\<rparr> else ws)"

text \<open>The duty write with what follows it.\<close>

definition confirm_write :: "'w Host \<Rightarrow> instant \<Rightarrow> string \<Rightarrow> PwmHeaderDescriptor \<Rightarrow> u8 \<Rightarrow> bool \<Rightarrow> bool \<Rightarrow> 'w hw \<Rightarrow> 'w hw" where
  "confirm_write h now i hdr pct reconciles correcting = (\<lambda>(c, cache, w).
     let raw = percent_to_raw pct;
         c = (if hd_supports_enable hdr then c else c\<lparr>hw_exit_record := hm_insert i (Some pct) (hw_exit_record c)\<rparr>)
     in case resume_priming_after_success h i (c, w) of (c, w) \<Rightarrow>
        case read_u8 h (hd_pwm_path hdr) w of (actual, w) \<Rightarrow>
        let c = (case actual of Some a \<Rightarrow>
                   if a \<noteq> raw then c\<lparr>hw_verify_mismatch_counts := bump u64_inc i (hw_verify_mismatch_counts c)\<rparr> else c
                 | None \<Rightarrow> c);
            ws = (entry_ws i c)\<lparr>ws_last_commanded_pct := Some pct, ws_manual_mode_set := True,
                    ws_held_pct := map_option raw_to_percent actual\<rparr>;
            ws = (if \<not> correcting \<and> reconciles then ws\<lparr>ws_drift := after_plain_write (ws_drift ws)\<rparr> else ws);
            c = c\<lparr>hw_write_state := hm_insert i ws (hw_write_state c)\<rparr>;
            c = (if correcting then c\<lparr>hw_duty_corrections := bump u32_inc i (hw_duty_corrections c)\<rparr> else c);
            cache = (if reconciles then publish_duty_reconciliation i c cache else cache)
        in case read_rpm h (hd_rpm_path hdr) w of (rpm, w) \<Rightarrow>
             (c, record_hwmon_command (commanded_fan now i rpm pct) (\<not> reconciles) cache, w))"

definition write_duty :: "'w Host \<Rightarrow> instant \<Rightarrow> string \<Rightarrow> PwmHeaderDescriptor \<Rightarrow> u8 \<Rightarrow> bool \<Rightarrow> bool \<Rightarrow> bool \<Rightarrow> 'w hw \<Rightarrow>
    (HwmonControlError + HwmonSetPwmResult) \<times> 'w hw" where
  "write_duty h now i hdr pct owned reconciles correcting = (\<lambda>(c, cache, w).
     let c = (if hd_supports_enable hdr then c else c\<lparr>hw_exit_record := hm_insert i None (hw_exit_record c)\<rparr>) in
     if refuse_after_hand_back h owned w then (Inl HeShuttingDown, update_ws i (uncount_correction correcting) c, cache, w)
     else
       (case prime_shared_report_siblings h i (c, w) of (c, w) \<Rightarrow>
          (case write_file h (hd_pwm_path hdr) (show_nat (percent_to_raw pct)) w of
             (Inl e, w) \<Rightarrow>
               (Inl (HeHardware e),
                update_ws i (\<lambda>ws. uncount_correction correcting (ws\<lparr>ws_manual_mode_set := False\<rparr>)) c, cache, w)
           | (Inr _, w) \<Rightarrow> (Inr (set_pwm_ok i pct), confirm_write h now i hdr pct reconciles correcting (c, cache, w)))))"

definition owned_header :: "PwmHeaderDescriptor \<Rightarrow> bool" where
  "owned_header hdr = (hd_supports_enable hdr \<and> hd_enable_path hdr \<noteq> None)"

text \<open>What a command notes before the coalesce check.\<close>

definition prepare_write :: "instant \<Rightarrow> string \<Rightarrow> PwmHeaderDescriptor \<Rightarrow> bool \<Rightarrow> bool \<Rightarrow> HwmonPwmController \<Rightarrow> HwmonPwmController" where
  "prepare_write now i hdr reconciles reclaimed c =
     (let c = (if reclaimed then note_reclaim now i c else c);
          c = (if reconciles \<and> \<not> hd_supports_enable hdr then c\<lparr>hw_engine_held := insert i (hw_engine_held c)\<rparr> else c);
          ws = (if reclaimed then (entry_ws i c)\<lparr>ws_manual_mode_set := False\<rparr> else entry_ws i c)
      in c\<lparr>hw_write_state := hm_insert i ws (hw_write_state c)\<rparr>)"

text \<open>The coalesce check, the take and the write.\<close>

definition write_or_coalesce :: "'w Host \<Rightarrow> instant \<Rightarrow> string \<Rightarrow> PwmHeaderDescriptor \<Rightarrow> u8 \<Rightarrow> bool \<Rightarrow> bool \<Rightarrow> 'w hw \<Rightarrow>
    (HwmonControlError + HwmonSetPwmResult) \<times> 'w hw" where
  "write_or_coalesce h now i hdr pct owned reconciles = (\<lambda>(c, cache, w).
     let ws = entry_ws i c;
         coalescible = (reconciles \<and> ws_manual_mode_set ws \<and> ws_last_commanded_pct ws = Some pct)
     in case (if coalescible then duty_drift_rewrite h i pct (hd_pwm_path hdr) (c, cache, w) else (False, c, cache, w)) of
        (correcting, c, cache, w) \<Rightarrow>
        if coalescible \<and> \<not> correcting then
          (case read_rpm h (hd_rpm_path hdr) w of (rpm, w) \<Rightarrow>
             (Inr (set_pwm_ok i pct), c, record_hwmon_command (commanded_fan now i rpm pct) (\<not> reconciles) cache, w))
        else
          (case (if \<not> ws_manual_mode_set ws \<and> hd_supports_enable hdr then take_header h i hdr owned (c, w) else (Inr (), c, w)) of
             (Inl e, c, w) \<Rightarrow> (Inl e, c, cache, w)
           | (Inr _, c, w) \<Rightarrow> write_duty h now i hdr pct owned reconciles correcting (c, cache, w)))"

definition hw_set_pwm :: "'w Host \<Rightarrow> instant \<Rightarrow> string \<Rightarrow> u8 \<Rightarrow> string \<Rightarrow> 'w hw \<Rightarrow>
    (HwmonControlError + HwmonSetPwmResult) \<times> 'w hw" where
  "hw_set_pwm h now i pwm_percent lid = (\<lambda>(c, cache, w).
     case validate_lease now lid (hw_lease_manager c) of
       Inl e \<Rightarrow> (Inl (HeLease e), c, cache, w)
     | Inr _ \<Rightarrow>
       let reconciles = lease_reconciles now lid (hw_lease_manager c) in
       case clear_after_resume (c, cache) of (c, cache) \<Rightarrow>
       case map_of (hw_headers c) i of
         None \<Rightarrow> (Inl (HeValidation UnknownHeader), c, cache, w)
       | Some hdr \<Rightarrow>
         if refuse_after_hand_back h (owned_header hdr) w then (Inl HeShuttingDown, c, cache, w)
         else if pwm_percent > 100 then (Inl (HeValidation PercentOutOfRange), c, cache, w)
         else
           case retry_record_if_failed h (hw_handback c) w of (lg, w) \<Rightarrow>
           let c = c\<lparr>hw_handback := lg\<rparr>;
               effective_pct = raised_to_exit_min c i pwm_percent
           in case enable_reclaimed h hdr (map_of (hw_write_state c) i) w of (reclaimed, w) \<Rightarrow>
              write_or_coalesce h now i hdr effective_pct (owned_header hdr) reconciles
                (prepare_write now i hdr reconciles reclaimed c, cache, w))"

section \<open>Hand-back, release and exit floor\<close>

definition hw_hand_back :: "'w Host \<Rightarrow> instant \<Rightarrow> string \<Rightarrow> string \<Rightarrow> 'w hw \<Rightarrow>
    (HwmonControlError + HandBackOutcome option) \<times> 'w hw" where
  "hw_hand_back h now i lid = (\<lambda>(c, cache, w).
     case validate_lease now lid (hw_lease_manager c) of
       Inl e \<Rightarrow> (Inl (HeLease e), c, cache, w)
     | Inr _ \<Rightarrow>
       case retry_record_if_failed h (hw_handback c) w of (lg, w) \<Rightarrow>
       case taken_header lg i of
         None \<Rightarrow> (Inr None, c\<lparr>hw_handback := lg\<rparr>, cache, w)
       | Some t \<Rightarrow>
         case hand_back h (th_enable_path t) (th_pwm_path t) (th_action t) w of (out, w) \<Rightarrow>
         if released out then
           (case note_handed_back h i lg w of (lg, w) \<Rightarrow>
              (Inr (Some out), c\<lparr>hw_handback := lg, hw_write_state := hm_remove i (hw_write_state c)\<rparr>,
               clear_hwmon_duty_not_holding [i] (clear_hwmon_commanded i cache), w))
         else
           (Inr (Some out), update_ws i (\<lambda>ws. ws\<lparr>ws_drift := drift_default\<rparr>) (c\<lparr>hw_handback := lg\<rparr>),
            clear_hwmon_duty_not_holding [i] cache, w))"

definition has_no_mode_switch :: "HwmonPwmController \<Rightarrow> string \<Rightarrow> bool" where
  "has_no_mode_switch c i = (case map_of (hw_headers c) i of Some hdr \<Rightarrow> \<not> hd_supports_enable hdr | None \<Rightarrow> False)"

definition holds_no_mode :: "HwmonPwmController \<Rightarrow> HwmonCache \<Rightarrow> string \<Rightarrow> bool" where
  "holds_no_mode c cache i =
     (i \<in> hw_engine_held c \<or> has_no_mode_switch c i \<and> is_abandoned_by_diagnostic i cache)"

definition engine_held_no_mode :: "HwmonPwmController \<Rightarrow> string list" where
  "engine_held_no_mode c = sorted_list_of_set (hw_engine_held c)"

definition releasable_no_mode :: "instant \<Rightarrow> HwmonPwmController \<Rightarrow> HwmonCache \<Rightarrow> string list" where
  "releasable_no_mode now c cache =
     (if verify_active now cache then []
      else sorted_list_of_set (hw_engine_held c \<union> Set.filter (has_no_mode_switch c) (hc_abandoned cache)))"

definition release_target :: "u8 option \<Rightarrow> u8 \<Rightarrow> u8 option" where
  "release_target was floor_pct =
     (if 0 < floor_pct \<and> Some (exit_duty was floor_pct) \<noteq> was then Some (exit_duty was floor_pct) else None)"

definition release_no_mode :: "'w Host \<Rightarrow> instant \<Rightarrow> string \<Rightarrow> string \<Rightarrow> 'w hw \<Rightarrow>
    (HwmonControlError + NoModeRelease option) \<times> 'w hw" where
  "release_no_mode h now i lid = (\<lambda>(c, cache, w).
     case validate_lease now lid (hw_lease_manager c) of
       Inl e \<Rightarrow> (Inl (HeLease e), c, cache, w)
     | Inr _ \<Rightarrow>
       if \<not> holds_no_mode c cache i \<or> verify_active now cache then (Inr None, c, cache, w)
       else
         let was = (case map_of (hw_exit_record c) i of Some p \<Rightarrow> p | None \<Rightarrow> None);
             fin = (\<lambda>outcome (c, cache, w).
               (Inr (Some outcome),
                c\<lparr>hw_engine_held := hw_engine_held c - {i}, hw_release_failure_logged := hw_release_failure_logged c - {i},
                  hw_write_state := hm_remove i (hw_write_state c)\<rparr>,
                clear_hwmon_duty_not_holding [i] (clear_hwmon_commanded i (clear_abandoned_by_diagnostic i cache)), w))
         in (case release_target was (hc_exit_floor_pct cache) of
               None \<Rightarrow> fin (NmKept was) (c, cache, w)
             | Some to \<Rightarrow>
                 (case hw_set_pwm h now i to lid (c, cache, w) of
                    (Inr _, st) \<Rightarrow> fin (NmRaised was to) st
                  | (Inl (HeHardware e), st) \<Rightarrow> (Inr (Some (NmFailed to e)), st)
                  | (Inl e, st) \<Rightarrow> (Inl e, st))))"

definition note_release_failed :: "string \<Rightarrow> HwmonPwmController \<Rightarrow> bool \<times> HwmonPwmController" where
  "note_release_failed i c =
     (i \<notin> hw_release_failure_logged c, c\<lparr>hw_release_failure_logged := insert i (hw_release_failure_logged c)\<rparr>)"

definition latch_exit_min :: "u8 \<Rightarrow> HwmonPwmController \<Rightarrow> HwmonPwmController" where
  "latch_exit_min floor_pct c =
     c\<lparr>hw_exit_min := fold (\<lambda>(k, hdr) m.
        if hd_supports_enable hdr then m
        else hm_insert (hd_id hdr)
          (case map_of (hw_exit_record c) (hd_id hdr) of Some was \<Rightarrow> exit_duty was floor_pct | None \<Rightarrow> floor_pct) m)
        (hw_headers c) (hw_exit_min c)\<rparr>"

definition exit_floor_ids :: "HwmonPwmController \<Rightarrow> string list" where
  "exit_floor_ids c =
     sort_key (\<lambda>i. (case map_of (hw_headers c) i of Some hdr \<Rightarrow> is_shared_report_chip (hd_chip_name hdr) | None \<Rightarrow> False, i))
       (map fst (hw_exit_record c))"

definition exit_floor_write :: "'w Host \<Rightarrow> u8 \<Rightarrow> string \<Rightarrow> HwmonExitFloorWrite list \<times> HwmonPwmController \<times> 'w \<Rightarrow>
    HwmonExitFloorWrite list \<times> HwmonPwmController \<times> 'w" where
  "exit_floor_write h floor_pct i = (\<lambda>(out, c, w).
     case map_of (hw_headers c) i of
       None \<Rightarrow> (out, c, w)
     | Some hdr \<Rightarrow>
       let was = (case map_of (hw_exit_record c) i of Some p \<Rightarrow> p | None \<Rightarrow> None);
           target = exit_duty was floor_pct;
           row = (\<lambda>result. \<lparr>xw_header_id = i, xw_was_pct = was, xw_target_pct = target, xw_result = result\<rparr>)
       in if was = Some target then (out @ [row None], c, w)
          else
            case prime_shared_report_siblings h i (c, w) of (c, w) \<Rightarrow>
            case write_file h (hd_pwm_path hdr) (show_nat (percent_to_raw target)) w of (written, w) \<Rightarrow>
            let ok = (written = Inr ());
                c = c\<lparr>hw_exit_record := hm_insert i (if ok then Some target else None) (hw_exit_record c)\<rparr>
            in case (if ok then resume_priming_after_success h i (c, w) else (c, w)) of (c, w) \<Rightarrow>
               (out @ [row (Some written)],
                update_ws i (\<lambda>ws. if ok then ws\<lparr>ws_last_commanded_pct := Some target, ws_held_pct := None\<rparr>
                                   else ws\<lparr>ws_manual_mode_set := False\<rparr>) c, w))"

definition hw_apply_exit_floor :: "'w Host \<Rightarrow> u8 \<Rightarrow> HwmonPwmController \<times> 'w \<Rightarrow>
    HwmonExitFloorWrite list \<times> HwmonPwmController \<times> 'w" where
  "hw_apply_exit_floor h floor_pct = (\<lambda>(c, w).
     if floor_pct = 0 then ([], c, w)
     else let c = latch_exit_min floor_pct c in
       fold (exit_floor_write h floor_pct) (exit_floor_ids c) ([], c, w))"

end
