(* ===== verification/Hwmon_Drift.thy ===== *)
theory Hwmon_Drift
  imports Hwmon_Control
begin

text \<open>
  The two small state machines of the hwmon write path: the correction of a drifting duty and the
  throttle of the watchdog's log.
\<close>

section \<open>Duty corrections\<close>

fun drift_actions :: "(u8 \<times> u8 option) list \<Rightarrow> DriftState \<Rightarrow> DriftAction list" where
  "drift_actions [] d = []"
| "drift_actions ((expected, readback) # xs) d =
     (case reconcile_decision expected readback d of (a, d') \<Rightarrow> a # drift_actions xs d')"

fun is_correct :: "DriftAction \<Rightarrow> bool" where
  "is_correct (DriftCorrect _) = True"
| "is_correct _ = False"

fun is_recovered :: "DriftAction \<Rightarrow> bool" where
  "is_recovered (DriftRecovered _) = True"
| "is_recovered _ = False"

definition off_duty :: "u8 \<times> u8 option \<Rightarrow> bool" where
  "off_duty x = (case snd x of Some read \<Rightarrow> READBACK_TOLERANCE_PCT < abs_diff read (fst x) | None \<Rightarrow> False)"

lemma drift_budget:
  assumes "df_corrections d \<le> DUTY_CORRECTION_ATTEMPTS" "list_all (\<lambda>a. \<not> is_recovered a) (drift_actions xs d)"
  shows "length (filter is_correct (drift_actions xs d)) + df_corrections d \<le> DUTY_CORRECTION_ATTEMPTS \<and>
    (df_in_episode d \<longrightarrow> DriftCorrect True \<notin> set (drift_actions xs d)) \<and>
    length (filter (\<lambda>a. a = DriftCorrect True) (drift_actions xs d)) \<le> 1 \<and>
    (df_give_up_logged d \<longrightarrow> DriftGiveUp True \<notin> set (drift_actions xs d)) \<and>
    length (filter (\<lambda>a. a = DriftGiveUp True) (drift_actions xs d)) \<le> 1"
  using assms
proof (induction xs d rule: drift_actions.induct)
  case (2 expected readback xs d)
  obtain a d' where r: "reconcile_decision expected readback d = (a, d')" by (rule prod.exhaust)
  have step: "df_corrections d' \<le> DUTY_CORRECTION_ATTEMPTS \<and>
      (if is_correct a then df_corrections d' = Suc (df_corrections d) \<and> df_in_episode d' \<and> (df_in_episode d \<longrightarrow> a \<noteq> DriftCorrect True) \<and>
          df_give_up_logged d' = df_give_up_logged d
       else df_corrections d' = df_corrections d \<and> df_in_episode d' = df_in_episode d \<and>
          (a = DriftGiveUp True \<longrightarrow> \<not> df_give_up_logged d \<and> df_give_up_logged d') \<and> (df_give_up_logged d \<longrightarrow> df_give_up_logged d'))"
    using r 2(2,3) by (auto simp: reconcile_decision_def split: option.splits if_splits)
  have nr: "list_all (\<lambda>a. \<not> is_recovered a) (drift_actions xs d')" using 2(3) r by simp
  note ih = 2(1) [OF r [symmetric] conjunct1 [OF step] nr]
  have "filter P (drift_actions xs d') = [] \<longleftrightarrow> (\<forall>a \<in> set (drift_actions xs d'). \<not> P a)" for P
    by (simp add: filter_empty_conv)
  with ih step show ?case by (cases "is_correct a") (auto simp: r filter_empty_conv)
qed simp

lemma hold_run:
  "list_all off_duty xs \<Longrightarrow> df_not_holding d \<Longrightarrow> drift_actions xs d = replicate (length xs) DriftHold"
  by (induction xs d rule: drift_actions.induct)
     (auto simp: reconcile_decision_def off_duty_def split: option.splits)

lemma off_run:
  assumes "list_all off_duty xs"
  shows "drift_actions xs drift_default =
    take (length xs) ([DriftCorrect True, DriftCorrect False, DriftCorrect False, DriftGiveUp True] @
      replicate (length xs - 4) DriftHold)"
proof -
  have off: "reconcile_decision e r d =
      (if df_not_holding d then (DriftHold, d)
       else if 3 \<le> df_corrections d then (DriftGiveUp (\<not> df_give_up_logged d), d\<lparr>df_not_holding := True, df_give_up_logged := True\<rparr>)
       else (DriftCorrect (\<not> df_in_episode d), d\<lparr>df_corrections := df_corrections d + 1, df_in_episode := True\<rparr>))"
    if "off_duty (e, r)" for e r d
    using that by (auto simp: reconcile_decision_def off_duty_def DUTY_CORRECTION_ATTEMPTS_def split: option.splits)
  consider "xs = []" | a where "xs = [a]" | a b where "xs = [a, b]" | a b c where "xs = [a, b, c]"
    | a b c e ys where "xs = a # b # c # e # ys"
    by (metis list.exhaust)
  then show ?thesis
    using assms by cases (auto simp: off drift_default_def hold_run split: prod.splits)
qed

text \<open>Lemma: the fight over a duty is bounded. While the duty never reads back as holding, a header gets at
  most \<open>DUTY_CORRECTION_ATTEMPTS\<close> corrections, one warning for the first and one for giving up, from any
  state the machine reaches; and a duty that is off on every tick is corrected exactly
  three times, given up on the fourth tick and left alone from then on.\<close>

theorem corrections_are_bounded:
  assumes "df_corrections d \<le> DUTY_CORRECTION_ATTEMPTS"
    and "list_all (\<lambda>a. \<not> is_recovered a) (drift_actions xs d)" "list_all off_duty ys"
  shows "length (filter is_correct (drift_actions xs d)) \<le> DUTY_CORRECTION_ATTEMPTS \<and>
    length (filter (\<lambda>a. a = DriftCorrect True) (drift_actions xs d)) \<le> 1 \<and>
    length (filter (\<lambda>a. a = DriftGiveUp True) (drift_actions xs d)) \<le> 1 \<and>
    drift_actions ys drift_default =
      take (length ys) ([DriftCorrect True, DriftCorrect False, DriftCorrect False, DriftGiveUp True] @
        replicate (length ys - 4) DriftHold)"
  using drift_budget [OF assms(1,2)] off_run [OF assms(3)] by simp

theorem corrections_are_bounded_witness:
  "drift_actions [(50, Some 80), (50, Some 80), (50, None), (50, Some 80), (50, Some 80), (50, Some 80)] drift_default =
     [DriftCorrect True, DriftCorrect False, DriftCoalesce, DriftCorrect False, DriftGiveUp True, DriftHold] \<and>
   length (filter is_correct [DriftCorrect True, DriftCorrect False, DriftCoalesce, DriftCorrect False, DriftGiveUp True, DriftHold])
     \<le> DUTY_CORRECTION_ATTEMPTS"
proof -
  have a: "drift_actions [(50, Some 80), (50, Some 80), (50, None), (50, Some 80), (50, Some 80), (50, Some 80)] drift_default =
     [DriftCorrect True, DriftCorrect False, DriftCoalesce, DriftCorrect False, DriftGiveUp True, DriftHold]"
    by (simp add: reconcile_decision_def drift_default_def abs_diff_def READBACK_TOLERANCE_PCT_def DUTY_CORRECTION_ATTEMPTS_def)
  show ?thesis
    using corrections_are_bounded [of drift_default "[(50, Some 80), (50, Some 80), (50, None), (50, Some 80), (50, Some 80), (50, Some 80)]" "[]"] a
    by (simp add: drift_default_def)
qed

section \<open>The watchdog's log\<close>

fun log_actions :: "duration \<Rightarrow> (instant \<times> u64) list \<Rightarrow> WatchdogLogState \<Rightarrow> (instant \<times> WatchdogLogAction) list" where
  "log_actions iv [] s = []"
| "log_actions iv ((now, count) # xs) s =
     (case decide_watchdog_log_action now iv count s of (a, s') \<Rightarrow> (now, a) # log_actions iv xs s')"

text \<open>A line above DEBUG.\<close>

definition emitted :: "(instant \<times> WatchdogLogAction) list \<Rightarrow> instant list" where
  "emitted xs = map fst (filter (\<lambda>(now, a). a \<noteq> LogDebug) xs)"

lemma emitted_spaced:
  assumes "wl_first_warn_emitted s" "wl_last_emit_at s = Some t" "0 < iv"
  shows "sorted_wrt (\<lambda>a b. a + iv \<le> b) (t # emitted (log_actions iv xs s)) \<and> LogWarn \<notin> snd ` set (log_actions iv xs s)"
  using assms
proof (induction xs arbitrary: s t)
  case (Cons x xs)
  obtain now count where x: "x = (now, count)" by (rule prod.exhaust)
  show ?case
  proof (cases "iv \<le> now - t")
    case True
    let ?s = "s\<lparr>wl_last_emit_at := Some now, wl_count_at_last_summary := count\<rparr>"
    have "decide_watchdog_log_action now iv count s = (LogSummary (count - wl_count_at_last_summary s) count, ?s)"
      using True Cons.prems by (simp add: decide_watchdog_log_action_def)
    moreover note Cons.IH [of ?s now]
    moreover have "t + iv \<le> now" using True Cons.prems(3) by arith
    ultimately show ?thesis using Cons.prems by (auto simp: x emitted_def)
  next
    case False
    then have "decide_watchdog_log_action now iv count s = (LogDebug, s)"
      using Cons.prems by (simp add: decide_watchdog_log_action_def)
    then show ?thesis using Cons.IH [OF Cons.prems] by (simp add: x emitted_def)
  qed
qed (simp add: emitted_def)

text \<open>Lemma: a header whose firmware reclaims it every second does not flood the log. The first reclaim is
  the only warning, and any two lines above DEBUG are at least the summary interval apart.\<close>

lemma watchdog_log_is_throttled:
  assumes "0 < iv"
  shows "sorted_wrt (\<lambda>a b. a + iv \<le> b) (emitted (log_actions iv xs watchdog_default)) \<and>
    length (filter (\<lambda>(now, a). a = LogWarn) (log_actions iv xs watchdog_default)) \<le> 1"
proof (cases xs)
  case (Cons x ys)
  obtain now count where x: "x = (now, count)" by (rule prod.exhaust)
  let ?s = "\<lparr>wl_first_warn_emitted = True, wl_last_emit_at = Some now, wl_count_at_last_summary = count\<rparr>"
  have "log_actions iv xs watchdog_default = (now, LogWarn) # log_actions iv ys ?s"
    by (simp add: Cons x decide_watchdog_log_action_def watchdog_default_def)
  moreover note emitted_spaced [of ?s now iv ys]
  ultimately show ?thesis using assms by (auto simp: emitted_def filter_empty_conv image_iff)
qed (simp add: emitted_def)

end
