(* ===== verification/Hwmon_Frame.thy ===== *)
theory Hwmon_Frame
  imports Hwmon_Control
begin

text \<open>
  What the hwmon write path keeps: an invariant of the controller and the host reduces to the
  elementary steps of an operation. The properties instantiate it.
\<close>

section \<open>Invariants of the write path\<close>

text \<open>An invariant that reads, record writes, duty writes, takes and bookkeeping keep.\<close>

definition hw_stable :: "'w Host \<Rightarrow> (HwmonPwmController \<Rightarrow> 'w \<Rightarrow> bool) \<Rightarrow> bool" where
  "hw_stable h I =
     ((\<forall>c c' w. I c w \<and> hw_headers c' = hw_headers c \<and> hw_handback c' = hw_handback c \<and> hw_exit_min c' = hw_exit_min c \<longrightarrow> I c' w) \<and>
      (\<forall>c w p r w'. I c w \<and> read_file h p w = (r, w') \<longrightarrow> I c w') \<and>
      (\<forall>c w lg w'. I c w \<and> retry_record_if_failed h (hw_handback c) w = (lg, w') \<longrightarrow> I (c\<lparr>hw_handback := lg\<rparr>) w') \<and>
      (\<forall>c w k hdr v r w'. I c w \<and> (k, hdr) \<in> set (hw_headers c) \<and> write_file h (hd_pwm_path hdr) v w = (r, w') \<longrightarrow> I c w') \<and>
      (\<forall>c w i hdr owned r c' w'. I c w \<and> map_of (hw_headers c) i = Some hdr \<and> hd_supports_enable hdr \<and>
         take_header h i hdr owned (c, w) = (r, c', w') \<longrightarrow> I c' w'))"

lemma hw_stableD:
  assumes "hw_stable h I" "I c w"
  shows stable_book: "hw_headers c' = hw_headers c \<Longrightarrow> hw_handback c' = hw_handback c \<Longrightarrow> hw_exit_min c' = hw_exit_min c \<Longrightarrow> I c' w"
    and stable_read: "read_file h p w = (r, w') \<Longrightarrow> I c w'"
    and stable_retry: "retry_record_if_failed h (hw_handback c) w = (lg, w') \<Longrightarrow> I (c\<lparr>hw_handback := lg\<rparr>) w'"
    and stable_write: "(k, hdr) \<in> set (hw_headers c) \<Longrightarrow> write_file h (hd_pwm_path hdr) v w = (x, w') \<Longrightarrow> I c w'"
    and stable_take: "map_of (hw_headers c) i = Some hdr \<Longrightarrow> hd_supports_enable hdr \<Longrightarrow>
      take_header h i hdr owned (c, w) = (y, c', w') \<Longrightarrow> I c' w'"
  using assms unfolding hw_stable_def by - (elim conjE, fast)+

lemma hw_stableI:
  assumes "\<And>c c' w. I c w \<Longrightarrow> hw_headers c' = hw_headers c \<Longrightarrow> hw_handback c' = hw_handback c \<Longrightarrow> hw_exit_min c' = hw_exit_min c \<Longrightarrow> I c' w"
    and "\<And>c w p r w'. I c w \<Longrightarrow> read_file h p w = (r, w') \<Longrightarrow> I c w'"
    and "\<And>c w lg w'. I c w \<Longrightarrow> retry_record_if_failed h (hw_handback c) w = (lg, w') \<Longrightarrow> I (c\<lparr>hw_handback := lg\<rparr>) w'"
    and "\<And>c w k hdr v r w'. I c w \<Longrightarrow> (k, hdr) \<in> set (hw_headers c) \<Longrightarrow> write_file h (hd_pwm_path hdr) v w = (r, w') \<Longrightarrow> I c w'"
    and "\<And>c w i hdr owned r c' w'. I c w \<Longrightarrow> map_of (hw_headers c) i = Some hdr \<Longrightarrow> hd_supports_enable hdr \<Longrightarrow>
      take_header h i hdr owned (c, w) = (r, c', w') \<Longrightarrow> I c' w'"
  shows "hw_stable h I"
  unfolding hw_stable_def by (intro conjI allI impI; elim conjE) (rule assms; assumption)+

lemma stable_u8:
  assumes "hw_stable h I" "I c w" "read_u8 h p w = (v, w')"
  shows "I c w'"
  using assms stable_read [OF assms(1,2)] by (auto simp: read_u8_def split: prod.splits sum.splits)

lemma stable_rpm:
  assumes "hw_stable h I" "I c w" "read_rpm h p w = (v, w')"
  shows "I c w'"
  using assms stable_read [OF assms(1,2)] by (auto simp: read_rpm_def split: prod.splits sum.splits option.splits)

text \<open>What the bookkeeping never touches.\<close>

definition same_core :: "HwmonPwmController \<Rightarrow> HwmonPwmController \<Rightarrow> bool" where
  "same_core c c' = (hw_headers c' = hw_headers c \<and> hw_handback c' = hw_handback c \<and> hw_exit_min c' = hw_exit_min c)"

lemma stable_core: "hw_stable h I \<Longrightarrow> I c w \<Longrightarrow> same_core c c' \<Longrightarrow> I c' w"
  using stable_book [of h I c w c'] by (simp add: same_core_def)

lemma same_core_simps [simp]:
  "same_core c c"
  "same_core c (update_ws i f c)"
  "same_core c (note_reclaim now i c)"
  "same_core c (forget_manual_mode c)"
  by (simp_all add: same_core_def update_ws_def note_reclaim_def forget_manual_mode_def Let_def split: option.split)

lemma prime_loop_stable:
  assumes "hw_stable h I" "prime_loop h dir sibs (c, w) = (c', w')" "I c w"
    and "\<forall>(i, path) \<in> set sibs. \<exists>k hdr. (k, hdr) \<in> set (hw_headers c) \<and> hd_pwm_path hdr = path"
  shows "I c' w' \<and> same_core c c'"
  using assms(2-4)
proof (induction sibs arbitrary: c w)
  case (Cons s sibs)
  obtain i path where s: "s = (i, path)" by (rule prod.exhaust)
  obtain cached w1 where rd: "read_u8 h path w = (cached, w1)" by (rule prod.exhaust)
  then have I1: "I c w1" using stable_u8 [OF assms(1)] Cons.prems(2) by blast
  obtain r w2 where wr: "write_file h path (show_nat (percent_to_raw PRIME_PCT)) w1 = (r, w2)" by (rule prod.exhaust)
  have I2: "I c w2" using stable_write [OF assms(1) I1] wr Cons.prems(3) s by fastforce
  let ?c = "c\<lparr>hw_exit_record := hm_insert i (Some PRIME_PCT) (hw_exit_record c)\<rparr>"
  let ?d = "c\<lparr>hw_exit_record := hm_insert i None (hw_exit_record c), hw_priming_suspended := insert dir (hw_priming_suspended c)\<rparr>"
  have core: "same_core c ?c" "same_core c ?d" by (simp_all add: same_core_def)
  have rest: "\<forall>(i, path) \<in> set sibs. \<exists>k hdr. (k, hdr) \<in> set (hw_headers c) \<and> hd_pwm_path hdr = path"
    using Cons.prems(3) by simp
  show ?case
  proof (cases "cached \<noteq> Some 0 \<or> chosen_zero c i")
    case True
    then have "prime_loop h dir sibs (c, w1) = (c', w')" using Cons.prems(1) unfolding s by (auto simp: rd split: if_splits)
    then show ?thesis using Cons.IH I1 rest by blast
  next
    case skip: False
    show ?thesis
    proof (cases r)
      case (Inl e)
      then have "c' = ?d \<and> w' = w2" using Cons.prems(1) skip unfolding s by (auto simp: rd wr)
      then show ?thesis using stable_core [OF assms(1) I2 core(2)] core(2) by simp
    next
      case (Inr x)
      then have "prime_loop h dir sibs (?c, w2) = (c', w')" using Cons.prems(1) skip unfolding s by (auto simp: rd wr)
      then have "I c' w' \<and> same_core ?c c'"
        using Cons.IH [of ?c w2] stable_core [OF assms(1) I2 core(1)] rest by simp
      then show ?thesis by (simp add: same_core_def)
    qed
  qed
qed simp

lemma prime_stable:
  assumes "hw_stable h I" "I c w" "prime_shared_report_siblings h i (c, w) = (c', w')"
  shows "I c' w' \<and> same_core c c'"
proof -
  have "\<forall>(j, path) \<in> set (prime_siblings_of i dir c). \<exists>k hdr. (k, hdr) \<in> set (hw_headers c) \<and> hd_pwm_path hdr = path" for dir
    by (auto simp: prime_siblings_of_def)
  then show ?thesis using assms prime_loop_stable [OF assms(1) _ assms(2)]
    by (auto simp: prime_shared_report_siblings_def split: option.splits if_splits)
qed

lemma resume_stable:
  assumes "hw_stable h I" "I c w" "resume_priming_after_success h i (c, w) = (c', w')"
  shows "I c' w' \<and> same_core c c'"
proof (cases "c' = c \<and> w' = w")
  case True
  then show ?thesis using assms(2) by simp
next
  case False
  then obtain dir where "prime_shared_report_siblings h i (c\<lparr>hw_priming_suspended := hw_priming_suspended c - {dir}\<rparr>, w) = (c', w')"
    using assms(3) by (auto simp: resume_priming_after_success_def split: option.splits if_splits)
  note p = this
  have k: "same_core c (c\<lparr>hw_priming_suspended := hw_priming_suspended c - {dir}\<rparr>)" by (simp add: same_core_def)
  show ?thesis using prime_stable [OF assms(1) stable_core [OF assms(1,2) k] p] by (simp add: same_core_def)
qed

lemma drift_stable:
  assumes "hw_stable h I" "I c w" "duty_drift_rewrite h i pct path (c, cache, w) = (b, c', cache', w')"
  shows "I c' w' \<and> same_core c c'"
proof -
  obtain raw w1 where r: "read_u8 h path w = (raw, w1)" by (rule prod.exhaust)
  then have "I c w1" using stable_u8 [OF assms(1,2)] by blast
  moreover have "w' = w1 \<and> same_core c c'"
    using assms(3) by (auto simp: duty_drift_rewrite_def Let_def r split: prod.splits option.splits)
  ultimately show ?thesis using stable_core [OF assms(1)] by blast
qed

lemma confirm_stable:
  assumes "hw_stable h I" "I c w" "confirm_write h now i hdr pct rec cor (c, cache, w) = (c', cache', w')"
  shows "I c' w' \<and> same_core c c'"
proof -
  let ?c0 = "if hd_supports_enable hdr then c else c\<lparr>hw_exit_record := hm_insert i (Some pct) (hw_exit_record c)\<rparr>"
  have k0: "same_core c ?c0" by (simp add: same_core_def)
  obtain c1 w1 where r: "resume_priming_after_success h i (?c0, w) = (c1, w1)" by (rule prod.exhaust)
  with resume_stable [OF assms(1) stable_core [OF assms(1,2) k0]] have 1: "I c1 w1" "same_core ?c0 c1" by auto
  obtain a w2 where a: "read_u8 h (hd_pwm_path hdr) w1 = (a, w2)" by (rule prod.exhaust)
  then have 2: "I c1 w2" using stable_u8 [OF assms(1) 1(1)] by simp
  obtain rpm w3 where p: "read_rpm h (hd_rpm_path hdr) w2 = (rpm, w3)" by (rule prod.exhaust)
  then have 3: "I c1 w3" using stable_rpm [OF assms(1) 2] by simp
  have "w' = w3 \<and> same_core c1 c'"
    using assms(3) unfolding confirm_write_def Let_def by (auto simp: r a p same_core_def split: option.splits)
  then show ?thesis using stable_core [OF assms(1) 3] k0 1(2) by (auto simp: same_core_def)
qed

lemma write_duty_stable:
  assumes "hw_stable h I" "I c w" "map_of (hw_headers c) i = Some hdr"
    and "write_duty h now i hdr pct owned rec cor (c, cache, w) = (r, c', cache', w')"
  shows "I c' w' \<and> same_core c c'"
proof -
  let ?c0 = "if hd_supports_enable hdr then c else c\<lparr>hw_exit_record := hm_insert i None (hw_exit_record c)\<rparr>"
  have k0: "same_core c ?c0" by (simp add: same_core_def)
  note I0 = stable_core [OF assms(1,2) k0]
  show ?thesis
  proof (cases "refuse_after_hand_back h owned w")
    case True
    then have "c' = update_ws i (uncount_correction cor) ?c0 \<and> w' = w" using assms(4) by (auto simp: write_duty_def Let_def)
    then show ?thesis using stable_core [OF assms(1) I0] k0 by (auto simp: same_core_def update_ws_def split: option.splits)
  next
    case False
    obtain c1 w1 where p: "prime_shared_report_siblings h i (?c0, w) = (c1, w1)" by (rule prod.exhaust)
    note 1 = prime_stable [OF assms(1) I0 p]
    obtain x w2 where x: "write_file h (hd_pwm_path hdr) (show_nat (percent_to_raw pct)) w1 = (x, w2)" by (rule prod.exhaust)
    have "(i, hdr) \<in> set (hw_headers c1)" using 1 k0 map_of_SomeD [OF assms(3)] by (auto simp: same_core_def)
    then have 2: "I c1 w2" using stable_write [OF assms(1)] 1 x by blast
    show ?thesis
    proof (cases x)
      case (Inl e)
      then have "same_core c1 c' \<and> w' = w2"
        using assms(4) False by (auto simp: write_duty_def Let_def p x)
      then show ?thesis using stable_core [OF assms(1) 2] 1 k0 by (auto simp: same_core_def)
    next
      case (Inr u)
      then have "confirm_write h now i hdr pct rec cor (c1, cache, w2) = (c', cache', w')"
        using assms(4) False by (auto simp: write_duty_def Let_def p x)
      then show ?thesis using confirm_stable [OF assms(1) 2] 1 k0 by (auto simp: same_core_def)
    qed
  qed
qed

lemma retry_frame:
  "same_core (c\<lparr>hw_handback := lg\<rparr>) c' \<Longrightarrow> hw_headers c' = hw_headers c \<and> hw_exit_min c' = hw_exit_min c \<and> hw_handback c' = lg"
  by (simp add: same_core_def)

lemma reclaim_stable:
  assumes "hw_stable h I" "I c w" "enable_reclaimed h hdr ws w = (b, w')"
  shows "I c w'"
  using assms stable_u8 [OF assms(1), of c]
  by (auto simp: enable_reclaimed_def split: option.splits if_splits prod.splits) (use stable_u8 [OF assms(1)] in blast)+

lemma take_frame:
  "take_header h i hdr owned (c, w) = (r, c', w') \<Longrightarrow> hw_headers c' = hw_headers c \<and> hw_exit_min c' = hw_exit_min c \<and>
     hw_write_state c' = hw_write_state c"
  by (auto simp: take_header_def split: option.splits if_splits prod.splits sum.splits)

lemma prepare_core: "same_core c (prepare_write now i hdr rec cla c)"
  by (simp add: prepare_write_def Let_def same_core_def note_reclaim_def)

lemma resume_core: "same_core c (fst (clear_after_resume (c, cache)))"
  by (simp add: clear_after_resume_def take_resume_flag_def)

lemma write_or_coalesce_stable:
  assumes "hw_stable h I" "I c w" "map_of (hw_headers c) i = Some hdr"
    and "write_or_coalesce h now i hdr pct owned rec (c, cache, w) = (r, c', cache', w')"
  shows "I c' w'"
proof -
  let ?ws = "entry_ws i c"
  let ?co = "rec \<and> ws_manual_mode_set ?ws \<and> ws_last_commanded_pct ?ws = Some pct"
  obtain cor c1 cache1 w1 where d: "(if ?co then duty_drift_rewrite h i pct (hd_pwm_path hdr) (c, cache, w)
      else (False, c, cache, w)) = (cor, c1, cache1, w1)" by (metis prod_cases4)
  then have 1: "I c1 w1 \<and> same_core c c1"
    using drift_stable [OF assms(1,2)] assms(2) by (auto split: if_splits)
  show ?thesis
  proof (cases "?co \<and> \<not> cor")
    case True
    then show ?thesis using assms(4) 1 stable_rpm [OF assms(1)]
      unfolding write_or_coalesce_def Let_def prod.case d by (auto split: prod.splits)
  next
    case False
    let ?t = "\<not> ws_manual_mode_set ?ws \<and> hd_supports_enable hdr"
    obtain x c2 w2 where t: "(if ?t then take_header h i hdr owned (c1, w1) else (Inr (), c1, w1)) = (x, c2, w2)"
      by (metis prod_cases3)
    have hd1: "map_of (hw_headers c1) i = Some hdr" using 1 assms(3) by (simp add: same_core_def)
    have 2: "I c2 w2 \<and> hw_headers c2 = hw_headers c1"
      using t 1 stable_take [OF assms(1) _ hd1] by (auto dest: take_frame split: if_splits)
    from assms(4) have "(case (x, c2, w2) of (Inl e, c, w) \<Rightarrow> (Inl e, c, cache1, w)
        | (Inr _, c, w) \<Rightarrow> write_duty h now i hdr pct owned rec cor (c, cache1, w)) = (r, c', cache', w')"
      unfolding write_or_coalesce_def Let_def prod.case d t using False by (auto split: if_splits)
    then show ?thesis using 2 write_duty_stable [OF assms(1)] hd1 by (auto split: sum.splits)
  qed
qed

lemma set_pwm_stable:
  assumes "hw_stable h I" "I c w" "hw_set_pwm h now i pct lid (c, cache, w) = (r, c', cache', w')"
  shows "I c' w'"
proof -
  obtain c1 cache1 where cr: "clear_after_resume (c, cache) = (c1, cache1)" by (rule prod.exhaust)
  have k1: "same_core c c1" using resume_core [of c cache] cr by simp
  note I1 = stable_core [OF assms(1,2) k1]
  obtain lg w1 where rt: "retry_record_if_failed h (hw_handback c1) w = (lg, w1)" by (rule prod.exhaust)
  note I2 = stable_retry [OF assms(1) I1 rt]
  show ?thesis
  proof (cases "\<exists>hdr. map_of (hw_headers c1) i = Some hdr \<and> (\<exists>u. validate_lease now lid (hw_lease_manager c) = Inr u) \<and>
      \<not> refuse_after_hand_back h (owned_header hdr) w \<and> pct \<le> 100")
    case False
    then have "w' = w \<and> same_core c c'"
      using assms(3) k1 by (auto simp: hw_set_pwm_def cr Let_def split: sum.splits option.splits if_splits)
    then show ?thesis using stable_core [OF assms(1,2)] by blast
  next
    case True
    then obtain hdr u where g: "map_of (hw_headers c1) i = Some hdr" "validate_lease now lid (hw_lease_manager c) = Inr u"
      "\<not> refuse_after_hand_back h (owned_header hdr) w" "pct \<le> 100" by blast
    obtain b w2 where rc: "enable_reclaimed h hdr (map_of (hw_write_state c1) i) w1 = (b, w2)" by (rule prod.exhaust)
    note I3 = reclaim_stable [OF assms(1) I2 rc]
    note I4 = stable_core [OF assms(1) I3 prepare_core]
    have "write_or_coalesce h now i hdr (raised_to_exit_min (c1\<lparr>hw_handback := lg\<rparr>) i pct) (owned_header hdr)
        (lease_reconciles now lid (hw_lease_manager c))
        (prepare_write now i hdr (lease_reconciles now lid (hw_lease_manager c)) b (c1\<lparr>hw_handback := lg\<rparr>), cache1, w2) = (r, c', cache', w')"
      using assms(3) g by (simp add: hw_set_pwm_def cr rt rc Let_def)
    then show ?thesis
      using write_or_coalesce_stable [OF assms(1) I4] g(1) prepare_core by (auto simp: same_core_def)
  qed
qed

end
