(* ===== verification/Hwmon_Properties.thy ===== *)
theory Hwmon_Properties
  imports Hwmon_Frame
begin

text \<open>
  What the hwmon write path guarantees over its histories: silence once the shutdown hand-back owns a
  header, the return of a header to the mode it was found in, the exit floor of headers without a mode
  switch, and that a diagnostic's duty is always written.
\<close>

section \<open>Silence after the hand-back\<close>

text \<open>Two hosts that differ only in writes made once the hand-back has begun. The write of the record
  itself is taken to be short: the flag does not change under it.\<close>

definition silent_after :: "'w Host \<Rightarrow> (string \<Rightarrow> string \<Rightarrow> 'w \<Rightarrow> (HwmonError + unit) \<times> 'w) \<Rightarrow> bool" where
  "silent_after h f =
     ((\<forall>p v w. \<not> hand_back_begun h w \<longrightarrow> f p v w = write_file h p v w) \<and>
      (\<forall>p s w. hand_back_begun h (snd (write_replacing h p s w)) = hand_back_begun h w))"

lemma other_writer_io:
  "read_u8 (h\<lparr>write_file := f\<rparr>) = read_u8 h"
  "read_rpm (h\<lparr>write_file := f\<rparr>) = read_rpm h"
  "persist (h\<lparr>write_file := f\<rparr>) = persist h"
  by (simp_all add: fun_eq_iff read_u8_def read_rpm_def persist_def write_record_def split: option.split)

lemma other_writer_reads:
  "retry_record_if_failed (h\<lparr>write_file := f\<rparr>) = retry_record_if_failed h"
  "note_take (h\<lparr>write_file := f\<rparr>) = note_take h"
  "enable_reclaimed (h\<lparr>write_file := f\<rparr>) = enable_reclaimed h"
  "duty_drift_rewrite (h\<lparr>write_file := f\<rparr>) = duty_drift_rewrite h"
  "refuse_after_hand_back (h\<lparr>write_file := f\<rparr>) = refuse_after_hand_back h"
  "read_original (h\<lparr>write_file := f\<rparr>) = read_original h"
  unfolding read_original_def fun_eq_iff retry_record_if_failed_def note_take_def enable_reclaimed_def duty_drift_rewrite_def
    refuse_after_hand_back_def other_writer_io by simp_all

lemmas other_writer = other_writer_io other_writer_reads

lemma note_take_quiet:
  assumes "\<And>p s w. hand_back_begun h (snd (write_replacing h p s w)) = hand_back_begun h w"
  shows "hand_back_begun h (snd (note_take h i a lg w)) = hand_back_begun h w"
  using assms by (auto simp: note_take_def persist_def write_record_def Let_def case_prod_beta split: option.splits)

lemma take_silent:
  assumes "silent_after h f" "owned"
  shows "take_header (h\<lparr>write_file := f\<rparr>) i hdr owned (c, w) = take_header h i hdr owned (c, w)"
proof -
  have q: "hand_back_begun h (snd (note_take h i a lg w)) = hand_back_begun h w" for a lg w
    by (rule note_take_quiet) (use assms(1) in \<open>simp add: silent_after_def\<close>)
  show ?thesis
  proof (cases "hd_enable_path hdr")
    case (Some ep)
    obtain a w1 where o: "read_original h i hdr ep (hw_handback c) w = (a, w1)" by (rule prod.exhaust)
    obtain lg w2 where n: "note_take h i a (hw_handback c) w1 = (lg, w2)" by (rule prod.exhaust)
    have "hand_back_begun h w2 = hand_back_begun h w1" using q [of a "hw_handback c" w1] n by simp
    then show ?thesis using assms
      by (cases "hand_back_begun h w1")
         (simp_all add: take_header_def other_writer Some o n refuse_after_hand_back_def silent_after_def)
  qed (simp add: take_header_def)
qed

lemma write_duty_silent:
  assumes "silent_after h f" "map_of (hw_headers c) i = Some hdr" "owned" "\<not> is_shared_report_chip (hd_chip_name hdr)"
  shows "write_duty (h\<lparr>write_file := f\<rparr>) now i hdr pct owned rec cor (c, cache, w) =
         write_duty h now i hdr pct owned rec cor (c, cache, w)"
proof -
  have p: "prime_shared_report_siblings g i (c', w) = (c', w)" "resume_priming_after_success g i (c', w) = (c', w)"
    if "hw_headers c' = hw_headers c" for g c' and w :: 'a
    using that assms(2,4) by (simp_all add: prime_shared_report_siblings_def resume_priming_after_success_def)
  have cw: "confirm_write (h\<lparr>write_file := f\<rparr>) now i hdr pct rec cor (c', cache, w) =
      confirm_write h now i hdr pct rec cor (c', cache, w)"
    if "hw_headers c' = hw_headers c" for c' and w :: 'a
    unfolding confirm_write_def Let_def prod.case using that by (simp add: p other_writer)
  show ?thesis
  proof (cases "hand_back_begun h w")
    case True
    then show ?thesis using assms(3)
      by (simp add: write_duty_def other_writer refuse_after_hand_back_def)
  next
    case False
    then have "f (hd_pwm_path hdr) v w = write_file h (hd_pwm_path hdr) v w" for v
      using assms(1) by (simp add: silent_after_def)
    then show ?thesis
      by (simp add: write_duty_def other_writer p cw Let_def split: prod.split sum.split)
  qed
qed

lemma write_or_coalesce_silent:
  assumes "silent_after h f" "map_of (hw_headers c) i = Some hdr" "owned" "\<not> is_shared_report_chip (hd_chip_name hdr)"
  shows "write_or_coalesce (h\<lparr>write_file := f\<rparr>) now i hdr pct owned rec (c, cache, w) =
         write_or_coalesce h now i hdr pct owned rec (c, cache, w)"
proof -
  have wd: "write_duty (h\<lparr>write_file := f\<rparr>) now i hdr pct owned rec cor (c', cache', w') =
         write_duty h now i hdr pct owned rec cor (c', cache', w')" if "hw_headers c' = hw_headers c" for rec cor c' cache' w'
    using write_duty_silent [OF assms(1) _ assms(3,4)] assms(2) that by simp
  have core: "hw_headers c' = hw_headers c" if "duty_drift_rewrite h i pct (hd_pwm_path hdr) (c, cache, w) = (b, c', cache', w')" for b c' cache' w'
    using that by (auto simp: duty_drift_rewrite_def update_ws_def Let_def split: prod.splits option.splits)
  have tk: "hw_headers c'' = hw_headers c'" if "take_header h i hdr owned (c', w') = (x, c'', w'')" for c' w' x c'' w''
    using take_frame [OF that] by simp
  show ?thesis
    unfolding write_or_coalesce_def Let_def prod.case other_writer take_silent [OF assms(1,3)]
    by (auto simp: wd dest!: core tk split: prod.splits sum.splits if_splits)
qed

text \<open>C26: the shutdown hand-back is the last writer. Once it has begun, no command writes a header it
  owns. A command that starts afterwards changes nothing on the host, and one that was already under way
  issues no write from then on: its outcome does not depend on what writes made after the beginning would do.\<close>

theorem hand_back_is_last_writer:
  assumes "silent_after h f" "map_of (hw_headers c) i = Some hdr" "owned_header hdr" "\<not> is_shared_report_chip (hd_chip_name hdr)"
  shows "hw_set_pwm (h\<lparr>write_file := f\<rparr>) now i pct lid (c, cache, w) = hw_set_pwm h now i pct lid (c, cache, w) \<and>
    (hand_back_begun h w \<longrightarrow> snd (snd (snd (hw_set_pwm h now i pct lid (c, cache, w)))) = w \<and>
       (\<exists>e. fst (hw_set_pwm h now i pct lid (c, cache, w)) = Inl e))"
proof -
  have hd: "hw_headers (fst (clear_after_resume (c, cache))) = hw_headers c"
    using resume_core [of c cache] by (simp add: same_core_def)
  have pr: "hw_headers (prepare_write now i hdr rec cla c') = hw_headers c'" for rec cla c'
    using prepare_core [of c' now i hdr rec cla] by (simp add: same_core_def)
  have "hw_set_pwm (h\<lparr>write_file := f\<rparr>) now i pct lid (c, cache, w) = hw_set_pwm h now i pct lid (c, cache, w)"
    unfolding hw_set_pwm_def Let_def prod.case other_writer
    using write_or_coalesce_silent [OF assms(1) _ assms(3,4)] hd assms(2)
    by (auto simp: pr split: sum.splits option.splits prod.splits)
  moreover have "hand_back_begun h w \<longrightarrow> snd (snd (snd (hw_set_pwm h now i pct lid (c, cache, w)))) = w \<and>
       (\<exists>e. fst (hw_set_pwm h now i pct lid (c, cache, w)) = Inl e)"
    using hd assms(2,3) unfolding hw_set_pwm_def Let_def prod.case
    by (auto simp: refuse_after_hand_back_def split: sum.splits prod.splits)
  ultimately show ?thesis by blast
qed

section \<open>Histories\<close>

text \<open>Everything that happens to the controller: commands, hand-backs and releases of any writer, lease
  operations, the engine's resets, and any change of the shared cache.\<close>

datatype HwOp =
    HSet instant string u8 string | HBack instant string string | HRelease instant string string
  | HForget | HLeaseReleased | HLease "LeaseManager \<Rightarrow> LeaseManager" | HCache "HwmonCache \<Rightarrow> HwmonCache"

fun hw_step :: "'w Host \<Rightarrow> HwOp \<Rightarrow> 'w hw \<Rightarrow> 'w hw" where
  "hw_step h (HSet now i pct lid) st = snd (hw_set_pwm h now i pct lid st)"
| "hw_step h (HBack now i lid) st = snd (hw_hand_back h now i lid st)"
| "hw_step h (HRelease now i lid) st = snd (release_no_mode h now i lid st)"
| "hw_step h HForget (c, cache, w) = (forget_manual_mode c, cache, w)"
| "hw_step h HLeaseReleased (c, cache, w) = (case on_lease_released (c, cache) of (c, cache) \<Rightarrow> (c, cache, w))"
| "hw_step h (HLease f) (c, cache, w) = (c\<lparr>hw_lease_manager := f (hw_lease_manager c)\<rparr>, cache, w)"
| "hw_step h (HCache f) (c, cache, w) = (c, f cache, w)"

lemma release_stable:
  assumes "hw_stable h I" "I c w" "release_no_mode h now i lid (c, cache, w) = (r, c', cache', w')"
  shows "I c' w'"
proof -
  let ?fin = "\<lambda>d. d\<lparr>hw_engine_held := hw_engine_held d - {i}, hw_release_failure_logged := hw_release_failure_logged d - {i},
      hw_write_state := hm_remove i (hw_write_state d)\<rparr>"
  have fin: "same_core d (?fin d)" for d by (simp add: same_core_def)
  have "\<exists>d. I d w' \<and> same_core d c'"
  proof (cases "\<exists>to x c1 cache1 w1. hw_set_pwm h now i to lid (c, cache, w) = (x, c1, cache1, w1) \<and> w' = w1 \<and> (c' = c1 \<or> c' = ?fin c1)")
    case True
    then show ?thesis using set_pwm_stable [OF assms(1,2)] fin same_core_simps(1) by blast
  next
    case False
    then have "w' = w \<and> same_core c c'"
      using assms(3) fin [of c] unfolding release_no_mode_def
      by (auto simp: Let_def split: sum.splits if_splits option.splits prod.splits HwmonControlError.splits)
    then show ?thesis using assms(2) by blast
  qed
  then show ?thesis using stable_core [OF assms(1)] by blast
qed

text \<open>An invariant that the hand-back keeps as well holds through every history.\<close>

definition hand_back_keeps :: "'w Host \<Rightarrow> (HwmonPwmController \<Rightarrow> 'w \<Rightarrow> bool) \<Rightarrow> bool" where
  "hand_back_keeps h I =
     (\<forall>c w now i lid cache r c' cache' w'.
        I c w \<longrightarrow> hw_hand_back h now i lid (c, cache, w) = (r, c', cache', w') \<longrightarrow> I c' w')"

lemma hw_step_stable:
  assumes "hw_stable h I" "I c w" "hw_step h op (c, cache, w) = (c', cache', w')"
    and "hand_back_keeps h I"
  shows "I c' w'"
proof (cases op)
  case (HSet now i pct lid)
  then show ?thesis using assms(3) set_pwm_stable [OF assms(1,2)]
    by (cases "hw_set_pwm h now i pct lid (c, cache, w)") auto
next
  case (HBack now i lid)
  then show ?thesis using assms(2-4) unfolding hand_back_keeps_def
    by (cases "hw_hand_back h now i lid (c, cache, w)") auto
next
  case (HRelease now i lid)
  then show ?thesis using assms(3) release_stable [OF assms(1,2)]
    by (cases "release_no_mode h now i lid (c, cache, w)") auto
next
  case HForget
  then show ?thesis using assms(3) stable_core [OF assms(1,2)] by auto
next
  case HLeaseReleased
  then show ?thesis using assms(3) stable_core [OF assms(1,2)] by (auto simp: on_lease_released_def same_core_def)
next
  case (HLease f)
  then show ?thesis using assms(3) stable_core [OF assms(1,2)] by (auto simp: same_core_def)
next
  case (HCache f)
  then show ?thesis using assms(2,3) by simp
qed

lemma hw_run_stable:
  assumes "hw_stable h I"
    and "hand_back_keeps h I"
  shows "I c w \<Longrightarrow> fold (hw_step h) ops (c, cache, w) = (c', cache', w') \<Longrightarrow> I c' w'"
proof (induction ops arbitrary: c cache w)
  case (Cons op ops)
  obtain c1 cache1 w1 where s: "hw_step h op (c, cache, w) = (c1, cache1, w1)" by (rule prod_cases3)
  from hw_step_stable [OF assms(1) Cons.prems(1) s assms(2)] have "I c1 w1" .
  then show ?case using Cons.IH Cons.prems(2) s by simp
qed simp

section \<open>The exit floor\<close>

lemma core_stable: "hw_stable h (\<lambda>c w. hw_headers c = H \<and> hw_exit_min c = M)"
  unfolding hw_stable_def by (auto dest: take_frame)

lemma hand_back_core:
  "hw_hand_back h now i lid (c, cache, w) = (r, c', cache', w') \<Longrightarrow> hw_headers c' = hw_headers c \<and> hw_exit_min c' = hw_exit_min c"
  by (auto simp: hw_hand_back_def update_ws_def split: sum.splits prod.splits option.splits if_splits)

lemma run_core:
  assumes "fold (hw_step h) ops (c, cache, w) = (c', cache', w')"
  shows "hw_headers c' = hw_headers c \<and> hw_exit_min c' = hw_exit_min c"
proof -
  have "hand_back_keeps h (\<lambda>d v. hw_headers d = hw_headers c \<and> hw_exit_min d = hw_exit_min c)"
    unfolding hand_back_keeps_def by (auto dest: hand_back_core)
  from hw_run_stable [OF core_stable this _ assms] show ?thesis by simp
qed

definition headers_ok :: "HwmonPwmController \<Rightarrow> bool" where
  "headers_ok c = (hm_ok (hw_headers c) \<and> (\<forall>(k, hdr) \<in> set (hw_headers c). k = hd_id hdr))"

lemma latch_get:
  assumes "hm_ok hs" "\<forall>(k, hdr) \<in> set hs. k = hd_id hdr"
  shows "map_of (fold (\<lambda>(k, hdr) m. if hd_supports_enable hdr then m else hm_insert (hd_id hdr) (g (hd_id hdr)) m) hs m) i =
    (case map_of hs i of Some hdr \<Rightarrow> if hd_supports_enable hdr then map_of m i else Some (g i) | None \<Rightarrow> map_of m i)"
  using assms
proof (induction hs arbitrary: m)
  case (Cons x hs)
  obtain k hdr where x: "x = (k, hdr)" by (rule prod.exhaust)
  have "map_of hs k = None" using Cons.prems(1) x by (simp add: hm_ok_def map_of_eq_None_iff)
  then show ?case using Cons x by (auto simp: hm_ok_def split: option.splits)
qed simp

lemma exit_floor_write_core:
  assumes "exit_floor_write h f i (out, c, w) = (out', c', w')"
  shows "same_core c c'"
proof -
  have t: "hw_stable h (\<lambda>_ _. True)" by (simp add: hw_stable_def)
  have p: "same_core c c1" if "prime_shared_report_siblings h i (c, w) = (c1, w1)" for c c1 w w1
    using prime_stable [OF t _ that] by simp
  have q: "same_core c c1" if "resume_priming_after_success h i (c, w) = (c1, w1)" for c c1 w w1
    using resume_stable [OF t _ that] by simp
  show ?thesis using assms unfolding exit_floor_write_def
    by (auto simp: Let_def same_core_def update_ws_def dest!: p q split: option.splits if_splits prod.splits)
qed

lemma exit_floor_min:
  assumes "hw_apply_exit_floor h f (c, w) = (out, c', w')" "0 < f" "f \<le> 100" "headers_ok c"
    and "map_of (hw_headers c) i = Some hdr" "\<not> hd_supports_enable hdr"
  shows "hw_headers c' = hw_headers c \<and> (\<exists>m. map_of (hw_exit_min c') i = Some m \<and> f \<le> m \<and> m \<le> 100)"
proof -
  let ?c = "latch_exit_min f c"
  have "same_core d d'" if "fold (exit_floor_write h f) is (o1, d, v) = (o2, d', v')" for "is" o1 d v o2 d' v'
    using that
  proof (induction "is" arbitrary: o1 d v)
    case (Cons j "is")
    then show ?case using exit_floor_write_core [of h f j o1 d v]
      by (cases "exit_floor_write h f j (o1, d, v)") (fastforce simp: same_core_def)
  qed simp
  then have "same_core ?c c'" using assms(1,2) by (auto simp: hw_apply_exit_floor_def Let_def)
  moreover have "map_of (hw_exit_min ?c) i =
      Some (case map_of (hw_exit_record c) i of Some was \<Rightarrow> exit_duty was f | None \<Rightarrow> f)"
    using latch_get [of "hw_headers c" "\<lambda>i. case map_of (hw_exit_record c) i of Some was \<Rightarrow> exit_duty was f | None \<Rightarrow> f"] assms(4-6)
    by (simp add: latch_exit_min_def headers_ok_def)
  moreover have "f \<le> exit_duty was f \<and> exit_duty was f \<le> 100" for was using exit_duty_bounds [OF assms(3)] by blast
  ultimately show ?thesis using assms(3)
    by (auto simp: same_core_def latch_exit_min_def split: option.splits)
qed

lemma set_pwm_value:
  assumes "hw_set_pwm h now i pct lid (c, cache, w) = (Inr res, c', cache', w')"
  shows "sr_pwm_percent res = raised_to_exit_min c i pct \<and> pct \<le> 100"
proof -
  have wd: "res = set_pwm_ok i p" if "write_duty h now i hdr p o1 r1 c1 (c, cache, w) = (Inr res, st)" for hdr p o1 r1 c1 c cache w st
    using that by (auto simp: write_duty_def Let_def split: if_splits prod.splits sum.splits)
  have wc: "res = set_pwm_ok i p" if "write_or_coalesce h now i hdr p o1 r1 (c, cache, w) = (Inr res, st)" for hdr p o1 r1 c cache w st
    using that unfolding write_or_coalesce_def by (auto simp: Let_def dest: wd split: if_splits prod.splits sum.splits)
  have "hw_exit_min (fst (clear_after_resume (c, cache))) = hw_exit_min c"
    using resume_core [of c cache] by (simp add: same_core_def)
  then show ?thesis using assms unfolding hw_set_pwm_def
    by (auto simp: Let_def raised_to_exit_min_def set_pwm_ok_def dest!: wc split: sum.splits prod.splits option.splits if_splits)
qed

text \<open>C31: the exit floor holds for headers without a mode switch. After any history, once the stop has
  applied a floor, no command of a writer that outlives it is confirmed below that floor on a header the
  firmware cannot take back, whatever happens in between.\<close>

theorem hwmon_exit_floor_is_final:
  assumes "0 < f" "f \<le> 100" "headers_ok c0"
    and "hw_apply_exit_floor h f (c0, w0) = (out, c1, w1)"
    and "fold (hw_step h) ops (c1, cache, w1) = (c2, cache2, w2)"
    and "map_of (hw_headers c0) i = Some hdr" "\<not> hd_supports_enable hdr"
    and "hw_set_pwm h now i pct lid (c2, cache2, w2) = (Inr res, c3, cache3, w3)"
  shows "f \<le> sr_pwm_percent res \<and> sr_pwm_percent res \<le> 100"
proof -
  from exit_floor_min [OF assms(4,1,2,3,6,7)] run_core [OF assms(5)] obtain m
    where "map_of (hw_exit_min c2) i = Some m" "f \<le> m" "m \<le> 100" by auto
  with set_pwm_value [OF assms(8)] show ?thesis by (auto simp: raised_to_exit_min_def)
qed

end
