(* ===== verification/Hwmon_Return.thy ===== *)
theory Hwmon_Return
  imports Hwmon_Properties
begin

text \<open>
  The promise of the hand-back over the whole write path: whatever the daemon's writers did to a header,
  giving it back returns the mode it was found in before the daemon first took it.
\<close>

section \<open>A file system without interference\<close>

definition file_store :: "'w Host \<Rightarrow> ('w \<Rightarrow> string \<Rightarrow> string option) \<Rightarrow> bool" where
  "file_store h files =
     ((\<forall>p v w r w'. write_file h p v w = (r, w') \<longrightarrow> files w' = (if r = Inr () then (files w)(p \<mapsto> v) else files w)) \<and>
      (\<forall>p w r w'. read_file h p w = (r, w') \<longrightarrow> files w' = files w \<and> (\<forall>v. files w p = Some v \<longrightarrow> r = Inr v)) \<and>
      (\<forall>p s w r w' q. write_replacing h p s w = (r, w') \<longrightarrow> q \<noteq> p \<longrightarrow> files w' q = files w q))"

lemma store_write:
  assumes "file_store h files" "write_file h p v w = (r, w')"
  shows "files w' = (if r = Inr () then (files w)(p \<mapsto> v) else files w)"
  using assms unfolding file_store_def by blast

lemma store_read:
  assumes "file_store h files" "read_file h p w = (r, w')"
  shows "files w' = files w" "files w p = Some v \<Longrightarrow> r = Inr v"
  using assms unfolding file_store_def by blast+

lemma store_u8:
  assumes "file_store h files" "read_u8 h p w = (r, w')"
  shows "files w' = files w" "files w p = Some v \<Longrightarrow> r = parse_u8 (trim v)"
  using assms(2) store_read [OF assms(1), of p w] unfolding read_u8_def
  by (auto split: prod.splits sum.splits)

lemma store_persist:
  assumes "file_store h files" "persist h lg w = (lg', w')" "ls_record_path (lg_state lg) \<noteq> Some q"
  shows "files w' q = files w q" "ls_entries (lg_state lg') = ls_entries (lg_state lg)"
    "ls_record_path (lg_state lg') = ls_record_path (lg_state lg)"
  using assms unfolding file_store_def persist_def write_record_def
  by (auto split: option.splits prod.splits)

text \<open>The files a hand-back does not name are left alone.\<close>

lemma writes_ok_other: "file_store h files \<Longrightarrow> q \<noteq> p \<Longrightarrow> files (snd (writes_ok h p v w)) q = files w q"
  using store_write [of h files p v w] by (auto simp: writes_ok_def split: prod.splits)

lemma reads_as_other: "file_store h files \<Longrightarrow> files (snd (reads_as h p P w)) = files w"
  using store_u8 [of h files p w] by (auto simp: reads_as_def split: prod.splits)

lemma and_then_other:
  "(\<And>w. files (snd (f w)) q = files w q) \<Longrightarrow> (\<And>w. files (snd (g w)) q = files w q) \<Longrightarrow> files (snd (and_then f g w)) q = files w q"
  by (auto simp: and_then_def split: prod.splits bool.splits) (metis snd_conv)+

lemma manual_confirmed_other: "file_store h files \<Longrightarrow> files (snd (manual_confirmed h ep pp raw w)) = files w"
  using store_u8 [of h files ep w] reads_as_other [of h files pp] by (auto simp: manual_confirmed_def split: prod.splits)

lemma hand_back_other:
  assumes "file_store h files" "q \<noteq> ep" "q \<noteq> pp"
  shows "files (snd (hand_back h ep pp a w)) q = files w q"
proof -
  note o = and_then_other writes_ok_other [OF assms(1)] reads_as_other [OF assms(1)] manual_confirmed_other [OF assms(1)]
  have r: "files (snd (restore h ep pp a w)) q = files w q" for w
    unfolding restore_def using assms(2,3) by (cases a) (simp_all add: o)
  have fs: "files (snd (full_speed h ep pp w)) q = files w q" for w
  proof -
    obtain b w1 where 1: "and_then (writes_ok h ep ''0'') (reads_as h ep (\<lambda>v. v = Some 0)) w = (b, w1)" by (rule prod.exhaust)
    obtain d w2 where 2: "and_then (writes_ok h ep ''1'') (and_then (writes_ok h pp ''255'')
        (reads_as h pp (\<lambda>v. case v of Some raw \<Rightarrow> FULL_SPEED_MIN_RAW \<le> raw | None \<Rightarrow> False))) w1 = (d, w2)" by (rule prod.exhaust)
    have "files (snd (b, w1)) q = files w q" unfolding 1 [symmetric] using assms(2,3) by (simp add: o)
    moreover have "files (snd (d, w2)) q = files w1 q" unfolding 2 [symmetric] using assms(2,3) by (simp add: o)
    ultimately show ?thesis unfolding full_speed_def 1 prod.case by (cases b; cases d) (simp_all add: 2)
  qed
  show ?thesis
    using r [of w] fs by (auto simp: hand_back_def split: prod.splits bool.splits)
qed

section \<open>The original is kept\<close>

definition origin_ok :: "('w \<Rightarrow> string \<Rightarrow> string option) \<Rightarrow> string \<Rightarrow> string \<Rightarrow> u8 \<Rightarrow> 'w \<Rightarrow> Entry \<Rightarrow> bool" where
  "origin_ok files ep v m w e =
     (en_enable_path e = ep \<and> en_pwm_path e \<noteq> ep \<and>
      (if en_original e = None then \<not> en_taken e \<and> files w ep = Some v else en_original e = Some (Mode m)))"

definition origin_inv :: "('w \<Rightarrow> string \<Rightarrow> string option) \<Rightarrow> string \<Rightarrow> string \<Rightarrow> PwmHeaderDescriptor \<Rightarrow> string \<Rightarrow> u8 \<Rightarrow>
    HwmonPwmController \<Rightarrow> 'w \<Rightarrow> bool" where
  "origin_inv files i ep hdr v m c w =
     (map_of (hw_headers c) i = Some hdr \<and>
      (\<forall>(k, d) \<in> set (hw_headers c). hd_pwm_path d \<noteq> ep \<and> (hd_enable_path d = Some ep \<longrightarrow> k = i)) \<and>
      ls_record_path (lg_state (hw_handback c)) \<noteq> Some ep \<and>
      (\<forall>j e. lg_get (hw_handback c) j = Some e \<longrightarrow> j \<noteq> i \<longrightarrow> en_pwm_path e \<noteq> ep \<and> en_enable_path e \<noteq> ep) \<and>
      (case lg_get (hw_handback c) i of Some e \<Rightarrow> origin_ok files ep v m w e | None \<Rightarrow> False))"

lemma origin_header: "origin_inv files i ep hdr v m c w \<Longrightarrow> map_of (hw_headers c) i = Some hdr"
  unfolding origin_inv_def by (elim conjE)

lemma origin_paths:
  "origin_inv files i ep hdr v m c w \<Longrightarrow> (k, d) \<in> set (hw_headers c) \<Longrightarrow> hd_pwm_path d \<noteq> ep \<and> (hd_enable_path d = Some ep \<longrightarrow> k = i)"
  unfolding origin_inv_def by fast

lemma origin_others:
  "origin_inv files i ep hdr v m c w \<Longrightarrow> lg_get (hw_handback c) j = Some e \<Longrightarrow> j \<noteq> i \<Longrightarrow> en_pwm_path e \<noteq> ep \<and> en_enable_path e \<noteq> ep"
  unfolding origin_inv_def by (elim conjE) simp

lemma origin_entry:
  assumes "origin_inv files i ep hdr v m c w"
  obtains e where "lg_get (hw_handback c) i = Some e" "origin_ok files ep v m w e"
  using assms unfolding origin_inv_def by (cases "lg_get (hw_handback c) i") auto

text \<open>Once the original is recorded the file may change.\<close>

lemma origin_recorded:
  assumes "origin_inv files i ep hdr v m c w" "\<not> needs_original (hw_handback c) i"
  shows "origin_inv files i ep hdr v m c w'"
proof (rule origin_entry [OF assms(1)])
  fix e
  assume e: "lg_get (hw_handback c) i = Some e" "origin_ok files ep v m w e"
  then have "origin_ok files ep v m w' e" using assms(2) by (auto simp: needs_original_def origin_ok_def)
  then show ?thesis using assms(1) e(1) by (simp add: origin_inv_def)
qed

text \<open>The invariant depends on the host only through the one file, and on the ledger only through its
  entries and its path.\<close>

lemma origin_inv_cong:
  assumes "origin_inv files i ep hdr v m c w" "hw_headers c' = hw_headers c" "files w' ep = files w ep"
    and "ls_entries (lg_state (hw_handback c')) = ls_entries (lg_state (hw_handback c))"
    and "ls_record_path (lg_state (hw_handback c')) = ls_record_path (lg_state (hw_handback c))"
  shows "origin_inv files i ep hdr v m c' w'"
  using assms unfolding origin_inv_def lg_get_def origin_ok_def by (simp split: option.splits)

text \<open>A change of another header's entry that keeps its files.\<close>

lemma origin_inv_put:
  assumes "origin_inv files i ep hdr v m c w" "lg_get (hw_handback c) j = Some e" "j \<noteq> i"
    and "en_enable_path e' = en_enable_path e" "en_pwm_path e' = en_pwm_path e"
  shows "origin_inv files i ep hdr v m (c\<lparr>hw_handback := lg_put j e' (hw_handback c)\<rparr>) w"
  using assms origin_others [OF assms(1,2,3)] unfolding origin_inv_def by simp

lemma origin_inv_persist:
  assumes "file_store h files" "origin_inv files i ep hdr v m (c\<lparr>hw_handback := lg\<rparr>) w" "persist h lg w = (lg', w')"
  shows "origin_inv files i ep hdr v m (c\<lparr>hw_handback := lg'\<rparr>) w'"
proof -
  have "ls_record_path (lg_state lg) \<noteq> Some ep" using assms(2) by (simp add: origin_inv_def)
  from store_persist [OF assms(1,3) this] show ?thesis by (intro origin_inv_cong [OF assms(2)]) simp_all
qed

lemma note_take_origin:
  assumes "file_store h files" "origin_inv files i ep hdr v m c w"
    and "note_take h j a (hw_handback c) w = (lg, w')"
    and "j = i \<Longrightarrow> a = (if needs_original (hw_handback c) i then Some (Mode m) else None)"
  shows "origin_inv files i ep hdr v m (c\<lparr>hw_handback := lg\<rparr>) w' \<and> (j = i \<longrightarrow> \<not> needs_original lg i)"
proof (cases "lg_get (hw_handback c) j")
  case None
  then have "lg = hw_handback c" "w' = w" using assms(3) by (simp_all add: note_take_def)
  moreover have "j \<noteq> i" using None origin_entry [OF assms(2)] by force
  ultimately show ?thesis using assms(2) by simp
next
  case (Some e)
  let ?r = "en_original e = None \<and> a \<noteq> None"
  define e2 where "e2 = (let e' = (if ?r then e\<lparr>en_original := a\<rparr> else e) in if \<not> en_taken e' then e'\<lparr>en_taken := True\<rparr> else e')"
  have paths: "en_enable_path e2 = en_enable_path e" "en_pwm_path e2 = en_pwm_path e"
    by (simp_all add: e2_def Let_def)
  have orig: "en_original e2 = (if en_original e = None then a else en_original e)"
    by (cases "en_original e"; cases a) (auto simp: e2_def Let_def)
  have put: "origin_inv files i ep hdr v m (c\<lparr>hw_handback := lg_put j e2 (hw_handback c)\<rparr>) w"
  proof (cases "j = i")
    case True
    then have "a = (if en_original e = None then Some (Mode m) else None)" using assms(4) Some by (simp add: needs_original_def)
    then have "origin_ok files ep v m w e2"
      using origin_entry [OF assms(2)] Some True paths orig by (force simp: origin_ok_def)
    then show ?thesis using assms(2) Some True unfolding origin_inv_def by simp
  next
    case False
    then show ?thesis using origin_inv_put [OF assms(2) Some False paths] by simp
  qed
  have need: "\<not> needs_original (lg_put j e2 (hw_handback c)) i" if "j = i"
    using assms(4) [OF that] that Some orig by (auto simp: needs_original_def)
  have same: "lg = hw_handback c \<and> w' = w \<or> persist h (lg_put j e2 (hw_handback c)) w = (lg, w')"
    using assms(3) Some by (auto simp: e2_def note_take_def Let_def split: if_splits)
  show ?thesis
  proof (cases "persist h (lg_put j e2 (hw_handback c)) w = (lg, w')")
    case True
    have "lg_get (fst (persist h (lg_put j e2 (hw_handback c)) w)) i = lg_get (lg_put j e2 (hw_handback c)) i" by simp
    then have "needs_original lg i = needs_original (lg_put j e2 (hw_handback c)) i" by (simp add: True needs_original_def)
    then show ?thesis using origin_inv_persist [OF assms(1) put True] need by simp
  next
    case False
    then have "\<not> needs_original (hw_handback c) i" if "j = i"
      using assms(3,4) that Some by (auto simp: e2_def note_take_def Let_def needs_original_def split: if_splits)
    then show ?thesis using assms(2) same False by auto
  qed
qed

lemma origin_stable:
  assumes "file_store h files" "parse_u8 (trim v) = Some m" "m \<noteq> 1" "\<not> (m = 2 \<and> is_nzxt_kraken3_chip (hd_chip_name hdr))"
    and "hd_enable_path hdr = Some ep"
  shows "hw_stable h (origin_inv files i ep hdr v m)"
proof -
  let ?I = "origin_inv files i ep hdr v m"
  have book: "?I c' w" if "?I c w" "hw_headers c' = hw_headers c" "hw_handback c' = hw_handback c" for c c' w
    using origin_inv_cong [OF that(1,2)] that(3) by simp
  have rd: "?I c w'" if "?I c w" "read_file h p w = (r, w')" for c w p r w'
    using origin_inv_cong [OF that(1), of c w'] store_read(1) [OF assms(1) that(2)] by simp
  have wr: "?I c w'" if "?I c w" "write_file h p x w = (r, w')" "p \<noteq> ep" for c w p x r w'
    using origin_inv_cong [OF that(1), of c w'] store_write [OF assms(1) that(2)] that(3) by simp
  have retry: "?I (c\<lparr>hw_handback := lg\<rparr>) w'" if "?I c w" "retry_record_if_failed h (hw_handback c) w = (lg, w')" for c w lg w'
    using origin_inv_persist [OF assms(1), where c = c and lg = "hw_handback c"] that
    by (auto simp: retry_record_if_failed_def split: if_splits)
  have take: "?I c' w'" if t: "?I c w" "map_of (hw_headers c) j = Some d" "take_header h j d owned (c, w) = (r, c', w')"
    for c w j d owned r c' w'
  proof (cases "hd_enable_path d")
    case (Some p)
    obtain a w1 where o: "read_original h j d p (hw_handback c) w = (a, w1)" by (rule prod.exhaust)
    have f1: "files w1 = files w"
      using o by (auto simp: read_original_def dest!: store_u8(1) [OF assms(1)] split: if_splits prod.splits)
    have 1: "?I c w1" using origin_inv_cong [OF t(1), of c w1] f1 by simp
    have own: "p = ep \<Longrightarrow> j = i" using origin_paths [OF t(1) map_of_SomeD [OF t(2)]] Some by simp
    have orig: "a = (if needs_original (hw_handback c) i then Some (Mode m) else None)" if "j = i"
    proof -
      have d: "d = hdr" "p = ep" using origin_header [OF t(1)] t(2) that Some assms(5) by auto
      have "files w ep = Some v" if "needs_original (hw_handback c) i"
        by (rule origin_entry [OF t(1)]) (use that in \<open>simp add: needs_original_def origin_ok_def\<close>)
      then show ?thesis using o assms(2-4) that
        by (auto simp: read_original_def d from_reading_def driver_rule_def dest!: store_u8(2) [OF assms(1)] split: if_splits prod.splits)
    qed
    obtain lg w2 where n: "note_take h j a (hw_handback c) w1 = (lg, w2)" by (rule prod.exhaust)
    note 2 = note_take_origin [OF assms(1) 1 n orig]
    obtain x w3 where x: "write_file h p PWM_ENABLE_MANUAL w2 = (x, w3)" by (rule prod.exhaust)
    have 3: "?I (c\<lparr>hw_handback := lg\<rparr>) w3"
    proof (cases "p = ep")
      case True
      then show ?thesis using origin_recorded [OF conjunct1 [OF 2]] conjunct2 [OF 2] own by simp
    next
      case False
      then show ?thesis using wr [OF conjunct1 [OF 2] x] by simp
    qed
    show ?thesis
      using t(3) 1 3 Some by (auto simp: take_header_def o n x split: if_splits sum.splits)
  qed (use t in \<open>simp add: take_header_def\<close>)
  have duty: "?I c w'" if "?I c w" "(k, d) \<in> set (hw_headers c)" "write_file h (hd_pwm_path d) x w = (r, w')" for c w k d x r w'
    using wr [OF that(1,3)] origin_paths [OF that(1,2)] by simp
  show ?thesis by (rule hw_stableI) (erule (2) book, erule (1) rd, erule (1) retry, erule (2) duty, erule (1) take)
qed

section \<open>The header comes back\<close>

lemma parse_show_nat: "n \<le> 255 \<Longrightarrow> parse_u8 (show_nat n) = Some n"
  using show_nat_spec [of n] by (simp add: parse_u8_digits)

lemma trim_show_nat: "trim (show_nat n) = show_nat n"
proof -
  have d: "list_all is_digit (show_nat n)" using show_nat_spec [of n] by simp
  have "dropWhile is_space s = s" if "list_all is_digit s" for s
    using that by (cases s) (auto simp: is_space_def is_digit_def Let_def)
  then show ?thesis using d by (simp add: trim_def)
qed

lemma hand_back_origin:
  assumes "file_store h files" "origin_inv files i ep hdr v m c w"
    and "hw_hand_back h now j lid (c, cache, w) = (r, c', cache', w')"
  shows "origin_inv files i ep hdr v m c' w'"
proof -
  obtain lg w1 where rt: "retry_record_if_failed h (hw_handback c) w = (lg, w1)" by (rule prod.exhaust)
  have 1: "origin_inv files i ep hdr v m (c\<lparr>hw_handback := lg\<rparr>) w1"
    using origin_inv_persist [OF assms(1), where c = c and lg = "hw_handback c"] assms(2) rt
    by (auto simp: retry_record_if_failed_def split: if_splits)
  have same: "origin_inv files i ep hdr v m d u \<Longrightarrow> origin_inv files i ep hdr v m d' u"
    if "hw_headers d' = hw_headers d" "hw_handback d' = hw_handback d" for d d' u
    using origin_inv_cong [of files i ep hdr v m d u d' u] that by simp
  show ?thesis
  proof (cases "\<exists>u. validate_lease now lid (hw_lease_manager c) = Inr u")
    case False
    then show ?thesis using assms(2,3) by (auto simp: hw_hand_back_def split: sum.splits)
  next
    case lease: True
    show ?thesis
    proof (cases "taken_header lg j")
      case None
      then show ?thesis using assms(3) lease 1 by (auto simp: hw_hand_back_def rt)
    next
      case (Some t)
      then obtain e where e: "lg_get lg j = Some e" "en_taken e" "t = taken j e"
        by (auto simp: taken_header_def split: option.splits if_splits)
      obtain out w2 where hb: "hand_back h (th_enable_path t) (th_pwm_path t) (th_action t) w1 = (out, w2)" by (rule prod.exhaust)
      have 2: "origin_inv files i ep hdr v m (c\<lparr>hw_handback := lg\<rparr>) w2"
      proof (cases "j = i")
        case True
        have "\<not> needs_original lg i"
          by (rule origin_entry [OF 1]) (use e True in \<open>auto simp: needs_original_def origin_ok_def split: if_splits\<close>)
        then show ?thesis using origin_recorded [OF 1] by simp
      next
        case False
        then have "files w2 ep = files w1 ep"
          using hand_back_other [OF assms(1), of ep "th_enable_path t" "th_pwm_path t" "th_action t" w1] hb e
            origin_others [OF 1, of j e] by (auto simp: taken_def)
        then show ?thesis by (intro origin_inv_cong [OF 1]) simp_all
      qed
      obtain lg3 w3 where nh: "note_handed_back h j lg w2 = (lg3, w3)" by (rule prod.exhaust)
      let ?e = "e\<lparr>en_taken := False, en_failure_logged := False\<rparr>"
      have put: "origin_inv files i ep hdr v m (c\<lparr>hw_handback := lg_put j ?e lg\<rparr>) w2"
      proof (cases "j = i")
        case True
        have "origin_ok files ep v m w2 ?e"
          by (rule origin_entry [OF 2]) (use e True in \<open>auto simp: origin_ok_def split: if_splits\<close>)
        then show ?thesis using 2 e True unfolding origin_inv_def by simp
      next
        case False
        then show ?thesis using origin_inv_put [OF 2, of j e ?e] e by simp
      qed
      have 3: "origin_inv files i ep hdr v m (c\<lparr>hw_handback := lg3\<rparr>) w3"
        using origin_inv_persist [OF assms(1) put] nh e by (simp add: note_handed_back_def)
      let ?rel = "c\<lparr>hw_handback := lg3, hw_write_state := hm_remove j (hw_write_state c)\<rparr>"
      let ?keep = "update_ws j (\<lambda>ws. ws\<lparr>ws_drift := drift_default\<rparr>) (c\<lparr>hw_handback := lg\<rparr>)"
      have "(c', w') = (if released out then (?rel, w3) else (?keep, w2))"
        using assms(3) lease Some by (auto simp: hw_hand_back_def rt hb nh split: if_splits)
      moreover have "origin_inv files i ep hdr v m ?rel w3" using same [OF _ _ 3, of ?rel] by simp
      moreover have "origin_inv files i ep hdr v m ?keep w2"
        using same [OF _ _ 2, of ?keep] by (simp add: update_ws_def split: option.splits)
      ultimately show ?thesis by (auto split: if_splits)
    qed
  qed
qed

text \<open>The controller as the daemon builds it, with its record on disk.\<close>

definition hwmon_start :: "'w Host \<Rightarrow> string \<Rightarrow> PwmHeaderDescriptor list \<Rightarrow> LeaseManager \<Rightarrow> 'w \<Rightarrow> HwmonPwmController \<times> 'w" where
  "hwmon_start h path headers lm w =
     (case set_record_path h path (hw_handback (hwmon_new headers lm)) w of
        (lg, w) \<Rightarrow> ((hwmon_new headers lm)\<lparr>hw_handback := lg\<rparr>, w))"

lemma hm_collect_map_get:
  assumes "distinct (map fst ps)" "(k, x) \<in> set ps"
  shows "map_of (hm_collect ps) k = Some x"
  using assms by (simp add: map_of_hm_collect_distinct hm_ok_def)

lemma hm_collect_set: "set (hm_collect ps) \<subseteq> set ps"
proof -
  have "set (fold (\<lambda>(k, v) m. hm_insert k v m) ps m) \<subseteq> set ps \<union> set m" for m :: "('a, 'b) hmap"
  proof (induction ps arbitrary: m)
    case (Cons p ps)
    have "set (hm_insert k x m) \<subseteq> insert (k, x) (set m)" for k :: 'a and x :: 'b
      unfolding hm_insert_def by (induction m) auto
    then show ?case using Cons [of "hm_insert (fst p) (snd p) m"] by (cases p) fastforce
  qed simp
  from this [of "[]"] show ?thesis by (simp add: hm_collect_def)
qed

lemma ledger_new_distinct:
  assumes "distinct (map hd_id headers)" "hdr \<in> set headers" "hd_supports_enable hdr" "hd_enable_path hdr = Some ep"
  shows "lg_get (ledger_new headers) (hd_id hdr) = Some \<lparr>en_enable_path = ep, en_pwm_path = hd_pwm_path hdr, en_original = None,
    en_taken = False, en_failure_logged = False\<rparr>"
proof -
  have "distinct (map fst (List.map_filter ledger_entry headers))"
    using assms(1)
  proof (induction headers)
    case (Cons d ds)
    have "fst ` set (List.map_filter ledger_entry ds) \<subseteq> hd_id ` set ds"
      by (auto simp: List.map_filter_def ledger_entry_def split: if_splits)
    moreover have "ledger_entry d = Some p \<Longrightarrow> fst p = hd_id d" for p
      by (auto simp: ledger_entry_def split: if_splits)
    ultimately show ?case using Cons by (cases "ledger_entry d") (auto simp: List.map_filter_simps)
  qed (simp add: List.map_filter_simps)
  moreover have "(hd_id hdr, \<lparr>en_enable_path = ep, en_pwm_path = hd_pwm_path hdr, en_original = None,
      en_taken = False, en_failure_logged = False\<rparr>) \<in> set (List.map_filter ledger_entry headers)"
    using assms(2-4) by (force simp: List.map_filter_def ledger_entry_def)
  ultimately show ?thesis by (simp add: lg_get_def ledger_new_def hm_collect_map_get)
qed

lemma ledger_new_entry:
  "lg_get (ledger_new headers) j = Some e \<Longrightarrow>
     \<exists>d \<in> set headers. hd_id d = j \<and> en_pwm_path e = hd_pwm_path d \<and> hd_enable_path d = Some (en_enable_path e)"
  using hm_collect_set [of "List.map_filter ledger_entry headers"]
  by (fastforce simp: lg_get_def ledger_new_def List.map_filter_def ledger_entry_def dest!: map_of_SomeD split: if_splits)

lemma start_origin:
  assumes "file_store h files" "distinct (map hd_id headers)" "hdr \<in> set headers" "hd_supports_enable hdr" "hd_enable_path hdr = Some ep"
    and "\<forall>d \<in> set headers. hd_pwm_path d \<noteq> ep \<and> (hd_enable_path d = Some ep \<longrightarrow> d = hdr)"
    and "path \<noteq> ep" "files w ep = Some v" "hwmon_start h path headers lm w = (c, w')"
  shows "origin_inv files (hd_id hdr) ep hdr v m c w'"
proof -
  let ?c0 = "hwmon_new headers lm"
  let ?lg = "(hw_handback ?c0)\<lparr>lg_state := (lg_state (hw_handback ?c0))\<lparr>ls_record_path := Some path\<rparr>\<rparr>"
  have lg: "lg_get ?lg j = lg_get (ledger_new headers) j" for j by (simp add: lg_get_def hwmon_new_def)
  have hs: "hw_headers ?c0 = hm_collect (map (\<lambda>d. (hd_id d, d)) headers)" by (simp add: hwmon_new_def)
  have sub: "\<forall>(k, d) \<in> set (hw_headers ?c0). d \<in> set headers \<and> k = hd_id d"
    using hm_collect_set [of "map (\<lambda>d. (hd_id d, d)) headers"] by (fastforce simp: hs)
  have own: "map_of (hw_headers ?c0) (hd_id hdr) = Some hdr"
    unfolding hs using assms(2,3) by (intro hm_collect_map_get) (auto simp: comp_def)
  have others: "en_pwm_path e \<noteq> ep \<and> en_enable_path e \<noteq> ep" if "lg_get ?lg j = Some e" "j \<noteq> hd_id hdr" for j e
    using ledger_new_entry [of headers j e] that assms(6) unfolding lg by auto
  have mine: "origin_ok files ep v m w \<lparr>en_enable_path = ep, en_pwm_path = hd_pwm_path hdr, en_original = None,
      en_taken = False, en_failure_logged = False\<rparr>"
    using assms(3,6,8) by (simp add: origin_ok_def)
  have "origin_inv files (hd_id hdr) ep hdr v m (?c0\<lparr>hw_handback := ?lg\<rparr>) w"
    unfolding origin_inv_def
    using own sub assms(6,7) others mine lg [of "hd_id hdr"] ledger_new_distinct [OF assms(2-5)] by auto
  then show ?thesis
    using origin_inv_persist [OF assms(1), where c = ?c0 and lg = ?lg] assms(9)
    by (auto simp: hwmon_start_def set_record_path_def split: prod.splits)
qed

text \<open>C22: a header is given back as it was found. Take a file system without interference and a header
  whose mode read \<open>m\<close> (not manual, and not the curve mode of a Kraken, which is never replayed) before
  the daemon started. After any history of commands, lease changes, hand-backs, releases and resumes by
  any of the writers, if the daemon holds the header and its driver takes mode writes, a hand-back under
  a valid lease reports \<open>Restored\<close>, leaves exactly that mode in the header's file, and ends the hold.\<close>

theorem header_is_given_back_as_found:
  assumes "file_store h files" "distinct (map hd_id headers)" "hdr \<in> set headers" "hd_supports_enable hdr" "hd_enable_path hdr = Some ep"
    and "\<forall>d \<in> set headers. hd_pwm_path d \<noteq> ep \<and> (hd_enable_path d = Some ep \<longrightarrow> d = hdr)" "path \<noteq> ep"
    and "files w0 ep = Some v" "parse_u8 (trim v) = Some m" "m \<noteq> 1" "\<not> (m = 2 \<and> is_nzxt_kraken3_chip (hd_chip_name hdr))"
    and "\<And>x w. \<exists>w'. write_file h ep x w = (Inr (), w')"
    and "hwmon_start h path headers lm w0 = (c0, w1)" "fold (hw_step h) ops (c0, cache, w1) = (c, cache1, w)"
    and "is_taken (hw_handback c) (hd_id hdr)" "validate_lease now lid (hw_lease_manager c) = Inr ()"
  shows "\<exists>c' cache' w'. hw_hand_back h now (hd_id hdr) lid (c, cache1, w) = (Inr (Some Restored), c', cache', w') \<and>
    files w' ep = Some (show_nat m) \<and> \<not> is_taken (hw_handback c') (hd_id hdr)"
proof -
  let ?i = "hd_id hdr"
  have keeps: "hand_back_keeps h (origin_inv files ?i ep hdr v m)"
    unfolding hand_back_keeps_def using hand_back_origin [OF assms(1)] by blast
  note start = start_origin [OF assms(1-8,13), of m]
  note inv = hw_run_stable [OF origin_stable [OF assms(1,9,10,11,5)] keeps start assms(14)]
  obtain lg w2 where rt: "retry_record_if_failed h (hw_handback c) w = (lg, w2)" by (rule prod.exhaust)
  have 1: "origin_inv files ?i ep hdr v m (c\<lparr>hw_handback := lg\<rparr>) w2"
    using stable_retry [OF origin_stable [OF assms(1,9,10,11,5)] inv rt] .
  have "lg_get (fst (retry_record_if_failed h (hw_handback c) w)) ?i = lg_get (hw_handback c) ?i"
    by (simp add: retry_record_if_failed_def)
  then have "lg_get lg ?i = lg_get (hw_handback c) ?i" by (simp add: rt)
  then obtain e where e: "lg_get lg ?i = Some e" "en_taken e"
    using assms(15) by (auto simp: is_taken_def split: option.splits)
  have ok: "origin_ok files ep v m w2 e" using origin_entry [OF 1] e(1) by auto
  then have t: "taken_header lg ?i = Some \<lparr>th_id = ?i, th_enable_path = ep, th_pwm_path = en_pwm_path e, th_action = Mode m\<rparr>"
    using e by (auto simp: taken_header_def taken_def entry_action_def origin_ok_def split: if_splits)
  obtain w3 where wr: "write_file h ep (show_nat m) w2 = (Inr (), w3)" using assms(12) by blast
  obtain r w4 where rd: "read_u8 h ep w3 = (r, w4)" by (rule prod.exhaust)
  have f3: "files w3 ep = Some (show_nat m)" using store_write [OF assms(1) wr] by simp
  have "m \<le> 255" using parse_u8_le [OF assms(9)] .
  then have "r = Some m"
    using store_u8(2) [OF assms(1) rd f3] by (simp add: trim_show_nat parse_show_nat)
  then have hb: "hand_back h ep (en_pwm_path e) (Mode m) w2 = (Restored, w4)"
    by (simp add: hand_back_def restore_def and_then_def writes_ok_def reads_as_def wr rd)
  obtain lg5 w5 where nh: "note_handed_back h ?i lg w4 = (lg5, w5)" by (rule prod.exhaust)
  have "ls_record_path (lg_state lg) \<noteq> Some ep" using 1 by (simp add: origin_inv_def)
  then have "files w5 ep = Some (show_nat m)" "\<not> is_taken lg5 ?i"
    using nh e store_persist [OF assms(1), of "lg_put ?i (e\<lparr>en_taken := False, en_failure_logged := False\<rparr>) lg" w4 lg5 w5 ep]
      persist_entries [of h "lg_put ?i (e\<lparr>en_taken := False, en_failure_logged := False\<rparr>) lg" w4 ?i]
      store_u8(1) [OF assms(1) rd] f3 by (simp_all add: note_handed_back_def is_taken_def)
  then show ?thesis
    using assms(16) t hb nh by (simp add: hw_hand_back_def rt)
qed

section \<open>Concrete histories\<close>

definition open_host :: "FileHost Host" where
  "open_host = plain_host\<lparr>write_file := (\<lambda>p v w. (Inr (), w\<lparr>fh_files := hm_insert p v (fh_files w)\<rparr>))\<rparr>"

definition sample_cache :: HwmonCache where
  "sample_cache = \<lparr>hc_state = daemon_state_default, hc_resume_detected = False, hc_fans = [], hc_seen_spinning = {},
     hc_diagnostic_commanded = [], hc_reconciliation = [], hc_abandoned = {}, hc_exit_floor_pct = 40\<rparr>"

lemma open_host_store: "file_store open_host plain_files"
  by (auto simp: file_store_def open_host_def plain_host_def plain_files_def)

definition engine_leases :: LeaseManager where
  "engine_leases =
     \<lparr>lm_active = Some \<lparr>lease_id = ''lease-1'', lease_owner = WriterEngine, lease_expires_at = 9\<rparr>, lm_ttl = 9, lm_next_id = 2\<rparr>"

definition return_start :: "HwmonPwmController \<times> FileHost" where
  "return_start = hwmon_start open_host ''/run/record'' [sample_header] engine_leases sample_host"

definition return_state :: "FileHost hw" where
  "return_state =
     snd (hw_set_pwm open_host 1 ''hwmon:it8696:pwm1'' 50 ''lease-1'' (fst return_start, sample_cache, snd return_start))"

lemmas start_eval = return_start_def hwmon_start_def set_record_path_def persist_def write_record_def hwmon_new_def ledger_new_def
  ledger_entry_def hm_collect_def hm_insert_def sample_header_def sample_host_def open_host_def plain_host_def engine_leases_def

lemmas set_eval = hw_set_pwm_def validate_lease_def lease_reconciles_def active_lease_def clear_after_resume_def take_resume_flag_def
  refuse_after_hand_back_def owned_header_def retry_record_if_failed_def raised_to_exit_min_def enable_reclaimed_def
  prepare_write_def entry_ws_def write_state_default_def write_or_coalesce_def take_header_def read_original_def needs_original_def
  note_take_def lg_get_def lg_put_def write_duty_def prime_shared_report_siblings_def is_shared_report_chip_def SHARED_REPORT_CHIPS_def
  confirm_write_def resume_priming_after_success_def read_u8_def read_rpm_def sample_cache_def is_taken_def

lemma return_state_facts:
  "is_taken (hw_handback (fst return_state)) ''hwmon:it8696:pwm1'' \<and>
   validate_lease 3 ''lease-1'' (hw_lease_manager (fst return_state)) = Inr ()"
proof -
  have "percent_to_raw 50 \<le> 255" by (simp add: percent_to_raw_def)
  then show ?thesis
    unfolding return_state_def by (simp add: set_eval start_eval trim_show_nat parse_show_nat Let_def)
qed

theorem header_is_given_back_as_found_witness:
  "plain_files (snd (snd (snd (hw_hand_back open_host 3 ''hwmon:it8696:pwm1'' ''lease-1'' return_state)))) ''/sys/pwm1_enable'' =
     Some (show_nat 2)"
proof -
  obtain c0 w1 where st: "return_start = (c0, w1)" by (rule prod.exhaust)
  obtain c cache1 w where run: "return_state = (c, cache1, w)" by (rule prod_cases3)
  have m: "parse_u8 (trim ''2'') = Some 2" "\<not> is_nzxt_kraken3_chip ''it8696''" by code_simp+
  have f: "fold (hw_step open_host) [HSet 1 ''hwmon:it8696:pwm1'' 50 ''lease-1''] (c0, sample_cache, w1) = (c, cache1, w)"
    using run by (simp add: return_state_def st)
  have t: "is_taken (hw_handback c) ''hwmon:it8696:pwm1''" "validate_lease 3 ''lease-1'' (hw_lease_manager c) = Inr ()"
    using return_state_facts by (simp_all add: run)
  have "\<exists>c' cache' w'. hw_hand_back open_host 3 (hd_id sample_header) ''lease-1'' (c, cache1, w) = (Inr (Some Restored), c', cache', w') \<and>
      plain_files w' ''/sys/pwm1_enable'' = Some (show_nat 2) \<and> \<not> is_taken (hw_handback c') (hd_id sample_header)"
    by (rule header_is_given_back_as_found [OF open_host_store, of "[sample_header]" sample_header "''/sys/pwm1_enable''" "''/run/record''"
          sample_host "''2''" 2 engine_leases c0 w1 "[HSet 1 ''hwmon:it8696:pwm1'' 50 ''lease-1'']" sample_cache c cache1 w])
       (use st [unfolded return_start_def] f t m in \<open>simp_all add: sample_header_def sample_host_def plain_files_def open_host_def\<close>)
  then show ?thesis by (auto simp: run sample_header_def)
qed

theorem hand_back_is_last_writer_witness:
  "snd (snd (snd (hw_set_pwm plain_host 0 ''hwmon:it8696:pwm1'' 50 ''lease-1''
     (hwmon_new [sample_header] lease_new, sample_cache, sample_host\<lparr>fh_begun := True\<rparr>)))) = sample_host\<lparr>fh_begun := True\<rparr>"
proof -
  have q: "silent_after plain_host (write_file plain_host)" by (simp add: silent_after_def plain_host_def)
  have hd: "map_of (hw_headers (hwmon_new [sample_header] lease_new)) ''hwmon:it8696:pwm1'' = Some sample_header"
    by (simp add: hwmon_new_def hm_collect_def hm_insert_def sample_header_def)
  show ?thesis
    using hand_back_is_last_writer [OF q hd, of 0 50 "''lease-1''" sample_cache "sample_host\<lparr>fh_begun := True\<rparr>"]
    by (simp add: owned_header_def sample_header_def is_shared_report_chip_def SHARED_REPORT_CHIPS_def plain_host_def)
qed

definition bare_header :: PwmHeaderDescriptor where
  "bare_header = sample_header\<lparr>hd_supports_enable := False, hd_enable_path := None\<rparr>"

definition floor_state :: "HwmonExitFloorWrite list \<times> HwmonPwmController \<times> FileHost" where
  "floor_state = hw_apply_exit_floor plain_host 40 (hwmon_new [bare_header] engine_leases, sample_host)"

definition floored_write :: "(HwmonControlError + HwmonSetPwmResult) \<times> FileHost hw" where
  "floored_write = (case floor_state of (out, c, w) \<Rightarrow>
     hw_set_pwm plain_host 1 ''hwmon:it8696:pwm1'' 10 ''lease-1'' (c, sample_cache, w))"

lemma floored_write_succeeds: "fst floored_write = Inr (set_pwm_ok ''hwmon:it8696:pwm1'' 40)"
  unfolding floored_write_def floor_state_def
  by (simp add: set_eval start_eval bare_header_def hw_apply_exit_floor_def latch_exit_min_def exit_floor_ids_def hm_contains_def Let_def)

theorem hwmon_exit_floor_is_final_witness:
  "\<exists>res. fst floored_write = Inr res \<and> 40 \<le> sr_pwm_percent res"
proof -
  obtain res c3 cache3 w3 where r: "floored_write = (Inr res, c3, cache3, w3)"
    using floored_write_succeeds by (metis prod.collapse)
  obtain out c1 w1 where f: "floor_state = (out, c1, w1)" by (rule prod_cases3)
  have g: "fold (hw_step plain_host) [] (c1, sample_cache, w1) = (c1, sample_cache, w1)" by simp
  have ok0: "headers_ok (hwmon_new [bare_header] engine_leases)"
    by (simp add: headers_ok_def hwmon_new_def hm_collect_def hm_insert_def hm_ok_def)
  have hd: "map_of (hw_headers (hwmon_new [bare_header] engine_leases)) ''hwmon:it8696:pwm1'' = Some bare_header"
    by (simp add: hwmon_new_def hm_collect_def hm_insert_def bare_header_def sample_header_def)
  have "40 \<le> sr_pwm_percent res \<and> sr_pwm_percent res \<le> 100"
    by (rule hwmon_exit_floor_is_final [OF _ _ ok0 f [unfolded floor_state_def] g hd, of 1 10 "''lease-1''" res c3 cache3 w3])
       (use r in \<open>simp_all add: bare_header_def floored_write_def f\<close>)
  then show ?thesis by (intro exI [of _ res]) (simp add: r)
qed
end
