(* ===== verification/Uf2.thy ===== *)
theory Uf2
  imports Ofc_Prelude "HOL-Library.Word" "HOL-Library.RBT"
begin

text \<open>
  A UF2 firmware image (\<open>serial/uf2.rs\<close>): the parser of the file the daemon is about to write to the
  board's flash, and the split of its pages into sectors and runs. Bytes and addresses keep their
  widths (\<open>8 word\<close>, \<open>32 word\<close>); the \<open>BTreeMap\<close> of pages is a red-black tree, whose \<open>entries\<close> are in
  the order of the addresses. A message of \<open>Uf2Error\<close> is its reason with the numbers it prints.
\<close>

type_synonym byte = "8 word"
type_synonym addr = "32 word"
type_synonym pages = "(addr, byte list) rbt"

section \<open>The parser\<close>

definition BLOCK_SIZE :: nat where "BLOCK_SIZE = 512"
definition PAGE_SIZE :: nat where "PAGE_SIZE = 256"
definition SECTOR_SIZE :: addr where "SECTOR_SIZE = 4096"
definition FLASH_BASE :: addr where "FLASH_BASE = 0x10000000"
definition FLASH_SIZE :: addr where "FLASH_SIZE = 4 * 1024 * 1024"
definition MAX_FILE_BYTES :: nat where "MAX_FILE_BYTES = 1024 * 1024"
definition RP2040_FAMILY_ID :: addr where "RP2040_FAMILY_ID = 0xE48BFF56"
definition MAGIC_START0 :: addr where "MAGIC_START0 = 0x0A324655"
definition MAGIC_START1 :: addr where "MAGIC_START1 = 0x9E5D5157"
definition MAGIC_END :: addr where "MAGIC_END = 0x0AB16F30"
definition FLAG_FAMILY_ID_PRESENT :: addr where "FLAG_FAMILY_ID_PRESENT = 0x00002000"
definition HEADER_LEN :: nat where "HEADER_LEN = 32"

lemmas uf2_sizes = BLOCK_SIZE_def PAGE_SIZE_def HEADER_LEN_def

datatype Uf2Error =
    FileEmpty | FileTooLarge | NotWholeBlocks
  | NotUf2Block nat | BadFlags nat addr | BadFamily nat addr | BadPayload nat addr
  | BadNumber nat addr addr nat | Unaligned nat addr | OutsideFlash nat addr | WritesAgain nat addr
  | NotAtFlashStart

record Run =
  run_addr :: addr
  run_data :: "byte list"

record Sector =
  sec_base :: addr
  sec_runs :: "Run list"

definition sector_bytes :: "Sector \<Rightarrow> u64" where
  "sector_bytes s = sum_list (map (length \<circ> run_data) (sec_runs s))"

text \<open>\<open>u32::from_le_bytes\<close> of the four bytes at an offset.\<close>

definition word_at :: "byte list \<Rightarrow> nat \<Rightarrow> addr" where
  "word_at block k =
     word_of_nat (unat (block ! k) + 2 ^ 8 * unat (block ! (k + 1)) + 2 ^ 16 * unat (block ! (k + 2)) + 2 ^ 24 * unat (block ! (k + 3)))"

text \<open>The loop body: the first problem of a block, or its payload.\<close>

definition block_problem :: "nat \<Rightarrow> nat \<Rightarrow> byte list \<Rightarrow> Uf2Error option" where
  "block_problem count index block =
     (let n = index + 1;
          flags = word_at block 8; a = word_at block 12; sz = word_at block 16;
          number = word_at block 20; total = word_at block 24; family = word_at block 28
      in if (word_at block 0, word_at block 4, word_at block (BLOCK_SIZE - 4)) \<noteq> (MAGIC_START0, MAGIC_START1, MAGIC_END)
           then Some (NotUf2Block n)
         else if flags \<noteq> FLAG_FAMILY_ID_PRESENT then Some (BadFlags n flags)
         else if family \<noteq> RP2040_FAMILY_ID then Some (BadFamily n family)
         else if unat sz \<noteq> PAGE_SIZE then Some (BadPayload n sz)
         else if unat number \<noteq> index \<or> unat total \<noteq> count then Some (BadNumber n number total count)
         else if unat a mod PAGE_SIZE \<noteq> 0 then Some (Unaligned n a)
         else if unat a < unat FLASH_BASE \<or> unat FLASH_BASE + unat FLASH_SIZE - PAGE_SIZE < unat a then Some (OutsideFlash n a)
         else None)"

definition block_payload :: "byte list \<Rightarrow> byte list" where
  "block_payload block = take PAGE_SIZE (drop HEADER_LEN block)"

fun parse_blocks :: "nat \<Rightarrow> nat \<Rightarrow> byte list list \<Rightarrow> pages \<Rightarrow> Uf2Error + pages" where
  "parse_blocks count index [] ps = Inr ps"
| "parse_blocks count index (block # rest) ps =
     (case block_problem count index block of
        Some e \<Rightarrow> Inl e
      | None \<Rightarrow>
          let a = word_at block 12 in
          if RBT.lookup ps a \<noteq> None then Inl (WritesAgain (index + 1) a)
          else parse_blocks count (index + 1) rest (RBT.insert a (block_payload block) ps))"

text \<open>\<open>as_chunks\<close> of a list whose length is a multiple of the chunk's.\<close>

definition chunks :: "nat \<Rightarrow> 'a list \<Rightarrow> 'a list list" where
  "chunks n xs = map (\<lambda>i. take n (drop (n * i) xs)) [0..<length xs div n]"

definition parse_image :: "byte list \<Rightarrow> Uf2Error + pages" where
  "parse_image data =
     (if data = [] then Inl FileEmpty
      else if MAX_FILE_BYTES < length data then Inl FileTooLarge
      else if length data mod BLOCK_SIZE \<noteq> 0 then Inl NotWholeBlocks
      else case parse_blocks (length data div BLOCK_SIZE) 0 (chunks BLOCK_SIZE data) RBT.empty of
        Inl e \<Rightarrow> Inl e
      | Inr ps \<Rightarrow>
          if map_option fst (find (\<lambda>_. True) (RBT.entries ps)) \<noteq> Some FLASH_BASE then Inl NotAtFlashStart else Inr ps)"

definition page_count :: "pages \<Rightarrow> nat" where
  "page_count ps = length (RBT.entries ps)"

definition byte_count :: "pages \<Rightarrow> u64" where
  "byte_count ps = page_count ps * PAGE_SIZE"

section \<open>Sectors and runs\<close>

definition sector_base :: "addr \<Rightarrow> addr" where
  "sector_base a = a - a mod SECTOR_SIZE"

definition add_run :: "addr \<Rightarrow> byte list \<Rightarrow> Run list \<Rightarrow> Run list" where
  "add_run a page runs =
     (case rev runs of
        r # rs \<Rightarrow>
          if run_addr r + word_of_nat (length (run_data r)) = a
          then rev rs @ [r\<lparr>run_data := run_data r @ page\<rparr>]
          else runs @ [\<lparr>run_addr = a, run_data = page\<rparr>]
      | [] \<Rightarrow> [\<lparr>run_addr = a, run_data = page\<rparr>])"

definition add_page :: "addr \<times> byte list \<Rightarrow> Sector list \<Rightarrow> Sector list" where
  "add_page = (\<lambda>(a, page) sectors.
     let sectors = (if sectors = [] \<or> sec_base (last sectors) \<noteq> sector_base a
                    then sectors @ [\<lparr>sec_base = sector_base a, sec_runs = []\<rparr>] else sectors)
     in butlast sectors @ [(last sectors)\<lparr>sec_runs := add_run a page (sec_runs (last sectors))\<rparr>])"

definition sectors :: "pages \<Rightarrow> Sector list" where
  "sectors ps = fold add_page (RBT.entries ps) []"

section \<open>What the parser reads\<close>

definition page_ok :: "addr \<times> byte list \<Rightarrow> bool" where
  "page_ok = (\<lambda>(a, page). unat a mod PAGE_SIZE = 0 \<and> length page = PAGE_SIZE \<and>
     unat FLASH_BASE \<le> unat a \<and> unat a + PAGE_SIZE \<le> unat FLASH_BASE + unat FLASH_SIZE)"

definition pages_ok :: "pages \<Rightarrow> bool" where
  "pages_ok ps = list_all page_ok (RBT.entries ps)"

lemma pages_okD: "pages_ok ps \<Longrightarrow> RBT.lookup ps a = Some page \<Longrightarrow> page_ok (a, page)"
  by (simp add: pages_ok_def list_all_iff RBT.lookup_in_tree)

lemma pages_okI: "(\<And>a page. RBT.lookup ps a = Some page \<Longrightarrow> page_ok (a, page)) \<Longrightarrow> pages_ok ps"
  by (auto simp: pages_ok_def list_all_iff RBT.lookup_in_tree)

lemma flash_end: "unat FLASH_BASE + unat FLASH_SIZE = 272629760"
  by (simp add: FLASH_BASE_def FLASH_SIZE_def)

lemma block_page_ok:
  assumes "block_problem count index block = None" "length block = BLOCK_SIZE"
  shows "page_ok (word_at block 12, block_payload block)"
  using assms by (auto simp: block_problem_def page_ok_def block_payload_def uf2_sizes flash_end Let_def split: if_splits)

lemma parse_blocks_pages:
  "parse_blocks count index blocks ps = Inr ps' \<Longrightarrow> pages_ok ps \<Longrightarrow> list_all (\<lambda>b. length b = BLOCK_SIZE) blocks \<Longrightarrow>
   pages_ok ps'"
proof (induction count index blocks ps rule: parse_blocks.induct)
  case (2 count index block rest ps)
  let ?a = "word_at block 12"
  from "2.prems" have b: "block_problem count index block = None" "RBT.lookup ps ?a = None"
    and r: "parse_blocks count (index + 1) rest (RBT.insert ?a (block_payload block) ps) = Inr ps'"
    by (auto simp: Let_def split: option.splits if_splits)
  have "pages_ok (RBT.insert ?a (block_payload block) ps)"
    using block_page_ok [OF b(1)] "2.prems" by (intro pages_okI) (auto dest: pages_okD split: if_splits)
  then show ?case using "2.IH" b r "2.prems" by simp
qed simp

lemma chunks_length: "length xs mod n = 0 \<Longrightarrow> list_all (\<lambda>b. length b = n) (chunks n xs)"
proof -
  assume "length xs mod n = 0"
  then obtain k where k: "length xs = n * k" by (metis mod_0_imp_dvd dvdE)
  show ?thesis
  proof (cases "n = 0")
    case False
    have "n \<le> n * k - n * i" if "i < k" for i
      using that by (metis Suc_leI diff_mult_distrib2 less_diff_conv add_0 mult_le_mono2 mult.right_neutral zero_less_diff One_nat_def)
    then show ?thesis using False k by (simp add: chunks_def list_all_iff)
  qed (use k in \<open>simp add: chunks_def\<close>)
qed

lemma parse_image_pages:
  assumes "parse_image data = Inr ps"
  shows "pages_ok ps"
  using assms parse_blocks_pages [of _ 0 "chunks BLOCK_SIZE data" RBT.empty ps] chunks_length [of data BLOCK_SIZE]
    pages_okI [of RBT.empty]
  by (auto simp: parse_image_def split: if_splits sum.splits)

section \<open>What is written to the flash\<close>

text \<open>
  The effect of the sectors on the board's NOR flash: a sector is erased whole (every bit set), and
  programming can only clear bits.
\<close>

definition cells :: "addr \<Rightarrow> byte list \<Rightarrow> (addr \<times> byte) list" where
  "cells a bs = zip (map (\<lambda>i. a + word_of_nat i) [0..<length bs]) bs"

definition sector_cells :: "Sector \<Rightarrow> (addr \<times> byte) list" where
  "sector_cells s = concat (map (\<lambda>r. cells (run_addr r) (run_data r)) (sec_runs s))"

definition erase :: "addr \<Rightarrow> (addr \<Rightarrow> byte) \<Rightarrow> addr \<Rightarrow> byte" where
  "erase base f x = (if sector_base x = base then - 1 else f x)"

definition program :: "addr \<times> byte \<Rightarrow> (addr \<Rightarrow> byte) \<Rightarrow> addr \<Rightarrow> byte" where
  "program = (\<lambda>(a, b) f. f(a := and (f a) b))"

definition flash_sector :: "Sector \<Rightarrow> (addr \<Rightarrow> byte) \<Rightarrow> addr \<Rightarrow> byte" where
  "flash_sector s f = fold (\<lambda>r f. fold program (cells (run_addr r) (run_data r)) f) (sec_runs s) (erase (sec_base s) f)"

lemma fold_concat: "fold (\<lambda>r. fold g (h r)) rs = fold g (concat (map h rs))"
  by (induction rs) (auto simp: fun_eq_iff)

lemma flash_sector_cells: "flash_sector s f = fold program (sector_cells s) (erase (sec_base s) f)"
  by (simp add: flash_sector_def sector_cells_def fold_concat)

lemma cells_append: "cells a (xs @ ys) = cells a xs @ cells (a + word_of_nat (length xs)) ys"
proof -
  have "map (\<lambda>i. a + word_of_nat i) [0..<length xs + length ys] =
      map (\<lambda>i. a + word_of_nat i) [0..<length xs] @ map (\<lambda>i. a + word_of_nat (length xs) + word_of_nat i) [0..<length ys]"
    by (rule nth_equalityI) (auto simp: nth_append simp flip: of_nat_add)
  then show ?thesis by (simp add: cells_def)
qed

lemma add_run_cells:
  "concat (map (\<lambda>r. cells (run_addr r) (run_data r)) (add_run a page runs)) =
   concat (map (\<lambda>r. cells (run_addr r) (run_data r)) runs) @ cells a page"
  by (cases runs rule: rev_cases) (auto simp: add_run_def cells_append)

lemma add_page_cells:
  "concat (map sector_cells (add_page (a, page) ss)) = concat (map sector_cells ss) @ cells a page"
proof (cases ss rule: rev_cases)
  case (snoc ts t)
  then show ?thesis by (auto simp: add_page_def Let_def butlast_append sector_cells_def add_run_cells)
qed (auto simp: add_page_def sector_cells_def add_run_cells)

lemma fold_page_cells:
  "concat (map sector_cells (fold add_page es ss)) = concat (map sector_cells ss) @ concat (map (\<lambda>(a, page). cells a page) es)"
  by (induction es arbitrary: ss) (auto simp: add_page_cells)

lemma unat_sector_base: "unat (sector_base a) = unat a div 4096 * 4096"
proof -
  have "unat (a mod 4096) = unat a mod 4096" by (simp add: unat_mod_distrib)
  then have "a mod 4096 \<le> a" by (simp add: word_le_nat_alt)
  then have "unat (sector_base a) = unat a - unat a mod 4096"
    by (simp add: sector_base_def SECTOR_SIZE_def unat_sub unat_mod_distrib)
  then show ?thesis by (simp add: minus_mod_eq_div_mult)
qed

lemma sector_base_mono: "a \<le> b \<Longrightarrow> sector_base a \<le> sector_base b"
  by (simp add: word_le_nat_alt unat_sector_base div_le_mono)

lemma sector_base_eq: "sector_base a = sector_base b \<longleftrightarrow> unat a div 4096 = unat b div 4096"
  by (metis unat_sector_base nonzero_mult_div_cancel_right unsigned_word_eqI zero_neq_numeral)

lemma page_arith:
  fixes n i :: nat
  assumes "n mod 256 = 0" "i < 256"
  shows "n < 4294967296 \<Longrightarrow> n + i < 4294967296" "(n + i) div 4096 = n div 4096"
proof -
  from assms(1) obtain k where "n = 256 * k" by (metis mod_0_imp_dvd dvdE)
  then show "n < 4294967296 \<Longrightarrow> n + i < 4294967296" "(n + i) div 4096 = n div 4096"
    using assms(2) div_mult2_eq [of "n + i" 256 16] div_mult2_eq [of n 256 16] by simp_all
qed

lemma unat_in_page:
  assumes "unat (a :: addr) mod 256 = 0" "i < 256"
  shows "unat (a + word_of_nat i) = unat a + i"
proof -
  have "unat a < 2 ^ 32" using unsigned_less [of a] by simp
  then have "unat a + i < 2 ^ 32" using page_arith(1) [OF assms] by simp
  then show ?thesis by (simp add: unat_word_ariths unat_of_nat)
qed

lemma sector_base_in_page:
  assumes "unat (a :: addr) mod 256 = 0" "i < 256"
  shows "sector_base (a + word_of_nat i) = sector_base a"
  by (simp add: sector_base_eq unat_in_page [OF assms] page_arith(2) [OF assms])

lemma set_cells: "set (cells a bs) = {(a + word_of_nat i, bs ! i) | i. i < length bs}"
proof -
  have "set (cells a bs) = {(map (\<lambda>i. a + word_of_nat i) [0..<length bs] ! i, bs ! i) | i. i < length bs}"
    by (simp add: cells_def set_zip)
  also have "\<dots> = {(a + word_of_nat i, bs ! i) | i. i < length bs}" by (rule Collect_cong) (metis (no_types) add_0 diff_zero length_upt nth_map nth_upt)
  finally show ?thesis .
qed

definition secs_ok :: "Sector list \<Rightarrow> bool" where
  "secs_ok ss = (sorted_wrt (<) (map sec_base ss) \<and>
     list_all (\<lambda>s. list_all (\<lambda>(x, b). sector_base x = sec_base s) (sector_cells s)) ss)"

lemma page_cells_base: "page_ok (a, page) \<Longrightarrow> list_all (\<lambda>(x, b). sector_base x = sector_base a) (cells a page)"
  by (auto simp: list_all_iff set_cells page_ok_def PAGE_SIZE_def sector_base_in_page)

lemma add_page_new:
  assumes "ss = [] \<or> sec_base (last ss) \<noteq> sector_base a"
  shows "add_page (a, page) ss = ss @ [\<lparr>sec_base = sector_base a, sec_runs = [\<lparr>run_addr = a, run_data = page\<rparr>]\<rparr>]"
  using assms by (auto simp: add_page_def Let_def butlast_append add_run_def)

lemma add_page_same:
  assumes "sec_base t = sector_base a"
  shows "add_page (a, page) (ts @ [t]) = ts @ [t\<lparr>sec_runs := add_run a page (sec_runs t)\<rparr>]"
  using assms by (simp add: add_page_def)

lemma sorted_wrt_last: "sorted_wrt (<) (map f (xs @ [x])) \<Longrightarrow> y \<in> set xs \<Longrightarrow> f y < (f x :: addr)"
  by (auto simp: sorted_wrt_append)

lemma add_page_ok:
  assumes "secs_ok ss" "page_ok (a, page)" "ss \<noteq> [] \<Longrightarrow> sec_base (last ss) \<le> sector_base a"
  shows "secs_ok (add_page (a, page) ss) \<and> add_page (a, page) ss \<noteq> [] \<and> sec_base (last (add_page (a, page) ss)) = sector_base a \<and>
    sec_base ` set (add_page (a, page) ss) = insert (sector_base a) (sec_base ` set ss)"
proof (cases "ss = [] \<or> sec_base (last ss) \<noteq> sector_base a")
  case True
  have "sec_base s < sector_base a" if "s \<in> set ss" for s
  proof (cases ss rule: rev_cases)
    case (snoc ts t)
    then have "sec_base t < sector_base a" using True assms(3) by auto
    then show ?thesis using that snoc assms(1) sorted_wrt_last [of sec_base ts t s] by (auto simp: secs_ok_def)
  qed (use that in simp)
  then show ?thesis
    using assms(1) page_cells_base [OF assms(2)] add_page_new [OF True]
    by (auto simp: secs_ok_def sorted_wrt_append sector_cells_def)
next
  case False
  then obtain ts t where t: "ss = ts @ [t]" "sec_base t = sector_base a" by (cases ss rule: rev_cases) auto
  have "list_all (\<lambda>(x, b). sector_base x = sec_base t) (sector_cells (t\<lparr>sec_runs := add_run a page (sec_runs t)\<rparr>))"
    using assms(1) page_cells_base [OF assms(2)] by (simp add: t secs_ok_def sector_cells_def add_run_cells)
  then show ?thesis using assms(1) by (auto simp: t add_page_same secs_ok_def)
qed

lemma fold_page_ok:
  assumes "secs_ok ss" "list_all page_ok es" "sorted (map fst es)"
    and "\<And>e. ss \<noteq> [] \<Longrightarrow> e \<in> set es \<Longrightarrow> sec_base (last ss) \<le> sector_base (fst e)"
  shows "secs_ok (fold add_page es ss) \<and> sec_base ` set (fold add_page es ss) = sec_base ` set ss \<union> (sector_base \<circ> fst) ` set es"
  using assms
proof (induction es arbitrary: ss)
  case (Cons e es)
  obtain a page where e: "e = (a, page)" by fastforce
  have 1: "secs_ok (add_page e ss) \<and> add_page e ss \<noteq> [] \<and> sec_base (last (add_page e ss)) = sector_base a \<and>
      sec_base ` set (add_page e ss) = insert (sector_base a) (sec_base ` set ss)"
    using add_page_ok [of ss a page] Cons.prems(1,2) Cons.prems(4) [of e] e by simp
  have "sector_base a \<le> sector_base (fst d)" if "d \<in> set es" for d
    using Cons.prems(3) that e by (auto intro: sector_base_mono)
  with Cons.IH [of "add_page e ss"] 1 Cons.prems(2,3) e show ?case by auto
qed simp

lemma program_fold:
  assumes "distinct (map fst cs)"
  shows "fold program cs f x = (case map_of cs x of Some b \<Rightarrow> and (f x) b | None \<Rightarrow> f x)"
  using assms
proof (induction cs arbitrary: f)
  case (Cons c cs)
  obtain a b where c: "c = (a, b)" by fastforce
  have "map_of cs a = None" using Cons.prems c by (simp add: map_of_eq_None_iff)
  then show ?case using Cons c by (auto simp: program_def split: option.split)
qed simp

lemma sector_cells_base: "list_all (\<lambda>(x, b). sector_base x = sec_base s) (sector_cells s) \<Longrightarrow>
    map_of (sector_cells s) x = Some b \<Longrightarrow> sector_base x = sec_base s"
  by (auto simp: list_all_iff dest!: map_of_SomeD)

lemma flash_sector_at:
  assumes "distinct (map fst (sector_cells s))" "list_all (\<lambda>(x, b). sector_base x = sec_base s) (sector_cells s)"
  shows "flash_sector s f x =
    (if sector_base x = sec_base s then (case map_of (sector_cells s) x of Some b \<Rightarrow> b | None \<Rightarrow> - 1) else f x)"
  using sector_cells_base [OF assms(2), of x]
  by (auto simp: flash_sector_cells program_fold [OF assms(1)] erase_def split: option.split)

lemma flash_sectors_at:
  assumes "secs_ok ss" "distinct (map fst (concat (map sector_cells ss)))"
  shows "fold flash_sector ss f x =
    (if sector_base x \<in> sec_base ` set ss
     then (case map_of (concat (map sector_cells ss)) x of Some b \<Rightarrow> b | None \<Rightarrow> - 1) else f x)"
  using assms
proof (induction ss arbitrary: f)
  case (Cons s ss)
  have b: "list_all (\<lambda>(x, b). sector_base x = sec_base s) (sector_cells s)" "secs_ok ss" and new: "sec_base s \<notin> sec_base ` set ss"
    using Cons.prems(1) by (auto simp: secs_ok_def)
  have d: "distinct (map fst (sector_cells s))" "distinct (map fst (concat (map sector_cells ss)))"
    using Cons.prems(2) by auto
  have "map_of (concat (map sector_cells ss)) x = None" if "sector_base x = sec_base s"
  proof (rule ccontr)
    assume "map_of (concat (map sector_cells ss)) x \<noteq> None"
    then obtain t b where "t \<in> set ss" "(x, b) \<in> set (sector_cells t)" by (auto dest!: map_of_SomeD)
    then have "sector_base x = sec_base t" using b(2) by (auto simp: secs_ok_def list_all_iff)
    then show False using new that \<open>t \<in> set ss\<close> by force
  qed
  moreover have "map_of (sector_cells s) x = None" if "sector_base x \<noteq> sec_base s"
    using sector_cells_base [OF b(1), of x] that by (cases "map_of (sector_cells s) x") auto
  moreover have "sector_base x \<notin> sec_base ` set ss" if "sector_base x = sec_base s" using new that by simp
  ultimately show ?case
    using Cons.IH [OF b(2) d(2), of "flash_sector s f"] flash_sector_at [OF d(1) b(1), of f x]
    by (cases "sector_base x = sec_base s") (simp_all add: map_add_def split: option.split)
qed simp

text \<open>The page an address lies in, and its place there.\<close>

definition page_base :: "addr \<Rightarrow> addr" where
  "page_base x = x - x mod 256"

lemma unat_page_base: "unat (page_base x) = unat x div 256 * 256" "unat x = unat (page_base x) + unat x mod 256"
proof -
  have "unat (x mod 256) = unat x mod 256" by (simp add: unat_mod_distrib)
  then have "x mod 256 \<le> x" by (simp add: word_le_nat_alt)
  then show "unat (page_base x) = unat x div 256 * 256"
    by (subst page_base_def, subst unat_sub, assumption) (simp add: unat_mod_distrib minus_mod_eq_div_mult)
  then show "unat x = unat (page_base x) + unat x mod 256" by simp
qed

lemma in_page_iff:
  assumes "unat (a :: addr) mod 256 = 0" "i < 256"
  shows "x = a + word_of_nat i \<longleftrightarrow> a = page_base x \<and> i = unat x mod 256"
proof -
  have "x = a + word_of_nat i \<longleftrightarrow> unat x = unat a + i"
    using unat_in_page [OF assms] by (metis unsigned_word_eqI)
  also have "\<dots> \<longleftrightarrow> unat a = unat (page_base x) \<and> i = unat x mod 256"
  proof -
    obtain k where "unat a = 256 * k" using assms(1) by (metis mod_0_imp_dvd dvdE)
    then show ?thesis using assms(2) unat_page_base [of x] by auto
  qed
  finally show ?thesis by (metis unsigned_word_eqI)
qed

lemma distinct_page_cells: "page_ok (a, page) \<Longrightarrow> distinct (map fst (cells a page))"
proof -
  assume "page_ok (a, page)"
  then have l: "length page = 256" "unat a mod 256 = 0" by (auto simp: page_ok_def PAGE_SIZE_def)
  have "(word_of_nat i :: addr) = word_of_nat j \<longleftrightarrow> i = j" if "i < 256" "j < 256" for i j
    using in_page_iff [OF l(2) that(1), of "a + word_of_nat j"] in_page_iff [OF l(2) that(2), of "a + word_of_nat j"] by auto
  then show ?thesis by (simp add: cells_def l distinct_map inj_on_def)
qed

lemma map_of_page_cells:
  assumes "page_ok (a, page)"
  shows "map_of (cells a page) x = (if a = page_base x then Some (page ! (unat x mod 256)) else None)"
proof -
  have l: "length page = 256" "unat a mod 256 = 0" using assms by (auto simp: page_ok_def PAGE_SIZE_def)
  note d = distinct_page_cells [OF assms]
  show ?thesis
  proof (cases "a = page_base x")
    case True
    then have "x = a + word_of_nat (unat x mod 256)" by (intro in_page_iff [OF l(2), THEN iffD2]) simp_all
    then have "(x, page ! (unat x mod 256)) \<in> set (cells a page)" by (auto simp: set_cells l)
    with d True show ?thesis by simp
  next
    case False
    then have "x \<noteq> a + word_of_nat i" if "i < 256" for i using in_page_iff [OF l(2) that, of x] by blast
    then have "x \<notin> fst ` set (cells a page)" by (force simp: set_cells l)
    with False show ?thesis by (simp add: map_of_eq_None_iff)
  qed
qed

lemma map_of_pages_cells:
  assumes "list_all page_ok es" "distinct (map fst es)"
  shows "map_of (concat (map (\<lambda>(a, page). cells a page) es)) x =
    (case map_of es (page_base x) of Some page \<Rightarrow> Some (page ! (unat x mod 256)) | None \<Rightarrow> None)"
  using assms
proof (induction es)
  case (Cons e es)
  obtain a page where e: "e = (a, page)" by fastforce
  have "map_of es a = None" using Cons.prems e by (simp add: map_of_eq_None_iff)
  with Cons e show ?case by (auto simp: map_add_def map_of_page_cells split: option.split)
qed simp

lemma cells_page_base: "page_ok (a, page) \<Longrightarrow> x \<in> fst ` set (cells a page) \<Longrightarrow> page_base x = a"
  using map_of_page_cells [of a page x] by (metis map_of_eq_None_iff)

lemma distinct_pages_cells:
  assumes "list_all page_ok es" "distinct (map fst es)"
  shows "distinct (map fst (concat (map (\<lambda>(a, page). cells a page) es)))"
  using assms
proof (induction es)
  case (Cons e es)
  obtain a page where e: "e = (a, page)" by fastforce
  have "x \<notin> fst ` set (concat (map (\<lambda>(a, page). cells a page) es))" if "x \<in> fst ` set (cells a page)" for x
  proof -
    have "map_of es (page_base x) = None"
      using cells_page_base [of a page x] that Cons.prems e by (simp add: map_of_eq_None_iff)
    then have "map_of (concat (map (\<lambda>(a, page). cells a page) es)) x = None"
      using map_of_pages_cells [of es x] Cons.prems by simp
    then show ?thesis by (rule map_of_eq_None_iff [THEN iffD1])
  qed
  then have "fst ` set (cells a page) \<inter> fst ` set (concat (map (\<lambda>(a, page). cells a page) es)) = {}" by blast
  moreover have "distinct (map fst (concat (map (\<lambda>(a, page). cells a page) es)))" using Cons by simp
  moreover have "distinct (map fst (cells a page))" using Cons.prems e by (simp add: distinct_page_cells)
  ultimately show ?case by (simp only: e list.map concat.simps prod.case map_append distinct_append set_map)
qed simp

lemma sectors_facts:
  assumes "parse_image data = Inr ps"
  shows "secs_ok (sectors ps)" "sec_base ` set (sectors ps) = (sector_base \<circ> fst) ` set (RBT.entries ps)"
    and "concat (map sector_cells (sectors ps)) = concat (map (\<lambda>(a, page). cells a page) (RBT.entries ps))"
    and "distinct (map fst (concat (map sector_cells (sectors ps))))"
proof -
  have ok: "list_all page_ok (RBT.entries ps)" using parse_image_pages [OF assms] by (simp add: pages_ok_def)
  show "secs_ok (sectors ps)" "sec_base ` set (sectors ps) = (sector_base \<circ> fst) ` set (RBT.entries ps)"
    using fold_page_ok [of "[]" "RBT.entries ps"] ok RBT.sorted_entries [of ps] by (simp_all add: sectors_def secs_ok_def)
  show c: "concat (map sector_cells (sectors ps)) = concat (map (\<lambda>(a, page). cells a page) (RBT.entries ps))"
    using fold_page_cells [of "RBT.entries ps" "[]"] by (simp add: sectors_def)
  show "distinct (map fst (concat (map sector_cells (sectors ps))))"
    unfolding c by (rule distinct_pages_cells [OF ok RBT.distinct_entries])
qed

lemma sector_card: "distinct xs \<Longrightarrow> (\<And>x. x \<in> set xs \<Longrightarrow> sector_base x = b) \<Longrightarrow> length xs \<le> 4096"
proof -
  assume d: "distinct xs" and b: "\<And>x. x \<in> set xs \<Longrightarrow> sector_base x = b"
  have "inj_on (\<lambda>x. unat x mod 4096) (set xs)"
  proof (rule inj_onI)
    fix x y assume xy: "x \<in> set xs" "y \<in> set xs" "unat x mod 4096 = unat y mod 4096"
    then have "unat x div 4096 = unat y div 4096" using b sector_base_eq by metis
    with xy(3) have "unat x = unat y" by (metis div_mult_mod_eq)
    then show "x = y" by (simp add: unsigned_word_eqI)
  qed
  then have "card (set xs) \<le> card {..<4096 :: nat}" by (rule card_inj_on_le) auto
  then show ?thesis using distinct_card [OF d] by simp
qed

lemma sector_runs_small:
  assumes "parse_image data = Inr ps" "s \<in> set (sectors ps)" "r \<in> set (sec_runs s)"
  shows "length (run_data r) \<le> 4096"
proof -
  have "distinct (map fst (sector_cells s))"
    using sectors_facts(4) [OF assms(1)] assms(2) by (auto simp: map_concat distinct_concat_iff comp_def)
  moreover have "sector_base x = sec_base s" if "x \<in> set (map fst (sector_cells s))" for x
    using sectors_facts(1) [OF assms(1)] assms(2) that by (fastforce simp: secs_ok_def list_all_iff)
  ultimately have "length (sector_cells s) \<le> 4096" using sector_card [of "map fst (sector_cells s)" "sec_base s"] by simp
  moreover have "length (run_data r) \<le> length (sector_cells s)"
    using split_list [OF assms(3)] by (auto simp: sector_cells_def cells_def)
  ultimately show ?thesis by simp
qed

text \<open>C24: the board ends up holding exactly the image. For every file the parser accepts, erasing and
  programming the sectors in order, on flash whose programming can only clear bits, leaves each page of
  the file at its address, \<open>0xff\<close> in the rest of the touched sectors, and every other byte as it was.\<close>

theorem image_is_what_is_flashed:
  assumes "parse_image data = Inr ps"
  shows "fold flash_sector (sectors ps) f x =
    (case RBT.lookup ps (page_base x) of
       Some page \<Rightarrow> page ! (unat x mod PAGE_SIZE)
     | None \<Rightarrow> if \<exists>a. RBT.lookup ps a \<noteq> None \<and> sector_base a = sector_base x then - 1 else f x)"
proof -
  let ?es = "RBT.entries ps"
  have ok: "list_all page_ok ?es" using parse_image_pages [OF assms] by (simp add: pages_ok_def)
  note d = RBT.distinct_entries [of ps]
  note s = sectors_facts(1,2) [OF assms] and c = sectors_facts(3) [OF assms]
  have t: "sector_base x \<in> (sector_base \<circ> fst) ` set ?es \<longleftrightarrow> (\<exists>a. RBT.lookup ps a \<noteq> None \<and> sector_base a = sector_base x)"
    by (force simp: RBT.lookup_in_tree)
  have p: "sector_base a = sector_base x" if "RBT.lookup ps a \<noteq> None" "page_base x = a" for a
  proof -
    have "unat a mod 256 = 0" using that(1) pages_okD [OF parse_image_pages [OF assms], of a] by (auto simp: page_ok_def PAGE_SIZE_def)
    then show ?thesis
      using sector_base_in_page [of a "unat x mod 256"] in_page_iff [of a "unat x mod 256" x] that(2) by simp
  qed
  have f: "fold flash_sector (sectors ps) f x =
      (if \<exists>a. RBT.lookup ps a \<noteq> None \<and> sector_base a = sector_base x
       then (case map_of (concat (map (\<lambda>(a, page). cells a page) ?es)) x of Some b \<Rightarrow> b | None \<Rightarrow> - 1) else f x)"
    using flash_sectors_at [OF s(1), of f x] distinct_pages_cells [OF ok d] unfolding c s(2) t by blast
  have m: "map_of (concat (map (\<lambda>(a, page). cells a page) ?es)) x =
      map_option (\<lambda>page. page ! (unat x mod 256)) (RBT.lookup ps (page_base x))"
    using map_of_pages_cells [OF ok d, of x] by (simp add: map_option_case)
  show ?thesis
  proof (cases "RBT.lookup ps (page_base x)")
    case None
    then show ?thesis by (simp only: f m option.simps)
  next
    case (Some page)
    with p [of "page_base x"] have "\<exists>a. RBT.lookup ps a \<noteq> None \<and> sector_base a = sector_base x" by blast
    with Some show ?thesis by (simp only: f m option.simps if_True PAGE_SIZE_def)
  qed
qed

section \<open>Every well-formed image is accepted\<close>

text \<open>The writer of the format: a block per page, numbered in order, with the unused bytes zero.\<close>

definition le_bytes :: "addr \<Rightarrow> byte list" where
  "le_bytes w = [word_of_nat (unat w), word_of_nat (unat w div 2 ^ 8), word_of_nat (unat w div 2 ^ 16), word_of_nat (unat w div 2 ^ 24)]"

definition encode_block :: "nat \<Rightarrow> nat \<Rightarrow> addr \<times> byte list \<Rightarrow> byte list" where
  "encode_block count i = (\<lambda>(a, page).
     le_bytes MAGIC_START0 @ le_bytes MAGIC_START1 @ le_bytes FLAG_FAMILY_ID_PRESENT @ le_bytes a @
     le_bytes (word_of_nat PAGE_SIZE) @ le_bytes (word_of_nat i) @ le_bytes (word_of_nat count) @ le_bytes RP2040_FAMILY_ID @
     page @ replicate 220 0 @ le_bytes MAGIC_END)"

fun encode_blocks :: "nat \<Rightarrow> nat \<Rightarrow> (addr \<times> byte list) list \<Rightarrow> byte list list" where
  "encode_blocks count i [] = []"
| "encode_blocks count i (e # es) = encode_block count i e # encode_blocks count (Suc i) es"

definition encode_image :: "(addr \<times> byte list) list \<Rightarrow> byte list" where
  "encode_image es = concat (encode_blocks (length es) 0 es)"

lemma length_le_bytes [simp]: "length (le_bytes w) = 4"
  by (simp add: le_bytes_def)

lemma byte_digits:
  fixes n :: nat
  assumes "n < 2 ^ 32"
  shows "n mod 256 + 256 * (n div 256 mod 256) + 65536 * (n div 65536 mod 256) + 16777216 * (n div 16777216 mod 256) = n"
proof -
  define q r s where "q = n div 256" and "r = q div 256" and "s = r div 256"
  have e: "n div 65536 = r" "n div 16777216 = s" by (simp_all add: q_def r_def s_def div_mult2_eq [symmetric])
  have "s < 256" using assms by (simp add: less_mult_imp_div_less flip: e(2))
  then have "s mod 256 = s" by simp
  moreover have "256 * q + n mod 256 = n" "256 * r + q mod 256 = q" "256 * s + r mod 256 = r"
    by (simp_all add: q_def r_def s_def)
  ultimately show ?thesis unfolding e q_def [symmetric] by linarith
qed

lemma word_at_le_bytes [simp]: "word_at (le_bytes w @ xs) 0 = w"
proof -
  have "unat w < 2 ^ 32" using unsigned_less [of w] by simp
  note digits = byte_digits [OF this]
  have u: "unat (word_of_nat k :: byte) = k mod 256" for k by (simp add: unat_of_nat)
  have v: "ucast (ucast w :: byte) = (word_of_nat (unat w mod 256) :: addr)"
    using arg_cong [OF u [of "unat w"], of "word_of_nat :: nat \<Rightarrow> addr"] by simp
  have "word_at (le_bytes w @ xs) 0 = word_of_nat (unat w mod 256 + 256 * (unat w div 256 mod 256) +
      65536 * (unat w div 65536 mod 256) + 16777216 * (unat w div 16777216 mod 256))"
    by (simp add: word_at_def le_bytes_def u v)
  also have "\<dots> = w" by (simp only: digits) simp
  finally show ?thesis .
qed

lemma word_at_skip: "length xs \<le> k \<Longrightarrow> k + 4 \<le> length xs + length ys \<Longrightarrow> word_at (xs @ ys) k = word_at ys (k - length xs)"
  by (simp add: word_at_def nth_append Suc_diff_le)

lemma length_encode_block: "page_ok e \<Longrightarrow> length (encode_block count i e) = BLOCK_SIZE"
  by (cases e) (simp add: encode_block_def page_ok_def uf2_sizes)

lemma encode_block_words:
  assumes "page_ok (a, page)"
  shows "word_at (encode_block count i (a, page)) 0 = MAGIC_START0" "word_at (encode_block count i (a, page)) 4 = MAGIC_START1"
    and "word_at (encode_block count i (a, page)) 8 = FLAG_FAMILY_ID_PRESENT" "word_at (encode_block count i (a, page)) 12 = a"
    and "word_at (encode_block count i (a, page)) 16 = word_of_nat PAGE_SIZE" "word_at (encode_block count i (a, page)) 20 = word_of_nat i"
    and "word_at (encode_block count i (a, page)) 24 = word_of_nat count" "word_at (encode_block count i (a, page)) 28 = RP2040_FAMILY_ID"
    and "word_at (encode_block count i (a, page)) 508 = MAGIC_END"
proof -
  have l: "length page = 256" using assms by (simp add: page_ok_def PAGE_SIZE_def)
  note defs = encode_block_def word_at_skip l
  have z: "word_at (le_bytes w) 0 = w" for w using word_at_le_bytes [of w "[]"] by simp
  show "word_at (encode_block count i (a, page)) 0 = MAGIC_START0" by (simp add: encode_block_def)
  show "word_at (encode_block count i (a, page)) 4 = MAGIC_START1" by (simp add: defs)
  show "word_at (encode_block count i (a, page)) 8 = FLAG_FAMILY_ID_PRESENT" by (simp add: defs)
  show "word_at (encode_block count i (a, page)) 12 = a" by (simp add: defs)
  show "word_at (encode_block count i (a, page)) 16 = word_of_nat PAGE_SIZE" by (simp add: defs)
  show "word_at (encode_block count i (a, page)) 20 = word_of_nat i" by (simp add: defs)
  show "word_at (encode_block count i (a, page)) 24 = word_of_nat count" by (simp add: defs)
  show "word_at (encode_block count i (a, page)) 28 = RP2040_FAMILY_ID" by (simp add: defs)
  show "word_at (encode_block count i (a, page)) 508 = MAGIC_END" by (simp add: defs z)
qed

lemma encode_block_payload: "page_ok (a, page) \<Longrightarrow> block_payload (encode_block count i (a, page)) = page"
  by (simp add: block_payload_def encode_block_def page_ok_def uf2_sizes)

lemma encode_block_ok:
  assumes "page_ok (a, page)" "i < 2 ^ 32" "count < 2 ^ 32"
  shows "block_problem count i (encode_block count i (a, page)) = None"
proof -
  have "unat (word_of_nat i :: addr) = i" "unat (word_of_nat count :: addr) = count"
    using assms(2,3) by (simp_all add: unat_of_nat take_bit_nat_eq_self)
  then show ?thesis
    using assms(1) by (simp add: block_problem_def Let_def encode_block_words [OF assms(1)] uf2_sizes page_ok_def)
       (simp add: flash_end)
qed

lemma parse_encode_blocks:
  assumes "list_all page_ok es" "distinct (map fst es)" "i + length es \<le> count" "count < 2 ^ 32"
    and "\<And>a. a \<in> fst ` set es \<Longrightarrow> RBT.lookup ps a = None"
  shows "\<exists>ps'. parse_blocks count i (encode_blocks count i es) ps = Inr ps' \<and>
    RBT.lookup ps' = RBT.lookup ps ++ map_of es"
  using assms
proof (induction es arbitrary: i ps)
  case (Cons e es)
  obtain a page where e: "e = (a, page)" by fastforce
  have ok: "page_ok (a, page)" using Cons.prems e by simp
  let ?ps = "RBT.insert a page ps"
  obtain ps' where ps': "parse_blocks count (Suc i) (encode_blocks count (Suc i) es) ?ps = Inr ps'"
      "RBT.lookup ps' = RBT.lookup ?ps ++ map_of es"
  proof -
    have "RBT.lookup ?ps b = None" if "b \<in> fst ` set es" for b 
    proof -
      have "b \<noteq> a" using Cons.prems(2) that e by auto
      then show ?thesis using Cons.prems(5) [of b] that by simp
    qed
    moreover have "list_all page_ok es" "distinct (map fst es)" "Suc i + length es \<le> count" using Cons.prems by simp_all
    ultimately show thesis using Cons.IH [of "Suc i" ?ps] Cons.prems(4) that by blast
  qed
  have "map_of es a = None" using Cons.prems e by (simp add: map_of_eq_None_iff)
  then have "RBT.lookup ?ps ++ map_of es = RBT.lookup ps ++ map_of (e # es)"
    by (intro ext) (auto simp: e map_add_def split: option.split)
  then have m: "RBT.lookup ps' = RBT.lookup ps ++ map_of (e # es)" using ps'(2) by (rule trans [rotated])
  have "RBT.lookup ps a = None" using Cons.prems(5) e by simp
  then have "parse_blocks count i (encode_blocks count i (e # es)) ps = Inr ps'"
    using encode_block_ok [OF ok, of i count] Cons.prems(3,4) ps'(1)
    by (simp add: e encode_block_words [OF ok] encode_block_payload [OF ok])
  with m show ?case by blast
qed simp

lemma length_encode_blocks: "length (encode_blocks count i es) = length es"
  by (induction es arbitrary: i) auto

lemma encode_blocks_size: "list_all page_ok es \<Longrightarrow> list_all (\<lambda>b. length b = BLOCK_SIZE) (encode_blocks count i es)"
  by (induction es arbitrary: i) (auto simp: length_encode_block)

lemma length_concat_blocks: "list_all (\<lambda>b. length b = n) bs \<Longrightarrow> length (concat bs) = n * length bs"
  by (induction bs) auto

lemma chunk_of_concat:
  "list_all (\<lambda>b. length b = n) bs \<Longrightarrow> i < length bs \<Longrightarrow> take n (drop (n * i) (concat bs)) = bs ! i"
proof (induction bs arbitrary: i)
  case (Cons b bs)
  then show ?case by (cases i) (auto simp: algebra_simps)
qed simp

lemma chunks_concat:
  assumes "list_all (\<lambda>b. length b = n) bs" "0 < n"
  shows "chunks n (concat bs) = bs"
  using chunk_of_concat [OF assms(1)] assms by (auto simp: chunks_def length_concat_blocks intro: nth_equalityI)

lemma sorted_head:
  assumes "RBT.lookup ps a \<noteq> None" "\<And>b. RBT.lookup ps b \<noteq> None \<Longrightarrow> a \<le> b"
  shows "map_option fst (find (\<lambda>_. True) (RBT.entries ps)) = Some a"
proof (cases "RBT.entries ps")
  case (Cons e es)
  then have "RBT.lookup ps (fst e) = Some (snd e)" by (simp add: RBT.lookup_in_tree)
  then have "a \<le> fst e" using assms(2) by simp
  moreover have "a \<in> fst ` set (RBT.entries ps)" using assms(1) by (force simp: RBT.lookup_in_tree)
  then have "fst e \<le> a" using Cons RBT.sorted_entries [of ps] by auto
  ultimately show ?thesis using Cons by simp
next
  case Nil
  then show ?thesis using assms(1) by (auto simp: RBT.lookup_in_tree)
qed

lemma parse_encode_image:
  assumes "list_all page_ok es" "distinct (map fst es)" "FLASH_BASE \<in> fst ` set es" "length es \<le> 2048"
  shows "\<exists>ps. parse_image (encode_image es) = Inr ps \<and> (\<forall>a. RBT.lookup ps a = map_of es a)"
proof -
  let ?bs = "encode_blocks (length es) 0 es"
  note sz = encode_blocks_size [OF assms(1), of "length es" 0]
  have len: "length (encode_image es) = 512 * length es"
    using length_concat_blocks [OF sz] by (simp add: encode_image_def length_encode_blocks BLOCK_SIZE_def)
  obtain ps where ps: "parse_blocks (length es) 0 ?bs RBT.empty = Inr ps" "RBT.lookup ps = map_of es"
    using parse_encode_blocks [OF assms(1,2), of 0 "length es" RBT.empty] assms(4) by auto
  have "FLASH_BASE \<le> a" if "map_of es a \<noteq> None" for a
    using that assms(1) by (auto dest!: map_of_SomeD simp: list_all_iff page_ok_def word_le_nat_alt)
  then have "map_option fst (find (\<lambda>_. True) (RBT.entries ps)) = Some FLASH_BASE"
    using assms(3) ps(2) by (intro sorted_head) (simp_all add: map_of_eq_None_iff)
  moreover have "es \<noteq> []" using assms(3) by auto
  moreover have "encode_image es \<noteq> []" using len \<open>es \<noteq> []\<close> by auto
  ultimately show ?thesis
    using ps len assms(4) chunks_concat [OF sz]
    by (auto simp: parse_image_def MAX_FILE_BYTES_def BLOCK_SIZE_def encode_image_def)
qed

text \<open>Lemma: no good firmware file is refused, and nothing is lost in reading it. Every set of at most 2048
  pages (the size limit) that are aligned, inside the flash, at distinct addresses and start at the
  flash's base, in any order, is read back from its blocks as exactly those pages.\<close>

theorem image_roundtrip:
  assumes "list_all page_ok es" "distinct (map fst es)" "FLASH_BASE \<in> fst ` set es" "length es \<le> 2048"
  shows "\<exists>ps. parse_image (encode_image es) = Inr ps \<and> (\<forall>a. RBT.lookup ps a = map_of es a)"
  using assms by (rule parse_encode_image)

definition two_pages :: "(addr \<times> byte list) list" where
  "two_pages = [(0x10000100, replicate 256 2), (0x10000000, replicate 256 1)]"

lemma two_pages_ok:
  "list_all page_ok two_pages" "distinct (map fst two_pages)" "FLASH_BASE \<in> fst ` set two_pages" "length two_pages \<le> 2048"
  by (simp_all add: two_pages_def page_ok_def PAGE_SIZE_def FLASH_BASE_def FLASH_SIZE_def)

theorem image_roundtrip_witness:
  "\<exists>ps. parse_image (encode_image two_pages) = Inr ps \<and> RBT.lookup ps 0x10000000 = Some (replicate 256 1)"
  using image_roundtrip [OF two_pages_ok] by (auto simp: two_pages_def)

theorem image_is_what_is_flashed_witness:
  "\<exists>ps. parse_image (encode_image two_pages) = Inr ps \<and> fold flash_sector (sectors ps) (\<lambda>_. 7) 0x10000101 = 2"
proof -
  obtain ps where ps: "parse_image (encode_image two_pages) = Inr ps" "RBT.lookup ps a = map_of two_pages a" for a
    using parse_encode_image [OF two_pages_ok] by auto
  have "page_base 0x10000101 = 0x10000100" by (simp add: page_base_def)
  then show ?thesis
    using ps(1) image_is_what_is_flashed [OF ps(1), of "\<lambda>_. 7" "0x10000101"]
    by (auto simp: ps(2) two_pages_def PAGE_SIZE_def)
qed

end
