(* ===== verification/Picoboot.thy ===== *)
theory Picoboot
  imports Uf2 Serial_Protocol
begin

text \<open>
  PICOBOOT, the USB protocol of the RP2040's boot ROM (\<open>serial/picoboot.rs\<close>): the command block, the
  exchange of one command, the client's operations, and the write and the check of one sector. The
  claimed USB interface is a parameter (\<open>Link\<close>, the trait of the source) over any state \<open>'u\<close> of the
  device; the client is its token. The texts of errors are reduced to the step they name.
\<close>

unbundle bit_operations_syntax

section \<open>The interface\<close>

datatype LinkError = Stall | LinkTimeout | Gone | OtherLinkError

record 'u Link =
  bulk_out :: "byte list \<Rightarrow> duration \<Rightarrow> 'u \<Rightarrow> (LinkError + unit) \<times> 'u"
  bulk_in :: "nat \<Rightarrow> duration \<Rightarrow> 'u \<Rightarrow> (LinkError + byte list) \<times> 'u"
  control_in :: "byte \<Rightarrow> nat \<Rightarrow> duration \<Rightarrow> 'u \<Rightarrow> (LinkError + byte list) \<times> 'u"
  control_out :: "byte \<Rightarrow> duration \<Rightarrow> 'u \<Rightarrow> (LinkError + unit) \<times> 'u"
  clear_halts :: "'u \<Rightarrow> (LinkError + unit) \<times> 'u"

datatype PicobootError =
    NoAccess | NotFound | Transfer string LinkError | Refused string "addr option" | ProtocolError string

definition MAGIC :: addr where "MAGIC = 0x431FD10B"
definition CMD_EXCLUSIVE_ACCESS :: byte where "CMD_EXCLUSIVE_ACCESS = 0x01"
definition CMD_REBOOT :: byte where "CMD_REBOOT = 0x02"
definition CMD_FLASH_ERASE :: byte where "CMD_FLASH_ERASE = 0x03"
definition CMD_READ :: byte where "CMD_READ = 0x84"
definition CMD_WRITE :: byte where "CMD_WRITE = 0x05"
definition CMD_EXIT_XIP :: byte where "CMD_EXIT_XIP = 0x06"
definition CMD_EXEC :: byte where "CMD_EXEC = 0x08"
definition DIR_IN :: byte where "DIR_IN = 0x80"
definition IF_RESET :: byte where "IF_RESET = 0x41"
definition IF_CMD_STATUS :: byte where "IF_CMD_STATUS = 0x42"
definition STATUS_LEN :: nat where "STATUS_LEN = 16"
definition NOT_EXCLUSIVE :: byte where "NOT_EXCLUSIVE = 0"
definition EXCLUSIVE :: byte where "EXCLUSIVE = 1"
definition COMMAND_TIMEOUT :: duration where "COMMAND_TIMEOUT = secs 3"
definition DATA_TIMEOUT :: duration where "DATA_TIMEOUT = secs 10"
definition CONTROL_TIMEOUT :: duration where "CONTROL_TIMEOUT = secs 1"
definition REBOOT_PC :: addr where "REBOOT_PC = 0"
definition REBOOT_SP :: addr where "REBOOT_SP = 0x20042000"
definition REBOOT_DELAY_MS :: addr where "REBOOT_DELAY_MS = 500"
definition FLASH_ID_CODE_ADDR :: addr where "FLASH_ID_CODE_ADDR = 0x15000000"
definition FLASH_ID_RESULT_ADDR :: addr where "FLASH_ID_RESULT_ADDR = FLASH_ID_CODE_ADDR + 28 + 1 + 4"

text \<open>The helper program, the bytes of picotool's file.\<close>

definition FLASH_ID_HELPER :: "byte list" where
  "FLASH_ID_HELPER = [
     0x02, 0xa0, 0x06, 0xa1, 0x00, 0x4a, 0x11, 0xe0, 0x0d, 0x00, 0x00, 0x00, 0x4b, 0x00, 0x00, 0x00,
     0x00, 0x00, 0x00, 0x00, 0x00, 0x00, 0x00, 0x00, 0x00, 0x00, 0x00, 0x00, 0x00, 0x00, 0x00, 0x00,
     0x00, 0x00, 0x00, 0x00, 0x00, 0x00, 0x00, 0x00, 0x00, 0x00, 0x00, 0x00, 0x80, 0x23, 0xf0, 0xb5,
     0x17, 0x4e, 0x9b, 0x00, 0x34, 0x68, 0x63, 0x40, 0xc0, 0x24, 0xa4, 0x00, 0x23, 0x40, 0x15, 0x4c,
     0x23, 0x60, 0xc0, 0x24, 0x13, 0x00, 0x64, 0x05, 0x17, 0x00, 0x1f, 0x43, 0x06, 0xd1, 0xc0, 0x23,
     0x32, 0x68, 0x9b, 0x00, 0x93, 0x43, 0x0f, 0x4a, 0x13, 0x60, 0xf0, 0xbd, 0x08, 0x25, 0xa7, 0x6a,
     0x3d, 0x40, 0xac, 0x46, 0x02, 0x25, 0x2f, 0x42, 0x08, 0xd0, 0x00, 0x2a, 0x06, 0xd0, 0x9f, 0x1a,
     0x0d, 0x2f, 0x03, 0xd8, 0x07, 0x78, 0x01, 0x3a, 0x27, 0x66, 0x01, 0x30, 0x65, 0x46, 0x00, 0x2d,
     0xe2, 0xd0, 0x00, 0x2b, 0xe0, 0xd0, 0x27, 0x6e, 0x01, 0x3b, 0x0f, 0x70, 0x01, 0x31, 0xdb, 0xe7,
     0x0c, 0x80, 0x01, 0x40, 0x0c, 0x90, 0x01, 0x40]"

record CommandStatus =
  cs_token :: addr
  cs_code :: addr
  cs_command :: byte
  cs_in_progress :: bool

datatype Data = NoData | DataOut "byte list" | DataIn addr

record Failed =
  fl_phase :: string
  fl_error :: LinkError

section \<open>One command\<close>

text \<open>A step on the link; the \<open>?\<close> of the source is \<open>try_then\<close>.\<close>

type_synonym ('u, 'e, 'a) step = "'u \<Rightarrow> ('e + 'a) \<times> 'u"

definition try_then :: "('u, 'e, 'a) step \<Rightarrow> ('a \<Rightarrow> ('u, 'e, 'b) step) \<Rightarrow> ('u, 'e, 'b) step" where
  "try_then f g u = (case f u of (Inl e, u) \<Rightarrow> (Inl e, u) | (Inr x, u) \<Rightarrow> g x u)"

definition at_phase :: "string \<Rightarrow> ('u, LinkError, 'a) step \<Rightarrow> ('u, Failed, 'a) step" where
  "at_phase phase f u = (case f u of (Inl e, u) \<Rightarrow> (Inl \<lparr>fl_phase = phase, fl_error = e\<rparr>, u) | (Inr x, u) \<Rightarrow> (Inr x, u))"

definition fail_at :: "string \<Rightarrow> ('u, Failed, 'a) step" where
  "fail_at phase u = (Inl \<lparr>fl_phase = phase, fl_error = OtherLinkError\<rparr>, u)"

definition step_ok :: "'a \<Rightarrow> ('u, 'e, 'a) step" where
  "step_ok x u = (Inr x, u)"

definition transfer_length :: "Data \<Rightarrow> addr" where
  "transfer_length data = (case data of NoData \<Rightarrow> 0 | DataOut d \<Rightarrow> word_of_nat (length d) | DataIn n \<Rightarrow> n)"

definition command_block :: "addr \<Rightarrow> byte \<Rightarrow> byte list \<Rightarrow> byte \<Rightarrow> Data \<Rightarrow> byte list" where
  "command_block token cmd args arg_size data =
     le_bytes MAGIC @ le_bytes token @ [cmd, arg_size, 0, 0] @ le_bytes (transfer_length data) @
     args @ replicate (16 - length args) 0"

definition data_phase :: "'u Link \<Rightarrow> Data \<Rightarrow> ('u, Failed, byte list) step" where
  "data_phase l data =
     (case data of
        NoData \<Rightarrow> step_ok []
      | DataOut d \<Rightarrow> try_then (at_phase ''sending its data'' (bulk_out l d DATA_TIMEOUT)) (\<lambda>_. step_ok [])
      | DataIn n \<Rightarrow>
          try_then (at_phase ''receiving its data'' (bulk_in l (unat n) DATA_TIMEOUT))
            (\<lambda>received. if length received \<noteq> unat n then fail_at ''receiving its data'' else step_ok received))"

definition acknowledge :: "'u Link \<Rightarrow> byte \<Rightarrow> addr \<Rightarrow> ('u, Failed, unit) step" where
  "acknowledge l cmd transfer_len =
     (let ack_timeout = (if transfer_len = 0 then DATA_TIMEOUT else COMMAND_TIMEOUT)
      in if cmd AND DIR_IN \<noteq> 0 then at_phase ''acknowledging'' (bulk_out l [0] ack_timeout)
         else try_then (at_phase ''waiting for the acknowledgement'' (bulk_in l 1 ack_timeout))
           (\<lambda>ack. if ack \<noteq> [] then fail_at ''waiting for the acknowledgement'' else step_ok ()))"

definition exchange :: "'u Link \<Rightarrow> byte list \<Rightarrow> byte \<Rightarrow> Data \<Rightarrow> addr \<Rightarrow> ('u, Failed, byte list) step" where
  "exchange l cmd cid data transfer_len =
     try_then (at_phase ''sending the command'' (bulk_out l cmd COMMAND_TIMEOUT)) (\<lambda>_.
     try_then (data_phase l data) (\<lambda>received.
     try_then (acknowledge l cid transfer_len) (\<lambda>_. step_ok received)))"

section \<open>The client\<close>

text \<open>The client's token comes first in its state.\<close>

type_synonym ('u, 'a) client = "addr \<times> 'u \<Rightarrow> (PicobootError + 'a) \<times> addr \<times> 'u"

definition on_link :: "string \<Rightarrow> ('u, LinkError, 'a) step \<Rightarrow> ('u, 'a) client" where
  "on_link what f = (\<lambda>(t, u). case f u of (Inl e, u) \<Rightarrow> (Inl (Transfer what e), t, u) | (Inr x, u) \<Rightarrow> (Inr x, t, u))"

definition reset :: "'u Link \<Rightarrow> ('u, unit) client" where
  "reset l =
     try_then (on_link ''clearing a stalled endpoint'' (clear_halts l)) (\<lambda>_.
     on_link ''resetting the PICOBOOT interface'' (control_out l IF_RESET CONTROL_TIMEOUT))"

definition status :: "'u Link \<Rightarrow> ('u, CommandStatus) client" where
  "status l =
     try_then (on_link ''reading the command status'' (control_in l IF_CMD_STATUS STATUS_LEN CONTROL_TIMEOUT)) (\<lambda>raw.
     if length raw \<noteq> STATUS_LEN then (\<lambda>st. (Inl (ProtocolError ''the command status''), st))
     else step_ok \<lparr>cs_token = word_at raw 0, cs_code = word_at raw 4, cs_command = raw ! 8, cs_in_progress = (raw ! 9 \<noteq> 0)\<rparr>)"

definition command :: "'u Link \<Rightarrow> byte \<Rightarrow> string \<Rightarrow> byte list \<Rightarrow> byte \<Rightarrow> Data \<Rightarrow> ('u, byte list) client" where
  "command l cid name args arg_size data = (\<lambda>(t, u).
     let t = t + 1 in
     case exchange l (command_block t cid args arg_size data) cid data (transfer_length data) u of
       (Inr received, u) \<Rightarrow> (Inr received, t, u)
     | (Inl f, u) \<Rightarrow>
         if fl_error f = Stall then
           (case status l (t, u) of
              (Inr s, st) \<Rightarrow> (Inl (Refused name (Some (cs_code s))), st)
            | (Inl _, st) \<Rightarrow> (Inl (Refused name None), st))
         else (Inl (Transfer name (fl_error f)), t, u))"

definition discard :: "('u, 'a) client \<Rightarrow> ('u, unit) client" where
  "discard f = try_then f (\<lambda>_. step_ok ())"

definition exclusive_access :: "'u Link \<Rightarrow> byte \<Rightarrow> ('u, unit) client" where
  "exclusive_access l mode = discard (command l CMD_EXCLUSIVE_ACCESS ''EXCLUSIVE_ACCESS'' [mode] 1 NoData)"

definition exit_xip :: "'u Link \<Rightarrow> ('u, unit) client" where
  "exit_xip l = discard (command l CMD_EXIT_XIP ''EXIT_XIP'' [] 0 NoData)"

definition flash_erase :: "'u Link \<Rightarrow> addr \<Rightarrow> addr \<Rightarrow> ('u, unit) client" where
  "flash_erase l a len = discard (command l CMD_FLASH_ERASE ''FLASH_ERASE'' (le_bytes a @ le_bytes len) 8 NoData)"

definition pico_write :: "'u Link \<Rightarrow> addr \<Rightarrow> byte list \<Rightarrow> ('u, unit) client" where
  "pico_write l a data =
     discard (command l CMD_WRITE ''WRITE'' (le_bytes a @ le_bytes (word_of_nat (length data))) 8 (DataOut data))"

definition pico_read :: "'u Link \<Rightarrow> addr \<Rightarrow> addr \<Rightarrow> ('u, byte list) client" where
  "pico_read l a len = command l CMD_READ ''READ'' (le_bytes a @ le_bytes len) 8 (DataIn len)"

definition pico_exec :: "'u Link \<Rightarrow> addr \<Rightarrow> ('u, unit) client" where
  "pico_exec l a = discard (command l CMD_EXEC ''EXEC'' (le_bytes a) 4 NoData)"

definition reboot :: "'u Link \<Rightarrow> ('u, unit) client" where
  "reboot l = discard (command l CMD_REBOOT ''REBOOT'' (le_bytes REBOOT_PC @ le_bytes REBOOT_SP @ le_bytes REBOOT_DELAY_MS) 12 NoData)"

definition flash_id :: "'u Link \<Rightarrow> ('u, byte list) client" where
  "flash_id l =
     try_then (pico_write l FLASH_ID_CODE_ADDR FLASH_ID_HELPER) (\<lambda>_.
     try_then (pico_exec l FLASH_ID_CODE_ADDR) (\<lambda>_.
     try_then (pico_read l FLASH_ID_RESULT_ADDR 8) (\<lambda>raw.
     if length raw \<noteq> 8 then (\<lambda>st. (Inl (ProtocolError ''the flash id''), st)) else step_ok raw)))"

section \<open>One sector\<close>

fun write_runs :: "'u Link \<Rightarrow> Run list \<Rightarrow> ('u, unit) client" where
  "write_runs l [] = step_ok ()"
| "write_runs l (r # rs) = try_then (pico_write l (run_addr r) (run_data r)) (\<lambda>_. write_runs l rs)"

definition write_sector :: "'u Link \<Rightarrow> Sector \<Rightarrow> ('u, unit) client" where
  "write_sector l s = try_then (flash_erase l (sec_base s) SECTOR_SIZE) (\<lambda>_. write_runs l (sec_runs s))"

definition first_difference :: "byte list \<Rightarrow> byte list \<Rightarrow> nat option" where
  "first_difference got want = map_option fst (find (\<lambda>(i, a, b). a \<noteq> b) (enumerate 0 (zip got want)))"

fun verify_runs :: "'u Link \<Rightarrow> Run list \<Rightarrow> ('u, addr option) client" where
  "verify_runs l [] = step_ok None"
| "verify_runs l (r # rs) =
     try_then (pico_read l (run_addr r) (word_of_nat (length (run_data r)))) (\<lambda>got.
       case first_difference got (run_data r) of
         Some i \<Rightarrow> step_ok (Some (run_addr r + word_of_nat i))
       | None \<Rightarrow> verify_runs l rs)"

definition verify_sector :: "'u Link \<Rightarrow> Sector \<Rightarrow> ('u, addr option) client" where
  "verify_sector l s = verify_runs l (sec_runs s)"

section \<open>Whose flash it is\<close>

definition serial_of :: "byte list \<Rightarrow> string" where
  "serial_of bs = concat (map (\<lambda>b. hex2 (unat b)) bs)"

definition id_matches_serial :: "byte list \<Rightarrow> string \<Rightarrow> bool" where
  "id_matches_serial bs serial = (to_lower serial = to_lower (serial_of bs))"

end
