(* ===== verification/Firmware_Write.thy ===== *)
theory Firmware_Write
  imports Picoboot
begin

text \<open>
  The daemon's own firmware write: which uploaded file it would write
  (\<open>openfan_maintenance/firmware.rs\<close>), and stage 4 of an update, which writes it over PICOBOOT
  (\<open>write_firmware\<close> of \<open>openfan_maintenance/run.rs\<close>). SHA-256 is a parameter. The run's surroundings (the
  bootloader's opening, the shutdown flag, the deadline, the journal, the watch for the board's return)
  are the parameter \<open>RunEnv\<close> over the state of the outside; a panicking task of the blocking pool is not
  modelled, nor are the texts for the log and the record's notes.
\<close>

section \<open>Which file is written\<close>

record Release =
  rl_sha256 :: string
  rl_size :: u64
  rl_name :: string
  rl_broken :: bool

definition RELEASES :: "Release list" where
  "RELEASES =
     [\<lparr>rl_sha256 = ''86187e7833cfccc6bb3f1d4bf4e7c03af2a154c17fa35123d73d7708f524ba7b'', rl_size = 85504,
       rl_name = ''2023-09-29 release (FW_01)'', rl_broken = True\<rparr>,
      \<lparr>rl_sha256 = ''6614f66db6754cb598665a5da2b263acef749db4952e3925eab43bf8329d1cc4'', rl_size = 79360,
       rl_name = ''2026-09-13 release'', rl_broken = False\<rparr>,
      \<lparr>rl_sha256 = ''79a3c951beb69ed5b30161ac34eb3e3d8ba70499b0761460028bf609da6feee0'', rl_size = 79360,
       rl_name = ''2026-09-27 release'', rl_broken = False\<rparr>]"

definition release_in :: "Release list \<Rightarrow> string \<Rightarrow> Release option" where
  "release_in releases sha256 = find (\<lambda>r. rl_sha256 r = sha256) releases"

definition known_release :: "string \<Rightarrow> Release option" where
  "known_release sha256 = release_in RELEASES sha256"

definition is_known_broken :: "string \<Rightarrow> bool" where
  "is_known_broken sha256 = (case known_release sha256 of Some r \<Rightarrow> rl_broken r | None \<Rightarrow> False)"

datatype Verdict = DaemonWrite | ManualCopy | VerdictRefused
datatype VerdictReason = UnknownBuild | InvalidImage Uf2Error | KnownBroken

record Staged =
  sg_sha256 :: string
  sg_release :: Release
  sg_image :: pages

record Assessment =
  as_sha256 :: string
  as_size :: u64
  as_release :: "Release option"
  as_verdict :: Verdict
  as_reason :: "VerdictReason option"
  as_staged :: "Staged option"

definition sha256_hex :: "(byte list \<Rightarrow> byte list) \<Rightarrow> byte list \<Rightarrow> string" where
  "sha256_hex digest data = concat (map (\<lambda>b. to_lower (hex2 (unat b))) (digest data))"

definition assess_against :: "(byte list \<Rightarrow> byte list) \<Rightarrow> byte list \<Rightarrow> Release list \<Rightarrow> Assessment" where
  "assess_against digest data releases =
     (let sha = sha256_hex digest data;
          release = release_in releases sha;
          not_staged = (\<lambda>verdict reason. \<lparr>as_sha256 = sha, as_size = length data, as_release = release,
            as_verdict = verdict, as_reason = Some reason, as_staged = None\<rparr>)
      in if (case release of Some r \<Rightarrow> rl_broken r | None \<Rightarrow> False) then not_staged VerdictRefused KnownBroken
         else (case parse_image data of
             Inl e \<Rightarrow> not_staged ManualCopy (InvalidImage e)
           | Inr img \<Rightarrow>
               (case release of
                  None \<Rightarrow> not_staged ManualCopy UnknownBuild
                | Some known \<Rightarrow>
                    \<lparr>as_sha256 = sha, as_size = length data, as_release = release, as_verdict = DaemonWrite,
                     as_reason = None, as_staged = Some \<lparr>sg_sha256 = sha, sg_release = known, sg_image = img\<rparr>\<rparr>)))"

definition assess :: "(byte list \<Rightarrow> byte list) \<Rightarrow> byte list \<Rightarrow> Assessment" where
  "assess digest data = assess_against digest data RELEASES"

section \<open>The write\<close>

datatype WritePhase = WpPending | WpIdentifying | WpWriting | WpVerifying | WpRebooting | WpWritten | WpFellBack
datatype Fallback = NoUsbAccess | UsbUnavailable | FlashIdMismatch | TransferFailed | ReadbackMismatch | NoRestart

record FirmwareWrite =
  fw_release :: string
  fw_phase :: WritePhase
  fw_done_bytes :: u64
  fw_total_bytes :: u64
  fw_flash_id :: "string option"
  fw_flash_changed :: bool
  fw_verified :: bool
  fw_fallback_reason :: "Fallback option"

definition firmware_write_new :: "string \<Rightarrow> u64 \<Rightarrow> FirmwareWrite" where
  "firmware_write_new release total_bytes =
     \<lparr>fw_release = release, fw_phase = WpPending, fw_done_bytes = 0, fw_total_bytes = total_bytes, fw_flash_id = None,
      fw_flash_changed = False, fw_verified = False, fw_fallback_reason = None\<rparr>"

datatype Written = WrittenDone | WrittenFellBack | WrittenStopped
datatype Watched = WatchedFound | WatchedDeadline | WatchedShutdown

record 'u RunEnv =
  re_link :: "'u Link"
  re_open :: "'u \<Rightarrow> (PicobootError + unit) \<times> 'u"
  re_shutdown :: "'u \<Rightarrow> bool"
  re_late :: "'u \<Rightarrow> bool"
  re_journal :: "FirmwareWrite \<Rightarrow> 'u \<Rightarrow> 'u"
  re_watch_left :: "'u \<Rightarrow> Watched \<times> 'u"

text \<open>The state of a write: its part of the record, the client's token and the outside.\<close>

type_synonym 'u wr = "FirmwareWrite \<times> addr \<times> 'u"

definition record_write :: "'u RunEnv \<Rightarrow> (FirmwareWrite \<Rightarrow> FirmwareWrite) \<Rightarrow> 'u wr \<Rightarrow> 'u wr" where
  "record_write env f = (\<lambda>(w, t, u). (f w, t, re_journal env (f w) u))"

definition release_drive :: "'u Link \<Rightarrow> addr \<times> 'u \<Rightarrow> bool \<times> addr \<times> 'u" where
  "release_drive l st =
     (case exclusive_access l NOT_EXCLUSIVE st of
        (Inr _, st) \<Rightarrow> (True, st)
      | (Inl _, st) \<Rightarrow>
          (case reset l st of
             (Inl _, st) \<Rightarrow> (False, st)
           | (Inr _, st) \<Rightarrow> (case exclusive_access l NOT_EXCLUSIVE st of (r, st) \<Rightarrow> (r = Inr (), st))))"

definition fell_back :: "'u RunEnv \<Rightarrow> Fallback \<Rightarrow> 'u wr \<Rightarrow> Written \<times> 'u wr" where
  "fell_back env reason st =
     (WrittenFellBack, record_write env (\<lambda>w. w\<lparr>fw_phase := WpFellBack, fw_fallback_reason := Some reason\<rparr>) st)"

text \<open>\<open>fall_back\<close> with the open bootloader, and without one.\<close>

definition fall_back :: "'u RunEnv \<Rightarrow> Fallback \<Rightarrow> 'u wr \<Rightarrow> Written \<times> 'u wr" where
  "fall_back env reason = (\<lambda>(w, st). case release_drive (re_link env) st of (_, st) \<Rightarrow> fell_back env reason (w, st))"

definition fall_back_held :: "'u RunEnv \<Rightarrow> Fallback \<Rightarrow> 'u wr \<Rightarrow> Written \<times> 'u wr" where
  "fall_back_held env reason = (\<lambda>(w, t, u).
     case re_open env u of
       (Inl _, u) \<Rightarrow> fell_back env reason (w, t, u)
     | (Inr _, u) \<Rightarrow> fall_back env reason (w, 0, u))"

definition stop_writing :: "'u RunEnv \<Rightarrow> 'u wr \<Rightarrow> Written \<times> 'u wr" where
  "stop_writing env = (\<lambda>(w, st). case release_drive (re_link env) st of (_, st) \<Rightarrow> (WrittenStopped, w, st))"

text \<open>A loop's step either ends the write (\<open>Inl\<close>) or goes on.\<close>

definition ends :: "Written \<times> 'u wr \<Rightarrow> (Written + unit) \<times> 'u wr" where
  "ends = (\<lambda>(r, st). (Inl r, st))"

definition begin_writing :: "'u RunEnv \<Rightarrow> 'u wr \<Rightarrow> 'u wr" where
  "begin_writing env = record_write env (\<lambda>w. w\<lparr>fw_flash_changed := True, fw_phase := WpWriting\<rparr>)"

fun write_loop :: "'u RunEnv \<Rightarrow> bool \<Rightarrow> Sector list \<Rightarrow> u64 \<Rightarrow> 'u wr \<Rightarrow> (Written + unit) \<times> 'u wr" where
  "write_loop env first [] wrote st = (Inr (), st)"
| "write_loop env first (s # ss) wrote (w, t, u) =
     (if re_shutdown env u then ends (stop_writing env (w, t, u))
      else if re_late env u then ends (fall_back env TransferFailed (w, t, u))
      else case (if first then begin_writing env (w, t, u) else (w, t, u)) of (w, st) \<Rightarrow>
        (case write_sector (re_link env) s st of
           (Inl _, st) \<Rightarrow> ends (fall_back env TransferFailed (w, st))
         | (Inr _, st) \<Rightarrow> write_loop env False ss (wrote + sector_bytes s) (w\<lparr>fw_done_bytes := wrote + sector_bytes s\<rparr>, st)))"

fun verify_loop :: "'u RunEnv \<Rightarrow> Sector list \<Rightarrow> u64 \<Rightarrow> 'u wr \<Rightarrow> (Written + unit) \<times> 'u wr" where
  "verify_loop env [] wrote st = (Inr (), st)"
| "verify_loop env (s # ss) wrote (w, t, u) =
     (if re_shutdown env u then ends (stop_writing env (w, t, u))
      else if re_late env u then ends (fall_back env TransferFailed (w, t, u))
      else case verify_sector (re_link env) s (t, u) of
        (Inl _, st) \<Rightarrow> ends (fall_back env TransferFailed (w, st))
      | (Inr (Some _), st) \<Rightarrow> ends (fall_back env ReadbackMismatch (w, st))
      | (Inr None, st) \<Rightarrow> verify_loop env ss (wrote + sector_bytes s) (w\<lparr>fw_done_bytes := wrote + sector_bytes s\<rparr>, st))"

definition identify :: "'u Link \<Rightarrow> ('u, byte list) client" where
  "identify l =
     try_then (reset l) (\<lambda>_. try_then (exclusive_access l EXCLUSIVE) (\<lambda>_. try_then (exit_xip l) (\<lambda>_. flash_id l)))"

text \<open>From the verified flash to the board's restart.\<close>

definition restart :: "'u RunEnv \<Rightarrow> 'u wr \<Rightarrow> Written \<times> 'u wr" where
  "restart env st =
     (case record_write env (\<lambda>w. w\<lparr>fw_verified := True, fw_phase := WpRebooting\<rparr>) st of (w, t, u) \<Rightarrow>
        if re_shutdown env u then stop_writing env (w, t, u)
        else (case reboot (re_link env) (t, u) of
            (Inl _, st) \<Rightarrow> fall_back env NoRestart (w, st)
          | (Inr _, t, u) \<Rightarrow>
              (case re_watch_left env u of
                 (WatchedFound, u) \<Rightarrow> (WrittenDone, record_write env (\<lambda>w. w\<lparr>fw_phase := WpWritten\<rparr>) (w, t, u))
               | (WatchedDeadline, u) \<Rightarrow> fall_back_held env NoRestart (w, t, u)
               | (WatchedShutdown, u) \<Rightarrow> (WrittenStopped, w, t, u))))"

definition write_and_verify :: "'u RunEnv \<Rightarrow> Sector list \<Rightarrow> 'u wr \<Rightarrow> Written \<times> 'u wr" where
  "write_and_verify env ss st =
     (case write_loop env True ss 0 st of
        (Inl r, st) \<Rightarrow> (r, st)
      | (Inr _, st) \<Rightarrow>
          (case verify_loop env ss 0 (record_write env (\<lambda>w. w\<lparr>fw_phase := WpVerifying, fw_done_bytes := 0\<rparr>) st) of
             (Inl r, st) \<Rightarrow> (r, st)
           | (Inr _, st) \<Rightarrow> restart env st))"

definition write_firmware :: "'u RunEnv \<Rightarrow> string \<Rightarrow> Staged \<Rightarrow> FirmwareWrite option \<Rightarrow> 'u \<Rightarrow> Written \<times> 'u wr" where
  "write_firmware env serial job old u =
     (let w = (case old of Some w \<Rightarrow> w | None \<Rightarrow> firmware_write_new (rl_name (sg_release job)) (byte_count (sg_image job)));
          w = w\<lparr>fw_phase := WpIdentifying\<rparr>;
          u = re_journal env w u
      in case re_open env u of
        (Inl NoAccess, u) \<Rightarrow> fell_back env NoUsbAccess (w, 0, u)
      | (Inl _, u) \<Rightarrow> fell_back env UsbUnavailable (w, 0, u)
      | (Inr _, u) \<Rightarrow>
          (case identify (re_link env) (0, u) of
             (Inl _, st) \<Rightarrow> fall_back env TransferFailed (w, st)
           | (Inr flash, st) \<Rightarrow>
               (case record_write env (\<lambda>w. w\<lparr>fw_flash_id := Some (serial_of flash)\<rparr>) (w, st) of st \<Rightarrow>
                  if \<not> id_matches_serial flash serial then fall_back env FlashIdMismatch st
                  else write_and_verify env (sectors (sg_image job)) st)))"

end
