(* ===== verification/Firmware_Safety.thy ===== *)
theory Firmware_Safety
  imports Firmware_Write
begin

text \<open>
  What the daemon's firmware write guarantees whatever the USB device answers and whenever the run is
  stopped: no frame changes the flash before the flash is identified and the journal says so, and a write
  that reports success was read back. The properties are stated over a log of what crosses the interface.
\<close>

section \<open>The outside, logged\<close>

text \<open>What crosses the USB interface and what reaches the journal, in order.\<close>

datatype UsbEvent = Sent "byte list" | Got "byte list" | Journaled FirmwareWrite

type_synonym 'u logged = "'u \<times> UsbEvent list"

definition with_log :: "('a \<Rightarrow> UsbEvent list) \<Rightarrow> ('u \<Rightarrow> (LinkError + 'a) \<times> 'u) \<Rightarrow> 'u logged \<Rightarrow> (LinkError + 'a) \<times> 'u logged" where
  "with_log ev f = (\<lambda>(u, lg). case f u of (Inl e, u) \<Rightarrow> (Inl e, u, lg @ []) | (Inr x, u) \<Rightarrow> (Inr x, u, lg @ ev x))"

text \<open>A frame counts as sent even when the transfer reports an error.\<close>

definition logged_link :: "'u Link \<Rightarrow> 'u logged Link" where
  "logged_link l =
     \<lparr>bulk_out = (\<lambda>d tm (u, lg). case bulk_out l d tm u of (r, u) \<Rightarrow> (r, u, lg @ [Sent d])),
      bulk_in = (\<lambda>n tm. with_log (\<lambda>d. [Got d]) (bulk_in l n tm)),
      control_in = (\<lambda>r n tm. with_log (\<lambda>_. []) (control_in l r n tm)),
      control_out = (\<lambda>r tm. with_log (\<lambda>_. []) (control_out l r tm)),
      clear_halts = with_log (\<lambda>_. []) (clear_halts l)\<rparr>"

definition logged_env :: "'u RunEnv \<Rightarrow> 'u logged RunEnv" where
  "logged_env env =
     \<lparr>re_link = logged_link (re_link env),
      re_open = (\<lambda>(u, lg). case re_open env u of (r, u) \<Rightarrow> (r, u, lg)),
      re_shutdown = re_shutdown env \<circ> fst, re_late = re_late env \<circ> fst,
      re_journal = (\<lambda>w (u, lg). (re_journal env w u, lg @ [Journaled w])),
      re_watch_left = (\<lambda>(u, lg). case re_watch_left env u of (r, u) \<Rightarrow> (r, u, lg))\<rparr>"

text \<open>A frame that changes the flash: an erase, or a write at a flash address.\<close>

definition in_flash :: "addr \<Rightarrow> bool" where
  "in_flash a = (unat FLASH_BASE \<le> unat a \<and> unat a < unat FLASH_BASE + unat FLASH_SIZE)"

fun changes_flash :: "UsbEvent \<Rightarrow> bool" where
  "changes_flash (Sent d) = (length d = 32 \<and> (d ! 8 = CMD_FLASH_ERASE \<or> d ! 8 = CMD_WRITE \<and> in_flash (word_at d 16)))"
| "changes_flash _ = False"

abbreviation quiet :: "UsbEvent list \<Rightarrow> bool" where
  "quiet evs \<equiv> list_all (\<lambda>ev. \<not> changes_flash ev) evs"

text \<open>A step over the log adds events, all of which the step's kind allows.\<close>

definition adds :: "(UsbEvent \<Rightarrow> bool) \<Rightarrow> ('u logged, 'e, 'a) step \<Rightarrow> bool" where
  "adds P f = (\<forall>u lg r u' lg'. f (u, lg) = (r, u', lg') \<longrightarrow> (\<exists>evs. lg' = lg @ evs \<and> list_all P evs))"

definition client_adds :: "(UsbEvent \<Rightarrow> bool) \<Rightarrow> ('u logged, 'a) client \<Rightarrow> bool" where
  "client_adds P f = (\<forall>t u lg r t' u' lg'. f (t, u, lg) = (r, t', u', lg') \<longrightarrow> (\<exists>evs. lg' = lg @ evs \<and> list_all P evs))"

named_theorems adds_intro \<open>composition of logged steps\<close>

lemma addsI: "(\<And>u lg r u' lg'. f (u, lg) = (r, u', lg') \<Longrightarrow> \<exists>evs. lg' = lg @ evs \<and> list_all P evs) \<Longrightarrow> adds P f"
  by (simp add: adds_def)

lemma addsD: "adds P f \<Longrightarrow> f (u, lg) = (r, u', lg') \<Longrightarrow> \<exists>evs. lg' = lg @ evs \<and> list_all P evs"
  by (auto simp: adds_def)

lemma client_addsI:
  "(\<And>t u lg r t' u' lg'. f (t, u, lg) = (r, t', u', lg') \<Longrightarrow> \<exists>evs. lg' = lg @ evs \<and> list_all P evs) \<Longrightarrow> client_adds P f"
  by (simp add: client_adds_def)

lemma client_addsD: "client_adds P f \<Longrightarrow> f (t, u, lg) = (r, t', u', lg') \<Longrightarrow> \<exists>evs. lg' = lg @ evs \<and> list_all P evs"
  by (auto simp: client_adds_def)

lemma adds_trans:
  "\<exists>evs. lg1 = lg @ evs \<and> list_all P evs \<Longrightarrow> \<exists>evs. lg2 = lg1 @ evs \<and> list_all P evs \<Longrightarrow> \<exists>evs. lg2 = lg @ evs \<and> list_all P evs"
  by auto

lemma adds_then [adds_intro]:
  assumes "adds P f" "\<And>x. adds P (g x)"
  shows "adds P (try_then f g)"
proof (rule addsI)
  fix u lg r u' lg'
  assume run: "try_then f g (u, lg) = (r, u', lg')"
  obtain r1 u1 lg1 where f: "f (u, lg) = (r1, u1, lg1)" by (rule prod_cases3)
  note e1 = addsD [OF assms(1) f]
  show "\<exists>evs. lg' = lg @ evs \<and> list_all P evs"
  proof (cases r1)
    case (Inr x)
    then have "g x (u1, lg1) = (r, u', lg')" using run f by (simp add: try_then_def)
    from adds_trans [OF e1 addsD [OF assms(2) this]] show ?thesis .
  qed (use run f e1 in \<open>simp add: try_then_def\<close>)
qed

lemma adds_phase [adds_intro]: "adds P f \<Longrightarrow> adds P (at_phase p f)"
  unfolding adds_def at_phase_def by (auto split: prod.splits sum.splits)

lemma adds_const [adds_intro]: "adds P (fail_at p)" "adds P (step_ok x)"
  by (auto simp: adds_def fail_at_def step_ok_def)

lemma adds_bulk_out [adds_intro]: "P (Sent d) \<Longrightarrow> adds P (bulk_out (logged_link l) d tm)"
  by (auto simp: adds_def logged_link_def split: prod.splits)

lemma adds_with_log: "(\<And>x. list_all P (ev x)) \<Longrightarrow> adds P (with_log ev f)"
  by (auto simp: adds_def with_log_def split: prod.splits sum.splits)

lemma adds_link [adds_intro]:
  "(\<And>d. P (Got d)) \<Longrightarrow> adds P (bulk_in (logged_link l) n tm)"
  "adds P (control_in (logged_link l) r n tm)" "adds P (control_out (logged_link l) r tm)" "adds P (clear_halts (logged_link l))"
  by (auto simp: logged_link_def intro!: adds_with_log)

lemma client_then [adds_intro]:
  assumes "client_adds P f" "\<And>x. client_adds P (g x)"
  shows "client_adds P (try_then f g)"
proof (rule client_addsI)
  fix t u lg r t' u' lg'
  assume run: "try_then f g (t, u, lg) = (r, t', u', lg')"
  obtain r1 t1 u1 lg1 where f: "f (t, u, lg) = (r1, t1, u1, lg1)" by (rule prod_cases4)
  note e1 = client_addsD [OF assms(1) f]
  show "\<exists>evs. lg' = lg @ evs \<and> list_all P evs"
  proof (cases r1)
    case (Inr x)
    then have "g x (t1, u1, lg1) = (r, t', u', lg')" using run f by (simp add: try_then_def)
    from adds_trans [OF e1 client_addsD [OF assms(2) this]] show ?thesis .
  qed (use run f e1 in \<open>simp add: try_then_def\<close>)
qed

lemma client_const [adds_intro]: "client_adds P (step_ok x)" "client_adds P (\<lambda>st. (Inl e, st))"
  by (auto simp: client_adds_def step_ok_def)

lemma client_link [adds_intro]: "adds P f \<Longrightarrow> client_adds P (on_link what f)"
  by (force simp: adds_def client_adds_def on_link_def split: prod.splits sum.splits)

lemma client_discard [adds_intro]: "client_adds P f \<Longrightarrow> client_adds P (discard f)"
  unfolding discard_def by (intro adds_intro)

lemma adds_exchange:
  assumes "P (Sent cmd)" "\<And>d. data = DataOut d \<Longrightarrow> P (Sent d)" "\<And>d. P (Got d)" "P (Sent [0])"
  shows "adds P (exchange (logged_link l) cmd cid data n)"
  unfolding exchange_def data_phase_def acknowledge_def using assms
  by (auto simp: Let_def split: Data.split if_split intro!: adds_intro)

lemma client_command:
  assumes "\<And>t. P (Sent (command_block t cid args sz data))" "\<And>d. data = DataOut d \<Longrightarrow> P (Sent d)"
    and "\<And>d. P (Got d)" "P (Sent [0])"
  shows "client_adds P (command (logged_link l) cid name args sz data)"
proof (rule client_addsI)
  fix t u lg r t' u' lg'
  assume run: "command (logged_link l) cid name args sz data (t, u, lg) = (r, t', u', lg')"
  obtain r1 u1 lg1 where e: "exchange (logged_link l) (command_block (t + 1) cid args sz data) cid data (transfer_length data) (u, lg)
      = (r1, u1, lg1)" by (rule prod_cases3)
  obtain r2 t2 u2 lg2 where st: "status (logged_link l) (t + 1, u1, lg1) = (r2, t2, u2, lg2)" by (rule prod_cases4)
  have c: "client_adds P (status (logged_link l))"
    unfolding status_def by (auto intro!: adds_intro split: if_split)
  note e1 = addsD [OF adds_exchange [of P, OF assms] e]
  note e2 = adds_trans [OF e1 client_addsD [OF c st]]
  show "\<exists>evs. lg' = lg @ evs \<and> list_all P evs"
    using run e e1 st e2 by (auto simp: command_def Let_def split: sum.splits if_splits)
qed

lemma word_at_Cons: "word_at (x # xs) (numeral n) = word_at xs (pred_numeral n)"
  unfolding numeral_eq_Suc by (simp add: word_at_def add.commute)

lemma command_block_shape:
  assumes "length args \<le> 16"
  shows "length (command_block t cid args sz data) = 32" "command_block t cid args sz data ! 8 = cid"
    and "args = le_bytes a @ bs \<Longrightarrow> word_at (command_block t cid args sz data) 16 = a"
  using assms by (simp_all add: command_block_def nth_append word_at_skip word_at_Cons)

abbreviation keeps_flash :: "('u logged, 'a) client \<Rightarrow> bool" where
  "keeps_flash \<equiv> client_adds (\<lambda>ev. \<not> changes_flash ev)"

lemma keeps_command:
  assumes "cid \<noteq> CMD_FLASH_ERASE" "cid \<noteq> CMD_WRITE" "length args \<le> 16" "\<And>d. data \<noteq> DataOut d"
  shows "keeps_flash (command (logged_link l) cid name args sz data)"
  using assms command_block_shape [OF assms(3)] by (intro client_command) auto

lemma cmd_ids:
  "CMD_EXCLUSIVE_ACCESS \<notin> {CMD_FLASH_ERASE, CMD_WRITE}" "CMD_EXIT_XIP \<notin> {CMD_FLASH_ERASE, CMD_WRITE}"
  "CMD_READ \<notin> {CMD_FLASH_ERASE, CMD_WRITE}" "CMD_EXEC \<notin> {CMD_FLASH_ERASE, CMD_WRITE}" "CMD_REBOOT \<notin> {CMD_FLASH_ERASE, CMD_WRITE}"
  by (simp_all add: CMD_EXCLUSIVE_ACCESS_def CMD_EXIT_XIP_def CMD_READ_def CMD_EXEC_def CMD_REBOOT_def CMD_FLASH_ERASE_def CMD_WRITE_def)

lemma keeps_ops [adds_intro]:
  "keeps_flash (exclusive_access (logged_link l) mode)" "keeps_flash (exit_xip (logged_link l))"
  "keeps_flash (pico_read (logged_link l) a n)" "keeps_flash (pico_exec (logged_link l) a)" "keeps_flash (reboot (logged_link l))"
  "keeps_flash (reset (logged_link l))"
  using cmd_ids unfolding exclusive_access_def exit_xip_def pico_read_def pico_exec_def reboot_def reset_def
  by (auto intro!: adds_intro keeps_command)

lemma keeps_flash_id [adds_intro]: "keeps_flash (flash_id (logged_link l))"
proof -
  have "\<not> in_flash FLASH_ID_CODE_ADDR" by (simp add: in_flash_def FLASH_SIZE_def FLASH_ID_CODE_ADDR_def FLASH_BASE_def)
  moreover have "CMD_WRITE \<noteq> CMD_FLASH_ERASE" by (simp add: CMD_WRITE_def CMD_FLASH_ERASE_def)
  ultimately have "keeps_flash (command (logged_link l) CMD_WRITE ''WRITE''
      (le_bytes FLASH_ID_CODE_ADDR @ le_bytes (word_of_nat (length FLASH_ID_HELPER))) 8 (DataOut FLASH_ID_HELPER))"
    by (intro client_command) (auto simp: command_block_shape(1,2) command_block_shape(3) [OF _ refl] FLASH_ID_HELPER_def)
  then show ?thesis
    unfolding flash_id_def pico_write_def by (auto intro!: adds_intro split: if_split)
qed

lemma keeps_identify: "keeps_flash (identify (logged_link l))"
  unfolding identify_def by (intro adds_intro)

lemma any_command: "client_adds (\<lambda>_. True) (command (logged_link l) cid name args sz data)"
  by (intro client_command) auto

lemma any_write_sector [adds_intro]: "client_adds (\<lambda>_. True) (write_sector (logged_link l) s)"
proof -
  have "client_adds (\<lambda>_. True) (write_runs (logged_link l) rs)" for rs
    by (induction rs) (auto simp: pico_write_def intro!: adds_intro any_command)
  then show ?thesis
    unfolding write_sector_def flash_erase_def by (intro adds_intro any_command)
qed

lemma keeps_verify_sector [adds_intro]: "keeps_flash (verify_sector (logged_link l) s)"
proof -
  have "keeps_flash (verify_runs (logged_link l) rs)" for rs
    by (induction rs) (auto intro!: adds_intro split: option.split)
  then show ?thesis unfolding verify_sector_def .
qed

section \<open>Nothing is erased before the board is known\<close>

text \<open>The evidence a change of the flash needs: the flash id was read and is the board's, and the journal
  says that the flash is being changed.\<close>

definition armed :: "string \<Rightarrow> UsbEvent list \<Rightarrow> bool" where
  "armed serial evs =
     ((\<exists>bs. Got bs \<in> set evs \<and> length bs = 8 \<and> id_matches_serial bs serial) \<and>
      (\<exists>w. Journaled w \<in> set evs \<and> fw_flash_changed w))"

definition disciplined :: "string \<Rightarrow> UsbEvent list \<Rightarrow> bool" where
  "disciplined serial evs = (\<forall>pre ev post. evs = pre @ ev # post \<and> changes_flash ev \<longrightarrow> armed serial pre)"

lemma armed_append: "armed serial evs \<Longrightarrow> armed serial (evs @ evs')"
  by (auto simp: armed_def)

lemma disciplined_quiet: "disciplined serial evs \<Longrightarrow> quiet evs' \<Longrightarrow> disciplined serial (evs @ evs')"
  unfolding disciplined_def by (force simp: append_eq_append_conv2 append_eq_Cons_conv list_all_iff)

lemma disciplined_armed:
  assumes "disciplined serial evs" "armed serial evs"
  shows "disciplined serial (evs @ evs')"
  unfolding disciplined_def
proof (intro allI impI, elim conjE)
  fix pre ev post
  assume e: "evs @ evs' = pre @ ev # post" "changes_flash ev"
  then consider us where "evs = pre @ ev # us" | us where "pre = evs @ us"
    by (auto simp: append_eq_append_conv2 Cons_eq_append_conv append_eq_Cons_conv)
  then show "armed serial pre"
  proof cases
    case 1 then show ?thesis using assms(1) e(2) by (auto simp: disciplined_def)
  next
    case 2 then show ?thesis using assms(2) by (simp add: armed_append)
  qed
qed

lemma logged_env_sel [simp]:
  "re_link (logged_env env) = logged_link (re_link env)"
  "re_shutdown (logged_env env) (u, lg) = re_shutdown env u"
  "re_late (logged_env env) (u, lg) = re_late env u"
  "re_journal (logged_env env) w (u, lg) = (re_journal env w u, lg @ [Journaled w])"
  "re_open (logged_env env) (u, lg) = (fst (re_open env u), snd (re_open env u), lg)"
  "re_watch_left (logged_env env) (u, lg) = (fst (re_watch_left env u), snd (re_watch_left env u), lg)"
  by (simp_all add: logged_env_def case_prod_unfold)

lemma record_write_logged [simp]:
  "record_write (logged_env env) f (w, t, u, lg) = (f w, t, re_journal env (f w) u, lg @ [Journaled (f w)])"
  by (simp add: record_write_def)

text \<open>A part of the write that never changes the flash.\<close>

definition calm :: "('u logged wr \<Rightarrow> 'r \<times> 'u logged wr) \<Rightarrow> bool" where
  "calm f = (\<forall>w t u lg r w' t' u' lg'. f (w, t, u, lg) = (r, w', t', u', lg') \<longrightarrow> (\<exists>evs. lg' = lg @ evs \<and> quiet evs))"

lemma calmD: "calm f \<Longrightarrow> f (w, t, u, lg) = (r, w', t', u', lg') \<Longrightarrow> \<exists>evs. lg' = lg @ evs \<and> quiet evs"
  by (auto simp: calm_def)

lemma calm_disciplined:
  "calm f \<Longrightarrow> f (w, t, u, lg) = (r, w', t', u', lg') \<Longrightarrow> disciplined serial lg \<Longrightarrow> disciplined serial lg'"
  by (auto dest!: calmD simp: disciplined_quiet)

lemma release_drive_quiet:
  assumes "release_drive (logged_link l) (t, u, lg) = (b, t', u', lg')"
  shows "\<exists>evs. lg' = lg @ evs \<and> quiet evs"
proof -
  have ops: "keeps_flash (exclusive_access (logged_link l) NOT_EXCLUSIVE)" "keeps_flash (reset (logged_link l))"
    by (rule keeps_ops)+
  show ?thesis
    using assms unfolding release_drive_def
    by (auto split: prod.splits sum.splits dest!: client_addsD [OF ops(1)] client_addsD [OF ops(2)])
qed

lemma calm_fell_back [adds_intro]: "calm (fell_back (logged_env env) reason)"
  by (auto simp: calm_def fell_back_def)

lemma calm_release:
  assumes "calm g"
  shows "calm (\<lambda>(w, st). case release_drive (logged_link l) st of (b, st) \<Rightarrow> g (w, st))"
  unfolding calm_def
  by (auto split: prod.splits dest!: release_drive_quiet calmD [OF assms])

lemma calm_fall_back [adds_intro]: "calm (fall_back (logged_env env) reason)"
  using calm_release [OF calm_fell_back] by (simp add: fall_back_def)

lemma calm_fall_back_held [adds_intro]: "calm (fall_back_held (logged_env env) reason)"
  unfolding calm_def fall_back_held_def
  by (auto split: sum.splits dest!: calmD [OF calm_fell_back] calmD [OF calm_fall_back])

lemma calm_stop_writing [adds_intro]: "calm (stop_writing (logged_env env))"
  using calm_release [of "\<lambda>st. (WrittenStopped, st)"] by (simp add: stop_writing_def calm_def)

lemma calm_restart: "calm (restart (logged_env env))"
proof -
  have k: "keeps_flash (reboot (logged_link (re_link env)))" by (rule keeps_ops)
  show ?thesis
    unfolding calm_def restart_def
    by (auto split: prod.splits sum.splits Watched.splits if_splits
        dest!: client_addsD [OF k] calmD [OF calm_fall_back] calmD [OF calm_fall_back_held] calmD [OF calm_stop_writing])
qed

lemma calm_verify_loop: "calm (verify_loop (logged_env env) ss wrote)"
proof -
  have "verify_loop (logged_env env) ss wrote (w, t, u, lg) = (r, w', t', u', lg') \<Longrightarrow> \<exists>evs. lg' = lg @ evs \<and> quiet evs"
    for w t u lg r w' t' u' lg'
  proof (induction ss arbitrary: wrote w t u lg)
    case (Cons s ss)
    have k: "keeps_flash (verify_sector (logged_link (re_link env)) s)" by (rule keeps_verify_sector)
    show ?case
      using Cons.prems
      by (auto simp: ends_def split: prod.splits sum.splits option.splits if_splits
          dest!: client_addsD [OF k] Cons.IH calmD [OF calm_fall_back] calmD [OF calm_stop_writing])
  qed auto
  then show ?thesis unfolding calm_def by blast
qed

lemma write_loop_disciplined:
  assumes "write_loop (logged_env env) first ss wrote (w, t, u, lg) = (r, w', t', u', lg')" "disciplined serial lg"
    and "if first then (\<exists>bs. Got bs \<in> set lg \<and> length bs = 8 \<and> id_matches_serial bs serial) else armed serial lg"
  shows "disciplined serial lg'"
  using assms
proof (induction ss arbitrary: first wrote w t u lg)
  case (Cons s ss)
  let ?begun = "if first then begin_writing (logged_env env) (w, t, u, lg) else (w, t, u, lg)"
  obtain w1 t1 u1 lg1 where b: "?begun = (w1, t1, u1, lg1)" by (rule prod_cases4)
  have d: "disciplined serial lg1" "armed serial lg1"
    using b Cons.prems(2,3) by (auto simp: begin_writing_def disciplined_quiet armed_def split: if_splits)
  obtain r2 t2 u2 lg2 where s: "write_sector (logged_link (re_link env)) s (t1, u1, lg1) = (r2, t2, u2, lg2)" by (rule prod_cases4)
  obtain evs where e: "lg2 = lg1 @ evs" using client_addsD [OF any_write_sector s] by auto
  have d2: "disciplined serial lg2" "armed serial lg2" using d e by (simp_all add: disciplined_armed armed_append)
  consider "re_shutdown env u" | "\<not> re_shutdown env u" "re_late env u" | "\<not> re_shutdown env u" "\<not> re_late env u" by blast
  then show ?case
  proof cases
    case 3
    with Cons.prems(1) b s have "(case r2 of Inl _ \<Rightarrow> ends (fall_back (logged_env env) TransferFailed (w1, t2, u2, lg2))
      | Inr _ \<Rightarrow> write_loop (logged_env env) False ss (wrote + sector_bytes s)
          (w1\<lparr>fw_done_bytes := wrote + sector_bytes s\<rparr>, t2, u2, lg2)) = (r, w', t', u', lg')" by simp
    then show ?thesis
      using Cons.IH d2 calm_disciplined [OF calm_fall_back _ d2(1)] by (auto simp: ends_def split: sum.splits prod.splits)
  qed (use Cons.prems(1,2) in \<open>auto simp: ends_def split: prod.splits
      dest!: calm_disciplined [OF calm_stop_writing] calm_disciplined [OF calm_fall_back]\<close>)
qed simp

text \<open>What a read that succeeded left in the log.\<close>

definition read_frames :: "addr \<Rightarrow> addr \<Rightarrow> addr \<Rightarrow> byte list \<Rightarrow> UsbEvent list" where
  "read_frames t a n got = [Sent (command_block t CMD_READ (le_bytes a @ le_bytes n) 8 (DataIn n)), Got got, Sent [0]]"

lemma pico_read_log:
  assumes "pico_read (logged_link l) a n (t, u, lg) = (Inr got, t', u', lg')"
  shows "lg' = lg @ read_frames (t + 1) a n got \<and> length got = unat n"
proof -
  have "CMD_READ AND DIR_IN \<noteq> 0" by (simp add: CMD_READ_def DIR_IN_def)
  then show ?thesis
    using assms
    by (auto simp: pico_read_def command_def exchange_def data_phase_def acknowledge_def try_then_def at_phase_def fail_at_def
        step_ok_def logged_link_def with_log_def transfer_length_def read_frames_def Let_def
        split: prod.splits sum.splits if_splits)
qed

lemma identify_log:
  assumes "identify (logged_link l) (t, u, lg) = (Inr bs, t', u', lg')"
  shows "\<exists>evs. lg' = lg @ evs \<and> quiet evs \<and> Got bs \<in> set evs \<and> length bs = 8"
proof -
  obtain evs where e: "lg' = lg @ evs" "quiet evs" using client_addsD [OF keeps_identify assms] by blast
  obtain t1 u1 lg1 where "flash_id (logged_link l) (t1, u1, lg1) = (Inr bs, t', u', lg')"
    and i1: "\<exists>evs. lg1 = lg @ evs"
  proof -
    have pre: "client_adds (\<lambda>_. True) (reset (logged_link l))" "client_adds (\<lambda>_. True) (exclusive_access (logged_link l) m)"
      "client_adds (\<lambda>_. True) (exit_xip (logged_link l))" for m
      unfolding exclusive_access_def exit_xip_def reset_def by (intro adds_intro any_command | simp)+
    show thesis
      using assms that unfolding identify_def try_then_def
      by (auto split: prod.splits sum.splits dest!: client_addsD [OF pre(1)] client_addsD [OF pre(2)] client_addsD [OF pre(3)])
  qed
  then obtain t2 u2 lg2 where r: "pico_read (logged_link l) FLASH_ID_RESULT_ADDR 8 (t2, u2, lg2) = (Inr bs, t', u', lg')"
    and i2: "\<exists>evs. lg2 = lg1 @ evs"
  proof -
    assume f: "flash_id (logged_link l) (t1, u1, lg1) = (Inr bs, t', u', lg')"
      and that: "\<And>t2 u2 lg2. pico_read (logged_link l) FLASH_ID_RESULT_ADDR 8 (t2, u2, lg2) = (Inr bs, t', u', lg') \<Longrightarrow>
        \<exists>evs. lg2 = lg1 @ evs \<Longrightarrow> thesis"
    have pre: "client_adds (\<lambda>_. True) (pico_write (logged_link l) a d)" "client_adds (\<lambda>_. True) (pico_exec (logged_link l) a)" for a d
      unfolding pico_write_def pico_exec_def by (intro adds_intro any_command)+
    show thesis
      using f that unfolding flash_id_def try_then_def
      by (auto simp: step_ok_def split: prod.splits sum.splits if_splits dest!: client_addsD [OF pre(1)] client_addsD [OF pre(2)])
  qed
  from pico_read_log [OF r] have "lg' = lg2 @ read_frames (t2 + 1) FLASH_ID_RESULT_ADDR 8 bs" "length bs = 8" by simp_all
  with i1 i2 e show ?thesis by (auto simp: read_frames_def)
qed

lemma write_and_verify_disciplined:
  assumes "write_and_verify (logged_env env) ss (w, t, u, lg) = (r, w', t', u', lg')" "disciplined serial lg"
    and "Got bs \<in> set lg" "length bs = 8" "id_matches_serial bs serial"
  shows "disciplined serial lg'"
proof -
  obtain r1 w1 t1 u1 lg1 where l: "write_loop (logged_env env) True ss 0 (w, t, u, lg) = (r1, w1, t1, u1, lg1)"
    by (metis prod_cases4)
  have d1: "disciplined serial lg1" using write_loop_disciplined [OF l assms(2)] assms(3-5) by auto
  show ?thesis
  proof (cases r1)
    case (Inr x)
    let ?f = "\<lambda>w. w\<lparr>fw_phase := WpVerifying, fw_done_bytes := 0\<rparr>"
    obtain r2 w2 t2 u2 lg2 where v: "verify_loop (logged_env env) ss 0 (record_write (logged_env env) ?f (w1, t1, u1, lg1)) =
        (r2, w2, t2, u2, lg2)" by (metis prod_cases4)
    have d2: "disciplined serial lg2"
      using calm_disciplined [OF calm_verify_loop v [unfolded record_write_logged]] d1 by (simp add: disciplined_quiet)
    show ?thesis
      using assms(1) l v Inr d2 calm_disciplined [OF calm_restart _ d2]
      by (auto simp: write_and_verify_def split: sum.splits)
  qed (use assms(1) l d1 in \<open>auto simp: write_and_verify_def\<close>)
qed

text \<open>C21: the daemon never erases a flash it has not identified, nor before the journal says so. Whatever
  the USB device answers and whenever the daemon is stopped, every frame of the write that erases or
  programs flash comes after a reading of the flash id that is the board's own serial, and after the
  journal was told that the flash is being changed.\<close>

theorem flash_is_identified_first:
  assumes "write_firmware (logged_env env) serial job old (u, []) = (r, w, t, u', evs)"
    and "evs = pre @ ev # post" "changes_flash ev"
  shows "(\<exists>bs. Got bs \<in> set pre \<and> length bs = 8 \<and> id_matches_serial bs serial) \<and>
    (\<exists>j. Journaled j \<in> set pre \<and> fw_flash_changed j)"
proof -
  define w0 where "w0 = (case old of Some w \<Rightarrow> w | None \<Rightarrow>
    firmware_write_new (rl_name (sg_release job)) (byte_count (sg_image job)))\<lparr>fw_phase := WpIdentifying\<rparr>"
  define u1 where "u1 = re_journal env w0 u"
  have d0: "disciplined serial [Journaled w0]" by (auto simp: disciplined_def Cons_eq_append_conv)
  obtain ro u2 where o: "re_open env u1 = (ro, u2)" by (rule prod.exhaust)
  obtain ri t3 u3 lg3 where i: "identify (logged_link (re_link env)) (0, u2, [Journaled w0]) = (ri, t3, u3, lg3)"
    by (rule prod_cases4)
  have d3: "disciplined serial lg3" using client_addsD [OF keeps_identify i] disciplined_quiet [OF d0] by blast
  have run: "write_firmware (logged_env env) serial job old (u, []) =
    (case ro of
       Inl NoAccess \<Rightarrow> fell_back (logged_env env) NoUsbAccess (w0, 0, u2, [Journaled w0])
     | Inl _ \<Rightarrow> fell_back (logged_env env) UsbUnavailable (w0, 0, u2, [Journaled w0])
     | Inr _ \<Rightarrow> (case ri of
          Inl _ \<Rightarrow> fall_back (logged_env env) TransferFailed (w0, t3, u3, lg3)
        | Inr flash \<Rightarrow> (case record_write (logged_env env) (\<lambda>w. w\<lparr>fw_flash_id := Some (serial_of flash)\<rparr>) (w0, t3, u3, lg3) of st \<Rightarrow>
            if \<not> id_matches_serial flash serial then fall_back (logged_env env) FlashIdMismatch st
            else write_and_verify (logged_env env) (sectors (sg_image job)) st)))"
    using o i by (simp add: write_firmware_def Let_def w0_def u1_def split: sum.splits PicobootError.splits)
  have "disciplined serial evs"
  proof (cases ro)
    case (Inl e)
    then show ?thesis
      using assms(1) run calm_disciplined [OF calm_fell_back _ d0] by (auto split: PicobootError.splits)
  next
    case (Inr x)
    show ?thesis
    proof (cases ri)
      case (Inl e)
      then show ?thesis using assms(1) run Inr calm_disciplined [OF calm_fall_back _ d3] by auto
    next
      case (Inr bs)
      have b: "Got bs \<in> set lg3" "length bs = 8" using identify_log [OF i [unfolded Inr]] by auto
      let ?w = "w0\<lparr>fw_flash_id := Some (serial_of bs)\<rparr>"
      have d4: "disciplined serial (lg3 @ [Journaled ?w])" using d3 by (simp add: disciplined_quiet)
      show ?thesis
        using assms(1) run \<open>ro = Inr x\<close> Inr b calm_disciplined [OF calm_fall_back _ d4]
          write_and_verify_disciplined [OF _ d4, of env "sectors (sg_image job)"]
        by (auto split: if_splits)
    qed
  qed
  then show ?thesis using assms(2,3) by (auto simp: disciplined_def armed_def)
qed

section \<open>A write that reports success was read back\<close>

definition read_back :: "Run \<Rightarrow> UsbEvent list \<Rightarrow> bool" where
  "read_back r evs = (\<exists>pre t post. evs = pre @ read_frames t (run_addr r) (word_of_nat (length (run_data r))) (run_data r) @ post)"

lemma read_back_append: "read_back r evs \<Longrightarrow> read_back r (evs' @ evs @ evs'')"
  unfolding read_back_def by (metis append.assoc)

lemma no_difference:
  assumes "first_difference got want = None" "length got = length want"
  shows "got = want"
proof (rule nth_equalityI)
  fix i assume i: "i < length got"
  have "\<forall>x \<in> set (enumerate 0 (zip got want)). \<not> (\<lambda>(i, a, b). a \<noteq> b) x"
    using assms(1) by (force simp: first_difference_def find_None_iff)
  moreover have "(i, got ! i, want ! i) \<in> set (enumerate 0 (zip got want))"
    using i assms(2) by (auto simp: in_set_enumerate_eq)
  ultimately show "got ! i = want ! i" by force
qed (use assms(2) in simp)

definition small_runs :: "Sector list \<Rightarrow> bool" where
  "small_runs ss = list_all (\<lambda>s. list_all (\<lambda>r. length (run_data r) < 2 ^ 32) (sec_runs s)) ss"

lemma verify_runs_log:
  assumes "verify_runs (logged_link l) rs (t, u, lg) = (Inr None, t', u', lg')"
    and "list_all (\<lambda>r. length (run_data r) < 2 ^ 32) rs"
  shows "\<exists>evs. lg' = lg @ evs \<and> (\<forall>r \<in> set rs. read_back r evs)"
  using assms
proof (induction rs arbitrary: t u lg)
  case (Cons r rs)
  obtain g t1 u1 lg1 where rd: "pico_read (logged_link l) (run_addr r) (word_of_nat (length (run_data r))) (t, u, lg) = (g, t1, u1, lg1)"
    by (rule prod_cases4)
  obtain got where g: "g = Inr got" using Cons.prems(1) rd by (cases g) (auto simp: try_then_def)
  note log1 = pico_read_log [OF rd [unfolded g]]
  have nd: "first_difference got (run_data r) = None"
    and v: "verify_runs (logged_link l) rs (t1, u1, lg1) = (Inr None, t', u', lg')"
    using Cons.prems(1) rd g by (auto simp: try_then_def step_ok_def split: option.splits)
  have "length got = length (run_data r)" using log1 Cons.prems(2) by (simp add: unat_of_nat take_bit_nat_eq_self)
  then have eq: "got = run_data r" using no_difference [OF nd] by simp
  obtain evs where e: "lg' = lg1 @ evs" "\<forall>r \<in> set rs. read_back r evs" using Cons.IH [OF v] Cons.prems(2) by auto
  let ?f = "read_frames (t + 1) (run_addr r) (word_of_nat (length (run_data r))) (run_data r)"
  have "read_back r (?f @ evs)" unfolding read_back_def by (metis append_Nil)
  moreover have "\<forall>q \<in> set rs. read_back q (?f @ evs)" using e(2) read_back_append [of _ evs ?f "[]"] by auto
  ultimately show ?case using log1 e(1) eq by (intro exI [of _ "?f @ evs"]) auto
qed (simp add: step_ok_def)

lemma verify_loop_log:
  assumes "verify_loop (logged_env env) ss wrote (w, t, u, lg) = (Inr (), w', t', u', lg')" "small_runs ss"
  shows "\<exists>evs. lg' = lg @ evs \<and> (\<forall>s \<in> set ss. \<forall>r \<in> set (sec_runs s). read_back r evs)"
  using assms
proof (induction ss arbitrary: wrote w t u lg)
  case (Cons s ss)
  obtain v t1 u1 lg1 where vs: "verify_sector (logged_link (re_link env)) s (t, u, lg) = (v, t1, u1, lg1)" by (rule prod_cases4)
  have v: "v = Inr None" and
    rest: "verify_loop (logged_env env) ss (wrote + sector_bytes s) (w\<lparr>fw_done_bytes := wrote + sector_bytes s\<rparr>, t1, u1, lg1) =
      (Inr (), w', t', u', lg')"
    using Cons.prems(1) vs by (auto simp: ends_def split: if_splits sum.splits option.splits prod.splits)
  obtain e1 where e1: "lg1 = lg @ e1" "\<forall>r \<in> set (sec_runs s). read_back r e1"
  proof -
    have "list_all (\<lambda>r. length (run_data r) < 2 ^ 32) (sec_runs s)" using Cons.prems(2) by (simp add: small_runs_def)
    from verify_runs_log [OF vs [unfolded v verify_sector_def] this] show thesis using that by blast
  qed
  obtain e2 where e2: "lg' = lg1 @ e2" "\<forall>s \<in> set ss. \<forall>r \<in> set (sec_runs s). read_back r e2"
    using Cons.IH [OF rest] Cons.prems(2) by (auto simp: small_runs_def)
  have "\<forall>r \<in> set (sec_runs s). read_back r (e1 @ e2)" using e1(2) read_back_append [of _ e1 "[]" e2] by auto
  moreover have "\<forall>s \<in> set ss. \<forall>r \<in> set (sec_runs s). read_back r (e1 @ e2)" using e2(2) read_back_append [of _ e2 e1 "[]"] by auto
  ultimately show ?case using e1(1) e2(1) by (intro exI [of _ "e1 @ e2"]) auto
qed auto

lemma write_loop_never_done:
  assumes "write_loop env first ss wrote st = (Inl r, st')"
  shows "r \<noteq> WrittenDone"
  using assms
  by (induction env first ss wrote st rule: write_loop.induct)
     (auto simp: ends_def fall_back_def fell_back_def stop_writing_def split: if_splits prod.splits sum.splits)

lemma verify_loop_never_done:
  assumes "verify_loop env ss wrote st = (Inl r, st')"
  shows "r \<noteq> WrittenDone"
  using assms
  by (induction env ss wrote st rule: verify_loop.induct)
     (auto simp: ends_def fall_back_def fell_back_def stop_writing_def split: if_splits prod.splits sum.splits option.splits)

lemma write_and_verify_done:
  assumes "write_and_verify (logged_env env) ss (w, t, u, lg) = (WrittenDone, w', t', u', lg')" "small_runs ss"
  shows "fw_verified w' \<and> fw_phase w' = WpWritten \<and>
    (\<exists>pre evs. lg' = pre @ evs \<and> quiet evs \<and> (\<forall>s \<in> set ss. \<forall>r \<in> set (sec_runs s). read_back r evs))"
proof -
  obtain r1 w1 t1 u1 lg1 where l: "write_loop (logged_env env) True ss 0 (w, t, u, lg) = (r1, w1, t1, u1, lg1)"
    by (metis prod_cases4)
  have r1: "r1 = Inr ()"
    using assms(1) l write_loop_never_done [of "logged_env env" True ss 0 "(w, t, u, lg)"]
    by (cases r1) (auto simp: write_and_verify_def)
  let ?f = "\<lambda>w. w\<lparr>fw_phase := WpVerifying, fw_done_bytes := 0\<rparr>"
  obtain r2 w2 t2 u2 lg2 where v: "verify_loop (logged_env env) ss 0
      (?f w1, t1, re_journal env (?f w1) u1, lg1 @ [Journaled (?f w1)]) = (r2, w2, t2, u2, lg2)" by (metis prod_cases4)
  have r2: "r2 = Inr ()"
    using assms(1) l r1 v verify_loop_never_done [of "logged_env env" ss 0 "(?f w1, t1, re_journal env (?f w1) u1, lg1 @ [Journaled (?f w1)])"]
    by (cases r2) (auto simp: write_and_verify_def)
  have rs: "restart (logged_env env) (w2, t2, u2, lg2) = (WrittenDone, w', t', u', lg')"
    using assms(1) l r1 v r2 by (simp add: write_and_verify_def)
  obtain e1 where e1: "lg2 = (lg1 @ [Journaled (?f w1)]) @ e1" "\<forall>s \<in> set ss. \<forall>r \<in> set (sec_runs s). read_back r e1"
    using verify_loop_log [OF v [unfolded r2] assms(2)] by blast
  have q1: "quiet e1" using calmD [OF calm_verify_loop v] e1(1) by auto
  obtain e2 where e2: "lg' = lg2 @ e2" "quiet e2" using calmD [OF calm_restart rs] by blast
  have "\<forall>s \<in> set ss. \<forall>r \<in> set (sec_runs s). read_back r (e1 @ e2)" using e1(2) read_back_append [of _ e1 "[]" e2] by auto
  moreover have "fw_verified w' \<and> fw_phase w' = WpWritten"
    using rs by (auto simp: restart_def fall_back_def fell_back_def stop_writing_def fall_back_held_def
        split: if_splits prod.splits sum.splits Watched.splits)
  ultimately show ?thesis
    using q1 e2 e1(1) by (intro conjI exI [of _ "lg1 @ [Journaled (?f w1)]"] exI [of _ "e1 @ e2"]) auto
qed

lemma small_sectors: "parse_image data = Inr ps \<Longrightarrow> small_runs (sectors ps)"
  using sector_runs_small by (fastforce simp: small_runs_def list_all_iff)

text \<open>C23: success means that the flash was read back. When the write reports that it is done, the record says
  so, and after the last frame that changed the flash every run of the image was read at its address, and
  the bytes that came back were the image's, with nothing but reads and the restart in between.\<close>

theorem written_is_read_back:
  assumes "parse_image data = Inr (sg_image job)"
    and "write_firmware (logged_env env) serial job old (u, []) = (WrittenDone, w, t, u', evs)"
  shows "fw_verified w \<and> fw_phase w = WpWritten \<and>
    (\<exists>pre post. evs = pre @ post \<and> quiet post \<and>
       (\<forall>s \<in> set (sectors (sg_image job)). \<forall>r \<in> set (sec_runs s). read_back r post))"
proof -
  obtain w0 t0 u0 lg0 where "write_and_verify (logged_env env) (sectors (sg_image job)) (w0, t0, u0, lg0) = (WrittenDone, w, t, u', evs)"
    using assms(2)
    by (auto simp: write_firmware_def Let_def fell_back_def fall_back_def split: sum.splits PicobootError.splits prod.splits if_splits)
  from write_and_verify_done [OF this small_sectors [OF assms(1)]] show ?thesis .
qed

section \<open>A run on a scripted bootloader\<close>

text \<open>The answers of a bootloader that does what it is told, for an image of one page.\<close>

definition script_link :: "byte list list Link" where
  "script_link =
     \<lparr>bulk_out = (\<lambda>_ _ u. (Inr (), u)), bulk_in = (\<lambda>_ _ u. (Inr (hd u), tl u)),
      control_in = (\<lambda>_ _ _ u. (Inl LinkTimeout, u)), control_out = (\<lambda>_ _ u. (Inr (), u)), clear_halts = (\<lambda>u. (Inr (), u))\<rparr>"

definition script_env :: "byte list list RunEnv" where
  "script_env = \<lparr>re_link = script_link, re_open = (\<lambda>u. (Inr (), u)), re_shutdown = (\<lambda>_. False), re_late = (\<lambda>_. False),
     re_journal = (\<lambda>_ u. u), re_watch_left = (\<lambda>u. (WatchedFound, u))\<rparr>"

definition one_page :: "byte list" where
  "one_page = replicate 256 1"

definition one_page_image :: pages where
  "one_page_image = (case parse_image (encode_image [(FLASH_BASE, one_page)]) of Inr ps \<Rightarrow> ps | Inl _ \<Rightarrow> RBT.empty)"

definition one_page_job :: Staged where
  "one_page_job = \<lparr>sg_sha256 = [], sg_release = hd RELEASES, sg_image = one_page_image\<rparr>"

definition script :: "byte list list" where
  "script = [[], [], [], [], replicate 8 0, [], [], one_page, []]"

lemma one_page_parses:
  "parse_image (encode_image [(FLASH_BASE, one_page)]) = Inr one_page_image \<and> RBT.lookup one_page_image = [FLASH_BASE \<mapsto> one_page]"
proof -
  have ok: "list_all page_ok [(FLASH_BASE, one_page)]"
    by (simp add: page_ok_def one_page_def PAGE_SIZE_def FLASH_BASE_def FLASH_SIZE_def)
  obtain ps where ps: "parse_image (encode_image [(FLASH_BASE, one_page)]) = Inr ps"
      "RBT.lookup ps a = map_of [(FLASH_BASE, one_page)] a" for a
    using parse_encode_image [OF ok] by auto
  then have "RBT.lookup ps = [FLASH_BASE \<mapsto> one_page]" by (intro ext) simp
  with ps(1) show ?thesis by (simp add: one_page_image_def)
qed

lemma one_page_sectors:
  "sectors (sg_image one_page_job) = [\<lparr>sec_base = FLASH_BASE, sec_runs = [\<lparr>run_addr = FLASH_BASE, run_data = one_page\<rparr>]\<rparr>]"
proof -
  let ?es = "RBT.entries one_page_image"
  have set: "set ?es = {(FLASH_BASE, one_page)}"
    using one_page_parses by (auto simp flip: RBT.lookup_in_tree split: if_splits)
  have "distinct ?es" using RBT.distinct_entries by (rule distinct_map [THEN iffD1, THEN conjunct1])
  then have "length ?es = 1" using set distinct_card [of ?es] by simp
  then obtain e where "?es = [e]" by (cases ?es) auto
  with set have "?es = [(FLASH_BASE, one_page)]" by simp
  then show ?thesis
    by (simp add: sectors_def one_page_job_def add_page_new sector_base_def FLASH_BASE_def SECTOR_SIZE_def)
qed

definition scripted_run :: "Written \<times> byte list list logged wr" where
  "scripted_run = write_firmware (logged_env script_env) ''0000000000000000'' one_page_job None (script, [])"

lemma cmd_directions [simp]:
  "CMD_READ AND DIR_IN \<noteq> 0" "CMD_WRITE AND DIR_IN = 0" "CMD_EXEC AND DIR_IN = 0" "CMD_EXIT_XIP AND DIR_IN = 0"
  "CMD_EXCLUSIVE_ACCESS AND DIR_IN = 0" "CMD_FLASH_ERASE AND DIR_IN = 0" "CMD_REBOOT AND DIR_IN = 0"
  by (simp_all add: CMD_EXCLUSIVE_ACCESS_def CMD_EXIT_XIP_def CMD_READ_def CMD_EXEC_def CMD_REBOOT_def CMD_FLASH_ERASE_def
      CMD_WRITE_def DIR_IN_def)

lemmas step_eval = try_then_def at_phase_def on_link_def step_ok_def fail_at_def command_def exchange_def data_phase_def
  acknowledge_def Let_def logged_link_def with_log_def script_link_def

lemma script_command:
  assumes "cid AND DIR_IN = 0"
  shows "command (logged_link script_link) cid name args sz NoData (t, [] # u, lg) =
      (Inr [], t + 1, u, lg @ [Sent (command_block (t + 1) cid args sz NoData), Got []])"
    and "command (logged_link script_link) cid name args sz (DataOut d) (t, [] # u, lg) =
      (Inr [], t + 1, u, lg @ [Sent (command_block (t + 1) cid args sz (DataOut d)), Sent d, Got []])"
  using assms by (simp_all add: step_eval)

lemma script_read:
  assumes "length got = unat n"
  shows "pico_read (logged_link script_link) a n (t, got # u, lg) = (Inr got, t + 1, u, lg @ read_frames (t + 1) a n got)"
  using assms by (simp add: step_eval pico_read_def read_frames_def transfer_length_def)

lemma script_reset: "reset (logged_link script_link) (t, u, lg) = (Inr (), t, u, lg)"
  by (simp add: step_eval reset_def)

lemmas op_eval = exclusive_access_def exit_xip_def flash_id_def pico_write_def pico_exec_def reboot_def flash_erase_def discard_def
  try_then_def step_ok_def script_command script_read script_reset

lemma scripted_identify:
  "\<exists>lg'. identify (logged_link script_link) (0, script, lg) = (Inr (replicate 8 0), 5, drop 5 script, lg')"
  by (simp add: identify_def op_eval script_def)

lemma one_page_equal: "length one_page = 256" "first_difference one_page one_page = None"
  by (auto simp: one_page_def first_difference_def find_None_iff in_set_enumerate_eq)

lemma scripted_write:
  "\<exists>w' t u pre post. write_and_verify (logged_env script_env) (sectors (sg_image one_page_job)) (w, 5, drop 5 script, lg) =
     (WrittenDone, w', t, u, pre @ Sent (command_block 6 CMD_FLASH_ERASE (le_bytes FLASH_BASE @ le_bytes SECTOR_SIZE) 8 NoData) # post)"
proof -
  have env: "re_link script_env = script_link" "re_shutdown script_env u = False" "re_late script_env u = False"
    "re_journal script_env j u = u" "re_watch_left script_env u = (WatchedFound, u)" for u j
    by (simp_all add: script_env_def)
  have d: "drop 5 script = [[], [], one_page, []]" by (simp add: script_def)
  have evs: "\<exists>pre post. lg @ x # y # ys = pre @ y # post" for lg x y and ys :: "UsbEvent list"
    by (metis append.assoc append_Cons append_Nil)
  show ?thesis
    by (simp add: write_and_verify_def one_page_sectors env d begin_writing_def write_sector_def verify_sector_def
        op_eval one_page_equal restart_def) (rule evs)
qed

lemma scripted:
  "\<exists>w t u pre post. scripted_run =
     (WrittenDone, w, t, u, pre @ Sent (command_block 6 CMD_FLASH_ERASE (le_bytes FLASH_BASE @ le_bytes SECTOR_SIZE) 8 NoData) # post)"
proof -
  have id: "id_matches_serial (replicate 8 0) ''0000000000000000''" by code_simp
  have env: "re_link script_env = script_link" "re_open script_env u = (Inr (), u)" "re_journal script_env j u = u" for u j
    by (simp_all add: script_env_def)
  define w0 where "w0 = (firmware_write_new (rl_name (sg_release one_page_job)) (byte_count (sg_image one_page_job)))
    \<lparr>fw_phase := WpIdentifying\<rparr>"
  define w1 where "w1 = w0\<lparr>fw_flash_id := Some (serial_of (replicate 8 0))\<rparr>"
  obtain lg' where i: "identify (logged_link script_link) (0, script, [Journaled w0]) = (Inr (replicate 8 0), 5, drop 5 script, lg')"
    using scripted_identify by blast
  have "scripted_run = write_and_verify (logged_env script_env) (sectors (sg_image one_page_job))
      (w1, 5, drop 5 script, lg' @ [Journaled w1])"
    using i id by (simp add: scripted_run_def write_firmware_def env Let_def w0_def w1_def)
  then show ?thesis using scripted_write [of w1 "lg' @ [Journaled w1]"] by (simp only:)
qed

theorem flash_is_identified_first_witness:
  "\<exists>pre d post. snd (snd (snd (snd scripted_run))) = pre @ Sent d # post \<and> changes_flash (Sent d) \<and>
     (\<exists>bs. Got bs \<in> set pre \<and> length bs = 8 \<and> id_matches_serial bs ''0000000000000000'')"
proof -
  let ?d = "command_block 6 CMD_FLASH_ERASE (le_bytes FLASH_BASE @ le_bytes SECTOR_SIZE) 8 NoData"
  obtain w t u pre post where r: "scripted_run = (WrittenDone, w, t, u, pre @ Sent ?d # post)" using scripted by blast
  have c: "changes_flash (Sent ?d)" by (simp add: command_block_shape)
  from flash_is_identified_first [OF r [unfolded scripted_run_def] refl c]
  have "\<exists>bs. Got bs \<in> set pre \<and> length bs = 8 \<and> id_matches_serial bs ''0000000000000000''" by blast
  moreover have "snd (snd (snd (snd scripted_run))) = pre @ Sent ?d # post" by (simp add: r)
  ultimately show ?thesis using c by blast
qed

theorem written_is_read_back_witness:
  "fw_verified (fst (snd scripted_run)) \<and>
   (\<exists>post. read_back \<lparr>run_addr = FLASH_BASE, run_data = one_page\<rparr> post)"
proof -
  obtain w t u evs where r: "scripted_run = (WrittenDone, w, t, u, evs)" using scripted by blast
  have p: "parse_image (encode_image [(FLASH_BASE, one_page)]) = Inr (sg_image one_page_job)"
    using one_page_parses by (simp add: one_page_job_def)
  from written_is_read_back [OF p r [unfolded scripted_run_def]] show ?thesis
    by (auto simp: r one_page_sectors)
qed

end
