(* ===== verification/Bounded_Write.thy ===== *)
theory Bounded_Write
  imports Ofc_Prelude
begin

text \<open>
  The bounded join of a backend's blocking writes (\<open>BoundedWrite\<close> of \<open>profile_engine/backends.rs\<close>). The
  async runtime is a parameter: a record of the four calls the code makes of it, over an arbitrary outside
  state. A task is whatever the runtime makes of the closure it is given; the value it joins with stands for
  \<open>Result<T, JoinError>\<close>.
\<close>

record ('t, 'h, 'r, 'w) Runtime =
  rt_now :: "'w \<Rightarrow> instant"
  rt_spawn_blocking :: "'t \<Rightarrow> 'w \<Rightarrow> 'h \<times> 'w"
  rt_timeout :: "duration \<Rightarrow> 'h \<Rightarrow> 'w \<Rightarrow> 'r option \<times> 'w"
  rt_is_finished :: "'h \<Rightarrow> 'w \<Rightarrow> bool"

record 'h BoundedWrite =
  bw_pending :: "'h option"
  bw_completed_last_run :: bool

definition bounded_default :: "'h BoundedWrite" where
  "bounded_default = \<lparr>bw_pending = None, bw_completed_last_run = False\<rparr>"

record 'r WriteProgress =
  wp_harvested :: "'r option"
  wp_issued :: "'r option"
  wp_in_flight :: bool

definition wp_completed :: "'r WriteProgress \<Rightarrow> 'r list" where
  "wp_completed p = (case wp_harvested p of Some r \<Rightarrow> [r] | None \<Rightarrow> []) @ (case wp_issued p of Some r \<Rightarrow> [r] | None \<Rightarrow> [])"

definition bw_outstanding :: "('t, 'h, 'r, 'w) Runtime \<Rightarrow> 'w \<Rightarrow> 'h BoundedWrite \<Rightarrow> bool" where
  "bw_outstanding rt w b = (case bw_pending b of Some h \<Rightarrow> \<not> rt_is_finished rt h w | None \<Rightarrow> False)"

definition bw_stalled :: "('t, 'h, 'r, 'w) Runtime \<Rightarrow> 'w \<Rightarrow> 'h BoundedWrite \<Rightarrow> bool" where
  "bw_stalled rt w b = (bw_outstanding rt w b \<and> \<not> bw_completed_last_run b)"

definition note_no_progress :: "'h BoundedWrite \<Rightarrow> 'h BoundedWrite" where
  "note_no_progress b = b\<lparr>bw_completed_last_run := False\<rparr>"

definition bw_drain :: "('t, 'h, 'r, 'w) Runtime \<Rightarrow> duration \<Rightarrow> 'h BoundedWrite \<times> 'w \<Rightarrow> 'h BoundedWrite \<times> 'w" where
  "bw_drain rt deadline = (\<lambda>(b, w).
     case bw_pending b of
       None \<Rightarrow> (b, w)
     | Some h \<Rightarrow> (b\<lparr>bw_pending := None\<rparr>, snd (rt_timeout rt deadline h w)))"

definition harvest_only :: "('t, 'h, 'r, 'w) Runtime \<Rightarrow> duration \<Rightarrow> 'h BoundedWrite \<times> 'w \<Rightarrow>
    'r WriteProgress \<times> 'h BoundedWrite \<times> 'w" where
  "harvest_only rt budget = (\<lambda>(b, w).
     case bw_pending b of
       None \<Rightarrow> (\<lparr>wp_harvested = None, wp_issued = None, wp_in_flight = False\<rparr>, b\<lparr>bw_completed_last_run := False\<rparr>, w)
     | Some h \<Rightarrow>
         (case rt_timeout rt budget h w of
            (Some joined, w) \<Rightarrow>
              (\<lparr>wp_harvested = Some joined, wp_issued = None, wp_in_flight = False\<rparr>,
               \<lparr>bw_pending = None, bw_completed_last_run = True\<rparr>, w)
          | (None, w) \<Rightarrow>
              (\<lparr>wp_harvested = None, wp_issued = None, wp_in_flight = True\<rparr>,
               \<lparr>bw_pending = Some h, bw_completed_last_run = False\<rparr>, w)))"

text \<open>The second half of \<open>run\<close>: nothing is outstanding, the write is issued and waited for as long as the
  budget lasts.\<close>

definition issue_write :: "('t, 'h, 'r, 'w) Runtime \<Rightarrow> instant \<Rightarrow> duration \<Rightarrow> 't \<Rightarrow> 'r option \<Rightarrow> 'w \<Rightarrow>
    'r WriteProgress \<times> 'h BoundedWrite \<times> 'w" where
  "issue_write rt started budget f harvested w =
     (let residual = budget - (rt_now rt w - started) in
      case rt_spawn_blocking rt f w of (h, w) \<Rightarrow>
        (case rt_timeout rt residual h w of
           (Some joined, w) \<Rightarrow>
             (\<lparr>wp_harvested = harvested, wp_issued = Some joined, wp_in_flight = False\<rparr>,
              \<lparr>bw_pending = None, bw_completed_last_run = True\<rparr>, w)
         | (None, w) \<Rightarrow>
             (\<lparr>wp_harvested = harvested, wp_issued = None, wp_in_flight = True\<rparr>,
              \<lparr>bw_pending = Some h, bw_completed_last_run = (harvested \<noteq> None)\<rparr>, w)))"

definition bw_run :: "('t, 'h, 'r, 'w) Runtime \<Rightarrow> duration \<Rightarrow> 't \<Rightarrow> 'h BoundedWrite \<times> 'w \<Rightarrow>
    'r WriteProgress \<times> 'h BoundedWrite \<times> 'w" where
  "bw_run rt budget f = (\<lambda>(b, w).
     let started = rt_now rt w in
     case bw_pending b of
       None \<Rightarrow> issue_write rt started budget f None w
     | Some h \<Rightarrow>
         (case rt_timeout rt budget h w of
            (None, w) \<Rightarrow>
              (\<lparr>wp_harvested = None, wp_issued = None, wp_in_flight = True\<rparr>,
               \<lparr>bw_pending = Some h, bw_completed_last_run = False\<rparr>, w)
          | (Some joined, w) \<Rightarrow> issue_write rt started budget f (Some joined) w))"

section \<open>Histories\<close>

datatype 't BwOp = BwRun duration 't | BwHarvest duration | BwNoProgress

fun bw_step :: "('t, 'h, 'r, 'w) Runtime \<Rightarrow> 't BwOp \<Rightarrow> 'r list \<times> 'h BoundedWrite \<times> 'w \<Rightarrow> 'r list \<times> 'h BoundedWrite \<times> 'w" where
  "bw_step rt (BwRun d f) (rs, s) = (case bw_run rt d f s of (p, s) \<Rightarrow> (rs @ wp_completed p, s))"
| "bw_step rt (BwHarvest d) (rs, s) = (case harvest_only rt d s of (p, s) \<Rightarrow> (rs @ wp_completed p, s))"
| "bw_step rt BwNoProgress (rs, b, w) = (rs, note_no_progress b, w)"

text \<open>What the runtime is asked to do, as a log kept beside its own state.\<close>

datatype ('h, 'r) BwEvent = Spawned 'h | Joined 'h 'r

definition logged_runtime :: "('t, 'h, 'r, 'w) Runtime \<Rightarrow> ('t, 'h, 'r, 'w \<times> ('h, 'r) BwEvent list) Runtime" where
  "logged_runtime rt =
     \<lparr>rt_now = \<lambda>(w, lg). rt_now rt w,
      rt_spawn_blocking = \<lambda>f (w, lg). (case rt_spawn_blocking rt f w of (h, w) \<Rightarrow> (h, w, lg @ [Spawned h])),
      rt_timeout = \<lambda>d h (w, lg). (case rt_timeout rt d h w of
         (Some r, w) \<Rightarrow> (Some r, w, lg @ [Joined h r]) | (None, w) \<Rightarrow> (None, w, lg)),
      rt_is_finished = \<lambda>h (w, lg). rt_is_finished rt h w\<rparr>"

fun spawned :: "('h, 'r) BwEvent list \<Rightarrow> 'h list" where
  "spawned [] = []"
| "spawned (Spawned h # es) = h # spawned es"
| "spawned (Joined h r # es) = spawned es"

fun joins :: "('h, 'r) BwEvent list \<Rightarrow> ('h \<times> 'r) list" where
  "joins [] = []"
| "joins (Spawned h # es) = joins es"
| "joins (Joined h r # es) = (h, r) # joins es"

lemma spawned_append [simp]: "spawned (a @ b) = spawned a @ spawned b"
  by (induction a rule: spawned.induct) auto

lemma joins_append [simp]: "joins (a @ b) = joins a @ joins b"
  by (induction a rule: joins.induct) auto

definition settled :: "('h, 'r) BwEvent list \<Rightarrow> bool" where
  "settled es = (spawned es = map fst (joins es))"

definition one_at_a_time :: "('h, 'r) BwEvent list \<Rightarrow> bool" where
  "one_at_a_time es = (\<forall>pre h post. es = pre @ Spawned h # post \<longrightarrow> settled pre)"

lemma one_at_a_time_Nil [simp]: "one_at_a_time []"
  by (simp add: one_at_a_time_def)

lemma one_at_a_time_joined [simp]: "one_at_a_time (es @ [Joined h r]) = one_at_a_time es"
  by (auto simp: one_at_a_time_def append_eq_append_conv2 Cons_eq_append_conv append_eq_Cons_conv) blast+

lemma one_at_a_time_spawned: "one_at_a_time es \<Longrightarrow> settled es \<Longrightarrow> one_at_a_time (es @ [Spawned h])"
  by (auto simp: one_at_a_time_def append_eq_append_conv2 Cons_eq_append_conv append_eq_Cons_conv)

definition pending_list :: "'h BoundedWrite \<Rightarrow> 'h list" where
  "pending_list b = (case bw_pending b of Some h \<Rightarrow> [h] | None \<Rightarrow> [])"

definition bw_inv :: "'r list \<times> 'h BoundedWrite \<times> 'w \<times> ('h, 'r) BwEvent list \<Rightarrow> bool" where
  "bw_inv = (\<lambda>(rs, b, w, es).
     spawned es = map fst (joins es) @ pending_list b \<and> rs = map snd (joins es) \<and> one_at_a_time es)"

lemmas bw_ops = bw_run_def issue_write_def harvest_only_def note_no_progress_def wp_completed_def Let_def

lemma issue_inv:
  assumes "spawned es = map fst (joins es)" "rs = map snd (joins es)" "one_at_a_time es"
    "issue_write (logged_runtime rt) started budget f hv (w, es) = (p, s)"
  shows "bw_inv (rs @ (case wp_issued p of Some r \<Rightarrow> [r] | None \<Rightarrow> []), s) \<and> wp_harvested p = hv"
proof -
  have "one_at_a_time (es @ [Spawned h])" for h
    using one_at_a_time_spawned [OF assms(3)] assms(1) by (simp add: settled_def)
  moreover from this have "one_at_a_time (es @ [Spawned h, Joined h r])" for h r
    using one_at_a_time_joined [of "es @ [Spawned h]"] by simp
  ultimately show ?thesis using assms
    by (auto simp: issue_write_def logged_runtime_def bw_inv_def pending_list_def Let_def
        split: prod.splits option.splits)
qed

lemma bw_step_inv: "bw_inv st \<Longrightarrow> bw_inv (bw_step (logged_runtime rt) op st)"
proof (cases st)
  case st: (fields rs b w es)
  assume inv: "bw_inv st"
  show ?thesis
  proof (cases op)
    case (BwRun d f)
    show ?thesis
    proof (cases "bw_pending b")
      case None
      then obtain p s where i: "issue_write (logged_runtime rt) (rt_now (logged_runtime rt) (w, es)) d f None (w, es) = (p, s)"
        by (metis prod.exhaust)
      have "spawned es = map fst (joins es)" "rs = map snd (joins es)" "one_at_a_time es"
        using inv None by (auto simp: st bw_inv_def pending_list_def)
      from issue_inv [OF this i] show ?thesis
        using BwRun None i by (simp add: st bw_run_def wp_completed_def Let_def)
    next
      case h: (Some h)
      show ?thesis
      proof (cases "rt_timeout rt d h w")
        case (Pair r w')
        show ?thesis
        proof (cases r)
          case None
          then show ?thesis using inv h Pair BwRun
            by (simp add: st bw_run_def logged_runtime_def wp_completed_def bw_inv_def pending_list_def)
        next
          case (Some r')
          let ?es = "es @ [Joined h r']"
          obtain p s where i: "issue_write (logged_runtime rt) (rt_now (logged_runtime rt) (w, es)) d f (Some r') (w', ?es) = (p, s)"
            by (metis prod.exhaust)
          have "spawned ?es = map fst (joins ?es)" "rs @ [r'] = map snd (joins ?es)" "one_at_a_time ?es"
            using inv h by (auto simp: st bw_inv_def pending_list_def)
          from issue_inv [OF this i] show ?thesis
            using BwRun h i Pair Some by (auto simp: st bw_run_def wp_completed_def Let_def logged_runtime_def)
        qed
      qed
    qed
  next
    case (BwHarvest d)
    then show ?thesis using inv
      by (auto simp: st harvest_only_def logged_runtime_def wp_completed_def bw_inv_def pending_list_def
          split: option.splits prod.splits)
  qed (use inv in \<open>auto simp: st bw_inv_def note_no_progress_def pending_list_def\<close>)
qed

text \<open>C14: at most one blocking write of a backend is ever outstanding, and no result is lost. Over every
  history of ticks and every behaviour of the runtime, a write is spawned only when every earlier one has
  been joined; every spawned write is joined once, in order, or is the pending one; and the results handed
  to the backend's accounting are exactly those of the joins.\<close>

theorem one_write_in_flight:
  assumes "fold (bw_step (logged_runtime rt)) ops ([], bounded_default, w, []) = (results, b, w', evs)"
  shows "spawned evs = map fst (joins evs) @ pending_list b \<and> results = map snd (joins evs) \<and>
    (\<forall>pre h post. evs = pre @ Spawned h # post \<longrightarrow> spawned pre = map fst (joins pre))"
proof -
  have "bw_inv (fold (bw_step (logged_runtime rt)) ops st)" if "bw_inv st" for st
    using that by (induction ops arbitrary: st) (simp_all add: bw_step_inv)
  from this [of "([], bounded_default, w, [])"]
  have "bw_inv (results, b, w', evs)"
    using assms by (simp add: bw_inv_def pending_list_def bounded_default_def)
  then show ?thesis
    by (auto simp: bw_inv_def one_at_a_time_def settled_def)
qed

section \<open>Time and stalls\<close>

text \<open>What tokio documents of a timeout: it returns when its duration has passed at the latest. Issuing a
  task takes no time and the clock is monotonic.\<close>

definition punctual :: "('t, 'h, 'r, 'w) Runtime \<Rightarrow> bool" where
  "punctual rt =
     ((\<forall>d h w. rt_now rt w \<le> rt_now rt (snd (rt_timeout rt d h w)) \<and> rt_now rt (snd (rt_timeout rt d h w)) \<le> rt_now rt w + d) \<and>
      (\<forall>f w. rt_now rt (snd (rt_spawn_blocking rt f w)) = rt_now rt w))"

lemma punctualD:
  assumes "punctual rt" "rt_timeout rt d h w = (r, w')"
  shows "rt_now rt w \<le> rt_now rt w'" "rt_now rt w' \<le> rt_now rt w + d"
  using assms by (auto simp: punctual_def dest!: spec [of _ d] spec [of _ h] spec [of _ w])

lemma issue_in_budget:
  assumes "punctual rt" "issue_write rt started budget f hv w = (p, b, w')"
    "started \<le> rt_now rt w" "rt_now rt w \<le> started + budget"
  shows "rt_now rt w' \<le> started + budget"
proof -
  obtain h v where s: "rt_spawn_blocking rt f w = (h, v)" by (metis prod.exhaust)
  obtain r v' where t: "rt_timeout rt (budget - (rt_now rt w - started)) h v = (r, v')" by (metis prod.exhaust)
  have "rt_now rt v = rt_now rt w" using assms(1) s by (metis punctual_def snd_conv)
  moreover have "w' = v'" using assms(2) s t by (auto simp: issue_write_def Let_def split: option.splits)
  ultimately show ?thesis using punctualD(2) [OF assms(1) t] assms(3,4) by simp
qed

text \<open>C15: a wedged device cannot hold the engine. Harvesting an old write and issuing the new one share one
  budget: a run returns within it, whatever the tasks do.\<close>

theorem run_keeps_the_budget:
  assumes "punctual rt" "bw_run rt budget f (b, w) = (p, b', w')"
  shows "rt_now rt w' \<le> rt_now rt w + budget"
proof (cases "bw_pending b")
  case None
  then show ?thesis using issue_in_budget [OF assms(1)] assms(2) by (simp add: bw_run_def Let_def)
next
  case (Some h)
  obtain r v where t: "rt_timeout rt budget h w = (r, v)" by (metis prod.exhaust)
  show ?thesis
    using assms(2) Some t punctualD [OF assms(1) t] issue_in_budget [OF assms(1)]
    by (cases r) (auto simp: bw_run_def Let_def)
qed

text \<open>Lemma: a stall is reported exactly when writes are not getting through. After a run, a backend is
  stalled iff the run completed no write and one is still executing; a device that is merely slower than
  the budget completes a write in every run and is never stalled.\<close>

theorem stalled_iff_nothing_completes:
  "case bw_run rt budget f (b, w) of (p, b', w') \<Rightarrow>
     bw_stalled rt w' b' = (wp_completed p = [] \<and> bw_outstanding rt w' b') \<and>
     wp_in_flight p = (bw_pending b' \<noteq> None)"
  by (auto simp: bw_run_def issue_write_def bw_stalled_def bw_outstanding_def wp_completed_def Let_def
      split: prod.splits option.splits)

section \<open>A runtime that takes two ticks per write\<close>

definition slow_runtime :: "(nat, nat, nat, nat) Runtime" where
  "slow_runtime =
     \<lparr>rt_now = \<lambda>w. w, rt_spawn_blocking = \<lambda>f w. (w + 3, w),
      rt_timeout = \<lambda>d h w. (if h \<le> w + d then (Some h, max w h) else (None, w + d)),
      rt_is_finished = \<lambda>h w. h \<le> w\<rparr>"

lemma slow_punctual: "punctual slow_runtime"
  by (simp add: punctual_def slow_runtime_def)

lemmas slow_eval = bw_ops logged_runtime_def slow_runtime_def bounded_default_def

theorem one_write_in_flight_witness:
  "\<exists>evs. snd (snd (snd (fold (bw_step (logged_runtime slow_runtime)) [BwRun 2 0, BwRun 2 1] ([], bounded_default, 0, [])))) = evs \<and>
     evs = [Spawned 3, Joined 3 3] @ Spawned 6 # [] \<and> spawned ([Spawned 3, Joined 3 3] :: (nat, nat) BwEvent list) = [3]"
proof -
  let ?evs = "[Spawned 3, Joined 3 3, Spawned 6] :: (nat, nat) BwEvent list"
  have r: "fold (bw_step (logged_runtime slow_runtime)) [BwRun 2 0, BwRun 2 1] ([], bounded_default, 0, []) =
      ([3], \<lparr>bw_pending = Some 6, bw_completed_last_run = True\<rparr>, 4, ?evs)"
    by (simp add: slow_eval)
  show ?thesis
    using conjunct2 [OF conjunct2 [OF one_write_in_flight [OF r]], THEN spec,
        of "[Spawned 3, Joined 3 3]", THEN spec, of 6, THEN spec, of "[]"] r
    by simp
qed

theorem run_keeps_the_budget_witness:
  "rt_now slow_runtime (snd (snd (bw_run slow_runtime 2 7 (\<lparr>bw_pending = Some 5, bw_completed_last_run = False\<rparr>, 4)))) \<le> 6"
proof -
  have r: "bw_run slow_runtime 2 7 (\<lparr>bw_pending = Some 5, bw_completed_last_run = False\<rparr>, 4) =
      (\<lparr>wp_harvested = Some 5, wp_issued = None, wp_in_flight = True\<rparr>, \<lparr>bw_pending = Some 8, bw_completed_last_run = True\<rparr>, 6)"
    by (simp add: bw_ops slow_runtime_def)
  show ?thesis using run_keeps_the_budget [OF slow_punctual r] unfolding r by (simp add: slow_runtime_def)
qed

end
