(* ===== verification/Force_Scope.thy ===== *)
theory Force_Scope
  imports Engine_State Thermal_Safety
begin

text \<open>
  What a forced tick may drive and what it says about it (\<open>profile_engine/backends.rs\<close>): the members a
  profile names, the reach a forced duty is allowed, the scope that was driven and the throttle of the
  log lines. The two safety backends are parameters of \<open>force_present_backends\<close>.
\<close>

section \<open>The members of a profile\<close>

record ProfileMembers =
  pm_hwmon :: "string set"
  pm_openfan :: "u8 set"

definition members_default :: ProfileMembers where
  "members_default = \<lparr>pm_hwmon = {}, pm_openfan = {}\<rparr>"

definition collect_member :: "ControlMember \<Rightarrow> ProfileMembers \<Rightarrow> ProfileMembers" where
  "collect_member m acc =
     (if cm_source m = ''hwmon'' then acc\<lparr>pm_hwmon := insert (cm_member_id m) (pm_hwmon acc)\<rparr>
      else if cm_source m = ''openfan'' then
        (case openfan_channel_of (cm_member_id m) of
           Inr ch \<Rightarrow> acc\<lparr>pm_openfan := insert ch (pm_openfan acc)\<rparr> | Inl _ \<Rightarrow> acc)
      else acc)"

definition members_collect :: "LogicalControl list \<Rightarrow> ProfileMembers" where
  "members_collect controls = fold collect_member (concat (map lc_members controls)) members_default"

definition members_of :: "DaemonProfile \<Rightarrow> ProfileMembers" where
  "members_of p = members_collect (p_controls p)"

definition members_of_controls :: "DaemonProfile \<Rightarrow> string set \<Rightarrow> ProfileMembers" where
  "members_of_controls p ids = members_collect (filter (\<lambda>c. lc_id c \<in> ids) (p_controls p))"

text \<open>A type of its own, as in the code: GPU fans are never in the reach of a force.\<close>

datatype GpuMembers = GpuMembers (gpu_ids: "string set")

definition gpu_members_of :: "DaemonProfile \<Rightarrow> GpuMembers" where
  "gpu_members_of p =
     GpuMembers (set (map cm_member_id (filter (\<lambda>m. cm_source m = ''amd_gpu'') (concat (map lc_members (p_controls p))))))"

definition gpu_names :: "GpuMembers \<Rightarrow> string \<Rightarrow> bool" where
  "gpu_names g fan_id = (fan_id \<in> gpu_ids g)"

datatype HeldMembers = HeldMembers (held_members: ProfileMembers)

definition held_default :: HeldMembers where
  "held_default = HeldMembers members_default"

definition held_of_skipped :: "DaemonProfile \<Rightarrow> string set \<Rightarrow> HeldMembers" where
  "held_of_skipped p skipped = HeldMembers (members_of_controls p skipped)"

lemma collect_member_effect:
  "pm_hwmon (fold collect_member ms acc) = pm_hwmon acc \<union> {cm_member_id m | m. m \<in> set ms \<and> cm_source m = ''hwmon''}"
  "pm_openfan (fold collect_member ms acc) = pm_openfan acc \<union>
     {ch. \<exists>m \<in> set ms. cm_source m = ''openfan'' \<and> openfan_channel_of (cm_member_id m) = Inr ch}"
  by (induction ms arbitrary: acc) (auto simp: collect_member_def split: sum.splits)

lemma members_of_hwmon:
  "i \<in> pm_hwmon (members_of p) \<longleftrightarrow> (\<exists>c \<in> set (p_controls p). \<exists>m \<in> set (lc_members c). cm_source m = ''hwmon'' \<and> cm_member_id m = i)"
  by (auto simp: members_of_def members_collect_def collect_member_effect members_default_def)

lemma members_of_openfan:
  "ch \<in> pm_openfan (members_of p) \<longleftrightarrow>
     (\<exists>c \<in> set (p_controls p). \<exists>m \<in> set (lc_members c). cm_source m = ''openfan'' \<and> openfan_channel_of (cm_member_id m) = Inr ch)"
  by (auto simp: members_of_def members_collect_def collect_member_effect members_default_def)

lemma held_are_members:
  "pm_hwmon (held_members (held_of_skipped p ids)) \<subseteq> pm_hwmon (members_of p)"
  "pm_openfan (held_members (held_of_skipped p ids)) \<subseteq> pm_openfan (members_of p)"
  by (auto simp: held_of_skipped_def members_of_controls_def members_of_def members_collect_def
      collect_member_effect members_default_def)

section \<open>The reach of a forced duty\<close>

datatype ForceReach = ReachAll | ReachMembers (reach_members: ProfileMembers) (reach_give_back: bool) (reach_held: HeldMembers)

definition reach_for_duty :: "u8 \<Rightarrow> ProfileMembers \<Rightarrow> HeldMembers \<Rightarrow> bool \<Rightarrow> ForceReach" where
  "reach_for_duty pct members held emergency_latched =
     (if 100 \<le> pct then ReachAll else ReachMembers members (\<not> emergency_latched) held)"

definition reach_members_only :: "ForceReach \<Rightarrow> bool" where
  "reach_members_only r = (case r of ReachAll \<Rightarrow> False | ReachMembers _ _ _ \<Rightarrow> True)"

record ForcedScope =
  sc_openfan :: bool
  sc_hwmon :: bool
  sc_members_only :: bool

definition scope_describe :: "ForcedScope \<Rightarrow> string option" where
  "scope_describe s =
     (case (sc_openfan s, sc_hwmon s, sc_members_only s) of
        (True, True, False) \<Rightarrow> Some ''all OpenFan channels and writable hwmon headers''
      | (True, False, False) \<Rightarrow> Some ''all OpenFan channels''
      | (False, True, False) \<Rightarrow> Some ''all writable hwmon headers''
      | (True, True, True) \<Rightarrow> Some ''the OpenFan channels and hwmon headers a profile controls''
      | (True, False, True) \<Rightarrow> Some ''the OpenFan channels a profile controls''
      | (False, True, True) \<Rightarrow> Some ''the hwmon headers a profile controls''
      | (False, False, _) \<Rightarrow> None)"

text \<open>The two legs in their order; each is present or not and reports whether it had an output to drive.\<close>

type_synonym ('b, 'w) force_leg = "u8 \<Rightarrow> PwmCommand list \<Rightarrow> ForceReach \<Rightarrow> 'b \<times> 'w \<Rightarrow> bool \<times> 'b \<times> 'w"

definition force_present_backends :: "('o, 'w) force_leg \<Rightarrow> ('h, 'w) force_leg \<Rightarrow> u8 \<Rightarrow> PwmCommand list \<Rightarrow> ForceReach \<Rightarrow>
    'o option \<times> 'h option \<times> 'w \<Rightarrow> ForcedScope \<times> 'o option \<times> 'h option \<times> 'w" where
  "force_present_backends force_o force_h pct baseline reach = (\<lambda>(o', h, w).
     case (case o' of
             Some be \<Rightarrow> (case force_o pct baseline reach (be, w) of (r, be, w) \<Rightarrow> (r, Some be, w))
           | None \<Rightarrow> (False, None, w)) of (ro, o', w) \<Rightarrow>
     case (case h of
             Some be \<Rightarrow> (case force_h pct baseline reach (be, w) of (r, be, w) \<Rightarrow> (r, Some be, w))
           | None \<Rightarrow> (False, None, w)) of (rh, h, w) \<Rightarrow>
       (\<lparr>sc_openfan = ro, sc_hwmon = rh, sc_members_only = reach_members_only reach\<rparr>, o', h, w))"

section \<open>The log throttle\<close>

definition THERMAL_FORCE_LOG_SUMMARY_TICKS :: u32 where
  "THERMAL_FORCE_LOG_SUMMARY_TICKS = 60"

definition u32_sat_inc :: "u32 \<Rightarrow> u32" where
  "u32_sat_inc n = min (2 ^ 32 - 1) (n + 1)"

text \<open>\<open>std::mem::discriminant\<close> of a reading.\<close>

datatype ReadingKind = KindFresh | KindStale | KindAbsent

fun reading_kind :: "CpuReading \<Rightarrow> ReadingKind" where
  "reading_kind (Fresh _) = KindFresh"
| "reading_kind (Stale _) = KindStale"
| "reading_kind Absent = KindAbsent"

datatype ForceLogAction = Announce | Silent | Summary u32

type_synonym force_key = "u8 \<times> ForcedScope \<times> ReadingKind"

record ForceLogThrottle =
  fl_current :: "force_key option"
  fl_held_ticks :: u32
  fl_episode_ticks :: u32

definition force_log_default :: ForceLogThrottle where
  "force_log_default = \<lparr>fl_current = None, fl_held_ticks = 0, fl_episode_ticks = 0\<rparr>"

definition on_forced_tick :: "u8 \<Rightarrow> ForcedScope \<Rightarrow> ReadingKind \<Rightarrow> ForceLogThrottle \<Rightarrow> ForceLogAction \<times> ForceLogThrottle" where
  "on_forced_tick pct scope reading t =
     (let t = t\<lparr>fl_episode_ticks := u32_sat_inc (fl_episode_ticks t)\<rparr> in
      if fl_current t \<noteq> Some (pct, scope, reading)
      then (Announce, t\<lparr>fl_current := Some (pct, scope, reading), fl_held_ticks := 1\<rparr>)
      else let t = t\<lparr>fl_held_ticks := u32_sat_inc (fl_held_ticks t)\<rparr> in
        (if fl_held_ticks t mod THERMAL_FORCE_LOG_SUMMARY_TICKS = 0 then Summary (fl_held_ticks t) else Silent, t))"

definition on_normal_tick :: "ForceLogThrottle \<Rightarrow> u32 option \<times> ForceLogThrottle" where
  "on_normal_tick t =
     (case fl_current t of
        None \<Rightarrow> (None, t)
      | Some _ \<Rightarrow> (Some (fl_episode_ticks t), t\<lparr>fl_current := None, fl_episode_ticks := 0, fl_held_ticks := 0\<rparr>))"

datatype ForceTick = TickForced force_key | TickNormal

fun force_log_step :: "ForceTick \<Rightarrow> ForceLogThrottle \<Rightarrow> ForceLogThrottle" where
  "force_log_step (TickForced (pct, scope, reading)) t = snd (on_forced_tick pct scope reading t)"
| "force_log_step TickNormal t = snd (on_normal_tick t)"

text \<open>Both counters are debounce counters: the streak of one key, and the streak of forced ticks.\<close>

definition force_log_inv :: "ForceLogThrottle \<Rightarrow> bool" where
  "force_log_inv t =
     ((fl_current t = None) = (fl_episode_ticks t = 0) \<and> (fl_current t = None) = (fl_held_ticks t = 0))"

definition key_level :: "ForceLogThrottle \<Rightarrow> force_key \<Rightarrow> nat" where
  "key_level t k = (if fl_current t = Some k then fl_held_ticks t else 0)"

lemma forced_step:
  "force_log_step (TickForced k) t =
     \<lparr>fl_current = Some k, fl_held_ticks = (if fl_current t = Some k then u32_sat_inc (fl_held_ticks t) else 1),
      fl_episode_ticks = u32_sat_inc (fl_episode_ticks t)\<rparr>"
  by (cases k; cases t; cases "fl_current t = Some k") (simp_all add: on_forced_tick_def Let_def)

lemma normal_step:
  "force_log_inv t \<Longrightarrow> force_log_step TickNormal t = \<lparr>fl_current = None, fl_held_ticks = 0, fl_episode_ticks = 0\<rparr>"
  by (cases t) (auto simp: on_normal_tick_def force_log_inv_def split: option.split)

lemma force_log_step_inv: "force_log_inv t \<Longrightarrow> force_log_inv (force_log_step i t)"
proof (cases i)
  case (TickForced k)
  show ?thesis unfolding TickForced forced_step by (simp add: force_log_inv_def u32_sat_inc_def)
next
  case TickNormal
  assume "force_log_inv t"
  then show ?thesis unfolding TickNormal by (simp only: normal_step) (simp add: force_log_inv_def)
qed

interpretation key_streak: debounce_counter force_log_step key_level "\<lambda>i k. i = TickForced k" "\<lambda>_. True" force_log_inv "2 ^ 32 - 1"
proof unfold_locales
  fix t i k
  assume "force_log_inv t"
  then show "key_level (force_log_step i t) k = (if i = TickForced k then min (2 ^ 32 - 1) (Suc (key_level t k)) else 0)"
    by (cases i) (auto simp del: force_log_step.simps simp: forced_step normal_step key_level_def u32_sat_inc_def force_log_inv_def)
qed (rule force_log_step_inv)

interpretation episode: debounce_counter force_log_step "\<lambda>t (_ :: unit). fl_episode_ticks t" "\<lambda>i _. i \<noteq> TickNormal"
  "\<lambda>_. True" force_log_inv "2 ^ 32 - 1"
proof unfold_locales
  fix t i
  assume "force_log_inv t"
  then show "fl_episode_ticks (force_log_step i t) = (if i \<noteq> TickNormal then min (2 ^ 32 - 1) (Suc (fl_episode_ticks t)) else 0)"
    by (cases i) (auto simp del: force_log_step.simps simp: forced_step normal_step u32_sat_inc_def)
qed (rule force_log_step_inv)

text \<open>How long the last ticks went on forcing, and with the same key.\<close>

definition key_run :: "force_key \<Rightarrow> ForceTick list \<Rightarrow> nat" where
  "key_run k ticks = length (takeWhile (\<lambda>i. i = TickForced k) (rev ticks))"

definition forced_run :: "ForceTick list \<Rightarrow> nat" where
  "forced_run ticks = length (takeWhile (\<lambda>i. i \<noteq> TickNormal) (rev ticks))"

lemma force_log_default_inv: "force_log_inv force_log_default"
  by (simp add: force_log_inv_def force_log_default_def)

lemma force_log_levels:
  fixes ticks :: "ForceTick list"
  defines "t \<equiv> fold force_log_step ticks force_log_default"
  shows "force_log_inv t" "key_level t k = min (2 ^ 32 - 1) (key_run k ticks)"
    "fl_episode_ticks t = min (2 ^ 32 - 1) (forced_run ticks)"
proof -
  have ok: "list_all (\<lambda>_. True) ticks" by (simp add: list_all_iff)
  have z: "key_level force_log_default k = 0" "fl_episode_ticks force_log_default = 0"
    by (simp_all add: key_level_def force_log_default_def)
  show "force_log_inv t" using key_streak.run_inv [OF force_log_default_inv ok] by (simp add: t_def)
  show "key_level t k = min (2 ^ 32 - 1) (key_run k ticks)"
    using key_streak.run_level [OF force_log_default_inv z(1) ok] by (simp add: t_def key_run_def)
  show "fl_episode_ticks t = min (2 ^ 32 - 1) (forced_run ticks)"
    using episode.run_level [OF force_log_default_inv z(2) ok] by (simp add: t_def forced_run_def)
qed

text \<open>Lemma: the operator hears of every change at once, of a lasting force once a minute, and of its end. After
  any history, a forced tick is announced exactly when the tick before it was not forced at the same duty,
  scope and kind of reading; it is summarised exactly when the run with this tick is a multiple of 60; and
  the first normal tick reports how many ticks were forced, no other.\<close>

theorem force_log_is_exact:
  assumes "t = fold force_log_step ticks force_log_default" "length ticks < 2 ^ 32 - 1"
  shows "fst (on_forced_tick pct scope kind t) =
      (let n = key_run (pct, scope, kind) ticks in
       if n = 0 then Announce else if Suc n mod 60 = 0 then Summary (Suc n) else Silent) \<and>
    fst (on_normal_tick t) = (if forced_run ticks = 0 then None else Some (forced_run ticks))"
proof -
  note l = force_log_levels [of ticks, folded assms(1)]
  have b: "key_run k ticks < 2 ^ 32 - 1" "forced_run ticks < 2 ^ 32 - 1" for k
    using assms(2) length_takeWhile_le [of _ "rev ticks"] by (fastforce simp: key_run_def forced_run_def intro: le_less_trans)+
  have k: "key_level t k = key_run k ticks" for k using l(2) [of k] b(1) [of k] by simp
  have "fst (on_forced_tick pct scope kind t) =
      (let n = key_run (pct, scope, kind) ticks in
       if n = 0 then Announce else if Suc n mod 60 = 0 then Summary (Suc n) else Silent)"
    using l(1) k [of "(pct, scope, kind)"] b(1) [of "(pct, scope, kind)"]
    by (auto simp: on_forced_tick_def Let_def key_level_def force_log_inv_def u32_sat_inc_def
        THERMAL_FORCE_LOG_SUMMARY_TICKS_def split: if_splits)
  moreover have "fst (on_normal_tick t) = (if forced_run ticks = 0 then None else Some (forced_run ticks))"
    using l(1,3) b(2) by (auto simp: on_normal_tick_def force_log_inv_def split: option.split)
  ultimately show ?thesis by blast
qed

definition full_scope :: ForcedScope where
  "full_scope = \<lparr>sc_openfan = True, sc_hwmon = True, sc_members_only = False\<rparr>"

theorem force_log_is_exact_witness:
  "fst (on_forced_tick 100 full_scope KindFresh (fold force_log_step [TickForced (40, full_scope, KindAbsent)] force_log_default)) = Announce \<and>
   fst (on_normal_tick (fold force_log_step [TickForced (40, full_scope, KindAbsent)] force_log_default)) = Some 1"
  using force_log_is_exact [OF refl, where ticks = "[TickForced (40, full_scope, KindAbsent)]" and pct = 100
      and scope = full_scope and kind = KindFresh]
  by (simp add: key_run_def forced_run_def)

end
