(* ===== verification/OpenFan_Backend.thy ===== *)
theory OpenFan_Backend
  imports Bounded_Write Force_Scope Fan_Controller Write_Slot "HOL-Library.Word"
begin

unbundle bit_operations_syntax

text \<open>
  The engine's OpenFan backend (\<open>OpenFanBackend\<close> of \<open>profile_engine/backends.rs\<close>). Its blocking tasks
  take the controller's lock per channel, so other tasks of the daemon run between two channels: the
  environment's \<open>oe_others\<close> is what they do to the shared state each time the lock is taken. What lives
  behind a lock (the controller with its device, the cache, the slots the tasks share with the async side)
  is one record; the attempts a force makes, which the code only logs, are returned.
\<close>

record 'dev OfWorld =
  ow_now :: instant
  ow_ctrl :: FanController
  ow_cache :: OpenfanCache
  ow_state :: DaemonState
  ow_exit_floor :: u8
  ow_dev :: 'dev
  ow_pre_emergency :: "u8 option list option"
  ow_held :: "u8 set"
  ow_failure_logged :: "u8 set"
  ow_lost_duties :: "(u64 \<times> 16 word) option"
  ow_force_suspended :: bool

record 'dev OfEnv =
  oe_exchange :: "Command \<Rightarrow> 'dev \<Rightarrow> (SerialError + Response) \<times> 'dev"
  oe_during :: "'dev \<Rightarrow> OpenfanCache \<Rightarrow> OpenfanCache"
  oe_others :: "'dev OfWorld \<Rightarrow> 'dev OfWorld"

definition of_writes_paused :: "'dev OfWorld \<Rightarrow> bool" where
  "of_writes_paused w = openfan_writes_paused (ow_now w) (ow_state w)"

definition of_set_pwm :: "'dev OfEnv \<Rightarrow> u8 \<Rightarrow> u8 \<Rightarrow> 'dev OfWorld \<Rightarrow> (FanControlError + unit) \<times> 'dev OfWorld" where
  "of_set_pwm env ch pct w =
     (case set_pwm (ow_now w) (oe_exchange env) (oe_during env (ow_dev w)) ch pct (ow_ctrl w, ow_cache w, ow_dev w) of
        (r, fc, cache, dev) \<Rightarrow>
          (map_sum id (\<lambda>_. ()) r, w\<lparr>ow_ctrl := fc, ow_cache := cache, ow_dev := dev\<rparr>))"

type_synonym of_outcome = "u8 \<times> (FanControlError + unit)"

definition of_last_known :: "'dev OfWorld \<Rightarrow> u8 \<Rightarrow> u8 option" where
  "of_last_known w ch = last_known_duty (ow_cache w) (ow_ctrl w) ch"

definition of_before_loss :: "'dev OfWorld \<Rightarrow> u8 \<Rightarrow> u8 option" where
  "of_before_loss w ch = duty_before_loss (ow_cache w) (ow_ctrl w) ch"

section \<open>The write task\<close>

fun write_commands :: "'dev OfEnv \<Rightarrow> (u8 \<times> u8) list \<Rightarrow> 'dev OfWorld \<Rightarrow> of_outcome list \<times> 'dev OfWorld" where
  "write_commands env [] w = ([], w)"
| "write_commands env ((ch, pct) # cs) w =
     (let w = oe_others env w in
      if of_writes_paused w then write_commands env cs w
      else case of_set_pwm env ch pct w of (r, w) \<Rightarrow>
        (case write_commands env cs w of (rs, w) \<Rightarrow> ((ch, r) # rs, w)))"

fun put_back_lost :: "'dev OfEnv \<Rightarrow> u8 list \<Rightarrow> 'dev OfWorld \<Rightarrow> of_outcome list \<times> 'dev OfWorld" where
  "put_back_lost env [] w = ([], w)"
| "put_back_lost env (ch # chs) w =
     (let w = oe_others env w in
      if of_writes_paused w then ([], w)
      else case of_before_loss w ch of
        None \<Rightarrow> put_back_lost env chs w
      | Some duty \<Rightarrow>
          (case of_set_pwm env ch duty w of (r, w) \<Rightarrow>
             (case put_back_lost env chs (w\<lparr>ow_held := insert ch (ow_held w)\<rparr>) of (rs, w) \<Rightarrow> ((ch, r) # rs, w))))"

text \<open>The generation is read before the channels' lock is taken.\<close>

definition lost_mask :: "'dev OfWorld \<Rightarrow> 16 word" where
  "lost_mask w = fold (\<lambda>ch m. m OR push_bit ch 1) (filter (\<lambda>ch. of_before_loss w ch \<noteq> None) [0..<NUM_CHANNELS]) 0"

definition record_lost_duties :: "'dev OfEnv \<Rightarrow> 'dev OfWorld \<Rightarrow> 'dev OfWorld" where
  "record_lost_duties env w =
     (let generation = oc_generation (ow_cache w);
          w = oe_others env w
      in w\<lparr>ow_lost_duties := Some (generation, lost_mask w)\<rparr>)"

fun release_channels :: "'dev OfEnv \<Rightarrow> u8 \<Rightarrow> u8 list \<Rightarrow> 'dev OfWorld \<Rightarrow> 'dev OfWorld" where
  "release_channels env floor_pct [] w = w"
| "release_channels env floor_pct (ch # chs) w =
     (let w = oe_others env w in
      if of_writes_paused w then w
      else
        let was = of_last_known w ch;
            on_device = last_commanded_pct (ow_cache w) (ow_ctrl w) ch;
            to = exit_duty was floor_pct
        in case (if 0 < floor_pct \<and> Some to \<noteq> on_device then of_set_pwm env ch to w else (Inr (), w)) of
             (Inl e, w) \<Rightarrow> release_channels env floor_pct chs (w\<lparr>ow_failure_logged := insert ch (ow_failure_logged w)\<rparr>)
           | (Inr _, w) \<Rightarrow> release_channels env floor_pct chs
               (w\<lparr>ow_held := ow_held w - {ch}, ow_failure_logged := ow_failure_logged w - {ch}\<rparr>))"

definition release_unheld_openfan :: "'dev OfEnv \<Rightarrow> u8 set \<Rightarrow> 'dev OfWorld \<Rightarrow> 'dev OfWorld" where
  "release_unheld_openfan env members w =
     release_channels env (ow_exit_floor w) (filter (\<lambda>ch. ch \<notin> members) (sorted_list_of_set (ow_held w))) w"

definition returnable :: "u8 set \<Rightarrow> u8 \<Rightarrow> u8 \<Rightarrow> u8 option \<Rightarrow> u8 option" where
  "returnable members floor_pct ch duty =
     (case duty of Some d \<Rightarrow> if ch \<in> members then None else Some (exit_duty (Some d) floor_pct) | None \<Rightarrow> None)"

fun return_duties :: "'dev OfEnv \<Rightarrow> u8 set \<Rightarrow> u8 \<Rightarrow> u8 option list \<Rightarrow> (u8 \<times> u8 option) list \<Rightarrow> 'dev OfWorld \<Rightarrow>
    of_outcome list \<times> 'dev OfWorld" where
  "return_duties env members floor_pct duties [] w = ([], w)"
| "return_duties env members floor_pct duties ((ch, d) # rest) w =
     (case returnable members floor_pct ch d of
        None \<Rightarrow> return_duties env members floor_pct duties rest w
      | Some duty \<Rightarrow>
          let w = oe_others env w in
          if of_writes_paused w
          then ([], if ow_pre_emergency w = None then w\<lparr>ow_pre_emergency := Some duties\<rparr> else w)
          else case of_set_pwm env ch duty w of (r, w) \<Rightarrow>
            (case return_duties env members floor_pct duties rest w of (rs, w) \<Rightarrow> ((ch, r) # rs, w)))"

definition give_back_pre_emergency :: "'dev OfEnv \<Rightarrow> u8 set \<Rightarrow> 'dev OfWorld \<Rightarrow> of_outcome list \<times> 'dev OfWorld" where
  "give_back_pre_emergency env members w =
     (if of_writes_paused w then ([], w)
      else case ow_pre_emergency w of
        None \<Rightarrow> ([], w)
      | Some duties \<Rightarrow>
          return_duties env members (ow_exit_floor w) duties (zip [0..<NUM_CHANNELS] duties) (w\<lparr>ow_pre_emergency := None\<rparr>))"

definition give_back_openfan :: "'dev OfEnv \<Rightarrow> u8 set \<Rightarrow> 'dev OfWorld \<Rightarrow> of_outcome list \<times> 'dev OfWorld" where
  "give_back_openfan env members w = give_back_pre_emergency env members (release_unheld_openfan env members w)"

record OfWrite =
  wt_chans :: "(u8 \<times> u8) list"
  wt_put_back :: "u8 list"
  wt_give_back :: "u8 set option"

definition openfan_write_task :: "'dev OfEnv \<Rightarrow> OfWrite \<Rightarrow> 'dev OfWorld \<Rightarrow> of_outcome list \<times> 'dev OfWorld" where
  "openfan_write_task env t w =
     (let w = w\<lparr>ow_held := ow_held w \<union> set (filter (\<lambda>ch. ch < NUM_CHANNELS) (map fst (wt_chans t)))\<rparr> in
      case write_commands env (wt_chans t) w of (results, w) \<Rightarrow>
      case put_back_lost env (wt_put_back t) w of (put, w) \<Rightarrow>
      let w = (if wt_put_back t \<noteq> [] then record_lost_duties env w else w) in
      case wt_give_back t of
        None \<Rightarrow> (results @ put, w)
      | Some members \<Rightarrow>
          (case give_back_openfan env members w of (given, w) \<Rightarrow> (results @ put @ given, w)))"

section \<open>The force task\<close>

definition record_pre_emergency :: "'dev OfEnv \<Rightarrow> 'dev OfWorld \<Rightarrow> 'dev OfWorld" where
  "record_pre_emergency env w =
     (if ow_pre_emergency w \<noteq> None then w
      else
        case (if of_writes_paused w then (replicate NUM_CHANNELS None, w)
              else let w = oe_others env w in (map (of_last_known w) [0..<NUM_CHANNELS], w)) of
          (duties, w) \<Rightarrow> if ow_pre_emergency w = None then w\<lparr>ow_pre_emergency := Some duties\<rparr> else w)"

record OfForce =
  ft_pct :: u8
  ft_targets :: "u8 list"
  ft_record_snapshot :: bool
  ft_give_back :: "u8 set option"
  ft_held :: "u8 set"
  ft_floors :: "(u8, u8) hmap"

definition forced_duty :: "OfForce \<Rightarrow> u8 \<Rightarrow> 'dev OfWorld \<Rightarrow> u8" where
  "forced_duty t ch w =
     (let held_duty = (if ch \<in> ft_held t then of_last_known w ch else None) in
      fold max ((case map_of (ft_floors t) ch of Some p \<Rightarrow> [p] | None \<Rightarrow> []) @
                (case held_duty of Some p \<Rightarrow> [p] | None \<Rightarrow> [])) (ft_pct t))"

text \<open>The flag says that the writes were found suspended; the triples are the attempts.\<close>

fun force_channels :: "'dev OfEnv \<Rightarrow> OfForce \<Rightarrow> u8 list \<Rightarrow> 'dev OfWorld \<Rightarrow>
    bool \<times> (u8 \<times> u8 \<times> (FanControlError + unit)) list \<times> 'dev OfWorld" where
  "force_channels env t [] w = (False, [], w)"
| "force_channels env t (ch # chs) w =
     (let w = oe_others env w in
      if openfan_writes_suspended (ow_state w) then (True, [], w)
      else
        let duty = forced_duty t ch w in
        case of_set_pwm env ch duty w of (r, w) \<Rightarrow>
          (case force_channels env t chs w of (sus, att, w) \<Rightarrow> (sus, (ch, duty, r) # att, w)))"

definition openfan_force_task :: "'dev OfEnv \<Rightarrow> OfForce \<Rightarrow> 'dev OfWorld \<Rightarrow>
    (u8 \<times> u8 \<times> (FanControlError + unit)) list \<times> of_outcome list \<times> 'dev OfWorld" where
  "openfan_force_task env t w =
     (let w = (if ft_record_snapshot t then record_pre_emergency env w else w) in
      case force_channels env t (ft_targets t) w of (sus, att, w) \<Rightarrow>
      let w = w\<lparr>ow_force_suspended := sus\<rparr> in
      case ft_give_back t of
        Some members \<Rightarrow> (case give_back_openfan env members w of (rs, w) \<Rightarrow> (att, rs, w))
      | None \<Rightarrow> (att, [], w))"

section \<open>Failure accounting\<close>

definition OPENFAN_FAIL_ALERT_THRESHOLD :: u32 where
  "OPENFAN_FAIL_ALERT_THRESHOLD = 5"

datatype OfAlarm = ChannelNotResponding u8 u32 | LinkDown nat u32 | LinkDownPanic u32

record 'h OpenFanBackend =
  ob_channel_failures :: "(u8, u32) hmap"
  ob_link_down_streak :: u32
  ob_writes :: "'h BoundedWrite"
  ob_stall_logged :: bool
  ob_force_suspended_logged :: bool

definition openfan_backend_new :: "'h OpenFanBackend" where
  "openfan_backend_new = \<lparr>ob_channel_failures = [], ob_link_down_streak = 0, ob_writes = bounded_default,
     ob_stall_logged = False, ob_force_suspended_logged = False\<rparr>"

definition note_channel :: "of_outcome \<Rightarrow> OfAlarm list \<times> bool \<times> (u8, u32) hmap \<Rightarrow> OfAlarm list \<times> bool \<times> (u8, u32) hmap" where
  "note_channel = (\<lambda>(ch, res) (alarms, any_ok, m).
     case res of
       Inl e \<Rightarrow>
         let n = u32_inc (case map_of m ch of Some k \<Rightarrow> k | None \<Rightarrow> 0) in
         (alarms @ (if n = OPENFAN_FAIL_ALERT_THRESHOLD then [ChannelNotResponding ch n] else []), any_ok, hm_insert ch n m)
     | Inr _ \<Rightarrow> (alarms, True, hm_remove ch m))"

definition of_note_outcomes :: "of_outcome list \<Rightarrow> 'h OpenFanBackend \<Rightarrow> OfAlarm list \<times> 'h OpenFanBackend" where
  "of_note_outcomes results b =
     (if results = [] then ([], b)
      else case fold note_channel results ([], False, ob_channel_failures b) of (alarms, any_ok, m) \<Rightarrow>
        let b = b\<lparr>ob_channel_failures := m\<rparr> in
        if any_ok then (alarms, b\<lparr>ob_link_down_streak := 0\<rparr>)
        else let n = u32_inc (ob_link_down_streak b) in
          (alarms @ (if n = OPENFAN_FAIL_ALERT_THRESHOLD then [LinkDown (length results) n] else []),
           b\<lparr>ob_link_down_streak := n\<rparr>))"

definition note_task_panic :: "'h OpenFanBackend \<Rightarrow> OfAlarm list \<times> 'h OpenFanBackend" where
  "note_task_panic b =
     (let n = u32_inc (ob_link_down_streak b) in
      (if n = OPENFAN_FAIL_ALERT_THRESHOLD then [LinkDownPanic n] else [], b\<lparr>ob_link_down_streak := n\<rparr>))"

section \<open>The async side\<close>

definition WRITE_JOIN_BUDGET :: duration where
  "WRITE_JOIN_BUDGET = secs 1"

text \<open>A task joins with its outcomes or, when it panicked, with \<open>None\<close>. The runtime's state is the shared world
  and whatever else the scheduler keeps.\<close>

datatype OfTask = OfWriteTask OfWrite | OfForceTask OfForce

type_synonym ('h, 'dev, 'q) of_runtime = "(OfTask, 'h, of_outcome list option, 'dev OfWorld \<times> 'q) Runtime"

definition openfan_commands :: "PwmCommand list \<Rightarrow> (u8 \<times> u8) list" where
  "openfan_commands commands =
     List.map_filter (\<lambda>c. case openfan_channel_of (cmd_member_id c) of Inr ch \<Rightarrow> Some (ch, cmd_pwm_percent c) | Inl _ \<Rightarrow> None)
       (filter (\<lambda>c. cmd_source c = ''openfan'') commands)"

definition known_lost :: "'dev OfWorld \<Rightarrow> 16 word" where
  "known_lost w =
     (case ow_lost_duties w of
        Some (stamp, lost) \<Rightarrow> if stamp = oc_generation (ow_cache w) then lost else - 1
      | None \<Rightarrow> - 1)"

definition put_back_candidates :: "u8 set \<Rightarrow> (u8 \<times> u8) list \<Rightarrow> 'dev OfWorld \<Rightarrow> u8 list" where
  "put_back_candidates put_back chans w =
     filter (\<lambda>ch. bit (known_lost w) ch)
       (filter (\<lambda>ch. ch \<in> put_back \<and> ch \<notin> fst ` set chans) [0..<NUM_CHANNELS])"

definition note_write_joins :: "of_outcome list option list \<Rightarrow> 'h OpenFanBackend \<Rightarrow> OfAlarm list \<times> 'h OpenFanBackend" where
  "note_write_joins joined b =
     fold (\<lambda>j (al, b). case (case j of Some rs \<Rightarrow> of_note_outcomes rs b | None \<Rightarrow> note_task_panic b) of (a, b) \<Rightarrow> (al @ a, b))
       joined ([], b)"

definition openfan_write :: "('h, 'dev, 'q) of_runtime \<Rightarrow> PwmCommand list \<Rightarrow> u8 set option \<Rightarrow> u8 set \<Rightarrow>
    'h OpenFanBackend \<times> 'dev OfWorld \<times> 'q \<Rightarrow> OfAlarm list \<times> 'h OpenFanBackend \<times> 'dev OfWorld \<times> 'q" where
  "openfan_write rt commands give_back put_back = (\<lambda>(b, w, q).
     let chans = openfan_commands commands;
         put = put_back_candidates put_back chans w
     in if chans = [] \<and> put = [] \<and> give_back = None \<and> \<not> bw_outstanding rt (w, q) (ob_writes b) then ([], b, w, q)
        else case bw_run rt WRITE_JOIN_BUDGET
            (OfWriteTask \<lparr>wt_chans = chans, wt_put_back = put, wt_give_back = give_back\<rparr>) (ob_writes b, w, q) of
          (p, bw, w, q) \<Rightarrow>
            (case note_write_joins (wp_completed p) (b\<lparr>ob_writes := bw\<rparr>) of (al, b) \<Rightarrow> (al, b, w, q)))"

definition openfan_apply :: "('h, 'dev, 'q) of_runtime \<Rightarrow> PwmCommand list \<Rightarrow> 'h OpenFanBackend \<times> 'dev OfWorld \<times> 'q \<Rightarrow>
    OfAlarm list \<times> 'h OpenFanBackend \<times> 'dev OfWorld \<times> 'q" where
  "openfan_apply rt commands = openfan_write rt commands None {}"

definition openfan_apply_and_give_back :: "('h, 'dev, 'q) of_runtime \<Rightarrow> PwmCommand list \<Rightarrow> ProfileMembers \<Rightarrow> HeldMembers \<Rightarrow>
    'h OpenFanBackend \<times> 'dev OfWorld \<times> 'q \<Rightarrow> OfAlarm list \<times> 'h OpenFanBackend \<times> 'dev OfWorld \<times> 'q" where
  "openfan_apply_and_give_back rt commands members held = (\<lambda>(b, w, q).
     let unheld = \<not> ow_held w \<subseteq> pm_openfan members;
         give_back = (if unheld \<or> ow_pre_emergency w \<noteq> None then Some (pm_openfan members) else None)
     in openfan_write rt commands give_back (pm_openfan (held_members held)) (b, w, q))"

definition openfan_force_of :: "u8 \<Rightarrow> PwmCommand list \<Rightarrow> ForceReach \<Rightarrow> OfForce" where
  "openfan_force_of pct commands reach =
     \<lparr>ft_pct = pct,
      ft_targets = (case reach of
         ReachAll \<Rightarrow> [0..<NUM_CHANNELS]
       | ReachMembers m _ _ \<Rightarrow> filter (\<lambda>ch. ch \<in> pm_openfan m) [0..<NUM_CHANNELS]),
      ft_record_snapshot = (reach = ReachAll),
      ft_give_back = (case reach of ReachMembers m True _ \<Rightarrow> Some (pm_openfan m) | _ \<Rightarrow> None),
      ft_held = (case reach of ReachMembers _ _ h \<Rightarrow> pm_openfan (held_members h) | ReachAll \<Rightarrow> {}),
      ft_floors = hm_collect (openfan_commands commands)\<rparr>"

definition openfan_force :: "('h, 'dev, 'q) of_runtime \<Rightarrow> u8 \<Rightarrow> PwmCommand list \<Rightarrow> ForceReach \<Rightarrow>
    'h OpenFanBackend \<times> 'dev OfWorld \<times> 'q \<Rightarrow> bool \<times> 'h OpenFanBackend \<times> 'dev OfWorld \<times> 'q" where
  "openfan_force rt pct commands reach = (\<lambda>(b, w, q).
     let t = openfan_force_of pct commands reach;
         w = (if ft_record_snapshot t then w else w\<lparr>ow_held := ow_held w \<union> set (ft_targets t)\<rparr>)
     in case bw_run rt WRITE_JOIN_BUDGET (OfForceTask t) (ob_writes b, w, q) of
       (p, bw, w, q) \<Rightarrow>
         let stalled = (wp_in_flight p \<and> wp_harvested p = None \<and> wp_issued p = None);
             b = fold (\<lambda>j b. case j of Some rs \<Rightarrow> snd (of_note_outcomes rs b) | None \<Rightarrow> b) (wp_completed p) (b\<lparr>ob_writes := bw\<rparr>)
         in (ft_targets t \<noteq> [],
             b\<lparr>ob_force_suspended_logged := ow_force_suspended w, ob_stall_logged := stalled\<rparr>, w, q))"

end
