(* ===== verification/OpenFan_Release.thy ===== *)
theory OpenFan_Release
  imports OpenFan_Backend
begin

text \<open>
  What the OpenFan backend's tasks guarantee. \<open>of_steps\<close> is the guarantee of a piece of a task, in the
  manner of rely and guarantee: it keeps the controller's tracking true of the device, and moves no
  channel outside a set. \<open>of_calm\<close> is what a task relies on of the others: that they neither pause the
  writes nor move an OpenFan channel while it runs.
\<close>

definition of_inv :: "('dev \<Rightarrow> u8 \<Rightarrow> u8) \<Rightarrow> 'dev OfWorld \<Rightarrow> bool" where
  "of_inv duty w = (fan_inv duty (ow_ctrl w, ow_cache w, ow_dev w) \<and> oc_generation (ow_cache w) < 2 ^ 64 \<and>
     list_all (\<lambda>c. exit_min c = None) (fc_channels (ow_ctrl w)))"

text \<open>The two gates: the engine's writes obey the pause, a force only the suspension of an update.\<close>

datatype Gate = PauseGate | SuspendGate

fun shut :: "Gate \<Rightarrow> 'dev OfWorld \<Rightarrow> bool" where
  "shut PauseGate w = of_writes_paused w"
| "shut SuspendGate w = openfan_writes_suspended (ow_state w)"

lemma shut_gate:
  "ow_now w' = ow_now w \<Longrightarrow> ow_state w' = ow_state w \<Longrightarrow> shut g w' = shut g w"
  by (cases g) (simp_all add: of_writes_paused_def)

lemma open_gate: "\<not> shut g w \<Longrightarrow> \<not> openfan_writes_suspended (ow_state w)"
  by (cases g) (simp_all add: of_writes_paused_def openfan_writes_paused_def)

lemma pause_covers_suspension: "\<not> of_writes_paused w \<Longrightarrow> \<not> openfan_writes_suspended (ow_state w)"
  by (simp add: of_writes_paused_def openfan_writes_paused_def)

definition of_steps :: "Gate \<Rightarrow> ('dev \<Rightarrow> u8 \<Rightarrow> u8) \<Rightarrow> u8 set \<Rightarrow> 'dev OfWorld \<Rightarrow> 'dev OfWorld \<Rightarrow> bool" where
  "of_steps g duty S w w' =
     (of_inv duty w' \<and> ow_exit_floor w' = ow_exit_floor w \<and> \<not> shut g w' \<and>
      (\<forall>c. c \<notin> S \<longrightarrow> duty (ow_dev w') c = duty (ow_dev w) c \<and> of_last_known w' c = of_last_known w c))"

definition of_calm :: "Gate \<Rightarrow> 'dev OfEnv \<Rightarrow> ('dev \<Rightarrow> u8 \<Rightarrow> u8) \<Rightarrow> bool" where
  "of_calm g env duty =
     (firmware_applies (oe_exchange env) duty \<and> (\<forall>dev. oe_during env dev = quiet) \<and>
      (\<forall>w. of_inv duty w \<and> \<not> shut g w \<longrightarrow> of_steps g duty {} w (oe_others env w) \<and>
        ow_pre_emergency (oe_others env w) = ow_pre_emergency w \<and> ow_held (oe_others env w) = ow_held w))"

lemma of_steps_refl: "of_inv duty w \<Longrightarrow> \<not> shut g w \<Longrightarrow> of_steps g duty S w w"
  by (simp add: of_steps_def)

lemma of_steps_trans: "of_steps g duty S w v \<Longrightarrow> of_steps g duty T v u \<Longrightarrow> S \<union> T \<subseteq> R \<Longrightarrow> of_steps g duty R w u"
  by (simp add: of_steps_def) (metis UnCI subsetD)

lemma of_steps_mono: "of_steps g duty S w v \<Longrightarrow> S \<subseteq> R \<Longrightarrow> of_steps g duty R w v"
  by (simp add: of_steps_def) (metis subsetD)

lemma of_stepsD:
  assumes "of_steps g duty S w w'"
  shows "of_inv duty w'" "\<not> shut g w'" "ow_exit_floor w' = ow_exit_floor w"
    "c \<notin> S \<Longrightarrow> duty (ow_dev w') c = duty (ow_dev w) c" "c \<notin> S \<Longrightarrow> of_last_known w' c = of_last_known w c"
  using assms by (auto simp: of_steps_def)

text \<open>The slots the tasks share with the async side are no part of the guarantee.\<close>

lemma of_slots [simp]:
  "of_steps g duty S w (w'\<lparr>ow_held := h\<rparr>) = of_steps g duty S w w'"
  "of_steps g duty S w (w'\<lparr>ow_failure_logged := h\<rparr>) = of_steps g duty S w w'"
  "of_steps g duty S w (w'\<lparr>ow_pre_emergency := p\<rparr>) = of_steps g duty S w w'"
  "of_steps g duty S w (w'\<lparr>ow_lost_duties := l\<rparr>) = of_steps g duty S w w'"
  "of_steps g duty S w (w'\<lparr>ow_force_suspended := f\<rparr>) = of_steps g duty S w w'"
  "of_steps g duty S (w\<lparr>ow_held := h\<rparr>) w' = of_steps g duty S w w'"
  "of_steps g duty S (w\<lparr>ow_failure_logged := h\<rparr>) w' = of_steps g duty S w w'"
  "of_steps g duty S (w\<lparr>ow_pre_emergency := p\<rparr>) w' = of_steps g duty S w w'"
  "of_steps g duty S (w\<lparr>ow_lost_duties := l\<rparr>) w' = of_steps g duty S w w'"
  "of_steps g duty S (w\<lparr>ow_force_suspended := f\<rparr>) w' = of_steps g duty S w w'"
  by (cases g; simp add: of_steps_def of_inv_def of_writes_paused_def of_last_known_def)+

lemma calm_others:
  assumes "of_calm g env duty" "of_inv duty w" "\<not> shut g w"
  shows "of_steps g duty S w (oe_others env w)" "ow_pre_emergency (oe_others env w) = ow_pre_emergency w"
    "ow_held (oe_others env w) = ow_held w"
proof -
  have o: "of_steps g duty {} w (oe_others env w) \<and> ow_pre_emergency (oe_others env w) = ow_pre_emergency w \<and>
      ow_held (oe_others env w) = ow_held w"
    using assms unfolding of_calm_def by blast
  then show "ow_pre_emergency (oe_others env w) = ow_pre_emergency w" "ow_held (oe_others env w) = ow_held w" by simp_all
  show "of_steps g duty S w (oe_others env w)" by (rule of_steps_mono [OF conjunct1 [OF o]]) simp
qed

section \<open>One write\<close>

lemma known_observe: "last_known_duty cache (observe_write_generation cache fc) ch = last_known_duty cache fc ch"
  by (auto simp: last_known_duty_def last_commanded_pct_def duty_before_loss_def observe_write_generation_def
      get_channel_def opt_or_def split: option.split)

lemma known_update_other:
  "c \<noteq> ch \<Longrightarrow> last_known_duty cache (update_channel ch g fc) c = last_known_duty cache fc c"
  by (simp add: last_known_duty_def last_commanded_pct_def duty_before_loss_def get_channel_def update_channel_def)

lemma known_cache:
  "oc_generation cache' = oc_generation cache \<Longrightarrow> last_known_duty cache' fc c = last_known_duty cache fc c"
  by (auto simp: last_known_duty_def last_commanded_pct_def duty_before_loss_def split: option.split)

lemma exit_min_none:
  assumes "list_all (\<lambda>c. exit_min c = None) (fc_channels fc)"
  shows "list_all (\<lambda>c. exit_min c = None) (fc_channels (observe_write_generation cache fc))"
    "ch < length (fc_channels fc) \<Longrightarrow> raised_pct fc ch pct = pct"
  using assms by (auto simp: observe_write_generation_def list_all_length raised_pct_def)

lemma list_all_exit_min: "list_all (\<lambda>c. exit_min c = None) l = (\<forall>m \<in> set (map exit_min l). m = None)"
  by (auto simp: list_all_iff)

lemma of_set_pwm_effect:
  assumes calm: "of_calm g env duty" and inv: "of_inv duty w" and np: "\<not> shut g w"
    and s: "of_set_pwm env ch pct w = (r, w')"
  shows "of_steps g duty {ch} w w'" "ow_pre_emergency w' = ow_pre_emergency w" "ow_held w' = ow_held w"
    "r = Inr () \<Longrightarrow> duty (ow_dev w') ch = percent_to_raw pct \<and> of_last_known w' ch = Some pct"
proof -
  obtain x fc cache dev where x: "set_pwm (ow_now w) (oe_exchange env) quiet ch pct (ow_ctrl w, ow_cache w, ow_dev w) = (x, fc, cache, dev)"
    by (metis prod_cases4)
  have q: "oe_during env (ow_dev w) = quiet" and fw: "firmware_applies (oe_exchange env) duty"
    using calm by (simp_all add: of_calm_def)
  have w': "w' = w\<lparr>ow_ctrl := fc, ow_cache := cache, ow_dev := dev\<rparr>" and r: "r = map_sum id (\<lambda>_. ()) x"
    using s x by (auto simp: of_set_pwm_def q)
  have fi: "fan_inv duty (ow_ctrl w, ow_cache w, ow_dev w)" and g: "oc_generation (ow_cache w) < 2 ^ 64"
    and em: "list_all (\<lambda>c. exit_min c = None) (fc_channels (ow_ctrl w))"
    using inv by (simp_all add: of_inv_def)
  note e = set_pwm_effect_plain [OF fw fi g x]
  have inv': "of_inv duty w'"
    using e g em by (simp add: of_inv_def w' list_all_exit_min)
  let ?fc = "observe_write_generation (ow_cache w) (ow_ctrl w)"
  have other: "(c \<noteq> ch \<longrightarrow> duty dev c = duty (ow_dev w) c \<and> last_known_duty cache fc c = last_known_duty (ow_cache w) (ow_ctrl w) c) \<and>
      (\<forall>res. x = Inr res \<longrightarrow> sp_percent res = pct \<and> last_known_duty cache fc ch = Some pct)" for c
  proof (cases "ch < NUM_CHANNELS \<and> pct \<le> 100")
    case False
    then obtain er where "(x, fc, cache, dev) = (Inl (ValidationError er), ow_ctrl w, ow_cache w, ow_dev w)"
      using set_pwm_invalid x by metis
    then show ?thesis by simp
  next
    case True
    note o = observe_synced [OF fi]
    have len: "ch < length (fc_channels ?fc)" using o(1) True by (simp add: fan_inv_def)
    have p: "raised_pct ?fc ch pct = pct" by (rule exit_min_none(2) [OF exit_min_none(1) [OF em] len])
    note v = set_pwm_valid [OF fi, of ch pct "ow_now w" "oe_exchange env" quiet, unfolded p]
    note known = known_update_other known_observe
    have kc: "last_known_duty (snd (set_openfan_commanded_pwm ch pct g c)) f k = last_known_duty c f k"
      "last_known_duty (clear_openfan_commanded_pwm ch c) f k = last_known_duty c f k" for g c f k
      by (rule known_cache, simp)+
    show ?thesis
    proof (cases "last_commanded (fc_channels ?fc ! ch) = Some pct")
      case co: True
      then have "last_known_duty (ow_cache w) ?fc ch = Some pct"
        using o(2) len by (simp add: last_known_duty_def last_commanded_pct_def get_channel_def opt_or_def)
      then show ?thesis using v True x co known_observe by (auto simp: known_observe)
    next
      case send: False
      obtain sent dev1 where t: "oe_exchange env (SetPwm (Channel ch) (percent_to_raw pct)) (ow_dev w) = (sent, dev1)"
        by (rule prod.exhaust)
      have d: "c \<noteq> ch \<Longrightarrow> duty dev1 c = duty (ow_dev w) c" using fw t unfolding firmware_applies_def by blast
      show ?thesis
      proof (cases sent)
        case (Inl er)
        then have "x = Inl (FanSerial er)" "fc = update_channel ch (\<lambda>c. track_failed pct (mark_written c)) ?fc"
          "cache = clear_openfan_commanded_pwm ch (ow_cache w)" "dev = dev1"
          using v True x send t by (auto simp: quiet_def)
        then show ?thesis using d by (simp add: known kc)
      next
        case (Inr y)
        then have f: "x = Inr \<lparr>sp_channel = ch, sp_percent = pct, sp_coalesced = False\<rparr>" "dev = dev1"
          "fc = update_channel ch (\<lambda>c. track_landed (ow_now w) pct (mark_written c)) ?fc"
          "cache = snd (set_openfan_commanded_pwm ch pct (fc_generation ?fc) (ow_cache w))"
          using v True x send t by (auto simp: quiet_def)
        moreover have "last_known_duty (ow_cache w) (update_channel ch (\<lambda>c. track_landed (ow_now w) pct (mark_written c)) ?fc) ch = Some pct"
          using o(2) len by (simp add: last_known_duty_def last_commanded_pct_def get_channel_def opt_or_def update_channel_def track_landed_def)
        ultimately show ?thesis using d by (simp add: known kc)
      qed
    qed
  qed
  show "of_steps g duty {ch} w w'"
    using inv' np other shut_gate [of w' w g] by (auto simp: of_steps_def w' of_last_known_def)
  show "ow_pre_emergency w' = ow_pre_emergency w" "ow_held w' = ow_held w" by (simp_all add: w')
  show "duty (ow_dev w') ch = percent_to_raw pct \<and> of_last_known w' ch = Some pct" if "r = Inr ()"
    using that other e r by (cases x) (auto simp: w' of_last_known_def)
qed

section \<open>The loops\<close>

text \<open>One turn of a loop: what the others do, then a write.\<close>

lemma of_turn:
  assumes "of_calm g env duty" "of_inv duty w" "\<not> shut g w" "of_set_pwm env ch pct (oe_others env w) = (r, w')"
  shows "of_steps g duty {ch} w w'" "ow_pre_emergency w' = ow_pre_emergency w" "ow_held w' = ow_held w"
    "r = Inr () \<Longrightarrow> duty (ow_dev w') ch = percent_to_raw pct \<and> of_last_known w' ch = Some pct"
proof -
  note o = calm_others [OF assms(1-3)]
  note s = of_set_pwm_effect [OF assms(1) of_stepsD(1,2) [OF o(1) [where S = "{}"]] assms(4)]
  show "of_steps g duty {ch} w w'" by (rule of_steps_trans [OF o(1) [where S = "{}"] s(1)]) simp
  show "ow_pre_emergency w' = ow_pre_emergency w" "ow_held w' = ow_held w" using s(2,3) o(2,3) by simp_all
  show "duty (ow_dev w') ch = percent_to_raw pct \<and> of_last_known w' ch = Some pct" if "r = Inr ()" using s(4) that .
qed

lemma write_commands_steps:
  assumes "of_calm PauseGate env duty"
  shows "of_inv duty w \<Longrightarrow> \<not> shut PauseGate w \<Longrightarrow> write_commands env cs w = (rs, w') \<Longrightarrow>
    of_steps PauseGate duty UNIV w w' \<and> ow_pre_emergency w' = ow_pre_emergency w \<and> ow_held w' = ow_held w"
proof (induction cs arbitrary: w rs w')
  case (Cons c cs)
  obtain ch pct where c: "c = (ch, pct)" by (rule prod.exhaust)
  note o = calm_others [OF assms Cons.prems(1,2)]
  obtain r w1 where s: "of_set_pwm env ch pct (oe_others env w) = (r, w1)" by (rule prod.exhaust)
  note t = of_turn [OF assms Cons.prems(1,2) s]
  obtain rs1 w2 where l: "write_commands env cs w1 = (rs1, w2)" by (rule prod.exhaust)
  have "w' = w2" using Cons.prems(3) o(1) [where S = "{}"] s l by (simp add: c Let_def of_steps_def)
  with Cons.IH [OF of_stepsD(1,2) [OF t(1)] l] t show ?case by (auto intro: of_steps_trans)
qed (simp add: of_steps_refl)

lemma put_back_steps:
  assumes "of_calm PauseGate env duty"
  shows "of_inv duty w \<Longrightarrow> \<not> shut PauseGate w \<Longrightarrow> put_back_lost env chs w = (rs, w') \<Longrightarrow>
    of_steps PauseGate duty UNIV w w' \<and> ow_pre_emergency w' = ow_pre_emergency w \<and> ow_held w \<subseteq> ow_held w' \<and>
    ow_held w' \<subseteq> ow_held w \<union> set chs"
proof (induction chs arbitrary: w rs w')
  case (Cons ch chs)
  note o = calm_others [OF assms Cons.prems(1,2)]
  note np = of_stepsD(1,2) [OF o(1) [where S = UNIV]]
  show ?case
  proof (cases "of_before_loss (oe_others env w) ch")
    case None
    then have l: "put_back_lost env chs (oe_others env w) = (rs, w')" using Cons.prems(3) np by (simp add: Let_def)
    from Cons.IH [OF np l] o show ?thesis by (auto intro: of_steps_trans)
  next
    case (Some d)
    obtain r w1 where s: "of_set_pwm env ch d (oe_others env w) = (r, w1)" by (rule prod.exhaust)
    note t = of_turn [OF assms Cons.prems(1,2) s]
    let ?w = "w1\<lparr>ow_held := insert ch (ow_held w1)\<rparr>"
    have t': "of_steps PauseGate duty UNIV w ?w" using of_steps_mono [OF t(1)] by simp
    obtain rs1 w2 where l: "put_back_lost env chs ?w = (rs1, w2)" by (rule prod.exhaust)
    have "w' = w2" using Cons.prems(3) np s l Some by (simp add: Let_def)
    with Cons.IH [OF of_stepsD(1,2) [OF t'] l] t' t(2,3) show ?thesis by (auto intro: of_steps_trans)
  qed
qed (simp add: of_steps_refl)

lemma record_lost_steps:
  assumes "of_calm PauseGate env duty" "of_inv duty w" "\<not> shut PauseGate w"
  shows "of_steps PauseGate duty S w (record_lost_duties env w)" "ow_pre_emergency (record_lost_duties env w) = ow_pre_emergency w"
    "ow_held (record_lost_duties env w) = ow_held w"
  using calm_others [OF assms] by (simp_all add: record_lost_duties_def Let_def)

text \<open>A release leaves every channel it lets go of at or above the exit floor, and moves no other.\<close>

definition at_or_above :: "('dev \<Rightarrow> u8 \<Rightarrow> u8) \<Rightarrow> u8 \<Rightarrow> 'dev OfWorld \<Rightarrow> u8 \<Rightarrow> bool" where
  "at_or_above duty f w ch = (\<exists>p. f \<le> p \<and> p \<le> 100 \<and> duty (ow_dev w) ch = percent_to_raw p)"

lemma tracked_is_held:
  assumes "of_inv duty w" "ch < NUM_CHANNELS" "last_commanded_pct (ow_cache w) (ow_ctrl w) ch = Some p"
  shows "duty (ow_dev w) ch = percent_to_raw p"
  using assms by (auto simp: of_inv_def fan_inv_def last_commanded_pct_def get_channel_def chan_holds_def split: if_splits option.splits)

lemma release_steps:
  assumes calm: "of_calm PauseGate env duty" and f: "0 < f" "f \<le> 100"
  shows "of_inv duty w \<Longrightarrow> \<not> shut PauseGate w \<Longrightarrow> distinct chs \<Longrightarrow> list_all (\<lambda>ch. ch < NUM_CHANNELS) chs \<Longrightarrow>
    set chs \<subseteq> ow_held w \<Longrightarrow> of_steps PauseGate duty (set chs) w (release_channels env f chs w) \<and>
    ow_pre_emergency (release_channels env f chs w) = ow_pre_emergency w \<and>
    ow_held (release_channels env f chs w) \<subseteq> ow_held w \<and> ow_held w - set chs \<subseteq> ow_held (release_channels env f chs w) \<and>
    (\<forall>ch \<in> set chs. ch \<in> ow_held (release_channels env f chs w) \<or> at_or_above duty f (release_channels env f chs w) ch)"
proof (induction chs arbitrary: w)
  case Nil
  then show ?case by (simp add: of_steps_refl)
next
  case (Cons ch chs)
  let ?v = "oe_others env w"
  note o = calm_others [OF calm Cons.prems(1,2)]
  note np = of_stepsD(1,2) [OF o(1) [where S = UNIV]]
  let ?to = "exit_duty (of_last_known ?v ch) f"
  let ?step = "if 0 < f \<and> Some ?to \<noteq> last_commanded_pct (ow_cache ?v) (ow_ctrl ?v) ch then of_set_pwm env ch ?to ?v else (Inr (), ?v)"
  obtain r w1 where s: "?step = (r, w1)" by (rule prod.exhaust)
  have b: "f \<le> ?to" "?to \<le> 100" using exit_duty_bounds [OF f(2)] by simp_all
  have t: "of_steps PauseGate duty {ch} w w1" "ow_pre_emergency w1 = ow_pre_emergency w" "ow_held w1 = ow_held w"
    and dn: "r = Inr () \<Longrightarrow> at_or_above duty f w1 ch"
  proof -
    have "of_steps PauseGate duty {ch} w w1 \<and> ow_pre_emergency w1 = ow_pre_emergency w \<and> ow_held w1 = ow_held w \<and>
        (r = Inr () \<longrightarrow> at_or_above duty f w1 ch)"
    proof (cases "Some ?to \<noteq> last_commanded_pct (ow_cache ?v) (ow_ctrl ?v) ch")
      case True
      then have "of_set_pwm env ch ?to ?v = (r, w1)" using s f by simp
      from of_turn [OF calm Cons.prems(1,2) this] b show ?thesis by (auto simp: at_or_above_def)
    next
      case False
      then have "duty (ow_dev ?v) ch = percent_to_raw ?to" using tracked_is_held [OF np(1)] Cons.prems(4) by auto
      then show ?thesis using s False o b by (auto simp: at_or_above_def)
    qed
    then show "of_steps PauseGate duty {ch} w w1" "ow_pre_emergency w1 = ow_pre_emergency w" "ow_held w1 = ow_held w"
      "r = Inr () \<Longrightarrow> at_or_above duty f w1 ch" by simp_all
  qed
  define u where "u = (case r of Inl e \<Rightarrow> w1\<lparr>ow_failure_logged := insert ch (ow_failure_logged w1)\<rparr>
    | Inr _ \<Rightarrow> w1\<lparr>ow_held := ow_held w1 - {ch}, ow_failure_logged := ow_failure_logged w1 - {ch}\<rparr>)"
  have l: "release_channels env f (ch # chs) w = release_channels env f chs u"
    using s np(2) by (simp add: Let_def u_def split: sum.split)
  have tu: "of_steps PauseGate duty {ch} w u" using t(1) by (simp add: u_def split: sum.split)
  have pu: "ow_pre_emergency u = ow_pre_emergency w" using t(2) by (simp add: u_def split: sum.split)
  have hu: "ow_held u = (if r = Inr () then ow_held w - {ch} else ow_held w)"
    using t(3) by (cases r) (auto simp: u_def)
  have du: "ow_dev u = ow_dev w1" by (simp add: u_def split: sum.split)
  let ?R = "release_channels env f chs u"
  have ih: "of_steps PauseGate duty (set chs) u ?R" "ow_pre_emergency ?R = ow_pre_emergency u" "ow_held ?R \<subseteq> ow_held u"
    "ow_held u - set chs \<subseteq> ow_held ?R" "\<forall>c \<in> set chs. c \<in> ow_held ?R \<or> at_or_above duty f ?R c"
    using Cons.IH [OF of_stepsD(1,2) [OF tu]] Cons.prems(3-5) hu by (auto split: if_splits)
  have "ch \<in> ow_held ?R \<or> at_or_above duty f ?R ch"
  proof (cases "r = Inr ()")
    case True
    have "duty (ow_dev ?R) ch = duty (ow_dev u) ch" using of_stepsD(4) [OF ih(1)] Cons.prems(3) by simp
    then show ?thesis using dn [OF True] du by (simp add: at_or_above_def)
  next
    case False
    then show ?thesis using hu ih(4) Cons.prems(3,5) by auto
  qed
  moreover have "of_steps PauseGate duty (set (ch # chs)) w ?R" by (rule of_steps_trans [OF tu ih(1)]) simp
  moreover have "ow_held ?R \<subseteq> ow_held w" "ow_held w - set (ch # chs) \<subseteq> ow_held ?R"
    using ih(3,4) hu by (auto split: if_splits)
  ultimately show ?case unfolding l using ih(2,5) pu by simp
qed

lemma release_unheld_steps:
  fixes members :: "u8 set"
  assumes "of_calm PauseGate env duty" "of_inv duty w" "\<not> shut PauseGate w" "ow_held w \<subseteq> {..<NUM_CHANNELS}"
    "ow_exit_floor w \<le> 100"
  defines "v \<equiv> release_unheld_openfan env members w"
  shows "of_steps PauseGate duty (- members) w v" "ow_pre_emergency v = ow_pre_emergency w" "ow_held v \<subseteq> ow_held w"
    "ow_held w \<inter> members \<subseteq> ow_held v"
    "0 < ow_exit_floor w \<Longrightarrow> ch \<in> ow_held w \<Longrightarrow> ch \<notin> members \<Longrightarrow> ch \<in> ow_held v \<or> at_or_above duty (ow_exit_floor w) v ch"
proof -
  let ?f = "ow_exit_floor w"
  let ?chs = "filter (\<lambda>ch. ch \<notin> members) (sorted_list_of_set (ow_held w))"
  have fin: "finite (ow_held w)" using assms(4) finite_subset by blast
  then have set_chs: "set ?chs = ow_held w - members" by auto
  have l: "distinct ?chs" "list_all (\<lambda>ch. ch < NUM_CHANNELS) ?chs" "set ?chs \<subseteq> ow_held w"
    using fin assms(4) by (auto simp: list_all_iff)
  have zero: "of_steps PauseGate duty S u (release_channels env 0 chs u) \<and>
      ow_pre_emergency (release_channels env 0 chs u) = ow_pre_emergency u \<and>
      ow_held (release_channels env 0 chs u) \<subseteq> ow_held u \<and> ow_held u - set chs \<subseteq> ow_held (release_channels env 0 chs u)"
    if "of_inv duty u" "\<not> shut PauseGate u" for chs u S
    using that
  proof (induction chs arbitrary: u)
    case (Cons c chs)
    let ?u = "(oe_others env u)\<lparr>ow_held := ow_held u - {c}, ow_failure_logged := ow_failure_logged (oe_others env u) - {c}\<rparr>"
    note o = calm_others [OF assms(1) Cons.prems]
    have s: "of_steps PauseGate duty S u ?u" for S using o(1) by simp
    have "release_channels env 0 (c # chs) u = release_channels env 0 chs ?u"
      using of_stepsD(2) [OF o(1) [where S = "{}"]] o(3) by (simp add: Let_def)
    with Cons.IH [OF of_stepsD(1,2) [OF s]] s o show ?case by (auto intro: of_steps_trans)
  qed (simp add: of_steps_refl)
  show "of_steps PauseGate duty (- members) w v"
  proof (cases "?f = 0")
    case True
    then show ?thesis using zero [OF assms(2,3)] by (simp add: v_def release_unheld_openfan_def)
  next
    case False
    then show ?thesis
      using release_steps [OF assms(1) _ assms(5,2,3) l] of_steps_mono [of PauseGate duty "set ?chs" w v "- members"] set_chs
      by (auto simp: v_def release_unheld_openfan_def)
  qed
  show "ow_pre_emergency v = ow_pre_emergency w" "ow_held v \<subseteq> ow_held w"
    using zero [OF assms(2,3)] release_steps [OF assms(1) _ assms(5,2,3) l]
    by (cases "?f = 0"; simp add: v_def release_unheld_openfan_def)+
  show "ow_held w \<inter> members \<subseteq> ow_held v"
    using zero [OF assms(2,3), of _ ?chs] release_steps [OF assms(1) _ assms(5,2,3) l] set_chs
    by (cases "?f = 0"; auto simp: v_def release_unheld_openfan_def)
  show "ch \<in> ow_held v \<or> at_or_above duty ?f v ch" if "0 < ?f" "ch \<in> ow_held w" "ch \<notin> members"
    using release_steps [OF assms(1) that(1) assms(5,2,3) l] set_chs that by (auto simp: v_def release_unheld_openfan_def)
qed

definition returned_set :: "u8 set \<Rightarrow> u8 \<Rightarrow> (u8 \<times> u8 option) list \<Rightarrow> u8 set" where
  "returned_set members f ps = {ch. \<exists>d. (ch, d) \<in> set ps \<and> returnable members f ch d \<noteq> None}"

lemma returned_set_sub: "returned_set members f ps \<subseteq> fst ` set ps - members"
  by (force simp: returned_set_def returnable_def split: option.splits if_splits)

lemma return_duties_steps:
  assumes calm: "of_calm PauseGate env duty"
  shows "of_inv duty w \<Longrightarrow> \<not> shut PauseGate w \<Longrightarrow> distinct (map fst ps) \<Longrightarrow>
    return_duties env members f duties ps w = (rs, w') \<Longrightarrow>
    of_steps PauseGate duty (returned_set members f ps) w w' \<and> ow_pre_emergency w' = ow_pre_emergency w \<and> ow_held w' = ow_held w \<and>
    fst ` set rs \<subseteq> fst ` set ps \<and>
    (\<forall>(ch, d) \<in> set ps. \<forall>p. returnable members f ch d = Some p \<longrightarrow> (\<exists>r. (ch, r) \<in> set rs \<and>
       (r = Inr () \<longrightarrow> duty (ow_dev w') ch = percent_to_raw p)))"
proof (induction ps arbitrary: w rs w')
  case Nil
  then show ?case by (auto simp: of_steps_refl)
next
  case (Cons cd ps)
  have sub: "returned_set members f ps \<subseteq> returned_set members f (cd # ps)" by (auto simp: returned_set_def)
  obtain ch d where cd: "cd = (ch, d)" by (rule prod.exhaust)
  note o = calm_others [OF calm Cons.prems(1,2)]
  note np = of_stepsD(1,2) [OF o(1) [where S = "{}"]]
  show ?case
  proof (cases "returnable members f ch d")
    case None
    then have "return_duties env members f duties ps w = (rs, w')" using Cons.prems(4) by (simp add: cd)
    from Cons.IH [OF Cons.prems(1,2) _ this] Cons.prems(3) None show ?thesis
      using of_steps_mono [OF _ sub] by (auto simp: cd)
  next
    case (Some p)
    obtain r w1 where s: "of_set_pwm env ch p (oe_others env w) = (r, w1)" by (rule prod.exhaust)
    note t = of_turn [OF calm Cons.prems(1,2) s]
    obtain rs1 w2 where l: "return_duties env members f duties ps w1 = (rs1, w2)" by (rule prod.exhaust)
    have res: "rs = (ch, r) # rs1" "w' = w2" using Cons.prems(4) np(2) Some s l by (simp_all add: cd Let_def)
    have dist: "distinct (map fst ps)" "ch \<notin> fst ` set ps" using Cons.prems(3) by (auto simp: cd)
    note ih = Cons.IH [OF of_stepsD(1,2) [OF t(1)] dist(1) l]
    have "duty (ow_dev w2) ch = duty (ow_dev w1) ch"
      using ih dist(2) returned_set_sub [of members f ps] of_stepsD(4) [of PauseGate duty "returned_set members f ps" w1 w2 ch] by blast
    then have "\<exists>r. (ch, r) \<in> set rs \<and> (r = Inr () \<longrightarrow> duty (ow_dev w') ch = percent_to_raw p)"
      using t(4) by (auto simp: res)
    moreover have "of_steps PauseGate duty (returned_set members f (cd # ps)) w w'"
      unfolding res by (rule of_steps_trans [OF t(1) conjunct1 [OF ih]]) (use Some sub in \<open>auto simp: cd returned_set_def\<close>)
    moreover have "\<exists>r. (c, r) \<in> set rs \<and> (r = Inr () \<longrightarrow> duty (ow_dev w') c = percent_to_raw q)"
      if "(c, e) \<in> set ps" "returnable members f c e = Some q" for c e q
      using ih that by (fastforce simp: res)
    ultimately show ?thesis using ih t(2,3) Some by (auto simp: cd res)
  qed
qed

section \<open>The force\<close>

lemma fold_max_ge: "(x :: nat) \<le> fold max ps x" "p \<in> set ps \<Longrightarrow> p \<le> fold max ps x"
proof -
  have ge: "y \<le> fold max ps (y :: nat)" for y ps
    by (induction ps arbitrary: y) (auto intro: le_trans [OF max.cobounded2])
  show "x \<le> fold max ps x" by (rule ge)
  show "p \<in> set ps \<Longrightarrow> p \<le> fold max ps x"
    by (induction ps arbitrary: x) (auto intro: le_trans [OF max.cobounded1 ge])
qed

lemma forced_duty_bounds:
  "ft_pct t \<le> forced_duty t ch w" "map_of (ft_floors t) ch = Some p \<Longrightarrow> p \<le> forced_duty t ch w"
  "ch \<in> ft_held t \<Longrightarrow> of_last_known w ch = Some p \<Longrightarrow> p \<le> forced_duty t ch w"
  unfolding forced_duty_def Let_def by (rule fold_max_ge(1) | (rule fold_max_ge(2), simp))+

lemma force_channels_steps:
  assumes calm: "of_calm g env duty"
  shows "of_inv duty w \<Longrightarrow> \<not> shut g w \<Longrightarrow> distinct chs \<Longrightarrow> force_channels env t chs w = (sus, att, w') \<Longrightarrow>
    of_steps g duty (set chs) w w' \<and> ow_pre_emergency w' = ow_pre_emergency w \<and> ow_held w' = ow_held w \<and> \<not> sus \<and>
    map fst att = chs \<and> (\<forall>(ch, d, r) \<in> set att. d = forced_duty t ch w \<and> (r = Inr () \<longrightarrow> duty (ow_dev w') ch = percent_to_raw d))"
proof (induction chs arbitrary: w sus att w')
  case Nil
  then show ?case by (auto simp: of_steps_refl)
next
  case (Cons ch chs)
  let ?v = "oe_others env w"
  let ?d = "forced_duty t ch ?v"
  note o = calm_others [OF calm Cons.prems(1,2)]
  note np = of_stepsD(1,2) [OF o(1) [where S = "{}"]]
  obtain r w1 where s: "of_set_pwm env ch ?d ?v = (r, w1)" by (rule prod.exhaust)
  note u = of_turn [OF calm Cons.prems(1,2) s]
  obtain sus1 att1 w2 where l: "force_channels env t chs w1 = (sus1, att1, w2)" by (rule prod_cases3)
  have res: "att = (ch, ?d, r) # att1" "w' = w2" "sus = sus1" using Cons.prems(4) open_gate [OF np(2)] s l by (simp_all add: Let_def)
  have dist: "distinct chs" "ch \<notin> set chs" using Cons.prems(3) by auto
  note ih = Cons.IH [OF of_stepsD(1,2) [OF u(1)] dist(1) l]
  have fd: "?d = forced_duty t ch w" using of_stepsD(5) [OF o(1) [where S = "{}"]] by (simp add: forced_duty_def)
  have same: "forced_duty t c w1 = forced_duty t c w" if "c \<noteq> ch" for c
    using of_stepsD(5) [OF u(1)] that by (simp add: forced_duty_def)
  have keep: "duty (ow_dev w2) ch = duty (ow_dev w1) ch"
    using ih dist(2) of_stepsD(4) [of g duty "set chs" w1 w2 ch] by blast
  have "(\<forall>(c, d, r) \<in> set att1. d = forced_duty t c w \<and> (r = Inr () \<longrightarrow> duty (ow_dev w') c = percent_to_raw d))"
    using ih same dist(2) res(2) by (fastforce simp: image_iff)
  moreover have "of_steps g duty (set (ch # chs)) w w'"
    unfolding res by (rule of_steps_trans [OF u(1) conjunct1 [OF ih]]) simp
  ultimately show ?case using ih u(2-4) fd keep res by auto
qed


lemma record_snapshot_steps:
  assumes "of_calm g env duty" "of_inv duty w" "\<not> shut g w"
  defines "v \<equiv> record_pre_emergency env w"
  shows "of_steps g duty {} w v" "ow_held v = ow_held w"
    "ow_pre_emergency v = (case ow_pre_emergency w of Some l \<Rightarrow> Some l
      | None \<Rightarrow> Some (if of_writes_paused w then replicate NUM_CHANNELS None else map (of_last_known w) [0..<NUM_CHANNELS]))"
proof -
  note o = calm_others [OF assms(1-3)]
  have "map (of_last_known (oe_others env w)) [0..<NUM_CHANNELS] = map (of_last_known w) [0..<NUM_CHANNELS]"
    using of_stepsD(5) [OF o(1) [where S = "{}"]] by simp
  with o assms(2,3) of_steps_refl [OF assms(2,3)]
  show "of_steps g duty {} w v" "ow_held v = ow_held w"
    "ow_pre_emergency v = (case ow_pre_emergency w of Some l \<Rightarrow> Some l
      | None \<Rightarrow> Some (if of_writes_paused w then replicate NUM_CHANNELS None else map (of_last_known w) [0..<NUM_CHANNELS]))"
    by (auto simp: v_def record_pre_emergency_def Let_def split: option.split)
qed

lemma targets_ok:
  "distinct (ft_targets (openfan_force_of pct commands reach))"
  "set (ft_targets (openfan_force_of pct commands reach)) = (case reach of ReachAll \<Rightarrow> {..<NUM_CHANNELS}
     | ReachMembers m _ _ \<Rightarrow> pm_openfan m \<inter> {..<NUM_CHANNELS})"
  by (auto simp: openfan_force_of_def split: ForceReach.split)

text \<open>What a force attempts needs nothing of the other threads but that none of them suspends the writes.\<close>

definition never_suspends :: "'dev OfEnv \<Rightarrow> bool" where
  "never_suspends env = (\<forall>w. openfan_writes_suspended (ow_state (oe_others env w)) \<longrightarrow> openfan_writes_suspended (ow_state w))"

lemma never_suspendsD:
  "never_suspends env \<Longrightarrow> \<not> openfan_writes_suspended (ow_state w) \<Longrightarrow> \<not> openfan_writes_suspended (ow_state (oe_others env w))"
  by (auto simp: never_suspends_def)

lemma of_set_pwm_state: "of_set_pwm env ch pct w = (r, w') \<Longrightarrow> ow_state w' = ow_state w"
  by (auto simp: of_set_pwm_def split: prod.splits)

lemma record_snapshot_unsuspended:
  assumes "never_suspends env" "\<not> openfan_writes_suspended (ow_state w)"
  shows "\<not> openfan_writes_suspended (ow_state (record_pre_emergency env w))"
  using never_suspendsD [OF assms(1)] assms(2)
  by (auto simp: record_pre_emergency_def Let_def split: option.splits)

lemma force_channels_attempts:
  assumes "never_suspends env"
  shows "\<not> openfan_writes_suspended (ow_state w) \<Longrightarrow> force_channels env t chs w = (sus, att, w') \<Longrightarrow>
    \<not> sus \<and> map fst att = chs \<and>
    (\<forall>(ch, d, r) \<in> set att. ft_pct t \<le> d \<and> (\<forall>p. map_of (ft_floors t) ch = Some p \<longrightarrow> p \<le> d))"
proof (induction chs arbitrary: w sus att w')
  case (Cons ch chs)
  let ?v = "oe_others env w"
  let ?d = "forced_duty t ch ?v"
  have ns: "\<not> openfan_writes_suspended (ow_state ?v)" by (rule never_suspendsD [OF assms Cons.prems(1)])
  obtain r w1 where s: "of_set_pwm env ch ?d ?v = (r, w1)" by (rule prod.exhaust)
  obtain sus1 att1 w2 where l: "force_channels env t chs w1 = (sus1, att1, w2)" by (rule prod_cases3)
  have "\<not> openfan_writes_suspended (ow_state w1)" using ns of_set_pwm_state [OF s] by simp
  note ih = Cons.IH [OF this l]
  have res: "att = (ch, ?d, r) # att1" "sus = sus1" using Cons.prems(2) ns s l by (simp_all add: Let_def)
  show ?case using ih by (simp add: res forced_duty_bounds(1,2))
qed simp

text \<open>C9: the emergency reaches every channel, and never lowers one. Whatever the other threads do between
  the channels (write them, reconnect, latch an exit floor, replace the record of duties), as long as
  none suspends the writes for a firmware update: an emergency task attempts every channel, a member of
  the profile or not, in order, with a duty of at least the forced one and at least the one the profile
  commands. And if they also leave the OpenFan alone and no exit floor is latched, each channel whose
  write was acknowledged stands at the duty of its attempt when the task is over.\<close>

theorem emergency_reaches_every_channel:
  assumes "never_suspends env" "\<not> openfan_writes_suspended (ow_state w)"
    and "openfan_force_task env (openfan_force_of pct commands ReachAll) w = (attempts, results, w')"
  shows "map fst attempts = [0..<NUM_CHANNELS] \<and>
    (\<forall>(ch, d, r) \<in> set attempts. pct \<le> d \<and>
       (\<forall>p. map_of (rev (openfan_commands commands)) ch = Some p \<longrightarrow> p \<le> d)) \<and>
    (of_calm SuspendGate env duty \<and> of_inv duty w \<longrightarrow>
       (\<forall>(ch, d, r) \<in> set attempts. r = Inr () \<longrightarrow> duty (ow_dev w') ch = percent_to_raw d))"
proof -
  let ?t = "openfan_force_of pct commands ReachAll"
  define v where "v = record_pre_emergency env w"
  obtain sus att u where l: "force_channels env ?t (ft_targets ?t) v = (sus, att, u)" by (rule prod_cases3)
  have t: "ft_record_snapshot ?t" "ft_give_back ?t = None" "ft_targets ?t = [0..<NUM_CHANNELS]" "ft_pct ?t = pct"
    "map_of (ft_floors ?t) = map_of (rev (openfan_commands commands))"
    by (simp_all add: openfan_force_of_def map_of_hm_collect fun_eq_iff)
  have r: "attempts = att" "ow_dev w' = ow_dev u"
    using assms(3) l unfolding openfan_force_task_def v_def [symmetric] Let_def by (simp_all add: t) auto
  note f = force_channels_attempts [OF assms(1) record_snapshot_unsuspended [OF assms(1,2), folded v_def] l]
  have left: "\<forall>(ch, d, r) \<in> set att. r = Inr () \<longrightarrow> duty (ow_dev u) ch = percent_to_raw d"
    if calm: "of_calm SuspendGate env duty" "of_inv duty w"
  proof -
    have np: "\<not> shut SuspendGate w" using assms(2) by simp
    note s = record_snapshot_steps [OF calm np, folded v_def]
    show ?thesis
      using force_channels_steps [OF calm(1) of_stepsD(1,2) [OF s(1)] targets_ok(1) l] by blast
  qed
  show ?thesis using f left by (auto simp: r t)
qed


section \<open>Across ticks\<close>

text \<open>A write task before its give-back.\<close>

lemma write_task_split:
  assumes calm: "of_calm PauseGate env duty" and inv: "of_inv duty w" and np: "\<not> of_writes_paused w"
    and held: "ow_held w \<subseteq> {..<NUM_CHANNELS}" and put: "list_all (\<lambda>ch. ch < NUM_CHANNELS) (wt_put_back t)"
    and task: "openfan_write_task env t w = (rs, w')" and gb: "wt_give_back t = Some members"
  obtains v given early where "of_steps PauseGate duty UNIV w v" "ow_pre_emergency v = ow_pre_emergency w"
    "ow_held w \<subseteq> ow_held v" "ow_held v \<subseteq> {..<NUM_CHANNELS}" "give_back_openfan env members v = (given, w')" "rs = early @ given"
proof -
  let ?w = "w\<lparr>ow_held := ow_held w \<union> set (filter (\<lambda>ch. ch < NUM_CHANNELS) (map fst (wt_chans t)))\<rparr>"
  have s0: "of_steps PauseGate duty UNIV w ?w" using of_steps_refl [OF inv] np by simp
  obtain r1 w1 where a: "write_commands env (wt_chans t) ?w = (r1, w1)" by (rule prod.exhaust)
  note s1 = write_commands_steps [OF calm of_stepsD(1,2) [OF s0] a]
  obtain r2 w2 where b: "put_back_lost env (wt_put_back t) w1 = (r2, w2)" by (rule prod.exhaust)
  note s2 = put_back_steps [OF calm of_stepsD(1,2) [OF conjunct1 [OF s1]] b]
  let ?v = "if wt_put_back t \<noteq> [] then record_lost_duties env w2 else w2"
  note s3 = record_lost_steps [OF calm of_stepsD(1,2) [OF conjunct1 [OF s2]]]
  have v: "of_steps PauseGate duty UNIV w2 ?v" "ow_pre_emergency ?v = ow_pre_emergency w2" "ow_held ?v = ow_held w2"
    using s3 of_steps_refl [OF of_stepsD(1,2) [OF conjunct1 [OF s2]]] by auto
  obtain given w3 where g: "give_back_openfan env members ?v = (given, w3)" by (rule prod.exhaust)
  have "rs = (r1 @ r2) @ given" "w' = w3" using task a b g gb by (simp_all add: openfan_write_task_def Let_def)
  moreover have "of_steps PauseGate duty UNIV w ?v"
  proof (rule of_steps_trans [OF s0, where T = UNIV])
    have "of_steps PauseGate duty UNIV ?w w2" by (rule of_steps_trans [OF conjunct1 [OF s1] conjunct1 [OF s2]]) simp
    then show "of_steps PauseGate duty UNIV ?w ?v" by (rule of_steps_trans [OF _ v(1)]) simp
  qed simp
  moreover have "ow_held w \<subseteq> ow_held ?v" "ow_held ?v \<subseteq> {..<NUM_CHANNELS}"
    using v(3) s1 s2 held put by (auto simp: list_all_iff)
  ultimately show ?thesis using that v(2) s1 s2 g by auto
qed

definition force_tick :: "'dev OfEnv \<Rightarrow> u8 \<times> PwmCommand list \<Rightarrow> 'dev OfWorld \<Rightarrow> 'dev OfWorld" where
  "force_tick env = (\<lambda>(pct, commands) w. snd (snd (openfan_force_task env (openfan_force_of pct commands ReachAll) w)))"

lemma force_tick_steps:
  fixes f :: "u8 \<times> PwmCommand list"
  assumes "of_calm PauseGate env duty" "of_inv duty w" "\<not> shut PauseGate w"
  defines "v \<equiv> force_tick env f w"
  shows "of_steps PauseGate duty UNIV w v" "ow_held v = ow_held w"
    "ow_pre_emergency v = (case ow_pre_emergency w of Some l \<Rightarrow> Some l | None \<Rightarrow> Some (map (of_last_known w) [0..<NUM_CHANNELS]))"
proof -
  obtain pct cmds where f: "f = (pct, cmds)" by (rule prod.exhaust)
  let ?t = "openfan_force_of pct cmds ReachAll"
  let ?u = "record_pre_emergency env w"
  note s = record_snapshot_steps [OF assms(1-3)]
  obtain sus att x where l: "force_channels env ?t (ft_targets ?t) ?u = (sus, att, x)" by (rule prod_cases3)
  note c = force_channels_steps [OF assms(1) of_stepsD(1,2) [OF s(1)] targets_ok(1) l]
  have v: "v = x\<lparr>ow_force_suspended := sus\<rparr>"
    using l by (simp add: v_def force_tick_def f openfan_force_task_def Let_def) (simp add: openfan_force_of_def)
  have "of_steps PauseGate duty UNIV w x" by (rule of_steps_trans [OF s(1) conjunct1 [OF c]]) simp
  then show "of_steps PauseGate duty UNIV w v" "ow_held v = ow_held w"
    "ow_pre_emergency v = (case ow_pre_emergency w of Some l \<Rightarrow> Some l | None \<Rightarrow> Some (map (of_last_known w) [0..<NUM_CHANNELS]))"
    using s(2,3) c assms(3) by (simp_all add: v split: option.split)
qed

lemma force_run:
  assumes "of_calm PauseGate env duty"
  shows "of_inv duty w \<Longrightarrow> \<not> shut PauseGate w \<Longrightarrow> of_steps PauseGate duty UNIV w (fold (force_tick env) fs w) \<and>
    ow_held (fold (force_tick env) fs w) = ow_held w \<and>
    ow_pre_emergency (fold (force_tick env) fs w) = (case ow_pre_emergency w of Some l \<Rightarrow> Some l
      | None \<Rightarrow> if fs = [] then None else Some (map (of_last_known w) [0..<NUM_CHANNELS]))"
proof (induction fs arbitrary: w)
  case (Cons f fs)
  note s = force_tick_steps [OF assms Cons.prems, of f]
  from Cons.IH [OF of_stepsD(1,2) [OF s(1)]] s show ?case
    by (auto intro: of_steps_trans split: option.splits)
qed (auto simp: of_steps_refl split: option.split)

text \<open>C11: an emergency leaves no trace on a channel whose duty was known. Over any number of forced ticks,
  the duty each channel had before the first is remembered, and the first write task after the emergency
  brings every channel that no profile names and whose duty was known then back to it, raised to the exit
  floor, when the controller acknowledges the task's writes. Neither the emergency nor the return runs
  into a pause, and nothing else moves or reconnects the OpenFan or latches an exit floor meanwhile. (A
  channel whose duty was not known, or every channel when the emergency began during a pause, is
  deliberately left at the forced duty.)\<close>

theorem emergency_duties_come_back:
  assumes "of_calm PauseGate env duty" "of_inv duty w" "\<not> of_writes_paused w" "ow_pre_emergency w = None"
    and "ow_held w \<subseteq> {..<NUM_CHANNELS}" "ow_exit_floor w \<le> 100" "list_all (\<lambda>ch. ch < NUM_CHANNELS) (wt_put_back t)"
    and "forces \<noteq> []" "wt_give_back t = Some members"
    and "openfan_write_task env t (fold (force_tick env) forces w) = (rs, w')"
    and "ch < NUM_CHANNELS" "ch \<notin> members" "of_last_known w ch = Some d" "\<forall>r. (ch, r) \<in> set rs \<longrightarrow> r = Inr ()"
  shows "duty (ow_dev w') ch = percent_to_raw (exit_duty (Some d) (ow_exit_floor w)) \<and> ow_pre_emergency w' = None"
proof -
  let ?w1 = "fold (force_tick env) forces w"
  have np: "\<not> shut PauseGate w" using assms(3) by simp
  let ?duties = "map (of_last_known w) [0..<NUM_CHANNELS]"
  have f: "of_steps PauseGate duty UNIV w ?w1" "ow_held ?w1 = ow_held w" "ow_pre_emergency ?w1 = Some ?duties"
    using force_run [OF assms(1,2) np, of forces] assms(4,8) by auto
  have h1: "ow_held ?w1 \<subseteq> {..<NUM_CHANNELS}" using f(2) assms(5) by simp
  have np1: "\<not> of_writes_paused ?w1" using of_stepsD(2) [OF f(1)] by simp
  obtain v given early where v: "of_steps PauseGate duty UNIV ?w1 v" "ow_pre_emergency v = ow_pre_emergency ?w1"
    "ow_held v \<subseteq> {..<NUM_CHANNELS}" "give_back_openfan env members v = (given, w')" "rs = early @ given"
    by (rule write_task_split [OF assms(1) of_stepsD(1) [OF f(1)] np1 h1 assms(7,10,9)])
  have fl: "ow_exit_floor v = ow_exit_floor w" using of_stepsD(3) [OF v(1)] of_stepsD(3) [OF f(1)] by simp
  let ?u = "release_unheld_openfan env members v"
  note r = release_unheld_steps [OF assms(1) of_stepsD(1,2) [OF v(1)] v(3), where members = members]
  have r1: "of_steps PauseGate duty (- members) v ?u" "ow_pre_emergency ?u = ow_pre_emergency v"
    using r(1,2) fl assms(6) by simp_all
  let ?u' = "?u\<lparr>ow_pre_emergency := None\<rparr>"
  have u': "of_steps PauseGate duty UNIV v ?u'" using of_steps_mono [OF r1(1)] by simp
  have fu: "ow_exit_floor ?u = ow_exit_floor w" using of_stepsD(3) [OF r1(1)] fl by simp
  have l: "return_duties env members (ow_exit_floor w) ?duties (zip [0..<NUM_CHANNELS] ?duties) ?u' = (given, w')"
    using v(4) of_stepsD(2) [OF r1(1)] r1(2) v(2) f(3) fu
    by (simp add: give_back_openfan_def give_back_pre_emergency_def)
  have dist: "distinct (map fst (zip [0..<NUM_CHANNELS] ?duties))" by simp
  note g = return_duties_steps [OF assms(1) of_stepsD(1,2) [OF u'] dist l]
  have "(ch, Some d) \<in> set (zip [0..<NUM_CHANNELS] ?duties)"
    using assms(11,13) by (auto simp: in_set_zip intro!: exI [of _ ch])
  moreover have "returnable members (ow_exit_floor w) ch (Some d) = Some (exit_duty (Some d) (ow_exit_floor w))"
    using assms(12) by (simp add: returnable_def)
  ultimately obtain r where "(ch, r) \<in> set given"
      "r = Inr () \<longrightarrow> duty (ow_dev w') ch = percent_to_raw (exit_duty (Some d) (ow_exit_floor w))"
    using g by fastforce
  then show ?thesis using assms(14) g v(5) by auto
qed

text \<open>C13: no fan is left behind below the exit floor. When the engine lets go of a channel because no profile
  names it any more, and the controller acknowledged what was written, the channel stands at a duty of at
  least the exit floor; a channel that could not be brought there stays held, to be tried again.\<close>

theorem released_channels_keep_the_floor:
  assumes "of_calm PauseGate env duty" "of_inv duty w" "\<not> of_writes_paused w"
    and "ow_held w \<subseteq> {..<NUM_CHANNELS}" "ow_exit_floor w \<le> 100" "list_all (\<lambda>ch. ch < NUM_CHANNELS) (wt_put_back t)"
    and "0 < ow_exit_floor w" "wt_give_back t = Some members" "openfan_write_task env t w = (rs, w')"
    and "ch \<in> ow_held w" "ch \<notin> members" "\<forall>r. (ch, r) \<in> set rs \<longrightarrow> r = Inr ()"
  shows "ch \<in> ow_held w' \<or> at_or_above duty (ow_exit_floor w) w' ch"
proof -
  obtain v given early where v: "of_steps PauseGate duty UNIV w v" "ow_pre_emergency v = ow_pre_emergency w"
    "ow_held w \<subseteq> ow_held v" "ow_held v \<subseteq> {..<NUM_CHANNELS}" "give_back_openfan env members v = (given, w')" "rs = early @ given"
    by (rule write_task_split [OF assms(1-4,6,9,8)])
  have fl: "ow_exit_floor v = ow_exit_floor w" using of_stepsD(3) [OF v(1)] by simp
  let ?u = "release_unheld_openfan env members v"
  note r = release_unheld_steps [OF assms(1) of_stepsD(1,2) [OF v(1)] v(4), where members = members, unfolded fl, OF assms(5)]
  have at: "ch \<in> ow_held ?u \<or> at_or_above duty (ow_exit_floor w) ?u ch" using r(5) assms(7,10,11) v(3) by auto
  show ?thesis
  proof (cases "ow_pre_emergency ?u")
    case None
    then have "w' = ?u" using v(5) of_stepsD(2) [OF r(1)] by (simp add: give_back_openfan_def give_back_pre_emergency_def)
    then show ?thesis using at by simp
  next
    case (Some duties)
    let ?ps = "zip [0..<NUM_CHANNELS] duties" and ?u' = "?u\<lparr>ow_pre_emergency := None\<rparr>"
    have u': "of_steps PauseGate duty UNIV v ?u'" using of_steps_mono [OF r(1)] by simp
    have fu: "ow_exit_floor ?u = ow_exit_floor w" using of_stepsD(3) [OF r(1)] fl by simp
    have l: "return_duties env members (ow_exit_floor w) duties ?ps ?u' = (given, w')"
      using v(5) of_stepsD(2) [OF r(1)] Some fu by (simp add: give_back_openfan_def give_back_pre_emergency_def)
    note g = return_duties_steps [OF assms(1) of_stepsD(1,2) [OF u'] _ l]
    have d: "distinct (map fst ?ps)" by (simp add: map_fst_zip_take)
    show ?thesis
    proof (cases "ch \<in> returned_set members (ow_exit_floor w) ?ps")
      case True
      then obtain e p where e: "(ch, e) \<in> set ?ps" "returnable members (ow_exit_floor w) ch e = Some p"
        by (auto simp: returned_set_def)
      then obtain x where "(ch, x) \<in> set given" "x = Inr () \<longrightarrow> duty (ow_dev w') ch = percent_to_raw p"
        using g [OF d] by fastforce
      moreover have "ow_exit_floor w \<le> p" "p \<le> 100"
        using e(2) exit_duty_bounds [OF assms(5)] by (auto simp: returnable_def split: option.splits if_splits)
      ultimately show ?thesis using assms(12) v(6) by (auto simp: at_or_above_def)
    next
      case False
      then have "duty (ow_dev w') ch = duty (ow_dev ?u) ch" "ow_held w' = ow_held ?u"
        using g [OF d] of_stepsD(4) [of PauseGate duty "returned_set members (ow_exit_floor w) ?ps" ?u' w' ch] by auto
      then show ?thesis using at by (auto simp: at_or_above_def)
    qed
  qed
qed

end
