(* ===== verification/OpenFan_Watch.thy ===== *)
theory OpenFan_Watch
  imports OpenFan_Release
begin

text \<open>
  The rest of what the OpenFan backend promises: the pause, the memory of lost duties that saves a task
  per tick, the failure streaks with their alarms; and concrete runs of its tasks.
\<close>

section \<open>The pause\<close>

text \<open>What other tasks do while they hold the pause: anything but move the device or end the pause.\<close>

definition pause_held :: "'dev OfEnv \<Rightarrow> bool" where
  "pause_held env = (\<forall>w. of_writes_paused w \<longrightarrow> of_writes_paused (oe_others env w) \<and> ow_dev (oe_others env w) = ow_dev w)"

definition still :: "'dev OfWorld \<Rightarrow> 'dev OfWorld \<Rightarrow> bool" where
  "still w w' = (of_writes_paused w' \<and> ow_dev w' = ow_dev w)"

lemma paused_commands:
  "pause_held env \<Longrightarrow> of_writes_paused w \<Longrightarrow> write_commands env cs w = (rs, w') \<Longrightarrow> rs = [] \<and> still w w'"
proof (induction cs arbitrary: w)
  case (Cons c cs)
  obtain ch pct where c: "c = (ch, pct)" by (rule prod.exhaust)
  have o: "of_writes_paused (oe_others env w)" "ow_dev (oe_others env w) = ow_dev w"
    using Cons.prems(1,2) by (auto simp: pause_held_def)
  then have "write_commands env cs (oe_others env w) = (rs, w')" using Cons.prems(3) by (simp add: c Let_def)
  from Cons.IH [OF Cons.prems(1) o(1) this] show ?case using o(2) by (simp add: still_def)
qed (simp add: still_def)

lemma paused_put_back:
  "pause_held env \<Longrightarrow> of_writes_paused w \<Longrightarrow> put_back_lost env chs w = (rs, w') \<Longrightarrow> rs = [] \<and> still w w'"
  by (cases chs) (auto simp: still_def pause_held_def Let_def)

lemma paused_release:
  "pause_held env \<Longrightarrow> of_writes_paused w \<Longrightarrow> still w (release_unheld_openfan env members w)"
proof -
  assume "pause_held env" "of_writes_paused w"
  then have "still w (release_channels env f chs w)" for f chs
    by (cases chs) (auto simp: still_def pause_held_def Let_def)
  then show ?thesis by (simp add: release_unheld_openfan_def)
qed

text \<open>C16: a diagnostic's fan is left alone. While the pause is held, by a diagnostic or by a firmware update,
  and as long as the other tasks leave the device alone, a write task of the engine sends nothing: no
  command, no put-back and no give-back reaches the device, and no outcome is recorded.\<close>

theorem paused_engine_writes_nothing:
  assumes "pause_held env" "of_writes_paused w" "openfan_write_task env t w = (rs, w')"
  shows "rs = [] \<and> ow_dev w' = ow_dev w"
proof -
  let ?w = "w\<lparr>ow_held := ow_held w \<union> set (filter (\<lambda>ch. ch < NUM_CHANNELS) (map fst (wt_chans t)))\<rparr>"
  have p: "of_writes_paused ?w" using assms(2) by (simp add: of_writes_paused_def)
  obtain r1 w1 where a: "write_commands env (wt_chans t) ?w = (r1, w1)" by (rule prod.exhaust)
  note s1 = paused_commands [OF assms(1) p a]
  obtain r2 w2 where b: "put_back_lost env (wt_put_back t) w1 = (r2, w2)" by (rule prod.exhaust)
  have p1: "of_writes_paused w1" using s1 by (simp add: still_def)
  note s2 = paused_put_back [OF assms(1) p1 b]
  let ?v = "if wt_put_back t \<noteq> [] then record_lost_duties env w2 else w2"
  have v: "of_writes_paused ?v" "ow_dev ?v = ow_dev w2"
    using assms(1) s2 by (auto simp: record_lost_duties_def Let_def still_def pause_held_def of_writes_paused_def)
  have g: "give_back_openfan env members ?v = ([], release_unheld_openfan env members ?v)" for members
    using paused_release [OF assms(1) v(1), of members]
    by (simp add: give_back_openfan_def give_back_pre_emergency_def still_def)
  show ?thesis
    using assms(3) a b s1 s2 v paused_release [OF assms(1) v(1)] g
    by (cases "wt_give_back t") (auto simp: openfan_write_task_def Let_def still_def)
qed

section \<open>The memory of lost duties\<close>

text \<open>Between two bumps of the generation no write gives a channel a lost duty.\<close>

lemma set_pwm_keeps_unlost:
  assumes "set_pwm now ex (invalidations n) c pct (fc, cache, dev) = (r, fc', cache', dev')" "oc_generation cache + n < 2 ^ 64"
  shows "oc_generation cache \<le> oc_generation cache' \<and> oc_generation cache' \<le> oc_generation cache + n \<and>
    (oc_generation cache' = oc_generation cache \<and> duty_before_loss cache fc ch = None \<longrightarrow> duty_before_loss cache' fc' ch = None)"
proof -
  let ?o = "observe_write_generation cache fc"
  have obs: "duty_before_loss cache fc ch = None \<Longrightarrow> duty_before_loss cache ?o ch = None" "fc_generation ?o = oc_generation cache"
    by (auto simp: duty_before_loss_def observe_write_generation_def get_channel_def opt_or_def split: option.splits)
  have none: "duty_before_loss k ?o ch = None \<Longrightarrow> oc_generation k' = oc_generation k \<Longrightarrow> oc_generation k = oc_generation cache \<Longrightarrow>
      (\<And>c. duty_before c = None \<Longrightarrow> duty_before (g c) = None) \<Longrightarrow> duty_before_loss k' (update_channel d g ?o) ch = None" for k k' g d
    using obs(2) by (cases "d = ch") (auto simp: duty_before_loss_def get_channel_def update_channel_def split: option.splits if_splits)
  have eff: "\<exists>g. fc' = update_channel c g ?o \<and> (\<forall>x. duty_before x = None \<longrightarrow> duty_before (g x) = None) \<and>
      oc_generation cache' = oc_generation (invalidations n cache) \<or> fc' = fc \<and> cache' = cache \<or> fc' = ?o \<and> cache' = cache"
  proof -
    have upd: "update_channel c g (update_channel c h ?o) = update_channel c (\<lambda>x. g (h x)) ?o" for g h
      by (cases "c < length (fc_channels ?o)") (simp_all add: update_channel_def list_update_beyond)
    show ?thesis
      using assms(1)
      by (auto simp: set_pwm_def Let_def upd track_failed_def track_landed_def split: if_splits sum.splits prod.splits option.splits
          intro!: exI)
  qed
  have gen: "oc_generation (invalidations n cache) = oc_generation cache + n" by (rule generation_after [OF assms(2)])
  show ?thesis using eff gen none [of cache cache'] obs(1) by auto
qed


definition unlost_from :: "u64 \<Rightarrow> u8 \<Rightarrow> FanController \<times> OpenfanCache \<times> 'dev \<Rightarrow> bool" where
  "unlost_from g ch = (\<lambda>(fc, cache, dev). g \<le> oc_generation cache \<and>
     (oc_generation cache = g \<longrightarrow> duty_before_loss cache fc ch = None))"

lemma exit_writes_unlost:
  assumes "oc_generation (fst (snd st)) < 2 ^ 64" "unlost_from g ch st"
  shows "unlost_from g ch (snd (fold (exit_write now ex quiet f) targets (ws, st))) \<and>
    oc_generation (fst (snd (snd (fold (exit_write now ex quiet f) targets (ws, st))))) = oc_generation (fst (snd st))"
  using assms
proof (induction targets arbitrary: ws st)
  case (Cons x xs)
  obtain c was where x: "x = (c, was)" by (rule prod.exhaust)
  obtain fc cache dev where st: "st = (fc, cache, dev)" by (rule prod_cases3)
  obtain r fc1 cache1 dev1 where s: "set_pwm now ex quiet c (exit_duty was f) (fc, cache, dev) = (r, fc1, cache1, dev1)"
    by (metis prod_cases4)
  have q: "invalidations 0 = quiet" by (simp add: invalidations_def quiet_def fun_eq_iff)
  note e = set_pwm_keeps_unlost [where n = 0, unfolded q, OF s]
  have g: "oc_generation cache1 = oc_generation cache" "unlost_from g ch (fc1, cache1, dev1)"
    using e [of ch] Cons.prems by (auto simp: st unlost_from_def)
  obtain ws1 where "exit_write now ex quiet f x (ws, st) = (ws1, fc1, cache1, dev1)"
    using x s st by (simp add: exit_write_def)
  then have step: "fold (exit_write now ex quiet f) (x # xs) (ws, st) =
      fold (exit_write now ex quiet f) xs (ws1, fc1, cache1, dev1)" by (simp only: fold_simps)
  show ?case unfolding step using Cons.IH [of "(fc1, cache1, dev1)" ws1] g Cons.prems(1) by (simp add: st)
qed simp

lemma fan_step_unlost:
  assumes "unlost_from g ch st" "oc_generation (fst (snd st)) + op_resets op < 2 ^ 64"
  shows "unlost_from g ch (fan_step ex op st) \<and>
    oc_generation (fst (snd (fan_step ex op st))) \<le> oc_generation (fst (snd st)) + op_resets op"
proof -
  obtain fc cache dev where st: "st = (fc, cache, dev)" by (rule prod_cases3)
  show ?thesis
  proof (cases op)
    case (FSet now c pct resets)
    obtain r fc1 cache1 dev1 where s: "set_pwm now (\<lambda>cmd dev. let (r, dev') = ex cmd dev in (r, after_resets resets dev'))
        (invalidations (length resets)) c pct (fc, cache, dev) = (r, fc1, cache1, dev1)" by (metis prod_cases4)
    have "oc_generation cache + length resets < 2 ^ 64" using assms(2) by (simp add: st FSet)
    from set_pwm_keeps_unlost [OF s this, of ch] show ?thesis using assms(1) s by (auto simp: st FSet unlost_from_def)
  next
    case (FReset dev')
    then show ?thesis using assms by (auto simp: st unlost_from_def invalidate_openfan_writes_def)
  next
    case (FExitFloor now f)
    let ?fc = "latch_exit_floor f (observe_write_generation cache fc)"
    have "unlost_from g ch (?fc, cache, dev)"
      using assms(1) by (auto simp: st unlost_from_def latch_exit_floor_def observe_write_generation_def duty_before_loss_def
          get_channel_def opt_or_def split: option.splits)
    from exit_writes_unlost [OF _ this] assms show ?thesis
      by (auto simp: st FExitFloor apply_exit_floor_def Let_def)
  qed
qed

lemma fan_fold_unlost:
  "unlost_from g ch st \<Longrightarrow> oc_generation (fst (snd st)) + sum_list (map op_resets ops) < 2 ^ 64 \<Longrightarrow>
     unlost_from g ch (fold (fan_step ex) ops st)"
proof (induction ops arbitrary: st)
  case (Cons op ops)
  have "oc_generation (fst (snd st)) + op_resets op < 2 ^ 64" using Cons.prems(2) by simp
  note s = fan_step_unlost [OF Cons.prems(1) this, of ex]
  show ?case using Cons.IH [OF conjunct1 [OF s]] s Cons.prems(2) by simp
qed simp

lemma bit_fold_mask: "bit (fold (\<lambda>ch m. m OR push_bit ch 1) chs m) k \<longleftrightarrow> bit m k \<or> k \<in> set chs \<and> k < 16"
  for m :: "16 word"
  by (induction chs arbitrary: m) (auto simp: bit_simps)

text \<open>Lemma: the shortcut misses no lost duty. Whatever happens to the controller after a task has recorded which
  channels hold a lost duty (writes, failed replies, reconnects in the middle of one, exit floors), a
  channel the record leaves out has none, so a tick that starts no task for it skips nothing.\<close>

theorem recorded_channels_suffice:
  assumes "w1 = record_lost_duties env w" "oc_generation (ow_cache w) \<le> oc_generation (ow_cache (oe_others env w))"
    and "(fc, cache, dev) = fold (fan_step ex) ops (ow_ctrl w1, ow_cache w1, ow_dev w1)"
    and "oc_generation (ow_cache w1) + sum_list (map op_resets ops) < 2 ^ 64" "ch < NUM_CHANNELS"
    and "w2 = w1\<lparr>ow_ctrl := fc, ow_cache := cache, ow_dev := dev\<rparr>" "\<not> bit (known_lost w2) ch"
  shows "of_before_loss w2 ch = None"
proof -
  let ?v = "oe_others env w"
  let ?g = "oc_generation (ow_cache w)"
  have w1: "ow_ctrl w1 = ow_ctrl ?v" "ow_cache w1 = ow_cache ?v" "ow_dev w1 = ow_dev ?v"
    "ow_lost_duties w1 = Some (?g, lost_mask ?v)"
    by (simp_all add: assms(1) record_lost_duties_def Let_def)
  have n: "ch < 16" using assms(5) by (simp add: NUM_CHANNELS_def)
  have k: "oc_generation cache = ?g" "\<not> bit (lost_mask ?v) ch"
    using assms(7) w1(4) n by (auto simp: known_lost_def assms(6) bit_simps split: if_splits)
  have "of_before_loss ?v ch = None"
    using k(2) n assms(5) unfolding lost_mask_def bit_fold_mask by auto
  then have "unlost_from ?g ch (ow_ctrl w1, ow_cache w1, ow_dev w1)"
    using assms(2) by (simp add: unlost_from_def w1 of_before_loss_def)
  from fan_fold_unlost [OF this, of ops ex] assms(4) have "unlost_from ?g ch (fc, cache, dev)"
    unfolding assms(3) by simp
  then show ?thesis using k(1) by (simp add: unlost_from_def of_before_loss_def assms(6))
qed

section \<open>Failure streaks and alarms\<close>

text \<open>The failures of a channel since its last success, over the outcomes in their order.\<close>

definition failing_for :: "u8 \<Rightarrow> of_outcome list \<Rightarrow> nat" where
  "failing_for ch outcomes = length (takeWhile isl (rev (map snd (filter (\<lambda>x. fst x = ch) outcomes))))"

definition streak_of :: "(u8, u32) hmap \<Rightarrow> u8 \<Rightarrow> u32" where
  "streak_of m ch = (case map_of m ch of Some k \<Rightarrow> k | None \<Rightarrow> 0)"

lemma failing_for_le: "failing_for ch os \<le> length os"
  unfolding failing_for_def by (metis length_filter_le length_map length_rev length_takeWhile_le le_trans)

lemma note_channel_map:
  "streak_of (snd (snd (note_channel x (al, okay, m)))) ch =
     (if fst x = ch then (case snd x of Inl _ \<Rightarrow> u32_inc (streak_of m ch) | Inr _ \<Rightarrow> 0) else streak_of m ch)"
  by (cases x) (auto simp: note_channel_def streak_of_def Let_def split: sum.split)

lemma note_channels_streak:
  "length os < 2 ^ 32 \<Longrightarrow> streak_of (snd (snd (fold note_channel os (al, okay, [])))) ch = failing_for ch os"
proof (induction os rule: rev_induct)
  case (snoc x os)
  obtain al' ok' m' where f: "fold note_channel os (al, okay, []) = (al', ok', m')" by (rule prod_cases3)
  then have "streak_of m' ch = failing_for ch os" using snoc by simp
  moreover have "failing_for ch os < 4294967295" using failing_for_le [of ch os] snoc.prems by simp
  ultimately show ?case
    using note_channel_map [of x al' ok' m' ch] by (cases x) (auto simp: f failing_for_def split: sum.split)
qed (simp add: streak_of_def failing_for_def)

lemma note_channel_keeps: "snd (snd (fold note_channel os (al, okay, m))) = snd (snd (fold note_channel os (al', okay', m)))"
proof (induction os arbitrary: al okay al' okay' m)
  case (Cons x os)
  obtain a b c where f: "note_channel x (al, okay, m) = (a, b, c)" by (rule prod_cases3)
  moreover obtain a' b' where "note_channel x (al', okay', m) = (a', b', c)"
    using f by (cases x) (auto simp: note_channel_def Let_def split: sum.splits)
  ultimately show ?case using Cons.IH [of a b c a' b'] by simp
qed simp

lemma failures_after:
  "ob_channel_failures (snd (of_note_outcomes os b)) = snd (snd (fold note_channel os (al, okay, ob_channel_failures b)))"
proof -
  obtain a o' m where "fold note_channel os ([], False, ob_channel_failures b) = (a, o', m)" by (rule prod_cases3)
  then show ?thesis
    using note_channel_keeps [of os "[]" False "ob_channel_failures b" al okay] by (auto simp: of_note_outcomes_def Let_def)
qed

lemma failures_after_batches:
  "ob_channel_failures (fold (\<lambda>os b. snd (of_note_outcomes os b)) batches (openfan_backend_new :: 'h OpenFanBackend)) =
     snd (snd (fold note_channel (concat batches) ([], False, [])))"
proof (induction batches rule: rev_induct)
  case (snoc os batches)
  obtain a o' m where f: "fold note_channel (concat batches) ([], False, []) = (a, o', m)" by (rule prod_cases3)
  let ?b = "fold (\<lambda>os b. snd (of_note_outcomes os b)) batches (openfan_backend_new :: 'h OpenFanBackend)"
  have "ob_channel_failures ?b = m" using snoc f by simp
  then show ?case using f by (simp add: failures_after [of os ?b a o'])
qed (simp add: openfan_backend_new_def)

lemma alarms_split:
  "\<exists>al'. fst (fold note_channel os (al, okay, m)) = al @ al' \<and> (\<forall>c n. ChannelNotResponding c n \<in> set al' \<longrightarrow> c \<in> fst ` set os)"
proof (induction os arbitrary: al okay m)
  case (Cons x os)
  obtain ch r where x: "x = (ch, r)" by (rule prod.exhaust)
  obtain al1 okay1 m1 where n: "note_channel x (al, okay, m) = (al1, okay1, m1)" by (rule prod_cases3)
  obtain al2 where a: "fst (fold note_channel os (al1, okay1, m1)) = al1 @ al2"
    "\<forall>c n. ChannelNotResponding c n \<in> set al2 \<longrightarrow> c \<in> fst ` set os" using Cons.IH by blast
  moreover obtain al3 where "al1 = al @ al3" "\<forall>c n. ChannelNotResponding c n \<in> set al3 \<longrightarrow> c = ch"
    using n by (auto simp: note_channel_def x Let_def split: sum.splits if_splits)
  ultimately show ?case using n by (intro exI [of _ "al3 @ al2"]) (auto simp: x)
qed simp

text \<open>C17: an unresponsive channel is reported once, and not masked by its neighbours. Over any history of
  batches, a batch with one outcome for the channel raises its alarm exactly when that outcome is the
  channel's fifth failure in a row, however the other channels fare.\<close>

theorem channel_alarm_is_exact:
  assumes "b = fold (\<lambda>os b. snd (of_note_outcomes os b)) batches openfan_backend_new"
    and "length (concat batches) + length pre < 2 ^ 32 - 1" "ch \<notin> fst ` set pre" "ch \<notin> fst ` set post"
  shows "ChannelNotResponding ch n \<in> set (fst (of_note_outcomes (pre @ (ch, r) # post) b)) \<longleftrightarrow>
    n = 5 \<and> isl r \<and> failing_for ch (concat batches) = 4"
proof -
  let ?os = "pre @ (ch, r) # post"
  obtain a0 o0 m0 where h: "fold note_channel (concat batches) ([], False, []) = (a0, o0, m0)" by (rule prod_cases3)
  have m0: "ob_channel_failures b = m0" using failures_after_batches [of batches] h by (simp add: assms(1))
  obtain al okay m where p: "fold note_channel pre ([], False, m0) = (al, okay, m)" by (rule prod_cases3)
  have "streak_of m ch = failing_for ch (concat batches @ pre)"
    using note_channels_streak [of "concat batches @ pre" "[]" False ch] assms(2) h
      note_channel_keeps [of pre a0 o0 m0 "[]" False] by (simp add: p)
  also have "\<dots> = failing_for ch (concat batches)"
  proof -
    have "filter (\<lambda>x. fst x = ch) pre = []" using assms(3) by (force simp: filter_empty_conv)
    then show ?thesis by (simp add: failing_for_def)
  qed
  finally have st: "streak_of m ch = failing_for ch (concat batches)" .
  have al: "ChannelNotResponding ch k \<notin> set al" for k
    using alarms_split [of pre "[]" False m0] p assms(3) by auto
  obtain al1 okay1 m1 where n: "note_channel (ch, r) (al, okay, m) = (al1, okay1, m1)" by (rule prod_cases3)
  have al1: "ChannelNotResponding ch n \<in> set al1 \<longleftrightarrow> n = 5 \<and> isl r \<and> streak_of m ch = 4"
  proof -
    have "streak_of m ch < 4294967295" using failing_for_le [of ch "concat batches"] assms(2) st by simp
    then show ?thesis
      using n al by (auto simp: note_channel_def Let_def streak_of_def OPENFAN_FAIL_ALERT_THRESHOLD_def split: sum.splits if_splits)
  qed
  have "fst (of_note_outcomes ?os b) = fst (fold note_channel post (al1, okay1, m1)) \<or>
      (\<exists>k j. fst (of_note_outcomes ?os b) = fst (fold note_channel post (al1, okay1, m1)) @ [LinkDown k j])"
    using p n by (auto simp: of_note_outcomes_def m0 Let_def split: prod.split)
  then have "ChannelNotResponding ch n \<in> set (fst (of_note_outcomes ?os b)) \<longleftrightarrow>
      ChannelNotResponding ch n \<in> set (fst (fold note_channel post (al1, okay1, m1)))" by auto
  also have "\<dots> \<longleftrightarrow> ChannelNotResponding ch n \<in> set al1"
    using alarms_split [of post al1 okay1 m1] assms(4) by (metis Un_iff set_append)
  finally show ?thesis using al1 st by simp
qed


section \<open>Runs on a device that answers\<close>

definition plain_env :: "(u8 \<Rightarrow> u8) OfEnv" where
  "plain_env = \<lparr>oe_exchange = plain_device, oe_during = \<lambda>_. quiet, oe_others = \<lambda>w. w\<rparr>"

text \<open>Channel 3 runs at 40 and is the engine's.\<close>

definition fresh_world :: "(u8 \<Rightarrow> u8) OfWorld" where
  "fresh_world = \<lparr>ow_now = 1, ow_ctrl = controller_new, ow_cache = cache_new, ow_state = daemon_state_default, ow_exit_floor = 50,
     ow_dev = \<lambda>_. 0, ow_pre_emergency = None, ow_held = {3}, ow_failure_logged = {}, ow_lost_duties = None,
     ow_force_suspended = False\<rparr>"

definition running_world :: "(u8 \<Rightarrow> u8) OfWorld" where
  "running_world = snd (of_set_pwm plain_env 3 40 fresh_world)"

definition give_back_task :: OfWrite where
  "give_back_task = \<lparr>wt_chans = [], wt_put_back = [], wt_give_back = Some {1}\<rparr>"

lemma plain_calm: "of_calm g plain_env (\<lambda>dev. dev)"
  by (simp add: of_calm_def plain_env_def plain_device_applies of_steps_refl)

lemma fresh_inv: "of_inv (\<lambda>dev. dev) fresh_world" "\<not> of_writes_paused fresh_world"
  by (simp_all add: of_inv_def fresh_world_def fan_inv_new)
     (simp_all add: controller_new_def cache_new_def channel_default_def list_all_iff of_writes_paused_def
      openfan_writes_paused_def verify_active_at_def openfan_writes_suspended_def daemon_state_default_def)

lemma running_runs: "fst (of_set_pwm plain_env 3 40 fresh_world) = Inr ()"
  by code_simp

lemma plain_write_ok:
  "of_inv (\<lambda>dev. dev) w \<Longrightarrow> ch < NUM_CHANNELS \<Longrightarrow> pct \<le> 100 \<Longrightarrow> fst (of_set_pwm plain_env ch pct w) = Inr ()"
proof -
  assume inv: "of_inv (\<lambda>dev. dev) w" and v: "ch < NUM_CHANNELS" "pct \<le> 100"
  then have fi: "fan_inv (\<lambda>dev. dev) (ow_ctrl w, ow_cache w, ow_dev w)" by (simp add: of_inv_def)
  show "fst (of_set_pwm plain_env ch pct w) = Inr ()"
    unfolding of_set_pwm_def plain_env_def OfEnv.simps set_pwm_valid [OF fi v] by simp
qed

lemma plain_return_ok:
  "of_inv (\<lambda>dev. dev) w \<Longrightarrow> \<not> shut PauseGate w \<Longrightarrow> f \<le> 100 \<Longrightarrow> fst ` set ps \<subseteq> {..<NUM_CHANNELS} \<Longrightarrow>
    \<forall>x \<in> set (fst (return_duties plain_env members f duties ps w)). snd x = Inr ()"
proof (induction ps arbitrary: w)
  case (Cons cd ps)
  obtain ch d where cd: "cd = (ch, d)" by (rule prod.exhaust)
  have others: "oe_others plain_env w = w" by (simp add: plain_env_def)
  show ?case
  proof (cases "returnable members f ch d")
    case None
    then show ?thesis using Cons.IH [OF Cons.prems(1-3)] Cons.prems(4) by (simp add: cd)
  next
    case (Some p)
    then have "p \<le> 100" using exit_duty_bounds [OF Cons.prems(3)] by (auto simp: returnable_def split: option.splits if_splits)
    moreover obtain r w1 where s: "of_set_pwm plain_env ch p w = (r, w1)" by (rule prod.exhaust)
    ultimately have "r = Inr ()" using plain_write_ok [OF Cons.prems(1)] Cons.prems(4) cd by (metis fst_conv image_eqI insert_iff lessThan_iff list.set(2) subsetD)
    moreover note e = of_set_pwm_effect(1) [OF plain_calm Cons.prems(1,2) s]
    obtain rs1 w2 where l: "return_duties plain_env members f duties ps w1 = (rs1, w2)" by (rule prod.exhaust)
    ultimately show ?thesis
      using Cons.IH [OF of_stepsD(1,2) [OF e] Cons.prems(3)] Cons.prems(2,4) Some s others by (simp add: cd l Let_def)
  qed
qed simp

lemma running_facts:
  "of_inv (\<lambda>dev. dev) running_world" "\<not> of_writes_paused running_world" "ow_pre_emergency running_world = None"
  "ow_held running_world = {3}" "ow_exit_floor running_world = 50" "of_last_known running_world 3 = Some 40"
proof -
  obtain r w where s: "of_set_pwm plain_env 3 40 fresh_world = (r, w)" by (rule prod.exhaust)
  then have r: "r = Inr ()" and w: "running_world = w" using running_runs by (simp_all add: running_world_def)
  have np: "\<not> shut PauseGate fresh_world" using fresh_inv(2) by simp
  note e = of_set_pwm_effect [OF plain_calm fresh_inv(1) np s]
  from of_stepsD(1-3) [OF e(1)] e(2-4) r w
  show "of_inv (\<lambda>dev. dev) running_world" "\<not> of_writes_paused running_world" "ow_pre_emergency running_world = None"
    "ow_held running_world = {3}" "ow_exit_floor running_world = 50" "of_last_known running_world 3 = Some 40"
    by (simp_all add: fresh_world_def)
qed

text \<open>Two forced ticks and the give-back after them.\<close>

definition forced_world :: "(u8 \<Rightarrow> u8) OfWorld" where
  "forced_world = fold (force_tick plain_env) [(100, []), (100, [])] running_world"

lemma give_back_succeeds:
  assumes "of_inv (\<lambda>dev. dev) w" "\<not> of_writes_paused w" "ow_held w \<subseteq> {..<NUM_CHANNELS}" "ow_exit_floor w \<le> 100"
    "openfan_write_task plain_env give_back_task w = (rs, w')"
  shows "\<forall>r. (ch, r) \<in> set rs \<longrightarrow> r = Inr ()"
proof -
  let ?u = "release_unheld_openfan plain_env {1} w"
  have np: "\<not> shut PauseGate w" using assms(2) by simp
  note r = release_unheld_steps(1) [OF plain_calm assms(1) np assms(3,4), where members = "{1}"]
  have t: "give_back_pre_emergency plain_env {1} ?u = (rs, w')"
    using assms(5) by (simp add: openfan_write_task_def give_back_task_def Let_def give_back_openfan_def split: prod.splits)
  show ?thesis
  proof (cases "ow_pre_emergency ?u")
    case None
    then show ?thesis using t of_stepsD(2) [OF r] by (simp add: give_back_pre_emergency_def)
  next
    case (Some duties)
    have "rs = fst (return_duties plain_env {1} (ow_exit_floor ?u) duties (zip [0..<NUM_CHANNELS] duties) (?u\<lparr>ow_pre_emergency := None\<rparr>))"
      using t of_stepsD(2) [OF r] Some by (simp add: give_back_pre_emergency_def)
    moreover have s: "of_steps PauseGate (\<lambda>dev. dev) UNIV w (?u\<lparr>ow_pre_emergency := None\<rparr>)" using of_steps_mono [OF r] by simp
    moreover have "fst ` set (zip [0..<NUM_CHANNELS] duties) \<subseteq> {..<NUM_CHANNELS}" by (auto dest: set_zip_leftD)
    ultimately show ?thesis
      using plain_return_ok [OF of_stepsD(1,2) [OF s], of "ow_exit_floor ?u"] of_stepsD(3) [OF r] assms(4) by fastforce
  qed
qed

lemma three: "(3 :: nat) \<notin> {1}"
  by simp

theorem emergency_duties_come_back_witness:
  "ow_dev (snd (openfan_write_task plain_env give_back_task forced_world)) 3 = percent_to_raw 50"
proof -
  note f = running_facts
  obtain rs w' where t: "openfan_write_task plain_env give_back_task forced_world = (rs, w')" by (rule prod.exhaust)
  have np: "\<not> shut PauseGate running_world" using f(2) by simp
  have s: "of_steps PauseGate (\<lambda>dev. dev) UNIV running_world forced_world" "ow_held forced_world = {3}"
    using force_run [OF plain_calm f(1) np, of "[(100, []), (100, [])]"] f(4) by (simp_all add: forced_world_def)
  have ok: "\<forall>r. (3, r) \<in> set rs \<longrightarrow> r = Inr ()"
    by (rule give_back_succeeds [OF of_stepsD(1) [OF s(1)] _ _ _ t])
       (use of_stepsD(2,3) [OF s(1)] s(2) f(5) in \<open>simp_all add: NUM_CHANNELS_def\<close>)
  have "ow_dev w' 3 = percent_to_raw (exit_duty (Some 40) (ow_exit_floor running_world)) \<and> ow_pre_emergency w' = None"
    by (rule emergency_duties_come_back [OF plain_calm f(1-3) _ _ _ _ _ t [unfolded forced_world_def] _ three f(6) ok])
       (simp_all add: f NUM_CHANNELS_def give_back_task_def)
  then show ?thesis using t f(5) by (simp add: exit_duty_def)
qed

theorem released_channels_keep_the_floor_witness:
  "case snd (openfan_write_task plain_env give_back_task running_world) of w' \<Rightarrow>
     3 \<in> ow_held w' \<or> at_or_above (\<lambda>dev. dev) 50 w' 3"
proof -
  note f = running_facts
  obtain rs w' where t: "openfan_write_task plain_env give_back_task running_world = (rs, w')" by (rule prod.exhaust)
  have ok: "\<forall>r. (3, r) \<in> set rs \<longrightarrow> r = Inr ()"
    by (rule give_back_succeeds [OF f(1,2) _ _ t]) (simp_all add: f NUM_CHANNELS_def)
  have "3 \<in> ow_held w' \<or> at_or_above (\<lambda>dev. dev) (ow_exit_floor running_world) w' 3"
    by (rule released_channels_keep_the_floor [OF plain_calm f(1,2) _ _ _ _ _ t _ three ok])
       (simp_all add: f NUM_CHANNELS_def give_back_task_def)
  then show ?thesis using t f(5) by simp
qed

text \<open>A thread that moves every channel and wipes the backend's slots whenever it gets the chance.\<close>

definition meddling_env :: "(u8 \<Rightarrow> u8) OfEnv" where
  "meddling_env = plain_env\<lparr>oe_others := (\<lambda>w. w\<lparr>ow_dev := (\<lambda>_. 7), ow_exit_floor := 0, ow_held := {}, ow_pre_emergency := None,
     ow_ctrl := controller_new\<rparr>)\<rparr>"

lemma plain_force_ok:
  assumes "ft_pct t \<le> 100" "ft_floors t = []" "ft_held t = {}"
  shows "of_inv (\<lambda>dev. dev) w \<Longrightarrow> \<not> shut SuspendGate w \<Longrightarrow> list_all (\<lambda>ch. ch < NUM_CHANNELS) chs \<Longrightarrow>
    force_channels plain_env t chs w = (sus, att, w') \<Longrightarrow> list_all (\<lambda>(ch, d, r). r = Inr ()) att"
proof (induction chs arbitrary: w sus att w')
  case (Cons ch chs)
  have others: "oe_others plain_env w = w" by (simp add: plain_env_def)
  have d: "forced_duty t ch w = ft_pct t" by (simp add: forced_duty_def assms)
  obtain r w1 where s: "of_set_pwm plain_env ch (ft_pct t) w = (r, w1)" by (rule prod.exhaust)
  have r: "r = Inr ()" using plain_write_ok [OF Cons.prems(1) _ assms(1), of ch] Cons.prems(3) s by simp
  note e = of_set_pwm_effect(1) [OF plain_calm Cons.prems(1,2) s]
  obtain sus1 att1 w2 where l: "force_channels plain_env t chs w1 = (sus1, att1, w2)" by (rule prod_cases3)
  have "list_all (\<lambda>(ch, d, r). r = Inr ()) att1"
    using Cons.IH [OF of_stepsD(1,2) [OF e] _ l] Cons.prems(3) by simp
  moreover have "att = (ch, ft_pct t, r) # att1" using Cons.prems(2,4) s l by (simp add: Let_def others d)
  ultimately show ?case using r by simp
qed simp

lemma force_succeeds:
  assumes "of_inv (\<lambda>dev. dev) w" "\<not> openfan_writes_suspended (ow_state w)"
    and "openfan_force_task plain_env (openfan_force_of 100 [] ReachAll) w = (att, rs, w')"
  shows "list_all (\<lambda>(ch, d, r). r = Inr ()) att"
proof -
  let ?t = "openfan_force_of 100 [] ReachAll" and ?v = "record_pre_emergency plain_env w"
  have np: "\<not> shut SuspendGate w" using assms(2) by simp
  note s = record_snapshot_steps(1) [OF plain_calm assms(1) np]
  have t: "ft_record_snapshot ?t" "ft_give_back ?t = None" "ft_targets ?t = [0..<NUM_CHANNELS]" "ft_pct ?t = 100"
    "ft_floors ?t = []" "ft_held ?t = {}"
    by (simp_all add: openfan_force_of_def openfan_commands_def hm_collect_def)
  obtain sus a u where l: "force_channels plain_env ?t (ft_targets ?t) ?v = (sus, a, u)" by (rule prod_cases3)
  have "att = a" using assms(3) l unfolding openfan_force_task_def Let_def by (simp add: t)
  then show ?thesis
    using plain_force_ok [OF _ t(5,6) of_stepsD(1,2) [OF s] _ l] t(3,4) by (simp add: list_all_iff)
qed

theorem emergency_reaches_every_channel_witness:
  "map fst (fst (openfan_force_task meddling_env (openfan_force_of 100 [] ReachAll) running_world)) = [0..<NUM_CHANNELS] \<and>
   (case openfan_force_task plain_env (openfan_force_of 100 [] ReachAll) running_world of
      (attempts, results, w') \<Rightarrow> list_all (\<lambda>(ch, d, r). 100 \<le> d \<and> ow_dev w' ch = percent_to_raw d) attempts)"
proof -
  have ns: "\<not> openfan_writes_suspended (ow_state running_world)" using pause_covers_suspension [OF running_facts(2)] .
  have never: "never_suspends meddling_env" "never_suspends plain_env"
    by (simp_all add: never_suspends_def meddling_env_def plain_env_def)
  obtain a1 r1 w1 where t1: "openfan_force_task meddling_env (openfan_force_of 100 [] ReachAll) running_world = (a1, r1, w1)"
    by (rule prod_cases3)
  obtain a2 r2 w2 where t2: "openfan_force_task plain_env (openfan_force_of 100 [] ReachAll) running_world = (a2, r2, w2)"
    by (rule prod_cases3)
  have ok: "list_all (\<lambda>(ch, d, r). r = Inr ()) a2"
    using force_succeeds [OF running_facts(1) ns t2] .
  note e = emergency_reaches_every_channel [OF never(2) ns t2, of "\<lambda>dev. dev"]
  have "list_all (\<lambda>(ch, d, r). 100 \<le> d \<and> ow_dev w2 ch = percent_to_raw d) a2"
    unfolding list_all_iff
  proof (rule ballI)
    fix x assume x: "x \<in> set a2"
    obtain ch d r where c: "x = (ch, d, r)" by (rule prod_cases3)
    have "r = Inr ()" using ok x c by (auto simp: list_all_iff)
    then show "case x of (ch, d, r) \<Rightarrow> 100 \<le> d \<and> ow_dev w2 ch = percent_to_raw d"
      using e plain_calm running_facts(1) x c by fastforce
  qed
  moreover have "map fst a1 = [0..<NUM_CHANNELS]" using emergency_reaches_every_channel [OF never(1) ns t1] by blast
  ultimately show ?thesis by (simp only: t1 t2 fst_conv prod.case simp_thms)
qed

definition paused_world :: "(u8 \<Rightarrow> u8) OfWorld" where
  "paused_world = fresh_world\<lparr>ow_state := daemon_state_default\<lparr>ds_verify_in_progress := True, ds_verify_active_until := Some 9\<rparr>\<rparr>"

theorem paused_engine_writes_nothing_witness:
  "fst (openfan_write_task plain_env \<lparr>wt_chans = [(3, 80)], wt_put_back = [], wt_give_back = None\<rparr> paused_world) = []"
proof -
  have p: "pause_held plain_env" by (simp add: pause_held_def plain_env_def)
  have q: "of_writes_paused paused_world"
    by (simp add: of_writes_paused_def paused_world_def fresh_world_def openfan_writes_paused_def verify_active_at_def)
  show ?thesis
    using paused_engine_writes_nothing [OF p q prod.collapse [symmetric],
        of "\<lparr>wt_chans = [(3, 80)], wt_put_back = [], wt_give_back = None\<rparr>"] by blast
qed

theorem recorded_channels_suffice_witness:
  "of_before_loss (record_lost_duties plain_env running_world) 5 = None"
proof -
  let ?w = "record_lost_duties plain_env running_world"
  have o: "oe_others plain_env running_world = running_world" by (simp add: plain_env_def)
  have none: "of_before_loss running_world 5 = None" by code_simp
  have l: "\<not> bit (known_lost ?w) 5"
    using none unfolding known_lost_def record_lost_duties_def Let_def o by (simp add: lost_mask_def bit_fold_mask del: push_bit_of_1)
  have g: "oc_generation (ow_cache ?w) + sum_list (map op_resets ([] :: (u8 \<Rightarrow> u8) FanOp list)) < 2 ^ 64"
    using running_facts(1) by (simp add: record_lost_duties_def Let_def o of_inv_def)
  show ?thesis
  proof (rule recorded_channels_suffice [OF refl _ _ g _ _ l, where ex = plain_device])
    show "?w = ?w\<lparr>ow_ctrl := ow_ctrl ?w, ow_cache := ow_cache ?w, ow_dev := ow_dev ?w\<rparr>" by (rule OfWorld.equality) simp_all
  qed (simp_all add: o NUM_CHANNELS_def)
qed

definition bad_batch :: "of_outcome list" where
  "bad_batch = [(2, Inl (ValidationError [])), (1, Inr ())]"

theorem channel_alarm_is_exact_witness:
  "ChannelNotResponding 2 5 \<in> set (fst (of_note_outcomes ([(1, Inr ())] @ (2, Inl (ValidationError [])) # [])
     (fold (\<lambda>os b. snd (of_note_outcomes os b)) [bad_batch, bad_batch, bad_batch, bad_batch]
       (openfan_backend_new :: nat OpenFanBackend))))"
proof -
  let ?bs = "[bad_batch, bad_batch, bad_batch, bad_batch]"
  have f: "failing_for 2 (concat ?bs) = 4" by (simp add: failing_for_def bad_batch_def)
  have "length (concat ?bs) + length ([(1, Inr ())] :: of_outcome list) < 2 ^ 32 - 1" by (simp add: bad_batch_def)
  from channel_alarm_is_exact [OF refl this, where ch = 2 and post = "[]" and n = 5 and r = "Inl (ValidationError [])"] f
  show ?thesis by (auto simp del: fold_simps)
qed

end
