(* ===== verification/Hwmon_Backend.thy ===== *)
theory Hwmon_Backend
  imports Bounded_Write Force_Scope Hwmon_Control
begin

text \<open>
  The engine's hwmon backend (\<open>HwmonBackend\<close> of \<open>profile_engine/backends.rs\<close>) over the controller of
  \<open>Hwmon_Control\<close>. Its blocking tasks lock the controller per header; \<open>he_others\<close> is what the rest of the
  daemon does each time the lock is free, a diagnostic that force-takes the lease included. The clock is
  read from the outside world. The attempts of a force, which the code only logs, are returned.
\<close>

record 'w HbEnv =
  he_host :: "'w Host"
  he_now :: "'w \<Rightarrow> instant"
  he_others :: "'w hw \<Rightarrow> 'w hw"

type_synonym hb_outcome = "string \<times> (HwmonControlError + unit)"

definition hb_set_pwm :: "'w HbEnv \<Rightarrow> string \<Rightarrow> u8 \<Rightarrow> string \<Rightarrow> 'w hw \<Rightarrow> (HwmonControlError + unit) \<times> 'w hw" where
  "hb_set_pwm env i pct lid = (\<lambda>(c, cache, w).
     case hw_set_pwm (he_host env) (he_now env w) i pct lid (c, cache, w) of (r, st) \<Rightarrow> (map_sum id (\<lambda>_. ()) r, st))"

definition on_leases :: "(LeaseManager \<Rightarrow> 'a \<times> LeaseManager) \<Rightarrow> 'w hw \<Rightarrow> 'a \<times> 'w hw" where
  "on_leases f = (\<lambda>(c, cache, w). case f (hw_lease_manager c) of (r, m) \<Rightarrow> (r, c\<lparr>hw_lease_manager := m\<rparr>, cache, w))"

section \<open>Giving headers back\<close>

definition unnamed :: "string set \<Rightarrow> string list \<Rightarrow> string list" where
  "unnamed members ids = filter (\<lambda>i. i \<notin> members) ids"

definition has_unheld :: "'w HbEnv \<Rightarrow> string set \<Rightarrow> 'w hw \<Rightarrow> bool" where
  "has_unheld env members = (\<lambda>(c, cache, w).
     list_ex (\<lambda>i. i \<notin> members) (taken_ids (hw_handback c) @ releasable_no_mode (he_now env w) c cache))"

definition release_one :: "'w HbEnv \<Rightarrow> string \<Rightarrow> string \<Rightarrow> 'w hw \<Rightarrow> 'w hw" where
  "release_one env lid i = (\<lambda>(c, cache, w).
     case release_no_mode (he_host env) (he_now env w) i lid (c, cache, w) of
       (Inr (Some (NmFailed to e)), (c, cache, w)) \<Rightarrow> (snd (note_release_failed i c), cache, w)
     | (_, st) \<Rightarrow> st)"

definition hand_back_one :: "'w HbEnv \<Rightarrow> string \<Rightarrow> string \<Rightarrow> 'w hw \<Rightarrow> 'w hw" where
  "hand_back_one env lid i = (\<lambda>(c, cache, w).
     case hw_hand_back (he_host env) (he_now env w) i lid (c, cache, w) of
       (Inr (Some HandBackFailed), (c, cache, w)) \<Rightarrow>
         (c\<lparr>hw_handback := snd (note_hand_back_failed i (hw_handback c))\<rparr>, cache, w)
     | (_, st) \<Rightarrow> st)"

definition give_back_unheld :: "'w HbEnv \<Rightarrow> string \<Rightarrow> string set \<Rightarrow> 'w hw \<Rightarrow> 'w hw" where
  "give_back_unheld env lid members st =
     (case he_others env st of (c, cache, w) \<Rightarrow>
        let unheld = unnamed members (taken_ids (hw_handback c));
            unheld_no_mode = unnamed members (releasable_no_mode (he_now env w) c cache);
            st = fold (\<lambda>i st. release_one env lid i (he_others env st)) unheld_no_mode (c, cache, w)
        in fold (\<lambda>i st. hand_back_one env lid i (he_others env st)) unheld st)"

section \<open>The write task\<close>

text \<open>The engine's own lease or a thermal one is reused, a diagnostic's never.\<close>

definition acquire_lease :: "instant \<Rightarrow> LeaseManager \<Rightarrow> string option \<times> LeaseManager" where
  "acquire_lease now m =
     (case active_lease now m of
        Some lease \<Rightarrow>
          if lease_owner lease \<noteq> WriterVerify then (Some (lease_id lease), m)
          else (case take_lease now WriterEngine m of (Inr l, m) \<Rightarrow> (Some (lease_id l), m) | (Inl _, m) \<Rightarrow> (None, m))
      | None \<Rightarrow> (case take_lease now WriterEngine m of (Inr l, m) \<Rightarrow> (Some (lease_id l), m) | (Inl _, m) \<Rightarrow> (None, m)))"

fun write_headers :: "'w HbEnv \<Rightarrow> string \<Rightarrow> (string \<times> u8) list \<Rightarrow> 'w hw \<Rightarrow> hb_outcome list \<times> 'w hw" where
  "write_headers env lid [] st = ([], st)"
| "write_headers env lid ((i, pct) # cs) st =
     (let st = he_others env st in
      if (case map_of (hw_headers (fst st)) i of Some h \<Rightarrow> \<not> hd_is_writable h | None \<Rightarrow> False)
      then write_headers env lid cs st
      else case hb_set_pwm env i pct lid st of (r, st) \<Rightarrow>
        (case write_headers env lid cs st of (rs, st) \<Rightarrow> ((i, r) # rs, st)))"

text \<open>Phase 3: a task that commanded nothing gives its lease up.\<close>

definition keep_or_release :: "'w HbEnv \<Rightarrow> string \<Rightarrow> bool \<Rightarrow> 'w hw \<Rightarrow> 'w hw" where
  "keep_or_release env lid commanded_nothing = (\<lambda>(c, cache, w).
     if commanded_nothing then snd (on_leases (release_lease lid) (c, cache, w))
     else snd (on_leases (renew_lease (he_now env w) lid) (c, cache, w)))"

record HbWrite =
  hb_cmds :: "(string \<times> u8) list"
  hb_give_back :: "string set option"

definition hwmon_write_task :: "'w HbEnv \<Rightarrow> HbWrite \<Rightarrow> 'w hw \<Rightarrow> hb_outcome list \<times> 'w hw" where
  "hwmon_write_task env t st =
     (let st = he_others env st in
      case on_leases (acquire_lease (he_now env (snd (snd st)))) st of (lease, st) \<Rightarrow>
      case lease of
        None \<Rightarrow> ([], st)
      | Some lid \<Rightarrow>
          (case write_headers env lid (hb_cmds t) st of (outcomes, st) \<Rightarrow>
             let st = (case hb_give_back t of Some members \<Rightarrow> give_back_unheld env lid members st | None \<Rightarrow> st)
             in (outcomes, keep_or_release env lid (hb_cmds t = []) (he_others env st))))"

section \<open>The force task\<close>

record HbForce =
  hf_pct :: u8
  hf_members :: "string set option"
  hf_give_back :: bool
  hf_held :: "string set"
  hf_floors :: "(string, u8) hmap"

definition thermal_take :: "'w HbEnv \<Rightarrow> 'w hw \<Rightarrow> string \<times> 'w hw" where
  "thermal_take env st =
     (case on_leases (force_take_lease (he_now env (snd (snd st))) WriterThermalSafety) st of (lease, (c, cache, w)) \<Rightarrow>
        (lease_id lease, forget_manual_mode c, cache, w))"

definition hb_forced_duty :: "HbForce \<Rightarrow> (string, u8) hmap \<Rightarrow> string \<Rightarrow> u8" where
  "hb_forced_duty t held_duties i =
     fold max ((case map_of (hf_floors t) i of Some p \<Rightarrow> [p] | None \<Rightarrow> []) @
               (case map_of held_duties i of Some p \<Rightarrow> [p] | None \<Rightarrow> [])) (hf_pct t)"

text \<open>One header: a write that lost its lease to another take takes it back and is made again, under one lock.\<close>

definition force_header :: "'w HbEnv \<Rightarrow> string \<Rightarrow> u8 \<Rightarrow> string \<Rightarrow> 'w hw \<Rightarrow> (HwmonControlError + unit) \<times> string \<times> 'w hw" where
  "force_header env i duty lid st =
     (case hb_set_pwm env i duty lid st of
        (Inl (HeLease _), st) \<Rightarrow>
          (case thermal_take env st of (lid, st) \<Rightarrow>
             (case hb_set_pwm env i duty lid st of (r, st) \<Rightarrow> (r, lid, st)))
      | (r, st) \<Rightarrow> (r, lid, st))"

fun force_headers :: "'w HbEnv \<Rightarrow> HbForce \<Rightarrow> (string, u8) hmap \<Rightarrow> string list \<Rightarrow> string \<Rightarrow> 'w hw \<Rightarrow>
    (string \<times> u8 \<times> (HwmonControlError + unit)) list \<times> string \<times> 'w hw" where
  "force_headers env t held_duties [] lid st = ([], lid, st)"
| "force_headers env t held_duties (i # ids) lid st =
     (let duty = hb_forced_duty t held_duties i in
      case force_header env i duty lid (he_others env st) of (r, lid, st) \<Rightarrow>
        (case force_headers env t held_duties ids lid st of (att, lid, st) \<Rightarrow> ((i, duty, r) # att, lid, st)))"

definition force_targets :: "HbForce \<Rightarrow> HwmonPwmController \<Rightarrow> string list" where
  "force_targets t c =
     (case hf_members t of
        None \<Rightarrow> forced_target_ids c
      | Some m \<Rightarrow> filter (\<lambda>i. i \<in> m) (forced_target_ids c))"

text \<open>The duties of the held headers, as a map read under the lock.\<close>

definition held_duties_of :: "string set \<Rightarrow> HwmonPwmController \<Rightarrow> (string, u8) hmap" where
  "held_duties_of held c =
     List.map_filter (\<lambda>i. map_option (Pair i) (hw_last_commanded_pct c i)) (sorted_list_of_set held)"

definition hwmon_force_task :: "'w HbEnv \<Rightarrow> HbForce \<Rightarrow> 'w hw \<Rightarrow>
    (string \<times> u8 \<times> (HwmonControlError + unit)) list \<times> 'w hw" where
  "hwmon_force_task env t st =
     (let st = he_others env st;
          held_duties = held_duties_of (hf_held t) (fst st);
          ids = force_targets t (fst st)
      in if (case hf_members t of Some m \<Rightarrow> ids = [] \<and> \<not> (hf_give_back t \<and> has_unheld env m st) | None \<Rightarrow> False)
         then ([], st)
         else case thermal_take env st of (lid, st) \<Rightarrow>
           (case force_headers env t held_duties ids lid st of (att, lid, st) \<Rightarrow>
              (att, case hf_members t of
                      Some m \<Rightarrow> if hf_give_back t then give_back_unheld env lid m st else st
                    | None \<Rightarrow> st)))"

section \<open>The async side\<close>

definition HWMON_FAIL_SUMMARY_INTERVAL :: u32 where
  "HWMON_FAIL_SUMMARY_INTERVAL = 300"

record 'h HwmonBackend =
  hb_member_failures :: "(string, u32) hmap"
  hb_writes :: "'h BoundedWrite"
  hb_stall_logged :: bool
  hb_writable :: "string set option"
  hb_facts :: "(string, HeaderFacts) hmap option"

definition measure_header_facts :: "HwmonPwmController \<Rightarrow> (string, HeaderFacts) hmap" where
  "measure_header_facts c =
     hm_collect (map (\<lambda>h. (hd_id h, \<lparr>hf_pwm_mode = hd_pwm_mode h, hf_inferred_role = (hd_role h, hd_role_source h)\<rparr>)) (hwmon_headers c))"

text \<open>\<open>locked\<close> says that the controller's lock could not be had (in time, or at once).\<close>

definition hwmon_backend_new :: "bool \<Rightarrow> HwmonPwmController \<Rightarrow> 'h HwmonBackend option" where
  "hwmon_backend_new locked c =
     (let writable = (if locked then None else Some (set (forced_target_ids c)));
          facts = (if locked then None else Some (measure_header_facts c));
          has_writable_header = (case writable of Some ids \<Rightarrow> ids \<noteq> {} | None \<Rightarrow> True)
      in if \<not> has_writable_header then None
         else Some \<lparr>hb_member_failures = [], hb_writes = bounded_default, hb_stall_logged = False,
                    hb_writable = writable, hb_facts = facts\<rparr>)"

definition header_facts :: "bool \<Rightarrow> HwmonPwmController \<Rightarrow> 'h HwmonBackend \<Rightarrow> (string, HeaderFacts) hmap \<times> 'h HwmonBackend" where
  "header_facts locked c b =
     (let b = (if hb_facts b = None \<and> \<not> locked then b\<lparr>hb_facts := Some (measure_header_facts c)\<rparr> else b)
      in (case hb_facts b of Some f \<Rightarrow> f | None \<Rightarrow> [], b))"

definition hwmon_delivery_targets :: "'h HwmonBackend \<Rightarrow> HwmonTargets" where
  "hwmon_delivery_targets b = (case hb_writable b of Some ids \<Rightarrow> HwmonWritable ids | None \<Rightarrow> HwmonUnmeasured)"

definition may_give_back :: "'w HbEnv \<Rightarrow> bool \<Rightarrow> ProfileMembers \<Rightarrow> 'w hw \<Rightarrow> bool" where
  "may_give_back env locked members st = (locked \<or> has_unheld env (pm_hwmon members) st)"

datatype HbLog = HbFailed string | HbStillFailing string u32 | HbRecovered string u32

definition hb_note_member :: "hb_outcome \<Rightarrow> HbLog list \<times> (string, u32) hmap \<Rightarrow> HbLog list \<times> (string, u32) hmap" where
  "hb_note_member = (\<lambda>(i, res) (lg, m).
     case res of
       Inl e \<Rightarrow>
         let n = u32_inc (case map_of m i of Some k \<Rightarrow> k | None \<Rightarrow> 0) in
         (lg @ (if n = 1 then [HbFailed i] else if n mod HWMON_FAIL_SUMMARY_INTERVAL = 0 then [HbStillFailing i n] else []),
          hm_insert i n m)
     | Inr _ \<Rightarrow> (lg @ (case map_of m i of Some prev \<Rightarrow> [HbRecovered i prev] | None \<Rightarrow> []), hm_remove i m))"

definition hb_note_outcomes :: "hb_outcome list \<Rightarrow> 'h HwmonBackend \<Rightarrow> HbLog list \<times> 'h HwmonBackend" where
  "hb_note_outcomes results b =
     (case fold hb_note_member results ([], hb_member_failures b) of (lg, m) \<Rightarrow> (lg, b\<lparr>hb_member_failures := m\<rparr>))"

definition hb_note_joins :: "hb_outcome list option list \<Rightarrow> 'h HwmonBackend \<Rightarrow> 'h HwmonBackend" where
  "hb_note_joins joined b = fold (\<lambda>j b. case j of Some rs \<Rightarrow> snd (hb_note_outcomes rs b) | None \<Rightarrow> b) joined b"

definition HWMON_JOIN_BUDGET :: duration where
  "HWMON_JOIN_BUDGET = secs 1"

datatype HbTask = HbWriteTask HbWrite | HbForceTask HbForce

type_synonym ('h, 'w, 'q) hb_runtime = "(HbTask, 'h, hb_outcome list option, 'w hw \<times> 'q) Runtime"

definition hwmon_commands :: "PwmCommand list \<Rightarrow> (string \<times> u8) list" where
  "hwmon_commands commands =
     map (\<lambda>c. (cmd_member_id c, cmd_pwm_percent c)) (filter (\<lambda>c. cmd_source c = ''hwmon'') commands)"

definition hwmon_write :: "('h, 'w, 'q) hb_runtime \<Rightarrow> PwmCommand list \<Rightarrow> string set option \<Rightarrow>
    'h HwmonBackend \<times> 'w hw \<times> 'q \<Rightarrow> 'h HwmonBackend \<times> 'w hw \<times> 'q" where
  "hwmon_write rt commands give_back = (\<lambda>(b, s).
     let cmds = hwmon_commands commands;
         nothing_to_do = (cmds = [] \<and> give_back = None)
     in if nothing_to_do \<and> \<not> bw_outstanding rt s (hb_writes b) then (b, s)
        else case (if nothing_to_do then harvest_only rt HWMON_JOIN_BUDGET (hb_writes b, s)
                   else bw_run rt HWMON_JOIN_BUDGET (HbWriteTask \<lparr>hb_cmds = cmds, hb_give_back = give_back\<rparr>) (hb_writes b, s)) of
          (p, bw, s) \<Rightarrow> (hb_note_joins (wp_completed p) (b\<lparr>hb_writes := bw\<rparr>), s))"

definition hwmon_apply :: "('h, 'w, 'q) hb_runtime \<Rightarrow> PwmCommand list \<Rightarrow> 'h HwmonBackend \<times> 'w hw \<times> 'q \<Rightarrow>
    'h HwmonBackend \<times> 'w hw \<times> 'q" where
  "hwmon_apply rt commands = hwmon_write rt commands None"

definition hwmon_apply_and_give_back :: "('h, 'w, 'q) hb_runtime \<Rightarrow> 'w HbEnv \<Rightarrow> bool \<Rightarrow> PwmCommand list \<Rightarrow> ProfileMembers \<Rightarrow>
    'h HwmonBackend \<times> 'w hw \<times> 'q \<Rightarrow> 'h HwmonBackend \<times> 'w hw \<times> 'q" where
  "hwmon_apply_and_give_back rt env locked commands members = (\<lambda>(b, st, q).
     hwmon_write rt commands (if may_give_back env locked members st then Some (pm_hwmon members) else None) (b, st, q))"

definition hwmon_force_of :: "u8 \<Rightarrow> PwmCommand list \<Rightarrow> ForceReach \<Rightarrow> HbForce" where
  "hwmon_force_of pct commands reach =
     \<lparr>hf_pct = pct,
      hf_members = (case reach of ReachAll \<Rightarrow> None | ReachMembers m _ _ \<Rightarrow> Some (pm_hwmon m)),
      hf_give_back = (case reach of ReachAll \<Rightarrow> False | ReachMembers _ g _ \<Rightarrow> g),
      hf_held = (case reach of ReachAll \<Rightarrow> {} | ReachMembers _ _ h \<Rightarrow> pm_hwmon (held_members h)),
      hf_floors = hm_collect (hwmon_commands commands)\<rparr>"

definition hwmon_reached :: "ForceReach \<Rightarrow> 'h HwmonBackend \<Rightarrow> bool" where
  "hwmon_reached reach b =
     (case reach of
        ReachAll \<Rightarrow> True
      | ReachMembers m _ _ \<Rightarrow>
          (case hb_writable b of
             Some writable \<Rightarrow> pm_hwmon m \<inter> writable \<noteq> {}
           | None \<Rightarrow> pm_hwmon m \<noteq> {}))"

definition hwmon_force :: "('h, 'w, 'q) hb_runtime \<Rightarrow> u8 \<Rightarrow> PwmCommand list \<Rightarrow> ForceReach \<Rightarrow>
    'h HwmonBackend \<times> 'w hw \<times> 'q \<Rightarrow> bool \<times> 'h HwmonBackend \<times> 'w hw \<times> 'q" where
  "hwmon_force rt pct commands reach = (\<lambda>(b, s).
     let reached = hwmon_reached reach b in
     case bw_run rt HWMON_JOIN_BUDGET (HbForceTask (hwmon_force_of pct commands reach)) (hb_writes b, s) of
       (p, bw, s) \<Rightarrow>
         let stalled = (wp_in_flight p \<and> wp_harvested p = None \<and> wp_issued p = None)
         in (reached, (hb_note_joins (wp_completed p) (b\<lparr>hb_writes := bw\<rparr>))\<lparr>hb_stall_logged := stalled\<rparr>, s))"

end
