(* ===== verification/Hwmon_Force.thy ===== *)
theory Hwmon_Force
  imports Hwmon_Backend Hwmon_Return
begin

text \<open>
  What the engine's hwmon backend guarantees against the other holders of the write lease: an emergency
  reaches every writable header however often a diagnostic takes the lease back, and the engine's own
  writes stop where a diagnostic holds it.
\<close>

section \<open>Commands never touch the lease\<close>

definition same_leases :: "HwmonPwmController \<Rightarrow> HwmonPwmController \<Rightarrow> bool" where
  "same_leases c c' = (hw_lease_manager c' = hw_lease_manager c)"

lemma same_leases_trans [trans]: "same_leases a b \<Longrightarrow> same_leases b c \<Longrightarrow> same_leases a c"
  by (simp add: same_leases_def)

lemma same_leases_simps [simp]:
  "same_leases c c"
  "same_leases c (update_ws i f c)"
  "same_leases c (note_reclaim now i c)"
  "same_leases c (forget_manual_mode c)"
  "same_leases c (prepare_write now i hdr rec cla c)"
  by (simp_all add: same_leases_def update_ws_def note_reclaim_def forget_manual_mode_def prepare_write_def Let_def split: option.split)

lemma prime_loop_leases: "prime_loop h dir sibs (c, w) = (c', w') \<Longrightarrow> hw_lease_manager c' = hw_lease_manager c"
proof (induction sibs arbitrary: c w)
  case (Cons s sibs)
  obtain i path where s: "s = (i, path)" by (rule prod.exhaust)
  show ?case using Cons.prems unfolding s
    by (auto dest!: Cons.IH split: prod.splits if_splits sum.splits)
qed simp

lemma prime_leases: "prime_shared_report_siblings h i (c, w) = (c', w') \<Longrightarrow> hw_lease_manager c' = hw_lease_manager c"
  by (auto simp: prime_shared_report_siblings_def dest: prime_loop_leases split: option.splits if_splits)

lemma resume_leases: "resume_priming_after_success h i (c, w) = (c', w') \<Longrightarrow> hw_lease_manager c' = hw_lease_manager c"
  by (auto simp: resume_priming_after_success_def dest: prime_leases split: option.splits if_splits)

lemma drift_leases:
  "duty_drift_rewrite h i pct path (c, cache, w) = (b, c', cache', w') \<Longrightarrow> hw_lease_manager c' = hw_lease_manager c"
  by (auto simp: duty_drift_rewrite_def Let_def update_ws_def split: prod.splits option.splits)

lemma take_leases: "take_header h i hdr owned (c, w) = (r, c', w') \<Longrightarrow> hw_lease_manager c' = hw_lease_manager c"
  by (auto simp: take_header_def split: option.splits if_splits prod.splits sum.splits)

lemma confirm_leases:
  "confirm_write h now i hdr pct rec cor (c, cache, w) = (c', cache', w') \<Longrightarrow> hw_lease_manager c' = hw_lease_manager c"
  by (auto simp: confirm_write_def Let_def dest!: resume_leases split: prod.splits option.splits if_splits)

lemma write_duty_leases:
  assumes "write_duty h now i hdr pct owned rec cor (c, cache, w) = (r, c', cache', w')"
  shows "hw_lease_manager c' = hw_lease_manager c \<and> (\<forall>e. r \<noteq> Inl (HeLease e)) \<and> (\<forall>v. r \<noteq> Inl (HeValidation v))"
  using assms
  by (auto simp: write_duty_def Let_def update_ws_def dest!: prime_leases confirm_leases split: prod.splits option.splits if_splits sum.splits)

lemma write_or_coalesce_leases:
  assumes "write_or_coalesce h now i hdr pct owned rec (c, cache, w) = (r, c', cache', w')"
  shows "hw_lease_manager c' = hw_lease_manager c \<and> (\<forall>e. r \<noteq> Inl (HeLease e)) \<and> (\<forall>v. r \<noteq> Inl (HeValidation v))"
proof -
  have tk: "x \<noteq> Inl (HeLease e) \<and> x \<noteq> Inl (HeValidation v)"
    if "take_header h i hdr owned (c, w) = (x, st)" for x e v c w st
    using that by (auto simp: take_header_def split: option.splits if_splits prod.splits sum.splits)
  show ?thesis using assms unfolding write_or_coalesce_def
    by (auto simp: Let_def dest!: write_duty_leases drift_leases dest: take_leases tk split: prod.splits if_splits sum.splits)
qed

lemma set_pwm_leases:
  assumes "hw_set_pwm h now i pct lid (c, cache, w) = (r, c', cache', w')"
  shows "hw_lease_manager c' = hw_lease_manager c"
proof -
  have "hw_lease_manager (fst (clear_after_resume (c, cache))) = hw_lease_manager c"
    by (simp add: clear_after_resume_def take_resume_flag_def forget_manual_mode_def)
  moreover have "hw_lease_manager (prepare_write now i hdr rec cla d) = hw_lease_manager d" for hdr rec cla d
    using same_leases_simps(5) by (simp add: same_leases_def)
  ultimately show ?thesis using assms unfolding hw_set_pwm_def
    by (auto simp: Let_def dest!: write_or_coalesce_leases split: prod.splits if_splits sum.splits option.splits)
qed

lemma set_pwm_lease_error:
  assumes "hw_set_pwm h now i pct lid (c, cache, w) = (Inl (HeLease e), st)"
  shows "validate_lease now lid (hw_lease_manager c) = Inl e \<and> st = (c, cache, w)"
  using assms unfolding hw_set_pwm_def
  by (cases st) (auto simp: Let_def dest!: write_or_coalesce_leases split: prod.splits if_splits sum.splits option.splits)

lemma set_pwm_validation_error:
  assumes "hw_set_pwm h now i pct lid (c, cache, w) = (Inl (HeValidation v), st)"
  shows "map_of (hw_headers c) i = None \<or> 100 < pct"
proof -
  have "hw_headers (fst (clear_after_resume (c, cache))) = hw_headers c"
    using resume_core [of c cache] by (simp add: same_core_def)
  then show ?thesis using assms unfolding hw_set_pwm_def
    by (cases st) (auto simp: Let_def dest!: write_or_coalesce_leases split: prod.splits if_splits sum.splits option.splits)
qed

lemma set_pwm_evicted:
  assumes "lease_holder (hw_lease_manager c) \<noteq> Some lid"
  shows "hw_set_pwm h now i pct lid (c, cache, w) = (Inl (HeLease InvalidLease), c, cache, w)"
  using dead_token_rejected [OF assms] by (simp add: hw_set_pwm_def)

lemma set_pwm_headers:
  assumes "hw_set_pwm h now i pct lid (c, cache, w) = (r, c', cache', w')"
  shows "hw_headers c' = hw_headers c"
proof -
  have "hw_stable h (\<lambda>d w. hw_headers d = hw_headers c)" unfolding hw_stable_def by (auto dest: take_frame)
  from set_pwm_stable [OF this _ assms] show ?thesis by simp
qed


section \<open>The emergency outranks every other holder\<close>

text \<open>The other threads may do anything to the lease, the cache and the host, and anything to the
  controller but change its set of headers or the time a lease lives.\<close>

definition force_ready :: "(string, PwmHeaderDescriptor) hmap \<Rightarrow> 'w hw \<Rightarrow> bool" where
  "force_ready H st = (hw_headers (fst st) = H \<and> 0 < lm_ttl (hw_lease_manager (fst st)))"

definition others_keep :: "('w hw \<Rightarrow> bool) \<Rightarrow> 'w HbEnv \<Rightarrow> bool" where
  "others_keep P env = (\<forall>st. P st \<longrightarrow> P (he_others env st))"

lemma hb_set_pwm_ready:
  assumes "hb_set_pwm env i pct lid st = (r, st')" "force_ready H st"
  shows "force_ready H st'" "r = Inl (HeLease e) \<Longrightarrow> st' = st" "r = Inl (HeValidation v) \<Longrightarrow> map_of H i = None \<or> 100 < pct"
proof -
  obtain c cache w where st: "st = (c, cache, w)" by (rule prod_cases3)
  obtain x where x: "hw_set_pwm (he_host env) (he_now env w) i pct lid (c, cache, w) = (x, st')" and r: "r = map_sum id (\<lambda>_. ()) x"
    using assms(1) by (auto simp: hb_set_pwm_def st split: prod.splits)
  obtain c' cache' w' where st': "st' = (c', cache', w')" by (rule prod_cases3)
  show "force_ready H st'"
    using assms(2) set_pwm_leases [OF x [unfolded st']] set_pwm_headers [OF x [unfolded st']] by (simp add: force_ready_def st st')
  show "st' = st" if "r = Inl (HeLease e)"
    using that r x set_pwm_lease_error [of "he_host env" "he_now env w" i pct lid c cache w e st'] by (cases x) (auto simp: st)
  show "map_of H i = None \<or> 100 < pct" if "r = Inl (HeValidation v)"
    using that r x set_pwm_validation_error [of "he_host env" "he_now env w" i pct lid c cache w v st'] assms(2)
    by (cases x) (auto simp: st force_ready_def)
qed

lemma hb_set_pwm_valid:
  assumes "hb_set_pwm env i pct lid (c, cache, w) = (r, st')" "validate_lease (he_now env w) lid (hw_lease_manager c) = Inr ()"
  shows "r \<noteq> Inl (HeLease e)"
proof
  assume r: "r = Inl (HeLease e)"
  obtain x where x: "hw_set_pwm (he_host env) (he_now env w) i pct lid (c, cache, w) = (x, st')" and "r = map_sum id (\<lambda>_. ()) x"
    using assms(1) by (auto simp: hb_set_pwm_def split: prod.splits)
  with r set_pwm_lease_error [of "he_host env" "he_now env w" i pct lid c cache w e st'] assms(2) show False by (cases x) auto
qed

lemma thermal_take_live:
  assumes "thermal_take env (c, cache, w) = (lid, st')" "force_ready H (c, cache, w)"
  shows "force_ready H st'" "\<exists>c'. st' = (c', cache, w) \<and> validate_lease (he_now env w) lid (hw_lease_manager c') = Inr ()"
  using assms
  by (auto simp: thermal_take_def on_leases_def force_take_lease_def Let_def forget_manual_mode_def force_ready_def validate_lease_def)

lemma force_header_lands:
  assumes "force_header env i duty lid st = (r, lid', st')" "force_ready H st"
  shows "force_ready H st'" "r \<noteq> Inl (HeLease e)" "r = Inl (HeValidation v) \<Longrightarrow> map_of H i = None \<or> 100 < duty"
proof -
  obtain x st1 where x: "hb_set_pwm env i duty lid st = (x, st1)" by (rule prod.exhaust)
  note 1 = hb_set_pwm_ready [OF x assms(2)]
  have "force_ready H st' \<and> r \<noteq> Inl (HeLease e) \<and> (r = Inl (HeValidation v) \<longrightarrow> map_of H i = None \<or> 100 < duty)"
  proof (cases "\<exists>e. x = Inl (HeLease e)")
    case False
    then have "r = x \<and> st' = st1"
      using assms(1) x by (auto simp: force_header_def split: sum.splits HwmonControlError.splits)
    then show ?thesis using 1 False by auto
  next
    case True
    then obtain e' where e': "x = Inl (HeLease e')" by blast
    obtain c cache w where st1: "st1 = (c, cache, w)" by (rule prod_cases3)
    obtain lid2 st2 where t: "thermal_take env (c, cache, w) = (lid2, st2)" by (rule prod.exhaust)
    obtain y st3 where y: "hb_set_pwm env i duty lid2 st2 = (y, st3)" by (rule prod.exhaust)
    have "r = y \<and> st' = st3" using assms(1) x e' t y by (simp add: force_header_def st1)
    moreover note 2 = thermal_take_live [OF t 1(1) [unfolded st1]]
    ultimately show ?thesis using hb_set_pwm_ready [OF y 2(1)] hb_set_pwm_valid y by (metis 2(2))
  qed
  then show "force_ready H st'" "r \<noteq> Inl (HeLease e)" "r = Inl (HeValidation v) \<Longrightarrow> map_of H i = None \<or> 100 < duty" by simp_all
qed

text \<open>Neither the lease nor the validation refused the attempt.\<close>

definition landed :: "(string, PwmHeaderDescriptor) hmap \<Rightarrow> string \<times> u8 \<times> (HwmonControlError + unit) \<Rightarrow> bool" where
  "landed H x = ((\<forall>e. snd (snd x) \<noteq> Inl (HeLease e)) \<and>
     (\<forall>v. snd (snd x) = Inl (HeValidation v) \<longrightarrow> map_of H (fst x) = None \<or> 100 < fst (snd x)))"

lemma force_headers_land:
  assumes "others_keep (force_ready H) env"
  shows "force_headers env t held ids lid st = (att, lid', st') \<Longrightarrow> force_ready H st \<Longrightarrow>
    map (\<lambda>(i, d, r). (i, d)) att = map (\<lambda>i. (i, hb_forced_duty t held i)) ids \<and> force_ready H st' \<and>
    list_all (landed H) att"
proof (induction ids arbitrary: lid st att lid' st')
  case (Cons i ids)
  let ?d = "hb_forced_duty t held i"
  obtain r lid1 st1 where h: "force_header env i ?d lid (he_others env st) = (r, lid1, st1)" by (rule prod_cases3)
  have "force_ready H (he_others env st)" using assms Cons.prems(2) unfolding others_keep_def by blast
  note 1 = force_header_lands [OF h this]
  obtain att2 lid2 st2 where l: "force_headers env t held ids lid1 st1 = (att2, lid2, st2)" by (rule prod_cases3)
  have "landed H (i, ?d, r)" using 1(2,3) by (auto simp: landed_def)
  then show ?case using Cons.IH [OF l 1(1)] Cons.prems(1) h l by (auto simp: Let_def)
qed simp

lemma hb_forced_duty_bounds:
  "hf_pct t \<le> hb_forced_duty t held i"
  "map_of (hf_floors t) i = Some p \<Longrightarrow> p \<le> hb_forced_duty t held i"
  "map_of held i = Some q \<Longrightarrow> q \<le> hb_forced_duty t held i"
  "hf_pct t \<le> b \<Longrightarrow> (\<And>p. map_of (hf_floors t) i = Some p \<Longrightarrow> p \<le> b) \<Longrightarrow> (\<And>q. map_of held i = Some q \<Longrightarrow> q \<le> b) \<Longrightarrow>
    hb_forced_duty t held i \<le> b"
  by (auto simp: hb_forced_duty_def split: option.splits)

lemma force_targets_known:
  assumes "headers_ok c" "i \<in> set (forced_target_ids c)"
  shows "\<exists>hdr. map_of (hw_headers c) i = Some hdr \<and> hd_is_writable hdr"
proof -
  from assms(2) obtain k hdr where h: "(k, hdr) \<in> set (hw_headers c)" "hd_is_writable hdr" "i = hd_id hdr"
    by (auto simp: forced_target_ids_def forced_target_ids_of_def hwmon_headers_def)
  then have "k = i" using assms(1) by (auto simp: headers_ok_def)
  then show ?thesis using h assms(1) map_of_eq_Some_iff [of "hw_headers c" i hdr] by (auto simp: headers_ok_def hm_ok_def)
qed

lemma forced_targets_complete:
  assumes "headers_ok c" "map_of (hw_headers c) i = Some hdr" "hd_is_writable hdr"
  shows "i \<in> set (forced_target_ids c)"
proof -
  have m: "(i, hdr) \<in> set (hw_headers c)" using assms(2) by (rule map_of_SomeD)
  then have "hdr \<in> set (filter hd_is_writable (map snd (hw_headers c)))" using assms(3) by force
  moreover have "hd_id hdr = i" using m assms(1) by (auto simp: headers_ok_def)
  ultimately show ?thesis by (auto simp: forced_target_ids_def forced_target_ids_of_def hwmon_headers_def)
qed

lemma held_duties_of_Some:
  assumes "finite held" "map_of (held_duties_of held c) i = Some q"
  shows "i \<in> held \<and> hw_last_commanded_pct c i = Some q"
proof -
  have "(i, q) \<in> set (held_duties_of held c)" using assms(2) by (rule map_of_SomeD)
  then show ?thesis using assms(1) by (auto simp: held_duties_of_def map_filter_def)
qed

text \<open>C10: an emergency outranks every other holder of the lease. At the reach of an emergency a forced
  tick attempts every writable header, once, at no less than the emergency duty and no less than the duty
  the engine meant for it, and no attempt fails for want of the lease or as invalid: what can refuse one
  is the hardware, or the shutdown hand-back. The other threads may take the lease, change the cache and
  write the hardware at every moment the lock is free.\<close>

theorem force_outranks_every_holder:
  assumes "others_keep (force_ready H) env" "force_ready H st" "headers_ok (fst (he_others env st))"
    and "pct \<le> 100" "\<forall>(i, p) \<in> set (hwmon_commands cmds). p \<le> 100"
    and "hwmon_force_task env (hwmon_force_of pct cmds ReachAll) st = (att, st')"
  shows "(\<forall>i hdr. map_of H i = Some hdr \<and> hd_is_writable hdr \<longrightarrow> i \<in> fst ` set att) \<and>
    map fst att = forced_target_ids (fst (he_others env st)) \<and>
    (\<forall>(i, d, r) \<in> set att. pct \<le> d \<and> d \<le> 100 \<and>
       (\<forall>p. map_of (hm_collect (hwmon_commands cmds)) i = Some p \<longrightarrow> p \<le> d) \<and>
       (r = Inr () \<or> r = Inl HeShuttingDown \<or> (\<exists>e. r = Inl (HeHardware e))))"
proof -
  let ?t = "hwmon_force_of pct cmds ReachAll" and ?st = "he_others env st"
  have r0: "force_ready H ?st" using assms(1,2) unfolding others_keep_def by blast
  obtain c cache w where c: "?st = (c, cache, w)" by (rule prod_cases3)
  obtain lid st1 where k: "thermal_take env (c, cache, w) = (lid, st1)" by (rule prod.exhaust)
  let ?held = "held_duties_of (hf_held ?t) c"
  obtain a lid2 st2 where l: "force_headers env ?t ?held (forced_target_ids c) lid st1 = (a, lid2, st2)" by (rule prod_cases3)
  have a: "att = a"
    using assms(6) k l unfolding hwmon_force_task_def
    by (simp add: Let_def c hwmon_force_of_def force_targets_def)
  have "?held = []" by (simp add: hwmon_force_of_def held_duties_of_def)
  then have d: "hb_forced_duty ?t ?held i \<le> 100" for i
    using assms(4,5) by (intro hb_forced_duty_bounds(4))
      (auto simp: hwmon_force_of_def map_of_hm_collect dest!: map_of_SomeD)
  from thermal_take_live(1) [OF k] r0 c have "force_ready H st1" by simp
  note f = force_headers_land [OF assms(1) l this]
  from f have ids: "map (\<lambda>(i, d, r). (i, d)) att = map (\<lambda>i. (i, hb_forced_duty ?t ?held i)) (forced_target_ids c)"
    by (simp add: a)
  have fst_ids: "map fst att = forced_target_ids c"
    using arg_cong [OF ids, of "map fst"] by (simp add: comp_def case_prod_beta')
  have H: "hw_headers c = H" using r0 by (simp add: c force_ready_def)
  have each: "i \<in> set (forced_target_ids c) \<and> x = hb_forced_duty ?t ?held i" if "(i, x, r) \<in> set att" for i x r
  proof -
    have "(i, x) \<in> set (map (\<lambda>(i, d, r). (i, d)) att)" using that by force
    then show ?thesis unfolding ids by auto
  qed
  show ?thesis
  proof (intro conjI)
    show "\<forall>i hdr. map_of H i = Some hdr \<and> hd_is_writable hdr \<longrightarrow> i \<in> fst ` set att"
      using forced_targets_complete [of c] assms(3) H fst_ids by (metis c fst_conv list.set_map)
    show "map fst att = forced_target_ids (fst ?st)" by (simp add: c fst_ids)
    show "\<forall>(i, d, r) \<in> set att. pct \<le> d \<and> d \<le> 100 \<and>
       (\<forall>p. map_of (hm_collect (hwmon_commands cmds)) i = Some p \<longrightarrow> p \<le> d) \<and>
       (r = Inr () \<or> r = Inl HeShuttingDown \<or> (\<exists>e. r = Inl (HeHardware e)))"
    proof (clarify)
      fix i x r
      assume m: "(i, x, r) \<in> set att"
      note e = each [OF m]
      have kn: "map_of H i \<noteq> None" using force_targets_known [of c i] assms(3) e H by (auto simp: c)
      have b: "pct \<le> x \<and> x \<le> 100 \<and> (\<forall>p. map_of (hm_collect (hwmon_commands cmds)) i = Some p \<longrightarrow> p \<le> x)"
        using e d [of i] hb_forced_duty_bounds(1,2) [of ?t] by (simp add: hwmon_force_of_def)
      have "(\<forall>e. r \<noteq> Inl (HeLease e)) \<and> (\<forall>v. r = Inl (HeValidation v) \<longrightarrow> map_of H i = None \<or> 100 < x)"
        using f m unfolding a list_all_iff landed_def by force
      then have "r = Inr () \<or> r = Inl HeShuttingDown \<or> (\<exists>e. r = Inl (HeHardware e))"
        using kn b by (cases r) (auto, metis HwmonControlError.exhaust linorder_not_less)
      with b show "pct \<le> x \<and> x \<le> 100 \<and> (\<forall>p. map_of (hm_collect (hwmon_commands cmds)) i = Some p \<longrightarrow> p \<le> x) \<and>
        (r = Inr () \<or> r = Inl HeShuttingDown \<or> (\<exists>e. r = Inl (HeHardware e)))" by blast
    qed
  qed
qed

section \<open>A diagnostic keeps the engine out\<close>

text \<open>The token no longer holds the lease.\<close>

definition lost :: "string \<Rightarrow> 'w hw \<Rightarrow> bool" where
  "lost lid st = (lease_holder (hw_lease_manager (fst st)) \<noteq> Some lid)"

lemma hb_set_pwm_lost: "lost lid st \<Longrightarrow> hb_set_pwm env i pct lid st = (Inl (HeLease InvalidLease), st)"
  by (cases st) (simp add: lost_def hb_set_pwm_def set_pwm_evicted)

lemma release_one_lost: "lost lid st \<Longrightarrow> release_one env lid i st = st"
  using dead_token_rejected [of "hw_lease_manager (fst st)" lid]
  by (cases st) (simp add: lost_def release_one_def release_no_mode_def)

lemma hand_back_one_lost: "lost lid st \<Longrightarrow> hand_back_one env lid i st = st"
  using dead_token_rejected [of "hw_lease_manager (fst st)" lid]
  by (cases st) (simp add: lost_def hand_back_one_def hw_hand_back_def)

lemma keep_or_release_lost: "lost lid st \<Longrightarrow> keep_or_release env lid b st = st"
  by (cases st) (auto simp: lost_def keep_or_release_def on_leases_def release_lease_def renew_lease_def lease_holder_def split: option.splits)

lemma others_iterate:
  assumes "others_keep (lost lid) env" "lost lid st"
  shows "lost lid ((he_others env ^^ n) st)"
  using assms by (induction n) (auto simp: others_keep_def simp del: split_paired_All)

lemma write_headers_lost:
  assumes "others_keep (lost lid) env"
  shows "lost lid (he_others env st) \<Longrightarrow> write_headers env lid cs st = (rs, st') \<Longrightarrow>
    st' = (he_others env ^^ length cs) st \<and> (\<forall>x \<in> set rs. snd x = Inl (HeLease InvalidLease)) \<and> lost lid (he_others env st')"
proof (induction cs arbitrary: st rs st')
  case (Cons ip cs)
  obtain i pct where ip: "ip = (i, pct)" by (rule prod.exhaust)
  let ?st = "he_others env st"
  have n: "lost lid (he_others env ?st)" using assms Cons.prems(1) unfolding others_keep_def by blast
  obtain rs2 st2 where w: "write_headers env lid cs ?st = (rs2, st2)" by (rule prod.exhaust)
  from Cons.IH [OF n w] Cons.prems w hb_set_pwm_lost [OF Cons.prems(1)] show ?case
    by (auto simp: ip Let_def funpow_swap1 split: if_splits)
qed simp

lemma fold_lost:
  assumes "others_keep (lost lid) env" "\<And>i st. lost lid st \<Longrightarrow> f i st = st"
  shows "lost lid (he_others env st) \<Longrightarrow> fold (\<lambda>i st. f i (he_others env st)) is st = (he_others env ^^ length is) st"
proof (induction "is" arbitrary: st)
  case (Cons i "is")
  have "lost lid (he_others env (he_others env st))" using assms(1) Cons.prems unfolding others_keep_def by blast
  then show ?case using Cons.IH [of "he_others env st"] assms(2) [OF Cons.prems] by (simp add: funpow_swap1)
qed simp

lemma give_back_lost:
  assumes "others_keep (lost lid) env" "lost lid (he_others env st)"
  shows "\<exists>n. give_back_unheld env lid members st = (he_others env ^^ n) st"
proof -
  obtain c cache w where st: "he_others env st = (c, cache, w)" by (rule prod_cases3)
  let ?a = "unnamed members (releasable_no_mode (he_now env w) c cache)" and ?b = "unnamed members (taken_ids (hw_handback c))"
  have l: "lost lid ((he_others env ^^ n) (he_others env st))" for n by (rule others_iterate [OF assms])
  have 1: "fold (\<lambda>i st. release_one env lid i (he_others env st)) ?a (he_others env st) = (he_others env ^^ length ?a) (he_others env st)"
    by (rule fold_lost [OF assms(1)]) (use release_one_lost l [of 1] in simp_all)
  have 2: "fold (\<lambda>i st. hand_back_one env lid i (he_others env st)) ?b ((he_others env ^^ length ?a) (he_others env st)) =
      (he_others env ^^ length ?b) ((he_others env ^^ length ?a) (he_others env st))"
    by (rule fold_lost [OF assms(1)]) (use hand_back_one_lost l [of "Suc (length ?a)"] in simp_all)
  have "give_back_unheld env lid members st = (he_others env ^^ (length ?b + length ?a + 1)) st"
    using 1 2 unfolding give_back_unheld_def st by (simp add: Let_def st funpow_add funpow_swap1)
  then show ?thesis by blast
qed

lemma write_headers_append:
  "write_headers env lid (as @ bs) st =
     (case write_headers env lid as st of (rs, st) \<Rightarrow> (case write_headers env lid bs st of (rs2, st) \<Rightarrow> (rs @ rs2, st)))"
proof (induction as arbitrary: st)
  case (Cons a as)
  then show ?case by (cases a) (simp add: Let_def case_prod_beta)
qed simp

lemma others_funpow: "he_others env ((he_others env ^^ n) st) = (he_others env ^^ Suc n) st"
  by simp

text \<open>C12: a diagnostic that takes the lease keeps the engine out for the rest of its task. However far the
  engine's write task has got, once its lease is lost every command that follows is refused, and neither a
  command nor a give-back nor the renewal changes anything: the state at the end is what the other threads
  alone make of it.\<close>

theorem evicted_engine_writes_nothing:
  assumes "others_keep (lost lid) env"
    and "on_leases (acquire_lease (he_now env (snd (snd (he_others env st))))) (he_others env st) = (Some lid, st1)"
    and "write_headers env lid cs1 st1 = (rs1, st2)" "lost lid (he_others env st2)"
    and "hb_cmds t = cs1 @ cs2"
  shows "\<exists>rs2 n. hwmon_write_task env t st = (rs1 @ rs2, (he_others env ^^ n) st2) \<and>
    list_all (\<lambda>x. snd x = Inl (HeLease InvalidLease)) rs2"
proof -
  obtain rs2 st3 where w: "write_headers env lid cs2 st2 = (rs2, st3)" by (rule prod.exhaust)
  note 1 = write_headers_lost [OF assms(1,4) w]
  define st4 where "st4 = (case hb_give_back t of Some members \<Rightarrow> give_back_unheld env lid members st3 | None \<Rightarrow> st3)"
  obtain n where n: "st4 = (he_others env ^^ n) st3"
  proof (cases "hb_give_back t")
    case None
    then have "st4 = (he_others env ^^ 0) st3" by (simp add: st4_def)
    then show ?thesis by (rule that)
  next
    case (Some members)
    then show ?thesis using give_back_lost [OF assms(1), of st3 members] 1 that by (auto simp: st4_def)
  qed
  have "lost lid ((he_others env ^^ n) (he_others env st3))" using others_iterate [OF assms(1)] 1 by blast
  then have "lost lid (he_others env st4)" by (simp add: n funpow_swap1)
  from keep_or_release_lost [OF this] have k: "keep_or_release env lid b (he_others env st4) = he_others env st4" for b .
  have "hwmon_write_task env t st = (rs1 @ rs2, he_others env st4)"
    using assms(2,3) w by (simp add: hwmon_write_task_def Let_def assms(5) write_headers_append k flip: st4_def)
  moreover have "he_others env st4 = (he_others env ^^ (Suc n + length cs2)) st2"
    using 1 by (simp add: n funpow_add)
  moreover have "list_all (\<lambda>x. snd x = Inl (HeLease InvalidLease)) rs2" using 1 by (simp add: list_all_iff)
  ultimately show ?thesis by (intro exI [of _ rs2] exI [of _ "Suc n + length cs2"]) simp
qed

text \<open>Lemma: while a diagnostic holds the lease the engine does not start: its write task commands no header
  and leaves everything as the other threads left it.\<close>

theorem engine_waits_for_a_diagnostic:
  assumes "he_others env st = (c, cache, w)" "active_lease (he_now env w) (hw_lease_manager c) = Some l" "lease_owner l = WriterVerify"
  shows "hwmon_write_task env t st = ([], c, cache, w)"
proof -
  have "lm_active (hw_lease_manager c) = Some l \<and> he_now env w < lease_expires_at l"
    using assms(2) by (auto simp: active_lease_def split: option.splits if_splits)
  then show ?thesis
    using assms by (simp add: hwmon_write_task_def on_leases_def acquire_lease_def take_lease_def Let_def)
qed

section \<open>A diagnostic that never gives up\<close>

text \<open>Each time the lock is free and a lease is held, a diagnostic takes it over.\<close>

definition stubborn :: "'w hw \<Rightarrow> 'w hw" where
  "stubborn = (\<lambda>(c, cache, w).
     (c\<lparr>hw_lease_manager := (if lm_active (hw_lease_manager c) = None then hw_lease_manager c
        else (hw_lease_manager c)\<lparr>lm_active := Some \<lparr>lease_id = ''verify'', lease_owner = WriterVerify, lease_expires_at = secs 60\<rparr>\<rparr>)\<rparr>,
      cache, w))"

definition stubborn_env :: "FileHost HbEnv" where
  "stubborn_env = \<lparr>he_host = plain_host, he_now = \<lambda>_. 1, he_others = stubborn\<rparr>"

definition stubborn_start :: "FileHost hw" where
  "stubborn_start = (hwmon_new [sample_header] lease_new, sample_cache, sample_host)"

lemma stubborn_ready: "others_keep (force_ready H) stubborn_env"
  by (auto simp: others_keep_def stubborn_env_def stubborn_def force_ready_def)

lemma stubborn_lost: "others_keep (lost ''lease-1'') stubborn_env"
  by (auto simp: others_keep_def stubborn_env_def stubborn_def lost_def lease_holder_def)

lemma stubborn_start_same: "he_others stubborn_env stubborn_start = stubborn_start"
  by (simp add: stubborn_env_def stubborn_def stubborn_start_def hwmon_new_def lease_new_def lease_with_clock_def)

theorem force_outranks_every_holder_witness:
  "map fst (fst (hwmon_force_task stubborn_env (hwmon_force_of 100 [] ReachAll) stubborn_start)) = [''hwmon:it8696:pwm1'']"
proof -
  let ?H = "hw_headers (fst stubborn_start)"
  obtain att st' where t: "hwmon_force_task stubborn_env (hwmon_force_of 100 [] ReachAll) stubborn_start = (att, st')"
    by (rule prod.exhaust)
  have r: "force_ready ?H stubborn_start"
    by (simp add: force_ready_def stubborn_start_def hwmon_new_def lease_new_def lease_with_clock_def DEFAULT_LEASE_TTL_def)
  have ok: "headers_ok (fst (he_others stubborn_env stubborn_start))" unfolding stubborn_start_same
    by (simp add: stubborn_start_def headers_ok_def hwmon_new_def hm_collect_def hm_insert_def hm_ok_def)
  have ids: "forced_target_ids (fst stubborn_start) = [''hwmon:it8696:pwm1'']"
    by (simp add: stubborn_start_def forced_target_ids_def forced_target_ids_of_def hwmon_headers_def hwmon_new_def
        hm_collect_def hm_insert_def sample_header_def)
  have "map fst att = forced_target_ids (fst (he_others stubborn_env stubborn_start))"
    using force_outranks_every_holder [OF stubborn_ready r ok _ _ t] by (simp add: hwmon_commands_def)
  then show ?thesis unfolding t fst_conv stubborn_start_same ids .
qed

theorem evicted_engine_writes_nothing_witness:
  "list_all (\<lambda>x. snd x = Inl (HeLease InvalidLease))
     (fst (hwmon_write_task stubborn_env \<lparr>hb_cmds = [(''hwmon:it8696:pwm1'', 50)], hb_give_back = Some {}\<rparr> stubborn_start))"
proof -
  let ?t = "\<lparr>hb_cmds = [(''hwmon:it8696:pwm1'', 50)], hb_give_back = Some {}\<rparr>"
  define acq where "acq = on_leases (acquire_lease 1) stubborn_start"
  have a: "on_leases (acquire_lease (he_now stubborn_env (snd (snd (he_others stubborn_env stubborn_start)))))
      (he_others stubborn_env stubborn_start) = (Some ''lease-1'', snd acq)"
    using lease_token_1
    by (simp add: acq_def stubborn_start_same) 
       (simp add: stubborn_env_def stubborn_start_def on_leases_def acquire_lease_def
        active_lease_def take_lease_def hwmon_new_def lease_new_def lease_with_clock_def Let_def)
  have l: "lost ''lease-1'' (he_others stubborn_env (snd acq))"
    by (simp add: acq_def stubborn_env_def stubborn_def stubborn_start_def on_leases_def acquire_lease_def active_lease_def take_lease_def
        hwmon_new_def lease_new_def lease_with_clock_def Let_def lost_def lease_holder_def)
  show ?thesis
    using evicted_engine_writes_nothing [OF stubborn_lost a _ l, of "[]" "[]" ?t] by auto
qed

theorem engine_waits_for_a_diagnostic_witness:
  "fst (hwmon_write_task stubborn_env \<lparr>hb_cmds = [(''hwmon:it8696:pwm1'', 50)], hb_give_back = None\<rparr>
     (hwmon_new [sample_header] (snd (force_take_lease 0 WriterVerify lease_new)), sample_cache, sample_host)) = []"
proof -
  let ?st = "(hwmon_new [sample_header] (snd (force_take_lease 0 WriterVerify lease_new)), sample_cache, sample_host)"
  obtain c cache w where o: "he_others stubborn_env ?st = (c, cache, w)" by (rule prod_cases3)
  have "active_lease (he_now stubborn_env w) (hw_lease_manager c) =
      Some \<lparr>lease_id = ''verify'', lease_owner = WriterVerify, lease_expires_at = secs 60\<rparr>"
    using o by (auto simp: stubborn_env_def stubborn_def hwmon_new_def force_take_lease_def Let_def active_lease_def)
  from engine_waits_for_a_diagnostic [OF o this] show ?thesis by simp
qed

end
