(* ===== verification/Gpu_Curve.thy ===== *)
theory Gpu_Curve
  imports Hand_Back "HOL-Library.Signed_Division"
begin

text \<open>
  AMD GPU fan control (\<open>hwmon/gpu_fan.rs\<close>): the text of the PMFW \<open>fan_curve\<close> file, the writes that put a
  card on a flat curve or back on firmware auto, the two manual-mode files of a legacy card, and the two
  records the restore script replays after a crash. The host is that of \<open>Hand_Back\<close>; \<open>rm\<close> removes a file.
  Texts are ASCII; an \<open>i32\<close> is an \<open>int\<close>, which \<open>static_points_in_range\<close> shows never leaves its range.
\<close>

section \<open>Text\<close>

fun split_spaces :: "string \<Rightarrow> string list" where
  "split_spaces [] = [[]]"
| "split_spaces (c # s) =
     (if is_space c then [] # split_spaces s
      else (case split_spaces s of [] \<Rightarrow> [[c]] | w # ws \<Rightarrow> (c # w) # ws))"

definition split_whitespace :: "string \<Rightarrow> string list" where
  "split_whitespace s = filter (\<lambda>w. w \<noteq> []) (split_spaces s)"

definition strip_cr :: "string \<Rightarrow> string" where
  "strip_cr s = (if s \<noteq> [] \<and> last s = CHR 0x0D then butlast s else s)"

definition text_lines :: "string \<Rightarrow> string list" where
  "text_lines s =
     (let ls = split_on newline s
      in map strip_cr (butlast ls) @ (if List.last ls = [] then [] else [List.last ls]))"

definition parse_i32 :: "string \<Rightarrow> int option" where
  "parse_i32 s =
     (let (neg, ds) = (case s of [] \<Rightarrow> (False, []) | c # r \<Rightarrow>
            if c = CHR ''-'' then (True, r) else if c = CHR ''+'' then (False, r) else (False, s));
          v = (if neg then - int (dec_val ds) else int (dec_val ds))
      in if ds \<noteq> [] \<and> list_all is_digit ds \<and> - 2147483648 \<le> v \<and> v \<le> 2147483647 then Some v else None)"

definition parse_u32 :: "string \<Rightarrow> nat option" where
  "parse_u32 s =
     (let ds = (case s of [] \<Rightarrow> [] | c # r \<Rightarrow> if c = CHR ''+'' then r else s)
      in if ds \<noteq> [] \<and> list_all is_digit ds \<and> dec_val ds \<le> 4294967295 then Some (dec_val ds) else None)"

definition show_int :: "int \<Rightarrow> string" where
  "show_int i = (if i < 0 then CHR ''-'' # show_nat (nat (- i)) else show_nat (nat i))"

definition trim_end_char :: "char \<Rightarrow> string \<Rightarrow> string" where
  "trim_end_char c s = rev (dropWhile (\<lambda>x. x = c) (rev s))"

section \<open>The PMFW curve file\<close>

record FanCurvePoint =
  fp_index :: u8
  fp_temp_c :: int
  fp_speed_pct :: u8

record FanCurve =
  fc_points :: "FanCurvePoint list"
  fc_temp_range :: "(int \<times> int) option"
  fc_speed_range :: "(u8 \<times> u8) option"

definition parse_value_with_suffix :: "string \<Rightarrow> int option" where
  "parse_value_with_suffix s = parse_i32 (takeWhile (\<lambda>c. is_digit c \<or> c = CHR ''-'') s)"

definition parse_point :: "string \<Rightarrow> FanCurvePoint option" where
  "parse_point trimmed =
     (case trimmed of
        d # c # rest \<Rightarrow>
          if is_digit d \<and> c = CHR '':'' then
            (case split_whitespace rest of
               a # b # _ \<Rightarrow>
                 (case (parse_value_with_suffix a, parse_value_with_suffix b) of
                    (Some t, Some s) \<Rightarrow>
                      Some \<lparr>fp_index = digit_val d, fp_temp_c = t, fp_speed_pct = nat (max 0 (min s 100))\<rparr>
                  | _ \<Rightarrow> None)
             | _ \<Rightarrow> None)
          else None
      | _ \<Rightarrow> None)"

definition after_colon :: "string \<Rightarrow> string option" where
  "after_colon s = (case split_on CHR '':'' s of _ # b # _ \<Rightarrow> Some b | _ \<Rightarrow> None)"

definition parse_bounds :: "string \<Rightarrow> (int \<times> int) option" where
  "parse_bounds trimmed =
     (case after_colon trimmed of
        None \<Rightarrow> None
      | Some rest \<Rightarrow>
          (case split_whitespace rest of
             a # b # _ \<Rightarrow>
               (case (parse_value_with_suffix a, parse_value_with_suffix b) of (Some l, Some h) \<Rightarrow> Some (l, h) | _ \<Rightarrow> None)
           | _ \<Rightarrow> None))"

definition temp_sane :: "int \<Rightarrow> bool" where
  "temp_sane t = (- 50 \<le> t \<and> t \<le> 200)"

definition accept_temps :: "int \<times> int \<Rightarrow> (int \<times> int) option" where
  "accept_temps = (\<lambda>(l, h). if l \<le> h \<and> temp_sane l \<and> temp_sane h then Some (l, h) else None)"

definition accept_speeds :: "int \<times> int \<Rightarrow> (u8 \<times> u8) option" where
  "accept_speeds = (\<lambda>(l, h).
     if 0 \<le> l \<and> l \<le> 255 \<and> 0 \<le> h \<and> h \<le> 255 \<and> l \<le> h \<and> h \<le> 100 then Some (nat l, nat h) else None)"

definition parse_curve_line :: "string \<Rightarrow> FanCurve \<Rightarrow> FanCurve" where
  "parse_curve_line line c =
     (let trimmed = trim line;
          c = (case parse_point trimmed of Some p \<Rightarrow> c\<lparr>fc_points := fc_points c @ [p]\<rparr> | None \<Rightarrow> c);
          temps = (if str_contains trimmed ''hotspot temp'' then Option.bind (parse_bounds trimmed) accept_temps else None);
          c = (case temps of Some r \<Rightarrow> c\<lparr>fc_temp_range := Some r\<rparr> | None \<Rightarrow> c);
          speeds = (if str_contains trimmed ''fan speed'' then Option.bind (parse_bounds trimmed) accept_speeds else None)
      in (case speeds of Some r \<Rightarrow> c\<lparr>fc_speed_range := Some r\<rparr> | None \<Rightarrow> c))"

definition parse_fan_curve :: "string \<Rightarrow> HwmonError + FanCurve" where
  "parse_fan_curve content =
     (let c = fold parse_curve_line (text_lines content) \<lparr>fc_points = [], fc_temp_range = None, fc_speed_range = None\<rparr>
      in if fc_points c = [] then Inl (ReadError ''<fan_curve>'')
         else Inr (c\<lparr>fc_points := sort_key fp_index (fc_points c)\<rparr>))"

definition read_fan_curve :: "'w Host \<Rightarrow> string \<Rightarrow> 'w \<Rightarrow> (HwmonError + FanCurve) \<times> 'w" where
  "read_fan_curve h path w =
     (case read_file h path w of (Inl _, w) \<Rightarrow> (Inl (ReadError path), w) | (Inr s, w) \<Rightarrow> (parse_fan_curve s, w))"

definition flat_speed_pct :: "FanCurve \<Rightarrow> u8 option" where
  "flat_speed_pct c =
     (case fc_points c of
        [] \<Rightarrow> None
      | p # ps \<Rightarrow> if list_all (\<lambda>q. fp_speed_pct q = fp_speed_pct p) (p # ps) then Some (fp_speed_pct p) else None)"

definition ascii_upper :: "char \<Rightarrow> char" where
  "ascii_upper c = (let n = (of_char c :: nat) in if 97 \<le> n \<and> n \<le> 122 then char_of (n - 32) else c)"

definition minimum_token :: "string \<Rightarrow> u8 option" where
  "minimum_token tok =
     (case parse_u32 (trim_end_char CHR '':'' (trim_end_char CHR ''%'' tok)) of
        Some v \<Rightarrow> if v \<le> 100 then Some v else None
      | None \<Rightarrow> None)"

fun minimum_in_lines :: "string list \<Rightarrow> u8 option" where
  "minimum_in_lines [] = None"
| "minimum_in_lines (line # ls) =
     (let trimmed = trim line in
      if trimmed = [] then minimum_in_lines ls
      else if strip_prefix ''OD_RANGE'' (map ascii_upper trimmed) \<noteq> None then None
      else (case List.map_filter minimum_token (split_whitespace trimmed) of
              v # _ \<Rightarrow> Some v
            | [] \<Rightarrow> minimum_in_lines ls))"

definition parse_fan_minimum_pwm :: "string \<Rightarrow> u8 option" where
  "parse_fan_minimum_pwm content = minimum_in_lines (text_lines content)"

fun zero_rpm_value :: "bool \<Rightarrow> string list \<Rightarrow> string option" where
  "zero_rpm_value found [] = None"
| "zero_rpm_value found (line # ls) =
     (if str_contains line ''FAN_ZERO_RPM_ENABLE:'' \<and> \<not> str_contains line ''OD_RANGE'' then zero_rpm_value True ls
      else if found then Some (trim line)
      else zero_rpm_value found ls)"

definition parse_zero_rpm_enabled :: "string \<Rightarrow> bool option" where
  "parse_zero_rpm_enabled content =
     (case zero_rpm_value False (text_lines content) of
        None \<Rightarrow> None
      | Some v \<Rightarrow> if v = ''0'' then Some False else if v = ''1'' then Some True else None)"

definition read_zero_rpm_enabled :: "'w Host \<Rightarrow> string \<Rightarrow> 'w \<Rightarrow> bool option \<times> 'w" where
  "read_zero_rpm_enabled h path w =
     (case read_file h path w of (Inl _, w) \<Rightarrow> (None, w) | (Inr s, w) \<Rightarrow> (parse_zero_rpm_enabled s, w))"

section \<open>Writing a curve\<close>

type_synonym 'w write_step = "'w \<Rightarrow> (HwmonError + unit) \<times> 'w"

definition put :: "'w Host \<Rightarrow> string \<Rightarrow> string \<Rightarrow> 'w write_step" where
  "put h path v w = (case write_file h path v w of (Inl _, w) \<Rightarrow> (Inl (WriteError path), w) | (Inr _, w) \<Rightarrow> (Inr (), w))"

definition then_step :: "'w write_step \<Rightarrow> 'w write_step \<Rightarrow> 'w write_step" where
  "then_step f g w = (case f w of (Inl e, w) \<Rightarrow> (Inl e, w) | (Inr _, w) \<Rightarrow> g w)"

definition point_text :: "FanCurvePoint \<Rightarrow> string" where
  "point_text p = show_nat (fp_index p) @ '' '' @ show_int (fp_temp_c p) @ '' '' @ show_nat (fp_speed_pct p) @ [newline]"

fun write_fan_curve :: "'w Host \<Rightarrow> string \<Rightarrow> FanCurvePoint list \<Rightarrow> 'w write_step" where
  "write_fan_curve h path [] = put h path (''c'' @ [newline])"
| "write_fan_curve h path (p # ps) = then_step (put h path (point_text p)) (write_fan_curve h path ps)"

definition switch_zero_rpm :: "'w Host \<Rightarrow> string \<Rightarrow> string \<Rightarrow> 'w write_step" where
  "switch_zero_rpm h path v = then_step (put h path (v @ [newline])) (put h path (''c'' @ [newline]))"

definition disable_zero_rpm :: "'w Host \<Rightarrow> string \<Rightarrow> 'w write_step" where
  "disable_zero_rpm h path w =
     (case read_file h path w of
        (Inr content, w) \<Rightarrow>
          if zero_rpm_value False (text_lines content) = Some ''0'' then (Inr (), w) else switch_zero_rpm h path ''0'' w
      | (Inl _, w) \<Rightarrow> switch_zero_rpm h path ''0'' w)"

definition enable_zero_rpm :: "'w Host \<Rightarrow> string \<Rightarrow> 'w write_step" where
  "enable_zero_rpm h path = switch_zero_rpm h path ''1''"

definition curve_limits :: "HwmonError + FanCurve \<Rightarrow> (int \<times> int) \<times> (u8 \<times> u8)" where
  "curve_limits r =
     (case r of
        Inr c \<Rightarrow> (case fc_temp_range c of Some t \<Rightarrow> t | None \<Rightarrow> (25, 100), case fc_speed_range c of Some s \<Rightarrow> s | None \<Rightarrow> (15, 100))
      | Inl _ \<Rightarrow> ((25, 100), (15, 100)))"

definition static_point :: "(int \<times> int) \<times> (u8 \<times> u8) \<Rightarrow> u8 \<Rightarrow> u8 \<Rightarrow> nat \<Rightarrow> FanCurvePoint" where
  "static_point = (\<lambda>((temp_min, temp_max), (speed_min, speed_max)) speed_pct num_points i.
     let divisor = max (int (max num_points 1) - 1) 1;
         raw_temp = temp_min + (int i * (temp_max - temp_min)) sdiv divisor
     in \<lparr>fp_index = i, fp_temp_c = min (max raw_temp temp_min) temp_max,
         fp_speed_pct = min (max speed_pct speed_min) speed_max\<rparr>)"

definition static_points :: "(int \<times> int) \<times> (u8 \<times> u8) \<Rightarrow> u8 \<Rightarrow> u8 \<Rightarrow> FanCurvePoint list" where
  "static_points limits speed_pct num_points = map (static_point limits speed_pct num_points) [0..<num_points]"

definition set_static_speed_with_zero_rpm ::
    "'w Host \<Rightarrow> string \<Rightarrow> string option \<Rightarrow> u8 \<Rightarrow> u8 \<Rightarrow> bool \<Rightarrow> 'w write_step" where
  "set_static_speed_with_zero_rpm h curve zero_rpm speed_pct num_points preserve w =
     (let w = (if preserve then w else case zero_rpm of None \<Rightarrow> w | Some z \<Rightarrow> snd (disable_zero_rpm h z w))
      in case read_fan_curve h curve w of (r, w) \<Rightarrow>
           write_fan_curve h curve (static_points (curve_limits r) speed_pct num_points) w)"

definition set_static_speed :: "'w Host \<Rightarrow> string \<Rightarrow> string option \<Rightarrow> u8 \<Rightarrow> u8 \<Rightarrow> 'w write_step" where
  "set_static_speed h curve zero_rpm speed_pct num_points = set_static_speed_with_zero_rpm h curve zero_rpm speed_pct num_points False"

text \<open>Zero-RPM is switched back on whether or not the reset of the curve worked.\<close>

definition reset_to_auto :: "'w Host \<Rightarrow> string \<Rightarrow> string option \<Rightarrow> 'w write_step" where
  "reset_to_auto h curve zero_rpm w =
     (case then_step (put h curve (''r'' @ [newline])) (put h curve (''c'' @ [newline])) w of
        (r, w) \<Rightarrow> (r, case zero_rpm of None \<Rightarrow> w | Some z \<Rightarrow> snd (enable_zero_rpm h z w)))"

section \<open>Legacy cards\<close>

definition path_join :: "string \<Rightarrow> string \<Rightarrow> string" where
  "path_join d f = (if d = [] then f else if List.last d = CHR ''/'' then d @ f else d @ ''/'' @ f)"

definition set_legacy_raw :: "'w Host \<Rightarrow> string \<Rightarrow> u8 \<Rightarrow> 'w write_step" where
  "set_legacy_raw h hwmon raw =
     then_step (put h (path_join hwmon ''pwm1_enable'') (''1'' @ [newline])) (put h (path_join hwmon ''pwm1'') (show_nat raw @ [newline]))"

definition set_legacy_pwm :: "'w Host \<Rightarrow> string \<Rightarrow> u8 \<Rightarrow> 'w write_step" where
  "set_legacy_pwm h hwmon speed_pct =
     then_step (put h (path_join hwmon ''pwm1_enable'') (''1'' @ [newline]))
       (put h (path_join hwmon ''pwm1'') (show_nat (percent_to_raw speed_pct) @ [newline]))"

definition set_legacy_mode :: "'w Host \<Rightarrow> string \<Rightarrow> u8 \<Rightarrow> 'w write_step" where
  "set_legacy_mode h hwmon mode = put h (path_join hwmon ''pwm1_enable'') (show_nat mode @ [newline])"

definition reset_legacy_to_auto :: "'w Host \<Rightarrow> string \<Rightarrow> 'w write_step" where
  "reset_legacy_to_auto h hwmon = put h (path_join hwmon ''pwm1_enable'') (''2'' @ [newline])"

section \<open>The record of a legacy take\<close>

definition GPU_RECORD_HEADER :: string where
  "GPU_RECORD_HEADER = ''# control-ofc GPU hand-back record v1''"

definition AMDGPU_PWM_ENABLE_AUTO :: u8 where
  "AMDGPU_PWM_ENABLE_AUTO = 2"

datatype LegacyOriginal = LegacyMode u8 | LegacyManual u8

definition legacy_from_read :: "u8 option \<Rightarrow> u8 option \<Rightarrow> LegacyOriginal" where
  "legacy_from_read enable raw_pwm =
     (case enable of
        None \<Rightarrow> LegacyMode AMDGPU_PWM_ENABLE_AUTO
      | Some m \<Rightarrow>
          if m = 1 then (case raw_pwm of Some raw \<Rightarrow> LegacyManual raw | None \<Rightarrow> LegacyMode AMDGPU_PWM_ENABLE_AUTO)
          else LegacyMode m)"

fun record_fields :: "LegacyOriginal \<Rightarrow> string \<times> u8" where
  "record_fields (LegacyMode m) = (''mode'', m)"
| "record_fields (LegacyManual raw) = (''manual'', raw)"

definition from_record_fields :: "string \<Rightarrow> string \<Rightarrow> LegacyOriginal option" where
  "from_record_fields kind value =
     (case parse_u8 (trim value) of
        None \<Rightarrow> None
      | Some v \<Rightarrow> if kind = ''mode'' then Some (LegacyMode v) else if kind = ''manual'' then Some (LegacyManual v) else None)"

definition record_lines_of :: "string \<Rightarrow> string list" where
  "record_lines_of body = filter (\<lambda>l. l \<noteq> [] \<and> hd l \<noteq> CHR ''#'') (text_lines body)"

definition gpu_record_lines :: "'w Host \<Rightarrow> string \<Rightarrow> 'w \<Rightarrow> string list \<times> 'w" where
  "gpu_record_lines h path w =
     (case read_file h path w of (Inl _, w) \<Rightarrow> ([], w) | (Inr body, w) \<Rightarrow> (record_lines_of body, w))"

definition other_gpu_lines :: "'w Host \<Rightarrow> string \<Rightarrow> string \<Rightarrow> 'w \<Rightarrow> string list \<times> 'w" where
  "other_gpu_lines h path enable w =
     (case gpu_record_lines h path w of (ls, w) \<Rightarrow> (filter (\<lambda>l. hd (split_on tab l) \<noteq> enable) ls, w))"

definition gpu_record_body :: "string list \<Rightarrow> string" where
  "gpu_record_body lines = GPU_RECORD_HEADER @ [newline] @ concat (map (\<lambda>l. l @ [newline]) lines)"

definition write_gpu_record :: "'w Host \<Rightarrow> string \<Rightarrow> string list \<Rightarrow> 'w \<Rightarrow> 'w" where
  "write_gpu_record h path lines w = snd (write_replacing h path (gpu_record_body lines) w)"

definition line_original :: "string \<Rightarrow> string \<Rightarrow> LegacyOriginal option" where
  "line_original enable l =
     (case split_on tab l of
        en # pw # kind # value # _ \<Rightarrow> if en = enable then from_record_fields kind value else None
      | _ \<Rightarrow> None)"

definition legacy_line :: "string \<Rightarrow> string \<Rightarrow> LegacyOriginal \<Rightarrow> string" where
  "legacy_line enable pwm original =
     (case record_fields original of (kind, value) \<Rightarrow> enable @ [tab] @ pwm @ [tab] @ kind @ [tab] @ show_nat value)"

definition note_legacy_take :: "'w Host \<Rightarrow> string \<Rightarrow> string \<Rightarrow> LegacyOriginal \<Rightarrow> 'w \<Rightarrow> LegacyOriginal \<times> 'w" where
  "note_legacy_take h path hwmon original w =
     (let enable = path_join hwmon ''pwm1_enable''; pwm = path_join hwmon ''pwm1''
      in case gpu_record_lines h path w of (ls, w) \<Rightarrow>
        (case List.map_filter (line_original enable) ls of
           standing # _ \<Rightarrow> (standing, w)
         | [] \<Rightarrow>
             let line = legacy_line enable pwm original
             in if count_list line tab \<noteq> 3 \<or> newline \<in> set line then (original, w)
                else case other_gpu_lines h path enable w of (others, w) \<Rightarrow>
                  case gpu_record_lines h path w of (all_lines, w) \<Rightarrow>
                    if length all_lines \<noteq> length others then (LegacyMode AMDGPU_PWM_ENABLE_AUTO, w)
                    else (original, write_gpu_record h path (others @ [line]) w)))"

definition note_legacy_handed_back :: "'w Host \<Rightarrow> (string \<Rightarrow> 'w \<Rightarrow> 'w) \<Rightarrow> string \<Rightarrow> string \<Rightarrow> 'w \<Rightarrow> 'w" where
  "note_legacy_handed_back h rm path hwmon w =
     (case other_gpu_lines h path (path_join hwmon ''pwm1_enable'') w of (ls, w) \<Rightarrow>
        if ls = [] then rm path w else write_gpu_record h path ls w)"

section \<open>The cards the daemon drove\<close>

definition PMFW_RECORD_HEADER :: string where
  "PMFW_RECORD_HEADER = ''# control-ofc PMFW GPU hand-back record v1''"

record PmfwState =
  pw_taken :: "(string, string \<times> string option) hmap"
  pw_record_path :: "string option"
  pw_record_error_logged :: bool

definition pmfw_default :: PmfwState where
  "pmfw_default = \<lparr>pw_taken = [], pw_record_path = None, pw_record_error_logged = False\<rparr>"

definition pmfw_record_line :: "string \<Rightarrow> string option \<Rightarrow> string option" where
  "pmfw_record_line curve zero_rpm =
     (let line = curve @ [tab] @ (case zero_rpm of None \<Rightarrow> ''-'' | Some z \<Rightarrow> z)
      in if count_list line tab = 1 \<and> newline \<notin> set line then Some line else None)"

text \<open>A \<open>BTreeMap\<close>: iterated in the order of its keys.\<close>

definition pmfw_cards :: "PmfwState \<Rightarrow> (string \<times> string \<times> string option) list" where
  "pmfw_cards st = sort_key fst (pw_taken st)"

definition pmfw_record_body :: "PmfwState \<Rightarrow> string" where
  "pmfw_record_body st =
     PMFW_RECORD_HEADER @ [newline] @
     concat (map (\<lambda>(i, curve, zero). case pmfw_record_line curve zero of Some l \<Rightarrow> l @ [newline] | None \<Rightarrow> []) (pmfw_cards st))"

definition persist_pmfw :: "'w Host \<Rightarrow> PmfwState \<Rightarrow> 'w \<Rightarrow> PmfwState \<times> 'w" where
  "persist_pmfw h st w =
     (case pw_record_path st of
        None \<Rightarrow> (st, w)
      | Some path \<Rightarrow>
          (case write_replacing h path (pmfw_record_body st) w of
             (written, w) \<Rightarrow> (st\<lparr>pw_record_error_logged := \<not> written\<rparr>, w)))"

definition pmfw_set_record_path :: "'w Host \<Rightarrow> string \<Rightarrow> PmfwState \<Rightarrow> 'w \<Rightarrow> PmfwState \<times> 'w" where
  "pmfw_set_record_path h path st w = persist_pmfw h (st\<lparr>pw_record_path := Some path\<rparr>) w"

definition pmfw_note_take :: "'w Host \<Rightarrow> string \<Rightarrow> string \<Rightarrow> string option \<Rightarrow> PmfwState \<Rightarrow> 'w \<Rightarrow> PmfwState \<times> 'w" where
  "pmfw_note_take h i curve zero st w =
     (if hm_contains (pw_taken st) i
      then (if pw_record_error_logged st then persist_pmfw h st w else (st, w))
      else persist_pmfw h (st\<lparr>pw_taken := hm_insert i (curve, zero) (pw_taken st)\<rparr>) w)"

definition pmfw_note_handed_back :: "'w Host \<Rightarrow> string \<Rightarrow> PmfwState \<Rightarrow> 'w \<Rightarrow> PmfwState \<times> 'w" where
  "pmfw_note_handed_back h i st w =
     (if hm_contains (pw_taken st) i then persist_pmfw h (st\<lparr>pw_taken := hm_remove i (pw_taken st)\<rparr>) w else (st, w))"

definition pmfw_is_taken :: "PmfwState \<Rightarrow> string \<Rightarrow> bool" where
  "pmfw_is_taken st i = hm_contains (pw_taken st) i"

definition try_taken_ids :: "bool \<Rightarrow> PmfwState \<Rightarrow> string list option" where
  "try_taken_ids locked st = (if locked then None else Some (map fst (pmfw_cards st)))"

definition taken_paths :: "PmfwState \<Rightarrow> string \<Rightarrow> (string \<times> string option) option" where
  "taken_paths st i = map_of (pw_taken st) i"

definition pmfw_try_taken :: "bool \<Rightarrow> PmfwState \<Rightarrow> (string \<times> string option) list option" where
  "pmfw_try_taken locked st = (if locked then None else Some (map snd (pmfw_cards st)))"

end
