(* ===== verification/Gpu_Text.thy ===== *)
theory Gpu_Text
  imports Gpu_Curve Hwmon_Return
begin

text \<open>
  What the PMFW curve and the GPU hand-back record promise: a flat curve stays inside what the device
  accepts whatever text the device shows, and the record of a legacy card keeps the first original.
\<close>

section \<open>The curve\<close>

definition ranges_ok :: "FanCurve \<Rightarrow> bool" where
  "ranges_ok c =
     ((case fc_temp_range c of None \<Rightarrow> True | Some (l, u) \<Rightarrow> - 50 \<le> l \<and> l \<le> u \<and> u \<le> 200) \<and>
      (case fc_speed_range c of None \<Rightarrow> True | Some (l, u) \<Rightarrow> l \<le> u \<and> u \<le> 100))"

lemma accept_bounds:
  "accept_temps b = Some (l, u) \<Longrightarrow> - 50 \<le> l \<and> l \<le> u \<and> u \<le> 200"
  "accept_speeds b = Some (m, n) \<Longrightarrow> m \<le> n \<and> n \<le> 100"
  by (auto simp: accept_temps_def accept_speeds_def temp_sane_def split: prod.splits if_splits)

lemma parse_line_ranges:
  assumes "ranges_ok c"
  shows "ranges_ok (parse_curve_line l c)"
proof -
  let ?c = "parse_curve_line l c"
  define temps where "temps = (if str_contains (trim l) ''hotspot temp'' then Option.bind (parse_bounds (trim l)) accept_temps else None)"
  define speeds where "speeds = (if str_contains (trim l) ''fan speed'' then Option.bind (parse_bounds (trim l)) accept_speeds else None)"
  have c: "fc_temp_range ?c = (case temps of Some r \<Rightarrow> Some r | None \<Rightarrow> fc_temp_range c)"
    "fc_speed_range ?c = (case speeds of Some r \<Rightarrow> Some r | None \<Rightarrow> fc_speed_range c)"
    unfolding parse_curve_line_def Let_def temps_def [symmetric] speeds_def [symmetric] by (simp_all split: option.split)
  have "temps = Some (t0, t1) \<Longrightarrow> - 50 \<le> t0 \<and> t0 \<le> t1 \<and> t1 \<le> 200" "speeds = Some (s0, s1) \<Longrightarrow> s0 \<le> s1 \<and> s1 \<le> 100" for t0 t1 s0 s1
    by (auto simp: temps_def speeds_def bind_eq_Some_conv dest: accept_bounds split: if_splits)
  with assms show ?thesis by (auto simp: ranges_ok_def c split: option.splits)
qed

lemma parse_curve_ranges:
  assumes "parse_fan_curve s = Inr c"
  shows "ranges_ok c"
proof -
  have "ranges_ok (fold parse_curve_line ls c0)" if "ranges_ok c0" for ls c0
    using that by (induction ls arbitrary: c0) (simp_all add: parse_line_ranges)
  from this [of "\<lparr>fc_points = [], fc_temp_range = None, fc_speed_range = None\<rparr>" "text_lines s"]
  show ?thesis using assms by (auto simp: parse_fan_curve_def Let_def ranges_ok_def split: if_splits)
qed

lemma curve_limits_bounds:
  assumes "read_fan_curve h path w = (r, w')" "curve_limits r = ((t0, t1), (s0, s1))"
  shows "- 50 \<le> t0" "t0 \<le> t1" "t1 \<le> 200" "s0 \<le> s1" "s1 \<le> 100"
proof -
  have "ranges_ok c" if "r = Inr c" for c
    using assms(1) that parse_curve_ranges by (auto simp: read_fan_curve_def split: prod.splits sum.splits)
  then have "- 50 \<le> t0 \<and> t0 \<le> t1 \<and> t1 \<le> 200 \<and> s0 \<le> s1 \<and> s1 \<le> 100"
    using assms(2) by (auto simp: curve_limits_def ranges_ok_def split: sum.splits option.splits)
  then show "- 50 \<le> t0" "t0 \<le> t1" "t1 \<le> 200" "s0 \<le> s1" "s1 \<le> 100" by simp_all
qed

lemma static_temp:
  assumes "t0 \<le> t1" "i < n"
  shows "fp_temp_c (static_point ((t0, t1), s) pct n i) = t0 + int i * (t1 - t0) div max (int n - 1) 1"
    and "int i * (t1 - t0) div max (int n - 1) 1 \<in> {0 .. t1 - t0}"
proof -
  let ?d = "max (int n - 1) 1"
  have d: "max (int (max n (Suc 0)) - 1) 1 = ?d" using assms(2) by auto
  have nn: "0 \<le> int i * (t1 - t0)" using assms(1) by simp
  have q: "(int i * (t1 - t0)) sdiv ?d = int i * (t1 - t0) div ?d" using nn by (simp add: signed_divide_int_def sgn_if)
  have "int i * (t1 - t0) \<le> ?d * (t1 - t0)" using assms by (intro mult_right_mono) auto
  then have "int i * (t1 - t0) div ?d \<le> ?d * (t1 - t0) div ?d" by (rule zdiv_mono1) simp
  then show b: "int i * (t1 - t0) div ?d \<in> {0 .. t1 - t0}" using nn by (simp add: pos_imp_zdiv_nonneg_iff)
  then show "fp_temp_c (static_point ((t0, t1), s) pct n i) = t0 + int i * (t1 - t0) div ?d"
    by (cases s) (simp add: static_point_def Let_def d q)
qed

text \<open>C19: a flat curve stays inside what the device accepts, whatever its curve file says. The points are
  numbered in order, their temperatures do not decrease and run from the lowest to the highest allowed
  one, the speed is the wanted one held inside the allowed range and never above 100, and no step of the
  arithmetic leaves an \<open>i32\<close>.\<close>

theorem flat_curve_is_accepted:
  assumes "read_fan_curve h path w = (r, w')" "curve_limits r = ((t0, t1), (s0, s1))"
    and "2 \<le> n" "n \<le> 255" "ps = static_points (curve_limits r) pct n"
  shows "- 50 \<le> t0 \<and> t1 \<le> 200 \<and> s1 \<le> 100 \<and> map fp_index ps = [0..<n] \<and>
    sorted (map fp_temp_c ps) \<and> fp_temp_c (hd ps) = t0 \<and> fp_temp_c (last ps) = t1 \<and>
    map fp_speed_pct ps = replicate n (min (max pct s0) s1) \<and> s0 \<le> min (max pct s0) s1 \<and>
    list_all (\<lambda>i. \<bar>int i * (t1 - t0)\<bar> < 2 ^ 31) [0..<n]"
proof -
  note b = curve_limits_bounds [OF assms(1,2)]
  have ps: "ps = map (static_point ((t0, t1), (s0, s1)) pct n) [0..<n]" using assms(2,5) by (simp add: static_points_def)
  have temp: "fp_temp_c (static_point ((t0, t1), (s0, s1)) pct n i) = t0 + int i * (t1 - t0) div (int n - 1)" if "i < n" for i
    using static_temp(1) [OF b(2) that] assms(3) by simp
  have "sorted (map fp_temp_c ps)"
    using b(2) assms(3) by (auto simp: ps sorted_iff_nth_mono temp intro!: zdiv_mono1 mult_right_mono)
  moreover have "fp_temp_c (hd ps) = t0" using assms(3) temp [of 0] by (simp add: ps hd_map)
  moreover have "fp_temp_c (last ps) = t1" using assms(3) temp [of "n - 1"] by (simp add: ps last_map of_nat_diff)
  moreover have "map fp_index ps = [0..<n]" by (simp add: ps static_point_def Let_def comp_def)
  moreover have "map fp_speed_pct ps = replicate n (min (max pct s0) s1)"
    by (simp add: ps static_point_def Let_def comp_def map_replicate_trivial flip: map_replicate_const)
  moreover have "\<bar>int i * (t1 - t0)\<bar> < 2 ^ 31" if "i < n" for i
  proof -
    have "int i * (t1 - t0) \<le> 255 * 250" using that assms(4) b by (intro mult_mono) auto
    then show ?thesis using b(2) by simp
  qed
  ultimately show ?thesis using b by (auto simp: list_all_iff)
qed

section \<open>The record\<close>

text \<open>Reading a file changes nothing, and the record can be written and then reads as written.\<close>

definition keeps_record :: "'w Host \<Rightarrow> string \<Rightarrow> bool" where
  "keeps_record h path =
     ((\<forall>p w. snd (read_file h p w) = w) \<and>
      (\<forall>b w. fst (write_replacing h path b w) \<and> fst (read_file h path (snd (write_replacing h path b w))) = Inr b))"

lemma keeps_recordD:
  assumes "keeps_record h path"
  shows "snd (read_file h p w) = w" "read_file h path (snd (write_replacing h path b w)) = (Inr b, snd (write_replacing h path b w))"
  using assms by (simp_all add: keeps_record_def prod_eq_iff)

lemma record_lines_read:
  assumes "keeps_record h path"
  obtains ls where "gpu_record_lines h path w = (ls, w)" "other_gpu_lines h path enable w = (filter (\<lambda>l. hd (split_on tab l) \<noteq> enable) ls, w)"
    "list_all (\<lambda>l. l \<noteq> [] \<and> hd l \<noteq> CHR ''#'' \<and> newline \<notin> set l) ls"
proof -
  have "newline \<notin> set l" if "l \<in> set (text_lines s)" for l s
  proof -
    have n: "newline \<notin> set l" if "l \<in> set (split_on newline s)" for l
      using that by (induction s arbitrary: l) (auto split: if_splits list.splits)
    then show ?thesis using that
      by (auto simp: text_lines_def strip_cr_def Let_def split: if_splits dest!: in_set_butlastD) 
  qed
  then have "list_all (\<lambda>l. l \<noteq> [] \<and> hd l \<noteq> CHR ''#'' \<and> newline \<notin> set l) (record_lines_of s)" for s
    by (auto simp: record_lines_of_def list_all_iff)
  then show thesis
    using that keeps_recordD(1) [OF assms, of path w]
    by (cases "read_file h path w"; cases "fst (read_file h path w)")
       (auto simp: gpu_record_lines_def other_gpu_lines_def)
qed

lemma record_body_lines:
  assumes "list_all (\<lambda>l. newline \<notin> set l) ls"
  shows "record_lines_of (gpu_record_body ls) = filter (\<lambda>l. l \<noteq> [] \<and> hd l \<noteq> CHR ''#'') (map strip_cr ls)"
proof -
  have b: "gpu_record_body ls = concat (map (\<lambda>s. s @ [newline]) (GPU_RECORD_HEADER # ls))" by (simp add: gpu_record_body_def)
  have "list_all (\<lambda>l. newline \<notin> set l) (GPU_RECORD_HEADER # ls)" using assms by (simp add: GPU_RECORD_HEADER_def)
  from split_on_groups [OF this, folded b]
  have "text_lines (gpu_record_body ls) = map strip_cr (GPU_RECORD_HEADER # ls)" by (simp add: text_lines_def Let_def)
  then show ?thesis by (simp add: record_lines_of_def GPU_RECORD_HEADER_def strip_cr_def)
qed

lemma split_on_hd: "c \<in> set s \<Longrightarrow> hd (split_on c (s @ t)) = hd (split_on c s)"
proof (induction s)
  case (Cons x s)
  then show ?case by (cases "x = c"; cases "split_on c (s @ t)"; cases "split_on c s") auto
qed simp

lemma stripped_not_standing:
  assumes "hd (split_on tab l) \<noteq> enable"
  shows "line_original enable (strip_cr l) = None"
proof (rule ccontr)
  assume a: "line_original enable (strip_cr l) \<noteq> None"
  then obtain pw rest where f: "split_on tab (strip_cr l) = enable # pw # rest"
    by (auto simp: line_original_def split: list.splits if_splits)
  then have t: "tab \<in> set (strip_cr l)" using split_on_whole [of tab "strip_cr l"] by force
  have "l = strip_cr l @ (if l \<noteq> [] \<and> last l = CHR 0x0D then [CHR 0x0D] else [])"
    by (cases l rule: rev_cases) (auto simp: strip_cr_def)
  then have "hd (split_on tab l) = hd (split_on tab (strip_cr l))" using split_on_hd [OF t] by metis
  then show False using assms f by simp
qed

lemma count_list_0: "count_list xs x = 0 \<longleftrightarrow> x \<notin> set xs"
  by (induction xs) auto

lemma legacy_line_original:
  assumes "tab \<notin> set enable" "tab \<notin> set pwm" "snd (record_fields o1) \<le> 255"
  shows "line_original enable (legacy_line enable pwm o1) = Some o1"
proof -
  have k: "tab \<notin> set (fst (record_fields o1))" by (cases o1) simp_all
  have "split_on tab (legacy_line enable pwm o1) = [enable, pwm, fst (record_fields o1), show_nat (snd (record_fields o1))]"
    using assms(1,2) k show_nat_clean [of tab] by (simp add: legacy_line_def case_prod_beta split_on_snoc split_on_whole)
  then show ?thesis using assms(3)
    by (cases o1) (simp_all add: line_original_def from_record_fields_def trim_show_nat parse_show_nat)
qed

text \<open>Lemma: a verify never takes the daemon's own leftover for the original. The first take of a legacy fan
  records what the fan was doing; every later take answers the same original and leaves the record alone,
  whatever the fan reads then, whatever other lines the record holds, and also where a damaged line made
  the first take fall back on automatic.\<close>

theorem first_legacy_original_stands:
  assumes "keeps_record h path" "hwmon = CHR ''/'' # rest" "tab \<notin> set hwmon" "newline \<notin> set hwmon"
    and "snd (record_fields o1) \<le> 255" "note_legacy_take h path hwmon o1 w = (standing, w1)"
  shows "note_legacy_take h path hwmon o2 w1 = (standing, w1)"
proof -
  let ?en = "path_join hwmon ''pwm1_enable''" and ?pw = "path_join hwmon ''pwm1''"
  have en: "tab \<notin> set ?en" "newline \<notin> set ?en" "?en \<noteq> []" "hd ?en = CHR ''/''" "tab \<notin> set ?pw" "newline \<notin> set ?pw"
    using assms(2-4) by (auto simp: path_join_def)
  obtain ls where ls: "gpu_record_lines h path w = (ls, w)" "other_gpu_lines h path ?en w = (filter (\<lambda>l. hd (split_on tab l) \<noteq> ?en) ls, w)"
    "list_all (\<lambda>l. l \<noteq> [] \<and> hd l \<noteq> CHR ''#'' \<and> newline \<notin> set l) ls"
    by (rule record_lines_read [OF assms(1)])
  let ?line = "legacy_line ?en ?pw o1"
  have line: "count_list (legacy_line ?en ?pw x) tab = 3" "newline \<notin> set (legacy_line ?en ?pw x)" for x
    using en show_nat_clean [of tab] show_nat_clean [of newline]
    by (cases x; simp add: legacy_line_def count_list_0)+
  show ?thesis
  proof (cases "List.map_filter (line_original ?en) ls")
    case (Cons s ss)
    then show ?thesis using assms(6) ls(1) by (auto simp: note_legacy_take_def Let_def)
  next
    case Nil
    show ?thesis
    proof (cases "filter (\<lambda>l. hd (split_on tab l) \<noteq> ?en) ls = ls")
      case False
      then have "length ls \<noteq> length (filter (\<lambda>l. hd (split_on tab l) \<noteq> ?en) ls)"
        by (metis filter_True length_filter_less order_less_irrefl)
      then show ?thesis using assms(6) Nil ls(1,2) line by (auto simp: note_legacy_take_def Let_def)
    next
      case True
      let ?ls = "ls @ [?line]"
      have w1: "standing = o1" "w1 = snd (write_replacing h path (gpu_record_body ?ls) w)"
        using assms(6) Nil ls(1,2) line True by (auto simp: note_legacy_take_def Let_def write_gpu_record_def)
      have "list_all (\<lambda>l. newline \<notin> set l) ?ls" using ls(3) line(2) by (auto simp: list_all_iff)
      note b = record_body_lines [OF this]
      have "last ?line = last (show_nat (snd (record_fields o1)))" "?line \<noteq> []" "hd ?line = hd ?en"
        using show_nat_spec [of "snd (record_fields o1)"] en(3) by (simp_all add: legacy_line_def case_prod_beta)
      moreover have "is_digit (last (show_nat (snd (record_fields o1))))"
        using show_nat_spec [of "snd (record_fields o1)"] by (auto simp: list_all_iff)
      ultimately have cr: "strip_cr ?line = ?line" "?line \<noteq> [] \<and> hd ?line \<noteq> CHR ''#''"
        using en(4) by (auto simp: strip_cr_def is_digit_def)
      have none: "List.map_filter (line_original ?en) (filter P (map strip_cr ls)) = []" for P
        using True by (auto simp: map_filter_def filter_empty_conv filter_id_conv stripped_not_standing)
      have "List.map_filter (line_original ?en) (record_lines_of (gpu_record_body ?ls)) = [o1]"
        using none [of "\<lambda>l. l \<noteq> [] \<and> hd l \<noteq> CHR ''#''"] cr legacy_line_original [OF en(1,5) assms(5)]
        by (simp add: b map_filter_def)
      then show ?thesis
        using keeps_recordD(2) [OF assms(1), of "gpu_record_body ?ls" w] w1
        by (simp add: note_legacy_take_def Let_def gpu_record_lines_def)
    qed
  qed
qed

section \<open>Witnesses\<close>

text \<open>A world that is one file.\<close>

definition one_file :: "string option Host" where
  "one_file = \<lparr>write_file = (\<lambda>p v w. (Inr (), Some v)), read_file = (\<lambda>p w. (case w of None \<Rightarrow> Inl (ReadError p) | Some b \<Rightarrow> Inr b, w)),
     write_replacing = (\<lambda>p b w. (True, Some b)), hand_back_begun = (\<lambda>_. False), begin_hand_back = (\<lambda>w. w)\<rparr>"

definition navi_text :: string where
  "navi_text = ''OD_FAN_CURVE:'' @ [newline] @ ''0: 25C 30%'' @ [newline] @ ''1: 90C 80%'' @ [newline] @ ''OD_RANGE:'' @ [newline] @
     ''FAN_CURVE(hotspot temp): 25C 90C'' @ [newline] @ ''FAN_CURVE(fan speed): 20% 95%'' @ [newline]"

theorem flat_curve_is_accepted_witness:
  "map (\<lambda>p. (fp_index p, fp_temp_c p, fp_speed_pct p)) (static_points (curve_limits (fst (read_fan_curve one_file ''p'' (Some navi_text)))) 10 5) =
     [(0, 25, 20), (1, 41, 20), (2, 57, 20), (3, 73, 20), (4, 90, 20)] \<and>
   sorted (map fp_temp_c (static_points (curve_limits (fst (read_fan_curve one_file ''p'' (Some navi_text)))) 10 5))"
proof -
  have r: "curve_limits (fst (read_fan_curve one_file ''p'' (Some navi_text))) = ((25, 90), (20, 95))" by code_simp
  obtain x w' where x: "read_fan_curve one_file ''p'' (Some navi_text) = (x, w')" by (rule prod.exhaust)
  have "sorted (map fp_temp_c (static_points (curve_limits x) 10 5))"
    using flat_curve_is_accepted [OF x, of 25 90 20 95 5 "static_points (curve_limits x) 10 5" 10] r x by simp
  moreover have "map (\<lambda>p. (fp_index p, fp_temp_c p, fp_speed_pct p)) (static_points ((25, 90), (20, 95)) 10 5) =
     [(0, 25, 20), (1, 41, 20), (2, 57, 20), (3, 73, 20), (4, 90, 20)]" by code_simp
  ultimately show ?thesis using r x by simp
qed

theorem first_legacy_original_stands_witness:
  "note_legacy_take one_file ''/run/gpu'' ''/hw'' (LegacyManual 191) (snd (note_legacy_take one_file ''/run/gpu'' ''/hw'' (LegacyMode 2) None)) =
     (LegacyMode 2, snd (note_legacy_take one_file ''/run/gpu'' ''/hw'' (LegacyMode 2) None)) \<and>
   snd (note_legacy_take one_file ''/run/gpu'' ''/hw'' (LegacyMode 2) None) \<noteq> None"
proof -
  have k: "keeps_record one_file ''/run/gpu''" by (simp add: keeps_record_def one_file_def)
  have v: "fst (note_legacy_take one_file ''/run/gpu'' ''/hw'' (LegacyMode 2) None) = LegacyMode 2"
    "snd (note_legacy_take one_file ''/run/gpu'' ''/hw'' (LegacyMode 2) None) \<noteq> None" by code_simp+
  obtain st w1 where t: "note_legacy_take one_file ''/run/gpu'' ''/hw'' (LegacyMode 2) None = (st, w1)" by (rule prod.exhaust)
  show ?thesis using first_legacy_original_stands [OF k, of "''/hw''" "''hw''", OF _ _ _ _ t, of "LegacyManual 191"] v t by simp
qed

end
