(* ===== verification/Gpu_Backend.thy ===== *)
theory Gpu_Backend
  imports Gpu_Curve Hwmon_Control Bounded_Write Force_Scope
begin

text \<open>
  Who writes an AMD GPU fan: the engine's GPU backend (\<open>GpuBackend\<close> of \<open>profile_engine/backends.rs\<close>), and
  the reset and the verify of \<open>api/handlers/gpu.rs\<close>. Each runs its writes in a blocking task that owns the
  GPU write lock; \<open>ge_others\<close> is what the rest of the daemon and the machine do between two steps of such a
  task. Texts of answers and logs are left out.
\<close>

section \<open>The shared state\<close>

record AmdGpuFanState =
  gf_id :: string
  gf_rpm :: "nat option"
  gf_last_commanded_pct :: "u8 option"
  gf_duty_pct :: "u8 option"
  gf_updated_at :: instant

record GpuCache =
  gc_state :: DaemonState
  gc_gpu_fans :: "(string, AmdGpuFanState) hmap"
  gc_relinquished :: "string set"
  gc_handback :: PmfwState

type_synonym 'w gw = "GpuCache \<times> 'w"

record 'w GpuEnv =
  ge_host :: "'w Host"
  ge_now :: "'w \<Rightarrow> instant"
  ge_others :: "'w gw \<Rightarrow> 'w gw"

definition gpu_verify_active :: "'w GpuEnv \<Rightarrow> 'w gw \<Rightarrow> bool" where
  "gpu_verify_active env = (\<lambda>(c, w). verify_active_at (ge_now env w) (gc_state c))"

definition relinquish_gpu_fan :: "string \<Rightarrow> GpuCache \<Rightarrow> bool \<times> GpuCache" where
  "relinquish_gpu_fan i c = (i \<notin> gc_relinquished c, c\<lparr>gc_relinquished := insert i (gc_relinquished c)\<rparr>)"

definition unrelinquish_gpu_fan :: "string \<Rightarrow> GpuCache \<Rightarrow> GpuCache" where
  "unrelinquish_gpu_fan i c = c\<lparr>gc_relinquished := gc_relinquished c - {i}\<rparr>"

definition clear_relinquished_gpu_fans :: "GpuCache \<Rightarrow> GpuCache" where
  "clear_relinquished_gpu_fans c = c\<lparr>gc_relinquished := {}\<rparr>"

definition is_gpu_fan_relinquished :: "string \<Rightarrow> GpuCache \<Rightarrow> bool" where
  "is_gpu_fan_relinquished i c = (i \<in> gc_relinquished c)"

definition set_gpu_fan_commanded_pct :: "instant \<Rightarrow> string \<Rightarrow> u8 \<Rightarrow> GpuCache \<Rightarrow> GpuCache" where
  "set_gpu_fan_commanded_pct now i pct c =
     (let fan = (case map_of (gc_gpu_fans c) i of Some f \<Rightarrow> f
        | None \<Rightarrow> \<lparr>gf_id = i, gf_rpm = None, gf_last_commanded_pct = None, gf_duty_pct = None, gf_updated_at = now\<rparr>)
      in c\<lparr>gc_gpu_fans := hm_insert i (fan\<lparr>gf_last_commanded_pct := Some pct\<rparr>) (gc_gpu_fans c)\<rparr>)"

definition clear_gpu_fan_commanded_pct :: "string \<Rightarrow> GpuCache \<Rightarrow> GpuCache" where
  "clear_gpu_fan_commanded_pct i c =
     (case map_of (gc_gpu_fans c) i of
        None \<Rightarrow> c
      | Some f \<Rightarrow> c\<lparr>gc_gpu_fans := hm_insert i (f\<lparr>gf_last_commanded_pct := None\<rparr>) (gc_gpu_fans c)\<rparr>)"

definition gpu_commanded :: "GpuCache \<Rightarrow> string \<Rightarrow> u8 option" where
  "gpu_commanded c i = Option.bind (map_of (gc_gpu_fans c) i) gf_last_commanded_pct"

definition take_card :: "'w GpuEnv \<Rightarrow> string \<Rightarrow> string \<Rightarrow> string option \<Rightarrow> 'w gw \<Rightarrow> 'w gw" where
  "take_card env i curve zero = (\<lambda>(c, w).
     case pmfw_note_take (ge_host env) i curve zero (gc_handback c) w of (hb, w) \<Rightarrow> (c\<lparr>gc_handback := hb\<rparr>, w))"

definition hand_card_back :: "'w GpuEnv \<Rightarrow> string \<Rightarrow> 'w gw \<Rightarrow> 'w gw" where
  "hand_card_back env i = (\<lambda>(c, w).
     case pmfw_note_handed_back (ge_host env) i (gc_handback c) w of (hb, w) \<Rightarrow> (c\<lparr>gc_handback := hb\<rparr>, w))"

definition on_cache :: "(GpuCache \<Rightarrow> GpuCache) \<Rightarrow> 'w gw \<Rightarrow> 'w gw" where
  "on_cache f = (\<lambda>(c, w). (f c, w))"

definition on_host :: "('w \<Rightarrow> 'a \<times> 'w) \<Rightarrow> 'w gw \<Rightarrow> 'a \<times> 'w gw" where
  "on_host f = (\<lambda>(c, w). case f w of (r, w) \<Rightarrow> (r, c, w))"

definition stamp_commanded :: "'w GpuEnv \<Rightarrow> string \<Rightarrow> u8 \<Rightarrow> 'w gw \<Rightarrow> 'w gw" where
  "stamp_commanded env i pct = (\<lambda>(c, w). (set_gpu_fan_commanded_pct (ge_now env w) i pct c, w))"

section \<open>Cards\<close>

record AmdGpuInfo =
  gi_pci_bdf :: string
  gi_pci_device_id :: nat
  gi_hwmon_path :: string
  gi_fan_curve_path :: "string option"
  gi_fan_zero_rpm_path :: "string option"
  gi_has_fan_rpm :: bool
  gi_has_pwm :: bool
  gi_has_pwm_enable :: bool

definition is_rdna3_or_rdna4 :: "nat \<Rightarrow> bool" where
  "is_rdna3_or_rdna4 d = (d \<in> {0x7550, 0x7551, 0x7590,
     0x7448, 0x7449, 0x744A, 0x744B, 0x744C, 0x745E, 0x7460, 0x7461,
     0x7470, 0x747E, 0x7480, 0x7481, 0x7483, 0x7489, 0x7499,
     0x15BF, 0x15C8, 0x1900, 0x1901,
     0x150E, 0x1114, 0x1586, 0x1902})"

definition can_write_legacy_pwm :: "AmdGpuInfo \<Rightarrow> bool" where
  "can_write_legacy_pwm g = (gi_has_pwm g \<and> gi_has_pwm_enable g \<and> \<not> is_rdna3_or_rdna4 (gi_pci_device_id g))"

definition fan_control_method :: "AmdGpuInfo \<Rightarrow> string" where
  "fan_control_method g =
     (if gi_fan_curve_path g \<noteq> None then ''pmfw_curve''
      else if can_write_legacy_pwm g then ''hwmon_pwm''
      else if gi_has_fan_rpm g \<or> gi_has_pwm g then ''read_only'' else ''none'')"

definition has_any_fan_interface :: "AmdGpuInfo \<Rightarrow> bool" where
  "has_any_fan_interface g = (gi_has_fan_rpm g \<or> gi_has_pwm g \<or> gi_fan_curve_path g \<noteq> None)"

definition amd_fan_id :: "string \<Rightarrow> string" where
  "amd_fan_id bdf = ''amd_gpu:'' @ bdf"

definition GPU_PMFW_NUM_CURVE_POINTS :: u8 where
  "GPU_PMFW_NUM_CURVE_POINTS = 5"

section \<open>The engine's task\<close>

definition gpu_blocking_write :: "'w GpuEnv \<Rightarrow> string \<Rightarrow> string option \<Rightarrow> u8 \<Rightarrow> bool \<Rightarrow> string \<Rightarrow> 'w gw \<Rightarrow> bool option \<times> 'w gw" where
  "gpu_blocking_write env curve zero speed_pct preserve i st =
     (let st = ge_others env st in
      if gpu_verify_active env st then (None, st)
      else let st = ge_others env st in
      if is_gpu_fan_relinquished i (fst st) then (None, st)
      else let st = take_card env i curve zero (ge_others env st) in
      case on_host (set_static_speed_with_zero_rpm (ge_host env) curve zero speed_pct GPU_PMFW_NUM_CURVE_POINTS preserve)
             (ge_others env st) of
        (Inr _, st) \<Rightarrow> (Some True, stamp_commanded env i speed_pct (ge_others env st))
      | (Inl _, st) \<Rightarrow> (Some False, st))"

text \<open>A card that left the list since the peek is not reset; the two paths come from the list.\<close>

definition gpu_give_back :: "'w GpuEnv \<Rightarrow> string \<Rightarrow> 'w gw \<Rightarrow> bool option \<times> 'w gw" where
  "gpu_give_back env i st =
     (let st = ge_others env st in
      if gpu_verify_active env st then (None, st)
      else let st = ge_others env st in
      case taken_paths (gc_handback (fst st)) i of
        None \<Rightarrow> (None, st)
      | Some (curve, zero) \<Rightarrow>
          (case on_host (reset_to_auto (ge_host env) curve zero) (ge_others env st) of
             (Inr _, st) \<Rightarrow>
               (Some True, hand_card_back env i (ge_others env (on_cache (clear_gpu_fan_commanded_pct i) (ge_others env st))))
           | (Inl _, st) \<Rightarrow> (Some False, st)))"

record GpuFanWrite =
  gw_fan_id :: string
  gw_path :: string
  gw_zero_rpm :: "string option"
  gw_pct :: u8
  gw_preserve_zero_rpm :: bool

text \<open>What one task reports: each write with the duty it attempted, and each reset; True is success.\<close>

record GpuTaskOutcome =
  to_writes :: "(string \<times> u8 \<times> bool option) list"
  to_handed_back :: "(string \<times> bool) list"

fun gpu_writes :: "'w GpuEnv \<Rightarrow> GpuFanWrite list \<Rightarrow> 'w gw \<Rightarrow> (string \<times> u8 \<times> bool option) list \<times> 'w gw" where
  "gpu_writes env [] st = ([], st)"
| "gpu_writes env (x # xs) st =
     (case gpu_blocking_write env (gw_path x) (gw_zero_rpm x) (gw_pct x) (gw_preserve_zero_rpm x) (gw_fan_id x) st of
        (r, st) \<Rightarrow> (case gpu_writes env xs st of (rs, st) \<Rightarrow> ((gw_fan_id x, gw_pct x, r) # rs, st)))"

fun gpu_give_backs :: "'w GpuEnv \<Rightarrow> string list \<Rightarrow> 'w gw \<Rightarrow> (string \<times> bool) list \<times> 'w gw" where
  "gpu_give_backs env [] st = ([], st)"
| "gpu_give_backs env (i # ids) st =
     (case gpu_give_back env i st of
        (r, st) \<Rightarrow> (case gpu_give_backs env ids st of
          (rs, st) \<Rightarrow> ((case r of Some ok \<Rightarrow> [(i, ok)] | None \<Rightarrow> []) @ rs, st)))"

record GpuTask =
  gt_batch :: "GpuFanWrite list"
  gt_give_back :: "string list"

definition gpu_task :: "'w GpuEnv \<Rightarrow> GpuTask \<Rightarrow> 'w gw \<Rightarrow> GpuTaskOutcome \<times> 'w gw" where
  "gpu_task env t st =
     (case gpu_writes env (gt_batch t) st of (ws, st) \<Rightarrow>
      case gpu_give_backs env (gt_give_back t) st of (hs, st) \<Rightarrow>
        (\<lparr>to_writes = ws, to_handed_back = hs\<rparr>, st))"

section \<open>The async side\<close>

definition GPU_WRITE_JOIN_BUDGET :: duration where
  "GPU_WRITE_JOIN_BUDGET = secs 1"

definition GPU_COALESCE_DELTA_PCT :: nat where
  "GPU_COALESCE_DELTA_PCT = 5"

definition GPU_FAIL_COOLDOWN :: duration where
  "GPU_FAIL_COOLDOWN = secs 60"

record 'h GpuBackend =
  gb_gpu_infos :: "AmdGpuInfo list"
  gb_fail_cache :: "(string, u8 \<times> instant) hmap"
  gb_writes :: "'h BoundedWrite"
  gb_stall_logged :: bool
  gb_lock_wait_logged :: bool
  gb_outstanding_batch :: "(string \<times> u8) list"
  gb_pmfw_fan_ids :: "string set"
  gb_give_back_failed :: "(string, instant) hmap"

definition gpu_backend_new :: "AmdGpuInfo list \<Rightarrow> 'h GpuBackend" where
  "gpu_backend_new infos =
     \<lparr>gb_gpu_infos = infos, gb_fail_cache = [], gb_writes = bounded_default, gb_stall_logged = False,
      gb_lock_wait_logged = False, gb_outstanding_batch = [],
      gb_pmfw_fan_ids = set (map (\<lambda>g. amd_fan_id (gi_pci_bdf g)) (filter (\<lambda>g. gi_fan_curve_path g \<noteq> None) infos)),
      gb_give_back_failed = []\<rparr>"

definition note_give_backs :: "instant \<Rightarrow> (string \<times> bool) list \<Rightarrow> 'h GpuBackend \<Rightarrow> 'h GpuBackend" where
  "note_give_backs now handed_back b =
     b\<lparr>gb_give_back_failed := fold (\<lambda>(i, ok) m. if ok then hm_remove i m else hm_insert i now m) handed_back (gb_give_back_failed b)\<rparr>"

definition note_gpu_write :: "instant \<Rightarrow> string \<times> u8 \<times> bool option \<Rightarrow> (string, u8 \<times> instant) hmap \<Rightarrow> (string, u8 \<times> instant) hmap" where
  "note_gpu_write now = (\<lambda>(i, pct, r) m.
     case r of None \<Rightarrow> m | Some True \<Rightarrow> hm_remove i m | Some False \<Rightarrow> hm_insert i (pct, now) m)"

text \<open>\<open>None\<close> is a task that panicked: every write of the outstanding batch counts as failed.\<close>

definition note_gpu_outcome :: "instant \<Rightarrow> GpuTaskOutcome option \<Rightarrow> 'h GpuBackend \<Rightarrow> 'h GpuBackend" where
  "note_gpu_outcome now joined b =
     (case joined of
        Some t \<Rightarrow>
          let b = note_give_backs now (to_handed_back t) b
          in b\<lparr>gb_fail_cache := fold (note_gpu_write now) (to_writes t) (gb_fail_cache b)\<rparr>
      | None \<Rightarrow>
          b\<lparr>gb_fail_cache := fold (\<lambda>(i, pct) m. hm_insert i (pct, now) m) (gb_outstanding_batch b) (gb_fail_cache b),
            gb_outstanding_batch := []\<rparr>)"

definition note_gpu_outcomes :: "instant \<Rightarrow> GpuTaskOutcome option WriteProgress \<Rightarrow> 'h GpuBackend \<Rightarrow> 'h GpuBackend" where
  "note_gpu_outcomes now p b = fold (note_gpu_outcome now) (wp_completed p) b"

definition cooled_down :: "instant \<Rightarrow> instant \<Rightarrow> bool" where
  "cooled_down now failed_at = (GPU_FAIL_COOLDOWN \<le> now - failed_at)"

definition give_back_candidates :: "instant \<Rightarrow> bool \<Rightarrow> PmfwState \<Rightarrow> GpuMembers \<Rightarrow> 'h GpuBackend \<Rightarrow> string list \<times> 'h GpuBackend" where
  "give_back_candidates now locked hb members b =
     (case try_taken_ids locked hb of
        None \<Rightarrow> ([], b)
      | Some ids \<Rightarrow>
          let failed = hm_retain (\<lambda>i _. i \<in> set ids \<and> \<not> gpu_names members i) (gb_give_back_failed b)
          in (filter (\<lambda>i. \<not> gpu_names members i \<and>
                (case map_of failed i of None \<Rightarrow> True | Some failed_at \<Rightarrow> cooled_down now failed_at)) ids,
              b\<lparr>gb_give_back_failed := failed\<rparr>))"

definition coalesced :: "GpuCache \<Rightarrow> string \<Rightarrow> u8 \<Rightarrow> bool" where
  "coalesced c i pct =
     (case gpu_commanded c i of None \<Rightarrow> False | Some last_pct \<Rightarrow> nat \<bar>int pct - int last_pct\<bar> < GPU_COALESCE_DELTA_PCT)"

definition failed_recently :: "instant \<Rightarrow> 'h GpuBackend \<Rightarrow> string \<Rightarrow> u8 \<Rightarrow> bool" where
  "failed_recently now b i pct =
     (case map_of (gb_fail_cache b) i of
        None \<Rightarrow> False
      | Some (failed_pct, failed_at) \<Rightarrow> failed_pct = pct \<and> \<not> cooled_down now failed_at)"

text \<open>One command of the selection. The pause and the relinquished set are read at each command, the
  duties from one snapshot taken before the first.\<close>

definition pending_write :: "'w GpuEnv \<Rightarrow> GpuCache \<Rightarrow> 'h GpuBackend \<Rightarrow> PwmCommand \<Rightarrow> 'w gw \<Rightarrow> GpuFanWrite option" where
  "pending_write env snap b cmd = (\<lambda>(c, w).
     if gpu_verify_active env (c, w) then None
     else if is_gpu_fan_relinquished (cmd_member_id cmd) c then None
     else if coalesced snap (cmd_member_id cmd) (cmd_pwm_percent cmd) then None
     else if failed_recently (ge_now env w) b (cmd_member_id cmd) (cmd_pwm_percent cmd) then None
     else (case strip_prefix ''amd_gpu:'' (cmd_member_id cmd) of
         None \<Rightarrow> None
       | Some bdf \<Rightarrow>
           (case List.find (\<lambda>g. gi_pci_bdf g = bdf) (gb_gpu_infos b) of
              None \<Rightarrow> None
            | Some g \<Rightarrow>
                map_option (\<lambda>curve. \<lparr>gw_fan_id = cmd_member_id cmd, gw_path = curve, gw_zero_rpm = gi_fan_zero_rpm_path g,
                    gw_pct = cmd_pwm_percent cmd, gw_preserve_zero_rpm = cmd_gpu_fan_zero_rpm cmd\<rparr>) (gi_fan_curve_path g))))"

fun pending_writes :: "'w GpuEnv \<Rightarrow> GpuCache \<Rightarrow> 'h GpuBackend \<Rightarrow> PwmCommand list \<Rightarrow> 'w gw \<Rightarrow> GpuFanWrite list \<times> 'w gw" where
  "pending_writes env snap b [] st = ([], st)"
| "pending_writes env snap b (cmd # cmds) st =
     (if cmd_source cmd \<noteq> ''amd_gpu'' then pending_writes env snap b cmds st
      else let st = ge_others env st in
        (case pending_writes env snap b cmds st of (ws, st') \<Rightarrow>
           ((case pending_write env snap b cmd st of Some x \<Rightarrow> x # ws | None \<Rightarrow> ws), st')))"

type_synonym ('h, 'w, 'q) gpu_runtime = "(GpuTask, 'h, GpuTaskOutcome option, 'w gw \<times> 'q) Runtime"

text \<open>\<open>lock\<close> is the bounded wait for the GPU write lock.\<close>

definition gpu_write :: "('h, 'w, 'q) gpu_runtime \<Rightarrow> 'w GpuEnv \<Rightarrow> ('w gw \<times> 'q \<Rightarrow> bool \<times> 'w gw \<times> 'q) \<Rightarrow>
    PwmCommand list \<Rightarrow> string list \<Rightarrow> 'h GpuBackend \<times> 'w gw \<times> 'q \<Rightarrow> 'h GpuBackend \<times> 'w gw \<times> 'q" where
  "gpu_write rt env lock commands give_back = (\<lambda>(b, st, q).
     case pending_writes env (fst st) b commands st of (batch, st) \<Rightarrow>
     let note = (\<lambda>p (b, st, q). (note_gpu_outcomes (ge_now env (snd st)) p b, st, q)) in
     if batch = [] \<and> give_back = [] then
       (if bw_outstanding rt (st, q) (gb_writes b)
        then (case harvest_only rt GPU_WRITE_JOIN_BUDGET (gb_writes b, st, q) of
                (p, bw, st, q) \<Rightarrow> note p (b\<lparr>gb_writes := bw\<rparr>, st, q))
        else (b, st, q))
     else (case lock (st, q) of
         (False, st, q) \<Rightarrow>
           (b\<lparr>gb_writes := (if bw_outstanding rt (st, q) (gb_writes b) then note_no_progress (gb_writes b) else gb_writes b),
              gb_lock_wait_logged := True\<rparr>, st, q)
       | (True, st, q) \<Rightarrow>
           let b = b\<lparr>gb_lock_wait_logged := False, gb_outstanding_batch := map (\<lambda>x. (gw_fan_id x, gw_pct x)) batch\<rparr> in
           (case bw_run rt GPU_WRITE_JOIN_BUDGET \<lparr>gt_batch = batch, gt_give_back = give_back\<rparr> (gb_writes b, st, q) of
              (p, bw, st, q) \<Rightarrow>
                note p (b\<lparr>gb_writes := bw, gb_stall_logged := wp_in_flight p \<and> wp_issued p = None\<rparr>, st, q))))"

definition gpu_apply_and_give_back :: "('h, 'w, 'q) gpu_runtime \<Rightarrow> 'w GpuEnv \<Rightarrow> ('w gw \<times> 'q \<Rightarrow> bool \<times> 'w gw \<times> 'q) \<Rightarrow> bool \<Rightarrow>
    PwmCommand list \<Rightarrow> GpuMembers \<Rightarrow> 'h GpuBackend \<times> 'w gw \<times> 'q \<Rightarrow> 'h GpuBackend \<times> 'w gw \<times> 'q" where
  "gpu_apply_and_give_back rt env lock locked commands members = (\<lambda>(b, st, q).
     case give_back_candidates (ge_now env (snd st)) locked (gc_handback (fst st)) members b of
       (give_back, b) \<Rightarrow> gpu_write rt env lock commands give_back (b, st, q))"

end
