(* ===== verification/Gpu_Diag.thy ===== *)
theory Gpu_Diag
  imports Gpu_Backend
begin

text \<open>
  The reset and the verify of a GPU fan (\<open>api/handlers/gpu.rs\<close>): the two blocking tasks with their
  bookkeeping, and the classification of a verify. \<open>settle\<close> is the wait between the test write and the
  reading, \<open>renew\<close> the renewal of the pause. The texts of the answers are left out.
\<close>

section \<open>Reset\<close>

definition gpu_reset_task :: "'w GpuEnv \<Rightarrow> string \<Rightarrow> string \<Rightarrow> string option \<Rightarrow> 'w gw \<Rightarrow> bool \<times> 'w gw" where
  "gpu_reset_task env i curve zero st =
     (case relinquish_gpu_fan i (fst st) of (newly_claimed, c) \<Rightarrow>
      case on_host (reset_to_auto (ge_host env) curve zero) (ge_others env (c, snd st)) of
        (Inr _, st) \<Rightarrow>
          (True, hand_card_back env i (ge_others env (on_cache (clear_gpu_fan_commanded_pct i) (ge_others env st))))
      | (Inl _, st) \<Rightarrow>
          (False, if newly_claimed then on_cache (unrelinquish_gpu_fan i) (ge_others env st) else st))"

definition legacy_reset_task :: "'w GpuEnv \<Rightarrow> string \<Rightarrow> string \<Rightarrow> 'w gw \<Rightarrow> bool \<times> 'w gw" where
  "legacy_reset_task env i hwmon st =
     (case relinquish_gpu_fan i (fst st) of (newly_claimed, c) \<Rightarrow>
      case on_host (reset_legacy_to_auto (ge_host env) hwmon) (ge_others env (c, snd st)) of
        (Inr _, st) \<Rightarrow> (True, on_cache (clear_gpu_fan_commanded_pct i) (ge_others env st))
      | (Inl _, st) \<Rightarrow>
          (False, if newly_claimed then on_cache (unrelinquish_gpu_fan i) (ge_others env st) else st))"

datatype GpuResetAnswer = ResetNotFound | ResetConflict | ResetUnsupported | ResetDone | ResetFailed

text \<open>\<open>lock\<close> is the bounded wait for the GPU write lock.\<close>

definition gpu_reset_fan_handler :: "'w GpuEnv \<Rightarrow> AmdGpuInfo list \<Rightarrow> bool \<Rightarrow> string \<Rightarrow> 'w gw \<Rightarrow> GpuResetAnswer \<times> 'w gw" where
  "gpu_reset_fan_handler env gpus lock gpu_id st =
     (case List.find (\<lambda>g. gi_pci_bdf g = gpu_id) gpus of
        None \<Rightarrow> (ResetNotFound, st)
      | Some g \<Rightarrow>
          let answer = (\<lambda>(ok, st). (if ok then ResetDone else ResetFailed, st)) in
          (case gi_fan_curve_path g of
             Some curve \<Rightarrow>
               if \<not> lock then (ResetConflict, st)
               else answer (gpu_reset_task env (amd_fan_id gpu_id) curve (gi_fan_zero_rpm_path g) (ge_others env st))
           | None \<Rightarrow>
               if can_write_legacy_pwm g then
                 (if \<not> lock then (ResetConflict, st)
                  else answer (legacy_reset_task env (amd_fan_id gpu_id) (gi_hwmon_path g) (ge_others env st)))
               else (ResetUnsupported, st)))"

section \<open>The verify\<close>

record GpuVerifyState =
  gv_applied_speed_pct :: "u8 option"
  gv_rpm :: "nat option"
  gv_pwm_enable :: "u8 option"
  gv_zero_rpm_enabled :: "bool option"

record GpuVerifyRun =
  gr_initial :: GpuVerifyState
  gr_final :: GpuVerifyState
  gr_test_speed :: u8
  gr_restore_failed :: bool

datatype GpuVerifySequence = VerifyWriteFailed GpuVerifyRun | VerifyCompleted GpuVerifyRun

definition select_gpu_test_speed :: "u8 option \<Rightarrow> u8 \<Rightarrow> u8 \<Rightarrow> u8" where
  "select_gpu_test_speed current_pct od_min od_max =
     (let target = (if (case current_pct of Some p \<Rightarrow> p | None \<Rightarrow> 0) < 60 then 75 else 100 :: nat)
      in max (min target od_max) (min od_min od_max))"

definition restore_pmfw :: "'w Host \<Rightarrow> u8 option \<Rightarrow> string \<Rightarrow> string option \<Rightarrow> 'w \<Rightarrow> bool \<times> 'w" where
  "restore_pmfw h prior_pct curve zero w =
     (let auto = reset_to_auto h curve zero w in
      case (case prior_pct of
              Some p \<Rightarrow> if 0 < p then set_static_speed h curve zero p GPU_PMFW_NUM_CURVE_POINTS w else auto
            | None \<Rightarrow> auto) of
        (Inl _, w) \<Rightarrow> (True, w)
      | (Inr _, w) \<Rightarrow> (False, w))"

definition stamp_restored_pct :: "'w GpuEnv \<Rightarrow> string \<Rightarrow> u8 option \<Rightarrow> bool \<Rightarrow> 'w gw \<Rightarrow> 'w gw" where
  "stamp_restored_pct env i prior_pct restore_failed st =
     (if restore_failed then st
      else (case prior_pct of
          Some p \<Rightarrow> if 0 < p then stamp_commanded env i p st else on_cache (clear_gpu_fan_commanded_pct i) st
        | None \<Rightarrow> on_cache (clear_gpu_fan_commanded_pct i) st))"

definition note_pmfw_restored :: "'w GpuEnv \<Rightarrow> string \<Rightarrow> u8 option \<Rightarrow> bool \<Rightarrow> 'w gw \<Rightarrow> 'w gw" where
  "note_pmfw_restored env i prior_pct restore_failed st =
     (if \<not> restore_failed \<and> (case prior_pct of Some p \<Rightarrow> p = 0 | None \<Rightarrow> True) then hand_card_back env i st else st)"

definition read_fan1_input :: "'w Host \<Rightarrow> string \<Rightarrow> 'w \<Rightarrow> nat option \<times> 'w" where
  "read_fan1_input h hwmon = read_rpm h (Some (path_join hwmon ''fan1_input''))"

definition read_zero_state :: "'w Host \<Rightarrow> string option \<Rightarrow> 'w \<Rightarrow> bool option \<times> 'w" where
  "read_zero_state h zero w = (case zero of None \<Rightarrow> (None, w) | Some z \<Rightarrow> read_zero_rpm_enabled h z w)"

definition read_pmfw_state :: "'w Host \<Rightarrow> string \<Rightarrow> string option \<Rightarrow> string \<Rightarrow> 'w \<Rightarrow> (GpuVerifyState \<times> FanCurve option) \<times> 'w" where
  "read_pmfw_state h curve zero hwmon w =
     (case read_fan_curve h curve w of (r, w) \<Rightarrow>
      let c = (case r of Inr c \<Rightarrow> Some c | Inl _ \<Rightarrow> None) in
      case read_fan1_input h hwmon w of (rpm, w) \<Rightarrow>
      case read_zero_state h zero w of (z, w) \<Rightarrow>
        ((\<lparr>gv_applied_speed_pct = Option.bind c flat_speed_pct, gv_rpm = rpm, gv_pwm_enable = None, gv_zero_rpm_enabled = z\<rparr>, c), w))"

text \<open>The restore with its bookkeeping, which both arms of the sequence end with.\<close>

definition restore_card :: "'w GpuEnv \<Rightarrow> u8 option \<Rightarrow> string \<Rightarrow> string option \<Rightarrow> string \<Rightarrow> 'w gw \<Rightarrow> bool \<times> 'w gw" where
  "restore_card env prior_pct curve zero i st =
     (case on_host (restore_pmfw (ge_host env) prior_pct curve zero) (ge_others env st) of (failed, st) \<Rightarrow>
        (failed, note_pmfw_restored env i prior_pct failed (ge_others env
                   (stamp_restored_pct env i prior_pct failed (ge_others env st)))))"

definition pmfw_verify_sequence :: "'w GpuEnv \<Rightarrow> string \<Rightarrow> string option \<Rightarrow> string \<Rightarrow> u8 option \<Rightarrow> string \<Rightarrow>
    (u8 \<Rightarrow> 'w write_step) \<Rightarrow> ('w gw \<Rightarrow> 'w gw) \<Rightarrow> ('w gw \<Rightarrow> 'w gw) \<Rightarrow> 'w gw \<Rightarrow> GpuVerifySequence \<times> 'w gw" where
  "pmfw_verify_sequence env curve zero hwmon prior_pct i test_write settle renew st =
     (case on_host (read_pmfw_state (ge_host env) curve zero hwmon) st of ((initial, c), st) \<Rightarrow>
      let (od_min, od_max) = (case Option.bind c fc_speed_range of Some r \<Rightarrow> r | None \<Rightarrow> (15, 100));
          test_speed = select_gpu_test_speed (case prior_pct of Some p \<Rightarrow> Some p | None \<Rightarrow> gv_applied_speed_pct initial) od_min od_max;
          st = take_card env i curve zero (ge_others env st)
      in case on_host (test_write test_speed) (ge_others env st) of
        (Inl _, st) \<Rightarrow>
          (case restore_card env prior_pct curve zero i st of (failed, st) \<Rightarrow>
           case on_host (read_fan1_input (ge_host env) hwmon) st of (rpm, st) \<Rightarrow>
             (VerifyWriteFailed \<lparr>gr_initial = initial,
                gr_final = \<lparr>gv_applied_speed_pct = None, gv_rpm = rpm, gv_pwm_enable = None, gv_zero_rpm_enabled = None\<rparr>,
                gr_test_speed = test_speed, gr_restore_failed = failed\<rparr>, st))
      | (Inr _, st) \<Rightarrow>
          (let st = settle (stamp_commanded env i test_speed (ge_others env st)) in
           case on_host (read_pmfw_state (ge_host env) curve zero hwmon) st of ((final, _), st) \<Rightarrow>
           case restore_card env prior_pct curve zero i (renew st) of (failed, st) \<Rightarrow>
             (VerifyCompleted \<lparr>gr_initial = initial, gr_final = final, gr_test_speed = test_speed, gr_restore_failed = failed\<rparr>, st)))"

section \<open>The verify of a legacy card\<close>

definition read_legacy_state :: "'w Host \<Rightarrow> string \<Rightarrow> 'w \<Rightarrow> (u8 option \<times> GpuVerifyState) \<times> 'w" where
  "read_legacy_state h hwmon w =
     (case read_u8 h (path_join hwmon ''pwm1'') w of (raw, w) \<Rightarrow>
      case read_fan1_input h hwmon w of (rpm, w) \<Rightarrow>
      case read_u8 h (path_join hwmon ''pwm1_enable'') w of (en, w) \<Rightarrow>
        ((raw, \<lparr>gv_applied_speed_pct = map_option raw_to_percent raw, gv_rpm = rpm, gv_pwm_enable = en, gv_zero_rpm_enabled = None\<rparr>), w))"

definition restore_legacy :: "'w Host \<Rightarrow> LegacyOriginal \<Rightarrow> string \<Rightarrow> 'w \<Rightarrow> bool \<times> 'w" where
  "restore_legacy h original hwmon w =
     (case (case original of LegacyMode m \<Rightarrow> set_legacy_mode h hwmon m w | LegacyManual raw \<Rightarrow> set_legacy_raw h hwmon raw w) of
        (Inl _, w) \<Rightarrow> (True, w) | (Inr _, w) \<Rightarrow> (False, w))"

definition note_legacy_restored :: "'w GpuEnv \<Rightarrow> (string \<Rightarrow> 'w \<Rightarrow> 'w) \<Rightarrow> string \<Rightarrow> string \<Rightarrow> string \<Rightarrow> LegacyOriginal \<Rightarrow> bool \<Rightarrow> 'w gw \<Rightarrow> 'w gw" where
  "note_legacy_restored env rm i rec hwmon original restore_failed st =
     (if restore_failed then st
      else let st = (fst st, note_legacy_handed_back (ge_host env) rm rec hwmon (snd st)) in
        case original of
          LegacyManual raw \<Rightarrow> stamp_commanded env i (raw_to_percent raw) (ge_others env st)
        | LegacyMode _ \<Rightarrow> on_cache (clear_gpu_fan_commanded_pct i) (ge_others env st))"

definition restore_legacy_card :: "'w GpuEnv \<Rightarrow> (string \<Rightarrow> 'w \<Rightarrow> 'w) \<Rightarrow> string \<Rightarrow> string \<Rightarrow> string \<Rightarrow> LegacyOriginal \<Rightarrow> 'w gw \<Rightarrow> bool \<times> 'w gw" where
  "restore_legacy_card env rm i rec hwmon original st =
     (case on_host (restore_legacy (ge_host env) original hwmon) (ge_others env st) of (failed, st) \<Rightarrow>
        (failed, note_legacy_restored env rm i rec hwmon original failed (ge_others env st)))"

definition legacy_verify_sequence :: "'w GpuEnv \<Rightarrow> (string \<Rightarrow> 'w \<Rightarrow> 'w) \<Rightarrow> string \<Rightarrow> string \<Rightarrow> string \<Rightarrow>
    ('w gw \<Rightarrow> 'w gw) \<Rightarrow> ('w gw \<Rightarrow> 'w gw) \<Rightarrow> 'w gw \<Rightarrow> GpuVerifySequence \<times> 'w gw" where
  "legacy_verify_sequence env rm hwmon i rec settle renew st =
     (case on_host (read_legacy_state (ge_host env) hwmon) st of ((initial_raw, initial), st) \<Rightarrow>
      let test_speed = select_gpu_test_speed (gv_applied_speed_pct initial) 0 100 in
      case on_host (note_legacy_take (ge_host env) rec hwmon (legacy_from_read (gv_pwm_enable initial) initial_raw)) (ge_others env st) of
        (original, st) \<Rightarrow>
      case on_host (set_legacy_pwm (ge_host env) hwmon test_speed) (ge_others env st) of
        (Inl _, st) \<Rightarrow>
          (case restore_legacy_card env rm i rec hwmon original st of (failed, st) \<Rightarrow>
           case on_host (read_legacy_state (ge_host env) hwmon) st of ((_, final), st) \<Rightarrow>
             (VerifyWriteFailed \<lparr>gr_initial = initial, gr_final = final, gr_test_speed = test_speed, gr_restore_failed = failed\<rparr>, st))
      | (Inr _, st) \<Rightarrow>
          (let st = settle (stamp_commanded env i test_speed (ge_others env st)) in
           case on_host (read_legacy_state (ge_host env) hwmon) st of ((_, final), st) \<Rightarrow>
           case restore_legacy_card env rm i rec hwmon original (renew st) of (failed, st) \<Rightarrow>
             (VerifyCompleted \<lparr>gr_initial = initial, gr_final = final, gr_test_speed = test_speed, gr_restore_failed = failed\<rparr>, st)))"

text \<open>The task of the verify handler, once the slot and the GPU write lock are held.\<close>

definition gpu_verify_task :: "'w GpuEnv \<Rightarrow> (string \<Rightarrow> 'w \<Rightarrow> 'w) \<Rightarrow> string \<Rightarrow> AmdGpuInfo \<Rightarrow> ('w gw \<Rightarrow> 'w gw) \<Rightarrow> ('w gw \<Rightarrow> 'w gw) \<Rightarrow>
    'w gw \<Rightarrow> GpuVerifySequence \<times> 'w gw" where
  "gpu_verify_task env rm record_path g settle renew st =
     (let i = amd_fan_id (gi_pci_bdf g); prior_pct = gpu_commanded (fst st) i in
      case gi_fan_curve_path g of
        Some curve \<Rightarrow>
          pmfw_verify_sequence env curve (gi_fan_zero_rpm_path g) (gi_hwmon_path g) prior_pct i
            (\<lambda>speed. set_static_speed (ge_host env) curve (gi_fan_zero_rpm_path g) speed GPU_PMFW_NUM_CURVE_POINTS) settle renew st
      | None \<Rightarrow> legacy_verify_sequence env rm (gi_hwmon_path g) i record_path settle renew st)"

section \<open>The classification\<close>

definition GPU_SPINNING_RPM :: nat where
  "GPU_SPINNING_RPM = 200"

definition GPU_SPEED_MATCH_TOLERANCE :: nat where
  "GPU_SPEED_MATCH_TOLERANCE = 3"

definition classify_gpu_verify_result :: "GpuVerifyState \<Rightarrow> GpuVerifyState \<Rightarrow> u8 \<Rightarrow> string" where
  "classify_gpu_verify_result initial final test_speed =
     (if (case gv_pwm_enable final of Some en \<Rightarrow> en \<noteq> 1 | None \<Rightarrow> False) then ''pwm_enable_reverted''
      else if (case gv_applied_speed_pct final of
          Some s \<Rightarrow> GPU_SPEED_MATCH_TOLERANCE < nat \<bar>int s - int test_speed\<bar> | None \<Rightarrow> True) then ''curve_not_applied''
      else (case gv_rpm final of
          None \<Rightarrow> ''rpm_unavailable''
        | Some final_rpm \<Rightarrow>
            let rose = (case gv_rpm initial of Some ir \<Rightarrow> ir + ir div 5 + 50 < final_rpm | None \<Rightarrow> GPU_SPINNING_RPM < final_rpm);
                already_fast = (50 \<le> (case gv_applied_speed_pct initial of Some s \<Rightarrow> s | None \<Rightarrow> 0) \<and> GPU_SPINNING_RPM < final_rpm)
            in if rose \<or> already_fast then ''effective''
               else if gv_zero_rpm_enabled final = Some True then ''zero_rpm_suppressed'' else ''no_rpm_effect''))"

end
