(* ===== verification/Gpu_Cards.thy ===== *)
theory Gpu_Cards
  imports Gpu_Diag
begin

text \<open>
  Every card that may carry a curve of the daemon is on the hand-back list: an invariant over the three
  writers of \<open>Gpu_Backend\<close> and \<open>Gpu_Diag\<close>, each holding the GPU write lock for its whole task.
\<close>

section \<open>Which files may carry a curve\<close>

text \<open>\<open>D w p\<close>: something other than the reset and commit commands was written to the file \<open>p\<close> since it
  was last reset and committed.\<close>

definition grows :: "('w \<Rightarrow> string \<Rightarrow> bool) \<Rightarrow> string set \<Rightarrow> 'w \<Rightarrow> 'w \<Rightarrow> bool" where
  "grows D P w w' = (\<forall>q. D w' q \<longrightarrow> D w q \<or> q \<in> P)"

definition curve_host :: "'w Host \<Rightarrow> (string \<Rightarrow> 'w \<Rightarrow> 'w) \<Rightarrow> ('w \<Rightarrow> string \<Rightarrow> bool) \<Rightarrow> bool" where
  "curve_host h rm D =
     ((\<forall>p w. grows D {} w (snd (read_file h p w))) \<and>
      (\<forall>p v w. grows D {} w (snd (write_replacing h p v w))) \<and>
      (\<forall>p w. grows D {} w (rm p w)) \<and>
      (\<forall>p v w. grows D {p} w (snd (write_file h p v w))) \<and>
      (\<forall>p v w. v \<in> {''r'' @ [newline], ''c'' @ [newline]} \<longrightarrow> grows D {} w (snd (write_file h p v w))) \<and>
      (\<forall>p w w1 w2. write_file h p (''r'' @ [newline]) w = (Inr (), w1) \<and> write_file h p (''c'' @ [newline]) w1 = (Inr (), w2) \<longrightarrow> \<not> D w2 p))"

lemma grows_refl [simp]: "grows D P w w"
  by (simp add: grows_def)

lemma grows_trans: "grows D P w w1 \<Longrightarrow> grows D Q w1 w2 \<Longrightarrow> grows D (P \<union> Q) w w2"
  by (auto simp: grows_def)

lemma grows_mono: "grows D P w w' \<Longrightarrow> P \<subseteq> Q \<Longrightarrow> grows D Q w w'"
  by (auto simp: grows_def)

lemma grows_same: "grows D P w w1 \<Longrightarrow> grows D P w1 w2 \<Longrightarrow> grows D P w w2"
  using grows_trans [of D P w w1 P w2] by simp

lemma curve_hostD:
  assumes "curve_host h rm D"
  shows grows_read: "read_file h p w = (x, w1) \<Longrightarrow> grows D P w w1"
    and grows_replace: "write_replacing h p v w = (y, w1) \<Longrightarrow> grows D P w w1"
    and grows_rm: "grows D P w (rm p w)"
    and grows_write: "write_file h p v w = (z, w1) \<Longrightarrow> p \<in> P \<Longrightarrow> grows D P w w1"
    and grows_command: "write_file h p v w = (u, w1) \<Longrightarrow> v \<in> {''r'' @ [newline], ''c'' @ [newline]} \<Longrightarrow> grows D P w w1"
proof -
  have g: "grows D {} w (snd (read_file h p w))" "grows D {} w (snd (write_replacing h p v w))" "grows D {} w (rm p w)"
    "grows D {p} w (snd (write_file h p v w))"
    "v \<in> {''r'' @ [newline], ''c'' @ [newline]} \<Longrightarrow> grows D {} w (snd (write_file h p v w))" for p v w
    using assms by (auto simp: curve_host_def)
  show "read_file h p w = (x, w1) \<Longrightarrow> grows D P w w1" using grows_mono [OF g(1) [where p = p and w = w], of P] by simp
  show "write_replacing h p v w = (y, w1) \<Longrightarrow> grows D P w w1" using grows_mono [OF g(2) [where p = p and v = v and w = w], of P] by simp
  show "grows D P w (rm p w)" by (rule grows_mono [OF g(3)]) simp
  show "write_file h p v w = (z, w1) \<Longrightarrow> p \<in> P \<Longrightarrow> grows D P w w1" using grows_mono [OF g(4) [where p = p and v = v and w = w], of P] by simp
  show "write_file h p v w = (u, w1) \<Longrightarrow> v \<in> {''r'' @ [newline], ''c'' @ [newline]} \<Longrightarrow> grows D P w w1"
    using grows_mono [OF g(5) [where p = p and v = v and w = w], of P] by simp
qed

lemma grows_put:
  assumes "curve_host h rm D" "put h p v w = (r, w')" "p \<in> P"
  shows "grows D P w w'"
  using assms grows_write [OF assms(1)] by (auto simp: put_def split: prod.splits sum.splits)

lemma grows_put_command:
  assumes "curve_host h rm D" "put h p v w = (r, w')" "v \<in> {''r'' @ [newline], ''c'' @ [newline]}"
  shows "grows D P w w'"
  using assms(2) grows_command [OF assms(1) _ assms(3)] by (auto simp: put_def split: prod.splits sum.splits)

lemma grows_then:
  assumes "then_step f g w = (r, w')" "\<And>w r w'. f w = (r, w') \<Longrightarrow> grows D P w w'" "\<And>w r w'. g w = (r, w') \<Longrightarrow> grows D P w w'"
  shows "grows D P w w'"
  using assms(1) assms(2) [of w] assms(3) grows_same [of D P w]
  by (auto simp: then_step_def split: prod.splits sum.splits)

lemma grows_curve:
  assumes "curve_host h rm D" "curve \<in> P"
  shows "write_fan_curve h curve ps w = (r, w') \<Longrightarrow> grows D P w w'"
proof (induction ps arbitrary: w r w')
  case Nil
  then show ?case using grows_put [OF assms(1) _ assms(2)] by simp
next
  case (Cons p ps)
  show ?case by (rule grows_then [OF Cons.prems [unfolded write_fan_curve.simps]])
      (use grows_put [OF assms(1) _ assms(2)] Cons.IH in blast)+
qed

lemma grows_switch:
  assumes "curve_host h rm D" "z \<in> P" "switch_zero_rpm h z v w = (r, w')"
  shows "grows D P w w'"
  by (rule grows_then [OF assms(3) [unfolded switch_zero_rpm_def]]) (use grows_put [OF assms(1) _ assms(2)] in blast)+

lemma grows_disable:
  assumes "curve_host h rm D" "z \<in> P" "disable_zero_rpm h z w = (r, w')"
  shows "grows D P w w'"
proof -
  obtain x w1 where x: "read_file h z w = (x, w1)" by (rule prod.exhaust)
  then have g: "grows D P w w1" by (rule grows_read [OF assms(1)])
  have "w' = w1 \<or> (\<exists>r. switch_zero_rpm h z ''0'' w1 = (r, w'))"
    using assms(3) x by (auto simp: disable_zero_rpm_def split: sum.splits if_splits)
  then show ?thesis using g grows_same [OF g] grows_switch [OF assms(1,2)] by blast
qed

lemma grows_static:
  assumes "curve_host h rm D" "curve \<in> P" "\<And>z. zero = Some z \<Longrightarrow> z \<in> P"
    and "set_static_speed_with_zero_rpm h curve zero pct n preserve w = (r, w')"
  shows "grows D P w w'"
proof -
  define w1 where "w1 = (if preserve then w else case zero of None \<Rightarrow> w | Some z \<Rightarrow> snd (disable_zero_rpm h z w))"
  have g1: "grows D P w w1" using grows_disable [OF assms(1)] assms(3) by (auto simp: w1_def split: option.splits) (metis prod.collapse)
  obtain x w2 where x: "read_fan_curve h curve w1 = (x, w2)" by (rule prod.exhaust)
  then have g2: "grows D P w1 w2" using grows_read [OF assms(1), of curve w1] by (auto simp: read_fan_curve_def split: prod.splits sum.splits)
  have "write_fan_curve h curve (static_points (curve_limits x) pct n) w2 = (r, w')"
    using assms(4) x by (simp add: set_static_speed_with_zero_rpm_def Let_def flip: w1_def)
  from grows_curve [OF assms(1,2) this] show ?thesis using grows_same [OF g1] grows_same [OF g2] by blast
qed

lemma grows_reset:
  assumes "curve_host h rm D" "\<And>z. zero = Some z \<Longrightarrow> z \<in> P \<and> z \<noteq> curve"
    and "reset_to_auto h curve zero w = (r, w')"
  shows "grows D P w w'" "r = Inr () \<Longrightarrow> \<not> D w' curve"
proof -
  obtain x w1 where x: "then_step (put h curve (''r'' @ [newline])) (put h curve (''c'' @ [newline])) w = (x, w1)" by (rule prod.exhaust)
  have r: "r = x" and w': "w' = (case zero of None \<Rightarrow> w1 | Some z \<Rightarrow> snd (enable_zero_rpm h z w1))"
    using assms(3) x by (simp_all add: reset_to_auto_def)
  have g1: "grows D P w w1" by (rule grows_then [OF x]) (rule grows_put_command [OF assms(1)], assumption, simp)+
  have g2: "grows D (P - {curve}) w1 w'"
  proof (cases zero)
    case (Some z)
    then show ?thesis using grows_switch [OF assms(1), of z "P - {curve}" "''1''" w1] assms(2)
      by (simp add: w' enable_zero_rpm_def) (metis prod.collapse)
  qed (simp add: w')
  show "grows D P w w'" using grows_same [OF g1] grows_mono [OF g2] by blast
  show "\<not> D w' curve" if "r = Inr ()"
  proof -
    have "\<exists>wa. write_file h curve (''r'' @ [newline]) w = (Inr (), wa) \<and> write_file h curve (''c'' @ [newline]) wa = (Inr (), w1)"
      using x that r by (auto simp: then_step_def put_def split: prod.splits sum.splits)
    then have "\<not> D w1 curve" using assms(1) unfolding curve_host_def by blast
    then show ?thesis using g2 by (auto simp: grows_def)
  qed
qed

lemma grows_take:
  assumes "curve_host h rm D" "pmfw_note_take h i curve zero st w = (st', w')"
  shows "grows D P w w'"
  using assms(2) grows_replace [OF assms(1)] by (auto simp: pmfw_note_take_def persist_pmfw_def split: if_splits option.splits prod.splits)

lemma grows_back:
  assumes "curve_host h rm D" "pmfw_note_handed_back h i st w = (st', w')"
  shows "grows D P w w'"
  using assms(2) grows_replace [OF assms(1)] by (auto simp: pmfw_note_handed_back_def persist_pmfw_def split: if_splits option.splits prod.splits)

lemma note_take_paths:
  "pmfw_note_take h i curve zero st w = (st', w') \<Longrightarrow>
     taken_paths st' = (case taken_paths st i of None \<Rightarrow> (taken_paths st)(i \<mapsto> (curve, zero)) | Some _ \<Rightarrow> taken_paths st)"
  by (cases "map_of (pw_taken st) i") (auto simp: pmfw_note_take_def persist_pmfw_def taken_paths_def fun_eq_iff hm_contains_def split: if_splits option.splits prod.splits)

lemma note_back_paths:
  "pmfw_note_handed_back h i st w = (st', w') \<Longrightarrow> taken_paths st' = (taken_paths st)(i := None)"
  by (cases "map_of (pw_taken st) i") (auto simp: pmfw_note_handed_back_def persist_pmfw_def taken_paths_def fun_eq_iff hm_contains_def split: if_splits option.splits prod.splits)


section \<open>The invariant\<close>

definition cards :: "AmdGpuInfo list \<Rightarrow> (string \<times> string \<times> string option) set" where
  "cards gpus = {(amd_fan_id (gi_pci_bdf g), curve, gi_fan_zero_rpm_path g) | g curve. g \<in> set gpus \<and> gi_fan_curve_path g = Some curve}"

text \<open>No two cards share an id, and no other file of a card is a curve file.\<close>

definition separate :: "AmdGpuInfo list \<Rightarrow> bool" where
  "separate gpus =
     (distinct (map gi_pci_bdf gpus) \<and>
      (\<forall>(i, curve, zero) \<in> cards gpus. \<forall>(j, curve', zero') \<in> cards gpus. (curve = curve' \<longrightarrow> i = j) \<and> zero' \<noteq> Some curve) \<and>
      (\<forall>(i, curve, zero) \<in> cards gpus. \<forall>g \<in> set gpus.
         curve \<noteq> path_join (gi_hwmon_path g) ''pwm1'' \<and> curve \<noteq> path_join (gi_hwmon_path g) ''pwm1_enable''))"

definition on_list :: "('w \<Rightarrow> string \<Rightarrow> bool) \<Rightarrow> AmdGpuInfo list \<Rightarrow> 'w gw \<Rightarrow> bool" where
  "on_list D gpus st =
     ((\<forall>(i, curve, zero) \<in> cards gpus. D (snd st) curve \<longrightarrow> taken_paths (gc_handback (fst st)) i = Some (curve, zero)) \<and>
      (\<forall>i p. taken_paths (gc_handback (fst st)) i = Some p \<longrightarrow> (i, p) \<in> cards gpus))"

lemma on_listD:
  assumes "on_list D gpus st"
  shows listed: "(i, curve, zero) \<in> cards gpus \<Longrightarrow> D (snd st) curve \<Longrightarrow> taken_paths (gc_handback (fst st)) i = Some (curve, zero)"
    and listed_card: "taken_paths (gc_handback (fst st)) i = Some p \<Longrightarrow> (i, p) \<in> cards gpus"
  using assms unfolding on_list_def by blast+

lemma on_list_intro:
  assumes "\<And>i curve zero. (i, curve, zero) \<in> cards gpus \<Longrightarrow> D (snd st) curve \<Longrightarrow> taken_paths (gc_handback (fst st)) i = Some (curve, zero)"
    and "\<And>i p. taken_paths (gc_handback (fst st)) i = Some p \<Longrightarrow> (i, p) \<in> cards gpus"
  shows "on_list D gpus st"
  using assms unfolding on_list_def by blast

text \<open>The list changes and a curve is written only under the GPU write lock, which the task holds.\<close>

definition lock_held :: "('w \<Rightarrow> string \<Rightarrow> bool) \<Rightarrow> 'w GpuEnv \<Rightarrow> bool" where
  "lock_held D env =
     (\<forall>st. gc_handback (fst (ge_others env st)) = gc_handback (fst st) \<and> grows D {} (snd st) (snd (ge_others env st)))"

lemma card_unique:
  assumes "separate gpus" "(i, p) \<in> cards gpus" "(i, q) \<in> cards gpus"
  shows "p = q"
proof -
  obtain g where g: "g \<in> set gpus" "i = amd_fan_id (gi_pci_bdf g)" "\<exists>curve. gi_fan_curve_path g = Some curve \<and> p = (curve, gi_fan_zero_rpm_path g)"
    using assms(2) by (auto simp: cards_def)
  obtain g' where g': "g' \<in> set gpus" "i = amd_fan_id (gi_pci_bdf g')" "\<exists>curve. gi_fan_curve_path g' = Some curve \<and> q = (curve, gi_fan_zero_rpm_path g')"
    using assms(3) by (auto simp: cards_def)
  have "gi_pci_bdf g = gi_pci_bdf g'" using g(2) g'(2) by (simp add: amd_fan_id_def)
  then have "g = g'" using assms(1) g(1) g'(1) by (auto simp: separate_def distinct_map inj_on_def)
  then show ?thesis using g(3) g'(3) by auto
qed

lemma separateD:
  assumes "separate gpus" "(i, curve, zero) \<in> cards gpus" "(j, curve', zero') \<in> cards gpus"
  shows "curve = curve' \<Longrightarrow> i = j" "zero' \<noteq> Some curve"
proof -
  have "\<forall>x \<in> cards gpus. case x of (i, curve, zero) \<Rightarrow> \<forall>y \<in> cards gpus. case y of (j, curve', zero') \<Rightarrow>
      (curve = curve' \<longrightarrow> i = j) \<and> zero' \<noteq> Some curve"
    using assms(1) unfolding separate_def by (elim conjE)
  from bspec [OF this assms(2)] have "\<forall>y \<in> cards gpus. case y of (j, curve', zero') \<Rightarrow> (curve = curve' \<longrightarrow> i = j) \<and> zero' \<noteq> Some curve"
    by simp
  from bspec [OF this assms(3)] show "curve = curve' \<Longrightarrow> i = j" "zero' \<noteq> Some curve" by simp_all
qed

lemma card_files:
  assumes "separate gpus" "(i, curve, zero) \<in> cards gpus"
  shows "zero \<noteq> Some curve" "(j, curve', zero') \<in> cards gpus \<Longrightarrow> curve' \<in> insert curve (set_option zero) \<Longrightarrow> (j, curve', zero') = (i, curve, zero)"
proof -
  show "zero \<noteq> Some curve" using separateD(2) [OF assms(1) assms(2,2)] .
  assume j: "(j, curve', zero') \<in> cards gpus" and c: "curve' \<in> insert curve (set_option zero)"
  have "curve' = curve" using c separateD(2) [OF assms(1) j assms(2)] by (auto simp: elem_set)
  moreover have "j = i" using separateD(1) [OF assms(1) j assms(2)] calculation by simp
  ultimately show "(j, curve', zero') = (i, curve, zero)" using card_unique [OF assms(1) _ assms(2)] j by simp
qed

lemma on_listI:
  assumes "on_list D gpus st" "gc_handback (fst st') = gc_handback (fst st)" "grows D P (snd st) (snd st')"
    and "\<And>i curve zero. (i, curve, zero) \<in> cards gpus \<Longrightarrow> curve \<in> P \<Longrightarrow> taken_paths (gc_handback (fst st)) i = Some (curve, zero)"
  shows "on_list D gpus st'"
proof (rule on_list_intro)
  fix i curve zero
  assume c: "(i, curve, zero) \<in> cards gpus" "D (snd st') curve"
  then have "D (snd st) curve \<or> curve \<in> P" using assms(3) by (auto simp: grows_def)
  then show "taken_paths (gc_handback (fst st')) i = Some (curve, zero)"
    using listed [OF assms(1) c(1)] assms(4) [OF c(1)] by (auto simp: assms(2))
next
  fix i p
  assume "taken_paths (gc_handback (fst st')) i = Some p"
  then show "(i, p) \<in> cards gpus" using listed_card [OF assms(1)] by (simp add: assms(2))
qed

lemma lock_heldD:
  assumes "lock_held D env"
  shows others_list: "gc_handback (fst (ge_others env st)) = gc_handback (fst st)"
    and others_grow: "grows D P (snd st) (snd (ge_others env st))"
  using assms grows_mono [of D "{}" _ _ P] by (auto simp: lock_held_def simp del: split_paired_All)

lemma on_list_others: "lock_held D env \<Longrightarrow> on_list D gpus st \<Longrightarrow> on_list D gpus (ge_others env st)"
  by (rule on_listI [where P = "{}" and st = st]) (simp_all add: others_list others_grow)

lemma on_list_cache:
  "on_list D gpus st \<Longrightarrow> gc_handback (fst st') = gc_handback (fst st) \<Longrightarrow> snd st' = snd st \<Longrightarrow> on_list D gpus st'"
  by (simp add: on_list_def)

lemma handback_cache [simp]:
  "gc_handback (fst (stamp_commanded env i p st)) = gc_handback (fst st)" "snd (stamp_commanded env i p st) = snd st"
  "gc_handback (fst (on_cache (clear_gpu_fan_commanded_pct i) st)) = gc_handback (fst st)" "snd (on_cache f st) = snd st"
  "gc_handback (fst (on_cache (unrelinquish_gpu_fan i) st)) = gc_handback (fst st)"
  by (auto simp: stamp_commanded_def on_cache_def set_gpu_fan_commanded_pct_def clear_gpu_fan_commanded_pct_def unrelinquish_gpu_fan_def
      Let_def case_prod_beta split: option.split)

lemma on_list_caches:
  assumes "on_list D gpus st"
  shows "on_list D gpus (stamp_commanded env i p st)" "on_list D gpus (on_cache (clear_gpu_fan_commanded_pct i) st)"
    "on_list D gpus (on_cache (unrelinquish_gpu_fan i) st)"
  by (rule on_list_cache [OF assms]; simp)+

lemma on_host_split: "on_host f st = (r, st') \<Longrightarrow> fst st' = fst st \<and> f (snd st) = (r, snd st')"
  by (auto simp: on_host_def split: prod.splits)

lemma take_card_listed:
  assumes "curve_host h rm D" "ge_host env = h" "separate gpus" "on_list D gpus st" "(i, curve, zero) \<in> cards gpus"
  shows "on_list D gpus (take_card env i curve zero st)"
    "taken_paths (gc_handback (fst (take_card env i curve zero st))) i = Some (curve, zero)"
proof -
  obtain c w where st: "st = (c, w)" by (rule prod.exhaust)
  obtain hb w' where t: "pmfw_note_take h i curve zero (gc_handback c) w = (hb, w')" by (rule prod.exhaust)
  note p = note_take_paths [OF t] and g = grows_take [OF assms(1) t, of "{}"]
  have eq: "take_card env i curve zero (c, w) = (c\<lparr>gc_handback := hb\<rparr>, w')" by (simp add: take_card_def assms(2) t)
  have old: "taken_paths (gc_handback c) i = Some q \<Longrightarrow> q = (curve, zero)" for q
    using listed_card [OF assms(4), of i q] card_unique [OF assms(3) _ assms(5)] by (simp add: st)
  then show l: "taken_paths (gc_handback (fst (take_card env i curve zero st))) i = Some (curve, zero)"
    by (auto simp: st eq p split: option.split)
  have m: "taken_paths hb j = Some q \<longleftrightarrow> taken_paths (gc_handback c) j = Some q \<or> j = i \<and> q = (curve, zero)" for j q
    using old by (auto simp: p split: option.splits if_splits)
  have D': "D w' q \<longrightarrow> D w q" for q using g by (simp add: grows_def)
  show "on_list D gpus (take_card env i curve zero st)"
  proof (rule on_list_intro)
    fix j curve' zero'
    assume "(j, curve', zero') \<in> cards gpus" "D (snd (take_card env i curve zero st)) curve'"
    then show "taken_paths (gc_handback (fst (take_card env i curve zero st))) j = Some (curve', zero')"
      using listed [OF assms(4), of j curve' zero'] D' m by (simp add: eq st)
  next
    fix j q
    assume "taken_paths (gc_handback (fst (take_card env i curve zero st))) j = Some q"
    then show "(j, q) \<in> cards gpus" using m listed_card [OF assms(4), of j q] assms(5) by (auto simp: eq st)
  qed
qed

lemma hand_card_back_listed:
  assumes "curve_host h rm D" "ge_host env = h" "separate gpus" "on_list D gpus st" "(i, curve, zero) \<in> cards gpus" "\<not> D (snd st) curve"
  shows "on_list D gpus (hand_card_back env i st)"
proof -
  obtain c w where st: "st = (c, w)" by (rule prod.exhaust)
  obtain hb w' where t: "pmfw_note_handed_back h i (gc_handback c) w = (hb, w')" by (rule prod.exhaust)
  note p = note_back_paths [OF t] and g = grows_back [OF assms(1) t, of "{}"]
  have eq: "hand_card_back env i (c, w) = (c\<lparr>gc_handback := hb\<rparr>, w')" by (simp add: hand_card_back_def assms(2) t)
  have D': "D w' q \<longrightarrow> D w q" for q using g by (simp add: grows_def)
  show ?thesis
  proof (rule on_list_intro)
    fix j curve' zero'
    assume a: "(j, curve', zero') \<in> cards gpus" "D (snd (hand_card_back env i st)) curve'"
    then have d: "D w curve'" using D' by (simp add: st eq)
    have "j \<noteq> i" using card_unique [OF assms(3) a(1)] assms(5,6) d by (auto simp: st)
    then show "taken_paths (gc_handback (fst (hand_card_back env i st))) j = Some (curve', zero')"
      using listed [OF assms(4) a(1)] d by (simp add: eq p st)
  next
    fix j q
    assume "taken_paths (gc_handback (fst (hand_card_back env i st))) j = Some q"
    then show "(j, q) \<in> cards gpus" using listed_card [OF assms(4), of j q] by (simp add: eq p st split: if_splits)
  qed
qed

section \<open>The three writers\<close>

text \<open>A step of a task on the files of a listed card.\<close>

lemma on_list_host:
  assumes "separate gpus" "on_list D gpus st" "(i, curve, zero) \<in> cards gpus"
    and "taken_paths (gc_handback (fst st)) i = Some (curve, zero)"
    and "fst st' = fst st" "grows D (insert curve (set_option zero)) (snd st) (snd st')"
  shows "on_list D gpus st'"
proof (rule on_listI [OF assms(2) _ assms(6)])
  show "gc_handback (fst st') = gc_handback (fst st)" by (simp add: assms(5))
  fix j curve' zero'
  assume "(j, curve', zero') \<in> cards gpus" "curve' \<in> insert curve (set_option zero)"
  from card_files(2) [OF assms(1,3) this] show "taken_paths (gc_handback (fst st)) j = Some (curve', zero')" using assms(4) by simp
qed

lemma gpu_write_listed:
  assumes "curve_host h rm D" "ge_host env = h" "separate gpus" "lock_held D env"
    and "on_list D gpus st" "(i, curve, zero) \<in> cards gpus" "gpu_blocking_write env curve zero pct preserve i st = (r, st')"
  shows "on_list D gpus st'"
proof -
  let ?s1 = "ge_others env st" let ?s2 = "ge_others env ?s1" let ?s3 = "ge_others env ?s2"
  let ?s4 = "take_card env i curve zero ?s3" let ?s5 = "ge_others env ?s4"
  note o = on_list_others [OF assms(4)]
  have l: "on_list D gpus ?s1" "on_list D gpus ?s2" "on_list D gpus ?s3" using o assms(5) by blast+
  show ?thesis
  proof (cases "gpu_verify_active env ?s1 \<or> is_gpu_fan_relinquished i (fst ?s2)")
    case True
    then have "st' = ?s1 \<or> st' = ?s2" using assms(7) by (auto simp: gpu_blocking_write_def Let_def split: if_splits)
    then show ?thesis using l by blast
  next
    case False
    note t = take_card_listed [OF assms(1,2,3) l(3) assms(6)]
    obtain x s6 where x: "on_host (set_static_speed_with_zero_rpm h curve zero pct GPU_PMFW_NUM_CURVE_POINTS preserve) ?s5 = (x, s6)"
      by (rule prod.exhaust)
    note x' = on_host_split [OF x]
    have g: "grows D (insert curve (set_option zero)) (snd ?s5) (snd s6)"
      by (rule grows_static [OF assms(1) _ _ conjunct2 [OF x']]) auto
    have "on_list D gpus s6"
      by (rule on_list_host [OF assms(3) o [OF t(1)] assms(6) _ _ g]) (use t(2) x' in \<open>simp_all add: others_list [OF assms(4)]\<close>)
    moreover have "st' = s6 \<or> st' = stamp_commanded env i pct (ge_others env s6)"
      using assms(7) False x by (auto simp: gpu_blocking_write_def Let_def assms(2) split: sum.splits)
    moreover have "on_list D gpus (stamp_commanded env i pct (ge_others env s6))"
      by (rule on_list_cache [OF o [OF calculation(1)]]) simp_all
    ultimately show ?thesis by blast
  qed
qed

text \<open>A reset, with what follows it when it lands.\<close>

lemma reset_listed:
  assumes "curve_host h rm D" "separate gpus" "on_list D gpus st" "(i, curve, zero) \<in> cards gpus"
    and "on_host (reset_to_auto h curve zero) st = (r, st')"
  shows "on_list D gpus st'" "r = Inr () \<Longrightarrow> \<not> D (snd st') curve"
proof -
  note x = on_host_split [OF assms(5)]
  have z: "\<And>z. zero = Some z \<Longrightarrow> z \<in> set_option zero \<and> z \<noteq> curve"
    using card_files(1) [OF assms(2,4)] by auto
  note g = grows_reset [OF assms(1) z conjunct2 [OF x]]
  show "\<not> D (snd st') curve" if "r = Inr ()" using g(2) that by simp
  show "on_list D gpus st'"
    by (rule on_listI [OF assms(3) _ g(1)]) (use x separateD(2) [OF assms(2) _ assms(4)] in \<open>auto simp: elem_set\<close>)
qed

text \<open>The bookkeeping after a reset that landed.\<close>

lemma back_listed:
  assumes "curve_host h rm D" "ge_host env = h" "separate gpus" "lock_held D env"
    and "on_list D gpus st" "(i, curve, zero) \<in> cards gpus" "\<not> D (snd st) curve"
  shows "on_list D gpus (hand_card_back env i (ge_others env (on_cache (clear_gpu_fan_commanded_pct i) (ge_others env st))))"
proof (rule hand_card_back_listed [OF assms(1,2,3) on_list_others [OF assms(4)] assms(6)])
  let ?s = "on_cache (clear_gpu_fan_commanded_pct i) (ge_others env st)"
  show "on_list D gpus ?s" by (rule on_list_cache [OF on_list_others [OF assms(4,5)]]) simp_all
  have "grows D {} (snd st) (snd (ge_others env st))" "grows D {} (snd ?s) (snd (ge_others env ?s))"
    by (rule others_grow [OF assms(4)])+
  then show "\<not> D (snd (ge_others env ?s)) curve" using assms(7) by (auto simp: grows_def)
qed

lemma gpu_give_back_listed:
  assumes "curve_host h rm D" "ge_host env = h" "separate gpus" "lock_held D env"
    and "on_list D gpus st" "gpu_give_back env i st = (r, st')"
  shows "on_list D gpus st'"
proof -
  let ?s1 = "ge_others env st" let ?s2 = "ge_others env ?s1"
  note o = on_list_others [OF assms(4)]
  have l: "on_list D gpus ?s1" "on_list D gpus ?s2" "on_list D gpus (ge_others env ?s2)" using o assms(5) by blast+
  show ?thesis
  proof (cases "gpu_verify_active env ?s1 \<or> taken_paths (gc_handback (fst ?s2)) i = None")
    case True
    then have "st' = ?s1 \<or> st' = ?s2" using assms(6) by (auto simp: gpu_give_back_def Let_def split: if_splits)
    then show ?thesis using l by blast
  next
    case False
    then obtain curve zero where p: "taken_paths (gc_handback (fst ?s2)) i = Some (curve, zero)" by force
    note c = listed_card [OF l(2) p]
    obtain x s3 where x: "on_host (reset_to_auto h curve zero) (ge_others env ?s2) = (x, s3)" by (rule prod.exhaust)
    note q = reset_listed [OF assms(1,3) l(3) c x]
    show ?thesis
    proof (cases x)
      case (Inl e)
      then have "st' = s3" using assms(6) False p x by (simp add: gpu_give_back_def Let_def assms(2))
      then show ?thesis using q(1) by simp
    next
      case (Inr u)
      then have "st' = hand_card_back env i (ge_others env (on_cache (clear_gpu_fan_commanded_pct i) (ge_others env s3)))"
        using assms(6) False p x by (simp add: gpu_give_back_def Let_def assms(2))
      then show ?thesis using back_listed [OF assms(1,2,3,4) q(1) c] q(2) Inr by simp
    qed
  qed
qed

lemma gpu_task_listed:
  assumes "curve_host h rm D" "ge_host env = h" "separate gpus" "lock_held D env"
    and "\<forall>x \<in> set (gt_batch t). (gw_fan_id x, gw_path x, gw_zero_rpm x) \<in> cards gpus"
    and "on_list D gpus st" "gpu_task env t st = (r, st')"
  shows "on_list D gpus st'"
proof -
  have ws: "on_list D gpus st2" if "gpu_writes env xs st1 = (rs, st2)" "on_list D gpus st1" "set xs \<subseteq> set (gt_batch t)" for xs rs st1 st2
    using that
  proof (induction xs arbitrary: rs st1 st2)
    case (Cons x xs)
    obtain r1 s1 where x: "gpu_blocking_write env (gw_path x) (gw_zero_rpm x) (gw_pct x) (gw_preserve_zero_rpm x) (gw_fan_id x) st1 = (r1, s1)"
      by (rule prod.exhaust)
    have c: "(gw_fan_id x, gw_path x, gw_zero_rpm x) \<in> cards gpus" using Cons.prems(3) assms(5) by auto
    obtain rs2 s2 where y: "gpu_writes env xs s1 = (rs2, s2)" by (rule prod.exhaust)
    show ?case using Cons.IH [OF y gpu_write_listed [OF assms(1-4) Cons.prems(2) c x]] Cons.prems(1,3) x y by simp
  qed simp
  have hs: "on_list D gpus st2" if "gpu_give_backs env ids st1 = (rs, st2)" "on_list D gpus st1" for ids rs st1 st2
    using that
  proof (induction ids arbitrary: rs st1 st2)
    case (Cons i ids)
    obtain r1 s1 where x: "gpu_give_back env i st1 = (r1, s1)" by (rule prod.exhaust)
    obtain rs2 s2 where y: "gpu_give_backs env ids s1 = (rs2, s2)" by (rule prod.exhaust)
    show ?case using Cons.IH [OF y gpu_give_back_listed [OF assms(1-4) Cons.prems(2) x]] Cons.prems(1) x y by simp
  qed simp
  obtain rs s1 where 1: "gpu_writes env (gt_batch t) st = (rs, s1)" by (rule prod.exhaust)
  obtain rs2 s2 where 2: "gpu_give_backs env (gt_give_back t) s1 = (rs2, s2)" by (rule prod.exhaust)
  show ?thesis using hs [OF 2 ws [OF 1 assms(6)]] assms(7) 1 2 by (simp add: gpu_task_def)
qed

lemma gpu_reset_listed:
  assumes "curve_host h rm D" "ge_host env = h" "separate gpus" "lock_held D env"
    and "on_list D gpus st" "(i, curve, zero) \<in> cards gpus" "gpu_reset_task env i curve zero st = (ok, st')"
  shows "on_list D gpus st'"
proof -
  obtain nc c where n: "relinquish_gpu_fan i (fst st) = (nc, c)" by (rule prod.exhaust)
  then have hb: "gc_handback c = gc_handback (fst st)" by (auto simp: relinquish_gpu_fan_def)
  have l: "on_list D gpus (ge_others env (c, snd st))"
    by (rule on_list_others [OF assms(4) on_list_cache [OF assms(5)]]) (simp_all add: hb)
  obtain x s1 where x: "on_host (reset_to_auto h curve zero) (ge_others env (c, snd st)) = (x, s1)" by (rule prod.exhaust)
  note q = reset_listed [OF assms(1,3) l assms(6) x]
  show ?thesis
  proof (cases x)
    case (Inl e)
    then have "st' = (if nc then on_cache (unrelinquish_gpu_fan i) (ge_others env s1) else s1)"
      using assms(7) n x by (simp add: gpu_reset_task_def assms(2))
    moreover have "on_list D gpus (on_cache (unrelinquish_gpu_fan i) (ge_others env s1))"
      by (rule on_list_cache [OF on_list_others [OF assms(4) q(1)]]) simp_all
    ultimately show ?thesis using q(1) by simp
  next
    case (Inr u)
    then have "st' = hand_card_back env i (ge_others env (on_cache (clear_gpu_fan_commanded_pct i) (ge_others env s1)))"
      using assms(7) n x by (simp add: gpu_reset_task_def assms(2))
    then show ?thesis using back_listed [OF assms(1-4) q(1) assms(6)] q(2) Inr by simp
  qed
qed


text \<open>The files of a legacy card are no card's curve.\<close>

lemma legacy_listed:
  assumes "separate gpus" "on_list D gpus st" "g \<in> set gpus" "gc_handback (fst st') = gc_handback (fst st)"
    and "grows D {path_join (gi_hwmon_path g) ''pwm1'', path_join (gi_hwmon_path g) ''pwm1_enable''} (snd st) (snd st')"
  shows "on_list D gpus st'"
proof (rule on_listI [OF assms(2,4,5)])
  fix i curve zero
  assume c: "(i, curve, zero) \<in> cards gpus"
  have "\<forall>x \<in> cards gpus. case x of (i, curve, zero) \<Rightarrow> \<forall>g \<in> set gpus.
      curve \<noteq> path_join (gi_hwmon_path g) ''pwm1'' \<and> curve \<noteq> path_join (gi_hwmon_path g) ''pwm1_enable''"
    using assms(1) unfolding separate_def by (elim conjE)
  from bspec [OF this c] assms(3) have "curve \<noteq> path_join (gi_hwmon_path g) ''pwm1'' \<and> curve \<noteq> path_join (gi_hwmon_path g) ''pwm1_enable''"
    by auto
  moreover assume "curve \<in> {path_join (gi_hwmon_path g) ''pwm1'', path_join (gi_hwmon_path g) ''pwm1_enable''}"
  ultimately show "taken_paths (gc_handback (fst st)) i = Some (curve, zero)" by blast
qed

lemma grows_legacy:
  assumes "curve_host h rm D" "path_join hwmon ''pwm1'' \<in> P" "path_join hwmon ''pwm1_enable'' \<in> P"
  shows "set_legacy_raw h hwmon raw w = (r, w') \<Longrightarrow> grows D P w w'"
    and "set_legacy_pwm h hwmon pct w = (r, w') \<Longrightarrow> grows D P w w'"
    and "set_legacy_mode h hwmon m w = (r, w') \<Longrightarrow> grows D P w w'"
    and "reset_legacy_to_auto h hwmon w = (r, w') \<Longrightarrow> grows D P w w'"
  unfolding set_legacy_raw_def set_legacy_pwm_def set_legacy_mode_def reset_legacy_to_auto_def
  using grows_put [OF assms(1)] assms(2,3) by (blast intro: grows_then)+

lemma grows_u8: "curve_host h rm D \<Longrightarrow> read_u8 h p w = (x, w') \<Longrightarrow> grows D P w w'"
  using grows_read [of h rm D p w] by (auto simp: read_u8_def split: prod.splits sum.splits)

lemma grows_rpm: "curve_host h rm D \<Longrightarrow> read_fan1_input h hw w = (x, w') \<Longrightarrow> grows D P w w'"
  using grows_read [of h rm D] by (auto simp: read_fan1_input_def read_rpm_def split: prod.splits sum.splits)

lemma grows_lines: "curve_host h rm D \<Longrightarrow> gpu_record_lines h p w = (x, w') \<Longrightarrow> grows D P w w'"
  using grows_read [of h rm D p w] by (auto simp: gpu_record_lines_def split: prod.splits sum.splits)

lemma grows_others_lines: "curve_host h rm D \<Longrightarrow> other_gpu_lines h p e w = (x, w') \<Longrightarrow> grows D P w w'"
  using grows_lines [of h rm D p w] by (auto simp: other_gpu_lines_def split: prod.splits)

lemma grows_record: "curve_host h rm D \<Longrightarrow> grows D P w (write_gpu_record h p ls w)"
  using grows_replace [of h rm D] by (simp add: write_gpu_record_def) (metis prod.collapse)

lemma grows_legacy_take:
  assumes "curve_host h rm D" "note_legacy_take h rc hw orig w = (x, w')"
  shows "grows D P w w'"
proof -
  obtain ls w1 where 1: "gpu_record_lines h rc w = (ls, w1)" by (rule prod.exhaust)
  obtain os w2 where 2: "other_gpu_lines h rc (path_join hw ''pwm1_enable'') w1 = (os, w2)" by (rule prod.exhaust)
  obtain al w3 where 3: "gpu_record_lines h rc w2 = (al, w3)" by (rule prod.exhaust)
  have g: "grows D P w w1" "grows D P w1 w2" "grows D P w2 w3"
    by (rule grows_lines [OF assms(1) 1], rule grows_others_lines [OF assms(1) 2], rule grows_lines [OF assms(1) 3])
  have g3: "grows D P w w3" by (rule grows_same [OF grows_same [OF g(1,2)] g(3)])
  have "w' = w1 \<or> w' = w3 \<or> (\<exists>ls. w' = write_gpu_record h rc ls w3)"
    using assms(2) 1 2 3 by (auto simp: note_legacy_take_def Let_def split: list.splits if_splits)
  then show ?thesis using g(1) g3 grows_same [OF g3 grows_record [OF assms(1)]] by metis
qed

lemma grows_legacy_back: "curve_host h rm D \<Longrightarrow> grows D P w (note_legacy_handed_back h rm rc hw w)"
proof -
  assume c: "curve_host h rm D"
  obtain ls w1 where 1: "other_gpu_lines h rc (path_join hw ''pwm1_enable'') w = (ls, w1)" by (rule prod.exhaust)
  have g: "grows D P w w1" by (rule grows_others_lines [OF c 1])
  show ?thesis using grows_same [OF g grows_rm [OF c]] grows_same [OF g grows_record [OF c]] 1
    by (auto simp: note_legacy_handed_back_def)
qed

lemma grows_legacy_state:
  assumes "curve_host h rm D" "read_legacy_state h hw w = (x, w')"
  shows "grows D P w w'"
proof -
  obtain a w1 where 1: "read_u8 h (path_join hw ''pwm1'') w = (a, w1)" by (rule prod.exhaust)
  obtain b w2 where 2: "read_fan1_input h hw w1 = (b, w2)" by (rule prod.exhaust)
  obtain e w3 where 3: "read_u8 h (path_join hw ''pwm1_enable'') w2 = (e, w3)" by (rule prod.exhaust)
  have "w' = w3" using assms(2) 1 2 3 by (simp add: read_legacy_state_def)
  then show ?thesis
    using grows_same [OF grows_same [OF grows_u8 [OF assms(1) 1] grows_rpm [OF assms(1) 2]] grows_u8 [OF assms(1) 3]] by simp
qed

lemma grows_pmfw_state:
  assumes "curve_host h rm D" "read_pmfw_state h curve zero hw w = (x, w')"
  shows "grows D P w w'"
proof -
  obtain a w1 where 1: "read_fan_curve h curve w = (a, w1)" by (rule prod.exhaust)
  obtain b w2 where 2: "read_fan1_input h hw w1 = (b, w2)" by (rule prod.exhaust)
  obtain z w3 where 3: "read_zero_state h zero w2 = (z, w3)" by (rule prod.exhaust)
  have a: "grows D P w w1" using grows_read [OF assms(1), of curve w] 1 by (auto simp: read_fan_curve_def split: prod.splits sum.splits)
  have b: "grows D P w2 w3" using grows_read [OF assms(1), of _ w2] 3
    by (auto simp: read_zero_state_def read_zero_rpm_enabled_def split: prod.splits sum.splits option.splits)
  have "w' = w3" using assms(2) 1 2 3 by (simp add: read_pmfw_state_def Let_def)
  then show ?thesis using grows_same [OF grows_same [OF a grows_rpm [OF assms(1) 2]] b] by simp
qed


lemma legacy_reset_listed:
  assumes "curve_host h rm D" "ge_host env = h" "separate gpus" "lock_held D env"
    and "on_list D gpus st" "g \<in> set gpus" "legacy_reset_task env i (gi_hwmon_path g) st = (ok, st')"
  shows "on_list D gpus st'"
proof -
  obtain nc c where n: "relinquish_gpu_fan i (fst st) = (nc, c)" by (rule prod.exhaust)
  then have hb: "gc_handback c = gc_handback (fst st)" by (auto simp: relinquish_gpu_fan_def)
  have l: "on_list D gpus (ge_others env (c, snd st))"
    by (rule on_list_others [OF assms(4) on_list_cache [OF assms(5)]]) (simp_all add: hb)
  obtain x s1 where x: "on_host (reset_legacy_to_auto h (gi_hwmon_path g)) (ge_others env (c, snd st)) = (x, s1)" by (rule prod.exhaust)
  note x' = on_host_split [OF x]
  have l1: "on_list D gpus s1"
    by (rule legacy_listed [OF assms(3) l assms(6) _ grows_legacy(4) [OF assms(1) _ _ conjunct2 [OF x']]]) (use x' in simp_all)
  note o = on_list_others [OF assms(4) l1]
  have "st' \<in> {s1, on_cache (unrelinquish_gpu_fan i) (ge_others env s1), on_cache (clear_gpu_fan_commanded_pct i) (ge_others env s1)}"
    using assms(7) n x by (cases x) (auto simp: legacy_reset_task_def assms(2))
  then show ?thesis using l1 on_list_caches [OF o] by fast
qed

lemma on_list_grow_nothing:
  "on_list D gpus st \<Longrightarrow> fst st' = fst st \<Longrightarrow> grows D {} (snd st) (snd st') \<Longrightarrow> on_list D gpus st'"
  by (rule on_listI [where P = "{}" and st = st]) simp_all

lemma on_list_read:
  assumes "on_host f s = (x, s')" "on_list D gpus s" "\<And>w x w'. f w = (x, w') \<Longrightarrow> grows D {} w w'"
  shows "on_list D gpus s'"
  by (rule on_list_grow_nothing [OF assms(2)]) (use on_host_split [OF assms(1)] in \<open>auto intro: assms(3)\<close>)

lemma restore_card_listed:
  assumes "curve_host h rm D" "ge_host env = h" "separate gpus" "lock_held D env"
    and "on_list D gpus st" "(i, curve, zero) \<in> cards gpus" "taken_paths (gc_handback (fst st)) i = Some (curve, zero)"
    and "restore_card env prior curve zero i st = (failed, st')"
  shows "on_list D gpus st'"
proof -
  let ?s0 = "ge_others env st"
  obtain f s1 where f: "on_host (restore_pmfw h prior curve zero) ?s0 = (f, s1)" by (rule prod.exhaust)
  note f' = on_host_split [OF f]
  note l0 = on_list_others [OF assms(4,5)]
  let ?static = "case prior of Some p \<Rightarrow> 0 < p | None \<Rightarrow> False"
  have z: "\<And>z. zero = Some z \<Longrightarrow> z \<in> insert curve (set_option zero) \<and> z \<noteq> curve" using card_files(1) [OF assms(3,6)] by auto
  have t0: "taken_paths (gc_handback (fst ?s0)) i = Some (curve, zero)" using assms(7) by (simp add: others_list [OF assms(4)])
  have g: "grows D (insert curve (set_option zero)) (snd ?s0) (snd s1)" and d: "\<not> ?static \<Longrightarrow> \<not> f \<Longrightarrow> \<not> D (snd s1) curve"
  proof -
    obtain r w1 where r: "reset_to_auto h curve zero (snd ?s0) = (r, w1)" by (rule prod.exhaust)
    obtain q w2 where q: "\<And>p. prior = Some p \<Longrightarrow> set_static_speed h curve zero p GPU_PMFW_NUM_CURVE_POINTS (snd ?s0) = (q, w2)"
      by (cases prior) (auto, metis prod.exhaust)
    note gr = grows_reset [OF assms(1) z r]
    have gs: "prior = Some p \<Longrightarrow> grows D (insert curve (set_option zero)) (snd ?s0) w2" for p
      using q by (auto simp: set_static_speed_def intro!: grows_static [OF assms(1), of curve _ zero])
    show "grows D (insert curve (set_option zero)) (snd ?s0) (snd s1)"
      using f' gr(1) gs q r by (auto simp: restore_pmfw_def Let_def split: option.splits if_splits sum.splits prod.splits)
    show "\<not> D (snd s1) curve" if "\<not> ?static" "\<not> f"
      using that f' gr(2) r by (auto simp: restore_pmfw_def Let_def split: option.splits if_splits sum.splits prod.splits)
  qed
  have l1: "on_list D gpus s1" by (rule on_list_host [OF assms(3) l0 assms(6) t0 _ g]) (simp add: f')
  let ?s2 = "stamp_restored_pct env i prior f (ge_others env s1)"
  have s2: "gc_handback (fst ?s2) = gc_handback (fst (ge_others env s1)) \<and> snd ?s2 = snd (ge_others env s1)"
    by (simp add: stamp_restored_pct_def split: option.split)
  have l2: "on_list D gpus (ge_others env ?s2)"
    by (rule on_list_others [OF assms(4) on_list_cache [OF on_list_others [OF assms(4) l1]]]) (simp_all add: s2)
  have st': "st' = note_pmfw_restored env i prior f (ge_others env ?s2)"
    using assms(8) f by (auto simp: restore_card_def assms(2))
  have "\<not> D (snd (ge_others env ?s2)) curve" if "\<not> ?static" "\<not> f"
    using d [OF that] others_grow [OF assms(4), of "{}" s1] others_grow [OF assms(4), of "{}" ?s2] s2 by (auto simp: grows_def)
  then show ?thesis
    using l2 hand_card_back_listed [OF assms(1-3) l2 assms(6)]
    by (auto simp: st' note_pmfw_restored_def split: option.splits if_splits)
qed


lemma pmfw_verify_listed:
  assumes "curve_host h rm D" "ge_host env = h" "separate gpus" "lock_held D env"
    and "on_list D gpus st" "(i, curve, zero) \<in> cards gpus"
    and "pmfw_verify_sequence env curve zero hw prior i
      (\<lambda>speed. set_static_speed h curve zero speed GPU_PMFW_NUM_CURVE_POINTS) (ge_others env) (ge_others env) st = (r, st')"
  shows "on_list D gpus st'"
proof -
  note o = on_list_others [OF assms(4)]
  obtain i0 c s1 where 1: "on_host (read_pmfw_state h curve zero hw) st = ((i0, c), s1)" by (metis prod.exhaust)
  have l1: "on_list D gpus s1"
    by (rule on_list_read [OF 1 assms(5)]) (rule grows_pmfw_state [OF assms(1)])
  obtain lo hi where b: "(case Option.bind c fc_speed_range of Some r \<Rightarrow> r | None \<Rightarrow> (15, 100)) = (lo, hi)" by (rule prod.exhaust)
  define speed where "speed = select_gpu_test_speed (case prior of Some p \<Rightarrow> Some p | None \<Rightarrow> gv_applied_speed_pct i0) lo hi"
  let ?s2 = "take_card env i curve zero (ge_others env s1)"
  note t = take_card_listed [OF assms(1-3) o [OF l1] assms(6)]
  obtain x s3 where 3: "on_host (set_static_speed h curve zero speed GPU_PMFW_NUM_CURVE_POINTS) (ge_others env ?s2) = (x, s3)" by (rule prod.exhaust)
  note e3 = on_host_split [OF 3]
  have p2: "taken_paths (gc_handback (fst (ge_others env ?s2))) i = Some (curve, zero)" using t(2) by (simp add: others_list [OF assms(4)])
  have g3: "grows D (insert curve (set_option zero)) (snd (ge_others env ?s2)) (snd s3)"
    by (rule grows_static [OF assms(1) _ _ conjunct2 [OF e3, unfolded set_static_speed_def]]) auto
  have l3: "on_list D gpus s3" by (rule on_list_host [OF assms(3) o [OF t(1)] assms(6) p2 _ g3]) (simp add: e3)
  have p3: "taken_paths (gc_handback (fst s3)) i = Some (curve, zero)" using p2 e3 by simp
  show ?thesis
  proof (cases x)
    case (Inl e)
    obtain f s4 where 4: "restore_card env prior curve zero i s3 = (f, s4)" by (rule prod.exhaust)
    obtain rpm s5 where 5: "on_host (read_fan1_input h hw) s4 = (rpm, s5)" by (rule prod.exhaust)
    have "on_list D gpus s5"
      by (rule on_list_read [OF 5 restore_card_listed [OF assms(1-4) l3 assms(6) p3 4]]) (rule grows_rpm [OF assms(1)])
    moreover have "st' = s5"
      using assms(7) 1 b 3 Inl 4 5 by (simp add: pmfw_verify_sequence_def assms(2) Let_def speed_def)
    ultimately show ?thesis by simp
  next
    case (Inr u)
    let ?s4 = "ge_others env (stamp_commanded env i speed (ge_others env s3))"
    have l4: "on_list D gpus ?s4" by (rule o [OF on_list_caches(1) [OF o [OF l3]]])
    have p4: "taken_paths (gc_handback (fst ?s4)) i = Some (curve, zero)" using p3 by (simp add: others_list [OF assms(4)])
    obtain fin c2 s5 where 5: "on_host (read_pmfw_state h curve zero hw) ?s4 = ((fin, c2), s5)" by (metis prod.exhaust)
    have l5: "on_list D gpus s5"
      by (rule on_list_read [OF 5 l4]) (rule grows_pmfw_state [OF assms(1)])
    have p5: "taken_paths (gc_handback (fst (ge_others env s5))) i = Some (curve, zero)"
      using p4 on_host_split [OF 5] by (simp add: others_list [OF assms(4)])
    obtain f s6 where 6: "restore_card env prior curve zero i (ge_others env s5) = (f, s6)" by (rule prod.exhaust)
    have "st' = s6" using assms(7) 1 b 3 Inr 5 6 by (simp add: pmfw_verify_sequence_def assms(2) Let_def speed_def)
    then show ?thesis using restore_card_listed [OF assms(1-4) o [OF l5] assms(6) p5 6] by simp
  qed
qed

lemma restore_legacy_listed:
  assumes "curve_host h rm D" "ge_host env = h" "separate gpus" "lock_held D env"
    and "on_list D gpus st" "g \<in> set gpus" "restore_legacy_card env rm i rc (gi_hwmon_path g) orig st = (f, st')"
  shows "on_list D gpus st'"
proof -
  note o = on_list_others [OF assms(4)]
  obtain f1 s1 where 1: "on_host (restore_legacy h orig (gi_hwmon_path g)) (ge_others env st) = (f1, s1)" by (rule prod.exhaust)
  note e1 = on_host_split [OF 1]
  let ?P = "{path_join (gi_hwmon_path g) ''pwm1'', path_join (gi_hwmon_path g) ''pwm1_enable''}"
  have g: "grows D ?P (snd (ge_others env st)) (snd s1)"
    using e1 grows_legacy [OF assms(1), of "gi_hwmon_path g" ?P]
    by (auto simp: restore_legacy_def split: LegacyOriginal.splits prod.splits sum.splits)
  have l1: "on_list D gpus (ge_others env s1)" by (rule o [OF legacy_listed [OF assms(3) o [OF assms(5)] assms(6) _ g]]) (simp add: e1)
  let ?s2 = "(fst (ge_others env s1), note_legacy_handed_back h rm rc (gi_hwmon_path g) (snd (ge_others env s1)))"
  have l2: "on_list D gpus (ge_others env ?s2)"
    by (rule o [OF on_list_grow_nothing [OF l1]]) (simp_all add: grows_legacy_back [OF assms(1)])
  have "st' = note_legacy_restored env rm i rc (gi_hwmon_path g) orig f1 (ge_others env s1)"
    using assms(7) 1 by (auto simp: restore_legacy_card_def assms(2))
  then show ?thesis using l1 on_list_caches [OF l2]
    by (auto simp: note_legacy_restored_def assms(2) Let_def split: LegacyOriginal.splits)
qed

lemma legacy_verify_listed:
  assumes "curve_host h rm D" "ge_host env = h" "separate gpus" "lock_held D env"
    and "on_list D gpus st" "g \<in> set gpus"
    and "legacy_verify_sequence env rm (gi_hwmon_path g) i rc (ge_others env) (ge_others env) st = (r, st')"
  shows "on_list D gpus st'"
proof -
  note o = on_list_others [OF assms(4)]
  let ?hw = "gi_hwmon_path g"
  let ?P = "{path_join ?hw ''pwm1'', path_join ?hw ''pwm1_enable''}"
  have rd: "on_list D gpus s'" if "on_host (read_legacy_state h ?hw) s = (x, s')" "on_list D gpus s" for x s s'
    by (rule on_list_read [OF that]) (rule grows_legacy_state [OF assms(1)])
  obtain raw i0 s1 where 1: "on_host (read_legacy_state h ?hw) st = ((raw, i0), s1)" by (metis prod.exhaust)
  note l1 = rd [OF 1 assms(5)]
  obtain orig s2 where 2: "on_host (note_legacy_take h rc ?hw (legacy_from_read (gv_pwm_enable i0) raw)) (ge_others env s1) = (orig, s2)"
    by (rule prod.exhaust)
  have l2: "on_list D gpus s2"
    by (rule on_list_read [OF 2 o [OF l1]]) (rule grows_legacy_take [OF assms(1)])
  let ?speed = "select_gpu_test_speed (gv_applied_speed_pct i0) 0 100"
  obtain x s3 where 3: "on_host (set_legacy_pwm h ?hw ?speed) (ge_others env s2) = (x, s3)" by (rule prod.exhaust)
  note e3 = on_host_split [OF 3]
  have g3: "grows D ?P (snd (ge_others env s2)) (snd s3)"
    by (rule grows_legacy(2) [OF assms(1) _ _ conjunct2 [OF e3]]) simp_all
  have l3: "on_list D gpus s3" by (rule legacy_listed [OF assms(3) o [OF l2] assms(6) _ g3]) (simp add: e3)
  show ?thesis
  proof (cases x)
    case (Inl e)
    obtain f s4 where 4: "restore_legacy_card env rm i rc ?hw orig s3 = (f, s4)" by (rule prod.exhaust)
    obtain raw2 fin s5 where 5: "on_host (read_legacy_state h ?hw) s4 = ((raw2, fin), s5)" by (metis prod.exhaust)
    have "st' = s5" using assms(7) 1 2 3 Inl 4 5 by (simp add: legacy_verify_sequence_def assms(2) Let_def)
    then show ?thesis using rd [OF 5 restore_legacy_listed [OF assms(1-4) l3 assms(6) 4]] by simp
  next
    case (Inr u)
    let ?s4 = "ge_others env (stamp_commanded env i ?speed (ge_others env s3))"
    have l4: "on_list D gpus ?s4" by (rule o [OF on_list_caches(1) [OF o [OF l3]]])
    obtain raw2 fin s5 where 5: "on_host (read_legacy_state h ?hw) ?s4 = ((raw2, fin), s5)" by (metis prod.exhaust)
    obtain f s6 where 6: "restore_legacy_card env rm i rc ?hw orig (ge_others env s5) = (f, s6)" by (rule prod.exhaust)
    have "st' = s6" using assms(7) 1 2 3 Inr 5 6 by (simp add: legacy_verify_sequence_def assms(2) Let_def)
    then show ?thesis using restore_legacy_listed [OF assms(1-4) o [OF rd [OF 5 l4]] assms(6) 6] by simp
  qed
qed

section \<open>Histories\<close>

text \<open>Any order of engine tasks, resets, verifies and profile activations; between two of them, and
  between two steps of one, the rest of the daemon and the machine act.\<close>

datatype GpuOp = EngineWrites GpuTask | ResetCall bool string | VerifyCall AmdGpuInfo | ProfileActivated

definition gpu_op_step :: "'w GpuEnv \<Rightarrow> (string \<Rightarrow> 'w \<Rightarrow> 'w) \<Rightarrow> string \<Rightarrow> AmdGpuInfo list \<Rightarrow> GpuOp \<Rightarrow> 'w gw \<Rightarrow> 'w gw" where
  "gpu_op_step env rm record_path gpus op st =
     (case op of
        EngineWrites t \<Rightarrow> snd (gpu_task env t (ge_others env st))
      | ResetCall lock i \<Rightarrow> snd (gpu_reset_fan_handler env gpus lock i (ge_others env st))
      | VerifyCall g \<Rightarrow> snd (gpu_verify_task env rm record_path g (ge_others env) (ge_others env) (ge_others env st))
      | ProfileActivated \<Rightarrow> on_cache clear_relinquished_gpu_fans (ge_others env st))"

definition gpu_op_ok :: "AmdGpuInfo list \<Rightarrow> GpuOp \<Rightarrow> bool" where
  "gpu_op_ok gpus op =
     (case op of
        EngineWrites t \<Rightarrow> list_all (\<lambda>x. (gw_fan_id x, gw_path x, gw_zero_rpm x) \<in> cards gpus) (gt_batch t)
      | VerifyCall g \<Rightarrow> g \<in> set gpus
      | _ \<Rightarrow> True)"

text \<open>A batch the engine selected names cards of the daemon's list.\<close>

lemma pending_write_selected:
  assumes "pending_write env snap b cmd st = Some x"
  shows "(gw_fan_id x, gw_path x, gw_zero_rpm x) \<in> cards (gb_gpu_infos b)"
proof -
  obtain bdf g where g: "strip_prefix ''amd_gpu:'' (cmd_member_id cmd) = Some bdf" "List.find (\<lambda>g. gi_pci_bdf g = bdf) (gb_gpu_infos b) = Some g"
    "gi_fan_curve_path g = Some (gw_path x)" "gw_fan_id x = cmd_member_id cmd" "gw_zero_rpm x = gi_fan_zero_rpm_path g"
    using assms by (auto simp: pending_write_def split: prod.splits if_splits option.splits)
  have "cmd_member_id cmd = amd_fan_id bdf" using g(1) by (auto simp: strip_prefix_Some amd_fan_id_def)
  moreover have "g \<in> set (gb_gpu_infos b)" "gi_pci_bdf g = bdf" using g(2) by (auto simp: find_Some_iff)
  ultimately show ?thesis using g(3-5) by (auto simp: cards_def)
qed

lemma pending_writes_selected:
  "pending_writes env snap b cmds st = (batch, st') \<Longrightarrow> gpu_op_ok (gb_gpu_infos b) (EngineWrites \<lparr>gt_batch = batch, gt_give_back = ids\<rparr>)"
proof (induction cmds arbitrary: batch st st')
  case (Cons cmd cmds)
  show ?case
  proof (cases "cmd_source cmd = ''amd_gpu''")
    case True
    obtain ws s1 where w: "pending_writes env snap b cmds (ge_others env st) = (ws, s1)" by (rule prod.exhaust)
    show ?thesis using Cons.IH [OF w] Cons.prems True w pending_write_selected [of env snap b cmd "ge_others env st"]
      by (auto simp: Let_def gpu_op_ok_def split: option.splits)
  qed (use Cons in auto)
qed (simp add: gpu_op_ok_def)

lemma gpu_reset_call_listed:
  assumes "curve_host h rm D" "ge_host env = h" "separate gpus" "lock_held D env" "on_list D gpus st"
  shows "on_list D gpus (snd (gpu_reset_fan_handler env gpus lock i st))"
proof (cases "List.find (\<lambda>g. gi_pci_bdf g = i) gpus")
  case (Some g)
  then have g: "g \<in> set gpus" "gi_pci_bdf g = i" by (auto simp: find_Some_iff)
  note l = on_list_others [OF assms(4,5)]
  obtain ok s1 where 1: "legacy_reset_task env (amd_fan_id i) (gi_hwmon_path g) (ge_others env st) = (ok, s1)" by (rule prod.exhaust)
  show ?thesis
  proof (cases "gi_fan_curve_path g")
    case None
    then show ?thesis using Some assms(5) 1 legacy_reset_listed [OF assms(1-4) l g(1) 1]
      by (auto simp: gpu_reset_fan_handler_def Let_def)
  next
    case c: (Some curve)
    obtain ok s1 where 2: "gpu_reset_task env (amd_fan_id i) curve (gi_fan_zero_rpm_path g) (ge_others env st) = (ok, s1)" by (rule prod.exhaust)
    have "(amd_fan_id i, curve, gi_fan_zero_rpm_path g) \<in> cards gpus" using g c by (auto simp: cards_def)
    from gpu_reset_listed [OF assms(1-4) l this 2] show ?thesis
      using Some c 2 assms(5) by (auto simp: gpu_reset_fan_handler_def Let_def)
  qed
qed (simp add: gpu_reset_fan_handler_def assms(5))

lemma gpu_verify_call_listed:
  assumes "curve_host h rm D" "ge_host env = h" "separate gpus" "lock_held D env" "on_list D gpus st" "g \<in> set gpus"
  shows "on_list D gpus (snd (gpu_verify_task env rm record_path g (ge_others env) (ge_others env) st))"
proof (cases "gi_fan_curve_path g")
  case None
  then show ?thesis using legacy_verify_listed [OF assms] by (simp add: gpu_verify_task_def Let_def) (metis prod.collapse)
next
  case (Some curve)
  then have c: "(amd_fan_id (gi_pci_bdf g), curve, gi_fan_zero_rpm_path g) \<in> cards gpus" using assms(6) by (auto simp: cards_def)
  show ?thesis using pmfw_verify_listed [OF assms(1-5) c] Some by (simp add: gpu_verify_task_def Let_def assms(2)) (metis prod.collapse)
qed

lemma gpu_op_listed:
  assumes "curve_host h rm D" "ge_host env = h" "separate gpus" "lock_held D env" "on_list D gpus st" "gpu_op_ok gpus op"
  shows "on_list D gpus (gpu_op_step env rm record_path gpus op st)"
proof -
  note l = on_list_others [OF assms(4,5)]
  show ?thesis
  proof (cases op)
    case (EngineWrites t)
    obtain r s1 where 1: "gpu_task env t (ge_others env st) = (r, s1)" by (rule prod.exhaust)
    have "\<forall>x \<in> set (gt_batch t). (gw_fan_id x, gw_path x, gw_zero_rpm x) \<in> cards gpus"
      using assms(6) EngineWrites by (simp add: gpu_op_ok_def list_all_iff)
    from gpu_task_listed [OF assms(1-4) this l 1] show ?thesis using EngineWrites 1 by (simp add: gpu_op_step_def)
  next
    case (ResetCall lock i)
    then show ?thesis using gpu_reset_call_listed [OF assms(1-4) l] by (simp add: gpu_op_step_def)
  next
    case (VerifyCall g)
    then show ?thesis using gpu_verify_call_listed [OF assms(1-4) l] assms(6) by (simp add: gpu_op_step_def gpu_op_ok_def)
  next
    case ProfileActivated
    have "on_list D gpus (on_cache clear_relinquished_gpu_fans (ge_others env st))"
      by (rule on_list_cache [OF l]) (simp_all add: on_cache_def clear_relinquished_gpu_fans_def case_prod_beta)
    then show ?thesis using ProfileActivated by (simp add: gpu_op_step_def)
  qed
qed

text \<open>C18: no GPU is left on a curve of the daemon without the exit knowing of it. Whatever engine batches,
  resets, verifies (completed or failed half way) and activations ran in whatever order, and whichever of
  their writes failed, a card whose curve file was written since its last reset and commit is among the cards
  the exit puts back on firmware auto, with its own two files. The engine's batches are the ones it
  selects from its list of cards (\<open>pending_writes_selected\<close>).\<close>

theorem every_driven_card_is_listed:
  assumes "curve_host h rm D" "ge_host env = h" "separate gpus" "lock_held D env" "list_all (gpu_op_ok gpus) ops"
    and "\<forall>p. \<not> D (snd st) p" "pw_taken (gc_handback (fst st)) = []"
    and "g \<in> set gpus" "gi_fan_curve_path g = Some curve"
    and "D (snd (fold (gpu_op_step env rm record_path gpus) ops st)) curve"
  shows "(curve, gi_fan_zero_rpm_path g) \<in>
    set (the (pmfw_try_taken False (gc_handback (fst (fold (gpu_op_step env rm record_path gpus) ops st)))))"
proof -
  have "on_list D gpus st" using assms(6,7) by (simp add: on_list_def taken_paths_def)
  then have l: "on_list D gpus (fold (gpu_op_step env rm record_path gpus) ops st)"
    using assms(5) by (induction ops arbitrary: st) (simp_all add: gpu_op_listed [OF assms(1-4)])
  have "(amd_fan_id (gi_pci_bdf g), curve, gi_fan_zero_rpm_path g) \<in> cards gpus" using assms(8,9) by (auto simp: cards_def)
  from map_of_SomeD [OF listed [OF l this assms(10), unfolded taken_paths_def]] show ?thesis
    by (force simp: pmfw_try_taken_def pmfw_cards_def)
qed

section \<open>A witness\<close>

text \<open>A host that logs its writes, newest first, and whose files cannot be read.\<close>

fun carries :: "string \<Rightarrow> (string \<times> string) list \<Rightarrow> bool" where
  "carries p [] = False"
| "carries p (x # w) =
     (if x = (p, ''c'' @ [newline]) \<and> take 1 w = [(p, ''r'' @ [newline])] then False
      else if fst x = p \<and> snd x \<notin> {''r'' @ [newline], ''c'' @ [newline]} then True
      else carries p w)"

definition log_host :: "(string \<times> string) list Host" where
  "log_host = \<lparr>write_file = \<lambda>p v w. (Inr (), (p, v) # w), read_file = \<lambda>p w. (Inl (ReadError p), w),
     write_replacing = \<lambda>p v w. (True, w), hand_back_begun = (\<lambda>_. False), begin_hand_back = (\<lambda>w. w)\<rparr>"

lemma log_curve_host: "curve_host log_host (\<lambda>p w. w) (\<lambda>w p. carries p w)"
  by (simp add: curve_host_def log_host_def grows_def)

definition log_env :: "(string \<times> string) list GpuEnv" where
  "log_env = \<lparr>ge_host = log_host, ge_now = (\<lambda>_. 0), ge_others = (\<lambda>st. st)\<rparr>"

lemma log_env_simps: "ge_host log_env = log_host" "lock_held D log_env"
  by (simp_all add: log_env_def lock_held_def)

definition navi_card :: AmdGpuInfo where
  "navi_card = \<lparr>gi_pci_bdf = ''0000:03:00.0'', gi_pci_device_id = 0x744C, gi_hwmon_path = ''/hw'',
     gi_fan_curve_path = Some ''/od/fan_curve'', gi_fan_zero_rpm_path = Some ''/od/fan_zero_rpm_enable'',
     gi_has_fan_rpm = True, gi_has_pwm = True, gi_has_pwm_enable = True\<rparr>"

definition navi_write :: GpuOp where
  "navi_write = EngineWrites \<lparr>gt_batch = [\<lparr>gw_fan_id = amd_fan_id ''0000:03:00.0'', gw_path = ''/od/fan_curve'',
     gw_zero_rpm = Some ''/od/fan_zero_rpm_enable'', gw_pct = 40, gw_preserve_zero_rpm = False\<rparr>], gt_give_back = []\<rparr>"

definition idle_gpus :: GpuCache where
  "idle_gpus = \<lparr>gc_state = daemon_state_default, gc_gpu_fans = [], gc_relinquished = {}, gc_handback = pmfw_default\<rparr>"

definition navi_end :: "(string \<times> string) list gw" where
  "navi_end = fold (gpu_op_step log_env (\<lambda>p w. w) ''/run/gpu'' [navi_card]) [navi_write] (idle_gpus, [])"

theorem every_driven_card_is_listed_witness:
  "carries ''/od/fan_curve'' (snd navi_end) \<and>
   (''/od/fan_curve'', Some ''/od/fan_zero_rpm_enable'') \<in> set (the (pmfw_try_taken False (gc_handback (fst navi_end))))"
proof -
  have c: "carries ''/od/fan_curve'' (snd navi_end)" by code_simp
  have "separate [navi_card]"
    by (simp add: separate_def cards_def navi_card_def path_join_def)
  moreover have "list_all (gpu_op_ok [navi_card]) [navi_write]"
    by (simp add: gpu_op_ok_def cards_def navi_card_def navi_write_def)
  ultimately show ?thesis
    using every_driven_card_is_listed [OF log_curve_host log_env_simps(1) _ log_env_simps(2), where gpus = "[navi_card]"
        and ops = "[navi_write]" and st = "(idle_gpus, [])" and g = navi_card and record_path = "''/run/gpu''", folded navi_end_def] c
    by (simp add: idle_gpus_def pmfw_default_def navi_card_def)
qed

end
