(* ===== verification/Engine_Loop.thy ===== *)
theory Engine_Loop
  imports Engine_Properties Pump_Stall Cooling_Advisory Force_Scope Hwmon_Control
begin

text \<open>
  The profile engine's loop (\<open>profile_engine_loop\<close> of \<open>profile_engine/mod.rs\<close>): one tick from the wake-up
  to the publication of its result, and the loop around it. The three write backends are a parameter, a
  record of the operations the loop calls; \<open>le_others\<close> is what the rest of the daemon does between two
  locks of a tick. A tick answers, beside its new state, the list of backend calls it made. Log lines are
  left out; a panic of the tick is not modelled.
\<close>

section \<open>What the loop shares with the daemon\<close>

record EngineStamps =
  et_started :: "instant option"
  et_completed :: "instant option"
  et_writes_stalled_since :: "instant option"

record SafetyReport =
  rp_thermal_state :: ThermalState
  rp_trigger_c :: f64
  rp_causes :: "string list"
  rp_coolant_limit_c :: f64
  rp_coolant_release_c :: f64

record EngineView =
  ev_report :: "SafetyReport option"
  ev_stamps :: EngineStamps
  ev_skipped_controls :: "SkippedControl list"
  ev_control_outputs :: "ControlOutput list"
  ev_pump_stalls :: "PumpStallRecord list"
  ev_cooling_advisories :: "CoolingAdvisoryRecord list"
  ev_keepalives :: nat

text \<open>\<open>lw_openfan\<close>: the controller slot is filled; \<open>lw_io\<close> is the machine behind the backends.\<close>

record 'x LoopWorld =
  lw_now :: instant
  lw_state :: DaemonState
  lw_sensors :: sensors
  lw_hwmon_fans :: "(string, HwmonFanState) hmap"
  lw_unavailable :: "string list"
  lw_poll_interval_ms :: u64
  lw_coolant_limit :: "8 word"
  lw_epoch :: u64
  lw_profile :: "DaemonProfile option"
  lw_openfan :: bool
  lw_safety :: ThermalSafetyRule
  lw_overrides :: OverrideTable
  lw_roles :: "(string, HeaderRole) hmap"
  lw_shutdown :: bool
  lw_view :: EngineView
  lw_io :: 'x

definition DEFAULT_HWMON_POLL_INTERVAL_MS :: u64 where "DEFAULT_HWMON_POLL_INTERVAL_MS = 1000"
definition CPU_TEMP_STALE_INTERVALS :: u32 where "CPU_TEMP_STALE_INTERVALS = 5"
definition CPU_TEMP_STALE_CEILING_MS :: u64 where "CPU_TEMP_STALE_CEILING_MS = 30000"

definition cpu_temp_stale_after :: "u64 \<Rightarrow> duration" where
  "cpu_temp_stale_after interval_ms =
     (let interval = max interval_ms DEFAULT_HWMON_POLL_INTERVAL_MS;
          budget = max (min (min (interval * CPU_TEMP_STALE_INTERVALS) (2 ^ 64 - 1)) CPU_TEMP_STALE_CEILING_MS) interval
      in budget * 1000000)"

definition paused :: "'x LoopWorld \<Rightarrow> bool" where
  "paused w = verify_active_at (lw_now w) (lw_state w)"

section \<open>What the cache publishes\<close>

text \<open>\<open>ds_thermal_state\<close> is the field a diagnostic's claim reads.\<close>

fun thermal_state_token :: "ThermalState \<Rightarrow> string" where
  "thermal_state_token Normal = ''normal''"
| "thermal_state_token Emergency = ''emergency''"
| "thermal_state_token NoSensorFallback = ''no_sensor_fallback''"

definition record_engine_safety :: "SafetyReport \<Rightarrow> 'x LoopWorld \<Rightarrow> 'x LoopWorld" where
  "record_engine_safety r w =
     w\<lparr>lw_state := record_thermal_state (thermal_state_token (rp_thermal_state r)) (lw_state w),
       lw_view := (lw_view w)\<lparr>ev_report := Some r, ev_stamps := (ev_stamps (lw_view w))\<lparr>et_started := Some (lw_now w)\<rparr>\<rparr>\<rparr>"

definition update_control_state :: "SkippedControl list \<Rightarrow> ControlOutput list \<Rightarrow> EngineView \<Rightarrow> EngineView" where
  "update_control_state skipped outputs v =
     (if skipped = [] \<and> outputs = [] \<and> ev_skipped_controls v = [] \<and> ev_control_outputs v = [] then v
      else v\<lparr>ev_skipped_controls := skipped, ev_control_outputs := outputs\<rparr>)"

definition update_cooling_watch :: "PumpStallRecord list \<Rightarrow> CoolingAdvisoryRecord list \<Rightarrow> EngineView \<Rightarrow> EngineView" where
  "update_cooling_watch stalls advisories v =
     (if stalls = [] \<and> advisories = [] \<and> ev_pump_stalls v = [] \<and> ev_cooling_advisories v = [] then v
      else v\<lparr>ev_pump_stalls := stalls, ev_cooling_advisories := advisories\<rparr>)"

definition record_engine_tick_complete :: "instant \<Rightarrow> EngineView \<Rightarrow> EngineView" where
  "record_engine_tick_complete now v = v\<lparr>ev_stamps := (ev_stamps v)\<lparr>et_completed := Some now\<rparr>\<rparr>"

definition record_engine_write_stall :: "instant \<Rightarrow> bool \<Rightarrow> EngineView \<Rightarrow> EngineView" where
  "record_engine_write_stall now outstanding v =
     v\<lparr>ev_stamps := (ev_stamps v)\<lparr>et_writes_stalled_since :=
         (if outstanding then (case et_writes_stalled_since (ev_stamps v) of None \<Rightarrow> Some now | Some t \<Rightarrow> Some t) else None)\<rparr>\<rparr>"

definition watchdog_tick :: "EngineView \<Rightarrow> EngineView" where
  "watchdog_tick v = v\<lparr>ev_keepalives := Suc (ev_keepalives v)\<rparr>"

record TickCompletion =
  tc_skipped :: "SkippedControl list"
  tc_outputs :: "ControlOutput list"
  tc_writes_outstanding :: bool
  tc_pump_stalls :: "PumpStallRecord list"
  tc_advisories :: "CoolingAdvisoryRecord list"

definition tick_completion_new :: TickCompletion where
  "tick_completion_new = \<lparr>tc_skipped = [], tc_outputs = [], tc_writes_outstanding = False, tc_pump_stalls = [], tc_advisories = []\<rparr>"

text \<open>\<open>drop\<close>: each line locks the cache by itself.\<close>

definition publish :: "('x LoopWorld \<Rightarrow> 'x LoopWorld) \<Rightarrow> TickCompletion \<Rightarrow> 'x LoopWorld \<Rightarrow> 'x LoopWorld" where
  "publish others done w =
     (let upd = (\<lambda>f w. let w = others w in w\<lparr>lw_view := f (lw_now w) (lw_view w)\<rparr>);
          w = upd (\<lambda>_. update_control_state (tc_skipped done) (tc_outputs done)) w;
          w = upd (\<lambda>_. update_cooling_watch (tc_pump_stalls done) (tc_advisories done)) w;
          w = upd record_engine_tick_complete w;
          w = upd (\<lambda>now. record_engine_write_stall now (tc_writes_outstanding done)) w
      in upd (\<lambda>_. watchdog_tick) w)"

section \<open>The backends the loop calls\<close>

record ('o, 'h, 'g, 'x) BackendOps =
  bo_openfan_new :: 'o
  bo_openfan_force :: "('o, 'x LoopWorld) force_leg"
  bo_hwmon_force :: "('h, 'x LoopWorld) force_leg"
  bo_openfan_apply :: "PwmCommand list \<Rightarrow> ProfileMembers \<Rightarrow> HeldMembers \<Rightarrow> 'o \<times> 'x LoopWorld \<Rightarrow> 'o \<times> 'x LoopWorld"
  bo_hwmon_apply :: "PwmCommand list \<Rightarrow> ProfileMembers \<Rightarrow> 'h \<times> 'x LoopWorld \<Rightarrow> 'h \<times> 'x LoopWorld"
  bo_gpu_apply :: "PwmCommand list \<Rightarrow> GpuMembers \<Rightarrow> 'g \<times> 'x LoopWorld \<Rightarrow> 'g \<times> 'x LoopWorld"
  bo_openfan_stalled :: "'o \<Rightarrow> 'x LoopWorld \<Rightarrow> bool"
  bo_hwmon_stalled :: "'h \<Rightarrow> 'x LoopWorld \<Rightarrow> bool"
  bo_gpu_stalled :: "'g \<Rightarrow> 'x LoopWorld \<Rightarrow> bool"
  bo_hwmon_facts :: "'h \<times> 'x LoopWorld \<Rightarrow> (string, HeaderFacts) hmap \<times> 'h \<times> 'x LoopWorld"
  bo_hwmon_targets :: "'h \<Rightarrow> HwmonTargets"
  bo_gpu_targets :: "'g \<Rightarrow> string set"
  bo_openfan_drain :: "duration \<Rightarrow> 'o \<times> 'x LoopWorld \<Rightarrow> 'o \<times> 'x LoopWorld"
  bo_hwmon_drain :: "duration \<Rightarrow> 'h \<times> 'x LoopWorld \<Rightarrow> 'h \<times> 'x LoopWorld"
  bo_gpu_drain :: "duration \<Rightarrow> 'g \<times> 'x LoopWorld \<Rightarrow> 'g \<times> 'x LoopWorld"

record ('o, 'h, 'g, 'x) LoopEnv =
  le_ops :: "('o, 'h, 'g, 'x) BackendOps"
  le_others :: "'x LoopWorld \<Rightarrow> 'x LoopWorld"

record ('o, 'h, 'g) LoopState =
  ls_openfan :: "'o option"
  ls_gpu :: 'g
  ls_hwmon :: "'h option"
  ls_no_cpu_sensor_cycles :: u32
  ls_coolant_rule :: ThermalSafetyRule
  ls_pump_watch :: PumpStallWatch
  ls_advisory :: CoolingAdvisory
  ls_force_log :: ForceLogThrottle
  ls_engine :: ProfileEngineState
  ls_last_epoch :: u64

definition loop_start :: "'o option \<Rightarrow> 'h option \<Rightarrow> 'g \<Rightarrow> 'x LoopWorld \<Rightarrow> ('o, 'h, 'g) LoopState" where
  "loop_start openfan_be hwmon_be gpu_be w =
     \<lparr>ls_openfan = openfan_be, ls_gpu = gpu_be, ls_hwmon = hwmon_be, ls_no_cpu_sensor_cycles = 0,
      ls_coolant_rule = rule_coolant (lw_coolant_limit w), ls_pump_watch = stall_watch_default,
      ls_advisory = advisory_default, ls_force_log = force_log_default, ls_engine = engine_new,
      ls_last_epoch = lw_epoch w\<rparr>"

datatype BackendCall =
    ForceOpenFan u8 "PwmCommand list" ForceReach
  | ForceHwmon u8 "PwmCommand list" ForceReach
  | ApplyOpenFan "PwmCommand list" ProfileMembers HeldMembers
  | ApplyHwmon "PwmCommand list" ProfileMembers
  | ApplyGpu "PwmCommand list" GpuMembers

section \<open>One tick\<close>

text \<open>A controller that appeared after the start is adopted.\<close>

definition adopt_controller :: "('o, 'h, 'g, 'x) LoopEnv \<Rightarrow> ('o, 'h, 'g) LoopState \<times> 'x LoopWorld \<Rightarrow> ('o, 'h, 'g) LoopState \<times> 'x LoopWorld" where
  "adopt_controller env = (\<lambda>(s, w).
     let w = le_others env w in
     (if ls_openfan s = None \<and> lw_openfan w then s\<lparr>ls_openfan := Some (bo_openfan_new (le_ops env))\<rparr> else s, w))"

record SafetyPhase =
  sp_tick :: TickSafety
  sp_reading :: CpuReading
  sp_latched :: bool
  sp_sensors :: sensors
  sp_stale_after :: duration

text \<open>The clock is read before the sensors, both before the rule is locked.\<close>

definition safety_phase :: "('o, 'h, 'g, 'x) LoopEnv \<Rightarrow> ('o, 'h, 'g) LoopState \<times> 'x LoopWorld \<Rightarrow>
    SafetyPhase \<times> ('o, 'h, 'g) LoopState \<times> 'x LoopWorld" where
  "safety_phase env = (\<lambda>(s, w).
     let w = le_others env w; now = lw_now w;
         w = le_others env w; sensors = lw_sensors w;
         w = le_others env w; stale_after = cpu_temp_stale_after (lw_poll_interval_ms w);
         w = le_others env w;
         input = \<lparr>in_sensors = sensors, in_now = now, in_stale_after = stale_after, in_coolant_limit = lw_coolant_limit w\<rparr>;
         (tick, ss) = safety_leg input
            \<lparr>cpu_rule = lw_safety w, coolant_rule = ls_coolant_rule s, no_cpu_sensor_cycles = ls_no_cpu_sensor_cycles s\<rparr>;
         w = w\<lparr>lw_safety := cpu_rule ss\<rparr>;
         s = s\<lparr>ls_coolant_rule := coolant_rule ss, ls_no_cpu_sensor_cycles := no_cpu_sensor_cycles ss\<rparr>;
         w = record_engine_safety
               \<lparr>rp_thermal_state = thermal_state (ts_decision tick), rp_trigger_c = trigger_temp_c (cpu_rule ss),
                rp_causes = cause_tokens (ts_causes tick), rp_coolant_limit_c = trigger_temp_c (coolant_rule ss),
                rp_coolant_release_c = release_temp_c (coolant_rule ss)\<rparr> (le_others env w)
     in (\<lparr>sp_tick = tick, sp_reading = hottest_cpu_reading sensors now stale_after,
          sp_latched = (rule_active (cpu_rule ss) \<or> rule_active (coolant_rule ss)),
          sp_sensors = hm_retain (\<lambda>_ x. curve_eligible x now stale_after) sensors, sp_stale_after = stale_after\<rparr>, s, w))"

definition backends_stalled :: "('o, 'h, 'g, 'x) LoopEnv \<Rightarrow> ('o, 'h, 'g) LoopState \<times> 'x LoopWorld \<Rightarrow> bool" where
  "backends_stalled env = (\<lambda>(s, w).
     (case ls_openfan s of Some be \<Rightarrow> bo_openfan_stalled (le_ops env) be w | None \<Rightarrow> False) \<or>
     (case ls_hwmon s of Some be \<Rightarrow> bo_hwmon_stalled (le_ops env) be w | None \<Rightarrow> False) \<or>
     bo_gpu_stalled (le_ops env) (ls_gpu s) w)"

text \<open>The sweep of the override table and its snapshot, then the roles and the facts of the headers.\<close>

definition overlay_phase :: "('o, 'h, 'g, 'x) LoopEnv \<Rightarrow> ('o, 'h, 'g) LoopState \<times> 'x LoopWorld \<Rightarrow>
    OverrideSnapshot \<times> ('o, 'h, 'g) LoopState \<times> 'x LoopWorld" where
  "overlay_phase env = (\<lambda>(s, w).
     let w = le_others env w in
     case sweep (lw_now w) (lw_overrides w) of (cleared, table) \<Rightarrow>
     let engine = fold reset_control (swept_controls cleared) (ls_engine s);
         snap = Control_Override.snapshot (lw_now w) table;
         w = le_others env (w\<lparr>lw_overrides := table\<rparr>);
         engine = set_assigned_roles (lw_roles w) engine
     in case ls_hwmon s of
          None \<Rightarrow> (snap, s\<lparr>ls_engine := engine\<rparr>, w)
        | Some be \<Rightarrow>
            (case bo_hwmon_facts (le_ops env) (be, w) of (facts, be, w) \<Rightarrow>
               (snap, s\<lparr>ls_engine := set_header_facts facts engine, ls_hwmon := Some be\<rparr>, w)))"

record ProfilePhase =
  pp_commands :: "PwmCommand list option"
  pp_members :: ProfileMembers
  pp_gpu_members :: GpuMembers
  pp_held :: HeldMembers
  pp_pump_ids :: "string list"

definition loop_targets :: "('o, 'h, 'g, 'x) LoopEnv \<Rightarrow> ('o, 'h, 'g) LoopState \<Rightarrow> DeliveryTargets" where
  "loop_targets env s =
     \<lparr>dt_openfan = (ls_openfan s \<noteq> None),
      dt_hwmon = (case ls_hwmon s of None \<Rightarrow> HwmonAbsent | Some be \<Rightarrow> bo_hwmon_targets (le_ops env) be),
      dt_amd_gpu = bo_gpu_targets (le_ops env) (ls_gpu s)\<rparr>"

definition profile_phase :: "('o, 'h, 'g, 'x) LoopEnv \<Rightarrow> OverrideSnapshot \<Rightarrow> sensors \<Rightarrow> ('o, 'h, 'g) LoopState \<times> 'x LoopWorld \<Rightarrow>
    ProfilePhase \<times> ('o, 'h, 'g) LoopState \<times> 'x LoopWorld" where
  "profile_phase env snap sensors = (\<lambda>(s, w).
     let w = le_others env w;
         s = (if lw_epoch w \<noteq> ls_last_epoch s
              then s\<lparr>ls_last_epoch := lw_epoch w, ls_engine := deactivate (ls_engine s),
                     ls_pump_watch := snd (release_holds (ls_pump_watch s))\<rparr>
              else s)
     in case lw_profile w of
          Some p \<Rightarrow>
            let w = le_others env w in
            (case evaluate_profile_with_overrides p sensors snap ((ls_engine s)\<lparr>quarantined_sensor_ids := lw_unavailable w\<rparr>) of
               (cmds, engine) \<Rightarrow>
             let engine = snd (note_backend_unavailable p snap (loop_targets env s) engine) in
               (\<lparr>pp_commands = Some cmds, pp_members = members_of p, pp_gpu_members = gpu_members_of p,
                 pp_held = held_of_skipped p (skipped_ids_this_tick engine), pp_pump_ids = profile_pump_member_ids p engine\<rparr>,
                s\<lparr>ls_engine := engine\<rparr>, w))
        | None \<Rightarrow>
            (\<lparr>pp_commands = None, pp_members = members_default, pp_gpu_members = GpuMembers {}, pp_held = held_default,
              pp_pump_ids = []\<rparr>, s\<lparr>ls_engine := deactivate (ls_engine s)\<rparr>, w))"

definition pump_stall_inputs :: "'x LoopWorld \<Rightarrow> instant \<Rightarrow> string list \<Rightarrow> duration \<Rightarrow> PumpInput list" where
  "pump_stall_inputs w now pump_ids stale_after =
     map (\<lambda>i. let fan = map_of (lw_hwmon_fans w) i in
        \<lparr>pi_header_id = i,
         pi_tach = (case fan of
             Some f \<Rightarrow> if now - hf_updated_at f \<le> stale_after
                       then (case hf_rpm f of Some rpm \<Rightarrow> TachFresh rpm | None \<Rightarrow> TachStale) else TachStale
           | None \<Rightarrow> TachStale),
         pi_commanded_pct = Option.bind fan hf_pwm_commanded_pct\<rparr>) pump_ids"

text \<open>The skips are committed, then the pump watch raises the commands, then the advisory looks at them.\<close>

definition watch_phase :: "('o, 'h, 'g, 'x) LoopEnv \<Rightarrow> SafetyPhase \<Rightarrow> ProfilePhase \<Rightarrow> ('o, 'h, 'g) LoopState \<times> 'x LoopWorld \<Rightarrow>
    PwmCommand list option \<times> ('o, 'h, 'g) LoopState \<times> 'x LoopWorld" where
  "watch_phase env sp pp = (\<lambda>(s, w).
     let w = le_others env w;
         engine = snd (commit_skips (lw_now w) (ls_engine s));
         w = le_others env w; timer_now = lw_now w;
         w = le_others env w; now = lw_now w;
         w = le_others env w; inputs = pump_stall_inputs w now (pp_pump_ids pp) (sp_stale_after sp);
         w = le_others env w; pump_watch = snd (stall_tick inputs timer_now (paused w) (ls_pump_watch s));
         commands = map_option (apply_stall_response (raised_headers pump_watch)) (pp_commands pp);
         fresh = (case sp_reading sp of Fresh t \<Rightarrow> Some t | _ \<Rightarrow> None);
         duty = Option.bind commands (\<lambda>c. max_non_gpu_duty c (forced_pct (ts_decision (sp_tick sp))));
         advisory = snd (advisory_tick fresh (cpu_ceiling_c (sp_sensors sp)) duty timer_now (ls_advisory s))
     in (commands, s\<lparr>ls_engine := engine, ls_pump_watch := pump_watch, ls_advisory := advisory\<rparr>, w))"

text \<open>The two gates of an ordinary write: shutdown, then a diagnostic.\<close>

definition may_write :: "('o, 'h, 'g, 'x) LoopEnv \<Rightarrow> 'x LoopWorld \<Rightarrow> bool \<times> 'x LoopWorld" where
  "may_write env w =
     (let w = le_others env w in
      if lw_shutdown w then (False, w) else let w = le_others env w in (\<not> paused w, w))"

definition call_gpu :: "('o, 'h, 'g, 'x) LoopEnv \<Rightarrow> PwmCommand list \<Rightarrow> GpuMembers \<Rightarrow>
    BackendCall list \<times> ('o, 'h, 'g) LoopState \<times> 'x LoopWorld \<Rightarrow> BackendCall list \<times> ('o, 'h, 'g) LoopState \<times> 'x LoopWorld" where
  "call_gpu env cmds gm = (\<lambda>(calls, s, w).
     case bo_gpu_apply (le_ops env) cmds gm (ls_gpu s, w) of (be, w) \<Rightarrow> (calls @ [ApplyGpu cmds gm], s\<lparr>ls_gpu := be\<rparr>, w))"

definition call_openfan :: "('o, 'h, 'g, 'x) LoopEnv \<Rightarrow> PwmCommand list \<Rightarrow> ProfileMembers \<Rightarrow> HeldMembers \<Rightarrow>
    BackendCall list \<times> ('o, 'h, 'g) LoopState \<times> 'x LoopWorld \<Rightarrow> BackendCall list \<times> ('o, 'h, 'g) LoopState \<times> 'x LoopWorld" where
  "call_openfan env cmds m held = (\<lambda>(calls, s, w).
     case ls_openfan s of
       None \<Rightarrow> (calls, s, w)
     | Some be \<Rightarrow> (case bo_openfan_apply (le_ops env) cmds m held (be, w) of
         (be, w) \<Rightarrow> (calls @ [ApplyOpenFan cmds m held], s\<lparr>ls_openfan := Some be\<rparr>, w)))"

definition call_hwmon :: "('o, 'h, 'g, 'x) LoopEnv \<Rightarrow> PwmCommand list \<Rightarrow> ProfileMembers \<Rightarrow>
    BackendCall list \<times> ('o, 'h, 'g) LoopState \<times> 'x LoopWorld \<Rightarrow> BackendCall list \<times> ('o, 'h, 'g) LoopState \<times> 'x LoopWorld" where
  "call_hwmon env cmds m = (\<lambda>(calls, s, w).
     case ls_hwmon s of
       None \<Rightarrow> (calls, s, w)
     | Some be \<Rightarrow> (case bo_hwmon_apply (le_ops env) cmds m (be, w) of
         (be, w) \<Rightarrow> (calls @ [ApplyHwmon cmds m], s\<lparr>ls_hwmon := Some be\<rparr>, w)))"

text \<open>A forced tick: the two safety backends, then the GPU by its own curves.\<close>

definition forced_gpu :: "('o, 'h, 'g, 'x) LoopEnv \<Rightarrow> ProfilePhase \<Rightarrow> PwmCommand list \<Rightarrow>
    BackendCall list \<times> ('o, 'h, 'g) LoopState \<times> 'x LoopWorld \<Rightarrow> BackendCall list \<times> ('o, 'h, 'g) LoopState \<times> 'x LoopWorld" where
  "forced_gpu env pp baseline = (\<lambda>(calls, s, w).
     case may_write env w of
       (ok, w) \<Rightarrow> if ok then call_gpu env baseline (pp_gpu_members pp) (calls, s, w) else (calls, s, w))"

definition forced_phase :: "('o, 'h, 'g, 'x) LoopEnv \<Rightarrow> SafetyPhase \<Rightarrow> ProfilePhase \<Rightarrow> PwmCommand list option \<Rightarrow> u8 \<Rightarrow>
    ('o, 'h, 'g) LoopState \<times> 'x LoopWorld \<Rightarrow> BackendCall list \<times> ('o, 'h, 'g) LoopState \<times> 'x LoopWorld" where
  "forced_phase env sp pp commands pct = (\<lambda>(s, w).
     let baseline = (case commands of Some c \<Rightarrow> c | None \<Rightarrow> []);
         reach = reach_for_duty pct (pp_members pp) (pp_held pp) (sp_latched sp);
         calls = (if ls_openfan s \<noteq> None then [ForceOpenFan pct baseline reach] else []) @
                 (if ls_hwmon s \<noteq> None then [ForceHwmon pct baseline reach] else [])
     in case force_present_backends (bo_openfan_force (le_ops env)) (bo_hwmon_force (le_ops env)) pct baseline reach
               (ls_openfan s, ls_hwmon s, w) of
          (scope, o', h, w) \<Rightarrow>
            (let s = s\<lparr>ls_openfan := o', ls_hwmon := h,
                     ls_force_log := snd (on_forced_tick pct scope (reading_kind (sp_reading sp)) (ls_force_log s)),
                     ls_engine := reset_for_forced_tick (ls_engine s)\<rparr>
             in forced_gpu env pp baseline (calls, s, w)))"

text \<open>A tick without a profile gives back what nothing holds; a tick with one applies its commands. The
  first answer is whether the loop ends.\<close>

definition no_profile_phase :: "('o, 'h, 'g, 'x) LoopEnv \<Rightarrow> ProfilePhase \<Rightarrow> ('o, 'h, 'g) LoopState \<times> 'x LoopWorld \<Rightarrow>
    BackendCall list \<times> ('o, 'h, 'g) LoopState \<times> 'x LoopWorld" where
  "no_profile_phase env pp = (\<lambda>(s, w).
     case may_write env w of
       (ok, w) \<Rightarrow>
         if ok then call_gpu env [] (pp_gpu_members pp)
                (call_hwmon env [] (pp_members pp) (call_openfan env [] (pp_members pp) (pp_held pp) ([], s, w)))
         else ([], s, w))"

definition apply_phase :: "('o, 'h, 'g, 'x) LoopEnv \<Rightarrow> ProfilePhase \<Rightarrow> PwmCommand list \<Rightarrow> ('o, 'h, 'g) LoopState \<times> 'x LoopWorld \<Rightarrow>
    BackendCall list \<times> ('o, 'h, 'g) LoopState \<times> 'x LoopWorld" where
  "apply_phase env pp commands = (\<lambda>(s, w).
     if \<not> paused w
     then call_hwmon env commands (pp_members pp)
            (call_gpu env commands (pp_gpu_members pp)
              (call_openfan env commands (pp_members pp) (pp_held pp) ([], s, w)))
     else ([], s, w))"

definition write_phase :: "('o, 'h, 'g, 'x) LoopEnv \<Rightarrow> SafetyPhase \<Rightarrow> ProfilePhase \<Rightarrow> PwmCommand list option \<Rightarrow> TickCompletion \<Rightarrow>
    ('o, 'h, 'g) LoopState \<times> 'x LoopWorld \<Rightarrow> BackendCall list \<times> bool \<times> TickCompletion \<times> ('o, 'h, 'g) LoopState \<times> 'x LoopWorld" where
  "write_phase env sp pp commands done = (\<lambda>(s, w).
     case forced_pct (ts_decision (sp_tick sp)) of
       Some pct \<Rightarrow> (case forced_phase env sp pp commands pct (s, le_others env w) of (calls, s, w) \<Rightarrow> (calls, False, done, s, w))
     | None \<Rightarrow>
         let s = s\<lparr>ls_force_log := snd (on_normal_tick (ls_force_log s))\<rparr> in
         (case commands of
            None \<Rightarrow> (case no_profile_phase env pp (s, w) of (calls, s, w) \<Rightarrow> (calls, False, done, s, w))
          | Some cmds \<Rightarrow>
              let done = done\<lparr>tc_outputs := outputs_snapshot (ls_engine s)\<rparr>; w = le_others env w in
              if lw_shutdown w then ([], True, done, s, w)
              else (case apply_phase env pp cmds (s, le_others env w) of
                  (calls, s, w) \<Rightarrow>
                    let w = le_others env w in
                    (calls, False, done\<lparr>tc_writes_outstanding := backends_stalled env (s, w)\<rparr>, s, w))))"

definition loop_tick :: "('o, 'h, 'g, 'x) LoopEnv \<Rightarrow> ('o, 'h, 'g) LoopState \<times> 'x LoopWorld \<Rightarrow>
    BackendCall list \<times> bool \<times> ('o, 'h, 'g) LoopState \<times> 'x LoopWorld" where
  "loop_tick env st =
     (case safety_phase env (adopt_controller env st) of (sp, s, w) \<Rightarrow>
      let done = tick_completion_new\<lparr>tc_writes_outstanding := backends_stalled env (s, w)\<rparr> in
      case overlay_phase env (s, w) of (snap, s, w) \<Rightarrow>
      case profile_phase env snap (sp_sensors sp) (s, w) of (pp, s, w) \<Rightarrow>
      case watch_phase env sp pp (s, w) of (commands, s, w) \<Rightarrow>
      let done = done\<lparr>tc_skipped := skipped_snapshot (ls_engine s), tc_pump_stalls := stall_snapshot (ls_pump_watch s),
                     tc_advisories := advisory_snapshot (ls_advisory s)\<rparr> in
      case write_phase env sp pp commands done (s, w) of (calls, stop, done, s, w) \<Rightarrow>
        (calls, stop, s, publish (le_others env) done w))"

section \<open>The loop\<close>

text \<open>What ends the \<open>select!\<close>: the interval, or the shutdown channel (False: its sender is gone). A change
  that is no shutdown falls through to a tick.\<close>

datatype Wake = WakeTick | WakeChanged bool

definition wake_stops :: "('o, 'h, 'g, 'x) LoopEnv \<Rightarrow> Wake \<Rightarrow> 'x LoopWorld \<Rightarrow> bool" where
  "wake_stops env wake w = (case wake of WakeTick \<Rightarrow> False | WakeChanged ok \<Rightarrow> \<not> ok \<or> lw_shutdown w)"

definition DRAIN_BUDGET :: duration where "DRAIN_BUDGET = secs 2"

definition drain_backends :: "('o, 'h, 'g, 'x) LoopEnv \<Rightarrow> ('o, 'h, 'g) LoopState \<times> 'x LoopWorld \<Rightarrow> ('o, 'h, 'g) LoopState \<times> 'x LoopWorld" where
  "drain_backends env = (\<lambda>(s, w).
     case (case ls_openfan s of None \<Rightarrow> (s, w)
           | Some be \<Rightarrow> (case bo_openfan_drain (le_ops env) DRAIN_BUDGET (be, w) of (be, w) \<Rightarrow> (s\<lparr>ls_openfan := Some be\<rparr>, w))) of (s, w) \<Rightarrow>
     case (case ls_hwmon s of None \<Rightarrow> (s, w)
           | Some be \<Rightarrow> (case bo_hwmon_drain (le_ops env) DRAIN_BUDGET (be, w) of (be, w) \<Rightarrow> (s\<lparr>ls_hwmon := Some be\<rparr>, w))) of (s, w) \<Rightarrow>
     case bo_gpu_drain (le_ops env) DRAIN_BUDGET (ls_gpu s, w) of (be, w) \<Rightarrow> (s\<lparr>ls_gpu := be\<rparr>, w))"

text \<open>The ticks of a run with their calls, whether the loop has ended, and the final state.\<close>

fun engine_loop :: "('o, 'h, 'g, 'x) LoopEnv \<Rightarrow> Wake list \<Rightarrow> ('o, 'h, 'g) LoopState \<times> 'x LoopWorld \<Rightarrow>
    BackendCall list list \<times> bool \<times> ('o, 'h, 'g) LoopState \<times> 'x LoopWorld" where
  "engine_loop env [] (s, w) = ([], False, s, w)"
| "engine_loop env (wake # wakes) (s, w) =
     (let w = le_others env w in
      if wake_stops env wake w then ([], True, drain_backends env (s, w))
      else case loop_tick env (s, w) of (calls, stop, s, w) \<Rightarrow>
        if stop then ([calls], True, drain_backends env (s, w))
        else (case engine_loop env wakes (s, w) of (css, ended, s, w) \<Rightarrow> (calls # css, ended, s, w)))"

end
