(* ===== verification/Loop_Safety.thy ===== *)
theory Loop_Safety
  imports Engine_Loop
begin

text \<open>
  The emergency through the whole loop: whatever the profile, the overrides, the diagnostics, the pause
  and the shutdown do, a latched emergency forces every backend there is at every tick of a run.
\<close>

section \<open>What a step keeps\<close>

text \<open>\<open>P\<close> survives every step of the rest of the daemon and every backend operation.\<close>

definition env_keeps :: "('x LoopWorld \<Rightarrow> bool) \<Rightarrow> ('o, 'h, 'g, 'x) LoopEnv \<Rightarrow> bool" where
  "env_keeps P env =
     (let ops = le_ops env in
      \<forall>w. P w \<longrightarrow> P (le_others env w) \<and>
        (\<forall>p c r b. P (snd (snd (bo_openfan_force ops p c r (b, w))))) \<and>
        (\<forall>p c r b. P (snd (snd (bo_hwmon_force ops p c r (b, w))))) \<and>
        (\<forall>c m h b. P (snd (bo_openfan_apply ops c m h (b, w)))) \<and>
        (\<forall>c m b. P (snd (bo_hwmon_apply ops c m (b, w)))) \<and>
        (\<forall>c m b. P (snd (bo_gpu_apply ops c m (b, w)))) \<and>
        (\<forall>b. P (snd (snd (bo_hwmon_facts ops (b, w))))))"

lemma keepsD:
  assumes "env_keeps P env" "P w"
  shows keeps_others: "P (le_others env w)"
    and keeps_openfan_force: "bo_openfan_force (le_ops env) p c r (b, w) = (x, b1, w1) \<Longrightarrow> P w1"
    and keeps_hwmon_force: "bo_hwmon_force (le_ops env) p c r (b', w) = (x, b2, w2) \<Longrightarrow> P w2"
    and keeps_openfan_apply: "bo_openfan_apply (le_ops env) c m h (b, w) = (b3, w3) \<Longrightarrow> P w3"
    and keeps_hwmon_apply: "bo_hwmon_apply (le_ops env) c m (b', w) = (b4, w4) \<Longrightarrow> P w4"
    and keeps_gpu_apply: "bo_gpu_apply (le_ops env) c gm (b'', w) = (b5, w5) \<Longrightarrow> P w5"
    and keeps_facts: "bo_hwmon_facts (le_ops env) (b', w) = (fs, b6, w6) \<Longrightarrow> P w6"
  using assms unfolding env_keeps_def Let_def by (metis snd_conv)+

text \<open>The part of the loop's state no later phase touches.\<close>

definition same_leg :: "('o, 'h, 'g) LoopState \<Rightarrow> ('o, 'h, 'g) LoopState \<Rightarrow> bool" where
  "same_leg s s' =
     ((ls_openfan s' = None \<longleftrightarrow> ls_openfan s = None) \<and> (ls_hwmon s' = None \<longleftrightarrow> ls_hwmon s = None) \<and>
      ls_coolant_rule s' = ls_coolant_rule s \<and> ls_no_cpu_sensor_cycles s' = ls_no_cpu_sensor_cycles s)"

lemma same_leg_refl [simp]: "same_leg s s"
  by (simp add: same_leg_def)

lemma same_leg_trans: "same_leg s s1 \<Longrightarrow> same_leg s1 s2 \<Longrightarrow> same_leg s s2"
  by (simp add: same_leg_def)

lemma overlay_keeps:
  assumes "env_keeps P env" "\<And>w now. P w \<Longrightarrow> P (w\<lparr>lw_overrides := snd (sweep now (lw_overrides w))\<rparr>)" "P w"
    and "overlay_phase env (s, w) = (snap, s', w')"
  shows "P w'" "same_leg s s'"
proof -
  let ?w1 = "le_others env w"
  obtain cleared table where t: "sweep (lw_now ?w1) (lw_overrides ?w1) = (cleared, table)" by (rule prod.exhaust)
  have P: "P (le_others env (?w1\<lparr>lw_overrides := table\<rparr>))"
    using keeps_others [OF assms(1) assms(2) [OF keeps_others [OF assms(1,3)]], of "lw_now ?w1"] t by simp
  show "P w'" "same_leg s s'"
    using assms(4) t P keeps_facts [OF assms(1) P]
    by (auto simp: overlay_phase_def Let_def same_leg_def split: option.splits prod.splits)
qed

lemma profile_keeps:
  assumes "env_keeps P env" "P w" "profile_phase env snap sensors (s, w) = (pp, s', w')"
  shows "P w'" "same_leg s s'"
  using assms(3) keeps_others [OF assms(1,2)] keeps_others [OF assms(1) keeps_others [OF assms(1,2)]]
  by (auto simp: profile_phase_def Let_def same_leg_def split: option.splits prod.splits if_splits)

lemma watch_keeps:
  assumes "env_keeps P env" "P w" "watch_phase env sp pp (s, w) = (cmds, s', w')"
  shows "P w'" "same_leg s s'"
proof -
  note o = keeps_others [OF assms(1)]
  show "P w'" "same_leg s s'"
    using assms(3) o [OF o [OF o [OF o [OF o [OF assms(2)]]]]] by (auto simp: watch_phase_def Let_def same_leg_def)
qed

lemma may_write_keeps:
  assumes "env_keeps P env" "P w" "may_write env w = (ok, w')"
  shows "P w'"
  using assms(3) keeps_others [OF assms(1,2)] keeps_others [OF assms(1) keeps_others [OF assms(1,2)]]
  by (auto simp: may_write_def Let_def split: if_splits)

lemma calls_keep:
  assumes "env_keeps P env" "P w"
  shows call_gpu_keeps: "call_gpu env c gm (cs, s, w) = (cs', s', w') \<Longrightarrow> P w' \<and> same_leg s s'"
    and call_openfan_keeps: "call_openfan env c m held (cs, s, w) = (cs', s', w') \<Longrightarrow> P w' \<and> same_leg s s'"
    and call_hwmon_keeps: "call_hwmon env c m (cs, s, w) = (cs', s', w') \<Longrightarrow> P w' \<and> same_leg s s'"
  using assms(2) keeps_gpu_apply [OF assms] keeps_openfan_apply [OF assms] keeps_hwmon_apply [OF assms]
  by (auto simp: call_gpu_def call_openfan_def call_hwmon_def same_leg_def split: prod.splits option.splits)

lemma force_keeps:
  assumes "env_keeps P env" "P w"
    and "force_present_backends (bo_openfan_force (le_ops env)) (bo_hwmon_force (le_ops env)) p b r (o', h, w) = (scope, o1, h1, w1)"
  shows "P w1" "o1 = None \<longleftrightarrow> o' = None" "h1 = None \<longleftrightarrow> h = None"
proof -
  let ?fo = "case o' of Some be \<Rightarrow> (case bo_openfan_force (le_ops env) p b r (be, w) of (r, be, w) \<Rightarrow> (r, Some be, w)) | None \<Rightarrow> (False, None, w)"
  obtain ro o2 w2 where 2: "?fo = (ro, o2, w2)" by (metis prod.exhaust)
  have k2: "P w2 \<and> (o2 = None \<longleftrightarrow> o' = None)"
    using 2 assms(2) keeps_openfan_force [OF assms(1,2)] by (auto split: option.splits prod.splits)
  let ?fh = "case h of Some be \<Rightarrow> (case bo_hwmon_force (le_ops env) p b r (be, w2) of (r, be, w) \<Rightarrow> (r, Some be, w)) | None \<Rightarrow> (False, None, w2)"
  obtain rh h3 w3 where 3: "?fh = (rh, h3, w3)" by (metis prod.exhaust)
  have k3: "P w3 \<and> (h3 = None \<longleftrightarrow> h = None)"
    using 3 k2 keeps_hwmon_force [OF assms(1)] by (auto split: option.splits prod.splits)
  have "w1 = w3" "o1 = o2" "h1 = h3" using assms(3) 2 3 by (simp_all add: force_present_backends_def)
  then show "P w1" "o1 = None \<longleftrightarrow> o' = None" "h1 = None \<longleftrightarrow> h = None" using k2 k3 by simp_all
qed

lemma forced_keeps:
  assumes "env_keeps P env" "P w" "forced_phase env sp pp cmds p (s, w) = (calls, s', w')"
  shows "P w' \<and> same_leg s s'"
proof -
  let ?b = "case cmds of Some c \<Rightarrow> c | None \<Rightarrow> []"
  let ?r = "reach_for_duty p (pp_members pp) (pp_held pp) (sp_latched sp)"
  obtain scope o1 h1 w1 where f: "force_present_backends (bo_openfan_force (le_ops env)) (bo_hwmon_force (le_ops env)) p ?b ?r
      (ls_openfan s, ls_hwmon s, w) = (scope, o1, h1, w1)" by (metis prod.exhaust)
  note k = force_keeps [OF assms(1,2) f]
  obtain ok w2 where m: "may_write env w1 = (ok, w2)" by (rule prod.exhaust)
  note k2 = may_write_keeps [OF assms(1) k(1) m]
  show ?thesis
    using assms(3) f m k k2 call_gpu_keeps [OF assms(1) k2]
    by (auto simp: forced_phase_def forced_gpu_def Let_def same_leg_def split: if_splits)
qed

lemma no_profile_keeps:
  assumes "env_keeps P env" "P w" "no_profile_phase env pp (s, w) = (calls, s', w')"
  shows "P w' \<and> same_leg s s'"
proof -
  obtain ok w1 where m: "may_write env w = (ok, w1)" by (rule prod.exhaust)
  note k1 = may_write_keeps [OF assms(1,2) m]
  obtain c2 s2 w2 where 2: "call_openfan env [] (pp_members pp) (pp_held pp) ([], s, w1) = (c2, s2, w2)" by (metis prod.exhaust)
  note k2 = call_openfan_keeps [OF assms(1) k1 2]
  obtain c3 s3 w3 where 3: "call_hwmon env [] (pp_members pp) (c2, s2, w2) = (c3, s3, w3)" by (metis prod.exhaust)
  note k3 = call_hwmon_keeps [OF assms(1) conjunct1 [OF k2] 3]
  obtain c4 s4 w4 where 4: "call_gpu env [] (pp_gpu_members pp) (c3, s3, w3) = (c4, s4, w4)" by (metis prod.exhaust)
  note k4 = call_gpu_keeps [OF assms(1) conjunct1 [OF k3] 4]
  show ?thesis using assms(3) m 2 3 4 k1 k2 k3 k4 same_leg_trans [OF same_leg_trans [of s s2 s3], of s4]
    by (auto simp: no_profile_phase_def split: if_splits)
qed

lemma apply_keeps:
  assumes "env_keeps P env" "P w" "apply_phase env pp c (s, w) = (calls, s', w')"
  shows "P w' \<and> same_leg s s'"
proof -
  obtain c2 s2 w2 where 2: "call_openfan env c (pp_members pp) (pp_held pp) ([], s, w) = (c2, s2, w2)" by (metis prod.exhaust)
  note k2 = call_openfan_keeps [OF assms(1,2) 2]
  obtain c3 s3 w3 where 3: "call_gpu env c (pp_gpu_members pp) (c2, s2, w2) = (c3, s3, w3)" by (metis prod.exhaust)
  note k3 = call_gpu_keeps [OF assms(1) conjunct1 [OF k2] 3]
  obtain c4 s4 w4 where 4: "call_hwmon env c (pp_members pp) (c3, s3, w3) = (c4, s4, w4)" by (metis prod.exhaust)
  note k4 = call_hwmon_keeps [OF assms(1) conjunct1 [OF k3] 4]
  show ?thesis using assms(2,3) 2 3 4 k2 k3 k4 same_leg_trans [OF same_leg_trans [of s s2 s3], of s4]
    by (auto simp: apply_phase_def split: if_splits)
qed

lemma write_keeps:
  assumes "env_keeps P env" "P w" "write_phase env sp pp cmds dn (s, w) = (calls, stop, dn', s', w')"
  shows "P w' \<and> same_leg s s'"
proof -
  note o = keeps_others [OF assms(1)]
  let ?s = "s\<lparr>ls_force_log := snd (on_normal_tick (ls_force_log s))\<rparr>"
  have sl: "same_leg s ?s" by (simp add: same_leg_def)
  show ?thesis
  proof (cases "forced_pct (ts_decision (sp_tick sp))")
    case (Some p)
    obtain c1 s1 w1 where 1: "forced_phase env sp pp cmds p (s, le_others env w) = (c1, s1, w1)" by (metis prod.exhaust)
    show ?thesis using forced_keeps [OF assms(1) o [OF assms(2)] 1] assms(3) Some 1 by (simp add: write_phase_def)
  next
    case None
    obtain c1 s1 w1 where 1: "no_profile_phase env pp (?s, w) = (c1, s1, w1)" by (metis prod.exhaust)
    note k1 = no_profile_keeps [OF assms(1,2) 1]
    obtain c2 s2 w2 where 2: "apply_phase env pp (the cmds) (?s, le_others env (le_others env w)) = (c2, s2, w2)" by (metis prod.exhaust)
    note k2 = apply_keeps [OF assms(1) o [OF o [OF assms(2)]] 2]
    show ?thesis
      using assms(2,3) None 1 2 k1 k2 sl same_leg_trans [OF sl] o
      by (cases cmds) (auto simp: write_phase_def Let_def split: if_splits)
  qed
qed

lemma publish_keeps:
  assumes "\<And>w. P w \<Longrightarrow> P (others w)" "\<And>w v. P w \<Longrightarrow> P (w\<lparr>lw_view := v\<rparr>)" "P w"
  shows "P (publish others dn w)"
  unfolding publish_def Let_def by (intro assms)

section \<open>The safety leg of a tick\<close>

text \<open>Only the engine writes the CPU rule.\<close>

definition keeps_rule :: "('o, 'h, 'g, 'x) LoopEnv \<Rightarrow> bool" where
  "keeps_rule env = (\<forall>r. env_keeps (\<lambda>w. lw_safety w = r) env)"

definition loop_safety :: "('o, 'h, 'g) LoopState \<times> 'x LoopWorld \<Rightarrow> SafetyState" where
  "loop_safety = (\<lambda>(s, w). \<lparr>cpu_rule = lw_safety w, coolant_rule = ls_coolant_rule s, no_cpu_sensor_cycles = ls_no_cpu_sensor_cycles s\<rparr>)"

text \<open>What the safety leg of the next tick will read.\<close>

definition tick_input :: "('o, 'h, 'g, 'x) LoopEnv \<Rightarrow> 'x LoopWorld \<Rightarrow> SafetyInput" where
  "tick_input env w =
     (let w = le_others env (le_others env w); now = lw_now w; w = le_others env w; sensors = lw_sensors w; w = le_others env w;
          stale_after = cpu_temp_stale_after (lw_poll_interval_ms w); w = le_others env w
      in \<lparr>in_sensors = sensors, in_now = now, in_stale_after = stale_after, in_coolant_limit = lw_coolant_limit w\<rparr>)"

lemma rule_kept:
  assumes "keeps_rule env"
  shows "env_keeps (\<lambda>w. lw_safety w = r) env" "lw_safety (le_others env w) = lw_safety w"
  using assms keeps_others [of "\<lambda>v. lw_safety v = lw_safety w" env w] by (simp_all add: keeps_rule_def)

lemma safety_phase_leg:
  assumes "keeps_rule env" "safety_phase env (adopt_controller env (s, w)) = (sp, s', w')"
  shows "sp_tick sp = fst (safety_leg (tick_input env w) (loop_safety (s, w)))"
    and "loop_safety (s', w') = snd (safety_leg (tick_input env w) (loop_safety (s, w)))"
    and "sp_latched sp = (rule_active (cpu_rule (loop_safety (s', w'))) \<or> rule_active (coolant_rule (loop_safety (s', w'))))"
    and "ls_hwmon s' = ls_hwmon s" "ls_openfan s \<noteq> None \<Longrightarrow> ls_openfan s' \<noteq> None"
proof -
  obtain s0 where a: "adopt_controller env (s, w) = (s0, le_others env w)" and
    s0: "ls_coolant_rule s0 = ls_coolant_rule s \<and> ls_no_cpu_sensor_cycles s0 = ls_no_cpu_sensor_cycles s \<and>
      ls_hwmon s0 = ls_hwmon s \<and> (ls_openfan s \<noteq> None \<longrightarrow> ls_openfan s0 \<noteq> None)"
    by (auto simp: adopt_controller_def Let_def)
  obtain tk ss where l: "safety_leg (tick_input env w) (loop_safety (s, w)) = (tk, ss)" by (rule prod.exhaust)
  show "sp_tick sp = fst (safety_leg (tick_input env w) (loop_safety (s, w)))"
    "loop_safety (s', w') = snd (safety_leg (tick_input env w) (loop_safety (s, w)))"
    "sp_latched sp = (rule_active (cpu_rule (loop_safety (s', w'))) \<or> rule_active (coolant_rule (loop_safety (s', w'))))"
    "ls_hwmon s' = ls_hwmon s" "ls_openfan s \<noteq> None \<Longrightarrow> ls_openfan s' \<noteq> None"
    using assms(2) s0 l
    by (auto simp: a safety_phase_def tick_input_def loop_safety_def Let_def record_engine_safety_def rule_kept(2) [OF assms(1)])
qed

definition force_calls :: "bool \<Rightarrow> bool \<Rightarrow> u8 \<Rightarrow> PwmCommand list \<Rightarrow> ForceReach \<Rightarrow> BackendCall list" where
  "force_calls openfan hwmon p b r = (if openfan then [ForceOpenFan p b r] else []) @ (if hwmon then [ForceHwmon p b r] else [])"

lemma forced_calls:
  assumes "forced_phase env sp pp cmds p (s, w) = (calls, s', w')"
  shows "\<exists>b gpu. calls = force_calls (ls_openfan s \<noteq> None) (ls_hwmon s \<noteq> None) p b
      (reach_for_duty p (pp_members pp) (pp_held pp) (sp_latched sp)) @ gpu \<and> set gpu \<subseteq> {ApplyGpu b (pp_gpu_members pp)}"
  using assms by (auto simp: forced_phase_def forced_gpu_def Let_def force_calls_def call_gpu_def split: prod.splits if_splits)

lemma write_forced:
  assumes "write_phase env sp pp cmds dn (s, w) = (calls, stop, dn', s', w')" "forced_pct (ts_decision (sp_tick sp)) = Some p"
  shows "\<not> stop" "\<exists>b gpu. calls = force_calls (ls_openfan s \<noteq> None) (ls_hwmon s \<noteq> None) p b
      (reach_for_duty p (pp_members pp) (pp_held pp) (sp_latched sp)) @ gpu \<and> set gpu \<subseteq> {ApplyGpu b (pp_gpu_members pp)}"
proof -
  obtain c1 s1 w1 where 1: "forced_phase env sp pp cmds p (s, le_others env w) = (c1, s1, w1)" by (metis prod.exhaust)
  show "\<not> stop" using assms 1 by (simp add: write_phase_def)
  have "calls = c1" using assms 1 by (simp add: write_phase_def)
  then show "\<exists>b gpu. calls = force_calls (ls_openfan s \<noteq> None) (ls_hwmon s \<noteq> None) p b
      (reach_for_duty p (pp_members pp) (pp_held pp) (sp_latched sp)) @ gpu \<and> set gpu \<subseteq> {ApplyGpu b (pp_gpu_members pp)}"
    using forced_calls [OF 1] by blast
qed

text \<open>The phases of a tick.\<close>

lemma tick_phases:
  assumes "loop_tick env (s, w) = (calls, stop, s', w')"
  obtains sp s1 w1 snap s2 w2 pp s3 w3 cmds s4 w4 dn dn' w5 where
    "safety_phase env (adopt_controller env (s, w)) = (sp, s1, w1)" "overlay_phase env (s1, w1) = (snap, s2, w2)"
    "profile_phase env snap (sp_sensors sp) (s2, w2) = (pp, s3, w3)" "watch_phase env sp pp (s3, w3) = (cmds, s4, w4)"
    "dn = \<lparr>tc_skipped = skipped_snapshot (ls_engine s4), tc_outputs = [], tc_writes_outstanding = backends_stalled env (s1, w1),
       tc_pump_stalls = stall_snapshot (ls_pump_watch s4), tc_advisories = advisory_snapshot (ls_advisory s4)\<rparr>"
    "write_phase env sp pp cmds dn (s4, w4) = (calls, stop, dn', s', w5)" "w' = publish (le_others env) dn' w5"
proof -
  obtain sp s1 w1 where 1: "safety_phase env (adopt_controller env (s, w)) = (sp, s1, w1)" by (metis prod.exhaust)
  obtain snap s2 w2 where 2: "overlay_phase env (s1, w1) = (snap, s2, w2)" by (metis prod.exhaust)
  obtain pp s3 w3 where 3: "profile_phase env snap (sp_sensors sp) (s2, w2) = (pp, s3, w3)" by (metis prod.exhaust)
  obtain cmds s4 w4 where 4: "watch_phase env sp pp (s3, w3) = (cmds, s4, w4)" by (metis prod.exhaust)
  let ?dn = "\<lparr>tc_skipped = skipped_snapshot (ls_engine s4), tc_outputs = [], tc_writes_outstanding = backends_stalled env (s1, w1),
       tc_pump_stalls = stall_snapshot (ls_pump_watch s4), tc_advisories = advisory_snapshot (ls_advisory s4)\<rparr>"
  obtain c5 st5 d5 s5 w5 where 5: "write_phase env sp pp cmds ?dn (s4, w4) = (c5, st5, d5, s5, w5)" by (metis prod.exhaust)
  have "c5 = calls" "st5 = stop" "s5 = s'" "w' = publish (le_others env) d5 w5"
    using assms 1 2 3 4 5 by (simp_all add: loop_tick_def Let_def tick_completion_new_def)
  then show thesis using that [OF 1 2 3 4 refl] 5 by simp
qed

text \<open>A property of the world that the rest of the daemon keeps and the engine's own steps keep holds
  throughout a tick.\<close>

definition own_steps :: "('x LoopWorld \<Rightarrow> bool) \<Rightarrow> bool" where
  "own_steps P =
     (\<forall>w. P w \<longrightarrow> (\<forall>now. P (w\<lparr>lw_overrides := snd (sweep now (lw_overrides w))\<rparr>)) \<and> (\<forall>v. P (w\<lparr>lw_view := v\<rparr>)) \<and>
        (\<forall>r. P (w\<lparr>lw_safety := r\<rparr>)) \<and> (\<forall>rep. P (record_engine_safety rep w)))"

lemma own_stepsD:
  assumes "own_steps P" "P w"
  shows own_sweep: "P (w\<lparr>lw_overrides := snd (sweep now (lw_overrides w))\<rparr>)" and own_view: "P (w\<lparr>lw_view := v\<rparr>)"
    and own_rule: "P (w\<lparr>lw_safety := r\<rparr>)" and own_report: "P (record_engine_safety rep w)"
  using assms by (simp_all add: own_steps_def)

lemma safety_keeps:
  assumes "env_keeps P env" "own_steps P" "P w" "safety_phase env (adopt_controller env (s, w)) = (sp, s', w')"
  shows "P w'" "\<exists>p. sp_sensors sp = hm_retain p (lw_sensors (le_others env (le_others env (le_others env w))))"
    "ls_engine s' = ls_engine s" "ls_last_epoch s' = ls_last_epoch s"
proof -
  note o = keeps_others [OF assms(1)]
  have 5: "P (le_others env (le_others env (le_others env (le_others env (le_others env w)))))" by (intro o assms(3))
  note own = own_rule [OF assms(2)] own_report [OF assms(2)]
  show "P w'" using assms(4) own o 5 by (auto simp: adopt_controller_def safety_phase_def Let_def split: prod.splits if_splits)
  show "\<exists>p. sp_sensors sp = hm_retain p (lw_sensors (le_others env (le_others env (le_others env w))))"
    using assms(4) by (auto simp: adopt_controller_def safety_phase_def Let_def split: prod.splits if_splits)
  show "ls_engine s' = ls_engine s" "ls_last_epoch s' = ls_last_epoch s"
    using assms(4) by (auto simp: adopt_controller_def safety_phase_def Let_def split: prod.splits if_splits)
qed

lemma tick_keeps:
  assumes "env_keeps P env" "own_steps P" "P w" "loop_tick env (s, w) = (calls, stop, s', w')"
  shows "P w'"
proof -
  obtain sp s1 w1 snap s2 w2 pp s3 w3 cmds s4 w4 dn dn' w5 where
    1: "safety_phase env (adopt_controller env (s, w)) = (sp, s1, w1)" and 2: "overlay_phase env (s1, w1) = (snap, s2, w2)"
    and 3: "profile_phase env snap (sp_sensors sp) (s2, w2) = (pp, s3, w3)" and 4: "watch_phase env sp pp (s3, w3) = (cmds, s4, w4)"
    and 5: "write_phase env sp pp cmds dn (s4, w4) = (calls, stop, dn', s', w5)" and 6: "w' = publish (le_others env) dn' w5"
    using tick_phases [OF assms(4)] by metis
  note own = own_sweep [OF assms(2)] own_view [OF assms(2)]
  have "P w2" by (rule overlay_keeps(1) [OF assms(1) own(1) safety_keeps(1) [OF assms(1-3) 1] 2])
  then have "P w4" by (rule watch_keeps(1) [OF assms(1) profile_keeps(1) [OF assms(1) _ 3] 4])
  then have "P w5" using write_keeps [OF assms(1) _ 5] by blast
  then show ?thesis unfolding 6 using keeps_others [OF assms(1)] own(2) by (blast intro: publish_keeps [of P])
qed

lemma tick_leg:
  assumes "keeps_rule env" "loop_tick env (s, w) = (calls, stop, s', w')"
  shows "loop_safety (s', w') = snd (safety_leg (tick_input env w) (loop_safety (s, w)))"
    and "ls_hwmon s' = None \<longleftrightarrow> ls_hwmon s = None" "ls_openfan s \<noteq> None \<Longrightarrow> ls_openfan s' \<noteq> None"
    and "safety_inv (loop_safety (s, w)) \<Longrightarrow>
      rule_active (cpu_rule (loop_safety (s', w'))) \<or> rule_active (coolant_rule (loop_safety (s', w'))) \<Longrightarrow>
      \<not> stop \<and> (\<exists>o' h b gpu gm. calls = force_calls o' h 100 b ReachAll @ gpu \<and> set gpu \<subseteq> {ApplyGpu b gm} \<and>
        (ls_openfan s \<noteq> None \<longrightarrow> o') \<and> (h \<longleftrightarrow> ls_hwmon s \<noteq> None))"
proof -
  obtain sp s1 w1 snap s2 w2 pp s3 w3 cmds s4 w4 dn dn' w5 where
    1: "safety_phase env (adopt_controller env (s, w)) = (sp, s1, w1)" and 2: "overlay_phase env (s1, w1) = (snap, s2, w2)"
    and 3: "profile_phase env snap (sp_sensors sp) (s2, w2) = (pp, s3, w3)" and 4: "watch_phase env sp pp (s3, w3) = (cmds, s4, w4)"
    and 5: "write_phase env sp pp cmds dn (s4, w4) = (calls, stop, dn', s', w5)" and 6: "w' = publish (le_others env) dn' w5"
    using tick_phases [OF assms(2)] by metis
  let ?P = "\<lambda>v. lw_safety v = lw_safety w1"
  note k = rule_kept(1) [OF assms(1), of "lw_safety w1"]
  note leg = safety_phase_leg [OF assms(1) 1]
  have 22: "?P w2" "same_leg s1 s2" using overlay_keeps [OF k _ _ 2] by simp_all
  have 33: "?P w3" "same_leg s2 s3" using profile_keeps [OF k 22(1) 3] .
  have 44: "?P w4" "same_leg s3 s4" using watch_keeps [OF k 33(1) 4] .
  have 55: "?P w5" "same_leg s4 s'" using write_keeps [OF k 44(1) 5] by simp_all
  have 66: "?P w'" unfolding 6 using publish_keeps [of ?P, OF _ _ 55(1)] rule_kept(2) [OF assms(1)] by simp
  have s14: "same_leg s1 s4" by (rule same_leg_trans [OF same_leg_trans [OF 22(2) 33(2)] 44(2)])
  have s1': "same_leg s1 s'" by (rule same_leg_trans [OF s14 55(2)])
  have fin: "loop_safety (s', w') = loop_safety (s1, w1)" using 66 s1' by (simp add: loop_safety_def same_leg_def)
  show "loop_safety (s', w') = snd (safety_leg (tick_input env w) (loop_safety (s, w)))" using fin leg(2) by simp
  show "ls_hwmon s' = None \<longleftrightarrow> ls_hwmon s = None" "ls_openfan s \<noteq> None \<Longrightarrow> ls_openfan s' \<noteq> None"
    using leg(4,5) s1' by (simp_all add: same_leg_def)
  show "\<not> stop \<and> (\<exists>o' h b gpu gm. calls = force_calls o' h 100 b ReachAll @ gpu \<and> set gpu \<subseteq> {ApplyGpu b gm} \<and>
        (ls_openfan s \<noteq> None \<longrightarrow> o') \<and> (h \<longleftrightarrow> ls_hwmon s \<noteq> None))"
    if inv: "safety_inv (loop_safety (s, w))"
      and a: "rule_active (cpu_rule (loop_safety (s', w'))) \<or> rule_active (coolant_rule (loop_safety (s', w')))"
  proof -
    have "safety_leg (tick_input env w) (loop_safety (s, w)) = (sp_tick sp, loop_safety (s', w'))"
      using leg(1,2) fin by (simp add: prod_eq_iff)
    from safety_leg_decision(1) [OF inv this] a have f: "forced_pct (ts_decision (sp_tick sp)) = Some 100" by simp
    have r: "reach_for_duty 100 (pp_members pp) (pp_held pp) (sp_latched sp) = ReachAll" by (simp add: reach_for_duty_def)
    obtain b gpu where c: "calls = force_calls (ls_openfan s4 \<noteq> None) (ls_hwmon s4 \<noteq> None) 100 b ReachAll @ gpu"
      "set gpu \<subseteq> {ApplyGpu b (pp_gpu_members pp)}" using write_forced(2) [OF 5 f] r by auto
    have pres: "ls_openfan s \<noteq> None \<longrightarrow> ls_openfan s4 \<noteq> None" "ls_hwmon s4 \<noteq> None \<longleftrightarrow> ls_hwmon s \<noteq> None"
      using s14 leg(4,5) by (auto simp: same_leg_def)
    show ?thesis using write_forced(1) [OF 5 f] c pres by blast
  qed
qed

section \<open>Runs of the loop\<close>

fun loop_inputs :: "('o, 'h, 'g, 'x) LoopEnv \<Rightarrow> Wake list \<Rightarrow> ('o, 'h, 'g) LoopState \<times> 'x LoopWorld \<Rightarrow> SafetyInput list" where
  "loop_inputs env [] (s, w) = []"
| "loop_inputs env (wake # wakes) (s, w) =
     (let w = le_others env w in
      if wake_stops env wake w then []
      else case loop_tick env (s, w) of (calls, stop, s', w') \<Rightarrow>
        tick_input env w # (if stop then [] else loop_inputs env wakes (s', w')))"

definition forced_tick_calls :: "bool \<Rightarrow> bool \<Rightarrow> BackendCall list \<Rightarrow> bool" where
  "forced_tick_calls openfan hwmon calls =
     (\<exists>o' b gpu gm. calls = force_calls o' hwmon 100 b ReachAll @ gpu \<and> set gpu \<subseteq> {ApplyGpu b gm} \<and> (openfan \<longrightarrow> o'))"

lemma forced_tick_calls_mono: "forced_tick_calls a h c \<Longrightarrow> (b \<Longrightarrow> a) \<Longrightarrow> forced_tick_calls b h c"
  unfolding forced_tick_calls_def by (elim exE conjE) (intro exI conjI impI, auto)

lemma loop_leg:
  assumes "keeps_rule env" "safety_inv (loop_safety (s, w))" "engine_loop env wakes (s, w) = (css, ended, st)"
  shows "length css = length (loop_inputs env wakes (s, w)) \<and>
    (\<forall>i < length css. let ss = safety_run (take (Suc i) (loop_inputs env wakes (s, w))) (loop_safety (s, w)) in
      rule_active (cpu_rule ss) \<or> rule_active (coolant_rule ss) \<longrightarrow>
      forced_tick_calls (ls_openfan s \<noteq> None) (ls_hwmon s \<noteq> None) (css ! i))"
  using assms(2,3)
proof (induction wakes arbitrary: s w css)
  case (Cons wake wakes)
  let ?w = "le_others env w"
  have eq: "loop_safety (s, ?w) = loop_safety (s, w)" using rule_kept(2) [OF assms(1)] by (simp add: loop_safety_def)
  show ?case
  proof (cases "wake_stops env wake ?w")
    case False
    obtain calls stop s1 w1 where t: "loop_tick env (s, ?w) = (calls, stop, s1, w1)" by (metis prod.exhaust)
    note leg = tick_leg [OF assms(1) t, unfolded eq]
    have inv: "safety_inv (loop_safety (s1, w1))" using leg(1) Cons.prems(1) by (simp add: safety_leg_inv)
    obtain css1 ended1 st1 where r: "engine_loop env wakes (s1, w1) = (css1, ended1, st1)" by (metis prod.exhaust)
    have stopped: "stop \<Longrightarrow> css = [calls]" and going: "\<not> stop \<Longrightarrow> css = calls # css1"
      using Cons.prems(2) False t r by (auto simp: Let_def split: if_splits)
    let ?ins = "if stop then [] else loop_inputs env wakes (s1, w1)"
    have ins: "loop_inputs env (wake # wakes) (s, w) = tick_input env ?w # ?ins" using False t by (simp add: Let_def)
    have first: "rule_active (cpu_rule (loop_safety (s1, w1))) \<or> rule_active (coolant_rule (loop_safety (s1, w1))) \<Longrightarrow>
        forced_tick_calls (ls_openfan s \<noteq> None) (ls_hwmon s \<noteq> None) calls"
      using leg(4) [OF Cons.prems(1)] unfolding forced_tick_calls_def by blast
    show ?thesis
    proof (cases stop)
      case True
      then show ?thesis using first stopped leg(1) by (simp add: ins Let_def del: loop_inputs.simps)
    next
      case go: False
      have ih: "length css1 = length (loop_inputs env wakes (s1, w1)) \<and>
        (\<forall>i < length css1. let ss = safety_run (take (Suc i) (loop_inputs env wakes (s1, w1))) (loop_safety (s1, w1)) in
          rule_active (cpu_rule ss) \<or> rule_active (coolant_rule ss) \<longrightarrow>
          forced_tick_calls (ls_openfan s1 \<noteq> None) (ls_hwmon s1 \<noteq> None) (css1 ! i))"
        by (rule Cons.IH [OF inv]) (use r Cons.prems(2) False t go in \<open>simp add: Let_def\<close>)
      have hw: "(ls_hwmon s1 \<noteq> None) = (ls_hwmon s \<noteq> None)" using leg(2) by simp
      have weaken: "forced_tick_calls (ls_openfan s1 \<noteq> None) (ls_hwmon s1 \<noteq> None) c \<Longrightarrow>
          forced_tick_calls (ls_openfan s \<noteq> None) (ls_hwmon s \<noteq> None) c" for c
        unfolding hw by (erule forced_tick_calls_mono) (rule leg(3))
      show ?thesis
        using ih first weaken going [OF go] leg(1) go by (auto simp: ins Let_def nth_Cons simp del: loop_inputs.simps split: nat.split)
    qed
  qed (use Cons.prems in \<open>simp add: Let_def\<close>)
qed auto


text \<open>A machine with both controllers, nothing else running and a CPU at 106 degrees.\<close>

definition idle_ops :: "(unit, unit, unit, unit) BackendOps" where
  "idle_ops = \<lparr>bo_openfan_new = (), bo_openfan_force = (\<lambda>_ _ _ st. (True, st)), bo_hwmon_force = (\<lambda>_ _ _ st. (True, st)),
     bo_openfan_apply = (\<lambda>_ _ _ st. st), bo_hwmon_apply = (\<lambda>_ _ st. st), bo_gpu_apply = (\<lambda>_ _ st. st),
     bo_openfan_stalled = (\<lambda>_ _. False), bo_hwmon_stalled = (\<lambda>_ _. False), bo_gpu_stalled = (\<lambda>_ _. False),
     bo_hwmon_facts = (\<lambda>st. ([], st)), bo_hwmon_targets = (\<lambda>_. HwmonAbsent), bo_gpu_targets = (\<lambda>_. {}),
     bo_openfan_drain = (\<lambda>_ st. st), bo_hwmon_drain = (\<lambda>_ st. st), bo_gpu_drain = (\<lambda>_ st. st)\<rparr>"

definition idle_env :: "(unit, unit, unit, unit) LoopEnv" where
  "idle_env = \<lparr>le_ops = idle_ops, le_others = id\<rparr>"

definition hot_world :: "unit LoopWorld" where
  "hot_world = \<lparr>lw_now = 0, lw_state = daemon_state_default,
     lw_sensors = [(''cpu'', \<lparr>s_kind = CpuTemp, s_value_c = Fin 106, s_updated_at = 0, s_chip_name = ''k10temp'', s_crit_c = None\<rparr>)],
     lw_hwmon_fans = [], lw_unavailable = [], lw_poll_interval_ms = 1000, lw_coolant_limit = 60, lw_epoch = 0, lw_profile = None,
     lw_openfan = True, lw_safety = rule_new, lw_overrides = table_new, lw_roles = [], lw_shutdown = False,
     lw_view = \<lparr>ev_report = None, ev_stamps = \<lparr>et_started = None, et_completed = None, et_writes_stalled_since = None\<rparr>,
       ev_skipped_controls = [], ev_control_outputs = [], ev_pump_stalls = [], ev_cooling_advisories = [], ev_keepalives = 0\<rparr>,
     lw_io = ()\<rparr>"

lemma idle_keeps: "env_keeps P idle_env"
  by (simp add: env_keeps_def idle_env_def idle_ops_def Let_def)

lemma idle_id [simp]: "le_others idle_env w = w"
  by (simp add: idle_env_def)

lemma idle_env_keeps: "keeps_rule idle_env"
  by (simp add: keeps_rule_def idle_keeps)

lemma hot_tick_input:
  assumes "lw_sensors w = lw_sensors hot_world" "lw_now w = 0" "lw_poll_interval_ms w = 1000"
  shows "cpu_hot (tick_input idle_env w)" "\<not> cpu_cool (tick_input idle_env w)"
  using assms
  by (simp_all add: tick_input_def cpu_hot_def cpu_cool_def hot_world_def cpu_in_def hottest_cpu_reading_def
      hottest_reading_where_def is_fresh_def hotter_def effective_trigger_c_def List.map_filter_def thermal_consts)


end
