(* ===== verification/Loop_Floor.thy ===== *)
theory Loop_Floor
  imports Loop_Safety
begin

text \<open>
  What the loop hands to the backends and publishes: every command of a run keeps the floor of its fan
  across profile activations, a diagnostic or a shutdown leaves only the forced writes, and every tick
  publishes what it decided.
\<close>

section \<open>The commands of a tick\<close>

fun call_commands :: "BackendCall \<Rightarrow> PwmCommand list" where
  "call_commands (ForceOpenFan p b r) = b"
| "call_commands (ForceHwmon p b r) = b"
| "call_commands (ApplyOpenFan c m held) = c"
| "call_commands (ApplyHwmon c m) = c"
| "call_commands (ApplyGpu c gm) = c"

definition calls_of :: "PwmCommand list \<Rightarrow> BackendCall list \<Rightarrow> bool" where
  "calls_of cs calls = (\<forall>call \<in> set calls. set (call_commands call) \<subseteq> set cs)"

lemma calls_of_snoc [simp]: "calls_of cs (calls @ [x]) \<longleftrightarrow> calls_of cs calls \<and> set (call_commands x) \<subseteq> set cs"
  by (auto simp: calls_of_def)

lemma call_calls_of:
  assumes "calls_of cs calls" "set c \<subseteq> set cs"
  shows "call_gpu env c gm (calls, s, w) = (calls', s', w') \<Longrightarrow>
      calls_of cs calls' \<and> ls_engine s' = ls_engine s \<and> ls_last_epoch s' = ls_last_epoch s"
    and "call_openfan env c m held (calls, s, w) = (calls', s', w') \<Longrightarrow>
      calls_of cs calls' \<and> ls_engine s' = ls_engine s \<and> ls_last_epoch s' = ls_last_epoch s"
    and "call_hwmon env c m (calls, s, w) = (calls', s', w') \<Longrightarrow>
      calls_of cs calls' \<and> ls_engine s' = ls_engine s \<and> ls_last_epoch s' = ls_last_epoch s"
  using assms by (auto simp: call_gpu_def call_openfan_def call_hwmon_def split: prod.splits option.splits)

lemma calls_of_Nil [simp]: "calls_of cs []"
  by (simp add: calls_of_def)

lemma no_profile_calls:
  assumes "no_profile_phase env pp (s, w) = (calls, s', w')"
  shows "calls_of [] calls \<and> ls_engine s' = ls_engine s \<and> ls_last_epoch s' = ls_last_epoch s"
proof -
  obtain ok w1 where m: "may_write env w = (ok, w1)" by (rule prod.exhaust)
  obtain c2 s2 w2 where 2: "call_openfan env [] (pp_members pp) (pp_held pp) ([], s, w1) = (c2, s2, w2)" by (metis prod.exhaust)
  obtain c3 s3 w3 where 3: "call_hwmon env [] (pp_members pp) (c2, s2, w2) = (c3, s3, w3)" by (metis prod.exhaust)
  obtain c4 s4 w4 where 4: "call_gpu env [] (pp_gpu_members pp) (c3, s3, w3) = (c4, s4, w4)" by (metis prod.exhaust)
  note k2 = call_calls_of(2) [OF calls_of_Nil _ 2, of "[]", simplified]
  note k3 = call_calls_of(3) [OF conjunct1 [OF k2] _ 3, simplified]
  note k4 = call_calls_of(1) [OF conjunct1 [OF k3] _ 4, simplified]
  show ?thesis using assms m 2 3 4 k2 k3 k4 by (auto simp: no_profile_phase_def split: if_splits)
qed

lemma apply_calls:
  assumes "apply_phase env pp c (s, w) = (calls, s', w')"
  shows "calls_of c calls \<and> ls_engine s' = ls_engine s \<and> ls_last_epoch s' = ls_last_epoch s"
proof -
  obtain c2 s2 w2 where 2: "call_openfan env c (pp_members pp) (pp_held pp) ([], s, w) = (c2, s2, w2)" by (metis prod.exhaust)
  obtain c3 s3 w3 where 3: "call_gpu env c (pp_gpu_members pp) (c2, s2, w2) = (c3, s3, w3)" by (metis prod.exhaust)
  obtain c4 s4 w4 where 4: "call_hwmon env c (pp_members pp) (c3, s3, w3) = (c4, s4, w4)" by (metis prod.exhaust)
  note k2 = call_calls_of(2) [OF calls_of_Nil subset_refl 2]
  note k3 = call_calls_of(1) [OF conjunct1 [OF k2] subset_refl 3]
  note k4 = call_calls_of(3) [OF conjunct1 [OF k3] subset_refl 4]
  show ?thesis using assms 2 3 4 k2 k3 k4 by (auto simp: apply_phase_def split: if_splits)
qed

lemma forced_phase_calls:
  assumes "forced_phase env sp pp cmds p (s, w) = (calls, s', w')"
  shows "calls_of (case cmds of Some c \<Rightarrow> c | None \<Rightarrow> []) calls" "ls_engine s' = reset_for_forced_tick (ls_engine s)"
    "ls_last_epoch s' = ls_last_epoch s"
  using assms
  by (auto simp: forced_phase_def forced_gpu_def Let_def call_gpu_def calls_of_def split: prod.splits if_splits)

lemma write_calls:
  assumes "write_phase env sp pp cmds dn (s, w) = (calls, stop, dn', s', w')"
  shows "calls_of (case cmds of Some c \<Rightarrow> c | None \<Rightarrow> []) calls"
    and "ls_engine s' = ls_engine s \<or> ls_engine s' = reset_for_forced_tick (ls_engine s)"
    and "ls_last_epoch s' = ls_last_epoch s"
proof -
  let ?s = "s\<lparr>ls_force_log := snd (on_normal_tick (ls_force_log s))\<rparr>"
  obtain c1 s1 w1 where 1: "forced_phase env sp pp cmds (the (forced_pct (ts_decision (sp_tick sp)))) (s, le_others env w) = (c1, s1, w1)"
    by (metis prod.exhaust)
  obtain c2 s2 w2 where 2: "no_profile_phase env pp (?s, w) = (c2, s2, w2)" by (metis prod.exhaust)
  obtain c3 s3 w3 where 3: "apply_phase env pp (the cmds) (?s, le_others env (le_others env w)) = (c3, s3, w3)" by (metis prod.exhaust)
  note all = assms 1 2 3 forced_phase_calls [OF 1] no_profile_calls [OF 2] apply_calls [OF 3]
  show "calls_of (case cmds of Some c \<Rightarrow> c | None \<Rightarrow> []) calls"
    using all by (auto simp: write_phase_def Let_def split: option.splits if_splits)
  show "ls_engine s' = ls_engine s \<or> ls_engine s' = reset_for_forced_tick (ls_engine s)"
    using all by (auto simp: write_phase_def Let_def split: option.splits if_splits)
  show "ls_last_epoch s' = ls_last_epoch s"
    using all by (auto simp: write_phase_def Let_def split: option.splits if_splits)
qed

section \<open>The floor of every command\<close>

text \<open>A profile is replaced by another only together with the activation epoch.\<close>

definition activation_bumps :: "'x LoopWorld \<Rightarrow> 'x LoopWorld \<Rightarrow> bool" where
  "activation_bumps w0 w = (lw_epoch w0 \<le> lw_epoch w \<and>
     (lw_epoch w = lw_epoch w0 \<longrightarrow> lw_profile w = None \<or> lw_profile w = lw_profile w0))"

text \<open>The profiles are from a set, the readings are temperatures, only fans of \<open>held\<close> are identified.\<close>

definition world_sane :: "DaemonProfile set \<Rightarrow> string set \<Rightarrow> 'x LoopWorld \<Rightarrow> bool" where
  "world_sane ps held w = ((case lw_profile w of Some p \<Rightarrow> p \<in> ps | None \<Rightarrow> True) \<and> sensors_sane (lw_sensors w) \<and>
     fst ` set (ot_identify (lw_overrides w)) \<subseteq> held)"

definition well_behaved :: "DaemonProfile set \<Rightarrow> string set \<Rightarrow> ('o, 'h, 'g, 'x) LoopEnv \<Rightarrow> bool" where
  "well_behaved ps held env = (\<forall>w0. env_keeps (\<lambda>w. activation_bumps w0 w \<and> world_sane ps held w) env)"

definition named_hard :: "DaemonProfile set \<Rightarrow> PwmCommand \<Rightarrow> bool" where
  "named_hard ps cmd = (\<forall>p \<in> ps. \<forall>c \<in> set (p_controls p). \<forall>m \<in> set (lc_members c).
     cm_member_id m = cmd_member_id cmd \<and> cm_source m = cmd_source cmd \<longrightarrow> member_needs_hard_floor m)"

definition floor_kept :: "DaemonProfile set \<Rightarrow> string set \<Rightarrow> PwmCommand \<Rightarrow> bool" where
  "floor_kept ps held cmd = (cmd_member_id cmd \<in> held \<or>
     (cmd_pwm_percent cmd \<le> 100 \<and> (named_hard ps cmd \<longrightarrow> 30 \<le> cmd_pwm_percent cmd)))"

lemma sane_own_steps: "own_steps (\<lambda>w. activation_bumps w0 w \<and> world_sane ps held w)"
  by (auto simp: own_steps_def activation_bumps_def world_sane_def record_engine_safety_def sweep_def Let_def hm_retain_def)

lemma bumps_refl [simp]: "activation_bumps w w"
  by (simp add: activation_bumps_def)

text \<open>The engine's invariant, for the profile it will evaluate next unless an activation re-anchors it.\<close>

definition engine_ready :: "DaemonProfile set \<Rightarrow> ('o, 'h, 'g) LoopState \<times> 'x LoopWorld \<Rightarrow> bool" where
  "engine_ready ps = (\<lambda>(s, w). ls_last_epoch s \<le> lw_epoch w \<and>
     (ls_last_epoch s = lw_epoch w \<longrightarrow> (\<forall>p \<in> ps. lw_profile w = Some p \<longrightarrow> engine_inv (\<lambda>_. 30) p (ls_engine s))))"

lemma engine_ready_later:
  assumes "engine_ready ps (s, w)" "activation_bumps w w'" "ls_last_epoch s' = ls_last_epoch s"
    and "\<And>p. p \<in> ps \<Longrightarrow> engine_inv (\<lambda>_. 30) p (ls_engine s) \<Longrightarrow> engine_inv (\<lambda>_. 30) p (ls_engine s')"
  shows "engine_ready ps (s', w')"
  using assms by (auto simp: engine_ready_def activation_bumps_def)

lemma deactivate_inv: "engine_inv F p (deactivate st)"
  by (simp add: engine_inv_def deactivate_def deactivate_tuning_only_def)

lemma retain_sane: "sensors_sane ss \<Longrightarrow> sensors_sane (hm_retain p ss)"
  by (auto simp: sensors_sane_def hm_retain_def list_all_iff)

lemma snapshot_held: "cmd_member_id cmd \<notin> held \<Longrightarrow> fst ` set (ot_identify t) \<subseteq> held \<Longrightarrow>
    pin_identified (Control_Override.snapshot now t) cmd = cmd"
  by (fastforce simp: pin_identified_def Control_Override.snapshot_def map_of_hm_collect split: option.split dest!: map_of_SomeD)

lemma pin_member [simp]: "cmd_member_id (pin_identified ov cmd) = cmd_member_id cmd"
  by (simp add: pin_identified_def split: option.split)

lemma cmd_ok_floor:
  assumes "cmd_ok (\<lambda>_. 30) p roles facts cmd" "p \<in> ps"
  shows "floor_kept ps held cmd"
  using assms by (fastforce simp: cmd_ok_def floor_kept_def named_hard_def list_all_iff floor_is_hard_def)

lemma raise_header_floor: "list_all (floor_kept ps held) cmds \<Longrightarrow> list_all (floor_kept ps held) (raise_header i cmds)"
  by (auto simp: raise_header_def raise_command_def list_all_iff floor_kept_def named_hard_def PUMP_STALL_RESPONSE_PCT_def)

lemma response_floor: "list_all (floor_kept ps held) cmds \<Longrightarrow> list_all (floor_kept ps held) (apply_stall_response raised cmds)"
  unfolding apply_stall_response_def by (induction raised arbitrary: cmds) (simp_all add: raise_header_floor)

lemma set_inv [simp]:
  "engine_inv F p (set_assigned_roles roles st) = engine_inv F p st"
  "engine_inv F p (set_header_facts facts st) = engine_inv F p st"
  by (simp_all add: engine_inv_def set_assigned_roles_def set_header_facts_def)

lemma reset_fold_inv:
  assumes "profile_ok p" "keys_separate p" "engine_inv F p st"
  shows "engine_inv F p (fold reset_control ids st)"
  using assms(3)
proof (induction ids arbitrary: st)
  case (Cons i ids)
  then show ?case using engine_step_ok [OF assms(1,2), of F "EvResetControl i" st] by (simp add: op_ok_def)
qed simp

lemma overlay_ready:
  assumes "overlay_phase env (s, w) = (snap, s', w')"
  shows "ls_last_epoch s' = ls_last_epoch s"
    and "\<exists>now. snap = Control_Override.snapshot now (snd (sweep now (lw_overrides (le_others env w))))"
    and "profile_ok p \<Longrightarrow> keys_separate p \<Longrightarrow> engine_inv F p (ls_engine s) \<Longrightarrow> engine_inv F p (ls_engine s')"
proof -
  obtain cleared table where t: "sweep (lw_now (le_others env w)) (lw_overrides (le_others env w)) = (cleared, table)" by (rule prod.exhaust)
  show "ls_last_epoch s' = ls_last_epoch s" using assms t by (auto simp: overlay_phase_def Let_def split: option.splits prod.splits)
  have "snap = Control_Override.snapshot (lw_now (le_others env w)) table"
    using assms t by (auto simp: overlay_phase_def Let_def split: option.splits prod.splits)
  then show "\<exists>now. snap = Control_Override.snapshot now (snd (sweep now (lw_overrides (le_others env w))))" using t by (metis snd_conv)
  assume "profile_ok p" "keys_separate p" "engine_inv F p (ls_engine s)"
  then show "engine_inv F p (ls_engine s')"
    using assms t reset_fold_inv by (auto simp: overlay_phase_def Let_def split: option.splits prod.splits)
qed

lemma profile_ready:
  assumes "\<And>p. p \<in> ps \<Longrightarrow> profile_ok p \<and> keys_separate p" "engine_ready ps (s, w)" "sensors_sane sensors"
    and "activation_bumps w (le_others env w)" "world_sane ps held (le_others env w)"
    and "activation_bumps (le_others env w) (le_others env (le_others env w))"
    and "\<And>cmd. cmd_member_id cmd \<notin> held \<Longrightarrow> pin_identified snap cmd = cmd"
    and "profile_phase env snap sensors (s, w) = (pp, s', w')"
  shows "engine_ready ps (s', w')" "pp_commands pp = Some cmds \<Longrightarrow> list_all (floor_kept ps held) cmds"
proof -
  let ?w1 = "le_others env w"
  have r1: "engine_ready ps (s, ?w1)" by (rule engine_ready_later [OF assms(2,4)]) simp_all
  define e1 where "e1 = (if lw_epoch ?w1 \<noteq> ls_last_epoch s then deactivate (ls_engine s) else ls_engine s)"
  have "engine_ready ps (s', w') \<and> (pp_commands pp = Some cmds \<longrightarrow> list_all (floor_kept ps held) cmds)"
  proof (cases "lw_profile ?w1")
    case None
    then show ?thesis using assms(8) deactivate_inv by (auto simp: profile_phase_def Let_def engine_ready_def)
  next
    case (Some p)
    have p: "p \<in> ps" "profile_ok p" "keys_separate p" using assms(1) [of p] assms(5) Some by (auto simp: world_sane_def)
    have e1: "engine_inv (\<lambda>_. 30) p e1" using r1 Some p(1) deactivate_inv by (auto simp: e1_def engine_ready_def)
    let ?w2 = "le_others env ?w1"
    let ?t = "\<lparr>tk_sensors = sensors, tk_overrides = snap, tk_roles = es_assigned_roles e1, tk_facts = es_header_facts e1,
        tk_quarantined = lw_unavailable ?w2\<rparr>"
    obtain cs eng where ev: "engine_tick p ?t e1 = (cs, eng)" by (rule prod.exhaust)
    then have ev': "evaluate_profile_with_overrides p sensors snap (e1\<lparr>quarantined_sensor_ids := lw_unavailable ?w2\<rparr>) = (cs, eng)"
      by (simp add: engine_tick_def set_header_facts_def set_assigned_roles_def)
    note ok = engine_tick_ok [OF p(2,3) floors_meet_30 [OF p(2)] _ e1 ev]
    have c: "list_all (floor_kept ps held) cs"
      unfolding list_all_iff
    proof
      fix cmd assume "cmd \<in> set cs"
      then obtain cmd0 where 0: "cmd = pin_identified snap cmd0" "cmd_ok (\<lambda>_. 30) p (es_assigned_roles e1) (es_header_facts e1) cmd0"
        using ok(2) assms(3) by auto
      show "floor_kept ps held cmd"
        using 0 cmd_ok_floor [OF 0(2) p(1), of held] assms(7) [of cmd0] by (cases "cmd_member_id cmd0 \<in> held") (auto simp: floor_kept_def)
    qed
    let ?e2 = "snd (note_backend_unavailable p snap (loop_targets env s) eng)"
    have e2: "engine_inv (\<lambda>_. 30) p ?e2"
      using engine_step_ok [OF p(2,3), of "\<lambda>_. 30" "EvBackends snap (loop_targets env s)" eng] ok(1) assms(3) by (simp add: op_ok_def)
    have res: "w' = ?w2" "pp_commands pp = Some cs" "ls_engine s' = ?e2" "ls_last_epoch s' = lw_epoch ?w1"
      using assms(8) Some ev' by (auto simp: profile_phase_def Let_def e1_def loop_targets_def split: if_splits)
    show ?thesis
      using c e2 res Some p(1) assms(6) by (auto simp: engine_ready_def activation_bumps_def)
  qed
  then show "engine_ready ps (s', w')" "pp_commands pp = Some cmds \<Longrightarrow> list_all (floor_kept ps held) cmds" by simp_all
qed

lemma watch_ready:
  assumes "watch_phase env sp pp (s, w) = (cmds, s', w')"
  shows "ls_last_epoch s' = ls_last_epoch s" "\<exists>now. ls_engine s' = snd (commit_skips now (ls_engine s))"
    and "\<exists>raised. cmds = map_option (apply_stall_response raised) (pp_commands pp)"
  using assms by (auto simp: watch_phase_def Let_def)

text \<open>One tick.\<close>

lemma tick_floor:
  assumes "\<And>p. p \<in> ps \<Longrightarrow> profile_ok p \<and> keys_separate p" "well_behaved ps held env"
    and "engine_ready ps (s, w)" "world_sane ps held w" "loop_tick env (s, w) = (calls, stop, s', w')"
  shows "engine_ready ps (s', w')" "world_sane ps held w'" "call \<in> set calls \<Longrightarrow> list_all (floor_kept ps held) (call_commands call)"
proof -
  obtain sp s1 w1 snap s2 w2 pp s3 w3 cmds s4 w4 dn dn' w5 where
    1: "safety_phase env (adopt_controller env (s, w)) = (sp, s1, w1)" and 2: "overlay_phase env (s1, w1) = (snap, s2, w2)"
    and 3: "profile_phase env snap (sp_sensors sp) (s2, w2) = (pp, s3, w3)" and 4: "watch_phase env sp pp (s3, w3) = (cmds, s4, w4)"
    and 5: "write_phase env sp pp cmds dn (s4, w4) = (calls, stop, dn', s', w5)" and 6: "w' = publish (le_others env) dn' w5"
    using tick_phases [OF assms(5)] by metis
  let ?P = "\<lambda>w0 v. activation_bumps w0 v \<and> world_sane ps held v"
  have k: "env_keeps (?P w0) env" for w0 using assms(2) by (simp add: well_behaved_def)
  note own = own_sweep [OF sane_own_steps]
  note o = keeps_others [OF k]
  have P0: "?P w w" using assms(4) by simp
  note safety = safety_keeps [OF k sane_own_steps P0 1]
  have r1: "engine_ready ps (s1, w1)" by (rule engine_ready_later [OF assms(3)]) (use safety in simp_all)
  have P1: "?P w1 w1" using safety(1) by simp
  note ov = overlay_keeps [OF k own P1 2]
  have r2: "engine_ready ps (s2, w2)"
    by (rule engine_ready_later [OF r1 conjunct1 [OF ov(1)]]) (use overlay_ready [OF 2] assms(1) in auto)
  have P2: "?P w2 w2" using ov(1) by simp
  obtain now' where snap: "snap = Control_Override.snapshot now' (snd (sweep now' (lw_overrides (le_others env w1))))"
    using overlay_ready(2) [OF 2] by blast
  have "fst ` set (ot_identify (snd (sweep now' (lw_overrides (le_others env w1))))) \<subseteq> held"
    using own [OF o [OF P1], of now'] by (simp add: world_sane_def)
  then have pin: "cmd_member_id cmd \<notin> held \<Longrightarrow> pin_identified snap cmd = cmd" for cmd
    unfolding snap by (rule snapshot_held [rotated])
  have "sensors_sane (lw_sensors (le_others env (le_others env (le_others env w))))"
    using o [OF o [OF o [OF P0]]] by (simp add: world_sane_def)
  then have sn: "sensors_sane (sp_sensors sp)" using safety(2) retain_sane by metis
  have P3: "?P w2 (le_others env w2)" using o [OF P2] .
  then have P3': "?P (le_others env w2) (le_others env w2)" by simp
  note pr = profile_ready [OF assms(1) r2 sn conjunct1 [OF P3] conjunct2 [OF P3] conjunct1 [OF o [OF P3']] pin 3]
  have Q3: "?P w3 w3" using profile_keeps(1) [OF k P2 3] by simp
  have P4: "?P w3 w4" by (rule watch_keeps(1) [OF k Q3 4])
  have r4: "engine_ready ps (s4, w4)"
  proof (rule engine_ready_later [OF pr(1) conjunct1 [OF P4] watch_ready(1) [OF 4]])
    fix p assume p: "p \<in> ps" "engine_inv (\<lambda>_. 30) p (ls_engine s3)"
    then show "engine_inv (\<lambda>_. 30) p (ls_engine s4)"
      using watch_ready(2) [OF 4] assms(1) [of p] engine_step_ok [of p "\<lambda>_. 30" "EvCommit now" "ls_engine s3" for now] by (auto simp: op_ok_def)
  qed
  have Q4: "?P w4 w4" using P4 by simp
  have P5: "?P w4 w5" using write_keeps [OF k Q4 5] by simp
  have P6: "?P w4 w'" unfolding 6 using o own_view [OF sane_own_steps] P5
    by (intro publish_keeps [of "?P w4"]) blast+
  show "world_sane ps held w'" using P6 by simp
  show "engine_ready ps (s', w')"
  proof (rule engine_ready_later [OF r4 conjunct1 [OF P6] write_calls(3) [OF 5]])
    fix p assume p: "p \<in> ps" "engine_inv (\<lambda>_. 30) p (ls_engine s4)"
    then show "engine_inv (\<lambda>_. 30) p (ls_engine s')"
      using write_calls(2) [OF 5] assms(1) [of p] engine_step_ok [of p "\<lambda>_. 30" EvForcedReset "ls_engine s4"] by (auto simp: op_ok_def)
  qed
  have "list_all (floor_kept ps held) (case cmds of Some c \<Rightarrow> c | None \<Rightarrow> [])"
    using watch_ready(3) [OF 4] pr(2) response_floor by (auto split: option.split)
  then show "call \<in> set calls \<Longrightarrow> list_all (floor_kept ps held) (call_commands call)"
    using write_calls(1) [OF 5] unfolding calls_of_def list_all_iff by blast
qed

lemma loop_floor:
  assumes "\<And>p. p \<in> ps \<Longrightarrow> profile_ok p \<and> keys_separate p" "well_behaved ps held env"
    and "engine_ready ps (s, w)" "world_sane ps held w" "engine_loop env wakes (s, w) = (css, ended, st)"
    and "calls \<in> set css" "call \<in> set calls"
  shows "list_all (floor_kept ps held) (call_commands call)"
  using assms(3-)
proof (induction wakes arbitrary: s w css ended st)
  case (Cons wake wakes)
  let ?w = "le_others env w"
  have "activation_bumps w ?w \<and> world_sane ps held ?w"
    using keeps_others [of "\<lambda>v. activation_bumps w v \<and> world_sane ps held v" env w] assms(2) Cons.prems(2) by (simp add: well_behaved_def)
  then have r: "engine_ready ps (s, ?w)" "world_sane ps held ?w" using engine_ready_later [OF Cons.prems(1)] by auto
  obtain cs stop s1 w1 where t: "loop_tick env (s, ?w) = (cs, stop, s1, w1)" by (metis prod.exhaust)
  note tf = tick_floor [OF assms(1,2) r t]
  obtain css1 ended1 st1 where run: "engine_loop env wakes (s1, w1) = (css1, ended1, st1)" by (metis prod.exhaust)
  have "calls = cs \<or> calls \<in> set css1" using Cons.prems(3,4) t run by (auto simp: Let_def split: if_splits prod.splits)
  then show ?case using tf Cons.IH [OF tf(1,2) run _ Cons.prems(5)] Cons.prems(5) by blast
qed simp

text \<open>C3: no command of a run is below its fan's floor. Let every profile that may be loaded be inside the
  numeric net and keep its tracker keys apart (no control id is the key of a member tracker), let a
  profile change only together with the activation count, and let the readings be sane. Then, over every
  run of the loop through every activation, override, diagnostic and stall, with backends that answer
  anything: every command the loop hands to a backend, as an ordinary write or as the baseline of a forced
  one, for a fan that is not being identified is a percentage, and at least 30 when every member it can
  stand for, in every profile that may be loaded, is a pump or CPU header by its own source, label or
  chip.\<close>

theorem every_command_keeps_its_floor:
  assumes "\<And>p. p \<in> ps \<Longrightarrow> profile_ok p \<and> keys_separate p" "well_behaved ps held env" "world_sane ps held w"
    and "engine_loop env wakes (loop_start fan hw gpu w, w) = (css, ended, st)"
    and "calls \<in> set css" "call \<in> set calls" "cmd \<in> set (call_commands call)" "cmd_member_id cmd \<notin> held"
  shows "cmd_pwm_percent cmd \<le> 100 \<and> (named_hard ps cmd \<longrightarrow> 30 \<le> cmd_pwm_percent cmd)"
proof -
  have "engine_ready ps (loop_start fan hw gpu w, w)"
    by (simp add: engine_ready_def loop_start_def engine_new_inv)
  from loop_floor [OF assms(1,2) this assms(3-6)] show ?thesis
    using assms(7,8) by (auto simp: list_all_iff floor_kept_def)
qed

section \<open>A diagnostic and a shutdown\<close>

fun forced_call :: "BackendCall \<Rightarrow> bool" where
  "forced_call (ForceOpenFan p b r) = True"
| "forced_call (ForceHwmon p b r) = True"
| "forced_call _ = False"

lemma quiet_own_steps: "own_steps paused" "own_steps lw_shutdown"
  by (simp_all add: own_steps_def paused_def verify_active_at_def record_engine_safety_def record_thermal_state_def)

lemma quiet_may_write:
  assumes "Q = paused \<or> Q = lw_shutdown" "env_keeps Q env" "Q w" "may_write env w = (ok, w')"
  shows "\<not> ok"
  using assms(1,4) keeps_others [OF assms(2,3)] keeps_others [OF assms(2) keeps_others [OF assms(2,3)]]
  by (auto simp: may_write_def Let_def split: if_splits)

lemma quiet_write:
  assumes "Q = paused \<or> Q = lw_shutdown" "env_keeps Q env" "Q w"
    and "write_phase env sp pp cmds dn (s, w) = (calls, stop, dn', s', w')"
  shows "list_all forced_call calls"
proof (cases "forced_pct (ts_decision (sp_tick sp))")
  case (Some p)
  let ?b = "case cmds of Some c \<Rightarrow> c | None \<Rightarrow> []"
  let ?r = "reach_for_duty p (pp_members pp) (pp_held pp) (sp_latched sp)"
  let ?w = "le_others env w"
  obtain scope o1 h1 w1 where f: "force_present_backends (bo_openfan_force (le_ops env)) (bo_hwmon_force (le_ops env)) p ?b ?r
      (ls_openfan s, ls_hwmon s, ?w) = (scope, o1, h1, w1)" by (metis prod.exhaust)
  obtain ok w2 where m: "may_write env w1 = (ok, w2)" by (rule prod.exhaust)
  have "\<not> ok" by (rule quiet_may_write [OF assms(1,2) force_keeps(1) [OF assms(2) keeps_others [OF assms(2,3)] f] m])
  then show ?thesis using assms(4) Some f m by (auto simp: write_phase_def forced_phase_def forced_gpu_def Let_def)
next
  case None
  obtain ok w2 where m: "may_write env w = (ok, w2)" by (rule prod.exhaust)
  have ok: "\<not> ok" by (rule quiet_may_write [OF assms(1-3) m])
  note o = keeps_others [OF assms(2)]
  have "Q (le_others env w)" "Q (le_others env (le_others env w))" by (intro o assms(3))+
  then show ?thesis
    using assms(1,4) None ok m
    by (auto simp: write_phase_def no_profile_phase_def apply_phase_def Let_def split: option.splits if_splits)
qed


section \<open>What a tick publishes\<close>

lemma control_state_published [simp]:
  "ev_skipped_controls (update_control_state sk outs v) = sk" "ev_control_outputs (update_control_state sk outs v) = outs"
  "ev_pump_stalls (update_control_state sk outs v) = ev_pump_stalls v" "ev_stamps (update_control_state sk outs v) = ev_stamps v"
  "ev_keepalives (update_control_state sk outs v) = ev_keepalives v"
  by (simp_all add: update_control_state_def)

lemma cooling_watch_published [simp]:
  "ev_pump_stalls (update_cooling_watch st ad v) = st" "ev_cooling_advisories (update_cooling_watch st ad v) = ad"
  "ev_skipped_controls (update_cooling_watch st ad v) = ev_skipped_controls v"
  "ev_control_outputs (update_cooling_watch st ad v) = ev_control_outputs v" "ev_stamps (update_cooling_watch st ad v) = ev_stamps v"
  "ev_keepalives (update_cooling_watch st ad v) = ev_keepalives v"
  by (simp_all add: update_cooling_watch_def)

lemma publish_view:
  assumes "\<And>w. lw_view (others w) = lw_view w"
  shows "ev_skipped_controls (lw_view (publish others dn w)) = tc_skipped dn"
    "ev_control_outputs (lw_view (publish others dn w)) = tc_outputs dn"
    "ev_pump_stalls (lw_view (publish others dn w)) = tc_pump_stalls dn"
    "ev_cooling_advisories (lw_view (publish others dn w)) = tc_advisories dn"
    "ev_keepalives (lw_view (publish others dn w)) = Suc (ev_keepalives (lw_view w))"
    "et_completed (ev_stamps (lw_view (publish others dn w))) \<noteq> None"
    "et_writes_stalled_since (ev_stamps (lw_view (publish others dn w))) \<noteq> None \<longleftrightarrow> tc_writes_outstanding dn"
  by (simp_all add: publish_def Let_def assms watchdog_tick_def record_engine_tick_complete_def record_engine_write_stall_def
      split: option.split)

lemma skipped_after_forced [simp]: "skipped_snapshot (reset_for_forced_tick st) = skipped_snapshot st"
  by (simp add: skipped_snapshot_def reset_for_forced_tick_def)

lemma no_outputs: "outputs_snapshot (reset_for_forced_tick st) = []" "outputs_snapshot (deactivate st) = []"
  "outputs_snapshot (snd (commit_skips now st)) = outputs_snapshot st"
  by (simp_all add: outputs_snapshot_def reset_for_forced_tick_def deactivate_def deactivate_tuning_only_def commit_skips_def
      split: prod.split)

definition same_watch :: "('o, 'h, 'g) LoopState \<Rightarrow> ('o, 'h, 'g) LoopState \<Rightarrow> bool" where
  "same_watch s s' = (ls_pump_watch s' = ls_pump_watch s \<and> ls_advisory s' = ls_advisory s)"

lemma calls_keep_watch:
  shows "call_gpu env c gm (cs, s, w) = (cs', s', w') \<Longrightarrow> same_watch s s'"
    and "call_openfan env c m held (cs, s, w) = (cs', s', w') \<Longrightarrow> same_watch s s'"
    and "call_hwmon env c m (cs, s, w) = (cs', s', w') \<Longrightarrow> same_watch s s'"
  by (auto simp: call_gpu_def call_openfan_def call_hwmon_def same_watch_def split: prod.splits option.splits)

lemma no_profile_watch:
  assumes "no_profile_phase env pp (s, w) = (calls, s', w')" shows "same_watch s s'"
proof -
  obtain ok w1 where m: "may_write env w = (ok, w1)" by (rule prod.exhaust)
  obtain c2 s2 w2 where 2: "call_openfan env [] (pp_members pp) (pp_held pp) ([], s, w1) = (c2, s2, w2)" by (metis prod.exhaust)
  obtain c3 s3 w3 where 3: "call_hwmon env [] (pp_members pp) (c2, s2, w2) = (c3, s3, w3)" by (metis prod.exhaust)
  obtain c4 s4 w4 where 4: "call_gpu env [] (pp_gpu_members pp) (c3, s3, w3) = (c4, s4, w4)" by (metis prod.exhaust)
  show ?thesis using assms m 2 3 4 calls_keep_watch(2) [OF 2] calls_keep_watch(3) [OF 3] calls_keep_watch(1) [OF 4]
    by (auto simp: no_profile_phase_def same_watch_def split: if_splits)
qed

lemma apply_watch:
  assumes "apply_phase env pp c (s, w) = (calls, s', w')" shows "same_watch s s'"
proof -
  obtain c2 s2 w2 where 2: "call_openfan env c (pp_members pp) (pp_held pp) ([], s, w) = (c2, s2, w2)" by (metis prod.exhaust)
  obtain c3 s3 w3 where 3: "call_gpu env c (pp_gpu_members pp) (c2, s2, w2) = (c3, s3, w3)" by (metis prod.exhaust)
  obtain c4 s4 w4 where 4: "call_hwmon env c (pp_members pp) (c3, s3, w3) = (c4, s4, w4)" by (metis prod.exhaust)
  show ?thesis using assms 2 3 4 calls_keep_watch(2) [OF 2] calls_keep_watch(1) [OF 3] calls_keep_watch(3) [OF 4]
    by (auto simp: apply_phase_def same_watch_def split: if_splits)
qed

lemma forced_watch: "forced_phase env sp pp cmds p (s, w) = (calls, s', w') \<Longrightarrow> same_watch s s'"
  by (auto simp: forced_phase_def forced_gpu_def Let_def call_gpu_def same_watch_def split: prod.splits if_splits)

lemma write_published:
  assumes "write_phase env sp pp cmds dn (s, w) = (calls, stop, dn', s', w')"
    and "tc_outputs dn = []" "cmds = None \<Longrightarrow> outputs_snapshot (ls_engine s) = []"
  shows "same_watch s s'" "skipped_snapshot (ls_engine s') = skipped_snapshot (ls_engine s)"
    and "tc_outputs dn' = outputs_snapshot (ls_engine s')" "tc_skipped dn' = tc_skipped dn"
    and "tc_pump_stalls dn' = tc_pump_stalls dn" "tc_advisories dn' = tc_advisories dn"
proof -
  let ?s = "s\<lparr>ls_force_log := snd (on_normal_tick (ls_force_log s))\<rparr>"
  obtain c1 s1 w1 where 1: "forced_phase env sp pp cmds (the (forced_pct (ts_decision (sp_tick sp)))) (s, le_others env w) = (c1, s1, w1)"
    by (metis prod.exhaust)
  obtain c2 s2 w2 where 2: "no_profile_phase env pp (?s, w) = (c2, s2, w2)" by (metis prod.exhaust)
  obtain c3 s3 w3 where 3: "apply_phase env pp (the cmds) (?s, le_others env (le_others env w)) = (c3, s3, w3)" by (metis prod.exhaust)
  have sw: "same_watch s ?s" by (simp add: same_watch_def)
  note kept = forced_watch [OF 1] no_profile_watch [OF 2] apply_watch [OF 3] sw
    forced_phase_calls(2) [OF 1] conjunct2 [OF no_profile_calls [OF 2]] conjunct2 [OF apply_calls [OF 3]]
  show "same_watch s s'" using assms(1) 1 2 3 kept
    by (auto simp: write_phase_def Let_def same_watch_def split: option.splits if_splits)
  show "skipped_snapshot (ls_engine s') = skipped_snapshot (ls_engine s)" using assms(1) 1 2 3 kept
    by (auto simp: write_phase_def Let_def split: option.splits if_splits)
  show "tc_outputs dn' = outputs_snapshot (ls_engine s')" using assms 1 2 3 kept
    by (auto simp: write_phase_def Let_def no_outputs split: option.splits if_splits)
  show "tc_skipped dn' = tc_skipped dn" "tc_pump_stalls dn' = tc_pump_stalls dn" "tc_advisories dn' = tc_advisories dn"
    using assms(1) 1 2 3 by (auto simp: write_phase_def Let_def split: option.splits if_splits)
qed

lemma idle_profile:
  assumes "profile_phase env snap sensors (s, w) = (pp, s', w')" "pp_commands pp = None"
  shows "outputs_snapshot (ls_engine s') = []"
  using assms by (auto simp: profile_phase_def Let_def no_outputs split: option.splits prod.splits)

lemma safety_view:
  assumes "\<And>w. lw_view (le_others env w) = lw_view w" "safety_phase env (adopt_controller env (s, w)) = (sp, s', w')"
  shows "ev_keepalives (lw_view w') = ev_keepalives (lw_view w)"
  using assms(2) by (auto simp: adopt_controller_def safety_phase_def Let_def record_engine_safety_def assms(1) split: prod.splits if_splits)

text \<open>C5: the published control state is the engine's, and every tick keeps the watchdog alive. Whatever
  path a tick takes (forced, without a profile, held by a diagnostic, ended by a shutdown), when it is over the
  cache shows the skips, the outputs, the pump stalls and the advisories of the engine's own state, and exactly
  one keep-alive was sent.\<close>

theorem every_tick_reports:
  assumes "\<And>v. env_keeps (\<lambda>w. lw_view w = v) env" "loop_tick env (s, w) = (calls, stop, s', w')"
  shows "ev_skipped_controls (lw_view w') = skipped_snapshot (ls_engine s') \<and>
    ev_control_outputs (lw_view w') = outputs_snapshot (ls_engine s') \<and>
    ev_pump_stalls (lw_view w') = stall_snapshot (ls_pump_watch s') \<and>
    ev_cooling_advisories (lw_view w') = advisory_snapshot (ls_advisory s') \<and>
    et_completed (ev_stamps (lw_view w')) \<noteq> None \<and>
    ev_keepalives (lw_view w') = Suc (ev_keepalives (lw_view w))"
proof -
  obtain sp s1 w1 snap s2 w2 pp s3 w3 cmds s4 w4 dn dn' w5 where
    1: "safety_phase env (adopt_controller env (s, w)) = (sp, s1, w1)" and 2: "overlay_phase env (s1, w1) = (snap, s2, w2)"
    and 3: "profile_phase env snap (sp_sensors sp) (s2, w2) = (pp, s3, w3)" and 4: "watch_phase env sp pp (s3, w3) = (cmds, s4, w4)"
    and dn: "dn = \<lparr>tc_skipped = skipped_snapshot (ls_engine s4), tc_outputs = [], tc_writes_outstanding = backends_stalled env (s1, w1),
       tc_pump_stalls = stall_snapshot (ls_pump_watch s4), tc_advisories = advisory_snapshot (ls_advisory s4)\<rparr>"
    and 5: "write_phase env sp pp cmds dn (s4, w4) = (calls, stop, dn', s', w5)" and 6: "w' = publish (le_others env) dn' w5"
    using tick_phases [OF assms(2)] by metis
  have o: "lw_view (le_others env v) = lw_view v" for v using keeps_others [OF assms(1), of v] by simp
  let ?P = "\<lambda>v. lw_view v = lw_view w1"
  note k = assms(1) [of "lw_view w1"]
  have "?P w2" by (rule overlay_keeps(1) [OF k _ refl 2]) simp
  then have "?P w4" by (rule watch_keeps(1) [OF k profile_keeps(1) [OF k _ 3] 4])
  then have v5: "?P w5" using write_keeps [OF k _ 5] by blast
  obtain now where e4: "ls_engine s4 = snd (commit_skips now (ls_engine s3))" using watch_ready(2) [OF 4] by blast
  have "outputs_snapshot (ls_engine s4) = []" if "cmds = None"
    using watch_ready(3) [OF 4] idle_profile [OF 3] that by (auto simp: e4 no_outputs)
  note p = write_published [OF 5 _ this, unfolded dn, simplified]
  note v = publish_view [of "le_others env" dn' w5, OF o, folded 6]
  show ?thesis using p v v5 safety_view [OF o 1] by (simp add: same_watch_def)
qed

section \<open>Witnesses\<close>

theorem every_tick_reports_witness:
  "ev_keepalives (lw_view (snd (snd (snd (loop_tick idle_env (loop_start (Some ()) (Some ()) () hot_world, hot_world)))))) = 1"
proof -
  obtain cs stop s' w' where t: "loop_tick idle_env (loop_start (Some ()) (Some ()) () hot_world, hot_world) = (cs, stop, s', w')"
    by (metis prod.exhaust)
  show ?thesis using every_tick_reports [OF idle_keeps t] unfolding t by (simp add: hot_world_def)
qed

definition diagnostic_world :: "unit LoopWorld" where
  "diagnostic_world = hot_world\<lparr>lw_profile := Some pump_profile,
     lw_state := daemon_state_default\<lparr>ds_verify_in_progress := True, ds_verify_active_until := Some 100\<rparr>\<rparr>"


text \<open>A machine without a CPU sensor, in its first tick, with a manual profile at 5 for a pump.\<close>

definition pump_world :: "unit LoopWorld" where
  "pump_world = hot_world\<lparr>lw_sensors := [], lw_profile := Some pump_profile\<rparr>"

definition pump_world_like :: "unit LoopWorld \<Rightarrow> bool" where
  "pump_world_like w = (lw_profile w = Some pump_profile \<and> lw_overrides w = table_new \<and> lw_roles w = [] \<and> lw_epoch w = 0 \<and>
     lw_unavailable w = [] \<and> lw_sensors w = [] \<and> \<not> lw_shutdown w \<and> \<not> paused w)"

lemma pump_world_keeps: "own_steps pump_world_like" "pump_world_like pump_world"
  by (simp_all add: own_steps_def pump_world_like_def pump_world_def hot_world_def
      paused_def verify_active_at_def record_engine_safety_def record_thermal_state_def daemon_state_default_def
      sweep_def table_new_def hm_retain_def)

lemma pump_decision: "forced_pct (ts_decision (fst (safety_leg (tick_input idle_env pump_world)
    (loop_safety (loop_start (Some ()) (Some ()) () pump_world, pump_world))))) = None"
  by (simp add: tick_input_def idle_env_def loop_safety_def loop_start_def pump_world_def hot_world_def safety_leg_eq Let_def
      evaluate_safety_tick_eq evaluate_coolant_tick_eq cpu_in_def coolant_in_def hottest_cpu_reading_def hottest_coolant_reading_def
      hottest_reading_where_def rule_after_def thermal_consts rule_new_def rule_coolant_def
      decision_NORMAL_def)

lemma pump_snapshot: "Control_Override.snapshot now table_new = snapshot_default" "sweep now table_new = (\<lparr>swept_controls = [], swept_fans = []\<rparr>, table_new)"
  by (simp_all add: Control_Override.snapshot_def table_new_def snapshot_default_def hm_collect_def sweep_def dropped_def hm_retain_def)

lemma pump_phases:
  assumes 1: "safety_phase idle_env (adopt_controller idle_env (loop_start (Some ()) (Some ()) () pump_world, pump_world)) = (sp, s1, w1)"
    and 2: "overlay_phase idle_env (s1, w1) = (snap, s2, w2)" and 3: "profile_phase idle_env snap (sp_sensors sp) (s2, w2) = (pp, s3, w3)"
    and 4: "watch_phase idle_env sp pp (s3, w3) = (cmds, s4, w4)"
  shows "forced_pct (ts_decision (sp_tick sp)) = None" "pp_commands pp = Some [command_for pump_member 30]"
    "ls_openfan s4 \<noteq> None" "pump_world_like w4"
proof -
  let ?s = "loop_start (Some ()) (Some ()) () pump_world"
  note leg = safety_phase_leg [OF idle_env_keeps 1]
  note k = safety_keeps [OF idle_keeps pump_world_keeps 1]
  show "forced_pct (ts_decision (sp_tick sp)) = None" using leg(1) pump_decision by simp
  have sn: "sp_sensors sp = []" using k(2) by (auto simp: pump_world_def hm_retain_def)
  have e1: "ls_engine s1 = engine_new" "ls_last_epoch s1 = 0" "ls_hwmon s1 = Some ()"
    using k(3,4) leg(4) by (simp_all add: loop_start_def pump_world_def hot_world_def)
  note ov = overlay_keeps [OF idle_keeps own_sweep [OF pump_world_keeps(1)] k(1) 2]
  have ov2: "snap = snapshot_default" "ls_engine s2 = set_header_facts [] (set_assigned_roles [] engine_new)" "ls_last_epoch s2 = 0"
    using 2 k(1) e1 by (auto simp: overlay_phase_def Let_def pump_world_like_def pump_snapshot idle_env_def idle_ops_def split: prod.splits)
  note pk = profile_keeps [of pump_world_like, OF idle_keeps ov(1) 3] and wk = watch_keeps [of pump_world_like, OF idle_keeps _ 4]
  have "fst (evaluate_profile_with_overrides pump_profile [] snapshot_default
      ((set_header_facts [] (set_assigned_roles [] engine_new))\<lparr>quarantined_sensor_ids := []\<rparr>)) = [command_for pump_member 30]"
    using pump_tick by (simp add: engine_tick_def blank_tick_def engine_run_def)
  then show "pp_commands pp = Some [command_for pump_member 30]"
    using 3 ov(1) ov2 sn by (auto simp: profile_phase_def Let_def pump_world_like_def split: prod.splits)
  show "pump_world_like w4" using wk(1) pk(1) by simp
  show "ls_openfan s4 \<noteq> None" using leg(5) ov(2) pk(2) wk(2) [OF pk(1)] by (simp add: same_leg_def loop_start_def)
qed

lemma raise_member [simp]: "cmd_member_id (raise_command i cmd) = cmd_member_id cmd"
  by (simp add: raise_command_def)

lemma raised_still_there:
  "cmd \<in> set cmds \<Longrightarrow> \<exists>cmd' \<in> set (apply_stall_response raised cmds). cmd_member_id cmd' = cmd_member_id cmd"
proof (induction raised arbitrary: cmd cmds)
  case (Cons i raised)
  have "raise_command i cmd \<in> set (raise_header i cmds) \<or> cmd \<in> set (raise_header i cmds)"
    using Cons.prems by (simp add: raise_header_def)
  then obtain cmd1 where "cmd1 \<in> set (raise_header i cmds)" "cmd_member_id cmd1 = cmd_member_id cmd" by fastforce
  then show ?case using Cons.IH [of cmd1 "raise_header i cmds"] by (simp add: apply_stall_response_def)
qed (auto simp: apply_stall_response_def)

lemma applied_to_openfan:
  assumes "apply_phase idle_env pp c (s, w) = (calls, s', w')" "ls_openfan s \<noteq> None" "\<not> paused w"
  shows "\<exists>call \<in> set calls. call_commands call = c"
  using assms
  by (auto simp: apply_phase_def call_openfan_def call_gpu_def call_hwmon_def split: prod.splits option.splits)

theorem every_command_keeps_its_floor_witness:
  "\<exists>calls \<in> set (fst (engine_loop idle_env [WakeTick] (loop_start (Some ()) (Some ()) () pump_world, pump_world))).
     \<exists>call \<in> set calls. \<exists>cmd \<in> set (call_commands call).
       cmd_member_id cmd = cm_member_id pump_member \<and> cmd_pwm_percent cmd \<le> 100 \<and> 30 \<le> cmd_pwm_percent cmd"
proof -
  let ?s = "loop_start (Some ()) (Some ()) () pump_world"
  obtain calls stop s' w' where t: "loop_tick idle_env (?s, pump_world) = (calls, stop, s', w')" by (metis prod.exhaust)
  obtain ended st where run: "engine_loop idle_env [WakeTick] (?s, pump_world) = ([calls], ended, st)"
    using t by (cases stop) (auto simp: wake_stops_def)
  obtain sp s1 w1 snap s2 w2 pp s3 w3 cmds s4 w4 dn dn' w5 where
    1: "safety_phase idle_env (adopt_controller idle_env (?s, pump_world)) = (sp, s1, w1)"
    and 2: "overlay_phase idle_env (s1, w1) = (snap, s2, w2)" and 3: "profile_phase idle_env snap (sp_sensors sp) (s2, w2) = (pp, s3, w3)"
    and 4: "watch_phase idle_env sp pp (s3, w3) = (cmds, s4, w4)"
    and 5: "write_phase idle_env sp pp cmds dn (s4, w4) = (calls, stop, dn', s', w5)" using tick_phases [OF t] by metis
  note ph = pump_phases [OF 1 2 3 4]
  obtain raised where c: "cmds = Some (apply_stall_response raised [command_for pump_member 30])"
    using watch_ready(3) [OF 4] ph(2) by auto
  let ?cs = "apply_stall_response raised [command_for pump_member 30]"
  let ?s4 = "s4\<lparr>ls_force_log := snd (on_normal_tick (ls_force_log s4))\<rparr>"
  obtain cs1 s5 w6 where a: "apply_phase idle_env pp ?cs (?s4, w4) = (cs1, s5, w6)" by (metis prod.exhaust)
  have "calls = cs1" using 5 ph(1,4) a by (auto simp: write_phase_def c Let_def pump_world_like_def)
  then obtain call where call: "call \<in> set calls" "call_commands call = ?cs"
    using applied_to_openfan [OF a] ph(3,4) by (auto simp: pump_world_like_def)
  obtain cmd where cmd: "cmd \<in> set ?cs" "cmd_member_id cmd = cm_member_id pump_member"
    using raised_still_there [of "command_for pump_member 30" "[command_for pump_member 30]" raised] by (auto simp: command_for_def)
  have wb: "well_behaved {pump_profile} {} idle_env" by (simp add: well_behaved_def idle_keeps)
  have ws: "world_sane {pump_profile} {} pump_world"
    by (simp add: world_sane_def pump_world_def hot_world_def sensors_sane_def table_new_def)
  have "cmd_pwm_percent cmd \<le> 100 \<and> (named_hard {pump_profile} cmd \<longrightarrow> 30 \<le> cmd_pwm_percent cmd)"
    by (rule every_command_keeps_its_floor [OF _ wb ws run, of calls call]) (use pump_profile_ok call cmd in auto)
  moreover have "named_hard {pump_profile} cmd"
    using pump_member_hard by (simp add: named_hard_def pump_profile_def pump_control_def)
  ultimately show ?thesis using call cmd unfolding run by (auto intro!: bexI [of _ call] bexI [of _ cmd])
qed

end
