(* ===== verification/Port_Survey.thy ===== *)
theory Port_Survey
  imports Write_Slot Serial_Protocol "HOL-Library.Multiset"
begin

text \<open>
  Which serial ports may be opened, and which of them becomes the fan controller (\<open>serial/adoption.rs\<close>).
  Opening a tty resets Arduino-class boards, so the search for a lost controller opens the port the user
  named, the node the controller was on, and nodes that appeared since. \<open>observe\<close> is the identity of the
  node a path names, one function per attempt.
\<close>

section \<open>Candidates\<close>

definition push_new :: "string list \<Rightarrow> string \<Rightarrow> string list" where
  "push_new candidates p = (if p \<in> set candidates then candidates else candidates @ [p])"

definition serial_port_candidates :: "string option \<Rightarrow> string option \<Rightarrow> string list" where
  "serial_port_candidates configured detected =
     (let candidates = (case configured of Some c \<Rightarrow> [c] | None \<Rightarrow> [])
      in case detected of Some d \<Rightarrow> push_new candidates d | None \<Rightarrow> candidates)"

definition serial_port_candidates_enumerated :: "string option \<Rightarrow> string list \<Rightarrow> string list" where
  "serial_port_candidates_enumerated configured enumerated =
     foldl push_new (case configured of Some c \<Rightarrow> [c] | None \<Rightarrow> []) enumerated"

definition same_port_set :: "string list \<Rightarrow> string list \<Rightarrow> bool" where
  "same_port_set a b = (length a = length b \<and> sort a = sort b)"

definition post_boot_adoption_window :: "bool \<Rightarrow> duration" where
  "post_boot_adoption_window configured = secs (if configured then 180 else 60)"

text \<open>Opening a port, the exchange the handshake has with it (what the write said, when it started, the
  lines that follow) and the report of a port that opened without identifying, over any world. The outer
  \<open>None\<close> is a handshake cut short of reads.\<close>

fun first_openfan_port :: "(string \<Rightarrow> 'w \<Rightarrow> (SerialError + 't) \<times> 'w) \<Rightarrow>
    ('t \<Rightarrow> 'w \<Rightarrow> (SerialError + unit) \<times> instant \<times> device_reads \<times> 'w) \<Rightarrow> (string \<Rightarrow> 'w \<Rightarrow> 'w) \<Rightarrow> duration \<Rightarrow>
    string list \<Rightarrow> 'w \<Rightarrow> ((string \<times> 't) option \<times> 'w) option" where
  "first_openfan_port open_port shake unanswered timeout [] w = Some (None, w)"
| "first_openfan_port open_port shake unanswered timeout (port # ports) w =
     (case open_port port w of
        (Inl e, w) \<Rightarrow> first_openfan_port open_port shake unanswered timeout ports w
      | (Inr t, w) \<Rightarrow>
          (case shake t w of
             (written, start, reads, w) \<Rightarrow>
               (case verify_openfan_identity written start timeout reads of
                  None \<Rightarrow> None
                | Some (Inr _) \<Rightarrow> Some (Some (port, t), w)
                | Some (Inl e) \<Rightarrow>
                    first_openfan_port open_port shake unanswered timeout ports (unanswered port w))))"

section \<open>The survey\<close>

definition RECONNECT_NEW_NODE_WINDOW :: duration where "RECONNECT_NEW_NODE_WINDOW = secs 60"
definition RECONNECT_NEW_NODE_MIN_OPENS :: u32 where "RECONNECT_NEW_NODE_MIN_OPENS = 4"
definition RECONNECT_NEW_NODE_SLOW_RETRY :: duration where "RECONNECT_NEW_NODE_SLOW_RETRY = secs 300"

type_synonym port_node = "string \<times> node_id"

record FreshNode =
  fn_node :: port_node
  fn_first_seen :: instant
  fn_last_open :: instant
  fn_opens :: u32

record ReconnectSurvey =
  rs_configured :: "string option"
  rs_adopted :: "port_node option"
  rs_baseline :: "port_node list"
  rs_fresh :: "FreshNode list"

definition fresh_due :: "instant \<Rightarrow> FreshNode \<Rightarrow> bool" where
  "fresh_due now f =
     (fn_opens f < RECONNECT_NEW_NODE_MIN_OPENS \<or> now - fn_first_seen f < RECONNECT_NEW_NODE_WINDOW \<or>
      RECONNECT_NEW_NODE_SLOW_RETRY \<le> now - fn_last_open f)"

definition observed :: "(string \<Rightarrow> node_id option) \<Rightarrow> string list \<Rightarrow> port_node list" where
  "observed observe paths = List.map_filter (\<lambda>p. map_option (Pair p) (observe p)) paths"

definition survey_new :: "string option \<Rightarrow> string \<Rightarrow> string list \<Rightarrow> (string \<Rightarrow> node_id option) \<Rightarrow> ReconnectSurvey" where
  "survey_new configured adopted seed observe =
     \<lparr>rs_configured = configured, rs_adopted = map_option (Pair adopted) (observe adopted),
      rs_baseline = observed observe seed, rs_fresh = []\<rparr>"

definition push_port :: "string \<Rightarrow> node_id \<Rightarrow> port_node list \<Rightarrow> port_node list" where
  "push_port path i out =
     (if path \<in> set (map fst out) \<or> i \<in> set (map snd out) then out else out @ [(path, i)])"

text \<open>The schedule of the first fresh node for \<open>entry\<close>; whether it is opened now.\<close>

fun touch_fresh :: "instant \<Rightarrow> port_node \<Rightarrow> FreshNode list \<Rightarrow> bool \<times> FreshNode list" where
  "touch_fresh now entry [] = (False, [])"
| "touch_fresh now entry (f # fs) =
     (if fn_node f = entry
      then if fn_opens f = 0 \<or> fresh_due now f
           then (True, f\<lparr>fn_opens := min (fn_opens f + 1) (2 ^ 32 - 1), fn_last_open := now\<rparr> # fs)
           else (False, f # fs)
      else case touch_fresh now entry fs of (b, fs) \<Rightarrow> (b, f # fs))"

definition plan_entry :: "instant \<Rightarrow> port_node list \<Rightarrow> port_node \<Rightarrow> FreshNode list \<times> port_node list \<Rightarrow> FreshNode list \<times> port_node list" where
  "plan_entry now baseline entry = (\<lambda>(fresh, out).
     let fresh = (if entry \<notin> set baseline \<and> \<not> list_ex (\<lambda>f. fn_node f = entry) fresh
                  then fresh @ [\<lparr>fn_node = entry, fn_first_seen = now, fn_last_open = now, fn_opens = 0\<rparr>] else fresh)
     in case touch_fresh now entry fresh of
          (opens, fresh) \<Rightarrow> (fresh, if opens then push_port (fst entry) (snd entry) out else out))"

text \<open>The plan with the identity each path was pushed with; the code keeps the two in two lists.\<close>

definition plan_nodes :: "string list \<Rightarrow> (string \<Rightarrow> node_id option) \<Rightarrow> instant \<Rightarrow> ReconnectSurvey \<Rightarrow> port_node list \<times> ReconnectSurvey" where
  "plan_nodes candidates observe now s =
     (let out = (case rs_configured s of
                   Some c \<Rightarrow> (case observe c of Some i \<Rightarrow> push_port c i [] | None \<Rightarrow> [])
                 | None \<Rightarrow> []);
          (out, adopted) = (case rs_adopted s of
                   Some (path, i) \<Rightarrow> if observe path = Some i then (push_port path i out, Some (path, i)) else (out, None)
                 | None \<Rightarrow> (out, None));
          observed_now = observed observe candidates;
          fresh = filter (\<lambda>f. fn_node f \<in> set observed_now) (rs_fresh s)
      in case fold (plan_entry now (rs_baseline s)) observed_now (fresh, out) of
           (fresh, out) \<Rightarrow> (out, s\<lparr>rs_adopted := adopted, rs_fresh := fresh, rs_baseline := observed_now\<rparr>))"

definition survey_plan :: "string list \<Rightarrow> (string \<Rightarrow> node_id option) \<Rightarrow> instant \<Rightarrow> ReconnectSurvey \<Rightarrow> string list \<times> ReconnectSurvey" where
  "survey_plan candidates observe now s = (case plan_nodes candidates observe now s of (out, s) \<Rightarrow> (map fst out, s))"

section \<open>What a plan may contain\<close>

lemma same_ports: "same_port_set a b \<longleftrightarrow> mset a = mset b"
proof
  assume "same_port_set a b"
  then have "mset (sort a) = mset (sort b)" by (simp add: same_port_set_def)
  then show "mset a = mset b" by simp
next
  assume m: "mset a = mset b"
  then have "length a = length b" by (metis size_mset)
  moreover have "sort a = sort b" by (rule properties_for_sort) (simp_all add: m)
  ultimately show "same_port_set a b" by (simp add: same_port_set_def)
qed

lemma push_new_fold: "distinct cs \<Longrightarrow> distinct (foldl push_new cs ps) \<and> set (foldl push_new cs ps) = set cs \<union> set ps"
  by (induction ps arbitrary: cs) (auto simp: push_new_def)

lemma configured_first:
  "take 1 (serial_port_candidates_enumerated (Some c) ps) = [c]" "take 1 (serial_port_candidates (Some c) d) = [c]"
proof -
  have "take 1 (foldl push_new (c # cs) ps) = [c]" for cs
    by (induction ps arbitrary: cs) (auto simp: push_new_def)
  then show "take 1 (serial_port_candidates_enumerated (Some c) ps) = [c]"
    by (simp add: serial_port_candidates_enumerated_def)
  show "take 1 (serial_port_candidates (Some c) d) = [c]"
    by (cases d) (auto simp: serial_port_candidates_def push_new_def Let_def)
qed

lemma candidates_distinct:
  "distinct (serial_port_candidates_enumerated configured ps) \<and>
   set (serial_port_candidates_enumerated configured ps) = set_option configured \<union> set ps"
  using push_new_fold [of "case configured of Some c \<Rightarrow> [c] | None \<Rightarrow> []" ps]
  by (auto simp: serial_port_candidates_enumerated_def split: option.splits)

text \<open>A port is adopted only on an answered handshake.\<close>

lemma adopted_port_answered:
  assumes "first_openfan_port open_port shake unanswered timeout ports w = Some (Some (p, t), w')"
  shows "p \<in> set ports \<and> (\<exists>w1 w2 written start reads. open_port p w1 = (Inr t, w2) \<and>
    shake t w2 = (written, start, reads, w') \<and> verify_openfan_identity written start timeout reads = Some (Inr ()))"
  using assms
proof (induction ports arbitrary: w)
  case (Cons q ports)
  obtain r w2 where o: "open_port q w = (r, w2)" by (rule prod.exhaust)
  show ?case
  proof (cases r)
    case (Inr u)
    obtain written start reads w3 where sh: "shake u w2 = (written, start, reads, w3)" by (rule prod_cases4)
    show ?thesis
    proof (cases "verify_openfan_identity written start timeout reads = Some (Inr ())")
      case True
      then have "q = p" "u = t" "w3 = w'" using Cons.prems o Inr sh by simp_all
      then show ?thesis using True o Inr sh by (simp, blast)
    next
      case False
      then show ?thesis using Cons.IH Cons.prems o Inr sh by (auto split: option.splits sum.splits)
    qed
  qed (use Cons.IH Cons.prems o in auto)
qed simp

definition plan_inv :: "(string \<Rightarrow> node_id option) \<Rightarrow> port_node list \<Rightarrow> bool" where
  "plan_inv observe out = (distinct (map fst out) \<and> distinct (map snd out) \<and> (\<forall>(p, i) \<in> set out. observe p = Some i))"

lemma push_port_inv: "plan_inv observe out \<Longrightarrow> observe p = Some i \<Longrightarrow> plan_inv observe (push_port p i out)"
  by (auto simp: plan_inv_def push_port_def)

lemma push_port_ids: "snd ` set (push_port p i out) \<subseteq> insert i (snd ` set out)" "snd ` set out \<subseteq> snd ` set (push_port p i out)"
  by (auto simp: push_port_def)

lemma push_port_opens: "plan_inv observe out \<Longrightarrow> observe p = Some i \<Longrightarrow> i \<in> snd ` set (push_port p i out)"
  by (force simp: push_port_def plan_inv_def)

lemma observed_iff: "(p, i) \<in> set (observed observe ps) \<longleftrightarrow> p \<in> set ps \<and> observe p = Some i"
  by (force simp: observed_def List.map_filter_def)

lemma plan_entry_inv:
  assumes "observe (fst e) = Some (snd e)" "plan_inv observe out" "plan_entry now base e (fresh, out) = (fresh', out')"
  shows "plan_inv observe out'" "snd ` set out \<subseteq> snd ` set out'"
  using assms push_port_ids(2) [of out "fst e" "snd e"]
  by (auto simp: plan_entry_def Let_def push_port_inv split: prod.splits if_splits)

lemma plan_fold_inv:
  assumes "\<forall>e \<in> set es. observe (fst e) = Some (snd e)" "plan_inv observe out"
    and "fold (plan_entry now base) es (fresh, out) = (fresh', out')"
  shows "plan_inv observe out' \<and> snd ` set out \<subseteq> snd ` set out'"
  using assms
proof (induction es arbitrary: fresh out)
  case (Cons e es)
  obtain fresh1 out1 where 1: "plan_entry now base e (fresh, out) = (fresh1, out1)" by (rule prod.exhaust)
  have "observe (fst e) = Some (snd e)" using Cons.prems(1) by simp
  note i = plan_entry_inv [OF this Cons.prems(2) 1]
  show ?case using Cons.IH [OF _ i(1), of fresh1] Cons.prems(1,3) 1 i(2) by auto
qed simp

text \<open>The ports the user named or the controller was on, before the fresh nodes.\<close>

definition plan_start :: "(string \<Rightarrow> node_id option) \<Rightarrow> ReconnectSurvey \<Rightarrow> port_node list" where
  "plan_start observe s =
     (let out = (case rs_configured s of
                   Some c \<Rightarrow> (case observe c of Some i \<Rightarrow> push_port c i [] | None \<Rightarrow> [])
                 | None \<Rightarrow> [])
      in case rs_adopted s of
           Some (path, i) \<Rightarrow> if observe path = Some i then push_port path i out else out
         | None \<Rightarrow> out)"

lemma plan_start_inv: "plan_inv observe (plan_start observe s)"
proof -
  have "plan_inv observe []" by (simp add: plan_inv_def)
  then show ?thesis by (auto simp: plan_start_def Let_def push_port_inv split: option.splits)
qed

lemma plan_nodes_fold:
  assumes "plan_nodes candidates observe now s = (out, s')"
  shows "fold (plan_entry now (rs_baseline s)) (observed observe candidates)
      (filter (\<lambda>f. fn_node f \<in> set (observed observe candidates)) (rs_fresh s), plan_start observe s) = (rs_fresh s', out)"
    and "rs_baseline s' = observed observe candidates" "rs_configured s' = rs_configured s"
    and "rs_adopted s' = None \<or> rs_adopted s' = rs_adopted s"
  using assms
  by (auto simp: plan_nodes_def plan_start_def Let_def split: prod.splits option.splits if_splits)

lemma plan_nodes_inv:
  assumes "plan_nodes candidates observe now s = (out, s')"
  shows "plan_inv observe out" "snd ` set (plan_start observe s) \<subseteq> snd ` set out"
proof -
  have "\<forall>e \<in> set (observed observe candidates). observe (fst e) = Some (snd e)" using observed_iff by fastforce
  from plan_fold_inv [OF this plan_start_inv plan_nodes_fold(1) [OF assms]]
  show "plan_inv observe out" "snd ` set (plan_start observe s) \<subseteq> snd ` set out" by auto
qed

section \<open>Bystanders and newcomers\<close>

lemma touch_fresh_nodes: "touch_fresh now e fs = (b, fs') \<Longrightarrow> map fn_node fs' = map fn_node fs"
  by (induction fs arbitrary: b fs') (auto split: if_splits prod.splits)

lemma touch_fresh_absent: "e \<notin> fn_node ` set fs \<Longrightarrow> touch_fresh now e fs = (False, fs)"
  by (induction fs) auto

lemma touch_fresh_new:
  "e \<notin> fn_node ` set fs \<Longrightarrow> fn_opens f = 0 \<Longrightarrow> fn_node f = e \<Longrightarrow> fst (touch_fresh now e (fs @ [f]))"
  by (induction fs) (auto split: prod.splits)

lemma plan_entry_nodes:
  assumes "plan_entry now base e (fresh, out) = (fresh', out')"
  shows "fn_node ` set fresh' \<subseteq> insert e (fn_node ` set fresh)"
    "b \<in> set base \<Longrightarrow> b \<notin> fn_node ` set fresh \<Longrightarrow> b \<notin> fn_node ` set fresh'"
proof -
  let ?f = "if e \<notin> set base \<and> \<not> list_ex (\<lambda>f. fn_node f = e) fresh
    then fresh @ [\<lparr>fn_node = e, fn_first_seen = now, fn_last_open = now, fn_opens = 0\<rparr>] else fresh"
  obtain b f2 where t: "touch_fresh now e ?f = (b, f2)" by (rule prod.exhaust)
  have "fresh' = f2" using assms t by (simp add: plan_entry_def Let_def)
  then have "fn_node ` set fresh' = fn_node ` set ?f"
    using touch_fresh_nodes [OF t] by (metis list.set_map)
  then show "fn_node ` set fresh' \<subseteq> insert e (fn_node ` set fresh)"
    "b \<in> set base \<Longrightarrow> b \<notin> fn_node ` set fresh \<Longrightarrow> b \<notin> fn_node ` set fresh'" for b
    by (auto split: if_splits)
qed

lemma plan_fold_nodes:
  "fold (plan_entry now base) es (fresh, out) = (fresh', out') \<Longrightarrow> fn_node ` set fresh' \<subseteq> fn_node ` set fresh \<union> set es"
proof (induction es arbitrary: fresh out)
  case (Cons e es)
  obtain f1 o1 where 1: "plan_entry now base e (fresh, out) = (f1, o1)" by (rule prod.exhaust)
  have "fn_node ` set fresh' \<subseteq> fn_node ` set f1 \<union> set es" using Cons.IH [of f1 o1] Cons.prems 1 by simp
  then show ?case using plan_entry_nodes(1) [OF 1] by auto
qed simp

lemma plan_entry_bystander:
  assumes "e \<in> set base" "e \<notin> fn_node ` set fresh" "fst x = fst e \<longrightarrow> x = e"
    and "plan_entry now base x (fresh, out) = (fresh', out')" "fst e \<in> fst ` set out'"
  shows "fst e \<in> fst ` set out"
proof (cases "x = e")
  case True
  then have "out' = out"
    using assms(1,2,4) by (simp add: plan_entry_def Let_def touch_fresh_absent)
  then show ?thesis using assms(5) by simp
next
  case False
  have push: "fst ` set (push_port p i out) \<subseteq> insert p (fst ` set out)" for p i by (auto simp: push_port_def)
  have "out' = out \<or> out' = push_port (fst x) (snd x) out"
    using assms(4) by (auto simp: plan_entry_def Let_def split: prod.splits if_splits)
  then have "fst ` set out' \<subseteq> insert (fst x) (fst ` set out)" using push [of "fst x" "snd x"] by blast
  then show ?thesis using assms(3,5) False by auto
qed

lemma plan_fold_bystander:
  assumes "\<forall>x \<in> set es. fst x = fst e \<longrightarrow> x = e" "e \<in> set base"
  shows "e \<notin> fn_node ` set fresh \<Longrightarrow> fold (plan_entry now base) es (fresh, out) = (fresh', out') \<Longrightarrow>
    e \<notin> fn_node ` set fresh' \<and> (fst e \<in> fst ` set out' \<longrightarrow> fst e \<in> fst ` set out)"
  using assms(1)
proof (induction es arbitrary: fresh out)
  case (Cons x es)
  obtain f1 o1 where 1: "plan_entry now base x (fresh, out) = (f1, o1)" by (rule prod.exhaust)
  have nf: "e \<notin> fn_node ` set f1" using plan_entry_nodes(2) [OF 1 assms(2) Cons.prems(1)] .
  have "fst e \<in> fst ` set o1 \<longrightarrow> fst e \<in> fst ` set out"
    using plan_entry_bystander [OF assms(2) Cons.prems(1) _ 1] Cons.prems(3) by auto
  then show ?case using Cons.IH [OF nf, of o1] Cons.prems(2,3) 1 by auto
qed simp

lemma plan_fold_newcomer:
  assumes "\<forall>x \<in> set es. observe (fst x) = Some (snd x)" "plan_inv observe out"
    and "fold (plan_entry now base) es (fresh, out) = (fresh', out')"
    and "e \<in> set es" "e \<notin> set base" "e \<notin> fn_node ` set fresh"
  shows "snd e \<in> snd ` set out'"
proof -
  obtain as bs where es: "es = as @ e # bs" "e \<notin> set as" using split_list_first [OF assms(4)] by blast
  obtain f1 o1 where 1: "fold (plan_entry now base) as (fresh, out) = (f1, o1)" by (rule prod.exhaust)
  obtain f2 o2 where 2: "plan_entry now base e (f1, o1) = (f2, o2)" by (rule prod.exhaust)
  have 3: "fold (plan_entry now base) bs (f2, o2) = (fresh', out')" using assms(3) es 1 2 by simp
  have ob: "observe (fst e) = Some (snd e)" using assms(1,4) by blast
  have i1: "plan_inv observe o1" using plan_fold_inv [OF _ assms(2) 1] assms(1) es(1) by auto
  have nf: "e \<notin> fn_node ` set f1" using plan_fold_nodes [OF 1] assms(6) es(2) by blast
  then have "\<not> list_ex (\<lambda>f. fn_node f = e) f1" by (auto simp: list_ex_iff)
  then have "o2 = push_port (fst e) (snd e) o1"
    using 2 assms(5) touch_fresh_new [OF nf, of "\<lparr>fn_node = e, fn_first_seen = now, fn_last_open = now, fn_opens = 0\<rparr>" now]
    by (auto simp: plan_entry_def Let_def split: prod.splits)
  then have "snd e \<in> snd ` set o2" using push_port_opens [OF i1 ob] by simp
  moreover have "plan_inv observe o2" using plan_entry_inv(1) [OF ob i1 2] .
  ultimately show ?thesis using plan_fold_inv [OF _ _ 3] assms(1) es(1) by auto
qed

section \<open>Over a whole search\<close>

type_synonym attempt = "string list \<times> (string \<Rightarrow> node_id option) \<times> instant"

definition survey_run :: "attempt list \<Rightarrow> ReconnectSurvey \<Rightarrow> ReconnectSurvey" where
  "survey_run as s = fold (\<lambda>(candidates, observe, now) s. snd (survey_plan candidates observe now s)) as s"

definition survey_ok :: "string option \<Rightarrow> port_node option \<Rightarrow> ReconnectSurvey \<Rightarrow> bool" where
  "survey_ok configured adopted s = (rs_configured s = configured \<and> (rs_adopted s = None \<or> rs_adopted s = adopted) \<and>
     fn_node ` set (rs_fresh s) \<subseteq> set (rs_baseline s))"

definition bystander :: "port_node \<Rightarrow> ReconnectSurvey \<Rightarrow> bool" where
  "bystander e s = (e \<in> set (rs_baseline s) \<and> e \<notin> fn_node ` set (rs_fresh s))"

lemma survey_plan_ok:
  assumes "survey_ok configured adopted s"
  shows "survey_ok configured adopted (snd (survey_plan candidates observe now s))"
proof -
  obtain out s' where p: "plan_nodes candidates observe now s = (out, s')" by (rule prod.exhaust)
  have "fn_node ` set (rs_fresh s') \<subseteq> set (rs_baseline s')"
    using plan_fold_nodes [OF plan_nodes_fold(1) [OF p]] plan_nodes_fold(2) [OF p] by auto
  then show ?thesis using assms plan_nodes_fold(3,4) [OF p] by (auto simp: survey_plan_def p survey_ok_def)
qed

lemma survey_plan_bystander:
  assumes "bystander e s" "fst e \<in> set candidates" "observe (fst e) = Some (snd e)"
    and "survey_plan candidates observe now s = (ports, s')"
  shows "bystander e s'" "fst e \<in> set ports \<Longrightarrow> fst e \<in> fst ` set (plan_start observe s)"
proof -
  obtain out where p: "plan_nodes candidates observe now s = (out, s')" "ports = map fst out"
    using assms(4) by (auto simp: survey_plan_def split: prod.splits)
  have obs: "e \<in> set (observed observe candidates)" using observed_iff assms(2,3) by (metis prod.collapse)
  have "\<forall>x \<in> set (observed observe candidates). fst x = fst e \<longrightarrow> x = e"
    using observed_iff assms(3) by (metis option.inject prod.collapse)
  note b = plan_fold_bystander [OF this _ _ plan_nodes_fold(1) [OF p(1)]]
  have "e \<notin> fn_node ` set (rs_fresh s') \<and> (fst e \<in> fst ` set out \<longrightarrow> fst e \<in> fst ` set (plan_start observe s))"
    by (rule b) (use assms(1) in \<open>auto simp: bystander_def\<close>)
  then show "bystander e s'" "fst e \<in> set ports \<Longrightarrow> fst e \<in> fst ` set (plan_start observe s)"
    using obs plan_nodes_fold(2) [OF p(1)] p(2) by (auto simp: bystander_def)
qed

lemma survey_run_ok:
  "survey_ok configured adopted s \<Longrightarrow> survey_ok configured adopted (survey_run as s)"
  unfolding survey_run_def by (induction as arbitrary: s) (auto simp: survey_plan_ok)

definition stays :: "port_node \<Rightarrow> attempt \<Rightarrow> bool" where
  "stays e = (\<lambda>(candidates, observe, now). fst e \<in> set candidates \<and> observe (fst e) = Some (snd e))"

lemma survey_run_bystander:
  "list_all (stays e) as \<Longrightarrow> bystander e s \<Longrightarrow> bystander e (survey_run as s)"
  unfolding survey_run_def
proof (induction as arbitrary: s)
  case (Cons a as)
  obtain cs ob now where a: "a = (cs, ob, now)" by (rule prod_cases3)
  have "bystander e (snd (survey_plan cs ob now s))"
    using survey_plan_bystander(1) [of e s cs ob now, OF Cons.prems(2)] Cons.prems(1)
    by (auto simp: a stays_def) (metis prod.collapse)
  then show ?case using Cons by (simp add: a)
qed simp

lemma plan_start_paths:
  "p \<in> fst ` set (plan_start observe s) \<Longrightarrow> rs_configured s = Some p \<or> (\<exists>i. rs_adopted s = Some (p, i) \<and> observe p = Some i)"
  by (auto simp: plan_start_def Let_def push_port_def split: option.splits if_splits prod.splits)


text \<open>The controller on \<open>a\<close> is unplugged; at the second attempt it is back as a new node \<open>c\<close>. The board on \<open>b\<close>
  was there all along.\<close>

definition lost_observe :: "string \<Rightarrow> node_id option" where
  "lost_observe p = (if p = ''b'' then Some (1, 2) else if p = ''c'' then Some (1, 9) else None)"


end
