(* ===== verification/Spec2Isabelle.thy ===== *)
theory Spec2Isabelle
  imports Thermal_Safety Engine_Properties Lease Sensor_Failure Cooling_Advisory Pump_Stall Fan_Controller
    Write_Slot Hwmon_Drift Hwmon_Return Firmware_Safety OpenFan_Watch Hwmon_Force Gpu_Text Gpu_Cards Loop_Floor Port_Survey
begin

text \<open>
  Verification library of control-ofc-daemon, a Linux daemon (Rust, \<open>daemon/src\<close>) that drives the fans and
  pumps of a PC: motherboard headers through hwmon sysfs, the ten channels of an OpenFan USB controller,
  and GPU fans. A polling side fills a shared state cache with temperatures and speeds; once a second the
  profile engine reads it, evaluates the active profile's curves into duties per fan and writes them; a
  thermal safety rule may force all fans; API clients may override a control for a while, identify a fan,
  run diagnostics, or update the OpenFan firmware; on exit every header the daemon took goes back to the
  firmware. The library models the decisions of those parts as functions and state machines over explicit
  states and proves what makes them correct.

  \<^bold>\<open>Conventions.\<close> (\<open>Ofc_Prelude\<close>, \<open>Float64\<close>) A struct is a \<open>record\<close>, an enum a \<open>datatype\<close>, an error a value
  of a sum. An operation with \<open>&mut self\<close> returns the new state. Instants and durations are natural numbers
  of nanoseconds, handed in as arguments where the code reads the clock. A \<open>HashMap\<close> is an association list
  whose order stands for the arbitrary iteration order; a \<open>BTreeMap\<close> is a red-black tree or a sorted set.
  Integers that cannot wrap are \<open>nat\<close>; counters that can are incremented modulo their width; firmware bytes
  and flash addresses are \<open>8 word\<close> and \<open>32 word\<close>. A temperature or duty in \<open>f64\<close> is the datatype \<open>f64\<close>: the
  rationals that binary64 holds, with rounding to nearest even, infinities and NaN. I/O (sysfs, the serial
  port, the USB interface, the journal) is a parameter: a record of operations over an arbitrary outside
  state, so that the theorems hold whatever the outside answers. Log lines are left out unless their
  decision is state.

  \<^bold>\<open>The theories and the code.\<close>
  \<^item> \<open>Thermal_Safety\<close>: \<open>safety.rs\<close>, \<open>profile_engine/safety_tick.rs\<close> and the sensor reductions of
    \<open>profile_engine/mod.rs\<close>: the latched CPU and coolant emergencies, the no-sensor fallback, their
    combination. The latches are shown to be exact functions of the history of readings.
  \<^item> \<open>Header_Roles\<close>, \<open>Memory_Id\<close>: \<open>hwmon/chip_name.rs\<close>, \<open>hwmon/aio.rs\<close>, \<open>hwmon/roles.rs\<close>, \<open>hwmon/memory_id.rs\<close>,
    the member ids of \<open>serial/mod.rs\<close>: names, roles, pump protection, resolution of saved ids.
  \<^item> \<open>Profile_Model\<close>, \<open>Cycle_Detect\<close>, \<open>Profile_Validate\<close>: \<open>profile.rs\<close>: the document, the stateless curves, the
    load-time net, the validator and its cycle search. A valid profile loads, is safe and has no cycle.
  \<^item> \<open>Engine_State\<close>, \<open>Skipped\<close>, \<open>Curve_Eval\<close>, \<open>Control_Order\<close>, \<open>Tuning\<close>, \<open>Profile_Engine\<close>, \<open>Engine_Properties\<close>:
    \<open>profile_engine/{mod,skipped,curve_eval,tuning}.rs\<close>: one tick of evaluation and the state it keeps;
    floors, deadband, Mix and Sync, order of controls, over whole histories of ticks.
  \<^item> \<open>Control_Override\<close>: \<open>control_override.rs\<close>: fenced, expiring overrides and identify holds.
  \<^item> \<open>Sensor_Failure\<close>, \<open>Cooling_Advisory\<close>, \<open>Pump_Stall\<close>: the watchers of \<open>health/sensor_failure.rs\<close>,
    \<open>profile_engine/cooling_advisory.rs\<close>, \<open>profile_engine/pump_stall.rs\<close>.
  \<^item> \<open>Serial_Protocol\<close>, \<open>Pwm_Duty\<close>, \<open>Fan_Controller\<close>: \<open>serial/protocol.rs\<close>, \<open>serial/transport.rs\<close>, \<open>pwm.rs\<close>,
    \<open>serial/controller.rs\<close>: frames, bounded exchanges (the two read budgets bound every loop), tracked writes.
  \<^item> \<open>Lease\<close>, \<open>Hand_Back\<close>, \<open>Hwmon_Control\<close>, \<open>Hwmon_Frame\<close>, \<open>Hwmon_Drift\<close>, \<open>Hwmon_Properties\<close>, \<open>Hwmon_Return\<close>:
    \<open>hwmon/lease.rs\<close>, \<open>hwmon/handback.rs\<close>, \<open>hwmon/pwm_control.rs\<close> and the lines of
    \<open>packaging/control-ofc-restore-auto.sh\<close> that replay the crash record: taking a header, writing it, correcting
    drift, giving it back. \<open>Hwmon_Frame\<close> reduces an invariant of the write path to its elementary steps.
  \<^item> \<open>Write_Slot\<close>: the diagnostic slot, the OpenFan link and the maintenance claim of \<open>health/cache.rs\<close> and
    \<open>health/state.rs\<close>.
  \<^item> \<open>Uf2\<close>, \<open>Picoboot\<close>, \<open>Firmware_Write\<close>, \<open>Firmware_Safety\<close>: \<open>serial/uf2.rs\<close>, \<open>serial/picoboot.rs\<close>,
    \<open>openfan_maintenance/firmware.rs\<close> and stage 4 of \<open>openfan_maintenance/run.rs\<close>: from an uploaded file to the
    board's flash.
  \<^item> \<open>Bounded_Write\<close>: at most one blocking write of a backend in flight, and every run within its budget
    (\<open>BoundedWrite\<close> of \<open>profile_engine/backends.rs\<close>). The async runtime is a parameter. \<open>Force_Scope\<close>: which
    outputs a forced duty reaches, and the log throttle of forced ticks.
  \<^item> \<open>OpenFan_Backend\<close>, \<open>OpenFan_Release\<close>, \<open>OpenFan_Watch\<close>: the engine's OpenFan backend over \<open>Fan_Controller\<close>.
    A task locks the controller per channel; what the rest of the daemon does between two locks is a
    parameter, bound in the properties by a rely condition (\<open>of_calm\<close>). The lemmas show that an emergency
    reaches every channel, that the duties known before it come back, that a released channel keeps the
    exit floor, and that nothing is written while a diagnostic or an update pauses the engine.
  \<^item> \<open>Hwmon_Backend\<close>, \<open>Hwmon_Force\<close>: the engine's hwmon backend over \<open>Hwmon_Control\<close>, in the same way. An
    emergency reaches every writable header however often another writer takes the lease; the engine's own
    task changes nothing from the moment a diagnostic has taken the lease.
  \<^item> \<open>Gpu_Curve\<close>, \<open>Gpu_Text\<close>: AMD GPU fan control (\<open>hwmon/gpu_fan.rs\<close>): the PMFW curve file, the flat curve
    and the reset, the legacy files and the two hand-back records. The lemmas show that a flat curve stays
    inside what the device accepts whatever its file says, and that the first recorded original stands.
    \<open>Gpu_Backend\<close>, \<open>Gpu_Diag\<close>: the three writers of a GPU fan, the engine's backend, the reset and the verify
    (\<open>profile_engine/backends.rs\<close>, \<open>api/handlers/gpu.rs\<close>). \<open>Gpu_Cards\<close>: over every order of the three, a
    card that may carry a curve of the daemon is on the list the exit puts back on firmware auto.
  \<^item> \<open>Engine_Loop\<close>: the engine's loop (\<open>profile_engine_loop\<close> of \<open>profile_engine/mod.rs\<close>): the phases of a tick,
    the publication of its result (\<open>TickCompletion\<close>, \<open>health/cache.rs\<close>) and the loop with its shutdown. The
    backends are a record of operations (\<open>BackendOps\<close>), the rest of the daemon acts between the locks
    (\<open>le_others\<close>); a run is over any list of wake-ups. \<open>Loop_Safety\<close>: an emergency is forced at every tick until
    the temperature releases it. \<open>Loop_Floor\<close>: on profiles whose tracker keys are apart no command of a run
    is below its fan's floor (\<open>Engine_Properties\<close> shows what a clash of keys does), a pause or a shutdown
    leaves only forced writes, every tick publishes the engine's own state.
  \<^item> \<open>Port_Survey\<close>: which serial ports may be opened (\<open>serial/adoption.rs\<close>): the candidates, the first port
    that answers the handshake, the survey of a lost controller. What a path names at an attempt is a
    parameter. The lemmas show that a port is adopted only on an answered handshake, that the survey never
    opens a bystander and that it opens a newcomer at once.

  \<^bold>\<open>Interfaces.\<close> Contracts that several components share are locales, each interpreted on the code's model:
  \<open>hash_map\<close> (the laws of a map, on association lists), \<open>token_fence\<close> (a superseded token is dead: overrides,
  the hwmon lease, the diagnostic slot), \<open>debounce_counter\<close> (a streak is its history: skipped controls, sensor
  quarantine), \<open>hold_window\<close> (a condition that must last: the advisory), \<open>latch_machine\<close> (set, hold, release:
  both emergencies), \<open>rounding\<close> (binary64).

  \<^bold>\<open>Not modelled.\<close> The HTTP layer (\<open>api/server.rs\<close>, \<open>api/handlers\<close>, \<open>api/responses.rs\<close>): requests are parsed and
  answered there, the operations they call are modelled where they are state machines. The wiring of
  \<open>main.rs\<close> and \<open>polling.rs\<close>: tasks, timers and channels of the tokio runtime. Discovery and probing (\<open>hwmon/discovery.rs\<close>, \<open>superio*.rs\<close>, \<open>gpu_*.rs\<close>, \<open>nvml*.rs\<close>, \<open>power.rs\<close>,
  \<open>serial/usb_identity.rs\<close>): walks of sysfs and foreign libraries. Data tables (\<open>hwmon/chip_db.rs\<close>,
  \<open>hwmon/voltage_catalogue*.rs\<close>). Diagnostics over minutes of hardware time (\<open>api/characterization.rs\<close>,
  \<open>api/calibration.rs\<close>, \<open>api/stall_probe.rs\<close>, \<open>validation/\<close>), the other stages of a firmware update, the
  configuration files and the tray program. JSON and TOML parsing is serde's.
\<close>

end
